(* ===== verification/Prelude.thy ===== *)
theory Prelude
  imports Main "HOL-Library.Word" "HOL-Library.Multiset"
begin

text \<open>
  Shared vocabulary of the development: the types that name Go's machine integers and
  strings, the parts of Go's package strings the modelled code calls, splitting of a string
  at a separator, and generic facts on lists, maps and multisets used by several components.

  A Go string is a byte sequence; it is modelled as \<^typ>\<open>string\<close>, a list of 8-bit characters.
  A Go error is a string (its message) on the left of a sum; a result is on the right.
\<close>

type_synonym u64 = "64 word"

type_synonym 'a go_result = "string + 'a"

named_theorems rbac_simps \<open>defining equations of the access control model\<close>

section \<open>Package strings\<close>

text \<open>\<open>strings.Index\<close>: position of the first occurrence, or -1.\<close>

fun is_prefix_of :: "string \<Rightarrow> string \<Rightarrow> bool" where
  "is_prefix_of [] s = True"
| "is_prefix_of (c # p) [] = False"
| "is_prefix_of (c # p) (d # s) = (c = d \<and> is_prefix_of p s)"

fun go_index :: "string \<Rightarrow> string \<Rightarrow> int" where
  "go_index [] sub = (if sub = [] then 0 else -1)"
| "go_index (c # s) sub =
     (if is_prefix_of sub (c # s) then 0
      else let i = go_index s sub in if i < 0 then -1 else i + 1)"

text \<open>\<open>strings.LastIndex\<close>: position of the last occurrence, or -1.\<close>

fun go_last_index :: "string \<Rightarrow> string \<Rightarrow> int" where
  "go_last_index [] sub = (if sub = [] then 0 else -1)"
| "go_last_index (c # s) sub =
     (let i = go_last_index s sub
      in if 0 \<le> i then i + 1 else if is_prefix_of sub (c # s) then 0 else -1)"

lemma go_index_ge: "-1 \<le> go_index s sub"
  by (induction s) (auto simp: Let_def)

lemma go_index_char_neg: "go_index s [c] = -1 \<longleftrightarrow> c \<notin> set s"
proof (induction s)
  case Nil
  then show ?case by simp
next
  case (Cons d s)
  have "-1 \<le> go_index s [c]" by (rule go_index_ge)
  with Cons show ?case by (auto simp: Let_def)
qed

lemma go_index_char_takeWhile:
  "c \<in> set s \<Longrightarrow> go_index s [c] = int (length (takeWhile (\<lambda>x. x \<noteq> c) s))"
proof (induction s)
  case Nil
  then show ?case by simp
next
  case (Cons d s)
  show ?case
  proof (cases "c = d")
    case True
    then show ?thesis by simp
  next
    case False
    with Cons.prems have "c \<in> set s" by simp
    with Cons.IH False show ?thesis by (simp add: Let_def)
  qed
qed

text \<open>\<open>strings.ToUpper\<close> and \<open>strings.ToLower\<close> on ASCII text (other bytes are kept).\<close>

definition upper_char :: "char \<Rightarrow> char" where
  "upper_char c =
     (if 97 \<le> (of_char c :: nat) \<and> (of_char c :: nat) \<le> 122 then char_of ((of_char c :: nat) - 32) else c)"

definition lower_char :: "char \<Rightarrow> char" where
  "lower_char c =
     (if 65 \<le> (of_char c :: nat) \<and> (of_char c :: nat) \<le> 90 then char_of ((of_char c :: nat) + 32) else c)"

definition to_upper :: "string \<Rightarrow> string" where
  "to_upper s = map upper_char s"

definition to_lower :: "string \<Rightarrow> string" where
  "to_lower s = map lower_char s"

text \<open>\<open>strings.TrimSpace\<close>: the white space of Unicode in UTF-8.\<close>

definition space_seqs :: "string list" where
  "space_seqs =
     [[CHR 0x09], [CHR 0x0A], [CHR 0x0B], [CHR 0x0C], [CHR 0x0D], [CHR 0x20],
      [CHR 0xC2, CHR 0x85], [CHR 0xC2, CHR 0xA0], [CHR 0xE1, CHR 0x9A, CHR 0x80],
      [CHR 0xE2, CHR 0x80, CHR 0x80], [CHR 0xE2, CHR 0x80, CHR 0x81], [CHR 0xE2, CHR 0x80, CHR 0x82],
      [CHR 0xE2, CHR 0x80, CHR 0x83], [CHR 0xE2, CHR 0x80, CHR 0x84], [CHR 0xE2, CHR 0x80, CHR 0x85],
      [CHR 0xE2, CHR 0x80, CHR 0x86], [CHR 0xE2, CHR 0x80, CHR 0x87], [CHR 0xE2, CHR 0x80, CHR 0x88],
      [CHR 0xE2, CHR 0x80, CHR 0x89], [CHR 0xE2, CHR 0x80, CHR 0x8A], [CHR 0xE2, CHR 0x80, CHR 0xA8],
      [CHR 0xE2, CHR 0x80, CHR 0xA9], [CHR 0xE2, CHR 0x80, CHR 0xAF], [CHR 0xE2, CHR 0x81, CHR 0x9F],
      [CHR 0xE3, CHR 0x80, CHR 0x80]]"

fun drop_seqs :: "string list \<Rightarrow> string \<Rightarrow> string" where
  "drop_seqs pp [] = []"
| "drop_seqs pp (c # s) =
     (case find (\<lambda>p. is_prefix_of p (c # s)) pp of
        None \<Rightarrow> c # s
      | Some p \<Rightarrow> drop_seqs pp (drop (length p - 1) s))"

definition go_trim :: "string \<Rightarrow> string" where
  "go_trim s = rev (drop_seqs (map rev space_seqs) (rev (drop_seqs space_seqs s)))"

text \<open>\<open>strings.Join\<close>.\<close>

fun join_strings :: "string \<Rightarrow> string list \<Rightarrow> string" where
  "join_strings sep [] = []"
| "join_strings sep [x] = x"
| "join_strings sep (x # y # xs) = x @ sep @ join_strings sep (y # xs)"

section \<open>Splitting at a separator\<close>

fun split_at :: "char \<Rightarrow> string \<Rightarrow> string list" where
  "split_at c [] = [[]]"
| "split_at c (x # s) =
     (if x = c then [] # split_at c s
      else case split_at c s of [] \<Rightarrow> [[x]] | seg # segs \<Rightarrow> (x # seg) # segs)"

lemma split_at_ne [simp]: "split_at c s \<noteq> []"
  by (induction s) (auto split: list.splits)

lemma split_at_Cons_ne:
  "x \<noteq> c \<Longrightarrow> split_at c (x # s) = (x # hd (split_at c s)) # tl (split_at c s)"
  by (cases "split_at c s") auto

lemma length_split_at: "length (split_at c s) = Suc (count_list s c)"
proof (induction s)
  case Nil
  then show ?case by simp
next
  case (Cons x s)
  show ?case
  proof (cases "x = c")
    case True
    with Cons show ?thesis by simp
  next
    case False
    with Cons have "length (split_at c (x # s)) = length (split_at c s)"
      by (simp add: split_at_Cons_ne del: split_at.simps)
    with Cons False show ?thesis by simp
  qed
qed

lemma split_at_notin: "seg \<in> set (split_at c s) \<Longrightarrow> c \<notin> set seg"
  by (induction s arbitrary: seg) (auto split: list.splits if_splits)

lemma split_at_set: "seg \<in> set (split_at c s) \<Longrightarrow> set seg \<subseteq> set s"
proof (induction s arbitrary: seg)
  case Nil
  then show ?case by simp
next
  case (Cons x s)
  show ?case
  proof (cases "x = c")
    case True
    with Cons show ?thesis by auto
  next
    case False
    obtain g gs where sp: "split_at c s = g # gs" by (cases "split_at c s") auto
    with False Cons.prems have "seg = x # g \<or> seg \<in> set gs" by simp
    with Cons.IH [of g] Cons.IH [of seg] sp show ?thesis by auto
  qed
qed

section \<open>Lists, maps and multisets\<close>

lemma find_filter: "find P xs = (case filter P xs of [] \<Rightarrow> None | x # _ \<Rightarrow> Some x)"
  by (induction xs) auto

lemma find_None: "find P xs = None \<longleftrightarrow> (\<forall>x \<in> set xs. \<not> P x)"
  by (induction xs) auto

lemma find_SomeD: "find P xs = Some x \<Longrightarrow> x \<in> set xs \<and> P x"
  by (induction xs) (auto split: if_splits)

lemma find_sorted_first:
  assumes "find P xs = Some x" and "sorted_wrt R xs" and "\<And>z. R z z"
  shows "\<forall>y \<in> set xs. P y \<longrightarrow> R x y"
  using assms by (induction xs) (auto split: if_splits)

lemma map_add_upd_swap: "k \<notin> dom n \<Longrightarrow> m(k \<mapsto> a) ++ n = m ++ n(k \<mapsto> a)"
  by (auto simp: fun_eq_iff map_add_def split: option.splits)

lemma foldl_append_concat: "foldl (\<lambda>acc x. acc @ f x) a xs = a @ concat (map f xs)"
  by (induction xs arbitrary: a) auto

end
