(* ===== verification/SliceUtil.thy ===== *)
theory SliceUtil
  imports Prelude "HOL-Library.AList"
begin

text \<open>
  \<^verbatim>\<open>pkg/slice\<close>: membership, containment and filtering of slices through boolean maps.

  A Go map is an association list with one entry per key. Its list order carries no meaning of
  its own: where the source ranges over a map, the model takes the order the runtime picks as a
  parameter. Reading a missing key of a \<open>map[k]bool\<close> yields false (\<open>bool_at\<close>).
\<close>

type_synonym 'k bool_map = "('k \<times> bool) list"

definition bool_at :: "'k bool_map \<Rightarrow> 'k \<Rightarrow> bool" where
  "bool_at m k \<longleftrightarrow> map_of m k = Some True"

definition to_bool_map :: "'k list \<Rightarrow> 'k bool_map" where
  "to_bool_map s = foldl (\<lambda>h x. AList.update x True h) [] s"

definition has_elem :: "'k list \<Rightarrow> 'k \<Rightarrow> bool" where
  "has_elem ss s = list_ex (\<lambda>x. x = s) ss"

definition contains_any :: "'c list \<Rightarrow> 'c list \<Rightarrow> bool" where
  "contains_any haystack needles = list_ex (\<lambda>h. list_ex (\<lambda>n. h = n) needles) haystack"

text \<open>\<open>ContainsAll\<close> counts the pairs of equal elements and compares the count.\<close>

definition count_matches :: "'c list \<Rightarrow> 'c list \<Rightarrow> nat" where
  "count_matches haystack needles =
     foldl (\<lambda>m h. foldl (\<lambda>m n. if h = n then Suc m else m) m needles) 0 haystack"

definition contains_all :: "'c list \<Rightarrow> 'c list \<Rightarrow> bool" where
  "contains_all haystack needles \<longleftrightarrow> length needles = count_matches haystack needles"

definition intersect_strings :: "string list \<Rightarrow> string list \<Rightarrow> string list" where
  "intersect_strings a b =
     (let ah = to_bool_map a
      in foldl (\<lambda>out x. if bool_at ah x then out @ [x] else out) [] b)"

definition pluck_string :: "string list \<Rightarrow> string list \<Rightarrow> string list" where
  "pluck_string ss ff =
     (if ff = [] then ss
      else let f = to_bool_map ff
           in foldl (\<lambda>out x. if \<not> bool_at f x then out @ [x] else out) [] ss)"

section \<open>Properties\<close>

lemma foldl_update_true:
  "map_of (foldl (\<lambda>h x. AList.update x True h) m s) k =
     (if k \<in> set s then Some True else map_of m k)"
  by (induction s arbitrary: m) (auto simp: update_conv')

lemma bool_at_to_bool_map [simp]: "bool_at (to_bool_map s) k \<longleftrightarrow> k \<in> set s"
  by (simp add: bool_at_def to_bool_map_def foldl_update_true)

lemma to_bool_map_distinct: "distinct (map fst (to_bool_map s))"
proof -
  have "distinct (map fst m) \<Longrightarrow> distinct (map fst (foldl (\<lambda>h x. AList.update x True h) m s))" for m :: "'a bool_map"
    by (induction s arbitrary: m) (auto simp: distinct_update)
  then show ?thesis by (simp add: to_bool_map_def)
qed

lemma bool_at_Nil [simp]: "\<not> bool_at [] k"
  by (simp add: bool_at_def)

lemma to_bool_map_Nil [simp]: "to_bool_map [] = []"
  by (simp add: to_bool_map_def)

lemma foldl_filter: "foldl (\<lambda>out x. if P x then out @ [x] else out) a xs = a @ filter P xs"
  by (induction xs arbitrary: a) auto

lemma length_filter_all: "length (filter P xs) = length xs \<longleftrightarrow> (\<forall>x \<in> set xs. P x)"
proof (induction xs)
  case (Cons x xs)
  have "length (filter P xs) \<noteq> Suc (length xs)"
    using length_filter_le [of P xs] by (metis Suc_n_not_le_n)
  with Cons show ?case by auto
qed simp

lemma has_elem_iff [simp]: "has_elem ss s \<longleftrightarrow> s \<in> set ss"
  by (auto simp: has_elem_def list_ex_iff)

lemma contains_any_iff: "contains_any hs ns \<longleftrightarrow> set hs \<inter> set ns \<noteq> {}"
  by (auto simp: contains_any_def list_ex_iff)

lemma intersect_strings_filter: "intersect_strings a b = filter (\<lambda>x. x \<in> set a) b"
  by (auto simp: intersect_strings_def Let_def foldl_filter intro: filter_cong)

lemma pluck_string_filter: "pluck_string ss ff = filter (\<lambda>x. x \<notin> set ff) ss"
  by (auto simp: pluck_string_def Let_def foldl_filter)

lemma foldl_count: "foldl (\<lambda>m n. if h = n then Suc m else m) m ns = m + count_list ns h"
  by (induction ns arbitrary: m) auto

lemma count_matches_sum: "count_matches hs ns = sum_list (map (count_list ns) hs)"
proof -
  have "foldl (\<lambda>m h. foldl (\<lambda>m n. if h = n then Suc m else m) m ns) m hs =
      m + sum_list (map (count_list ns) hs)" for m
    by (induction hs arbitrary: m) (auto simp: foldl_count)
  then show ?thesis by (simp add: count_matches_def)
qed

text \<open>
  On a haystack without repetitions \<open>ContainsAll\<close> is the set inclusion its name promises; a
  repeated element of the haystack is counted once per occurrence and breaks it.
\<close>

lemma count_matches_distinct:
  "distinct hs \<Longrightarrow> count_matches hs ns = length (filter (\<lambda>n. n \<in> set hs) ns)"
proof -
  assume d: "distinct hs"
  have "count_matches hs ns = (\<Sum>h\<in>set hs. count_list ns h)"
    using d by (simp add: count_matches_sum sum_list_distinct_conv_sum_set)
  also have "\<dots> = length (filter (\<lambda>n. n \<in> set hs) ns)"
  proof (induction ns)
    case Nil
    then show ?case by simp
  next
    case (Cons n ns)
    have "(\<Sum>h\<in>set hs. count_list (n # ns) h) =
        (\<Sum>h\<in>set hs. count_list ns h + (if h = n then 1 else 0))"
      by (intro sum.cong) auto
    with Cons show ?case by (simp add: sum.distrib)
  qed
  finally show ?thesis .
qed

text \<open>
  \<open>ContainsAll\<close> decides inclusion of the needles when the haystack has no duplicates.
\<close>

theorem contains_all_correct:
  "distinct hs \<Longrightarrow> contains_all hs ns \<longleftrightarrow> set ns \<subseteq> set hs"
proof -
  assume d: "distinct hs"
  have "contains_all hs ns \<longleftrightarrow> length (filter (\<lambda>n. n \<in> set hs) ns) = length ns"
    using d by (auto simp: contains_all_def count_matches_distinct)
  also have "\<dots> \<longleftrightarrow> (\<forall>n \<in> set ns. n \<in> set hs)"
    by (rule length_filter_all)
  finally show ?thesis by auto
qed

theorem contains_all_correct_witness:
  "contains_all [1, 2, 3 :: nat] [3, 1] \<longleftrightarrow> set [3, 1] \<subseteq> set [1, 2, 3 :: nat]"
  by (rule contains_all_correct) simp

lemma contains_all_duplicate_haystack: "\<not> contains_all [CHR ''a'', CHR ''a''] [CHR ''a'']"
  by (simp add: contains_all_def count_matches_def)

end
