(* ===== verification/RbacResource.thy ===== *)
theory RbacResource
  imports Prelude
begin

text \<open>
  \<^verbatim>\<open>pkg/rbac/resource.go\<close>: resource identifiers such as
  \<^verbatim>\<open>corteza::compose:record/1/2/3\<close>, their type and component, matching of a rule's
  resource pattern against a concrete resource, and the specificity level of a pattern.

  \<open>path.Match\<close> is Go's standard library function; \<open>path_match\<close> follows its documented
  pattern grammar (star, question mark, bracket classes, backslash escapes; a malformed pattern
  never matches). Resource strings are ASCII, so a byte is a rune.
\<close>

section \<open>path.Match\<close>

text \<open>One character of a bracket class, with its escape (\<open>getEsc\<close>).\<close>

fun get_esc :: "string \<Rightarrow> (char \<times> string) option" where
  "get_esc [] = None"
| "get_esc (c # p) =
     (if c = CHR ''-'' \<or> c = CHR '']'' then None
      else if c = CHR 0x5C then
        (case p of d # e # q \<Rightarrow> Some (d, e # q) | _ \<Rightarrow> None)
      else if p = [] then None else Some (c, p))"

lemma get_esc_length: "get_esc p = Some (c, q) \<Longrightarrow> q \<noteq> [] \<and> length q < length p"
  by (cases p) (auto split: if_splits list.splits)

text \<open>
  The ranges of a bracket class up to the closing bracket: whether the character \<open>r\<close> is in one
  of them, and the rest of the pattern; \<open>seen\<close> says that one range was read already.
\<close>

function class_ranges :: "bool \<Rightarrow> bool \<Rightarrow> char \<Rightarrow> string \<Rightarrow> (bool \<times> string) option" where
  "class_ranges seen m r p =
     (if seen \<and> p \<noteq> [] \<and> hd p = CHR '']'' then Some (m, tl p)
      else case get_esc p of
        None \<Rightarrow> None
      | Some (lo, q) \<Rightarrow>
          (if hd q = CHR ''-'' then
             (case get_esc (tl q) of
                None \<Rightarrow> None
              | Some (hi, q') \<Rightarrow>
                  class_ranges True (m \<or> (of_char lo :: nat) \<le> of_char r \<and> (of_char r :: nat) \<le> of_char hi) r q')
           else class_ranges True (m \<or> r = lo) r q))"
  by pat_completeness auto
termination
proof (relation "measure (\<lambda>(seen, m, r, p). length p)", goal_cases)
  case 1
  then show ?case by simp
next
  case (2 seen m r p lq lo q hq hi q')
  then have "length q < length p" and "length q' < length (tl q)"
    by (auto dest: get_esc_length)
  then show ?case by simp
next
  case (3 seen m r p lq lo q)
  then have "length q < length p" by (auto dest: get_esc_length)
  then show ?case by simp
qed

declare class_ranges.simps [simp del]

definition match_class :: "char \<Rightarrow> string \<Rightarrow> (bool \<times> string) option" where
  "match_class r p =
     (case p of
        c # q \<Rightarrow>
          (if c = CHR ''^'' then map_option (\<lambda>(m, q'). (\<not> m, q')) (class_ranges False False r q)
           else class_ranges False False r p)
      | [] \<Rightarrow> class_ranges False False r p)"

lemma class_ranges_length:
  "class_ranges seen m r p = Some (b, q) \<Longrightarrow> length q < length p"
proof (induction seen m r p arbitrary: b q rule: class_ranges.induct)
  case (1 seen m r p)
  show ?case
  proof (cases "seen \<and> p \<noteq> [] \<and> hd p = CHR '']''")
    case True
    have "class_ranges seen m r p = Some (m, tl p)"
      by (subst class_ranges.simps) (use True in simp)
    with "1.prems" have "q = tl p" by simp
    with True show ?thesis by (cases p) auto
  next
    case False
    then obtain lo q1 where e: "get_esc p = Some (lo, q1)"
      using "1.prems" by (auto simp: class_ranges.simps [of seen m r p] split: option.splits)
    then have l1: "length q1 < length p" by (auto dest: get_esc_length)
    show ?thesis
    proof (cases "hd q1 = CHR ''-''")
      case True
      then obtain hi q2 where e2: "get_esc (tl q1) = Some (hi, q2)"
        using False "1.prems" e by (auto simp: class_ranges.simps [of seen m r p] split: option.splits)
      then have l2: "length q2 < length (tl q1)" by (auto dest: get_esc_length)
      have "length q < length q2"
        using "1.IH"(1) [OF False e refl True e2 refl] "1.prems" False e True e2
        by (auto simp: class_ranges.simps [of seen m r p])
      with l1 l2 show ?thesis by simp
    next
      case nodash: False
      have "length q < length q1"
        using "1.IH"(2) [OF False e refl nodash] "1.prems" False e nodash
        by (auto simp: class_ranges.simps [of seen m r p])
      with l1 show ?thesis by simp
    qed
  qed
qed

lemma match_class_length: "match_class r p = Some (b, q) \<Longrightarrow> length q < length p"
  by (auto simp: match_class_def split: list.splits if_splits dest: class_ranges_length)

function path_match :: "string \<Rightarrow> string \<Rightarrow> bool" where
  "path_match [] s = (s = [])"
| "path_match (c # p) s =
     (if c = CHR ''*'' then
        path_match p s \<or> (case s of [] \<Rightarrow> False | x # xs \<Rightarrow> x \<noteq> CHR ''/'' \<and> path_match (c # p) xs)
      else if c = CHR ''?'' then
        (case s of [] \<Rightarrow> False | x # xs \<Rightarrow> x \<noteq> CHR ''/'' \<and> path_match p xs)
      else if c = CHR ''['' then
        (case s of
           [] \<Rightarrow> False
         | x # xs \<Rightarrow>
             (case match_class x p of
                None \<Rightarrow> False
              | Some (m, q) \<Rightarrow> m \<and> path_match q xs))
      else if c = CHR 0x5C then
        (case p of
           [] \<Rightarrow> False
         | d # q \<Rightarrow> (case s of [] \<Rightarrow> False | x # xs \<Rightarrow> x = d \<and> path_match q xs))
      else (case s of [] \<Rightarrow> False | x # xs \<Rightarrow> x = c \<and> path_match p xs))"
  by pat_completeness auto
termination
  by (relation "measure (\<lambda>(p, s). length p + length s)") (auto dest: match_class_length)

declare path_match.simps(2) [simp del]

section \<open>Resource identifiers\<close>

definition res_type :: "string \<Rightarrow> string" where
  "res_type r = (let p = go_index r ''/'' in if 0 < p then take (nat p) r else r)"

definition res_component :: "string \<Rightarrow> string" where
  "res_component r =
     (let t = res_type r;
          ns = go_index t ''::'';
          c = go_last_index t '':''
      in if ns + 1 < c \<and> -1 < ns then take (nat c) t else t)"

definition has_wildcards :: "string \<Rightarrow> bool" where
  "has_wildcards r \<longleftrightarrow> go_index r ''*'' \<noteq> -1"

definition match_resource :: "string \<Rightarrow> string \<Rightarrow> bool" where
  "match_resource matcher res =
     (if matcher = res then \<not> has_wildcards res else path_match matcher res)"

text \<open>
  \<open>level\<close> walks the identifier from its last character down to the character after the first
  slash; the walk is the recursion over the reversed suffix, \<open>nl\<close> its local variable.
  Go's \<open>int\<close> is not wrapped here: \<open>level_lt_pow\<close> bounds the value below \<open>10 ^ k\<close> for an
  identifier of \<open>k\<close> segments, so a 64-bit value cannot overflow below 19 segments.
\<close>

fun level_loop :: "string \<Rightarrow> int \<Rightarrow> bool \<Rightarrow> int" where
  "level_loop [] score nl = score"
| "level_loop (c # cs) score nl =
     (if c = CHR ''*'' then level_loop cs score nl
      else if c = CHR ''/'' then level_loop cs (score * 10) False
      else if nl then level_loop cs score nl
      else level_loop cs (score + 1) True)"

definition level :: "string \<Rightarrow> int" where
  "level r = level_loop (rev (drop (nat (go_index r ''/'' + 1)) r)) 0 False"

section \<open>Type and component\<close>

lemma res_type_takeWhile:
  "r \<noteq> [] \<Longrightarrow> hd r \<noteq> CHR ''/'' \<Longrightarrow> res_type r = takeWhile (\<lambda>c. c \<noteq> CHR ''/'') r"
proof -
  assume ne: "r \<noteq> []" "hd r \<noteq> CHR ''/''"
  show ?thesis
  proof (cases "CHR ''/'' \<in> set r")
    case True
    from ne have "0 < length (takeWhile (\<lambda>c. c \<noteq> CHR ''/'') r)" by (cases r) auto
    with True show ?thesis
      by (simp add: res_type_def Let_def go_index_char_takeWhile takeWhile_eq_take [symmetric])
  next
    case False
    then have "takeWhile (\<lambda>c. c \<noteq> CHR ''/'') r = r"
      by (auto simp: takeWhile_eq_all_conv)
    moreover have "go_index r ''/'' = -1" using False by (simp add: go_index_char_neg)
    ultimately show ?thesis by (simp only: res_type_def Let_def) simp
  qed
qed

lemma has_wildcards_iff: "has_wildcards r \<longleftrightarrow> CHR ''*'' \<in> set r"
  by (simp add: has_wildcards_def go_index_char_neg)

section \<open>Specificity\<close>

text \<open>
  The level of an identifier, read off its segments: every segment that has a character other
  than the wildcard counts 1, weighted by ten to its position, so the last segment weighs most.
\<close>

definition seg_score :: "string \<Rightarrow> int" where
  "seg_score g = (if \<exists>c \<in> set g. c \<noteq> CHR ''*'' then 1 else 0)"

definition segs_level :: "string list \<Rightarrow> int" where
  "segs_level gs = foldr (\<lambda>g n. seg_score g + 10 * n) gs 0"

definition ref_segs :: "string \<Rightarrow> string list" where
  "ref_segs r = (if CHR ''/'' \<in> set r then tl (split_at CHR ''/'' r) else split_at CHR ''/'' r)"

lemma seg_score_bounds: "0 \<le> seg_score g" "seg_score g \<le> 1"
  by (auto simp: seg_score_def)

lemma seg_score_rev [simp]: "seg_score (rev g) = seg_score g"
  by (simp add: seg_score_def)

lemma seg_score_Nil [simp]: "seg_score [] = 0"
  by (simp add: seg_score_def)

lemma segs_level_simps [simp]:
  "segs_level [] = 0"
  "segs_level (g # gs) = seg_score g + 10 * segs_level gs"
  by (simp_all add: segs_level_def)

lemma segs_level_nonneg: "0 \<le> segs_level gs"
  by (induction gs) (simp_all add: seg_score_bounds)

lemma segs_level_mono:
  "list_all2 (\<lambda>g h. seg_score g \<le> seg_score h) gs hs \<Longrightarrow> segs_level gs \<le> segs_level hs"
  by (induction rule: list_all2_induct) auto

lemma segs_level_strict:
  "list_all2 (\<lambda>g h. seg_score g \<le> seg_score h) gs hs \<Longrightarrow>
   list_ex (\<lambda>(g, h). seg_score g < seg_score h) (zip gs hs) \<Longrightarrow> segs_level gs < segs_level hs"
proof (induction rule: list_all2_induct)
  case Nil
  then show ?case by simp
next
  case (Cons g gs h hs)
  from Cons.hyps(2) have le: "segs_level gs \<le> segs_level hs" by (rule segs_level_mono)
  show ?case
  proof (cases "seg_score g < seg_score h")
    case True
    with le show ?thesis by simp
  next
    case False
    with Cons.prems have "segs_level gs < segs_level hs" by (intro Cons.IH) auto
    with Cons.hyps(1) show ?thesis by simp
  qed
qed

lemma segs_level_lt_pow: "segs_level gs < 10 ^ length gs"
proof (induction gs)
  case Nil
  then show ?case by simp
next
  case (Cons g gs)
  have "seg_score g \<le> 1" by (rule seg_score_bounds)
  with Cons show ?case by simp
qed

lemma level_loop_fold:
  "level_loop xs score nl =
     fold (\<lambda>g n. n * 10 + seg_score g) (tl (split_at CHR ''/'' xs))
       (score + (if nl then 0 else seg_score (hd (split_at CHR ''/'' xs))))"
proof (induction xs score nl rule: level_loop.induct)
  case (1 score nl)
  then show ?case by simp
next
  case (2 c cs score nl)
  obtain g gs where sp: "split_at CHR ''/'' cs = g # gs"
    by (cases "split_at CHR ''/'' cs") auto
  show ?case
    by (cases "c = CHR ''*''"; cases "c = CHR ''/''"; cases nl)
       (use 2 sp in \<open>simp_all add: seg_score_def\<close>)
qed

lemma split_at_append_char:
  "split_at c (s @ [x]) =
     (if x = c then split_at c s @ [[]]
      else butlast (split_at c s) @ [last (split_at c s) @ [x]])"
proof (induction s)
  case Nil
  then show ?case by simp
next
  case (Cons y s)
  obtain g gs where sp: "split_at c s = g # gs" by (cases "split_at c s") auto
  show ?case
    by (cases "y = c"; cases "x = c"; cases gs) (use Cons sp in auto)
qed

lemma split_at_rev: "split_at c (rev s) = rev (map rev (split_at c s))"
proof (induction s)
  case Nil
  then show ?case by simp
next
  case (Cons x s)
  obtain g gs where sp: "split_at c s = g # gs" by (cases "split_at c s") auto
  with Cons show ?case by (cases "x = c") (simp_all add: split_at_append_char)
qed

lemma split_at_drop_first:
  "c \<in> set s \<Longrightarrow> split_at c (drop (Suc (length (takeWhile (\<lambda>x. x \<noteq> c) s))) s) = tl (split_at c s)"
proof (induction s)
  case Nil
  then show ?case by simp
next
  case (Cons x s)
  show ?case
  proof (cases "x = c")
    case True
    then show ?thesis by simp
  next
    case False
    with Cons show ?thesis by (simp add: split_at_Cons_ne del: split_at.simps(2))
  qed
qed

lemma split_at_ref:
  "split_at CHR ''/'' (drop (nat (go_index r ''/'' + 1)) r) = ref_segs r"
proof (cases "CHR ''/'' \<in> set r")
  case True
  then have "nat (go_index r ''/'' + 1) = Suc (length (takeWhile (\<lambda>x. x \<noteq> CHR ''/'') r))"
    by (simp add: go_index_char_takeWhile)
  with True split_at_drop_first [OF True] show ?thesis by (simp add: ref_segs_def)
next
  case False
  then have "go_index r ''/'' = -1" by (simp add: go_index_char_neg)
  with False show ?thesis by (simp add: ref_segs_def)
qed

lemma level_segs: "level r = segs_level (ref_segs r)"
proof -
  let ?t = "drop (nat (go_index r ''/'' + 1)) r"
  let ?gs = "rev (map rev (ref_segs r))"
  have sp: "split_at CHR ''/'' (rev ?t) = ?gs"
    by (simp add: split_at_rev split_at_ref)
  have ne: "?gs \<noteq> []" using sp split_at_ne by metis
  have "level r = fold (\<lambda>g n. n * 10 + seg_score g) (tl ?gs) (seg_score (hd ?gs))"
    by (simp add: level_def level_loop_fold sp)
  also have "\<dots> = fold (\<lambda>g n. n * 10 + seg_score g) ?gs 0"
    using ne by (cases ?gs) simp_all
  also have "\<dots> = segs_level (ref_segs r)"
    by (simp add: segs_level_def foldr_conv_fold fold_map comp_def rev_map algebra_simps)
  finally show ?thesis .
qed

lemma level_lt_pow: "level r < 10 ^ length (ref_segs r)"
  by (simp add: level_segs segs_level_lt_pow)

section \<open>Segment-wise matching\<close>

text \<open>
  A plain pattern has no special character but the wildcard; this is what the package writes and
  documents. A plain pattern matches segment by segment: a wildcard never crosses a slash.
\<close>

definition plain_pattern :: "string \<Rightarrow> bool" where
  "plain_pattern p \<longleftrightarrow> set p \<inter> {CHR ''?'', CHR ''['', CHR 0x5C} = {}"

lemma plain_Cons [simp]:
  "plain_pattern (c # p) \<longleftrightarrow>
     c \<noteq> CHR ''?'' \<and> c \<noteq> CHR ''['' \<and> c \<noteq> CHR 0x5C \<and> plain_pattern p"
  by (auto simp: plain_pattern_def)

lemma path_match_star_Nil [simp]: "path_match (CHR ''*'' # p) [] = path_match p []"
  by (simp add: path_match.simps(2))

lemma path_match_star_Cons:
  "path_match (CHR ''*'' # p) (x # xs) \<longleftrightarrow>
     path_match p (x # xs) \<or> x \<noteq> CHR ''/'' \<and> path_match (CHR ''*'' # p) xs"
  by (subst path_match.simps(2)) simp

lemma path_match_lit:
  "plain_pattern (c # p) \<Longrightarrow> c \<noteq> CHR ''*'' \<Longrightarrow>
   path_match (c # p) s \<longleftrightarrow> (\<exists>xs. s = c # xs \<and> path_match p xs)"
  by (cases s) (auto simp: path_match.simps(2) [of c p])

lemma path_match_segments:
  "plain_pattern p \<Longrightarrow>
   path_match p s \<longleftrightarrow> list_all2 path_match (split_at CHR ''/'' p) (split_at CHR ''/'' s)"
proof (induction p arbitrary: s)
  case Nil
  show ?case
    by (cases s) (auto split: list.splits)
next
  case (Cons c p)
  from Cons.prems have pl: "plain_pattern p" by simp
  note IH = Cons.IH [OF pl]
  obtain g gs where gp: "split_at CHR ''/'' p = g # gs"
    by (cases "split_at CHR ''/'' p") auto
  consider "c = CHR ''*''" | "c = CHR ''/''" | "c \<noteq> CHR ''*''" "c \<noteq> CHR ''/''" by blast
  then show ?case
  proof cases
    case 1
    show ?thesis unfolding 1
    proof (induction s)
      case Nil
      show ?case using gp IH [of "[]"] by simp
    next
      case (Cons x xs)
      obtain h hs where hx: "split_at CHR ''/'' xs = h # hs"
        by (cases "split_at CHR ''/'' xs") auto
      show ?case
      proof (cases "x = CHR ''/''")
        case True
        with gp IH [of "x # xs"] show ?thesis by (simp add: path_match_star_Cons)
      next
        case False
        with gp hx IH [of "x # xs"] Cons.IH show ?thesis
          by (simp add: path_match_star_Cons) blast
      qed
    qed
  next
    case 2
    have lit: "path_match (c # p) s \<longleftrightarrow> (\<exists>xs. s = c # xs \<and> path_match p xs)"
      using Cons.prems 2 by (intro path_match_lit) auto
    show ?thesis
    proof (cases s)
      case Nil
      with 2 lit gp show ?thesis by simp
    next
      case (Cons x xs)
      obtain h hs where hx: "split_at CHR ''/'' xs = h # hs"
        by (cases "split_at CHR ''/'' xs") auto
      from Cons 2 lit gp hx IH [of xs] show ?thesis by auto
    qed
  next
    case 3
    have lit: "path_match (c # q) t \<longleftrightarrow> (\<exists>xs. t = c # xs \<and> path_match q xs)"
      if "plain_pattern q" for q t
      using Cons.prems 3 that by (intro path_match_lit) auto
    have plg: "plain_pattern g"
      using pl gp split_at_set [of g "CHR ''/''" p] by (auto simp: plain_pattern_def)
    show ?thesis
    proof (cases s)
      case Nil
      with 3 lit [OF pl] lit [OF plg] gp show ?thesis by simp
    next
      case (Cons x xs)
      obtain h hs where hx: "split_at CHR ''/'' xs = h # hs"
        by (cases "split_at CHR ''/'' xs") auto
      with Cons 3 lit [OF pl] lit [OF plg] gp IH [of xs] show ?thesis by auto
    qed
  qed
qed

lemma path_match_literal:
  "plain_pattern g \<Longrightarrow> CHR ''*'' \<notin> set g \<Longrightarrow> path_match g h \<longleftrightarrow> g = h"
proof (induction g arbitrary: h)
  case Nil
  then show ?case by auto
next
  case (Cons c g)
  then show ?case using path_match_lit [of c g h] by auto
qed

lemma split_at_inj: "split_at c s = split_at c t \<Longrightarrow> s = t"
proof (induction s arbitrary: t)
  case Nil
  then show ?case by (cases t) (auto split: list.splits if_splits)
next
  case (Cons x s)
  show ?case
  proof (cases t)
    case Nil
    with Cons.prems show ?thesis by (auto split: list.splits if_splits)
  next
    case t: (Cons y t')
    obtain g gs h hs where sp: "split_at c s = g # gs" "split_at c t' = h # hs"
      using split_at_ne by (metis neq_Nil_conv)
    with Cons.prems t have "x = y \<and> split_at c s = split_at c t'"
      by (auto split: if_splits)
    with Cons.IH t show ?thesis by simp
  qed
qed

lemma plain_split: "plain_pattern p \<Longrightarrow> g \<in> set (split_at c p) \<Longrightarrow> plain_pattern g"
  using split_at_set [of g c p] by (auto simp: plain_pattern_def)

lemma path_match_seg_score:
  "plain_pattern g \<Longrightarrow> path_match g h \<Longrightarrow> CHR ''*'' \<notin> set h \<Longrightarrow> seg_score g \<le> seg_score h"
proof (cases h)
  case Nil
  assume "plain_pattern g" "path_match g h"
  then have "set g \<subseteq> {CHR ''*''}"
    using Nil
  proof (induction g)
    case (Cons c g)
    then show ?case
      by (cases "c = CHR ''*''") (auto simp: path_match_lit)
  qed simp
  then show ?thesis using Nil by (auto simp: seg_score_def)
next
  case (Cons x xs)
  assume "CHR ''*'' \<notin> set h"
  with Cons have "seg_score h = 1" by (auto simp: seg_score_def)
  then show ?thesis using seg_score_bounds [of g] by simp
qed

lemma match_resource_segs:
  assumes "plain_pattern p" and "\<not> has_wildcards res" and "match_resource p res"
  shows "list_all2 path_match (split_at CHR ''/'' p) (split_at CHR ''/'' res)"
proof (cases "p = res")
  case True
  have "path_match g g" if "g \<in> set (split_at CHR ''/'' p)" for g
  proof -
    have "CHR ''*'' \<notin> set g"
      using assms(2) True split_at_set [OF that] by (auto simp: has_wildcards_iff)
    then show ?thesis using plain_split [OF assms(1) that] by (simp add: path_match_literal)
  qed
  with True show ?thesis by (simp add: list_all2_same)
next
  case False
  with assms show ?thesis by (simp add: match_resource_def path_match_segments)
qed

lemma match_resource_slash:
  assumes "plain_pattern p" and "\<not> has_wildcards res" and "match_resource p res"
  shows "CHR ''/'' \<in> set p \<longleftrightarrow> CHR ''/'' \<in> set res"
proof -
  have "length (split_at CHR ''/'' p) = length (split_at CHR ''/'' res)"
    using match_resource_segs [OF assms] by (rule list_all2_lengthD)
  then have "count_list p CHR ''/'' = count_list res CHR ''/''" by (simp add: length_split_at)
  then show ?thesis by (metis count_list_0_iff)
qed

lemma match_resource_ref_segs:
  assumes "plain_pattern p" and "\<not> has_wildcards res" and "match_resource p res"
  shows "list_all2 path_match (ref_segs p) (ref_segs res)"
proof -
  obtain g gs h hs where "split_at CHR ''/'' p = g # gs" "split_at CHR ''/'' res = h # hs"
    using split_at_ne by (metis neq_Nil_conv)
  with match_resource_segs [OF assms] match_resource_slash [OF assms] show ?thesis
    by (simp add: ref_segs_def)
qed

lemma ref_segs_set:
  "g \<in> set (ref_segs r) \<Longrightarrow> g \<in> set (split_at CHR ''/'' r)"
  by (cases "split_at CHR ''/'' r") (auto simp: ref_segs_def split: if_splits)

lemma match_resource_scores:
  assumes "plain_pattern p" and "\<not> has_wildcards res" and "match_resource p res"
  shows "list_all2 (\<lambda>g h. seg_score g \<le> seg_score h) (ref_segs p) (ref_segs res)"
proof (rule list.rel_mono_strong [OF match_resource_ref_segs [OF assms]])
  fix g h
  assume gh: "g \<in> set (ref_segs p)" "h \<in> set (ref_segs res)" "path_match g h"
  then have "plain_pattern g" using assms(1) by (blast intro: plain_split ref_segs_set)
  moreover have "CHR ''*'' \<notin> set h"
    using gh(2) assms(2) split_at_set [of h "CHR ''/''" res]
    by (auto simp: has_wildcards_iff dest: ref_segs_set)
  ultimately show "seg_score g \<le> seg_score h" using gh(3) by (simp add: path_match_seg_score)
qed

text \<open>
  among the plain patterns that match a concrete resource none is more specific than the
  resource itself, so a rule written for exactly this resource is never sorted after a matching
  wildcard rule.
\<close>

theorem exact_resource_level_max:
  assumes "plain_pattern p" and "\<not> has_wildcards res" and "match_resource p res"
  shows "level p \<le> level res"
  using match_resource_scores [OF assms] by (simp add: level_segs segs_level_mono)

theorem exact_resource_level_max_witness:
  "level ''ns::m:r/1/*'' \<le> level ''ns::m:r/1/2''"
  by (rule exact_resource_level_max) code_simp+

text \<open>
  The patterns the permission editor writes: each segment is a literal or a lone wildcard, and
  the type in front of the first slash is a literal.
\<close>

definition rule_pattern :: "string \<Rightarrow> bool" where
  "rule_pattern p \<longleftrightarrow>
     plain_pattern p \<and>
     (\<forall>g \<in> set (ref_segs p). CHR ''*'' \<notin> set g \<or> g = ''*'') \<and>
     (CHR ''/'' \<in> set p \<longrightarrow> CHR ''*'' \<notin> set (hd (split_at CHR ''/'' p)))"

lemma ref_segs_differ:
  assumes "list_all2 path_match (split_at CHR ''/'' p) (split_at CHR ''/'' res)"
    and "rule_pattern p" and "p \<noteq> res" and "CHR ''/'' \<in> set p \<longleftrightarrow> CHR ''/'' \<in> set res"
  shows "ref_segs p \<noteq> ref_segs res"
proof
  assume eq: "ref_segs p = ref_segs res"
  obtain g gs h hs where sp: "split_at CHR ''/'' p = g # gs" "split_at CHR ''/'' res = h # hs"
    using split_at_ne by (metis neq_Nil_conv)
  have "g = h" if "CHR ''/'' \<in> set p"
  proof -
    from assms(2) have "plain_pattern p" by (simp add: rule_pattern_def)
    moreover have "g \<in> set (split_at CHR ''/'' p)" using sp(1) by simp
    ultimately have "plain_pattern g" by (rule plain_split)
    moreover from sp(1) that assms(2) have "CHR ''*'' \<notin> set g" by (simp add: rule_pattern_def)
    ultimately have "plain_pattern g" "CHR ''*'' \<notin> set g" by simp_all
    with sp assms(1) show ?thesis by (auto simp: path_match_literal)
  qed
  with sp eq assms(4) have "split_at CHR ''/'' p = split_at CHR ''/'' res"
    by (auto simp: ref_segs_def split: if_splits)
  then have "p = res" by (rule split_at_inj)
  with assms(3) show False ..
qed

lemma wildcard_level:
  assumes "rule_pattern p" and "\<not> has_wildcards res" and "match_resource p res"
    and "p \<noteq> res" and "[] \<notin> set (ref_segs res)"
  shows "level p < level res"
proof -
  have pl: "plain_pattern p" using assms(1) by (simp add: rule_pattern_def)
  note segs = match_resource_ref_segs [OF pl assms(2,3)]
  have "ref_segs p \<noteq> ref_segs res"
    using ref_segs_differ match_resource_segs match_resource_slash pl assms by blast
  then obtain i where i: "i < length (ref_segs p)" "ref_segs p ! i \<noteq> ref_segs res ! i"
    using list_all2_lengthD [OF segs] by (metis nth_equalityI)
  let ?g = "ref_segs p ! i" and ?h = "ref_segs res ! i"
  have il: "i < length (ref_segs res)" using i(1) list_all2_lengthD [OF segs] by simp
  have mem: "?g \<in> set (ref_segs p)" "?h \<in> set (ref_segs res)" using i(1) il by simp_all
  have "path_match ?g ?h" using segs i(1) by (simp add: list_all2_conv_all_nth)
  with i(2) mem(1) pl assms(1) have "?g = ''*''"
    by (metis path_match_literal plain_split ref_segs_set rule_pattern_def)
  moreover have "seg_score ?h = 1"
  proof -
    have "?h \<noteq> []" using mem(2) assms(5) by metis
    moreover have "CHR ''*'' \<notin> set ?h"
      using mem(2) assms(2) split_at_set [of ?h "CHR ''/''" res]
      by (auto simp: has_wildcards_iff dest: ref_segs_set)
    ultimately show ?thesis by (cases ?h) (auto simp: seg_score_def)
  qed
  ultimately have "seg_score ?g < seg_score ?h" by (simp add: seg_score_def)
  then have "list_ex (\<lambda>(g, h). seg_score g < seg_score h) (zip (ref_segs p) (ref_segs res))"
    unfolding list_ex_length using i(1) il by (intro exI [of _ i]) simp
  with match_resource_scores [OF pl assms(2,3)] show ?thesis
    by (simp add: level_segs segs_level_strict)
qed

text \<open>
  a wildcard pattern of that shape that matches a concrete resource with no empty segment is
  strictly less specific than the resource, so the exact rule is always sorted first.
\<close>

theorem wildcard_level_less:
  assumes "rule_pattern p" and "\<not> has_wildcards res" and "match_resource p res"
    and "p \<noteq> res" and "[] \<notin> set (ref_segs res)"
  shows "level p < level res"
  by (rule wildcard_level) (fact assms)+

theorem wildcard_level_less_witness:
  "level ''ns::m:r/1/*'' < level ''ns::m:r/1/2''"
proof -
  have "rule_pattern ''ns::m:r/1/*''"
    by (simp add: rule_pattern_def plain_pattern_def ref_segs_def)
  moreover have "\<not> has_wildcards ''ns::m:r/1/2''" by code_simp
  moreover have "match_resource ''ns::m:r/1/*'' ''ns::m:r/1/2''" by code_simp
  moreover have "[] \<notin> set (ref_segs ''ns::m:r/1/2'')" by (simp add: ref_segs_def)
  ultimately show ?thesis by (intro wildcard_level_less) simp_all
qed

end
