(* ===== verification/RbacRule.thy ===== *)
theory RbacRule
  imports SliceUtil RbacResource
begin

text \<open>
  The data of the access control package: \<^verbatim>\<open>pkg/rbac/permissions.go\<close> (access values),
  \<^verbatim>\<open>rule.go\<close> (rules, rule sets, the index by operation and role), \<^verbatim>\<open>roles.go\<close> (role kinds,
  partitioning, contextual roles) and \<^verbatim>\<open>session.go\<close>.

\<close>

section \<open>Access and rules\<close>

datatype access = Allow | Deny | Inherit

definition access_string :: "access \<Rightarrow> string" where
  "access_string a = (case a of Allow \<Rightarrow> ''allow'' | Deny \<Rightarrow> ''deny'' | Inherit \<Rightarrow> ''inherit'')"

definition access_unmarshal :: "string \<Rightarrow> access" where
  "access_unmarshal d = (if d = ''allow'' then Allow else if d = ''deny'' then Deny else Inherit)"

definition access_marshal :: "access \<Rightarrow> string" where
  "access_marshal a = [CHR 0x22] @ access_string a @ [CHR 0x22]"

record rule =
  rl_role :: u64
  rl_resource :: string
  rl_operation :: string
  rl_access :: access
  rl_dirty :: bool

definition allow_rule :: "u64 \<Rightarrow> string \<Rightarrow> string \<Rightarrow> rule" where
  "allow_rule i r o' = \<lparr>rl_role = i, rl_resource = r, rl_operation = o', rl_access = Allow, rl_dirty = False\<rparr>"

definition deny_rule :: "u64 \<Rightarrow> string \<Rightarrow> string \<Rightarrow> rule" where
  "deny_rule i r o' = \<lparr>rl_role = i, rl_resource = r, rl_operation = o', rl_access = Deny, rl_dirty = False\<rparr>"

definition inherit_rule :: "u64 \<Rightarrow> string \<Rightarrow> string \<Rightarrow> rule" where
  "inherit_rule i r o' = \<lparr>rl_role = i, rl_resource = r, rl_operation = o', rl_access = Inherit, rl_dirty = False\<rparr>"

definition rule_less :: "rule \<Rightarrow> rule \<Rightarrow> bool" where
  "rule_less a b \<longleftrightarrow> level (rl_resource a) > level (rl_resource b)"

definition filter_access :: "rule list \<Rightarrow> access \<Rightarrow> rule list" where
  "filter_access set' a = foldl (\<lambda>out s. if rl_access s = a then out @ [s] else out) [] set'"

definition filter_resource :: "rule list \<Rightarrow> string \<Rightarrow> rule list" where
  "filter_resource set' res =
     foldl (\<lambda>out r. if \<not> match_resource (rl_resource r) res then out else out @ [r]) [] set'"

section \<open>Rule index\<close>

type_synonym opt_rule_set = "(string \<times> (u64 \<times> rule list) list) list"

definition by_role :: "opt_rule_set \<Rightarrow> string \<Rightarrow> (u64 \<times> rule list) list" where
  "by_role idx op = (case map_of idx op of None \<Rightarrow> [] | Some m \<Rightarrow> m)"

definition role_rules :: "opt_rule_set \<Rightarrow> string \<Rightarrow> u64 \<Rightarrow> rule list" where
  "role_rules idx op i = (case map_of (by_role idx op) i of None \<Rightarrow> [] | Some rs \<Rightarrow> rs)"

definition index_rule :: "opt_rule_set \<Rightarrow> rule \<Rightarrow> opt_rule_set" where
  "index_rule idx r =
     (let m = by_role idx (rl_operation r);
          rs = role_rules idx (rl_operation r) (rl_role r)
      in AList.update (rl_operation r) (AList.update (rl_role r) (rs @ [r]) m) idx)"

definition index_rules :: "rule list \<Rightarrow> opt_rule_set" where
  "index_rules rules = foldl index_rule [] rules"

section \<open>Roles and sessions\<close>

datatype role_kind = CommonRole | AnonymousRole | AuthenticatedRole | ContextRole | BypassRole

definition role_kinds :: nat where
  "role_kinds = 5"

fun kind_string :: "role_kind \<Rightarrow> string" where
  "kind_string BypassRole = ''bypass''"
| "kind_string ContextRole = ''context''"
| "kind_string CommonRole = ''common''"
| "kind_string AuthenticatedRole = ''authenticated''"
| "kind_string AnonymousRole = ''anonymous''"

text \<open>
  The scope handed to a contextual role's expression: the attributes of the resource, when it has
  any, and the identity of the user. The type of attribute values stays a parameter.
\<close>

record 'd rbac_scope =
  sc_resource :: "'d option"
  sc_user :: u64

record 'd role =
  ro_id :: u64
  ro_handle :: string
  ro_kind :: role_kind
  ro_check :: "('d rbac_scope \<Rightarrow> bool) option"
  ro_crtypes :: "string bool_map"

record 'd res_value =
  rs_string :: string
  rs_dict :: "'d option"

record ses_value =
  ses_id :: u64
  ses_roles :: "u64 list"

definition make_role :: "role_kind \<Rightarrow> u64 \<Rightarrow> string \<Rightarrow> 'd role" where
  "make_role k i h = \<lparr>ro_id = i, ro_handle = h, ro_kind = k, ro_check = None, ro_crtypes = []\<rparr>"

definition make_context_role ::
  "u64 \<Rightarrow> string \<Rightarrow> ('d rbac_scope \<Rightarrow> bool) option \<Rightarrow> string list \<Rightarrow> 'd role" where
  "make_context_role i h fn tt =
     \<lparr>ro_id = i, ro_handle = h, ro_kind = ContextRole, ro_check = fn, ro_crtypes = to_bool_map tt\<rparr>"

text \<open>\<open>partRoles\<close> is an array of \<open>roleKinds\<close> maps; a nil map reads as an empty one.\<close>

type_synonym part_roles = "role_kind \<Rightarrow> u64 bool_map"

definition add_role :: "part_roles \<Rightarrow> role_kind \<Rightarrow> u64 \<Rightarrow> part_roles" where
  "add_role out k i = out(k := AList.update i True (out k))"

definition partition_roles :: "'d role list \<Rightarrow> part_roles" where
  "partition_roles rr = foldl (\<lambda>out r. add_role out (ro_kind r) (ro_id r)) (\<lambda>_. []) rr"

definition stat_roles :: "'d role list \<Rightarrow> role_kind \<Rightarrow> nat" where
  "stat_roles rr = foldl (\<lambda>stats r. stats(ro_kind r := Suc (stats (ro_kind r)))) (\<lambda>_. 0) rr"

text \<open>Whether one preloaded role applies to the session and resource (the loop body's guards).\<close>

definition role_applies :: "u64 bool_map \<Rightarrow> 'd rbac_scope \<Rightarrow> string \<Rightarrow> 'd role \<Rightarrow> bool" where
  "role_applies mm scope res r =
     (if ro_kind r = ContextRole then
        (if ro_crtypes r = [] \<or> \<not> bool_at (ro_crtypes r) (res_type res) then False
         else case ro_check r of
           None \<Rightarrow> False
         | Some check \<Rightarrow> check scope)
      else bool_at mm (ro_id r))"

definition get_context_roles ::
  "ses_value \<Rightarrow> 'd res_value \<Rightarrow> 'd role list \<Rightarrow> part_roles" where
  "get_context_roles s res preloaded =
     (let mm = to_bool_map (ses_roles s);
          scope = \<lparr>sc_resource = rs_dict res, sc_user = ses_id s\<rparr>
      in foldl (\<lambda>out r. if role_applies mm scope (rs_string res) r
                        then add_role out (ro_kind r) (ro_id r) else out)
           (\<lambda>_. []) preloaded)"

section \<open>Properties of the data\<close>

lemma access_roundtrip: "access_unmarshal (access_string a) = a"
  by (cases a) (simp_all add: access_unmarshal_def access_string_def)

lemma filter_access_eq: "filter_access rs a = filter (\<lambda>r. rl_access r = a) rs"
  by (simp add: filter_access_def foldl_filter)

lemma filter_resource_eq: "filter_resource rs res = filter (\<lambda>r. match_resource (rl_resource r) res) rs"
proof -
  have "foldl (\<lambda>out r. if \<not> match_resource (rl_resource r) res then out else out @ [r]) a rs =
      a @ filter (\<lambda>r. match_resource (rl_resource r) res) rs" for a
    by (induction rs arbitrary: a) auto
  then show ?thesis by (simp add: filter_resource_def)
qed

lemma role_rules_Nil [simp]: "role_rules [] op i = []"
  by (simp add: role_rules_def by_role_def)

lemma role_rules_index_rule:
  "role_rules (index_rule idx r) op i =
     (if op = rl_operation r \<and> i = rl_role r then role_rules idx op i @ [r] else role_rules idx op i)"
  by (auto simp: index_rule_def role_rules_def by_role_def Let_def update_conv' split: option.splits)

lemma role_rules_foldl:
  "role_rules (foldl index_rule idx rules) op i =
     role_rules idx op i @ filter (\<lambda>r. rl_operation r = op \<and> rl_role r = i) rules"
  by (induction rules arbitrary: idx) (auto simp: role_rules_index_rule)

text \<open>The index holds, under each operation and role, exactly that role's rules, in order.\<close>

lemma role_rules_index_rules [rbac_simps]:
  "role_rules (index_rules rules) op i = filter (\<lambda>r. rl_operation r = op \<and> rl_role r = i) rules"
  by (simp add: index_rules_def role_rules_foldl)

definition index_wf :: "opt_rule_set \<Rightarrow> bool" where
  "index_wf idx \<longleftrightarrow> distinct (map fst idx) \<and> (\<forall>(op, m) \<in> set idx. distinct (map fst m))"

lemma by_role_distinct: "index_wf idx \<Longrightarrow> distinct (map fst (by_role idx op))"
  by (auto simp: by_role_def index_wf_def split: option.splits dest!: map_of_SomeD)

lemma index_wf_index_rule: "index_wf idx \<Longrightarrow> index_wf (index_rule idx r)"
proof -
  assume wf: "index_wf idx"
  let ?m = "AList.update (rl_role r) (role_rules idx (rl_operation r) (rl_role r) @ [r])
      (by_role idx (rl_operation r))"
  have "distinct (map fst ?m)"
    using by_role_distinct [OF wf] by (rule distinct_update)
  moreover have "distinct (map fst (AList.update (rl_operation r) ?m idx))"
    using wf by (simp add: index_wf_def distinct_update)
  moreover have "set (AList.update k v al) \<subseteq> insert (k, v) (set al)" for k and v :: 'b and al :: "('a \<times> 'b) list"
    by (induction al) auto
  ultimately show ?thesis
    using wf unfolding index_wf_def index_rule_def Let_def by fastforce
qed

lemma index_wf_index_rules: "index_wf (index_rules rules)"
proof -
  have "index_wf idx \<Longrightarrow> index_wf (foldl index_rule idx rules)" for idx
    by (induction rules arbitrary: idx) (auto simp: index_wf_index_rule)
  moreover have "index_wf []" by (simp add: index_wf_def)
  ultimately show ?thesis by (simp add: index_rules_def)
qed

lemma index_rules_Nil_iff: "index_rules rules = [] \<longleftrightarrow> rules = []"
proof -
  have ne: "AList.update k v al \<noteq> []" for k and v :: 'b and al :: "('a \<times> 'b) list"
    by (cases al) auto
  have "foldl index_rule (index_rule idx r) rs \<noteq> []" for idx r rs
    by (induction rs arbitrary: idx r) (auto simp: index_rule_def Let_def ne)
  then show ?thesis by (cases rules) (auto simp: index_rules_def)
qed

lemma bool_at_update [simp]:
  "bool_at (AList.update i True m) j \<longleftrightarrow> j = i \<or> bool_at m j"
  by (auto simp: bool_at_def update_conv')

lemma foldl_add_role:
  "bool_at (foldl (\<lambda>out r. if P r then add_role out (ro_kind r) (ro_id r) else out) out rr k) i \<longleftrightarrow>
     bool_at (out k) i \<or> (\<exists>r \<in> set rr. P r \<and> ro_kind r = k \<and> ro_id r = i)"
  by (induction rr arbitrary: out) (auto simp: add_role_def)

lemma partition_roles_iff:
  "bool_at (partition_roles rr k) i \<longleftrightarrow> (\<exists>r \<in> set rr. ro_kind r = k \<and> ro_id r = i)"
  using foldl_add_role [where P = "\<lambda>_. True" and out = "\<lambda>_. []"]
  by (simp add: partition_roles_def)

lemma get_context_roles_iff:
  "bool_at (get_context_roles s res preloaded k) i \<longleftrightarrow>
     (\<exists>r \<in> set preloaded. ro_kind r = k \<and> ro_id r = i \<and>
        role_applies (to_bool_map (ses_roles s))
          \<lparr>sc_resource = rs_dict res, sc_user = ses_id s\<rparr> (rs_string res) r)"
  by (simp add: get_context_roles_def Let_def foldl_add_role) blast

lemma stat_roles_count: "stat_roles rr k = length (filter (\<lambda>r. ro_kind r = k) rr)"
proof -
  have "foldl (\<lambda>stats r. stats(ro_kind r := Suc (stats (ro_kind r)))) st rr k =
      st k + length (filter (\<lambda>r. ro_kind r = k) rr)" for st
    by (induction rr arbitrary: st) auto
  then show ?thesis by (simp add: stat_roles_def)
qed

text \<open>
  contextual roles are assigned only by their expression: a role of the context kind is in
  the result exactly when the resource's type is one it is compatible with and its expression
  holds; membership listed in the session plays no part. Every other role is in the result
  exactly when the session lists it.
\<close>

theorem context_roles_exact:
  "bool_at (get_context_roles s res preloaded k) i \<longleftrightarrow>
     (if k = ContextRole then
        (\<exists>r \<in> set preloaded. ro_kind r = ContextRole \<and> ro_id r = i \<and>
           bool_at (ro_crtypes r) (res_type (rs_string res)) \<and>
           (\<exists>check. ro_check r = Some check \<and>
              check \<lparr>sc_resource = rs_dict res, sc_user = ses_id s\<rparr>))
      else i \<in> set (ses_roles s) \<and> (\<exists>r \<in> set preloaded. ro_kind r = k \<and> ro_id r = i))"
proof (cases "k = ContextRole")
  case True
  have "role_applies mm scope res r \<longleftrightarrow>
      bool_at (ro_crtypes r) (res_type res) \<and> (\<exists>check. ro_check r = Some check \<and> check scope)"
    if "ro_kind r = ContextRole" for mm scope res and r :: "'a role"
    using that by (auto simp: role_applies_def split: option.splits)
  with True show ?thesis by (auto simp: get_context_roles_iff)
next
  case False
  then show ?thesis by (auto simp: get_context_roles_iff role_applies_def)
qed

end
