(* ===== verification/RbacEvaluate.thy ===== *)
theory RbacEvaluate
  imports RbacRule
begin

text \<open>
  \<^verbatim>\<open>pkg/rbac/ruleset_checks.go\<close>: the access decision for a set of roles, an operation and a
  resource.

  Two choices of the Go runtime reach the result and are parameters of every definition:
  \<open>iter\<close> is the order in which a \<open>range\<close> over a map visits its entries, \<open>srt\<close> is \<open>sort.Sort\<close>
  with the rule set's own \<open>Less\<close>, which is documented not to be stable. The locale \<open>go_runtime\<close>
  states what Go promises of them; its interpretation uses visiting in list order and a stable sort.
\<close>

datatype explanation = StepIntegrity | StepBypass | StepRuleless | StepEvaluated

type_synonym map_order = "(u64 \<times> rule list) list \<Rightarrow> (u64 \<times> rule list) list"

type_synonym rule_sort = "rule list \<Rightarrow> rule list"

definition member_kind :: "part_roles \<Rightarrow> role_kind \<Rightarrow> bool" where
  "member_kind r k = list_ex (\<lambda>(_, is). is) (r k)"

text \<open>The length of the array of partitions: a constant, whatever the roles.\<close>

definition part_len :: "part_roles \<Rightarrow> nat" where
  "part_len pr = role_kinds"

fun check_loop :: "rule list \<Rightarrow> string \<Rightarrow> string \<Rightarrow> rule option \<times> access" where
  "check_loop [] op res = (None, Inherit)"
| "check_loop (r # rs) op res =
     (if \<not> match_resource (rl_resource r) res then check_loop rs op res
      else if op \<noteq> rl_operation r then check_loop rs op res
      else if rl_access r \<noteq> Inherit then (Some r, rl_access r)
      else check_loop rs op res)"

definition check_rules_by_resource ::
  "rule_sort \<Rightarrow> rule list \<Rightarrow> string \<Rightarrow> string \<Rightarrow> rule option \<times> access" where
  "check_rules_by_resource srt rules op res = check_loop (srt rules) op res"

definition collect_rules ::
  "map_order \<Rightarrow> opt_rule_set \<Rightarrow> part_roles \<Rightarrow> role_kind \<Rightarrow> string \<Rightarrow> rule list" where
  "collect_rules iter idx pr kind op =
     foldl (\<lambda>rules (i, r). if \<not> bool_at (pr kind) i then rules else rules @ r)
       [] (iter (by_role idx op))"

definition drop_exact :: "rule list \<Rightarrow> string \<Rightarrow> rule list" where
  "drop_exact rules res =
     foldl (\<lambda>nr r. if rl_resource r \<noteq> res then nr @ [r] else nr) [] rules"

fun eval_kinds ::
  "map_order \<Rightarrow> rule_sort \<Rightarrow> opt_rule_set \<Rightarrow> part_roles \<Rightarrow> string \<Rightarrow> string \<Rightarrow> bool \<Rightarrow>
   role_kind list \<Rightarrow> access \<times> rule option \<times> explanation" where
  "eval_kinds iter srt idx pr op res parent [] = (Inherit, None, StepRuleless)"
| "eval_kinds iter srt idx pr op res parent (kind # kinds) =
     (if pr kind = [] then eval_kinds iter srt idx pr op res parent kinds
      else let rules = collect_rules iter idx pr kind op;
               rules = (if parent then drop_exact rules res else rules);
               (r, access) = check_rules_by_resource srt rules op res
           in if access \<noteq> Inherit then (access, r, StepEvaluated)
              else eval_kinds iter srt idx pr op res parent kinds)"

definition kind_order :: "role_kind list" where
  "kind_order = [ContextRole, CommonRole, AuthenticatedRole, AnonymousRole]"

definition evaluate ::
  "map_order \<Rightarrow> rule_sort \<Rightarrow> opt_rule_set \<Rightarrow> part_roles \<Rightarrow> string \<Rightarrow> string \<Rightarrow> bool \<Rightarrow>
   access \<times> rule option \<times> explanation" where
  "evaluate iter srt idx pr op res parent =
     (if member_kind pr AnonymousRole \<and> 1 < part_len pr then (Deny, None, StepIntegrity)
      else if member_kind pr BypassRole then (Allow, None, StepBypass)
      else if idx = [] then (Inherit, None, StepRuleless)
      else eval_kinds iter srt idx pr op res parent kind_order)"

definition check_access ::
  "map_order \<Rightarrow> rule_sort \<Rightarrow> opt_rule_set \<Rightarrow> part_roles \<Rightarrow> string \<Rightarrow> string \<Rightarrow> access" where
  "check_access iter srt idx pr op res = fst (evaluate iter srt idx pr op res False)"

section \<open>Specification\<close>

text \<open>A rule that can decide the request, and the rules of a kind's roles that can.\<close>

definition applies :: "string \<Rightarrow> string \<Rightarrow> bool \<Rightarrow> rule \<Rightarrow> bool" where
  "applies op res parent r \<longleftrightarrow>
     match_resource (rl_resource r) res \<and> rl_operation r = op \<and> rl_access r \<noteq> Inherit \<and>
     (parent \<longrightarrow> rl_resource r \<noteq> res)"

definition candidates ::
  "opt_rule_set \<Rightarrow> part_roles \<Rightarrow> string \<Rightarrow> string \<Rightarrow> bool \<Rightarrow> role_kind \<Rightarrow> rule set" where
  "candidates idx pr op res parent kind =
     {r. (\<exists>i. bool_at (pr kind) i \<and> r \<in> set (role_rules idx op i)) \<and> applies op res parent r}"

text \<open>The kind whose rules decide: the first in the order that has a candidate.\<close>

definition deciding_kind ::
  "opt_rule_set \<Rightarrow> part_roles \<Rightarrow> string \<Rightarrow> string \<Rightarrow> bool \<Rightarrow> role_kind list \<Rightarrow> role_kind option" where
  "deciding_kind idx pr op res parent kinds =
     find (\<lambda>k. candidates idx pr op res parent k \<noteq> {}) kinds"

definition most_specific :: "rule set \<Rightarrow> rule \<Rightarrow> bool" where
  "most_specific S r \<longleftrightarrow> r \<in> S \<and> (\<forall>r' \<in> S. level (rl_resource r') \<le> level (rl_resource r))"

text \<open>No two equally specific candidates of one kind disagree.\<close>

definition unambiguous :: "rule set \<Rightarrow> bool" where
  "unambiguous S \<longleftrightarrow>
     (\<forall>r \<in> S. \<forall>r' \<in> S. level (rl_resource r) = level (rl_resource r') \<longrightarrow> rl_access r = rl_access r')"

section \<open>Properties of the steps\<close>

lemma candidates_index [rbac_simps]:
  "candidates (index_rules rules) pr op res parent k =
     {r \<in> set rules. bool_at (pr k) (rl_role r) \<and> applies op res parent r}"
  by (auto simp: candidates_def role_rules_index_rules applies_def)

lemma check_loop_find:
  "check_loop rs op res =
     (case find (applies op res False) rs of
        None \<Rightarrow> (None, Inherit) | Some r \<Rightarrow> (Some r, rl_access r))"
  by (induction rs) (auto simp: applies_def)

lemma drop_exact_filter: "drop_exact rules res = filter (\<lambda>r. rl_resource r \<noteq> res) rules"
  by (simp add: drop_exact_def foldl_filter)

lemma collect_rules_concat:
  "collect_rules iter idx pr kind op =
     concat (map (\<lambda>(i, r). if bool_at (pr kind) i then r else []) (iter (by_role idx op)))"
proof -
  have "foldl (\<lambda>rules (i, r). if \<not> bool_at m i then rules else rules @ r) a xs =
      a @ concat (map (\<lambda>(i, r). if bool_at m i then r else []) xs)" for m a and xs :: "(u64 \<times> rule list) list"
    by (induction xs arbitrary: a) auto
  then show ?thesis by (simp add: collect_rules_def)
qed

lemma member_kind_iff: "distinct (map fst (pr k)) \<Longrightarrow> member_kind pr k \<longleftrightarrow> (\<exists>i. bool_at (pr k) i)"
  by (auto simp: member_kind_def list_ex_iff bool_at_def)

locale go_runtime =
  fixes iter :: map_order and srt :: rule_sort
  assumes iter_mset: "mset (iter m) = mset m"
    and srt_mset: "mset (srt rs) = mset rs"
    and srt_sorted: "sorted_wrt (\<lambda>a b. \<not> rule_less b a) (srt rs)"
begin

lemma set_iter [simp]: "set (iter m) = set m"
  using iter_mset by (rule mset_eq_setD)

lemma set_srt [simp]: "set (srt rs) = set rs"
  using srt_mset by (rule mset_eq_setD)

lemma set_collect_rules:
  assumes "index_wf idx"
  shows "set (collect_rules iter idx pr kind op) =
     {r. \<exists>i. bool_at (pr kind) i \<and> r \<in> set (role_rules idx op i)}"
proof -
  have sm: "(i, rs) \<in> set (by_role idx op) \<longleftrightarrow> map_of (by_role idx op) i = Some rs" for i rs
    using map_of_eq_Some_iff [OF by_role_distinct [OF assms]] by simp
  have "r \<in> set (role_rules idx op i) \<longleftrightarrow> (\<exists>rs. (i, rs) \<in> set (by_role idx op) \<and> r \<in> set rs)" for i r
    by (cases "map_of (by_role idx op) i") (auto simp: role_rules_def sm)
  then show ?thesis by (auto simp: collect_rules_concat split: if_splits)
qed

lemma check_rules_spec:
  "case check_rules_by_resource srt rules op res of
     (None, a) \<Rightarrow> a = Inherit \<and> {r \<in> set rules. applies op res False r} = {}
   | (Some r, a) \<Rightarrow> a = rl_access r \<and> most_specific {r \<in> set rules. applies op res False r} r"
proof (cases "find (applies op res False) (srt rules)")
  case None
  then have "\<forall>r \<in> set (srt rules). \<not> applies op res False r" by (simp add: find_None)
  with None show ?thesis by (auto simp: check_rules_by_resource_def check_loop_find)
next
  case (Some r)
  have "\<forall>y \<in> set (srt rules). applies op res False y \<longrightarrow> \<not> rule_less y r"
    using find_sorted_first [OF Some srt_sorted] by (auto simp: rule_less_def)
  with Some find_SomeD [OF Some] show ?thesis
    by (auto simp: check_rules_by_resource_def check_loop_find most_specific_def rule_less_def)
qed

lemma candidates_parent:
  assumes "index_wf idx"
  shows "candidates idx pr op res parent kind =
     {r \<in> set (if parent then drop_exact (collect_rules iter idx pr kind op) res
               else collect_rules iter idx pr kind op). applies op res False r}"
  using set_collect_rules [OF assms]
  by (auto simp: candidates_def applies_def drop_exact_filter)

lemma eval_kinds_spec:
  assumes "index_wf idx"
  shows "case deciding_kind idx pr op res parent kinds of
     None \<Rightarrow> eval_kinds iter srt idx pr op res parent kinds = (Inherit, None, StepRuleless)
   | Some k \<Rightarrow> (\<exists>r. most_specific (candidates idx pr op res parent k) r \<and>
       eval_kinds iter srt idx pr op res parent kinds = (rl_access r, Some r, StepEvaluated))"
proof (induction kinds)
  case Nil
  then show ?case by (simp add: deciding_kind_def)
next
  case (Cons k kinds)
  let ?rules = "if parent then drop_exact (collect_rules iter idx pr k op) res
      else collect_rules iter idx pr k op"
  obtain ro a where chk: "check_rules_by_resource srt ?rules op res = (ro, a)" by fastforce
  have cand: "candidates idx pr op res parent k = {r \<in> set ?rules. applies op res False r}"
    by (rule candidates_parent [OF assms])
  show ?case
  proof (cases ro)
    case None
    with chk check_rules_spec [of ?rules op res]
    have "a = Inherit" "candidates idx pr op res parent k = {}" by (simp_all add: cand)
    then have "eval_kinds iter srt idx pr op res parent (k # kinds) =
        eval_kinds iter srt idx pr op res parent kinds"
      using chk None by (simp add: Let_def)
    with Cons \<open>candidates idx pr op res parent k = {}\<close> show ?thesis
      by (auto simp: deciding_kind_def simp del: eval_kinds.simps split: option.splits)
  next
    case (Some r)
    with chk check_rules_spec [of ?rules op res]
    have a: "a = rl_access r" and ms: "most_specific (candidates idx pr op res parent k) r"
      by (simp_all add: cand)
    from ms have "r \<in> candidates idx pr op res parent k" by (simp add: most_specific_def)
    then have "rl_access r \<noteq> Inherit" "pr k \<noteq> []" "candidates idx pr op res parent k \<noteq> {}"
      by (auto simp: candidates_def applies_def)
    moreover from this a chk Some
    have "eval_kinds iter srt idx pr op res parent (k # kinds) = (rl_access r, Some r, StepEvaluated)"
      by (simp add: Let_def)
    ultimately show ?thesis using ms by (auto simp: deciding_kind_def)
  qed
qed

lemma evaluate_no_anonymous:
  "\<not> member_kind pr AnonymousRole \<Longrightarrow> \<not> member_kind pr BypassRole \<Longrightarrow>
   evaluate iter srt idx pr op res parent = eval_kinds iter srt idx pr op res parent kind_order"
proof -
  assume m: "\<not> member_kind pr AnonymousRole" "\<not> member_kind pr BypassRole"
  have "eval_kinds iter srt [] pr op res parent kinds = (Inherit, None, StepRuleless)" for kinds
  proof -
    have "index_wf []" by (simp add: index_wf_def)
    moreover have "deciding_kind [] pr op res parent kinds = None"
      by (induction kinds) (auto simp: deciding_kind_def candidates_def)
    ultimately show ?thesis using eval_kinds_spec [of "[]" pr op res parent kinds] by simp
  qed
  with m show ?thesis by (simp add: evaluate_def)
qed

lemma evaluate_deciding:
  assumes "index_wf idx" and "\<not> member_kind pr AnonymousRole" and "\<not> member_kind pr BypassRole"
    and "deciding_kind idx pr op res parent kind_order = Some k"
  shows "\<exists>r. most_specific (candidates idx pr op res parent k) r \<and>
    evaluate iter srt idx pr op res parent = (rl_access r, Some r, StepEvaluated)"
  using eval_kinds_spec [OF assms(1), of pr op res parent kind_order] assms(4)
  by (simp add: evaluate_no_anonymous [OF assms(2,3)])

lemma evaluate_undecided:
  assumes "index_wf idx" and "\<not> member_kind pr AnonymousRole" and "\<not> member_kind pr BypassRole"
    and "deciding_kind idx pr op res parent kind_order = None"
  shows "evaluate iter srt idx pr op res parent = (Inherit, None, StepRuleless)"
  using eval_kinds_spec [OF assms(1), of pr op res parent kind_order] assms(4)
  by (simp add: evaluate_no_anonymous [OF assms(2,3)])

lemma evaluate_spec:
  assumes "index_wf idx" and "\<not> member_kind pr AnonymousRole" and "\<not> member_kind pr BypassRole"
  shows "case deciding_kind idx pr op res parent kind_order of
      None \<Rightarrow> evaluate iter srt idx pr op res parent = (Inherit, None, StepRuleless)
    | Some k \<Rightarrow> (\<exists>r. most_specific (candidates idx pr op res parent k) r \<and>
        evaluate iter srt idx pr op res parent = (rl_access r, Some r, StepEvaluated))"
  using evaluate_deciding [OF assms] evaluate_undecided [OF assms]
  by (simp split: option.split)

end

section \<open>A runtime\<close>

text \<open>Visiting a map in list order and sorting stably is one behaviour Go may show.\<close>

definition list_order :: map_order where
  "list_order m = m"

definition rev_order :: map_order where
  "rev_order m = rev m"

definition rules_sort :: rule_sort where
  "rules_sort rs = sort_key (\<lambda>r. - level (rl_resource r)) rs"

lemma rules_sort_sorted: "sorted_wrt (\<lambda>a b. \<not> rule_less b a) (rules_sort rs)"
proof -
  have "sorted (map (\<lambda>r. - level (rl_resource r)) (rules_sort rs))"
    by (simp add: rules_sort_def)
  then show ?thesis
    by (simp add: sorted_map rule_less_def not_less)
qed

lemma rules_sort_mset: "mset (rules_sort rs) = mset rs"
  by (simp add: rules_sort_def)

interpretation rt: go_runtime list_order rules_sort
  by unfold_locales (simp_all add: list_order_def rules_sort_sorted rules_sort_mset)

interpretation rt_rev: go_runtime rev_order rules_sort
  by unfold_locales (simp_all add: rev_order_def rules_sort_sorted rules_sort_mset)

section \<open>Decisions\<close>

text \<open>
  C1: without an anonymous or bypass role the decision is the access of a most specific matching
  rule of the first kind (contextual, common, authenticated, anonymous) that has one, whatever
  the iteration order and the sort; with no such rule it is Inherit.
\<close>

theorem evaluate_most_specific:
  assumes "go_runtime iter srt" and "index_wf idx"
    and "\<not> member_kind pr AnonymousRole" and "\<not> member_kind pr BypassRole"
  shows "case deciding_kind idx pr op res parent kind_order of
      None \<Rightarrow> evaluate iter srt idx pr op res parent = (Inherit, None, StepRuleless)
    | Some k \<Rightarrow> (\<exists>r. most_specific (candidates idx pr op res parent k) r \<and>
        evaluate iter srt idx pr op res parent = (rl_access r, Some r, StepEvaluated))"
  by (rule go_runtime.evaluate_spec [OF assms])

definition example_rules :: "rule list" where
  "example_rules =
     [allow_rule 1 ''t::t:t/1/*'' ''read'', deny_rule 2 ''t::t:t/1/2'' ''read'']"

theorem evaluate_most_specific_witness:
  "case deciding_kind (index_rules example_rules) (partition_roles [make_role CommonRole 1 ''a'' :: unit role])
      ''read'' ''t::t:t/1/2'' False kind_order of
      None \<Rightarrow> evaluate list_order rules_sort (index_rules example_rules)
        (partition_roles [make_role CommonRole 1 ''a'' :: unit role]) ''read'' ''t::t:t/1/2'' False
        = (Inherit, None, StepRuleless)
    | Some k \<Rightarrow> (\<exists>r. most_specific (candidates (index_rules example_rules)
          (partition_roles [make_role CommonRole 1 ''a'' :: unit role]) ''read'' ''t::t:t/1/2'' False k) r \<and>
        evaluate list_order rules_sort (index_rules example_rules)
        (partition_roles [make_role CommonRole 1 ''a'' :: unit role]) ''read'' ''t::t:t/1/2'' False
        = (rl_access r, Some r, StepEvaluated))"
  by (rule evaluate_most_specific)
     (simp_all add: rt.go_runtime_axioms index_wf_index_rules member_kind_def partition_roles_def
       add_role_def make_role_def)

text \<open>
  When no two equally specific candidate rules of a kind disagree, the access does not depend
  on the order in which Go visits the index nor on how the sort orders equal rules.
\<close>

theorem evaluate_deterministic:
  assumes "go_runtime iter srt" and "go_runtime iter' srt'" and "index_wf idx"
    and "\<And>k. unambiguous (candidates idx pr op res parent k)"
  shows "fst (evaluate iter srt idx pr op res parent) = fst (evaluate iter' srt' idx pr op res parent)"
proof (cases "member_kind pr AnonymousRole \<or> member_kind pr BypassRole")
  case True
  then show ?thesis by (auto simp: evaluate_def part_len_def role_kinds_def)
next
  case False
  then have na: "\<not> member_kind pr AnonymousRole" "\<not> member_kind pr BypassRole" by simp_all
  show ?thesis
  proof (cases "deciding_kind idx pr op res parent kind_order")
    case None
    with go_runtime.evaluate_spec [OF assms(1,3) na, of op res parent]
      go_runtime.evaluate_spec [OF assms(2,3) na, of op res parent] show ?thesis by simp
  next
    case (Some k)
    with go_runtime.evaluate_spec [OF assms(1,3) na, of op res parent]
      go_runtime.evaluate_spec [OF assms(2,3) na, of op res parent]
    obtain r r' where
      r: "most_specific (candidates idx pr op res parent k) r"
        "fst (evaluate iter srt idx pr op res parent) = rl_access r"
      and r': "most_specific (candidates idx pr op res parent k) r'"
        "fst (evaluate iter' srt' idx pr op res parent) = rl_access r'"
      by auto
    have "level (rl_resource r) = level (rl_resource r')"
      using r(1) r'(1) by (intro antisym) (simp_all add: most_specific_def)
    moreover have "r \<in> candidates idx pr op res parent k" "r' \<in> candidates idx pr op res parent k"
      using r(1) r'(1) by (simp_all add: most_specific_def)
    ultimately have "rl_access r = rl_access r'"
      using assms(4) [of k] unfolding unambiguous_def by blast
    with r(2) r'(2) show ?thesis by simp
  qed
qed

theorem evaluate_deterministic_witness:
  "fst (evaluate list_order rules_sort (index_rules [allow_rule 1 ''t/1'' ''read''])
      (partition_roles [make_role CommonRole 1 ''a'' :: unit role]) ''read'' ''t/1'' False) =
   fst (evaluate rev_order rules_sort (index_rules [allow_rule 1 ''t/1'' ''read''])
      (partition_roles [make_role CommonRole 1 ''a'' :: unit role]) ''read'' ''t/1'' False)"
proof (rule evaluate_deterministic)
  show "unambiguous (candidates (index_rules [allow_rule 1 ''t/1'' ''read''])
      (partition_roles [make_role CommonRole 1 ''a'' :: unit role]) ''read'' ''t/1'' False k)" for k
    by (auto simp: unambiguous_def rbac_simps allow_rule_def)
qed (rule rt.go_runtime_axioms rt_rev.go_runtime_axioms index_wf_index_rules)+

definition conflict_rules :: "rule list" where
  "conflict_rules = [allow_rule 1 ''t/1'' ''read'', deny_rule 2 ''t/1'' ''read'']"

definition conflict_roles :: "part_roles" where
  "conflict_roles = partition_roles
     [make_role CommonRole 1 ''a'' :: unit role, make_role CommonRole 2 ''b'']"

text \<open>
  In general the decision does depend on the iteration order: two common roles with opposite
  rules on the same resource are allowed under one order and denied under another.
\<close>

theorem evaluate_depends_on_map_order:
  "\<exists>iter iter'. go_runtime iter rules_sort \<and> go_runtime iter' rules_sort \<and>
     check_access iter rules_sort (index_rules conflict_rules) conflict_roles ''read'' ''t/1'' = Allow \<and>
     check_access iter' rules_sort (index_rules conflict_rules) conflict_roles ''read'' ''t/1'' = Deny"
proof (intro exI conjI)
  show "check_access list_order rules_sort (index_rules conflict_rules) conflict_roles ''read'' ''t/1'' = Allow"
    by code_simp
  show "check_access rev_order rules_sort (index_rules conflict_rules) conflict_roles ''read'' ''t/1'' = Deny"
    by code_simp
qed (rule rt.go_runtime_axioms rt_rev.go_runtime_axioms)+

text \<open>
  The guard that is meant to reject an anonymous role combined with other roles compares the
  length of the array of partitions, which is always five: a subject whose only roles are
  anonymous is denied too, so rules granted to an anonymous role never have an effect.
\<close>

theorem anonymous_always_denied:
  "member_kind pr AnonymousRole \<Longrightarrow> evaluate iter srt idx pr op res parent = (Deny, None, StepIntegrity)"
  by (simp add: evaluate_def part_len_def role_kinds_def)

theorem anonymous_always_denied_witness:
  "evaluate list_order rules_sort (index_rules [allow_rule 1 ''t/1'' ''read''])
     (partition_roles [make_role AnonymousRole 1 ''anonymous'' :: unit role]) ''read'' ''t/1'' False
   = (Deny, None, StepIntegrity)"
  by (rule anonymous_always_denied) code_simp

text \<open>
  A rule written for exactly the requested resource decides over every wildcard rule of the
  same kind's roles: if the deciding kind has an exact rule, the rule returned is an exact one.
\<close>

theorem exact_rule_decides:
  assumes "go_runtime iter srt" and "index_wf idx"
    and "\<not> member_kind pr AnonymousRole" and "\<not> member_kind pr BypassRole"
    and "deciding_kind idx pr op res False kind_order = Some k"
    and "\<And>r. r \<in> candidates idx pr op res False k \<Longrightarrow> rule_pattern (rl_resource r)"
    and "e \<in> candidates idx pr op res False k" and "rl_resource e = res"
    and "\<not> has_wildcards res" and "[] \<notin> set (ref_segs res)"
  shows "\<exists>r. evaluate iter srt idx pr op res False = (rl_access r, Some r, StepEvaluated) \<and>
     rl_resource r = res"
proof -
  obtain r where ms: "most_specific (candidates idx pr op res False k) r"
    and ev: "evaluate iter srt idx pr op res False = (rl_access r, Some r, StepEvaluated)"
    using go_runtime.evaluate_spec [OF assms(1-4), of op res False] assms(5) by auto
  from ms have r: "r \<in> candidates idx pr op res False k" by (simp add: most_specific_def)
  have "rl_resource r = res"
  proof (rule ccontr)
    assume ne: "rl_resource r \<noteq> res"
    have "match_resource (rl_resource r) res" using r by (simp add: candidates_def applies_def)
    with assms(6) [OF r] assms(9,10) ne have "level (rl_resource r) < level res"
      by (intro wildcard_level)
    moreover have "level res \<le> level (rl_resource r)"
      using ms assms(7,8) by (auto simp: most_specific_def)
    ultimately show False by simp
  qed
  with ev show ?thesis by blast
qed

definition exact_rules :: "rule list" where
  "exact_rules = [deny_rule 1 ''t/*'' ''read'', allow_rule 1 ''t/1'' ''read'']"

definition one_common :: "part_roles" where
  "one_common = partition_roles [make_role CommonRole 1 ''a'' :: unit role]"

theorem exact_rule_decides_witness:
  "\<exists>r. evaluate list_order rules_sort (index_rules exact_rules) one_common ''read'' ''t/1'' False
     = (rl_access r, Some r, StepEvaluated) \<and> rl_resource r = ''t/1''"
proof (rule exact_rule_decides)
  let ?c = "candidates (index_rules exact_rules) one_common ''read'' ''t/1'' False"
  have kinds: "bool_at (one_common k) i \<longleftrightarrow> k = CommonRole \<and> i = 1" for k i
    by (auto simp: one_common_def partition_roles_iff make_role_def)
  have m: "match_resource ''t/*'' ''t/1''" "match_resource ''t/1'' ''t/1''" by code_simp+
  show e: "allow_rule 1 ''t/1'' ''read'' \<in> ?c CommonRole"
    by (simp add: rbac_simps exact_rules_def kinds applies_def m allow_rule_def)
  have "?c ContextRole = {}" by (simp add: candidates_def kinds)
  with e show "deciding_kind (index_rules exact_rules) one_common ''read'' ''t/1'' False kind_order = Some CommonRole"
    by (auto simp: deciding_kind_def kind_order_def)
  show "rule_pattern (rl_resource r)" if "r \<in> ?c CommonRole" for r
    using that by (auto simp: rbac_simps exact_rules_def allow_rule_def deny_rule_def
        rule_pattern_def plain_pattern_def ref_segs_def)
qed (rule rt.go_runtime_axioms index_wf_index_rules | code_simp | simp add: allow_rule_def)+

end
