(* ===== verification/RbacMerge.thy ===== *)
theory RbacMerge
  imports RbacEvaluate
begin

text \<open>
  \<^verbatim>\<open>pkg/rbac/ruleset_utils.go\<close>: merging granted rules into the rule set, splitting the set into
  what has to be deleted from and written to the store, and the significant roles of a resource.

  A rule is identified by its role, resource and operation (\<open>rule_key\<close>). The abstract view of a
  rule set is the partial map \<open>rules_abs\<close> from keys to access values.
\<close>

definition rule_eq :: "rule \<Rightarrow> rule \<Rightarrow> bool" where
  "rule_eq a b \<longleftrightarrow>
     rl_role a = rl_role b \<and> rl_resource a = rl_resource b \<and> rl_operation a = rl_operation b"

text \<open>
  One new rule against the first \<open>blen\<close> rules of \<open>out\<close>: the first equal one takes its access
  (and its dirty flag is overwritten), otherwise a dirty copy is appended.
\<close>

definition merge_rule :: "nat \<Rightarrow> rule list \<Rightarrow> rule \<Rightarrow> rule list" where
  "merge_rule blen out r =
     (case find (\<lambda>i. rule_eq (out ! i) r) [0..<blen] of
        Some i \<Rightarrow> out[i := (out ! i)\<lparr>rl_dirty := rl_access (out ! i) \<noteq> rl_access r,
                                   rl_access := rl_access r\<rparr>]
      | None \<Rightarrow> out @ [r\<lparr>rl_dirty := True\<rparr>])"

definition merge_rules :: "rule list \<Rightarrow> rule list \<Rightarrow> rule list" where
  "merge_rules base new =
     (let blen = length base
      in if blen = 0 then map (\<lambda>r. r\<lparr>rl_dirty := True\<rparr>) new
         else foldl (merge_rule blen) base new)"

definition rules_by_role :: "rule list \<Rightarrow> u64 \<Rightarrow> rule list" where
  "rules_by_role base i = foldl (\<lambda>out r. if rl_role r = i then out @ [r] else out) [] base"

definition flushable_step ::
  "rule list \<times> rule list \<times> rule list \<Rightarrow> rule \<Rightarrow> rule list \<times> rule list \<times> rule list" where
  "flushable_step acc r =
     (case acc of (del, upd, fin) \<Rightarrow>
        if rl_access r = Inherit then (del @ [r], upd, fin)
        else (del, if rl_dirty r then upd @ [r] else upd, fin @ [r]))"

definition flushable :: "rule list \<Rightarrow> rule list \<times> rule list \<times> rule list" where
  "flushable rules = foldl flushable_step ([], [], []) rules"

definition clear_dirty :: "rule list \<Rightarrow> rule list" where
  "clear_dirty rules = map (\<lambda>r. r\<lparr>rl_dirty := False\<rparr>) rules"

section \<open>Significant roles\<close>

text \<open>
  The four groups of role IDs by access and distance. The map of groups has entries for Allow and
  Deny only: storing a role under Inherit assigns to an entry of a nil map, which panics.
\<close>

record sig_groups =
  sg_allow_dir :: "u64 list"
  sg_allow_ind :: "u64 list"
  sg_deny_dir :: "u64 list"
  sg_deny_ind :: "u64 list"

definition sig_add_dir :: "sig_groups \<Rightarrow> rule \<Rightarrow> sig_groups go_result" where
  "sig_add_dir g r =
     (case rl_access r of
        Allow \<Rightarrow> Inr (g\<lparr>sg_allow_dir := sg_allow_dir g @ [rl_role r]\<rparr>)
      | Deny \<Rightarrow> Inr (g\<lparr>sg_deny_dir := sg_deny_dir g @ [rl_role r]\<rparr>)
      | Inherit \<Rightarrow> Inl ''assignment to entry in nil map'')"

definition sig_add_ind :: "sig_groups \<Rightarrow> rule \<Rightarrow> sig_groups go_result" where
  "sig_add_ind g r =
     (case rl_access r of
        Allow \<Rightarrow> Inr (g\<lparr>sg_allow_ind := sg_allow_ind g @ [rl_role r]\<rparr>)
      | Deny \<Rightarrow> Inr (g\<lparr>sg_deny_ind := sg_deny_ind g @ [rl_role r]\<rparr>)
      | Inherit \<Rightarrow> Inl ''assignment to entry in nil map'')"

fun sig_collect :: "string \<Rightarrow> string \<Rightarrow> rule list \<Rightarrow> sig_groups \<Rightarrow> sig_groups go_result" where
  "sig_collect res op [] g = Inr g"
| "sig_collect res op (r # rs) g =
     (if rl_operation r \<noteq> op then sig_collect res op rs g
      else case (if rl_resource r = res then sig_add_dir g r else Inr g) of
        Inl e \<Rightarrow> Inl e
      | Inr g1 \<Rightarrow>
          (case (if match_resource (rl_resource r) res then sig_add_ind g1 r else Inr g1) of
             Inl e \<Rightarrow> Inl e
           | Inr g2 \<Rightarrow> sig_collect res op rs g2))"

text \<open>The final two loops range over maps; the lists come out in some order of the keys.\<close>

definition true_keys :: "u64 bool_map \<Rightarrow> u64 list" where
  "true_keys m = foldl (\<lambda>out (r, chk). if chk then out @ [r] else out) [] m"

definition sig_roles :: "rule list \<Rightarrow> string \<Rightarrow> string \<Rightarrow> (u64 list \<times> u64 list) go_result" where
  "sig_roles rules res op =
     (if has_wildcards res then Inr ([], [])
      else case sig_collect res op rules
          \<lparr>sg_allow_dir = [], sg_allow_ind = [], sg_deny_dir = [], sg_deny_ind = []\<rparr> of
        Inl e \<Rightarrow> Inl e
      | Inr g \<Rightarrow>
          (let d = to_bool_map (sg_deny_dir g);
               a = foldl (\<lambda>m r. AList.update r (\<not> bool_at d r) m) [] (sg_allow_dir g);
               d = foldl (\<lambda>m r. AList.update r True m) d (sg_deny_ind g);
               a = foldl (\<lambda>m r. AList.update r (\<not> bool_at d r) m) a (sg_allow_ind g)
           in Inr (true_keys a, true_keys d)))"

section \<open>Abstract view\<close>

type_synonym rule_id = "u64 \<times> string \<times> string"

definition rule_key :: "rule \<Rightarrow> rule_id" where
  "rule_key r = (rl_role r, rl_resource r, rl_operation r)"

definition rules_abs :: "rule list \<Rightarrow> rule_id \<Rightarrow> access option" where
  "rules_abs rs = map_of (map (\<lambda>r. (rule_key r, rl_access r)) rs)"

definition keys_distinct :: "rule list \<Rightarrow> bool" where
  "keys_distinct rs \<longleftrightarrow> distinct (map rule_key rs)"

lemma rule_eq_key: "rule_eq a b \<longleftrightarrow> rule_key a = rule_key b"
  by (auto simp: rule_eq_def rule_key_def)

lemma rule_key_upd [simp]:
  "rule_key (r\<lparr>rl_dirty := d\<rparr>) = rule_key r"
  "rule_key (r\<lparr>rl_dirty := d, rl_access := a\<rparr>) = rule_key r"
  by (simp_all add: rule_key_def)

lemma rules_abs_Nil [simp]: "rules_abs [] = Map.empty"
  by (simp add: rules_abs_def)

lemma rules_abs_Cons [simp]: "rules_abs (r # rs) = (rules_abs rs)(rule_key r \<mapsto> rl_access r)"
  by (simp add: rules_abs_def)

lemma rules_abs_None: "rules_abs rs k = None \<longleftrightarrow> k \<notin> rule_key ` set rs"
  by (induction rs) auto

lemma rules_abs_append: "rules_abs (xs @ ys) = rules_abs ys ++ rules_abs xs"
  by (simp add: rules_abs_def)

lemma rules_abs_distinct:
  "keys_distinct rs \<Longrightarrow> rules_abs rs k = Some a \<longleftrightarrow> (\<exists>r \<in> set rs. rule_key r = k \<and> rl_access r = a)"
proof (induction rs)
  case Nil
  then show ?case by simp
next
  case (Cons r rs)
  have "rule_key r \<notin> rule_key ` set rs" and "keys_distinct rs"
    using Cons.prems by (auto simp: keys_distinct_def)
  with Cons.IH show ?case by (auto simp: image_iff)
qed

lemma rules_abs_update:
  "i < length rs \<Longrightarrow> keys_distinct rs \<Longrightarrow> rule_key r = rule_key (rs ! i) \<Longrightarrow>
   rules_abs (rs[i := r]) = (rules_abs rs)(rule_key r \<mapsto> rl_access r)"
proof (induction rs arbitrary: i)
  case Nil
  then show ?case by simp
next
  case (Cons x xs)
  show ?case
  proof (cases i)
    case 0
    with Cons.prems show ?thesis by (auto simp: fun_eq_iff)
  next
    case (Suc j)
    have "rule_key x \<noteq> rule_key r"
      using Cons.prems Suc by (auto simp: keys_distinct_def)
    with Cons Suc show ?thesis by (auto simp: keys_distinct_def fun_upd_twist)
  qed
qed

lemma map_rule_key_update:
  "rule_key r = rule_key (rs ! i) \<Longrightarrow> map rule_key (rs[i := r]) = map rule_key rs"
  by (metis list_update_id map_update)

section \<open>Merging\<close>

lemma merge_rule_cases [consumes 1, case_names hit miss]:
  assumes "blen \<le> length out"
  obtains (hit) i where "i < blen" "rule_key (out ! i) = rule_key r"
      "merge_rule blen out r = out[i := (out ! i)\<lparr>rl_dirty := rl_access (out ! i) \<noteq> rl_access r,
         rl_access := rl_access r\<rparr>]"
    | (miss) "\<forall>i < blen. rule_key (out ! i) \<noteq> rule_key r"
      "merge_rule blen out r = out @ [r\<lparr>rl_dirty := True\<rparr>]"
proof (cases "find (\<lambda>i. rule_eq (out ! i) r) [0..<blen]")
  case None
  then have "\<forall>i < blen. rule_key (out ! i) \<noteq> rule_key r" by (simp add: find_None rule_eq_key)
  moreover have "merge_rule blen out r = out @ [r\<lparr>rl_dirty := True\<rparr>]"
    using None by (simp add: merge_rule_def)
  ultimately show ?thesis by (rule miss)
next
  case (Some i)
  with find_SomeD [OF Some] show ?thesis by (intro hit) (auto simp: merge_rule_def rule_eq_key)
qed

lemma merge_rule_length: "blen \<le> length out \<Longrightarrow> blen \<le> length (merge_rule blen out r)"
  by (cases rule: merge_rule_cases [where r = r]) auto

lemma merge_rule_take_keys:
  assumes "blen \<le> length out"
  shows "map rule_key (take blen (merge_rule blen out r)) = map rule_key (take blen out)"
  using assms
proof (cases rule: merge_rule_cases [where r = r])
  case (hit i)
  then show ?thesis by (metis map_rule_key_update take_map rule_key_upd(2))
next
  case miss
  with assms show ?thesis by simp
qed

lemma merge_rule_distinct:
  assumes "blen \<le> length out" and "keys_distinct out"
    and "rule_key r \<notin> rule_key ` set (drop blen out)"
  shows "keys_distinct (merge_rule blen out r)"
    and "rules_abs (merge_rule blen out r) = (rules_abs out)(rule_key r \<mapsto> rl_access r)"
proof -
  have "keys_distinct (merge_rule blen out r) \<and>
      rules_abs (merge_rule blen out r) = (rules_abs out)(rule_key r \<mapsto> rl_access r)"
    using assms(1)
  proof (cases rule: merge_rule_cases [where r = r])
    case (hit i)
    let ?u = "(out ! i)\<lparr>rl_dirty := rl_access (out ! i) \<noteq> rl_access r, rl_access := rl_access r\<rparr>"
    have "i < length out" using hit(1) assms(1) by simp
    then have "rules_abs (out[i := ?u]) = (rules_abs out)(rule_key ?u \<mapsto> rl_access ?u)"
      using assms(2) by (intro rules_abs_update) simp_all
    moreover have "map rule_key (out[i := ?u]) = map rule_key out"
      by (rule map_rule_key_update) simp
    ultimately show ?thesis using hit assms(2) by (simp add: keys_distinct_def)
  next
    case miss
    have "rule_key r \<notin> rule_key ` set (take blen out)"
    proof
      assume "rule_key r \<in> rule_key ` set (take blen out)"
      then obtain j where "j < blen" "rule_key r = rule_key (out ! j)"
        using assms(1) by (auto simp: in_set_conv_nth)
      with miss(1) show False by metis
    qed
    with assms(3) have "rule_key r \<notin> rule_key ` set out"
      by (metis append_take_drop_id image_Un set_append Un_iff)
    moreover from this have "rules_abs out (rule_key r) = None" by (simp add: rules_abs_None)
    ultimately show ?thesis
      using miss(2) assms(2) by (auto simp: keys_distinct_def rules_abs_append map_add_def
          split: option.splits)
  qed
  then show "keys_distinct (merge_rule blen out r)"
    and "rules_abs (merge_rule blen out r) = (rules_abs out)(rule_key r \<mapsto> rl_access r)"
    by simp_all
qed

lemma merge_rule_drop_keys:
  assumes "blen \<le> length out"
  shows "rule_key ` set (drop blen (merge_rule blen out r)) \<subseteq>
     insert (rule_key r) (rule_key ` set (drop blen out))"
  using assms
proof (cases rule: merge_rule_cases [where r = r])
  case (hit i)
  then show ?thesis by auto
next
  case miss
  with assms show ?thesis by auto
qed

lemma disjoint_sub_insert: "B' \<subseteq> insert k B \<Longrightarrow> A \<inter> B = {} \<Longrightarrow> k \<notin> A \<Longrightarrow> A \<inter> B' = {}"
  by blast

lemma merge_foldl:
  assumes "blen \<le> length out" and "keys_distinct out" and "keys_distinct new"
    and "rule_key ` set new \<inter> rule_key ` set (drop blen out) = {}"
  shows "keys_distinct (foldl (merge_rule blen) out new) \<and>
     rules_abs (foldl (merge_rule blen) out new) = rules_abs out ++ rules_abs new"
  using assms
proof (induction new arbitrary: out)
  case Nil
  then show ?case by simp
next
  case (Cons r new)
  let ?o = "merge_rule blen out r"
  have nk: "rule_key r \<notin> rule_key ` set new" and kd: "keys_distinct new"
    using Cons.prems(3) by (auto simp: keys_distinct_def)
  have r: "rule_key r \<notin> rule_key ` set (drop blen out)" using Cons.prems(4) by auto
  note d = merge_rule_distinct [OF Cons.prems(1,2) r]
  have dis: "rule_key ` set new \<inter> rule_key ` set (drop blen out) = {}" using Cons.prems(4) by auto
  have "rule_key ` set new \<inter> rule_key ` set (drop blen ?o) = {}"
    by (rule disjoint_sub_insert [OF merge_rule_drop_keys [OF Cons.prems(1)] dis nk])
  with Cons.IH [OF merge_rule_length [OF Cons.prems(1)] d(1) kd]
  have "keys_distinct (foldl (merge_rule blen) ?o new) \<and>
      rules_abs (foldl (merge_rule blen) ?o new) = rules_abs ?o ++ rules_abs new" by simp
  moreover have "(rules_abs out)(rule_key r \<mapsto> rl_access r) ++ rules_abs new =
      rules_abs out ++ rules_abs (r # new)"
  proof -
    have "rule_key r \<notin> dom (rules_abs new)" using nk by (simp add: domIff rules_abs_None)
    then show ?thesis by (metis map_add_upd_swap rules_abs_Cons)
  qed
  ultimately show ?case by (simp only: foldl_Cons d(2) simp_thms)
qed

lemma rules_abs_map_dirty: "rules_abs (map (\<lambda>r. r\<lparr>rl_dirty := d\<rparr>) rs) = rules_abs rs"
  by (induction rs) (simp_all)

lemma keys_distinct_map_dirty: "keys_distinct (map (\<lambda>r. r\<lparr>rl_dirty := d\<rparr>) rs) = keys_distinct rs"
  by (simp add: keys_distinct_def comp_def)

text \<open>
  C3: merging implements map override: with distinct keys on both sides the result has distinct
  keys and its abstract view is the old view overridden by the granted rules.
\<close>

theorem merge_refines:
  assumes "keys_distinct base" and "keys_distinct new"
  shows "keys_distinct (merge_rules base new) \<and>
     rules_abs (merge_rules base new) = rules_abs base ++ rules_abs new"
  using assms merge_foldl [of "length base" base new]
  by (simp add: merge_rules_def Let_def rules_abs_map_dirty keys_distinct_map_dirty)

theorem merge_refines_witness:
  "keys_distinct (merge_rules [allow_rule 1 ''r'' ''o''] [deny_rule 1 ''r'' ''o'', allow_rule 2 ''r'' ''o'']) \<and>
   rules_abs (merge_rules [allow_rule 1 ''r'' ''o''] [deny_rule 1 ''r'' ''o'', allow_rule 2 ''r'' ''o''])
     = rules_abs [allow_rule 1 ''r'' ''o''] ++ rules_abs [deny_rule 1 ''r'' ''o'', allow_rule 2 ''r'' ''o'']"
  by (rule merge_refines) (simp_all add: keys_distinct_def rule_key_def allow_rule_def deny_rule_def)

section \<open>Splitting for the store\<close>

lemma flushable_filter:
  "flushable rs =
     (filter (\<lambda>r. rl_access r = Inherit) rs,
      filter (\<lambda>r. rl_access r \<noteq> Inherit \<and> rl_dirty r) rs,
      filter (\<lambda>r. rl_access r \<noteq> Inherit) rs)"
proof -
  have "foldl flushable_step (a, b, c) rs =
     (a @ filter (\<lambda>r. rl_access r = Inherit) rs,
      b @ filter (\<lambda>r. rl_access r \<noteq> Inherit \<and> rl_dirty r) rs,
      c @ filter (\<lambda>r. rl_access r \<noteq> Inherit) rs)" for a b c
    by (induction rs arbitrary: a b c) (auto simp: flushable_step_def)
  then show ?thesis by (simp add: flushable_def)
qed

lemma rules_by_role_filter: "rules_by_role rs i = filter (\<lambda>r. rl_role r = i) rs"
  by (simp add: rules_by_role_def foldl_filter)

section \<open>Significant roles against the access check\<close>

lemma foldl_update_flag:
  "map_of (foldl (\<lambda>m r. AList.update r (f r) m) m rs) k =
     (if k \<in> set rs then Some (f k) else map_of m k)"
  by (induction rs arbitrary: m) (auto simp: update_conv')

lemma foldl_update_distinct:
  "distinct (map fst m) \<Longrightarrow> distinct (map fst (foldl (\<lambda>m r. AList.update r (f r) m) m rs))"
  by (induction rs arbitrary: m) (auto simp: distinct_update)

lemma set_true_keys: "distinct (map fst m) \<Longrightarrow> set (true_keys m) = {k. bool_at m k}"
proof -
  assume d: "distinct (map fst m)"
  have "foldl (\<lambda>out (r, chk). if chk then out @ [r] else out) a m = a @ map fst (filter snd m)" for a
    by (induction m arbitrary: a) auto
  then have "set (true_keys m) = {k. (k, True) \<in> set m}"
    by (force simp: true_keys_def)
  then show ?thesis using map_of_eq_Some_iff [OF d] by (auto simp: bool_at_def)
qed

definition sig_rules :: "rule list \<Rightarrow> string \<Rightarrow> string \<Rightarrow> access \<Rightarrow> u64 set" where
  "sig_rules rs res op a =
     {rl_role r | r. r \<in> set rs \<and> rl_operation r = op \<and> match_resource (rl_resource r) res \<and> rl_access r = a}"

lemma sig_collect_spec:
  assumes "\<not> has_wildcards res" and "sig_collect res op rs g = Inr g'"
  shows "set (sg_allow_dir g') \<subseteq> set (sg_allow_dir g) \<union> sig_rules rs res op Allow \<and>
     set (sg_allow_ind g') = set (sg_allow_ind g) \<union> sig_rules rs res op Allow \<and>
     set (sg_deny_dir g') \<subseteq> set (sg_deny_dir g) \<union> sig_rules rs res op Deny \<and>
     set (sg_deny_ind g') = set (sg_deny_ind g) \<union> sig_rules rs res op Deny"
  using assms(2)
proof (induction rs arbitrary: g)
  case Nil
  then show ?case by (simp add: sig_rules_def)
next
  case (Cons r rs)
  have step: "sig_rules (r # rs) res op a = sig_rules rs res op a \<union>
      (if rl_operation r = op \<and> match_resource (rl_resource r) res \<and> rl_access r = a then {rl_role r} else {})" for a
    by (auto simp: sig_rules_def)
  have dir: "rl_resource r = res \<Longrightarrow> match_resource (rl_resource r) res"
    using assms(1) by (simp add: match_resource_def)
  show ?case
  proof (cases "rl_operation r = op")
    case False
    with Cons show ?thesis by (simp add: step)
  next
    case op: True
    then obtain g1 g2 where
      g1: "(if rl_resource r = res then sig_add_dir g r else Inr g) = Inr g1"
      and g2: "(if match_resource (rl_resource r) res then sig_add_ind g1 r else Inr g1) = Inr g2"
      and rest: "sig_collect res op rs g2 = Inr g'"
      using Cons.prems by (auto split: sum.splits if_splits)
    note IH = Cons.IH [OF rest]
    show ?thesis
    proof (cases "match_resource (rl_resource r) res")
      case False
      then have "rl_resource r \<noteq> res" using dir by blast
      with False g1 g2 IH show ?thesis by (simp add: step)
    next
      case True
      with op g1 g2 IH show ?thesis
        by (cases "rl_access r"; cases "rl_resource r = res")
           (auto simp: step sig_add_dir_def sig_add_ind_def)
    qed
  qed
qed

lemma sig_collect_total:
  "\<forall>r \<in> set rs. rl_operation r = op \<and> match_resource (rl_resource r) res \<longrightarrow> rl_access r \<noteq> Inherit \<Longrightarrow>
   \<not> has_wildcards res \<Longrightarrow> \<exists>g'. sig_collect res op rs g = Inr g'"
proof (induction rs arbitrary: g)
  case Nil
  then show ?case by simp
next
  case (Cons r rs)
  have "rl_resource r = res \<Longrightarrow> match_resource (rl_resource r) res"
    using Cons.prems(2) by (simp add: match_resource_def)
  with Cons show ?case
    by (cases "rl_access r") (auto simp: sig_add_dir_def sig_add_ind_def split: sum.splits if_splits)
qed

text \<open>
  C5: on a rule set with no Inherit rule for the operation and resource, the significant roles
  are exactly: allowed, the roles with a matching allow rule and no matching deny rule; denied,
  those with a matching deny rule. The distance of the rules makes no difference.
\<close>

theorem sig_roles_exact:
  assumes "\<not> has_wildcards res"
    and "\<forall>r \<in> set rs. rl_operation r = op \<and> match_resource (rl_resource r) res \<longrightarrow> rl_access r \<noteq> Inherit"
  shows "\<exists>a d. sig_roles rs res op = Inr (a, d) \<and>
     set a = sig_rules rs res op Allow - sig_rules rs res op Deny \<and> set d = sig_rules rs res op Deny"
proof -
  let ?start = "\<lparr>sg_allow_dir = [], sg_allow_ind = [], sg_deny_dir = [], sg_deny_ind = []\<rparr>"
  obtain g where g: "sig_collect res op rs ?start = Inr g"
    using sig_collect_total [OF assms(2,1)] by blast
  note spec = sig_collect_spec [OF assms(1) g]
  let ?pd = "to_bool_map (sg_deny_dir g)"
  let ?pa = "foldl (\<lambda>m r. AList.update r (\<not> bool_at ?pd r) m) [] (sg_allow_dir g)"
  let ?d = "foldl (\<lambda>m r. AList.update r True m) ?pd (sg_deny_ind g)"
  let ?a = "foldl (\<lambda>m r. AList.update r (\<not> bool_at ?d r) m) ?pa (sg_allow_ind g)"
  have d: "bool_at ?d k \<longleftrightarrow> k \<in> sig_rules rs res op Deny" for k
    using spec by (auto simp: bool_at_def foldl_update_true to_bool_map_def)
  have a: "bool_at ?a k \<longleftrightarrow> k \<in> sig_rules rs res op Allow - sig_rules rs res op Deny" for k
  proof -
    have "map_of ?a k = (if k \<in> set (sg_allow_ind g) then Some (\<not> bool_at ?d k) else map_of ?pa k)"
      by (rule foldl_update_flag)
    moreover have "map_of ?pa k = (if k \<in> set (sg_allow_dir g) then Some (\<not> bool_at ?pd k) else map_of [] k)"
      by (rule foldl_update_flag)
    ultimately show ?thesis using spec d [of k] by (auto simp: bool_at_def split: if_splits)
  qed
  have "distinct (map fst ?a)" "distinct (map fst ?d)"
    by (simp_all add: foldl_update_distinct to_bool_map_distinct)
  then have "set (true_keys ?a) = {k. bool_at ?a k}" "set (true_keys ?d) = {k. bool_at ?d k}"
    by (simp_all only: set_true_keys)
  moreover have "sig_roles rs res op = Inr (true_keys ?a, true_keys ?d)"
    using assms(1) g by (simp add: sig_roles_def Let_def)
  ultimately show ?thesis using a d by auto
qed

definition sig_example :: "rule list" where
  "sig_example = [allow_rule 1 ''t/1'' ''read'', deny_rule 1 ''t/*'' ''read'']"

theorem sig_roles_exact_witness:
  "\<exists>a d. sig_roles sig_example ''t/1'' ''read'' = Inr (a, d) \<and>
     set a = sig_rules sig_example ''t/1'' ''read'' Allow - sig_rules sig_example ''t/1'' ''read'' Deny \<and>
     set d = sig_rules sig_example ''t/1'' ''read'' Deny"
  by (rule sig_roles_exact) (code_simp, simp add: sig_example_def allow_rule_def deny_rule_def)

text \<open>
  the significant roles contradict the access check: a role with an exact allow rule under a
  wildcard deny rule is allowed by the check and reported as denied.
\<close>

theorem sig_roles_contradict_check:
  "sig_roles sig_example ''t/1'' ''read'' = Inr ([], [1]) \<and>
   check_access list_order rules_sort (index_rules sig_example)
     (partition_roles [make_role CommonRole 1 ''a'' :: unit role]) ''read'' ''t/1'' = Allow"
proof
  show "sig_roles sig_example ''t/1'' ''read'' = Inr ([], [1])" by code_simp
  show "check_access list_order rules_sort (index_rules sig_example)
     (partition_roles [make_role CommonRole 1 ''a'' :: unit role]) ''read'' ''t/1'' = Allow" by code_simp
qed

text \<open>
  computing the significant roles panics while a matching rule set to Inherit is still in the
  rule set (it stays there until the next successful flush).
\<close>

theorem sig_roles_inherit_panics:
  assumes "\<not> has_wildcards res" and "r \<in> set rs" and "rl_operation r = op"
    and "match_resource (rl_resource r) res" and "rl_access r = Inherit"
  shows "sig_roles rs res op = Inl ''assignment to entry in nil map''"
proof -
  have inl: "sig_add_dir g r' = Inl e \<Longrightarrow> e = ''assignment to entry in nil map''"
    "sig_add_ind g r' = Inl e \<Longrightarrow> e = ''assignment to entry in nil map''" for g r' e
    by (auto simp: sig_add_dir_def sig_add_ind_def split: access.splits)
  have "sig_collect res op rs g = Inl ''assignment to entry in nil map''" for g
    using assms(2)
  proof (induction rs arbitrary: g)
    case (Cons r' rs)
    show ?case
    proof (cases "r' = r")
      case True
      with assms show ?thesis by (auto simp: sig_add_dir_def sig_add_ind_def)
    next
      case False
      with Cons show ?thesis by (auto split: sum.splits if_splits dest: inl)
    qed
  qed simp
  with assms(1) show ?thesis by (simp add: sig_roles_def)
qed

theorem sig_roles_inherit_panics_witness:
  "sig_roles [inherit_rule 1 ''t/*'' ''read''] ''t/1'' ''read'' = Inl ''assignment to entry in nil map''"
  by (rule sig_roles_inherit_panics [where r = "inherit_rule 1 ''t/*'' ''read''"]) (code_simp | simp add: inherit_rule_def)+

end
