(* ===== verification/RbacStore.thy ===== *)
theory RbacStore
  imports RbacMerge
begin

text \<open>
  The part of the generated store layer the access control service calls:
  \<^verbatim>\<open>store/adapters/rdbms/rdbms.gen.go\<close> and \<^verbatim>\<open>queries.gen.go\<close>, functions for
  RBAC rules. A database is a parameter: three statement functions that may fail, bundled in
  \<open>store_ops\<close>. The locale \<open>rules_table\<close> states what the statements do to the table's content,
  a partial map from primary keys to access values; \<open>row_table\<close> instantiates it with the rows the
  generated queries address, under a schedule of connection failures.
\<close>

record 'st store_ops =
  so_upsert :: "'st \<Rightarrow> rule \<Rightarrow> string option \<times> 'st"
  so_delete :: "'st \<Rightarrow> rule_id \<Rightarrow> string option \<times> 'st"
  so_query :: "'st \<Rightarrow> rule list go_result"

fun upsert_rules :: "'st store_ops \<Rightarrow> 'st \<Rightarrow> rule list \<Rightarrow> string option \<times> 'st" where
  "upsert_rules ops st [] = (None, st)"
| "upsert_rules ops st (r # rs) =
     (case so_upsert ops st r of
        (Some e, st') \<Rightarrow> (Some e, st')
      | (None, st') \<Rightarrow> upsert_rules ops st' rs)"

fun delete_rules :: "'st store_ops \<Rightarrow> 'st \<Rightarrow> rule list \<Rightarrow> string option \<times> 'st" where
  "delete_rules ops st [] = (None, st)"
| "delete_rules ops st (r # rs) =
     (case so_delete ops st (rule_key r) of
        (Some e, st') \<Rightarrow> (Some e, st')
      | (None, st') \<Rightarrow> delete_rules ops st' rs)"

definition search_rules :: "'st store_ops \<Rightarrow> 'st \<Rightarrow> rule list go_result" where
  "search_rules ops st = so_query ops st"

locale rules_table =
  fixes ops :: "'st store_ops" and content :: "'st \<Rightarrow> rule_id \<Rightarrow> access option"
  assumes upsert_content:
      "so_upsert ops st r = (None, st') \<Longrightarrow> content st' = (content st)(rule_key r \<mapsto> rl_access r)"
    and delete_content: "so_delete ops st k = (None, st') \<Longrightarrow> content st' = (content st)(k := None)"
    and upsert_failed: "so_upsert ops st r = (Some e, st') \<Longrightarrow> content st' = content st"
    and delete_failed: "so_delete ops st k = (Some e, st') \<Longrightarrow> content st' = content st"
    and query_content: "so_query ops st = Inr rs \<Longrightarrow> keys_distinct rs \<and> rules_abs rs = content st \<and>
      (\<forall>r \<in> set rs. \<not> rl_dirty r)"
begin

lemma upsert_rules_content:
  "upsert_rules ops st rs = (None, st') \<Longrightarrow> keys_distinct rs \<Longrightarrow>
   content st' = content st ++ rules_abs rs"
proof (induction rs arbitrary: st)
  case Nil
  then show ?case by simp
next
  case (Cons r rs)
  then obtain st1 where 1: "so_upsert ops st r = (None, st1)" "upsert_rules ops st1 rs = (None, st')"
    by (auto split: prod.splits option.splits)
  have "rule_key r \<notin> rule_key ` set rs" and d: "keys_distinct rs"
    using Cons.prems(2) by (auto simp: keys_distinct_def)
  then have "rule_key r \<notin> dom (rules_abs rs)" by (simp add: domIff rules_abs_None)
  then show ?case
    using Cons.IH [OF 1(2) d] upsert_content [OF 1(1)]
    by (metis map_add_upd_swap rules_abs_Cons)
qed

lemma delete_rules_content:
  "delete_rules ops st rs = (None, st') \<Longrightarrow>
   content st' k = (if k \<in> rule_key ` set rs then None else content st k)"
proof (induction rs arbitrary: st)
  case Nil
  then show ?case by simp
next
  case (Cons r rs)
  then obtain st1 where 1: "so_delete ops st (rule_key r) = (None, st1)" "delete_rules ops st1 rs = (None, st')"
    by (auto split: prod.splits option.splits)
  show ?case using Cons.IH [OF 1(2)] delete_content [OF 1(1)] by auto
qed

end

section \<open>Rows and failures\<close>

text \<open>
  The rows of the table by primary key, and for each statement still to come whether it reaches
  the database; past the end of the schedule every statement does.
\<close>

record rule_db =
  db_rows :: "(rule_id \<times> access) list"
  db_schedule :: "bool list"

definition db_statement :: "rule_db \<Rightarrow> (rule_db \<Rightarrow> rule_db) \<Rightarrow> string option \<times> rule_db" where
  "db_statement db f =
     (case db_schedule db of
        [] \<Rightarrow> (None, f db)
      | ok # rest \<Rightarrow>
          (let db' = db\<lparr>db_schedule := rest\<rparr>
           in if ok then (None, f db') else (Some ''connection lost'', db')))"

definition row_upsert :: "rule_db \<Rightarrow> rule \<Rightarrow> string option \<times> rule_db" where
  "row_upsert db r =
     db_statement db (\<lambda>d. d\<lparr>db_rows := AList.update (rule_key r) (rl_access r) (db_rows d)\<rparr>)"

definition row_delete :: "rule_db \<Rightarrow> rule_id \<Rightarrow> string option \<times> rule_db" where
  "row_delete db k = db_statement db (\<lambda>d. d\<lparr>db_rows := AList.delete k (db_rows d)\<rparr>)"

fun row_decode :: "rule_id \<times> access \<Rightarrow> rule" where
  "row_decode ((i, r, o'), a) =
     \<lparr>rl_role = i, rl_resource = r, rl_operation = o', rl_access = a, rl_dirty = False\<rparr>"

definition row_query :: "rule_db \<Rightarrow> rule list go_result" where
  "row_query db = Inr (map row_decode (AList.clearjunk (db_rows db)))"

definition row_table :: "rule_db store_ops" where
  "row_table = \<lparr>so_upsert = row_upsert, so_delete = row_delete, so_query = row_query\<rparr>"

definition row_content :: "rule_db \<Rightarrow> rule_id \<Rightarrow> access option" where
  "row_content db = map_of (db_rows db)"

lemma row_decode_key [simp]: "rule_key (row_decode x) = fst x" "rl_access (row_decode x) = snd x"
  by (cases x rule: row_decode.cases; simp add: rule_key_def)+

lemma row_decode_clean [simp]: "\<not> rl_dirty (row_decode x)"
  by (cases x rule: row_decode.cases) simp

interpretation rows: rules_table row_table row_content
proof unfold_locales
  fix st st' :: rule_db and r k e rs
  show "so_upsert row_table st r = (None, st') \<Longrightarrow>
      row_content st' = (row_content st)(rule_key r \<mapsto> rl_access r)"
    by (auto simp: row_table_def row_upsert_def db_statement_def row_content_def update_conv'
        Let_def split: list.splits if_splits)
  show "so_delete row_table st k = (None, st') \<Longrightarrow> row_content st' = (row_content st)(k := None)"
    by (auto simp: row_table_def row_delete_def db_statement_def row_content_def delete_conv'
        Let_def split: list.splits if_splits)
  show "so_upsert row_table st r = (Some e, st') \<Longrightarrow> row_content st' = row_content st"
    by (auto simp: row_table_def row_upsert_def db_statement_def row_content_def Let_def
        split: list.splits if_splits)
  show "so_delete row_table st k = (Some e, st') \<Longrightarrow> row_content st' = row_content st"
    by (auto simp: row_table_def row_delete_def db_statement_def row_content_def Let_def
        split: list.splits if_splits)
  show "so_query row_table st = Inr rs \<Longrightarrow> keys_distinct rs \<and> rules_abs rs = row_content st \<and>
      (\<forall>r \<in> set rs. \<not> rl_dirty r)"
    by (auto simp: row_table_def row_query_def row_content_def keys_distinct_def rules_abs_def
        comp_def distinct_clearjunk map_of_clearjunk)
qed

end
