(* ===== verification/RbacService.thy ===== *)
theory RbacService
  imports RbacStore
begin

text \<open>
  \<^verbatim>\<open>pkg/rbac/service.go\<close> and \<^verbatim>\<open>evaluate.go\<close>: the service that caches the rules and their
  index, answers checks, and writes granted rules to the store. Every exported operation runs
  under the service's lock, so each is one atomic step of the state. Logging is left out; the
  watcher is the environment that calls \<open>reload\<close>.
\<close>

record 'd rbac_service =
  sv_rules :: "rule list"
  sv_indexed :: opt_rule_set
  sv_roles :: "'d role list"
  sv_store :: bool

datatype evaluated =
  Evaluated (ev_resource: string) (ev_operation: string) (ev_access: access) (ev_can: bool)
    (ev_step: explanation) (ev_role: u64) (ev_rule: "rule option") (ev_default: "evaluated option")

definition new_service :: "bool \<Rightarrow> 'd rbac_service" where
  "new_service has_store = \<lparr>sv_rules = [], sv_indexed = [], sv_roles = [], sv_store = has_store\<rparr>"

definition svc_evaluate ::
  "map_order \<Rightarrow> rule_sort \<Rightarrow> 'd rbac_service \<Rightarrow> ses_value \<Rightarrow> string \<Rightarrow> 'd res_value \<Rightarrow> bool \<Rightarrow> evaluated" where
  "svc_evaluate iter srt svc ses op res incl_parent =
     (let roles = get_context_roles ses res (sv_roles svc);
          (a, r, x) = evaluate iter srt (sv_indexed svc) roles op (rs_string res) False;
          role = (case r of None \<Rightarrow> 0 | Some r \<Rightarrow> rl_role r);
          dflt = (if incl_parent then
              (let (a, r, x) = evaluate iter srt (sv_indexed svc) roles op (rs_string res) True;
                   role = (case r of None \<Rightarrow> 0 | Some r \<Rightarrow> rl_role r)
               in Some (Evaluated (rs_string res) op a (a = Allow) x role r None))
            else None)
      in Evaluated (rs_string res) op a (a = Allow) x role r dflt)"

definition svc_check ::
  "map_order \<Rightarrow> rule_sort \<Rightarrow> 'd rbac_service \<Rightarrow> ses_value \<Rightarrow> string \<Rightarrow> 'd res_value \<Rightarrow> access" where
  "svc_check iter srt svc ses op res = ev_access (svc_evaluate iter srt svc ses op res False)"

definition svc_can ::
  "map_order \<Rightarrow> rule_sort \<Rightarrow> 'd rbac_service \<Rightarrow> ses_value \<Rightarrow> string \<Rightarrow> 'd res_value \<Rightarrow> bool" where
  "svc_can iter srt svc ses op res \<longleftrightarrow> svc_check iter srt svc ses op res = Allow"

definition svc_merge :: "'d rbac_service \<Rightarrow> rule list \<Rightarrow> 'd rbac_service" where
  "svc_merge svc rules =
     (let rs = merge_rules (sv_rules svc) rules
      in svc\<lparr>sv_rules := rs, sv_indexed := index_rules rs\<rparr>)"

definition svc_flush ::
  "'st store_ops \<Rightarrow> 'd rbac_service \<Rightarrow> 'st \<Rightarrow> string option \<times> 'd rbac_service \<times> 'st" where
  "svc_flush ops svc st =
     (if \<not> sv_store svc then (None, svc, st)
      else let (deletable, updatable, final) = flushable (sv_rules svc)
           in case delete_rules ops st deletable of
             (Some e, st1) \<Rightarrow> (Some e, svc, st1)
           | (None, st1) \<Rightarrow>
               (case upsert_rules ops st1 updatable of
                  (Some e, st2) \<Rightarrow> (Some e, svc, st2)
                | (None, st2) \<Rightarrow> (None, svc\<lparr>sv_rules := clear_dirty final\<rparr>, st2)))"

definition svc_grant ::
  "'st store_ops \<Rightarrow> 'd rbac_service \<Rightarrow> 'st \<Rightarrow> rule list \<Rightarrow> string option \<times> 'd rbac_service \<times> 'st" where
  "svc_grant ops svc st rules = svc_flush ops (svc_merge svc rules) st"

definition svc_reload :: "'st store_ops \<Rightarrow> 'd rbac_service \<Rightarrow> 'st \<Rightarrow> 'd rbac_service" where
  "svc_reload ops svc st =
     (case search_rules ops st of
        Inl e \<Rightarrow> svc
      | Inr rr \<Rightarrow> svc\<lparr>sv_rules := rr, sv_indexed := index_rules rr\<rparr>)"

definition svc_clear :: "'d rbac_service \<Rightarrow> 'd rbac_service" where
  "svc_clear svc = svc\<lparr>sv_rules := [], sv_indexed := []\<rparr>"

definition svc_update_roles :: "'d rbac_service \<Rightarrow> 'd role list \<Rightarrow> 'd rbac_service" where
  "svc_update_roles svc rr = svc\<lparr>sv_roles := rr\<rparr>"

definition svc_find_rules :: "'d rbac_service \<Rightarrow> u64 \<Rightarrow> rule list" where
  "svc_find_rules svc i = rules_by_role (sv_rules svc) i"

definition svc_significant_roles ::
  "'d rbac_service \<Rightarrow> string \<Rightarrow> string \<Rightarrow> (u64 list \<times> u64 list) go_result" where
  "svc_significant_roles svc res op = sig_roles (sv_rules svc) res op"

section \<open>Reachable services\<close>

inductive svc_step ::
  "'st store_ops \<Rightarrow> 'd rbac_service \<times> 'st \<Rightarrow> 'd rbac_service \<times> 'st \<Rightarrow> bool" for ops where
  grant: "svc_grant ops svc st rules = (e, svc', st') \<Longrightarrow> svc_step ops (svc, st) (svc', st')"
| reload: "svc_step ops (svc, st) (svc_reload ops svc st, st)"
| clear: "svc_step ops (svc, st) (svc_clear svc, st)"
| roles: "svc_step ops (svc, st) (svc_update_roles svc rr, st)"

inductive svc_reachable :: "'st store_ops \<Rightarrow> bool \<Rightarrow> 'd rbac_service \<times> 'st \<Rightarrow> bool" for ops b where
  init: "svc_reachable ops b (new_service b, st)"
| step: "svc_reachable ops b x \<Longrightarrow> svc_step ops x y \<Longrightarrow> svc_reachable ops b y"

inductive_cases svc_stepE: "svc_step ops (svc, st) y"

text \<open>
  The index and the rule list are separate fields, and a successful flush replaces the list only.
  What must stay true is that both hold the same effective rules: the same keys and accesses,
  apart from rules set to Inherit, which no check looks at.
\<close>

definition effective :: "rule list \<Rightarrow> (rule_id \<times> access) list" where
  "effective rs = map (\<lambda>r. (rule_key r, rl_access r)) (filter (\<lambda>r. rl_access r \<noteq> Inherit) rs)"

definition coherent :: "'d rbac_service \<Rightarrow> bool" where
  "coherent svc \<longleftrightarrow>
     (\<exists>rs. sv_indexed svc = index_rules rs \<and> effective rs = effective (sv_rules svc))"

lemma effective_final: "effective (clear_dirty (filter (\<lambda>r. rl_access r \<noteq> Inherit) rs)) = effective rs"
  by (induction rs) (auto simp: effective_def clear_dirty_def)

lemma svc_flush_cases:
  assumes "svc_flush ops svc st = (e, svc', st')"
  shows "svc' = svc \<or>
    svc' = svc\<lparr>sv_rules := clear_dirty (filter (\<lambda>r. rl_access r \<noteq> Inherit) (sv_rules svc))\<rparr>"
  using assms
  by (auto simp: svc_flush_def flushable_filter split: if_splits prod.splits option.splits)

lemma svc_grant_coherent:
  assumes "svc_grant ops svc st rules = (e, svc', st')"
  shows "coherent svc'"
proof -
  let ?m = "svc_merge svc rules"
  have "svc_flush ops ?m st = (e, svc', st')" using assms by (simp add: svc_grant_def)
  then have "svc' = ?m \<or>
      svc' = ?m\<lparr>sv_rules := clear_dirty (filter (\<lambda>r. rl_access r \<noteq> Inherit) (sv_rules ?m))\<rparr>"
    by (rule svc_flush_cases)
  moreover have "sv_indexed ?m = index_rules (sv_rules ?m)" by (simp add: svc_merge_def Let_def)
  ultimately show ?thesis by (auto simp: coherent_def effective_final)
qed

lemma svc_reload_coherent: "coherent svc \<Longrightarrow> coherent (svc_reload ops svc st)"
  by (auto simp: svc_reload_def coherent_def split: sum.splits)

lemma svc_clear_coherent: "coherent (svc_clear svc)"
  by (auto simp: svc_clear_def coherent_def index_rules_def intro: exI [of _ "[]"])

lemma svc_update_roles_coherent: "coherent svc \<Longrightarrow> coherent (svc_update_roles svc rr)"
  by (simp add: svc_update_roles_def coherent_def)

lemma new_service_coherent: "coherent (new_service b)"
  by (auto simp: new_service_def coherent_def index_rules_def intro: exI [of _ "[]"])

lemma reachable_coherent: "svc_reachable ops b x \<Longrightarrow> coherent (fst x)"
proof (induction rule: svc_reachable.induct)
  case (init st)
  then show ?case by (simp add: new_service_coherent)
next
  case (step x y)
  from step.hyps(2) step.IH show ?case
    by (cases rule: svc_step.cases)
       (auto simp: svc_grant_coherent svc_reload_coherent svc_clear_coherent svc_update_roles_coherent)
qed

definition candidate_view ::
  "opt_rule_set \<Rightarrow> part_roles \<Rightarrow> string \<Rightarrow> string \<Rightarrow> bool \<Rightarrow> role_kind \<Rightarrow> (rule_id \<times> access) set" where
  "candidate_view idx pr op res parent k =
     (\<lambda>r. (rule_key r, rl_access r)) ` candidates idx pr op res parent k"

lemma candidate_view_effective:
  "candidate_view (index_rules rs) pr op res parent k =
     {((i, s, p), a) \<in> set (effective rs). bool_at (pr k) i \<and> p = op \<and> match_resource s res \<and>
        (parent \<longrightarrow> s \<noteq> res)}"
  by (force simp: candidate_view_def candidates_index effective_def applies_def rule_key_def)



end
