(* ===== verification/RbacGrant.thy ===== *)
theory RbacGrant
  imports RbacService
begin

text \<open>
  Grants against the store: when what a grant reports is what the store holds. The abstract
  operation is \<open>granted\<close>, the laying of accesses over a partial map; the lemmas are proved for
  any store that keeps the laws of \<open>rules_table\<close>.
\<close>


text \<open>
  A clean service mirrors the store: distinct keys, nothing dirty, nothing set to Inherit, and the
  same content. This is the state after a reload and after every grant whose flush succeeds.
\<close>

definition clean :: "('st \<Rightarrow> rule_id \<Rightarrow> access option) \<Rightarrow> 'd rbac_service \<Rightarrow> 'st \<Rightarrow> bool" where
  "clean content svc st \<longleftrightarrow>
     keys_distinct (sv_rules svc) \<and>
     (\<forall>r \<in> set (sv_rules svc). \<not> rl_dirty r \<and> rl_access r \<noteq> Inherit) \<and>
     content st = rules_abs (sv_rules svc)"

text \<open>The granted rules laid over the present ones; an Inherit removes the entry.\<close>

definition granted :: "(rule_id \<Rightarrow> access option) \<Rightarrow> rule list \<Rightarrow> rule_id \<Rightarrow> access option" where
  "granted m new k = (case (m ++ rules_abs new) k of Some Inherit \<Rightarrow> None | x \<Rightarrow> x)"

text \<open>A rule that is not dirty after merging distinct rules into clean ones is an old one.\<close>

lemma merge_foldl_clean:
  assumes "blen \<le> length out" and "blen = length base" and "keys_distinct new"
    and "\<forall>i < blen. rule_key (out ! i) = rule_key (base ! i)"
    and "\<forall>i < blen. rule_key (base ! i) \<in> rule_key ` set new \<longrightarrow> out ! i = base ! i"
    and "\<forall>i < blen. \<not> rl_dirty (out ! i) \<longrightarrow> rl_access (out ! i) = rl_access (base ! i)"
    and "\<forall>r \<in> set (drop blen out). rl_dirty r"
  shows "(\<forall>i < blen. rule_key (foldl (merge_rule blen) out new ! i) = rule_key (base ! i) \<and>
        (\<not> rl_dirty (foldl (merge_rule blen) out new ! i) \<longrightarrow>
           rl_access (foldl (merge_rule blen) out new ! i) = rl_access (base ! i))) \<and>
     (\<forall>r \<in> set (drop blen (foldl (merge_rule blen) out new)). rl_dirty r)"
  using assms
proof (induction new arbitrary: out)
  case Nil
  then show ?case by simp
next
  case (Cons r new)
  let ?o = "merge_rule blen out r"
  have nk: "rule_key r \<notin> rule_key ` set new" and kd: "keys_distinct new"
    using Cons.prems(3) by (auto simp: keys_distinct_def)
  have o: "(\<forall>i < blen. rule_key (?o ! i) = rule_key (base ! i)) \<and>
      (\<forall>i < blen. rule_key (base ! i) \<in> rule_key ` set new \<longrightarrow> ?o ! i = base ! i) \<and>
      (\<forall>i < blen. \<not> rl_dirty (?o ! i) \<longrightarrow> rl_access (?o ! i) = rl_access (base ! i)) \<and>
      (\<forall>r \<in> set (drop blen ?o). rl_dirty r)"
    using Cons.prems(1)
  proof (cases rule: merge_rule_cases [where r = r])
    case (hit i)
    let ?u = "(out ! i)\<lparr>rl_dirty := rl_access (out ! i) \<noteq> rl_access r, rl_access := rl_access r\<rparr>"
    have il: "i < length out" using hit(1) Cons.prems(1) by simp
    have key: "rule_key (base ! i) = rule_key r" using hit(1,2) Cons.prems(4) by metis
    then have old: "out ! i = base ! i" using hit(1) Cons.prems(5) by simp
    have nth: "?o ! j = (if j = i then ?u else out ! j)" for j
      using hit(3) il by (simp add: nth_list_update)
    have "drop blen ?o = drop blen out" using hit(1,3) by simp
    moreover have "rule_key (?o ! j) = rule_key (base ! j) \<and>
        (rule_key (base ! j) \<in> rule_key ` set new \<longrightarrow> ?o ! j = base ! j) \<and>
        (\<not> rl_dirty (?o ! j) \<longrightarrow> rl_access (?o ! j) = rl_access (base ! j))" if "j < blen" for j
    proof (cases "j = i")
      case True
      with nk key old show ?thesis by (simp add: nth)
    next
      case False
      with that Cons.prems(4,5,6) show ?thesis by (simp add: nth)
    qed
    ultimately show ?thesis using Cons.prems(7) by simp
  next
    case miss
    have nth: "?o ! j = out ! j" if "j < blen" for j
      using miss(2) that Cons.prems(1) by (simp add: nth_append)
    have "drop blen ?o = drop blen out @ [r\<lparr>rl_dirty := True\<rparr>]"
      using miss(2) Cons.prems(1) by simp
    with Cons.prems(7) have "\<forall>r \<in> set (drop blen ?o). rl_dirty r" by auto
    with nth Cons.prems(4,5,6) show ?thesis by simp
  qed
  have len: "blen \<le> length ?o" using merge_rule_length [OF Cons.prems(1)] .
  show ?case unfolding foldl_Cons
    by (rule Cons.IH [OF len Cons.prems(2) kd]) (use o in blast)+
qed

lemma merge_rules_clean:
  assumes "keys_distinct base" and "keys_distinct new"
    and "\<forall>r \<in> set base. \<not> rl_dirty r" and "r \<in> set (merge_rules base new)" and "\<not> rl_dirty r"
  shows "rules_abs base (rule_key r) = Some (rl_access r)"
proof -
  let ?m = "foldl (merge_rule (length base)) base new"
  have ne: "base \<noteq> []" and m: "r \<in> set ?m"
    using assms(4,5) by (auto simp: merge_rules_def Let_def split: if_splits)
  have c: "(\<forall>i < length base. rule_key (?m ! i) = rule_key (base ! i) \<and>
        (\<not> rl_dirty (?m ! i) \<longrightarrow> rl_access (?m ! i) = rl_access (base ! i))) \<and>
     (\<forall>r \<in> set (drop (length base) ?m). rl_dirty r)"
    by (rule merge_foldl_clean) (use assms in simp_all)
  with m assms(5) have "r \<in> set (take (length base) ?m)"
    by (metis append_take_drop_id set_append Un_iff)
  then obtain i where "i < length base" "r = ?m ! i" by (auto simp: in_set_conv_nth)
  with c assms(5) have "rule_key r = rule_key (base ! i)" "rl_access r = rl_access (base ! i)" "base ! i \<in> set base"
    by simp_all
  with assms(1) show ?thesis by (auto simp: rules_abs_distinct)
qed

lemma merge_rules_abs:
  assumes "keys_distinct base" and "keys_distinct new"
  shows "keys_distinct (merge_rules base new) \<and>
     rules_abs (merge_rules base new) = rules_abs base ++ rules_abs new"
proof (cases "base = []")
  case True
  with assms show ?thesis
    by (simp add: merge_rules_def rules_abs_map_dirty keys_distinct_map_dirty)
next
  case False
  with merge_foldl [OF order_refl assms] show ?thesis by (simp add: merge_rules_def)
qed

lemma keys_distinct_unique:
  "keys_distinct rs \<Longrightarrow> r \<in> set rs \<Longrightarrow> r' \<in> set rs \<Longrightarrow> rule_key r' = rule_key r \<Longrightarrow> r' = r"
  unfolding keys_distinct_def distinct_map by (meson inj_onD)

lemma key_in_filter:
  assumes "keys_distinct rs" and "r \<in> set rs"
  shows "rule_key r \<in> rule_key ` set (filter P rs) \<longleftrightarrow> P r"
proof
  assume "rule_key r \<in> rule_key ` set (filter P rs)"
  then obtain r' where "r' \<in> set rs" "P r'" "rule_key r' = rule_key r" by fastforce
  with keys_distinct_unique [OF assms] show "P r" by metis
qed (use assms in simp)

lemma rule_keys_dom: "rule_key ` set rs = dom (rules_abs rs)"
  by (rule set_eqI) (simp only: domIff rules_abs_None not_not)

lemma merge_rules_keys:
  "keys_distinct base \<Longrightarrow> keys_distinct new \<Longrightarrow>
   rule_key ` set (merge_rules base new) = rule_key ` set base \<union> rule_key ` set new"
  by (simp add: rule_keys_dom merge_rules_abs Un_commute)

lemma keys_distinct_filter: "keys_distinct rs \<Longrightarrow> keys_distinct (filter P rs)"
  by (induction rs) (auto simp: keys_distinct_def)

lemma clear_dirty_simps [simp]:
  "rules_abs (clear_dirty rs) = rules_abs rs" "keys_distinct (clear_dirty rs) = keys_distinct rs"
  by (simp_all add: clear_dirty_def rules_abs_map_dirty keys_distinct_map_dirty)

lemma rules_abs_filter:
  "keys_distinct rs \<Longrightarrow> rules_abs (filter P rs) k = Some a \<longleftrightarrow>
     (\<exists>r \<in> set rs. P r \<and> rule_key r = k \<and> rl_access r = a)"
  by (auto simp: rules_abs_distinct [OF keys_distinct_filter])

context rules_table
begin

text \<open>The flush writes what the merged rules say, when what is not dirty is in the store already.\<close>

lemma flush_content:
  assumes "keys_distinct rs"
    and "\<And>r. r \<in> set rs \<Longrightarrow> \<not> rl_dirty r \<Longrightarrow> rl_access r \<noteq> Inherit \<Longrightarrow> content st (rule_key r) = Some (rl_access r)"
    and "\<And>k. content st k \<noteq> None \<Longrightarrow> k \<in> rule_key ` set rs"
    and "delete_rules ops st (filter (\<lambda>r. rl_access r = Inherit) rs) = (None, st1)"
    and "upsert_rules ops st1 (filter (\<lambda>r. rl_access r \<noteq> Inherit \<and> rl_dirty r) rs) = (None, st2)"
  shows "content st2 = rules_abs (filter (\<lambda>r. rl_access r \<noteq> Inherit) rs)"
proof
  fix k
  let ?del = "filter (\<lambda>r. rl_access r = Inherit) rs"
  let ?upd = "filter (\<lambda>r. rl_access r \<noteq> Inherit \<and> rl_dirty r) rs"
  let ?fin = "filter (\<lambda>r. rl_access r \<noteq> Inherit) rs"
  have c1: "content st1 k = (if k \<in> rule_key ` set ?del then None else content st k)"
    using assms(4) by (rule delete_rules_content)
  have c2: "content st2 = content st1 ++ rules_abs ?upd"
    using assms(5) by (rule upsert_rules_content) (simp add: keys_distinct_filter assms(1))
  show "content st2 k = rules_abs ?fin k"
  proof (cases "k \<in> rule_key ` set rs")
    case False
    then have "rules_abs ?fin k = None" "rules_abs ?upd k = None"
      by (auto simp: rules_abs_None)
    moreover have "content st k = None" using False assms(3) [of k] by metis
    ultimately show ?thesis using c1 c2 by (simp add: map_add_def)
  next
    case True
    then obtain r where r: "r \<in> set rs" "rule_key r = k" by blast
    note key = key_in_filter [OF assms(1) r(1), unfolded r(2)]
    consider "rl_access r = Inherit" | "rl_access r \<noteq> Inherit" "rl_dirty r"
      | "rl_access r \<noteq> Inherit" "\<not> rl_dirty r" by blast
    then show ?thesis
    proof cases
      case 1
      then have "k \<notin> rule_key ` set ?upd" "k \<notin> rule_key ` set ?fin" "k \<in> rule_key ` set ?del"
        by (simp_all only: key) simp_all
      with c1 c2 show ?thesis by (simp add: map_add_def rules_abs_None [THEN iffD2])
    next
      case 2
      then have "rules_abs ?upd k = Some (rl_access r)" "rules_abs ?fin k = Some (rl_access r)"
        using r by (auto simp: rules_abs_filter [OF assms(1)])
      with c2 show ?thesis by simp
    next
      case 3
      then have "k \<notin> rule_key ` set ?upd" "k \<notin> rule_key ` set ?del"
        by (simp_all only: key) simp_all
      moreover have "rules_abs ?fin k = Some (rl_access r)"
        using r 3 by (auto simp: rules_abs_filter [OF assms(1)])
      moreover have "content st k = Some (rl_access r)"
        using assms(2) [OF r(1) 3(2,1)] r(2) by simp
      ultimately show ?thesis using c1 c2 by (simp add: map_add_def rules_abs_None [THEN iffD2])
    qed
  qed
qed

lemma grant_clean:
  assumes "clean content svc st" and "sv_store svc" and "keys_distinct new"
    and "svc_grant ops svc st new = (None, svc', st')"
  shows "clean content svc' st' \<and> content st' = granted (content st) new"
proof -
  let ?m = "merge_rules (sv_rules svc) new"
  let ?fin = "filter (\<lambda>r. rl_access r \<noteq> Inherit) ?m"
  have base: "keys_distinct (sv_rules svc)" "\<forall>r \<in> set (sv_rules svc). \<not> rl_dirty r \<and> rl_access r \<noteq> Inherit"
    "content st = rules_abs (sv_rules svc)"
    using assms(1) by (simp_all add: clean_def)
  have kd: "keys_distinct ?m" and ab: "rules_abs ?m = rules_abs (sv_rules svc) ++ rules_abs new"
    using merge_rules_abs [OF base(1) assms(3)] by simp_all
  obtain st1 where d: "delete_rules ops st (filter (\<lambda>r. rl_access r = Inherit) ?m) = (None, st1)"
    and u: "upsert_rules ops st1 (filter (\<lambda>r. rl_access r \<noteq> Inherit \<and> rl_dirty r) ?m) = (None, st')"
    and s': "sv_rules svc' = clear_dirty ?fin"
    using assms(2,4)
    by (auto simp: svc_grant_def svc_flush_def svc_merge_def flushable_filter Let_def
        split: prod.splits option.splits)
  have nd: "content st (rule_key r) = Some (rl_access r)"
    if "r \<in> set ?m" "\<not> rl_dirty r" "rl_access r \<noteq> Inherit" for r
    using merge_rules_clean [OF base(1) assms(3) _ that(1,2)] base(2,3) by simp
  have cov: "k \<in> rule_key ` set ?m" if "content st k \<noteq> None" for k
    using that base(3) merge_rules_keys [OF base(1) assms(3)] by (auto simp: rules_abs_None)
  have fin: "content st' = rules_abs ?fin" by (rule flush_content [OF kd nd cov d u])
  have "rules_abs ?fin k = granted (content st) new k" for k
  proof (cases "rules_abs ?m k")
    case None
    then have "rules_abs ?fin k = None" by (auto simp: rules_abs_None)
    moreover have "(rules_abs (sv_rules svc) ++ rules_abs new) k = None" using None ab by simp
    ultimately show ?thesis using base(3) by (simp only: granted_def option.case)
  next
    case (Some a)
    then obtain r where r: "r \<in> set ?m" "rule_key r = k" "rl_access r = a"
      using kd by (auto simp: rules_abs_distinct)
    have "rules_abs ?fin k = (if a = Inherit then None else Some a)"
    proof (cases "a = Inherit")
      case True
      with r have "k \<notin> rule_key ` set ?fin"
        using key_in_filter [OF kd r(1), unfolded r(2)] by (simp only:) simp
      then have "rules_abs ?fin k = None" by (simp only: rules_abs_None not_False_eq_True)
      with True show ?thesis by simp
    next
      case False
      with r show ?thesis by (auto simp: rules_abs_filter [OF kd])
    qed
    moreover have "(rules_abs (sv_rules svc) ++ rules_abs new) k = Some a" using Some ab by simp
    ultimately show ?thesis using base(3) by (cases a) (simp_all only: granted_def option.case access.case access.distinct if_True if_False refl)
  qed
  then have "content st' = granted (content st) new" using fin by auto
  moreover have "clean content svc' st'"
    using s' fin kd by (auto simp: clean_def keys_distinct_filter clear_dirty_def
        keys_distinct_map_dirty rules_abs_map_dirty)
  ultimately show ?thesis by blast
qed

end

text \<open>
  C2: from a clean state, a grant of rules with distinct keys that reports no error leaves the
  store with exactly the granted accesses laid over the old ones, with the rules set to Inherit
  removed, and the service clean again.
\<close>

theorem grant_persists:
  assumes "rules_table ops content" and "clean content svc st" and "sv_store svc"
    and "keys_distinct new" and "svc_grant ops svc st new = (None, svc', st')"
  shows "clean content svc' st' \<and> content st' = granted (content st) new"
  using rules_table.grant_clean [OF assms] .

definition empty_db :: "bool list \<Rightarrow> rule_db" where
  "empty_db schedule = \<lparr>db_rows = [], db_schedule = schedule\<rparr>"

theorem grant_persists_witness:
  "clean row_content (fst (snd (svc_grant row_table (new_service True :: unit rbac_service) (empty_db []) [allow_rule 1 ''t/1'' ''read''])))
     (snd (snd (svc_grant row_table (new_service True :: unit rbac_service) (empty_db []) [allow_rule 1 ''t/1'' ''read'']))) \<and>
   row_content (snd (snd (svc_grant row_table (new_service True :: unit rbac_service) (empty_db []) [allow_rule 1 ''t/1'' ''read''])))
     = granted (row_content (empty_db [])) [allow_rule 1 ''t/1'' ''read'']"
proof (rule grant_persists)
  show "rules_table row_table row_content" by (rule rows.rules_table_axioms)
  show "clean row_content (new_service True :: unit rbac_service) (empty_db [])"
    by (simp add: clean_def new_service_def empty_db_def row_content_def keys_distinct_def)
  show "sv_store (new_service True :: unit rbac_service)" by (simp add: new_service_def)
  show "keys_distinct [allow_rule 1 ''t/1'' ''read'']" by (simp add: keys_distinct_def)
  show "svc_grant row_table (new_service True :: unit rbac_service) (empty_db []) [allow_rule 1 ''t/1'' ''read''] =
    (None, fst (snd (svc_grant row_table (new_service True) (empty_db []) [allow_rule 1 ''t/1'' ''read''])),
      snd (snd (svc_grant row_table (new_service True) (empty_db []) [allow_rule 1 ''t/1'' ''read''])))"
    by (simp add: svc_grant_def svc_flush_def svc_merge_def new_service_def empty_db_def merge_rules_def
        flushable_filter row_table_def row_upsert_def db_statement_def Let_def allow_rule_def)
qed

definition lost_rule :: "rule list" where
  "lost_rule = [allow_rule 1 ''t/1'' ''read'']"

definition lost_first :: "string option \<times> unit rbac_service \<times> rule_db" where
  "lost_first = svc_grant row_table (new_service True) (empty_db [False]) lost_rule"

definition lost_retry :: "string option \<times> unit rbac_service \<times> rule_db" where
  "lost_retry = svc_grant row_table (fst (snd lost_first)) (snd (snd lost_first)) lost_rule"

text \<open>
  A grant whose store write fails is lost when it is repeated: the retry finds the rule with
  the new access already, resets its dirty flag, writes nothing and reports success, so the
  service allows what the store never learns.
\<close>

theorem grant_retry_not_persisted:
  "fst lost_first = Some ''connection lost'' \<and> fst lost_retry = None \<and>
   rules_abs (sv_rules (fst (snd lost_retry))) (1, ''t/1'', ''read'') = Some Allow \<and>
   row_content (snd (snd lost_retry)) (1, ''t/1'', ''read'') = None"
  by code_simp

end
