(* ===== verification/QlLexer.thy ===== *)
theory QlLexer
  imports Prelude
begin

text \<open>
  \<^verbatim>\<open>pkg/ql/lexer.go\<close>, \<^verbatim>\<open>token_consumers.go\<close> and \<^verbatim>\<open>token_codes.go\<close>: the scanner of the query
  language.

  A Go string is a list of bytes. A rune is represented by its UTF-8 encoding, so a rune read
  from valid input is the bytes it was read from; the end of input (and a NUL byte) is the rune 0.
  \<open>unread\<close> puts the bytes back but not the character counter, as in the source. Counters are
  \<open>nat\<close>: they never exceed the length of the input.
\<close>

section \<open>Runes\<close>

type_synonym rune = string

definition eof_rune :: rune where
  "eof_rune = [CHR 0x00]"

definition replacement_rune :: rune where
  "replacement_rune = [CHR 0xEF, CHR 0xBF, CHR 0xBD]"

definition byte_in :: "nat \<Rightarrow> nat \<Rightarrow> char \<Rightarrow> bool" where
  "byte_in lo hi c \<longleftrightarrow> lo \<le> of_char c \<and> of_char c \<le> hi"

definition cont_bytes :: "nat \<Rightarrow> nat \<Rightarrow> nat \<Rightarrow> string \<Rightarrow> bool" where
  "cont_bytes lo hi n s \<longleftrightarrow>
     (case s of [] \<Rightarrow> False | c # cs \<Rightarrow>
        byte_in lo hi c \<and> n \<le> length cs \<and> list_all (byte_in 128 191) (take n cs))"

text \<open>The length of the encoding the bytes start with; 0 for an invalid one.\<close>

definition rune_size :: "string \<Rightarrow> nat" where
  "rune_size s =
     (case s of [] \<Rightarrow> 0 | c # cs \<Rightarrow>
        if byte_in 0 127 c then 1
        else if byte_in 194 223 c \<and> cont_bytes 128 191 0 cs then 2
        else if (byte_in 224 224 c \<and> cont_bytes 160 191 1 cs)
          \<or> (byte_in 237 237 c \<and> cont_bytes 128 159 1 cs)
          \<or> ((byte_in 225 236 c \<or> byte_in 238 239 c) \<and> cont_bytes 128 191 1 cs) then 3
        else if (byte_in 240 240 c \<and> cont_bytes 144 191 2 cs)
          \<or> (byte_in 244 244 c \<and> cont_bytes 128 143 2 cs)
          \<or> (byte_in 241 243 c \<and> cont_bytes 128 191 2 cs) then 4
        else 0)"

definition read_rune :: "string \<Rightarrow> rune \<times> string" where
  "read_rune s =
     (if s = [] then (eof_rune, [])
      else if rune_size s = 0 then (replacement_rune, tl s)
      else (take (rune_size s) s, drop (rune_size s) s))"

text \<open>A byte converted to a rune: its code point is the byte.\<close>

definition byte_rune :: "char \<Rightarrow> rune" where
  "byte_rune c =
     (let n = of_char c :: nat
      in if n < 128 then [c] else [char_of (192 + n div 64), char_of (128 + n mod 64)])"

section \<open>Tokens\<close>

datatype token_code =
  ILLEGAL | EOF | WS | IDENT | LNULL | LBOOL | LNUMBER | LSTRING | COMMA | DOT | OPERATOR
  | PARENTHESIS_OPEN | PARENTHESIS_CLOSE | KEYWORD

record token =
  tk_code :: token_code
  tk_literal :: string
  tk_line :: nat
  tk_char :: nat

definition mk_token :: "token_code \<Rightarrow> string \<Rightarrow> token" where
  "mk_token c l = \<lparr>tk_code = c, tk_literal = l, tk_line = 0, tk_char = 0\<rparr>"

definition token_is :: "token \<Rightarrow> token_code list \<Rightarrow> bool" where
  "token_is t cc = list_ex (\<lambda>c. tk_code t = c) cc"

definition char_whitelist_whitespace :: string where
  "char_whitelist_whitespace = [CHR '' '', CHR 0x0A, CHR 0x09]"

definition char_whitelist_operators :: string where
  "char_whitelist_operators = ''!+-/*=<>&|''"

definition char_whitelist_quotes :: string where
  "char_whitelist_quotes = [CHR 0x27]"

definition rune_in :: "rune \<Rightarrow> string \<Rightarrow> bool" where
  "rune_in ch wl = list_ex (\<lambda>w. ch = [w]) wl"

definition is_letter :: "rune \<Rightarrow> bool" where
  "is_letter ch \<longleftrightarrow>
     (case ch of [c] \<Rightarrow> byte_in 97 122 c \<or> byte_in 65 90 c | _ \<Rightarrow> False)"

definition is_digit :: "rune \<Rightarrow> bool" where
  "is_digit ch \<longleftrightarrow> (case ch of [c] \<Rightarrow> byte_in 48 57 c | _ \<Rightarrow> False)"

section \<open>Scanner state\<close>

record lexer =
  lx_rest :: string
  lx_line :: nat
  lx_char :: nat

definition new_lexer :: "string \<Rightarrow> lexer" where
  "new_lexer s = \<lparr>lx_rest = s, lx_line = 0, lx_char = 0\<rparr>"

definition lex_read :: "lexer \<Rightarrow> rune \<times> lexer" where
  "lex_read s =
     (let (ch, rest) = read_rune (lx_rest s)
      in (ch, s\<lparr>lx_rest := rest, lx_char := Suc (lx_char s)\<rparr>))"

definition lex_peek :: "lexer \<Rightarrow> rune" where
  "lex_peek s = (case lx_rest s of [] \<Rightarrow> eof_rune | c # cs \<Rightarrow> byte_rune c)"

text \<open>The state before a read, with the counter the read left.\<close>

definition lex_unread :: "lexer \<Rightarrow> lexer \<Rightarrow> lexer" where
  "lex_unread before s = s\<lparr>lx_rest := lx_rest before\<rparr>"

lemma rune_size_le: "rune_size s \<le> length s"
  by (auto simp: rune_size_def cont_bytes_def split: list.splits)

lemma read_rune_length: "fst (read_rune s) \<noteq> eof_rune \<Longrightarrow> length (snd (read_rune s)) < length s"
  using rune_size_le [of s] by (cases s) (auto simp: read_rune_def)

lemma lex_read_length:
  "lex_read s = (ch, s') \<Longrightarrow> ch \<noteq> eof_rune \<Longrightarrow> length (lx_rest s') < length (lx_rest s)"
  using read_rune_length [of "lx_rest s"] by (auto simp: lex_read_def split: prod.splits)

section \<open>Token consumers\<close>

text \<open>The loop shared by the consumers of character classes; \<open>maxl\<close> is the length limit, 0 for none.\<close>

function consume_while :: "(rune \<Rightarrow> bool) \<Rightarrow> nat \<Rightarrow> string \<Rightarrow> lexer \<Rightarrow> string \<times> lexer" where
  "consume_while test maxl buf s =
     (if maxl > 0 \<and> length buf \<ge> maxl then (buf, s)
      else let (ch, s') = lex_read s
           in if ch = eof_rune then (buf, s')
              else if \<not> test ch then (buf, lex_unread s s')
              else consume_while test maxl (buf @ ch) s')"
  by pat_completeness auto
termination
  by (relation "measure (\<lambda>(_, _, _, s). length (lx_rest s))") (auto dest: lex_read_length [OF sym])

declare consume_while.simps [simp del]

definition consume_generic :: "token_code \<Rightarrow> string \<Rightarrow> nat \<Rightarrow> lexer \<Rightarrow> token \<times> lexer" where
  "consume_generic code wl maxl s =
     (let (ch, s) = lex_read s;
          (buf, s) = consume_while (\<lambda>ch. rune_in ch wl) maxl ch s
      in (mk_token code buf, s))"

definition ident_token :: "string \<Rightarrow> token" where
  "ident_token buf =
     (let lit = to_upper buf
      in if lit = ''NULL'' then mk_token LNULL []
         else if lit \<in> set [''TRUE'', ''FALSE''] then mk_token LBOOL lit
         else if lit \<in> set [''IS'', ''LIKE'', ''NOT'', ''AND'', ''OR'', ''XOR''] then mk_token OPERATOR lit
         else if lit \<in> set [''DESC'', ''ASC'', ''INTERVAL''] then mk_token KEYWORD lit
         else mk_token IDENT buf)"

definition consume_ident :: "lexer \<Rightarrow> token \<times> lexer" where
  "consume_ident s =
     (let (ch, s) = lex_read s;
          (buf, s) = consume_while (\<lambda>ch. is_letter ch \<or> is_digit ch \<or> ch = ''_'') 0 ch s
      in (ident_token buf, s))"

function string_loop :: "bool \<Rightarrow> string \<Rightarrow> lexer \<Rightarrow> token \<times> lexer" where
  "string_loop escaping buf s =
     (let (ch, s') = lex_read s
      in if ch = eof_rune then (mk_token ILLEGAL (buf @ ch), s')
         else if \<not> escaping \<and> rune_in ch char_whitelist_quotes then (mk_token LSTRING buf, s')
         else let escaping = (\<not> escaping \<and> ch = [CHR 0x5C])
              in string_loop escaping (if \<not> escaping then buf @ ch else buf) s')"
  by pat_completeness auto
termination
  by (relation "measure (\<lambda>(_, _, s). length (lx_rest s))") (auto dest: lex_read_length [OF sym])

declare string_loop.simps [simp del]

definition consume_string :: "lexer \<Rightarrow> token \<times> lexer" where
  "consume_string s = (let (ch, s) = lex_read s in string_loop False [] s)"

definition consume_number :: "lexer \<Rightarrow> token \<times> lexer" where
  "consume_number s =
     (let (ch, s) = lex_read s; (buf, s) = consume_while is_digit 0 ch s
      in (mk_token LNUMBER buf, s))"

datatype token_consumer =
  ConsumerGeneric token_code string nat
  | ConsumerString
  | ConsumerNumber
  | ConsumerIdent

fun consumer_test :: "token_consumer \<Rightarrow> rune \<Rightarrow> bool" where
  "consumer_test (ConsumerGeneric c wl m) ch = rune_in ch wl"
| "consumer_test ConsumerString ch = rune_in ch char_whitelist_quotes"
| "consumer_test ConsumerNumber ch = is_digit ch"
| "consumer_test ConsumerIdent ch = is_letter ch"

fun consumer_consume :: "token_consumer \<Rightarrow> lexer \<Rightarrow> token \<times> lexer" where
  "consumer_consume (ConsumerGeneric c wl m) s = consume_generic c wl m s"
| "consumer_consume ConsumerString s = consume_string s"
| "consumer_consume ConsumerNumber s = consume_number s"
| "consumer_consume ConsumerIdent s = consume_ident s"

definition lex_consumers :: "token_consumer list" where
  "lex_consumers =
     [ConsumerGeneric WS char_whitelist_whitespace 0,
      ConsumerGeneric OPERATOR char_whitelist_operators 0,
      ConsumerGeneric COMMA '','' 1,
      ConsumerGeneric DOT ''.'' 1,
      ConsumerGeneric PARENTHESIS_OPEN ''('' 1,
      ConsumerGeneric PARENTHESIS_CLOSE '')'' 1,
      ConsumerString, ConsumerNumber, ConsumerIdent]"

definition scan :: "lexer \<Rightarrow> token \<times> lexer" where
  "scan s =
     (let ch = lex_peek s;
          s = (if ch = [CHR 0x0A] then s\<lparr>lx_line := Suc (lx_line s), lx_char := 0\<rparr> else s)
      in if ch = eof_rune then ((mk_token EOF [])\<lparr>tk_line := lx_line s, tk_char := lx_char s\<rparr>, s)
         else case find (\<lambda>c. consumer_test c ch) lex_consumers of
           Some c \<Rightarrow>
             (let (t, s) = consumer_consume c s
              in (t\<lparr>tk_line := lx_line s, tk_char := lx_char s\<rparr>, s))
         | None \<Rightarrow> ((mk_token ILLEGAL ch)\<lparr>tk_line := lx_line s, tk_char := lx_char s\<rparr>, s))"

end
