(* ===== verification/QlAst.thy ===== *)
theory QlAst
  imports QlLexer
begin

text \<open>
  \<^verbatim>\<open>pkg/ql/parser_nodes.go\<close>, \<^verbatim>\<open>ast_nodes.go\<close> and \<^verbatim>\<open>util.go\<close>: the parser's nodes, their
  validation, and the reduction of a flat list of operands and operators to a tree by operator
  weight.

  A Go panic (an index out of range, a nil dereference, a failed \<open>expr.Must\<close>) is the error
  \<open>Panic\<close>. Parsing a float is standard library code outside the model: a parameter \<open>fl\<close>.
\<close>

datatype ql_error =
  IllegalToken token | UnexpectedToken token | UnopenedParenthesis
  | ExpectingIdentifier token | ExpectingUnit string | HandlerError string
  | UnknownOperator string | EmptyNodeSet | MalformedFirst string | MalformedLast string
  | Panic string | OutOfFuel

datatype pnode =
  NullLit | BooleanLit bool | StringLit string | NumberLit string
  | Operator string | Ident string | Keyword string | Interval string string
  | Function string "pnode list" | Nodes "pnode list" | NodeSet "pnode list"

record op_def =
  op_name :: string
  op_weight :: int

definition ql_ops :: "(string \<times> op_def) list" where
  "ql_ops =
    [(''='', \<lparr>op_name = ''eq'', op_weight = 40\<rparr>),
     (''=='', \<lparr>op_name = ''eq'', op_weight = 40\<rparr>),
     (''==='', \<lparr>op_name = ''eq'', op_weight = 40\<rparr>),
     (''!='', \<lparr>op_name = ''ne'', op_weight = 40\<rparr>),
     (''!=='', \<lparr>op_name = ''ne'', op_weight = 40\<rparr>),
     (''<>'', \<lparr>op_name = ''ne'', op_weight = 40\<rparr>),
     (''<'', \<lparr>op_name = ''lt'', op_weight = 30\<rparr>),
     (''<='', \<lparr>op_name = ''le'', op_weight = 30\<rparr>),
     (''>'', \<lparr>op_name = ''gt'', op_weight = 30\<rparr>),
     (''>='', \<lparr>op_name = ''ge'', op_weight = 30\<rparr>),
     (''IS'', \<lparr>op_name = ''is'', op_weight = 40\<rparr>),
     (''IS NOT'', \<lparr>op_name = ''nis'', op_weight = 40\<rparr>),
     (''AND'', \<lparr>op_name = ''and'', op_weight = 50\<rparr>),
     (''&&'', \<lparr>op_name = ''and'', op_weight = 50\<rparr>),
     (''OR'', \<lparr>op_name = ''or'', op_weight = 60\<rparr>),
     (''||'', \<lparr>op_name = ''or'', op_weight = 60\<rparr>),
     (''XOR'', \<lparr>op_name = ''xor'', op_weight = 60\<rparr>),
     (''+'', \<lparr>op_name = ''add'', op_weight = 20\<rparr>),
     (''-'', \<lparr>op_name = ''sub'', op_weight = 20\<rparr>),
     (''*'', \<lparr>op_name = ''mult'', op_weight = 10\<rparr>),
     (''/'', \<lparr>op_name = ''div'', op_weight = 10\<rparr>),
     (''!'', \<lparr>op_name = ''not'', op_weight = 0\<rparr>),
     (''LIKE'', \<lparr>op_name = ''like'', op_weight = 40\<rparr>),
     (''NOT LIKE'', \<lparr>op_name = ''nlike'', op_weight = 40\<rparr>)]"

definition is_unary :: "string \<Rightarrow> bool" where
  "is_unary s \<longleftrightarrow> s = ''!'' \<or> s = ''not''"

definition get_op :: "string \<Rightarrow> op_def option" where
  "get_op kind = map_of ql_ops (to_upper kind)"

section \<open>Validation\<close>

definition first_last_error :: "pnode list \<Rightarrow> ql_error option" where
  "first_last_error nn =
     (if nn = [] then Some EmptyNodeSet
      else case hd nn of
        Operator k \<Rightarrow>
          if \<not> is_unary k then Some (MalformedFirst k)
          else if length nn > 1 then
            (case last nn of Operator k' \<Rightarrow> Some (MalformedLast k') | _ \<Rightarrow> None)
          else None
      | _ \<Rightarrow>
          if length nn > 1 then
            (case last nn of Operator k' \<Rightarrow> Some (MalformedLast k') | _ \<Rightarrow> None)
          else None)"

fun validate_node :: "pnode \<Rightarrow> ql_error option"
  and validate_all :: "pnode list \<Rightarrow> ql_error option" where
  "validate_node (Operator k) = (if get_op k = None then Some (UnknownOperator k) else None)"
| "validate_node (Nodes nn) =
     (if nn = [] then Some EmptyNodeSet
      else case validate_all nn of Some e \<Rightarrow> Some e | None \<Rightarrow> first_last_error nn)"
| "validate_node (NodeSet nn) = (if nn = [] then Some EmptyNodeSet else validate_all nn)"
| "validate_node n = None"
| "validate_all [] = None"
| "validate_all (n # ns) = (case validate_node n of Some e \<Rightarrow> Some e | None \<Rightarrow> validate_all ns)"

section \<open>Syntax trees\<close>

datatype 'f typed_value =
  BooleanValue bool | StringValue string | IntegerValue int | FloatValue 'f

datatype 'f ast =
  Ast (a_ref: string) (a_args: "'f ast list") (a_symbol: string) (a_value: "'f typed_value option")
    (a_meta: "op_def option")

definition ast_ref :: "string \<Rightarrow> 'f ast list \<Rightarrow> 'f ast" where
  "ast_ref r args = Ast r args [] None None"

definition ast_symbol :: "string \<Rightarrow> 'f ast" where
  "ast_symbol s = Ast [] [] s None None"

definition ast_value :: "'f typed_value \<Rightarrow> 'f ast" where
  "ast_value v = Ast [] [] [] (Some v) None"

definition eval_bool :: "string \<Rightarrow> bool" where
  "eval_bool v \<longleftrightarrow> to_lower v \<in> set [''t'', ''true'', ''y'', ''yes'', ''1'']"

definition is_floaty :: "string \<Rightarrow> bool" where
  "is_floaty v = list_ex (\<lambda>c. c = CHR ''.'') v"

text \<open>
  The integer cast parses the digits with base 0: a leading zero selects octal. The scanner only
  produces decimal digits here; anything else is refused.
\<close>

fun parse_digits :: "nat \<Rightarrow> nat \<Rightarrow> string \<Rightarrow> nat option" where
  "parse_digits base acc [] = Some acc"
| "parse_digits base acc (c # cs) =
     (if byte_in 48 57 c \<and> of_char c < 48 + base
      then parse_digits base (acc * base + (of_char c - 48)) cs else None)"

definition cast_integer :: "string \<Rightarrow> int option" where
  "cast_integer s =
     (case (case s of [] \<Rightarrow> Some 0
            | c # cs \<Rightarrow> if c = CHR ''0'' then parse_digits 8 0 cs else parse_digits 10 0 s) of
        None \<Rightarrow> None
      | Some n \<Rightarrow> if int n < 9223372036854775808 then Some (int n) else None)"

definition number_ast :: "(string \<Rightarrow> 'f option) \<Rightarrow> string \<Rightarrow> ql_error + 'f ast" where
  "number_ast fl v =
     (if is_floaty v
      then (case fl v of None \<Rightarrow> Inl (Panic ''unable to create Float'')
            | Some x \<Rightarrow> Inr (ast_value (FloatValue x)))
      else (case cast_integer v of None \<Rightarrow> Inl (Panic ''unable to create Integer'')
            | Some i \<Rightarrow> Inr (ast_value (IntegerValue i))))"

definition operator_ast :: "string \<Rightarrow> ql_error + 'f ast" where
  "operator_ast kind =
     (case get_op kind of
        None \<Rightarrow> Inl (Panic ''nil pointer dereference'')
      | Some op \<Rightarrow> Inr (Ast (op_name op) [] [] None (Some op)))"

definition interval_ast :: "(string \<Rightarrow> 'f option) \<Rightarrow> string \<Rightarrow> string \<Rightarrow> ql_error + 'f ast" where
  "interval_ast fl v u =
     (case fl v of None \<Rightarrow> Inl (Panic ''unable to create Float'')
      | Some x \<Rightarrow> Inr (ast_ref ''interval'' [ast_symbol u, ast_value (FloatValue x)]))"

section \<open>Reduction by operator weight\<close>

text \<open>
  The scan for the operator to reduce next: the first one of least weight. \<open>reduce_at\<close> has it
  consume its operands, \<open>reduce_args\<close> repeats until one node is left; every step shortens the list.
\<close>

fun best_op :: "nat \<Rightarrow> 'f ast list \<Rightarrow> (op_def \<times> nat) option \<Rightarrow> (op_def \<times> nat) option" where
  "best_op i [] best = best"
| "best_op i (a # as) best =
     best_op (Suc i) as
       (case a_meta a of
          None \<Rightarrow> best
        | Some d \<Rightarrow>
            (case best of
               None \<Rightarrow> Some (d, i)
             | Some (b, j) \<Rightarrow> if op_weight d < op_weight b then Some (d, i) else best))"

definition take_args :: "'f ast \<Rightarrow> 'f ast list \<Rightarrow> 'f ast" where
  "take_args a xs = Ast (a_ref a) (a_args a @ xs) (a_symbol a) (a_value a) None"

definition reduce_at :: "'f ast list \<Rightarrow> nat \<Rightarrow> ql_error + 'f ast list" where
  "reduce_at args i =
     (let arg = args ! i
      in if \<not> is_unary (a_ref arg) then
           (if i = 0 \<or> Suc i \<ge> length args then Inl (Panic ''index out of range'')
            else Inr (take (i - 1) args @ [take_args arg [args ! (i - 1), args ! Suc i]]
                   @ drop (i + 2) args))
         else
           (if Suc i \<ge> length args then Inl (Panic ''index out of range'')
            else Inr (take i args @ [take_args arg [args ! Suc i]] @ drop (i + 2) args)))"

lemma best_op_index:
  "best_op i as best = Some (d, j) \<Longrightarrow> best = Some (d, j) \<or> (i \<le> j \<and> j < i + length as)"
proof (induction i as best rule: best_op.induct)
  case (1 i best)
  then show ?case by simp
next
  case (2 i a as best)
  then show ?case by (fastforce split: option.splits if_splits)
qed

lemma reduce_at_length: "reduce_at args i = Inr args' \<Longrightarrow> i < length args \<Longrightarrow> length args' < length args"
  by (auto simp: reduce_at_def Let_def split: if_splits)

function reduce_args :: "'f ast list \<Rightarrow> ql_error + 'f ast" where
  "reduce_args args =
     (if length args \<le> 1 then
        (case args of [] \<Rightarrow> Inl (Panic ''index out of range'') | a # as \<Rightarrow> Inr a)
      else case best_op 0 args None of
        None \<Rightarrow> Inl (Panic ''index out of range'')
      | Some (d, i) \<Rightarrow>
          (case reduce_at args i of
             Inl e \<Rightarrow> Inl e
           | Inr args' \<Rightarrow> reduce_args args'))"
  by pat_completeness auto
termination
  by (relation "measure length") (auto dest!: best_op_index reduce_at_length)

declare reduce_args.simps [simp del]

fun to_ast :: "(string \<Rightarrow> 'f option) \<Rightarrow> pnode \<Rightarrow> ql_error + 'f ast"
  and to_asts :: "(string \<Rightarrow> 'f option) \<Rightarrow> pnode list \<Rightarrow> ql_error + 'f ast list" where
  "to_ast fl NullLit = Inr (ast_ref ''null'' [])"
| "to_ast fl (BooleanLit b) = Inr (ast_value (BooleanValue b))"
| "to_ast fl (StringLit s) = Inr (ast_value (StringValue s))"
| "to_ast fl (NumberLit v) = number_ast fl v"
| "to_ast fl (Operator k) = operator_ast k"
| "to_ast fl (Ident v) = Inr (ast_symbol v)"
| "to_ast fl (Keyword k) = Inr (ast_ref k [])"
| "to_ast fl (Interval v u) = interval_ast fl v u"
| "to_ast fl (Function name args) =
     (case to_asts fl args of Inl e \<Rightarrow> Inl e | Inr as \<Rightarrow> Inr (ast_ref name as))"
| "to_ast fl (NodeSet nn) =
     (case to_asts fl nn of Inl e \<Rightarrow> Inl e | Inr as \<Rightarrow> Inr (ast_ref ''group'' as))"
| "to_ast fl (Nodes nn) =
     (case to_asts fl nn of Inl e \<Rightarrow> Inl e | Inr as \<Rightarrow> reduce_args as)"
| "to_asts fl [] = Inr []"
| "to_asts fl (n # ns) =
     (case to_ast fl n of
        Inl e \<Rightarrow> Inl e
      | Inr a \<Rightarrow> (case to_asts fl ns of Inl e \<Rightarrow> Inl e | Inr as \<Rightarrow> Inr (a # as)))"

end
