(* ===== verification/QlReduce.thy ===== *)
theory QlReduce
  imports QlAst
begin

text \<open>
  What the reduction by weight computes: the one tree over the operands in their order in which
  every operator binds at least as tightly as the operators around it, with equal weights grouped
  to the left. \<open>expr\<close> is the abstract syntax, \<open>inorder\<close> the flat list it is written as,
  \<open>graded\<close> the precedence condition and \<open>expr_ast\<close> the tree the code builds for it.
\<close>

datatype 'f expr = Opd "'f ast" | Una op_def "'f expr" | Bin op_def "'f expr" "'f expr"

definition op_leaf :: "op_def \<Rightarrow> 'f ast" where
  "op_leaf d = Ast (op_name d) [] [] None (Some d)"

fun expr_ast :: "'f expr \<Rightarrow> 'f ast" where
  "expr_ast (Opd a) = a"
| "expr_ast (Una d e) = ast_ref (op_name d) [expr_ast e]"
| "expr_ast (Bin d l r) = ast_ref (op_name d) [expr_ast l, expr_ast r]"

fun inorder :: "'f expr \<Rightarrow> 'f ast list" where
  "inorder (Opd a) = [a]"
| "inorder (Una d e) = op_leaf d # inorder e"
| "inorder (Bin d l r) = inorder l @ op_leaf d # inorder r"

text \<open>A bound on the weight at the root; an operand and a prefixed operand bind tightest.\<close>

definition root_le :: "int \<Rightarrow> 'f expr \<Rightarrow> bool" where
  "root_le w e = (case e of Bin d l r \<Rightarrow> op_weight d \<le> w | _ \<Rightarrow> True)"

fun graded :: "'f expr \<Rightarrow> bool" where
  "graded (Opd a) \<longleftrightarrow> True"
| "graded (Una d e) \<longleftrightarrow> (case e of Opd a \<Rightarrow> True | _ \<Rightarrow> False)"
| "graded (Bin d l r) \<longleftrightarrow> graded l \<and> graded r \<and> root_le (op_weight d) l \<and> root_le (op_weight d - 1) r"

definition operand :: "'f ast \<Rightarrow> bool" where
  "operand a \<longleftrightarrow> a_meta a = None"

definition binary_leaf :: "'f ast \<Rightarrow> bool" where
  "binary_leaf a \<longleftrightarrow> (\<exists>d. a = op_leaf d \<and> \<not> is_unary (op_name d) \<and> op_weight d > 0)"

fun alternates :: "'f ast list \<Rightarrow> bool" where
  "alternates [] = False"
| "alternates [a] = operand a"
| "alternates (a # b # xs) = (operand a \<and> binary_leaf b \<and> alternates xs)"

section \<open>Chains\<close>

text \<open>The list in the middle of the reduction: operands already built, with operators between.\<close>

fun chain :: "'f expr \<Rightarrow> (op_def \<times> 'f expr) list \<Rightarrow> 'f ast list" where
  "chain e [] = [expr_ast e]"
| "chain e ((d, f) # ps) = expr_ast e # op_leaf d # chain f ps"

fun chain_inorder :: "'f expr \<Rightarrow> (op_def \<times> 'f expr) list \<Rightarrow> 'f ast list" where
  "chain_inorder e [] = inorder e"
| "chain_inorder e ((d, f) # ps) = inorder e @ op_leaf d # chain_inorder f ps"

definition built :: "'f expr \<Rightarrow> bool" where
  "built e \<longleftrightarrow> graded e \<and> a_meta (expr_ast e) = None"

definition op_binary :: "op_def \<Rightarrow> bool" where
  "op_binary d \<longleftrightarrow> \<not> is_unary (op_name d) \<and> op_weight d > 0"

fun chain_ok :: "'f expr \<Rightarrow> (op_def \<times> 'f expr) list \<Rightarrow> bool" where
  "chain_ok e [] \<longleftrightarrow> built e"
| "chain_ok e ((d, f) # ps) \<longleftrightarrow>
     built e \<and> op_binary d \<and> root_le (op_weight d) e \<and> root_le (op_weight d - 1) f \<and> chain_ok f ps"

lemma ast_ref_meta [simp]: "a_meta (ast_ref r xs) = None"
  by (simp add: ast_ref_def)

lemma op_leaf_sel [simp]:
  "a_meta (op_leaf d) = Some d" "a_ref (op_leaf d) = op_name d" "a_args (op_leaf d) = []"
  by (simp_all add: op_leaf_def)

lemma take_args_leaf [simp]: "take_args (op_leaf d) xs = ast_ref (op_name d) xs"
  by (simp add: take_args_def op_leaf_def ast_ref_def)

lemma best_op_append:
  "best_op i (xs @ ys) best = best_op (i + length xs) ys (best_op i xs best)"
  by (induction i xs best rule: best_op.induct) simp_all

lemma best_op_keep:
  "(\<And>a d'. a \<in> set xs \<Longrightarrow> a_meta a = Some d' \<Longrightarrow> op_weight d \<le> op_weight d') \<Longrightarrow>
   best_op i xs (Some (d, j)) = Some (d, j)"
proof (induction xs arbitrary: i)
  case Nil
  then show ?case by simp
next
  case (Cons a xs)
  have "best_op (Suc i) xs (Some (d, j)) = Some (d, j)"
    by (rule Cons.IH) (use Cons.prems in fastforce)
  then show ?case using Cons.prems [of a] by (auto split: option.splits)
qed

lemma best_op_member:
  "best_op i xs best = Some (d, j) \<Longrightarrow> best = Some (d, j) \<or> (\<exists>a \<in> set xs. a_meta a = Some d)"
proof (induction i xs best rule: best_op.induct)
  case (1 i best)
  then show ?case by simp
next
  case (2 i a as best)
  then show ?case by (fastforce split: option.splits if_splits)
qed

lemma best_op_at:
  assumes "\<And>a d'. a \<in> set xs \<Longrightarrow> a_meta a = Some d' \<Longrightarrow> op_weight d < op_weight d'"
    and "\<And>a d'. a \<in> set ys \<Longrightarrow> a_meta a = Some d' \<Longrightarrow> op_weight d \<le> op_weight d'"
  shows "best_op 0 (xs @ op_leaf d # ys) None = Some (d, length xs)"
proof -
  have "best_op 0 xs None = None \<or> (\<exists>d' j. best_op 0 xs None = Some (d', j) \<and> op_weight d < op_weight d')"
    using best_op_member [of 0 xs None] assms(1) by (cases "best_op 0 xs None") fastforce+
  then have "best_op 0 (xs @ op_leaf d # ys) None = best_op (Suc (length xs)) ys (Some (d, length xs))"
    by (auto simp: best_op_append)
  with assms(2) show ?thesis by (simp add: best_op_keep)
qed

lemma reduce_at_binary:
  "\<not> is_unary (op_name d) \<Longrightarrow>
   reduce_at (xs @ l # op_leaf d # r # ys) (Suc (length xs)) =
     Inr (xs @ ast_ref (op_name d) [l, r] # ys)"
  by (simp add: reduce_at_def Let_def nth_append)

lemma first_minimum:
  "xs \<noteq> [] \<Longrightarrow> \<exists>as x bs. xs = as @ x # bs \<and> (\<forall>a \<in> set as. (f x :: int) < f a) \<and> (\<forall>b \<in> set bs. f x \<le> f b)"
proof (induction xs)
  case Nil
  then show ?case by simp
next
  case (Cons y xs)
  show ?case
  proof (cases "xs = []")
    case True
    then show ?thesis by (intro exI [of _ "[]"]) simp
  next
    case False
    with Cons.IH obtain as x bs where s: "xs = as @ x # bs" "\<forall>a \<in> set as. f x < f a" "\<forall>b \<in> set bs. f x \<le> f b"
      by blast
    show ?thesis
    proof (cases "f x < f y")
      case True
      with s show ?thesis by (intro exI [of _ "y # as"] exI [of _ x] exI [of _ bs]) simp
    next
      case False
      with s show ?thesis by (intro exI [of _ "[]"] exI [of _ y] exI [of _ xs]) force
    qed
  qed
qed

definition chain_tail :: "(op_def \<times> 'f expr) list \<Rightarrow> 'f ast list" where
  "chain_tail ps = concat (map (\<lambda>(d, f). [op_leaf d, expr_ast f]) ps)"

lemma chain_tail_simps [simp]:
  "chain_tail [] = []" "chain_tail ((d, f) # ps) = op_leaf d # expr_ast f # chain_tail ps"
  by (simp_all add: chain_tail_def)

lemma chain_eq_tail: "chain e ps = expr_ast e # chain_tail ps"
  by (induction e ps rule: chain.induct) (simp_all add: chain_tail_def)

lemma chain_length [simp]: "length (chain e ps) = Suc (2 * length ps)"
  by (induction e ps rule: chain.induct) simp_all

lemma chain_ok_operands: "chain_ok e ps \<Longrightarrow> built e \<and> (\<forall>(d, f) \<in> set ps. built f \<and> op_binary d)"
proof (induction e ps rule: chain_ok.induct)
  case (2 e d f ps)
  then show ?case by (cases ps) auto
qed simp

text \<open>Reducing the first operator of least weight keeps a chain a chain, with the same order.\<close>

lemma merge_step:
  assumes "chain_ok e (as @ (d, f) # bs)"
    and "\<forall>x \<in> set as. op_weight d < op_weight (fst x)"
    and "\<forall>x \<in> set bs. op_weight d \<le> op_weight (fst x)"
  shows "\<exists>P l e' ps'. chain e (as @ (d, f) # bs) = P @ expr_ast l # op_leaf d # expr_ast f # chain_tail bs \<and>
     chain e' ps' = P @ ast_ref (op_name d) [expr_ast l, expr_ast f] # chain_tail bs \<and>
     (\<forall>a \<in> set P. \<forall>d'. a_meta a = Some d' \<longrightarrow> op_weight d < op_weight d') \<and>
     chain_inorder e' ps' = chain_inorder e (as @ (d, f) # bs) \<and> chain_ok e' ps' \<and>
     length ps' = length as + length bs \<and> a_meta (expr_ast l) = None \<and>
     (\<forall>w. op_weight d \<le> w \<and> root_le w e \<longrightarrow> root_le w e')"
  using assms
proof (induction as arbitrary: e)
  case Nil
  have ok: "built e" "built f" "op_binary d" "root_le (op_weight d) e" "root_le (op_weight d - 1) f" "chain_ok f bs"
    using Nil.prems(1) by (auto dest: chain_ok_operands)
  have "chain_ok (Bin d e f) bs"
    using ok Nil.prems(3) by (cases bs) (auto simp: built_def root_le_def)
  moreover have "chain_inorder (Bin d e f) bs = chain_inorder e ((d, f) # bs)"
    by (cases bs) auto
  ultimately show ?case
    by - (rule exI [of _ "[]"], rule exI [of _ e], rule exI [of _ "Bin d e f"], rule exI [of _ bs],
        use ok(1) in \<open>simp add: chain_eq_tail root_le_def built_def\<close>)
next
  case (Cons x as)
  obtain d1 e1 where x: "x = (d1, e1)" by (cases x)
  have ok: "built e" "op_binary d1" "root_le (op_weight d1) e" "root_le (op_weight d1 - 1) e1"
    "chain_ok e1 (as @ (d, f) # bs)"
    using Cons.prems(1) x by simp_all
  obtain P l e' ps' where h:
    "chain e1 (as @ (d, f) # bs) = P @ expr_ast l # op_leaf d # expr_ast f # chain_tail bs"
    "chain e' ps' = P @ ast_ref (op_name d) [expr_ast l, expr_ast f] # chain_tail bs"
    "\<forall>a \<in> set P. \<forall>d'. a_meta a = Some d' \<longrightarrow> op_weight d < op_weight d'"
    "chain_inorder e' ps' = chain_inorder e1 (as @ (d, f) # bs)" "chain_ok e' ps'"
    "length ps' = length as + length bs" "a_meta (expr_ast l) = None" "\<forall>w. op_weight d \<le> w \<and> root_le w e1 \<longrightarrow> root_le w e'"
    using Cons.IH [OF ok(5)] Cons.prems(2,3) by auto
  have "root_le (op_weight d1 - 1) e'" using h(8) ok(4) Cons.prems(2) x by simp
  then have "chain_ok e ((d1, e') # ps')" using ok h(5) by simp
  moreover have "a_meta (expr_ast e) = None" using ok(1) by (simp add: built_def)
  moreover have "op_weight d < op_weight d1" using Cons.prems(2) x by simp
  ultimately show ?case
    using h x
    by - (rule exI [of _ "expr_ast e # op_leaf d1 # P"], rule exI [of _ l], rule exI [of _ e],
        rule exI [of _ "(d1, e') # ps'"], simp)
qed

lemma chain_tail_meta:
  "\<forall>(d, f) \<in> set ps. built f \<Longrightarrow> a \<in> set (chain_tail ps) \<Longrightarrow> a_meta a = Some d' \<Longrightarrow> d' \<in> fst ` set ps"
  by (induction ps) (auto simp: chain_tail_def built_def)

lemma reduce_chain:
  "chain_ok e ps \<Longrightarrow>
   \<exists>t. graded t \<and> inorder t = chain_inorder e ps \<and> reduce_args (chain e ps) = Inr (expr_ast t)"
proof (induction "length ps" arbitrary: e ps rule: less_induct)
  case less
  show ?case
  proof (cases "ps = []")
    case True
    with less.prems show ?thesis
      by (intro exI [of _ e]) (simp add: built_def reduce_args.simps)
  next
    case False
    then obtain as x bs where s: "ps = as @ x # bs" "\<forall>a \<in> set as. op_weight (fst x) < op_weight (fst a)"
      "\<forall>b \<in> set bs. op_weight (fst x) \<le> op_weight (fst b)"
      using first_minimum [of ps "\<lambda>x. op_weight (fst x)"] by blast
    obtain d f where x: "x = (d, f)" by (cases x)
    obtain P l e' ps' where h:
      "chain e ps = P @ expr_ast l # op_leaf d # expr_ast f # chain_tail bs"
      "chain e' ps' = P @ ast_ref (op_name d) [expr_ast l, expr_ast f] # chain_tail bs"
      "\<forall>a \<in> set P. \<forall>d'. a_meta a = Some d' \<longrightarrow> op_weight d < op_weight d'"
      "chain_inorder e' ps' = chain_inorder e ps" "chain_ok e' ps'" "length ps' = length as + length bs"
      "a_meta (expr_ast l) = None"
      using merge_step [of e as d f bs] less.prems s x by auto
    have ops: "built f" "op_binary d" "\<forall>(d, f) \<in> set bs. built f"
      using chain_ok_operands [OF less.prems] s(1) x by auto
    have "best_op 0 ((P @ [expr_ast l]) @ op_leaf d # expr_ast f # chain_tail bs) None
        = Some (d, length (P @ [expr_ast l]))"
    proof (rule best_op_at)
      fix a d' assume "a \<in> set (P @ [expr_ast l])" "a_meta a = Some d'"
      with h(3,7) show "op_weight d < op_weight d'" by auto
    next
      fix a d' assume "a \<in> set (expr_ast f # chain_tail bs)" "a_meta a = Some d'"
      with ops(1) chain_tail_meta [OF ops(3)] s(3) x show "op_weight d \<le> op_weight d'"
        by (auto simp: built_def)
    qed
    then have best: "best_op 0 (chain e ps) None = Some (d, Suc (length P))" by (simp add: h(1))
    have red: "reduce_at (chain e ps) (Suc (length P)) = Inr (chain e' ps')"
      using ops(2) by (simp add: h(1,2) reduce_at_binary op_binary_def)
    have "length ps' < length ps" using h(6) s(1) by simp
    with less.hyps h(5) obtain t where
      "graded t" "inorder t = chain_inorder e' ps'" "reduce_args (chain e' ps') = Inr (expr_ast t)" by blast
    moreover have "reduce_args (chain e ps) = reduce_args (chain e' ps')"
      using False by (simp add: reduce_args.simps [of "chain e ps"] best red)
    ultimately show ?thesis using h(4) by metis
  qed
qed

section \<open>Precedence\<close>

lemma alternates_chain:
  "alternates xs \<Longrightarrow>
   \<exists>a ps. hd xs = a \<and> operand a \<and> chain (Opd a) ps = xs \<and> chain_inorder (Opd a) ps = xs \<and> chain_ok (Opd a) ps"
proof (induction xs rule: alternates.induct)
  case 1
  then show ?case by simp
next
  case (2 a)
  then show ?case by (intro exI [of _ a] exI [of _ "[]"]) (simp add: built_def operand_def)
next
  case (3 a b xs)
  then obtain c ps where h: "operand c" "chain (Opd c) ps = xs" "chain_inorder (Opd c) ps = xs" "chain_ok (Opd c) ps"
    by auto
  obtain d where d: "b = op_leaf d" "op_binary d"
    using "3.prems" by (auto simp: binary_leaf_def op_binary_def)
  from h d "3.prems" show ?case
    by (intro exI [of _ a] exI [of _ "(d, Opd c) # ps"]) (simp add: built_def operand_def root_le_def)
qed

lemma reduce_precedence_lemma:
  assumes "alternates xs"
  shows "\<exists>t. graded t \<and> inorder t = xs \<and> reduce_args xs = Inr (expr_ast t)"
  using alternates_chain [OF assms] reduce_chain by metis

lemma prefix_first:
  assumes "a_meta a = None" and "op_weight d = 0"
    and "\<And>b d'. b \<in> set xs \<Longrightarrow> a_meta b = Some d' \<Longrightarrow> op_weight d \<le> op_weight d'"
    and "is_unary (op_name d)"
  shows "reduce_args (op_leaf d # a # xs) = reduce_args (ast_ref (op_name d) [a] # xs)"
proof -
  have "best_op 0 ([] @ op_leaf d # a # xs) None = Some (d, length ([] :: 'a ast list))"
    by (rule best_op_at) (use assms in auto)
  then show ?thesis
    using assms(4) by (simp add: reduce_args.simps [of "op_leaf d # a # xs"] reduce_at_def Let_def)
qed

lemma alternates_weights:
  "alternates xs \<Longrightarrow> b \<in> set xs \<Longrightarrow> a_meta b = Some d \<Longrightarrow> 0 < op_weight d"
  by (induction xs rule: alternates.induct) (auto simp: operand_def binary_leaf_def)

definition prefix_op :: "'f ast list \<Rightarrow> bool" where
  "prefix_op pre \<longleftrightarrow> pre = [] \<or> (\<exists>d. pre = [op_leaf d] \<and> is_unary (op_name d) \<and> op_weight d = 0)"

lemma reduce_prefixed:
  assumes "alternates xs" and "is_unary (op_name d)" and "op_weight d = 0"
  shows "\<exists>t. graded t \<and> inorder t = op_leaf d # xs \<and> reduce_args (op_leaf d # xs) = Inr (expr_ast t)"
proof -
  obtain a ps where h: "operand a" "chain (Opd a) ps = xs" "chain_inorder (Opd a) ps = xs" "chain_ok (Opd a) ps"
    using alternates_chain [OF assms(1)] by blast
  have "chain_ok (Una d (Opd a)) ps" using h(4) by (cases ps) (auto simp: built_def root_le_def)
  then obtain t where t: "graded t" "inorder t = chain_inorder (Una d (Opd a)) ps"
    "reduce_args (chain (Una d (Opd a)) ps) = Inr (expr_ast t)"
    using reduce_chain by blast
  have xs: "xs = a # chain_tail ps" using h(2) by (simp add: chain_eq_tail)
  have "reduce_args (op_leaf d # a # chain_tail ps) = reduce_args (ast_ref (op_name d) [a] # chain_tail ps)"
    by (rule prefix_first)
       (use h(1) assms alternates_weights [OF assms(1)] in \<open>auto simp: operand_def xs intro: less_imp_le\<close>)
  moreover have "chain_inorder (Una d (Opd a)) ps = op_leaf d # chain_inorder (Opd a) ps"
    by (cases ps) auto
  ultimately show ?thesis using t h(3) xs by (auto simp: chain_eq_tail)
qed

text \<open>
  C6: a list of operands with binary operators between them, possibly after a prefix operator,
  reduces without a panic to the tree that lists the same operands and operators in the same
  order and in which every operator binds at least as tightly as the one it stands under, equal
  weights grouping to the left.
\<close>

theorem reduce_precedence:
  assumes "alternates xs" and "prefix_op pre"
  shows "\<exists>t. graded t \<and> inorder t = pre @ xs \<and> reduce_args (pre @ xs) = Inr (expr_ast t)"
  using assms(2) reduce_precedence_lemma [OF assms(1)] reduce_prefixed [OF assms(1)]
  by (auto simp: prefix_op_def)

definition op_of :: "string \<Rightarrow> unit ast" where
  "op_of k = (case get_op k of Some d \<Rightarrow> op_leaf d | None \<Rightarrow> ast_symbol k)"

theorem reduce_precedence_witness:
  "\<exists>t. graded t \<and>
     inorder t = [op_of ''!''] @ [ast_symbol ''a'', op_of ''OR'', ast_symbol ''b'', op_of ''*'', ast_symbol ''c''] \<and>
     reduce_args ([op_of ''!''] @ [ast_symbol ''a'', op_of ''OR'', ast_symbol ''b'', op_of ''*'', ast_symbol ''c''])
       = Inr (expr_ast t)"
proof (rule reduce_precedence)
  have k: "get_op ''!'' = Some \<lparr>op_name = ''not'', op_weight = 0\<rparr>"
    "get_op ''OR'' = Some \<lparr>op_name = ''or'', op_weight = 60\<rparr>"
    "get_op ''*'' = Some \<lparr>op_name = ''mult'', op_weight = 10\<rparr>" by code_simp+
  show "alternates [ast_symbol ''a'', op_of ''OR'', ast_symbol ''b'', op_of ''*'', ast_symbol ''c'']"
    by (auto simp: op_of_def k operand_def ast_symbol_def binary_leaf_def is_unary_def)
  show "prefix_op [op_of ''!'']"
    by (auto simp: op_of_def k prefix_op_def is_unary_def)
qed

end
