(* ===== verification/QlParser.thy ===== *)
theory QlParser
  imports QlReduce
begin

text \<open>
  \<^verbatim>\<open>pkg/ql/parser.go\<close>: the parser, with its buffer of three tokens, its parenthesis level and
  the two handlers a caller may set.

  The functions \<open>parse\<close>, \<open>parseIdent\<close> and \<open>parseSet\<close> call each other and jump backwards; the
  model gives every pass through \<open>checkToken\<close> or \<open>next\<close> one unit of fuel. \<open>QlTotal\<close> shows how
  much is enough for any input. A parser value is used for several inputs and keeps its level
  between them, so results are paired with the parser they leave, errors included.
\<close>

record parser =
  pr_lexer :: lexer
  pr_tokbuf :: "token list"
  pr_level :: u64
  pr_on_ident :: "string \<Rightarrow> string go_result"
  pr_on_function :: "string \<Rightarrow> pnode list \<Rightarrow> pnode go_result"

type_synonym 'a parsed = "(ql_error + 'a) \<times> parser"

definition new_parser :: parser where
  "new_parser =
     \<lparr>pr_lexer = new_lexer [], pr_tokbuf = [], pr_level = 0,
      pr_on_ident = Inr, pr_on_function = (\<lambda>name args. Inr (Function name args))\<rparr>"

text \<open>The scan for the next token that is not white space: each one skipped shortens the input.\<close>

lemma consume_while_length: "consume_while test maxl buf s = (b, s') \<Longrightarrow> length (lx_rest s') \<le> length (lx_rest s)"
proof (induction test maxl buf s arbitrary: b s' rule: consume_while.induct)
  case (1 test maxl buf s)
  obtain ch s1 where r: "lex_read s = (ch, s1)" by (cases "lex_read s")
  have le: "length (lx_rest s1) \<le> length (lx_rest s)"
    using r rune_size_le [of "lx_rest s"] by (auto simp: lex_read_def read_rune_def split: if_splits)
  show ?case
    using "1.prems" "1.IH" [OF _ r [symmetric]] r le
    by (subst (asm) consume_while.simps) (fastforce simp: lex_unread_def split: if_splits)
qed

lemma string_loop_length: "string_loop esc buf s = (t, s') \<Longrightarrow> length (lx_rest s') \<le> length (lx_rest s)"
proof (induction esc buf s arbitrary: t s' rule: string_loop.induct)
  case (1 esc buf s)
  obtain ch s1 where r: "lex_read s = (ch, s1)" by (cases "lex_read s")
  have le: "length (lx_rest s1) \<le> length (lx_rest s)"
    using r rune_size_le [of "lx_rest s"] by (auto simp: lex_read_def read_rune_def split: if_splits)
  show ?case
    using "1.prems" "1.IH" [OF r [symmetric]] r le
    by (subst (asm) string_loop.simps) (fastforce split: if_splits)
qed

lemma lex_read_shortens: "lx_rest s \<noteq> [] \<Longrightarrow> lex_read s = (ch, s') \<Longrightarrow> length (lx_rest s') < length (lx_rest s)"
  using rune_size_le [of "lx_rest s"] by (auto simp: lex_read_def read_rune_def split: if_splits)

lemma consumer_shortens:
  "lx_rest s \<noteq> [] \<Longrightarrow> consumer_consume c s = (t, s') \<Longrightarrow> length (lx_rest s') < length (lx_rest s)"
  by (cases c)
     (auto simp: consume_generic_def consume_string_def consume_number_def consume_ident_def
       split: prod.splits dest!: lex_read_shortens consume_while_length string_loop_length)

lemma scan_length:
  assumes "scan s = (t, s')"
  shows "length (lx_rest s') \<le> length (lx_rest s)"
    and "tk_code t \<notin> {EOF, ILLEGAL} \<Longrightarrow> length (lx_rest s') < length (lx_rest s)"
proof -
  define u where "u = (if lex_peek s = [CHR 0x0A] then s\<lparr>lx_line := Suc (lx_line s), lx_char := 0\<rparr> else s)"
  have r: "lx_rest u = lx_rest s" by (simp add: u_def)
  have "length (lx_rest s') < length (lx_rest s) \<or> lx_rest s' = lx_rest s \<and> tk_code t \<in> {EOF, ILLEGAL}"
  proof (cases "lex_peek s = eof_rune")
    case True
    with assms r show ?thesis by (auto simp: scan_def u_def [symmetric] Let_def mk_token_def)
  next
    case False
    then have ne: "lx_rest u \<noteq> []" using r by (auto simp: lex_peek_def)
    show ?thesis
    proof (cases "find (\<lambda>c. consumer_test c (lex_peek s)) lex_consumers")
      case None
      with assms False r show ?thesis by (auto simp: scan_def u_def [symmetric] Let_def mk_token_def)
    next
      case (Some c)
      obtain t1 where "consumer_consume c u = (t1, s')"
        using assms False Some by (auto simp: scan_def u_def [symmetric] Let_def split: prod.splits)
      with consumer_shortens [OF ne this] r show ?thesis by simp
    qed
  qed
  then show "length (lx_rest s') \<le> length (lx_rest s)"
    and "tk_code t \<notin> {EOF, ILLEGAL} \<Longrightarrow> length (lx_rest s') < length (lx_rest s)" by auto
qed

function scan_token :: "lexer \<Rightarrow> token \<times> lexer" where
  "scan_token s = (let (t, s') = scan s in if \<not> token_is t [WS] then (t, s') else scan_token s')"
  by pat_completeness auto
termination
  by (relation "measure (\<lambda>s. length (lx_rest s))") (auto simp: token_is_def dest: scan_length(2) [OF sym])

declare scan_token.simps [simp del]

definition next_token :: "parser \<Rightarrow> token \<times> parser" where
  "next_token p =
     (let (t, s) = scan_token (pr_lexer p);
          buf = tl (pr_tokbuf p) @ [t]
      in (hd buf, p\<lparr>pr_lexer := s, pr_tokbuf := buf\<rparr>))"

definition peek_token :: "parser \<Rightarrow> nat \<Rightarrow> token" where
  "peek_token p i = pr_tokbuf p ! i"

definition init_lexer :: "parser \<Rightarrow> string \<Rightarrow> parser" where
  "init_lexer p s =
     (let p = p\<lparr>pr_lexer := new_lexer s, pr_tokbuf := replicate 3 (mk_token ILLEGAL [])\<rparr>;
          (_, p) = next_token p;
          (_, p) = next_token p
      in p)"

definition peek_if_alias :: "parser \<Rightarrow> bool" where
  "peek_if_alias p =
     (let f = peek_token p 1; s = peek_token p 2
      in token_is f [IDENT] \<and> to_upper (tk_literal f) = ''AS'' \<and> token_is s [IDENT])"

definition interval_units :: "string list" where
  "interval_units =
     [''MICROSECOND'', ''SECOND'', ''MINUTE'', ''HOUR'', ''DAY'', ''WEEK'', ''MONTH'', ''QUARTER'',
      ''YEAR'', ''SECOND_MICROSECOND'', ''MINUTE_MICROSECOND'', ''MINUTE_SECOND'',
      ''HOUR_MICROSECOND'', ''HOUR_SECOND'', ''HOUR_MINUTE'', ''DAY_MICROSECOND'', ''DAY_SECOND'',
      ''DAY_MINUTE'', ''DAY_HOUR'', ''YEAR_MONTH'']"

definition parse_keyword :: "parser \<Rightarrow> token \<Rightarrow> pnode parsed" where
  "parse_keyword p t =
     (if to_upper (tk_literal t) = ''INTERVAL'' then
        (let (v, p) = next_token p; (u, p) = next_token p
         in if tk_code u \<noteq> IDENT then (Inl (ExpectingIdentifier t), p)
            else if to_upper (tk_literal u) \<notin> set interval_units
              then (Inl (ExpectingUnit (tk_literal u)), p)
            else (Inr (Interval (tk_literal v) (tk_literal u)), p))
      else (Inr (Keyword (tk_literal t)), p))"

text \<open>An identifier: a function call, whose arguments \<open>call\<close> parses, or a possibly dotted name.\<close>

definition parse_ident :: "(parser \<Rightarrow> pnode list parsed) \<Rightarrow> parser \<Rightarrow> token \<Rightarrow> pnode parsed" where
  "parse_ident call p t =
     (if token_is (peek_token p 1) [PARENTHESIS_OPEN] then
        (case call p of
           (Inl e, p) \<Rightarrow> (Inl e, p)
         | (Inr args, p) \<Rightarrow>
             (case pr_on_function p (tk_literal t) args of
                Inl m \<Rightarrow> (Inl (HandlerError m), p)
              | Inr n \<Rightarrow> (Inr n, p)))
      else
        (let (v, p) =
           (if token_is (peek_token p 1) [DOT] then
              (let (_, p) = next_token p; (l2, p) = next_token p
               in (tk_literal t @ ''.'' @ (if token_is l2 [IDENT] then tk_literal l2 else []), p))
            else (tk_literal t, p))
         in case pr_on_ident p v of
              Inl m \<Rightarrow> (Inl (HandlerError m), p)
            | Inr v \<Rightarrow> (Inr (Ident v), p)))"

definition add_operator :: "pnode list \<Rightarrow> string \<Rightarrow> pnode list" where
  "add_operator list lit =
     (if list = [] then [Operator lit]
      else case last list of
        Operator k \<Rightarrow> butlast list @ [Operator (k @ '' '' @ lit)]
      | _ \<Rightarrow> list @ [Operator lit])"

text \<open>One token of a list: an error, the end of the list, or the list so far and a jump to \<open>next\<close>.\<close>

datatype 'a outcome = Failed ql_error parser | Finished 'a parser | Next 'a parser

definition append_parsed :: "pnode list \<Rightarrow> pnode parsed \<Rightarrow> pnode list outcome" where
  "append_parsed list r = (case r of (Inl e, p) \<Rightarrow> Failed e p | (Inr n, p) \<Rightarrow> Next (list @ [n]) p)"

definition parse_simple :: "parser \<Rightarrow> pnode list \<Rightarrow> token \<Rightarrow> pnode list outcome" where
  "parse_simple p list t =
     (case tk_code t of
        EOF \<Rightarrow> Finished list p
      | WS \<Rightarrow> Next list p
      | ILLEGAL \<Rightarrow> Failed (IllegalToken t) p
      | LNULL \<Rightarrow> Next (list @ [NullLit]) p
      | LBOOL \<Rightarrow> Next (list @ [BooleanLit (eval_bool (tk_literal t))]) p
      | OPERATOR \<Rightarrow> Next (add_operator list (tk_literal t)) p
      | KEYWORD \<Rightarrow> append_parsed list (parse_keyword p t)
      | LNUMBER \<Rightarrow> Next (list @ [NumberLit (tk_literal t)]) p
      | LSTRING \<Rightarrow> Next (list @ [StringLit (tk_literal t)]) p
      | _ \<Rightarrow> Failed (UnexpectedToken t) p)"

text \<open>The label \<open>next\<close> of \<open>parse\<close>: what stands there before another token is taken.\<close>

definition parse_next :: "(parser \<Rightarrow> pnode list \<Rightarrow> token \<Rightarrow> pnode list parsed) \<Rightarrow> pnode list \<Rightarrow> parser \<Rightarrow> pnode list parsed" where
  "parse_next check list p =
     (if token_is (peek_token p 1) [COMMA] \<or> peek_if_alias p then (Inr list, p)
      else if token_is (peek_token p 1) [PARENTHESIS_CLOSE] then
        (if pr_level p = 0 then (Inl UnopenedParenthesis, p)
         else (Inr list, p\<lparr>pr_level := pr_level p - 1\<rparr>))
      else (let (t, p) = next_token p in check p list t))"

definition parse_open :: "(parser \<Rightarrow> pnode list \<Rightarrow> token \<Rightarrow> pnode list parsed) \<Rightarrow> parser \<Rightarrow> pnode list \<Rightarrow> pnode list outcome" where
  "parse_open sub p list =
     (let depth = pr_level p;
          p = p\<lparr>pr_level := pr_level p + 1\<rparr>;
          (t, p) = next_token p
      in case sub p [] t of
           (Inl e, p) \<Rightarrow> Failed e p
         | (Inr nn, p) \<Rightarrow>
             (let list = list @ [Nodes nn]
              in if pr_level p + 1 \<noteq> depth then (let (_, p) = next_token p in Next list p)
                 else Finished list p))"

definition set_step :: "(parser \<Rightarrow> pnode list \<Rightarrow> token \<Rightarrow> pnode list parsed) \<Rightarrow> (parser \<Rightarrow> pnode list parsed) \<Rightarrow>
    parser \<Rightarrow> bool \<Rightarrow> pnode list \<Rightarrow> token \<Rightarrow> (bool \<times> pnode list) outcome" where
  "set_step expr call p opened list t =
     (let one = (\<lambda>r. case append_parsed list r of
             Failed e p \<Rightarrow> Failed e p
           | Finished l p \<Rightarrow> Finished (opened, l) p
           | Next l p \<Rightarrow> Next (opened, l) p)
      in case tk_code t of
        WS \<Rightarrow> Next (opened, list) p
      | PARENTHESIS_OPEN \<Rightarrow> Next (True, list) (p\<lparr>pr_level := pr_level p + 1\<rparr>)
      | LNUMBER \<Rightarrow> Next (opened, list @ [NumberLit (tk_literal t)]) p
      | LSTRING \<Rightarrow> Next (opened, list @ [StringLit (tk_literal t)]) p
      | OPERATOR \<Rightarrow> Next (opened, list @ [Operator (tk_literal t)]) p
      | KEYWORD \<Rightarrow> one (parse_keyword p t)
      | IDENT \<Rightarrow>
          (if token_is (peek_token p 1) [OPERATOR] then
             (let p = (if opened then p\<lparr>pr_level := pr_level p + 1\<rparr> else p)
              in case expr p [] t of
                   (Inl e, p) \<Rightarrow> Failed e p
                 | (Inr nn, p) \<Rightarrow> Next (opened, list @ [Nodes nn]) p)
           else one (parse_ident call p t))
      | COMMA \<Rightarrow> Next (opened, list) p
      | EOF \<Rightarrow> Finished (opened, list) p
      | PARENTHESIS_CLOSE \<Rightarrow>
          (if pr_level p = 0 then Failed UnopenedParenthesis p
           else Finished (opened, list) (p\<lparr>pr_level := pr_level p - 1\<rparr>))
      | _ \<Rightarrow> Failed (UnexpectedToken t) p)"

fun parse_nodes :: "nat \<Rightarrow> parser \<Rightarrow> pnode list \<Rightarrow> token \<Rightarrow> pnode list parsed"
  and parse_set :: "nat \<Rightarrow> bool \<Rightarrow> pnode list \<Rightarrow> parser \<Rightarrow> pnode list parsed" where
  "parse_nodes 0 p list t = (Inl OutOfFuel, p)"
| "parse_nodes (Suc n) p list t =
     (case (case tk_code t of
              IDENT \<Rightarrow> append_parsed list (parse_ident (parse_set n False []) p t)
            | PARENTHESIS_OPEN \<Rightarrow> parse_open (parse_nodes n) p list
            | _ \<Rightarrow> parse_simple p list t) of
        Failed e p \<Rightarrow> (Inl e, p)
      | Finished list p \<Rightarrow> (Inr list, p)
      | Next list p \<Rightarrow> parse_next (parse_nodes n) list p)"
| "parse_set 0 opened list p = (Inl OutOfFuel, p)"
| "parse_set (Suc n) opened list p =
     (let (t, p) = next_token p
      in if peek_if_alias p then (Inr list, p)
         else case set_step (parse_nodes n) (parse_set n False []) p opened list t of
           Failed e p \<Rightarrow> (Inl e, p)
         | Finished (opened, list) p \<Rightarrow> (Inr list, p)
         | Next (opened, list) p \<Rightarrow> parse_set n opened list p)"

definition parse_fuel :: "string \<Rightarrow> nat" where
  "parse_fuel s = 2 * length s + 8"

definition parse_ql :: "(string \<Rightarrow> 'f option) \<Rightarrow> parser \<Rightarrow> string \<Rightarrow> 'f ast parsed" where
  "parse_ql fl p s =
     (let (t, p) = next_token (init_lexer p s)
      in case parse_nodes (parse_fuel s) p [] t of
           (Inl e, p) \<Rightarrow> (Inl e, p)
         | (Inr nn, p) \<Rightarrow>
             (let n = (case nn of [n] \<Rightarrow> n | _ \<Rightarrow> Nodes nn)
              in case validate_node n of
                   Some e \<Rightarrow> (Inl e, p)
                 | None \<Rightarrow> (to_ast fl n, p)))"

end
