(* ===== verification/QlTotal.thy ===== *)
theory QlTotal
  imports QlParser
begin

text \<open>
  Parsing ends on every input: the fuel \<open>parse_fuel\<close> is enough. The measure of a parser is the
  input left plus the tokens waiting in the buffer that are not final (the end of the input and
  an illegal token are returned again and again); taking a token lowers it by the token's weight.
\<close>

definition tok_weight :: "token \<Rightarrow> nat" where
  "tok_weight t = (if tk_code t \<in> {EOF, ILLEGAL} then 0 else 1)"

definition pending :: "parser \<Rightarrow> nat" where
  "pending p = length (lx_rest (pr_lexer p)) + sum_list (map tok_weight (tl (pr_tokbuf p)))"

definition buffered :: "parser \<Rightarrow> bool" where
  "buffered p \<longleftrightarrow> length (pr_tokbuf p) = 3"

text \<open>\<open>settled p r\<close>: the result is not for want of fuel and leaves no more pending than \<open>p\<close> had.\<close>

definition after_ok :: "parser \<Rightarrow> parser \<Rightarrow> bool" where
  "after_ok p q \<longleftrightarrow> buffered q \<and> pending q \<le> pending p"

definition settled :: "parser \<Rightarrow> 'a parsed \<Rightarrow> bool" where
  "settled p r \<longleftrightarrow> fst r \<noteq> Inl OutOfFuel \<and> after_ok p (snd r)"

definition settled_outcome :: "parser \<Rightarrow> 'a outcome \<Rightarrow> bool" where
  "settled_outcome p out \<longleftrightarrow>
     (case out of Failed e q \<Rightarrow> e \<noteq> OutOfFuel \<and> after_ok p q | Finished x q \<Rightarrow> after_ok p q
      | Next x q \<Rightarrow> after_ok p q)"

lemma scan_token_weight:
  "scan_token s = (t, s') \<Longrightarrow> length (lx_rest s') + tok_weight t \<le> length (lx_rest s)"
proof (induction s arbitrary: t s' rule: scan_token.induct)
  case (1 s)
  obtain u s1 where sc: "scan s = (u, s1)" by (cases "scan s")
  show ?case
    using "1.prems" "1.IH" [OF sc [symmetric] refl] scan_length [OF sc] sc
    by (subst (asm) scan_token.simps) (fastforce simp: tok_weight_def split: if_splits)
qed

lemma next_token_pending:
  assumes "next_token p = (t, q)" and "buffered p"
  shows "buffered q" and "pending q + tok_weight t \<le> pending p" and "t = pr_tokbuf p ! 1"
    and "pr_level q = pr_level p"
proof -
  obtain a b c where buf: "pr_tokbuf p = [a, b, c]"
    using assms(2) by (auto simp: buffered_def numeral_3_eq_3 length_Suc_conv)
  obtain u s where sc: "scan_token (pr_lexer p) = (u, s)" by (cases "scan_token (pr_lexer p)")
  have "t = b" "q = p\<lparr>pr_lexer := s, pr_tokbuf := [b, c, u]\<rparr>"
    using assms(1) by (auto simp: next_token_def sc buf)
  then show "buffered q" and "pending q + tok_weight t \<le> pending p" and "t = pr_tokbuf p ! 1"
    and "pr_level q = pr_level p"
    using scan_token_weight [OF sc] by (simp_all add: buffered_def pending_def buf)
qed

lemma after_ok_refl [simp]: "buffered p \<Longrightarrow> after_ok p p"
  by (simp add: after_ok_def)

lemma after_ok_trans: "after_ok p q \<Longrightarrow> after_ok q r \<Longrightarrow> after_ok p r"
  by (auto simp: after_ok_def)

lemma after_ok_next: "next_token p = (t, q) \<Longrightarrow> buffered p \<Longrightarrow> after_ok p q"
  using next_token_pending [of p t q] by (simp add: after_ok_def)

lemma after_ok_next2:
  "next_token p = (t, q) \<Longrightarrow> next_token q = (u, r) \<Longrightarrow> buffered p \<Longrightarrow> after_ok p r"
  using after_ok_next after_ok_trans by (metis after_ok_def)

lemma after_ok_level [simp]: "after_ok p (q\<lparr>pr_level := l\<rparr>) = after_ok p q"
  "after_ok (p\<lparr>pr_level := l\<rparr>) q = after_ok p q"
  by (simp_all add: after_ok_def buffered_def pending_def)

lemma buffered_level [simp]: "buffered (p\<lparr>pr_level := l\<rparr>) = buffered p"
  by (simp add: buffered_def)

lemma pending_level [simp]: "pending (p\<lparr>pr_level := l\<rparr>) = pending p"
  by (simp add: pending_def)

lemma after_ok_buffered: "after_ok p q \<Longrightarrow> buffered q"
  by (simp add: after_ok_def)

lemma settled_trans: "after_ok p q \<Longrightarrow> settled q r \<Longrightarrow> settled p r"
  by (auto simp: settled_def intro: after_ok_trans)

lemma settled_outcome_trans: "after_ok p q \<Longrightarrow> settled_outcome q r \<Longrightarrow> settled_outcome p r"
  by (auto simp: settled_outcome_def intro: after_ok_trans split: outcome.splits)

lemma settled_keyword: "buffered p \<Longrightarrow> settled p (parse_keyword p t)"
  by (auto simp: parse_keyword_def settled_def Let_def split: prod.splits if_splits
      dest: after_ok_next2)

lemma settled_ident:
  assumes "buffered p" and "settled p (call p)"
  shows "settled p (parse_ident call p t)"
proof (cases "token_is (peek_token p 1) [PARENTHESIS_OPEN]")
  case True
  with assms(2) show ?thesis
    by (auto simp: parse_ident_def settled_def split: prod.splits sum.splits)
next
  case False
  with assms(1) show ?thesis
    by (auto simp: parse_ident_def settled_def Let_def split: prod.splits sum.splits if_splits
        dest: after_ok_next2)
qed

lemma settled_append: "settled p r \<Longrightarrow> settled_outcome p (append_parsed list r)"
  by (auto simp: settled_def settled_outcome_def append_parsed_def split: prod.splits sum.splits)

lemma settled_simple: "buffered p \<Longrightarrow> settled_outcome p (parse_simple p list t)"
  using settled_append [OF settled_keyword, of p list t]
  by (auto simp: parse_simple_def settled_outcome_def split: token_code.splits)

lemma settled_open:
  assumes "buffered p" and "\<And>t q. next_token (p\<lparr>pr_level := pr_level p + 1\<rparr>) = (t, q) \<Longrightarrow> settled q (sub q [] t)"
  shows "settled_outcome p (parse_open sub p list)"
proof -
  let ?p = "p\<lparr>pr_level := pr_level p + 1\<rparr>"
  obtain t q where n: "next_token ?p = (t, q)" by (cases "next_token ?p")
  have 1: "after_ok p q" using after_ok_next [OF n] assms(1) by simp
  obtain r q1 where s: "sub q [] t = (r, q1)" by (cases "sub q [] t")
  have 2: "after_ok p q1" "r \<noteq> Inl OutOfFuel"
    using assms(2) [OF n] s after_ok_trans [OF 1] by (auto simp: settled_def)
  obtain u q2 where n2: "next_token q1 = (u, q2)" by (cases "next_token q1")
  have 3: "after_ok p q2" using after_ok_next [OF n2] after_ok_trans [OF 2(1)] after_ok_buffered [OF 2(1)] by blast
  show ?thesis
    using 1 2 3 by (auto simp: parse_open_def Let_def n s n2 settled_outcome_def split: sum.splits)
qed

lemma settled_next:
  assumes "buffered p" and "\<And>t q. next_token p = (t, q) \<Longrightarrow> settled q (check q list t)"
  shows "settled p (parse_next check list p)"
proof -
  obtain t q where n: "next_token p = (t, q)" by (cases "next_token p")
  have "settled p (check q list t)"
    using settled_trans [OF after_ok_next [OF n assms(1)] assms(2) [OF n]] .
  with assms(1) n show ?thesis
    by (auto simp: parse_next_def settled_def)
qed

lemma settled_set_step:
  assumes "buffered p"
    and "\<And>l. settled p (expr (p\<lparr>pr_level := l\<rparr>) [] t)" and "settled p (expr p [] t)"
    and "settled p (call p)"
  shows "settled_outcome p (set_step expr call p opened list t)"
proof -
  have one: "settled_outcome p (case append_parsed list r of
             Failed e p \<Rightarrow> Failed e p
           | Finished l p \<Rightarrow> Finished (opened, l) p
           | Next l p \<Rightarrow> Next (opened, l) p)" if "settled p r" for r
    using settled_append [OF that, of list] by (auto simp: settled_outcome_def split: outcome.splits)
  have call: "settled_outcome p (case expr q [] t of
        (Inl e, p) \<Rightarrow> Failed e p | (Inr nn, p) \<Rightarrow> Next (opened, list @ [Nodes nn]) p)"
    if "settled p (expr q [] t)" for q
    using that by (auto simp: settled_def settled_outcome_def split: prod.splits sum.splits)
  show ?thesis
  proof (cases "tk_code t = IDENT \<or> tk_code t = KEYWORD")
    case True
    then show ?thesis
      using one [OF settled_keyword [OF assms(1), of t]]
        one [OF settled_ident [where call = call, OF assms(1,4), of t]] call [OF assms(2)] call [OF assms(3)]
      by (auto simp: set_step_def Let_def)
  next
    case False
    with assms(1) show ?thesis
      by (cases "tk_code t") (auto simp: set_step_def settled_outcome_def)
  qed
qed

lemma parse_settled:
  "(\<forall>p list t. buffered p \<longrightarrow> 2 * (pending p + tok_weight t) + 1 \<le> n \<longrightarrow>
      settled p (parse_nodes n p list t)) \<and>
   (\<forall>p opened list. buffered p \<longrightarrow> 2 * pending p + 2 \<le> n \<longrightarrow>
      settled p (parse_set n opened list p))"
proof (induction n)
  case 0
  then show ?case by simp
next
  case (Suc n)
  have nodes: "settled p (parse_nodes n p list t)"
    if "buffered p" "2 * (pending p + tok_weight t) + 1 \<le> n" for p list t
    using Suc.IH that by blast
  have set: "settled p (parse_set n opened list p)" if "buffered p" "2 * pending p + 2 \<le> n" for p opened list
    using Suc.IH that by blast
  have next': "settled q (parse_nodes n q list t)"
    if "next_token p = (t, q)" "buffered p" "2 * pending p + 1 \<le> n" for p q list t
    using nodes next_token_pending [OF that(1,2)] that(3) by simp
  show ?case
  proof (intro conjI allI impI)
    fix p list t
    assume b: "buffered p" and f: "2 * (pending p + tok_weight t) + 1 \<le> Suc n"
    let ?o = "case tk_code t of
        IDENT \<Rightarrow> append_parsed list (parse_ident (parse_set n False []) p t)
      | PARENTHESIS_OPEN \<Rightarrow> parse_open (parse_nodes n) p list
      | _ \<Rightarrow> parse_simple p list t"
    have w: "2 * pending p + 2 \<le> n" if "tok_weight t = 1" using that f by simp
    have o: "settled_outcome p ?o"
    proof (cases "tk_code t = IDENT \<or> tk_code t = PARENTHESIS_OPEN")
      case True
      then have "2 * pending p + 2 \<le> n" using w by (auto simp: tok_weight_def)
      then have s: "settled p (parse_set n False [] p)"
        and o: "\<And>u q. next_token (p\<lparr>pr_level := pr_level p + 1\<rparr>) = (u, q) \<Longrightarrow> settled q (parse_nodes n q [] u)"
        using set b next' by simp_all
      show ?thesis
        using True settled_append [OF settled_ident [where call = "parse_set n False []", OF b s, of t], of list]
          settled_open [where sub = "parse_nodes n" and list = list, OF b o] by auto
    next
      case False
      with settled_simple [OF b] show ?thesis by (auto split: token_code.splits)
    qed
    show "settled p (parse_nodes (Suc n) p list t)"
    proof (cases ?o)
      case (Failed e q)
      with o show ?thesis by (simp add: settled_def settled_outcome_def)
    next
      case (Finished l q)
      with o show ?thesis by (simp add: settled_def settled_outcome_def)
    next
      case (Next l q)
      have "tok_weight t = 1"
        using Next by (cases "tk_code t") (auto simp: parse_simple_def tok_weight_def)
      then have n: "2 * pending p + 2 \<le> n" by (rule w)
      have q: "after_ok p q" using o Next by (simp add: settled_outcome_def)
      then have "buffered q" "2 * pending q + 1 \<le> n" using n by (simp_all add: after_ok_def)
      then have "settled q (parse_next (parse_nodes n) l q)"
        by (intro settled_next next')
      with Next q show ?thesis by (simp add: settled_trans)
    qed
  next
    fix p opened list
    assume b: "buffered p" and f: "2 * pending p + 2 \<le> Suc n"
    obtain t q where nt: "next_token p = (t, q)" by (cases "next_token p")
    note q = next_token_pending [OF nt b]
    have ok: "after_ok p q" by (rule after_ok_next [OF nt b])
    show "settled p (parse_set (Suc n) opened list p)"
    proof (cases "peek_if_alias q")
      case True
      with nt ok show ?thesis by (simp add: settled_def)
    next
      case False
      let ?o = "set_step (parse_nodes n) (parse_set n False []) q opened list t"
      have o: "settled_outcome q ?o \<and> (\<forall>x r. ?o = Next x r \<longrightarrow> tok_weight t = 1)"
      proof (cases "tok_weight t = 0")
        case True
        then have "tk_code t = EOF \<or> tk_code t = ILLEGAL" by (auto simp: tok_weight_def split: if_splits)
        with q(1) show ?thesis by (auto simp: set_step_def settled_outcome_def)
      next
        case False
        then have w: "tok_weight t = 1" by (simp add: tok_weight_def split: if_splits)
        have n: "2 * (pending q + tok_weight t) + 1 \<le> n" "2 * pending q + 2 \<le> n"
          using q(2) w f by simp_all
        have "settled q (parse_nodes n (q\<lparr>pr_level := l\<rparr>) [] t)" for l
          using nodes [of "q\<lparr>pr_level := l\<rparr>" t "[]"] q(1) n(1) by (simp add: settled_def)
        then show ?thesis
          using w settled_set_step [OF q(1)] nodes [OF q(1) n(1)] set [OF q(1) n(2)] by blast
      qed
      show ?thesis
      proof (cases ?o)
        case (Failed e r)
        with o ok nt False show ?thesis
          by (auto simp: settled_def settled_outcome_def intro: after_ok_trans)
      next
        case (Finished x r)
        with o ok nt False show ?thesis
          by (auto simp: settled_def settled_outcome_def split: prod.splits intro: after_ok_trans)
      next
        case (Next x r)
        then have r: "after_ok q r" "tok_weight t = 1" using o by (auto simp: settled_outcome_def)
        then have "buffered r" "2 * pending r + 2 \<le> n" using q(2) f by (auto simp: after_ok_def)
        then have "settled r (parse_set n (fst x) (snd x) r)" by (rule set)
        with Next nt False r(1) ok show ?thesis
          by (cases x) (auto intro: settled_trans)
      qed
    qed
  qed
qed

section \<open>Every input\<close>

lemma init_lexer_ready: "buffered (init_lexer p s) \<and> pending (init_lexer p s) \<le> length s"
proof -
  let ?p = "p\<lparr>pr_lexer := new_lexer s, pr_tokbuf := replicate 3 (mk_token ILLEGAL [])\<rparr>"
  obtain t q u r where n: "next_token ?p = (t, q)" "next_token q = (u, r)" by (metis surj_pair)
  have "buffered ?p" "pending ?p = length s"
    by (simp_all add: buffered_def pending_def new_lexer_def tok_weight_def mk_token_def numeral_3_eq_3)
  with after_ok_next2 [OF n] n show ?thesis by (simp add: init_lexer_def after_ok_def)
qed

lemma reduce_args_fuel: "reduce_args as \<noteq> Inl OutOfFuel"
proof (induction as rule: reduce_args.induct)
  case (1 as)
  show ?case
    using 1 by (subst reduce_args.simps) (auto simp: reduce_at_def Let_def split: list.splits option.splits)
qed

lemma to_ast_fuel: "to_ast fl n \<noteq> Inl OutOfFuel" "to_asts fl ns \<noteq> Inl OutOfFuel"
proof (induction fl n and fl ns rule: to_ast_to_asts.induct)
qed (auto simp: number_ast_def operator_ast_def interval_ast_def reduce_args_fuel split: option.splits sum.splits)

lemma validate_fuel: "validate_node n \<noteq> Some OutOfFuel" "validate_all ns \<noteq> Some OutOfFuel"
proof (induction n and ns rule: validate_node_validate_all.induct)
qed (auto simp: first_last_error_def split: option.splits pnode.splits)

text \<open>
  C7: \<open>Parse\<close> ends on every input, whatever the handlers and whatever state the parser was left
  in by earlier inputs: the fuel never runs out.
\<close>

theorem parse_ends: "fst (parse_ql fl p s) \<noteq> Inl OutOfFuel"
proof -
  obtain t q where n: "next_token (init_lexer p s) = (t, q)" by (cases "next_token (init_lexer p s)")
  have "buffered q" "2 * (pending q + tok_weight t) + 1 \<le> parse_fuel s"
    using next_token_pending [OF n] init_lexer_ready [of p s] by (simp_all add: parse_fuel_def)
  then have "fst (parse_nodes (parse_fuel s) q [] t) \<noteq> Inl OutOfFuel"
    using parse_settled [of "parse_fuel s"] by (auto simp: settled_def)
  then show ?thesis
    using to_ast_fuel(1) validate_fuel(1)
    by (auto simp: parse_ql_def n Let_def simp del: validate_node.simps to_ast.simps
        split: prod.splits sum.splits option.splits)
qed

end
