(* ===== verification/QlFacts.thy ===== *)
theory QlFacts
  imports QlTotal
begin

text \<open>
  What the scanner and the parser do end to end: the quoting of strings, and the inputs on which
  the parser panics or carries state from one input to the next.
\<close>

section \<open>Strings\<close>

text \<open>A rune other than 0 in valid encoding, whatever follows it.\<close>

definition rune_ok :: "rune \<Rightarrow> bool" where
  "rune_ok r \<longleftrightarrow> r \<noteq> [] \<and> r \<noteq> eof_rune \<and> (\<forall>ys. rune_size (r @ ys) = length r)"

definition quote_rune :: "rune \<Rightarrow> string" where
  "quote_rune r = (if r = [CHR 0x27] \<or> r = [CHR 0x5C] then CHR 0x5C # r else r)"

definition quote_string :: "rune list \<Rightarrow> string" where
  "quote_string rs = CHR 0x27 # concat (map quote_rune rs) @ [CHR 0x27]"

lemma rune_ok_ascii: "byte_in 1 127 c \<Longrightarrow> rune_ok [c]"
  by (auto simp: rune_ok_def rune_size_def eof_rune_def byte_in_def)

lemma lex_read_rune:
  "rune_ok r \<Longrightarrow> lx_rest s = r @ ys \<Longrightarrow>
   lex_read s = (r, s\<lparr>lx_rest := ys, lx_char := Suc (lx_char s)\<rparr>)"
  by (auto simp: lex_read_def read_rune_def rune_ok_def)

lemma string_loop_rune:
  assumes "rune_ok r" and "lx_rest s = r @ ys"
  shows "\<exists>s'. lx_rest s' = ys \<and> string_loop esc buf s =
     (if \<not> esc \<and> r = [CHR 0x27] then (mk_token LSTRING buf, s')
      else string_loop (\<not> esc \<and> r = [CHR 0x5C]) (if \<not> esc \<and> r = [CHR 0x5C] then buf else buf @ r) s')"
  using lex_read_rune [OF assms] assms(1)
  by (intro exI [of _ "s\<lparr>lx_rest := ys, lx_char := Suc (lx_char s)\<rparr>"])
     (simp add: string_loop.simps [of esc buf s] rune_in_def char_whitelist_quotes_def rune_ok_def)

lemma string_loop_quoted:
  "list_all rune_ok rs \<Longrightarrow> lx_rest s = concat (map quote_rune rs) @ CHR 0x27 # rest \<Longrightarrow>
   \<exists>s'. string_loop False buf s = (mk_token LSTRING (buf @ concat rs), s') \<and> lx_rest s' = rest"
proof (induction rs arbitrary: buf s)
  case Nil
  have "rune_ok [CHR 0x27]" by (rule rune_ok_ascii) (simp add: byte_in_def)
  from string_loop_rune [OF this, of s rest False buf] Nil show ?case by auto
next
  case (Cons r rs)
  let ?ys = "concat (map quote_rune rs) @ CHR 0x27 # rest"
  have ok: "rune_ok r" "list_all rune_ok rs" using Cons.prems(1) by simp_all
  show ?case
  proof (cases "r = [CHR 0x27] \<or> r = [CHR 0x5C]")
    case True
    have b: "rune_ok [CHR 0x5C]" by (rule rune_ok_ascii) (simp add: byte_in_def)
    have "quote_rune r = CHR 0x5C # r" using True by (simp add: quote_rune_def)
    then have "lx_rest s = [CHR 0x5C] @ r @ ?ys" using Cons.prems(2) by simp
    from string_loop_rune [OF b this, of False buf]
    obtain s1 where 1: "lx_rest s1 = r @ ?ys" "string_loop False buf s = string_loop True buf s1"
      by auto
    obtain s2 where 2: "lx_rest s2 = ?ys" "string_loop True buf s1 = string_loop False (buf @ r) s2"
      using string_loop_rune [OF ok(1) 1(1), of True buf] by auto
    from Cons.IH [OF ok(2) 2(1), of "buf @ r"] 1(2) 2(2) show ?thesis by simp
  next
    case False
    then have "quote_rune r = r" by (simp add: quote_rune_def)
    then have "lx_rest s = r @ ?ys" using Cons.prems(2) by simp
    from string_loop_rune [OF ok(1) this, of False buf] False
    obtain s1 where 1: "lx_rest s1 = ?ys" "string_loop False buf s = string_loop False (buf @ r) s1"
      by auto
    from Cons.IH [OF ok(2) 1(1), of "buf @ r"] 1(2) show ?thesis by simp
  qed
qed

lemma scan_quote: "lx_rest s = CHR 0x27 # xs \<Longrightarrow>
  scan s = (let (t, s') = consume_string s in (t\<lparr>tk_line := lx_line s', tk_char := lx_char s'\<rparr>, s'))"
  by (simp add: scan_def lex_peek_def byte_rune_def eof_rune_def lex_consumers_def rune_in_def
      char_whitelist_whitespace_def char_whitelist_operators_def char_whitelist_quotes_def)

text \<open>
  C8: a string in quotes, with quotes and backslashes in it escaped, is scanned as one literal
  with exactly the string as its value, whatever follows: text quoted this way cannot end the
  literal early.
\<close>

theorem quoted_string_roundtrip:
  assumes "list_all rune_ok rs" and "lx_rest s = quote_string rs @ rest"
  shows "tk_code (fst (scan s)) = LSTRING \<and> tk_literal (fst (scan s)) = concat rs \<and>
     lx_rest (snd (scan s)) = rest"
proof -
  have q: "rune_ok [CHR 0x27]" by (rule rune_ok_ascii) (simp add: byte_in_def)
  have rs: "lx_rest s = [CHR 0x27] @ concat (map quote_rune rs) @ CHR 0x27 # rest"
    using assms(2) by (simp add: quote_string_def)
  obtain s1 where s1: "lex_read s = ([CHR 0x27], s1)" "lx_rest s1 = concat (map quote_rune rs) @ CHR 0x27 # rest"
    using lex_read_rune [OF q rs] by auto
  obtain s2 where "string_loop False [] s1 = (mk_token LSTRING (concat rs), s2)" "lx_rest s2 = rest"
    using string_loop_quoted [OF assms(1) s1(2), of "[]"] by auto
  with s1(1) scan_quote [of s] rs show ?thesis
    by (simp add: consume_string_def mk_token_def)
qed

definition quote_example :: "rune list" where
  "quote_example = [''a'', [CHR 0x27], [CHR 0xC3, CHR 0xA9], [CHR 0x5C]]"

theorem quoted_string_roundtrip_witness:
  "tk_code (fst (scan (new_lexer (quote_string quote_example @ '' = x'')))) = LSTRING \<and>
   tk_literal (fst (scan (new_lexer (quote_string quote_example @ '' = x'')))) = concat quote_example \<and>
   lx_rest (snd (scan (new_lexer (quote_string quote_example @ '' = x'')))) = '' = x''"
proof (rule quoted_string_roundtrip)
  show "list_all rune_ok quote_example"
    by (simp add: quote_example_def rune_ok_def rune_size_def eof_rune_def byte_in_def cont_bytes_def)
qed (simp add: new_lexer_def)

section \<open>Inputs the parser is not right about\<close>

definition no_float :: "string \<Rightarrow> unit option" where
  "no_float s = None"

definition after_open :: parser where
  "after_open = snd (parse_ql no_float new_parser ''(a'')"

text \<open>
  An unclosed parenthesis is accepted and stays counted in the parser, so the same parser then
  accepts a closing parenthesis that was never opened; a fresh parser refuses it.
\<close>

theorem level_survives_input:
  "fst (parse_ql no_float new_parser ''(a'') = Inr (ast_symbol ''a'') \<and>
   fst (parse_ql no_float after_open ''b)'') = Inr (ast_symbol ''b'') \<and>
   fst (parse_ql no_float new_parser ''b)'') = Inl UnopenedParenthesis"
  by code_simp

text \<open>
  an integer literal with a leading zero is read as octal, and one with a digit that octal
  does not have makes the parser panic.
\<close>

theorem leading_zero_octal:
  "fst (parse_ql no_float new_parser ''a = 010'') =
     Inr (ast_ref ''eq'' [ast_symbol ''a'', ast_value (IntegerValue 8)]) \<and>
   fst (parse_ql no_float new_parser ''a = 08'') = Inl (Panic ''unable to create Integer'')"
  by code_simp

text \<open>
  Two operands with no operator between them pass validation and make the tree building
  panic, and so does a dangling operator in the arguments of a function, which are not validated.
\<close>

theorem unreduced_lists_panic:
  "fst (parse_ql no_float new_parser ''a b'') = Inl (Panic ''index out of range'') \<and>
   fst (parse_ql no_float new_parser ''f(a =)'') = Inl (Panic ''index out of range'')"
  by code_simp

end
