(* ===== verification/FilterSort.thy ===== *)
theory FilterSort
  imports SliceUtil
begin

text \<open>
  \<^verbatim>\<open>pkg/filter/sorting.go\<close> and \<^verbatim>\<open>state.go\<close>: sort expressions, their text form and the parser
  for it. The parser's regular expression is written out: the first run of word characters is the
  column, and white space followed by one of four direction words may follow it. White space is
  the ASCII white space the expression \<^verbatim>\<open>\s\<close> stands for; \<open>TrimSpace\<close> also takes the vertical tab.
\<close>

record sort_expr =
  se_column :: string
  se_desc :: bool

definition mk_sort :: "string \<Rightarrow> bool \<Rightarrow> sort_expr" where
  "mk_sort c d = \<lparr>se_column = c, se_desc = d\<rparr>"

definition column_char :: "char \<Rightarrow> bool" where
  "column_char c \<longleftrightarrow>
     (let n = of_char c :: nat
      in (48 \<le> n \<and> n \<le> 57) \<or> (97 \<le> n \<and> n \<le> 122) \<or> (65 \<le> n \<and> n \<le> 90) \<or> n = 95 \<or> n = 46)"

definition space_char :: "char \<Rightarrow> bool" where
  "space_char c \<longleftrightarrow> c \<in> set [CHR '' '', CHR 0x09, CHR 0x0A, CHR 0x0C, CHR 0x0D]"

definition trim_char :: "char \<Rightarrow> bool" where
  "trim_char c \<longleftrightarrow> space_char c \<or> c = CHR 0x0B"

definition trim_space :: "string \<Rightarrow> string" where
  "trim_space s = rev (dropWhile trim_char (rev (dropWhile trim_char s)))"

text \<open>The direction after the column: mm[3] of the match.\<close>

definition match_direction :: "string \<Rightarrow> string" where
  "match_direction s =
     (let t = dropWhile space_char s
      in if length t < length s
         then (case find (\<lambda>w. is_prefix_of w t) [''asc'', ''ASC'', ''desc'', ''DESC''] of
                 Some w \<Rightarrow> w | None \<Rightarrow> [])
         else [])"

definition match_expr :: "string \<Rightarrow> (string \<times> string) option" where
  "match_expr s =
     (let t = dropWhile (\<lambda>c. \<not> column_char c) s;
          col = takeWhile column_char t
      in if col = [] then None else Some (col, match_direction (dropWhile column_char t)))"

fun parse_exprs :: "string list \<Rightarrow> sort_expr list \<Rightarrow> sort_expr list go_result" where
  "parse_exprs [] ss = Inr ss"
| "parse_exprs (e # es) ss =
     (case match_expr (trim_space e) of
        None \<Rightarrow> Inl ''invalid sort expression''
      | Some (col, dir) \<Rightarrow> parse_exprs es (ss @ [mk_sort col (to_upper dir = ''DESC'')]))"

definition parse_sort :: "string \<Rightarrow> sort_expr list go_result" where
  "parse_sort s =
     (if s = [] then Inr []
      else let s = trim_space s
           in if s = [] then Inr [] else parse_exprs (split_at CHR '','' s) [])"

text \<open>The value before the call is kept when the JSON is the empty string.\<close>

definition sort_unmarshal :: "sort_expr list \<Rightarrow> string \<Rightarrow> sort_expr list go_result" where
  "sort_unmarshal old s = (if s = [CHR 0x22, CHR 0x22] then Inr old else parse_sort s)"

definition expr_string :: "sort_expr \<Rightarrow> string" where
  "expr_string e = se_column e @ (if se_desc e then '' DESC'' else [])"

definition sort_string :: "sort_expr list \<Rightarrow> string" where
  "sort_string ss = join_strings '', '' (map expr_string ss)"

definition sort_validate :: "sort_expr list \<Rightarrow> string list \<Rightarrow> string option" where
  "sort_validate ss cc =
     (let valid = to_bool_map cc
      in case find (\<lambda>e. \<not> bool_at valid (se_column e)) ss of
           Some e \<Rightarrow> Some (''invalid sort column '' @ se_column e)
         | None \<Rightarrow> None)"

definition sort_get :: "sort_expr list \<Rightarrow> string \<Rightarrow> sort_expr option" where
  "sort_get ss col = find (\<lambda>e. se_column e = col) ss"

definition sort_clone :: "sort_expr list \<Rightarrow> sort_expr list" where
  "sort_clone ss = map (\<lambda>e. mk_sort (se_column e) (se_desc e)) ss"

definition sort_reverse :: "sort_expr list \<Rightarrow> sort_expr list" where
  "sort_reverse ss = map (\<lambda>e. e\<lparr>se_desc := \<not> se_desc e\<rparr>) ss"

definition sort_reversed :: "sort_expr list \<Rightarrow> bool" where
  "sort_reversed ss = (case ss of [] \<Rightarrow> False | e # _ \<Rightarrow> se_desc e)"

definition sort_last_desc :: "sort_expr list \<Rightarrow> bool" where
  "sort_last_desc ss = (if ss = [] then False else se_desc (last ss))"

definition sort_columns :: "sort_expr list \<Rightarrow> string list" where
  "sort_columns ss = map se_column ss"

datatype filter_state = StateExcluded | StateInclusive | StateExclusive

definition state_string :: "filter_state \<Rightarrow> string" where
  "state_string s = (case s of StateExcluded \<Rightarrow> ''0'' | StateInclusive \<Rightarrow> ''1'' | StateExclusive \<Rightarrow> ''2'')"

section \<open>Text form\<close>

lemma mk_sort_sel [simp]: "se_column (mk_sort c d) = c" "se_desc (mk_sort c d) = d"
  "mk_sort (se_column e) (se_desc e) = e"
  by (simp_all add: mk_sort_def)

lemma sort_clone_id [simp]: "sort_clone ss = ss"
  by (simp add: sort_clone_def)

lemma sort_reverse_involution [simp]: "sort_reverse (sort_reverse ss) = ss"
  by (simp add: sort_reverse_def comp_def)

definition column_ok :: "string \<Rightarrow> bool" where
  "column_ok c \<longleftrightarrow> c \<noteq> [] \<and> list_all column_char c"

lemma column_char_not:
  "\<not> column_char CHR '' ''" "\<not> column_char CHR '',''" "\<not> column_char CHR 0x22"
  "\<not> trim_char CHR 0x22" "\<not> trim_char CHR ''C''"
  by code_simp+

lemma column_char_trim: "column_char c \<Longrightarrow> \<not> trim_char c"
  by (auto simp: column_char_def trim_char_def space_char_def Let_def)

text \<open>A text that starts and ends with characters that are not trimmed stays as it is.\<close>

lemma trim_space_id:
  "s \<noteq> [] \<Longrightarrow> \<not> trim_char (hd s) \<Longrightarrow> \<not> trim_char (last s) \<Longrightarrow> trim_space s = s"
  by (simp add: trim_space_def dropWhile_eq_self_iff [THEN iffD2] hd_rev)

lemma trim_space_lead: "trim_char c \<Longrightarrow> trim_space (c # s) = trim_space s"
  by (simp add: trim_space_def)

lemma expr_string_ends:
  "column_ok (se_column e) \<Longrightarrow>
   expr_string e \<noteq> [] \<and> \<not> trim_char (hd (expr_string e)) \<and> \<not> trim_char (last (expr_string e))"
  using hd_in_set [of "se_column e"] last_in_set [of "se_column e"]
  by (auto simp: expr_string_def column_ok_def column_char_not list_all_iff dest: column_char_trim)

lemma match_expr_string:
  assumes "column_ok (se_column e)"
  shows "match_expr (expr_string e) = Some (se_column e, if se_desc e then ''DESC'' else [])"
proof -
  have all: "\<forall>c \<in> set (se_column e). column_char c" "se_column e \<noteq> []"
    using assms by (simp_all add: column_ok_def list_all_iff)
  then have d: "dropWhile (\<lambda>c. \<not> column_char c) (se_column e @ r) = se_column e @ r" for r
    by (cases "se_column e") auto
  have t: "takeWhile column_char (se_column e @ r) = se_column e"
    "dropWhile column_char (se_column e @ r) = r" if "r = [] \<or> \<not> column_char (hd r)" for r
    using that all(1) by (cases r; simp add: takeWhile_append dropWhile_append dropWhile_eq_Nil_conv)+
  have m: "match_direction '' DESC'' = ''DESC''" "match_direction [] = []" by code_simp+
  show ?thesis
  proof (cases "se_desc e")
    case True
    with all(2) d [of "'' DESC''"] t [of "'' DESC''"] show ?thesis
      by (simp add: match_expr_def expr_string_def column_char_not m)
  next
    case False
    have w: "takeWhile column_char (se_column e) = se_column e" "dropWhile column_char (se_column e) = []"
      using t [of "[]"] by simp_all
    with False all(2) d [of "[]"] show ?thesis
      by (simp add: match_expr_def expr_string_def m Let_def w)
  qed
qed

lemma expr_string_no_comma: "column_ok (se_column e) \<Longrightarrow> CHR '','' \<notin> set (expr_string e)"
  using column_char_not(2) by (auto simp: expr_string_def column_ok_def list_all_iff)

lemma split_at_no_sep: "c \<notin> set s \<Longrightarrow> split_at c s = [s]"
  by (induction s) auto

lemma split_at_append_sep: "c \<notin> set s \<Longrightarrow> split_at c (s @ c # t) = s # split_at c t"
  by (induction s) auto

text \<open>\<open>lead\<close> and \<open>trail\<close> are what stands before the first and after the last expression.\<close>

lemma split_sort_string:
  "ss \<noteq> [] \<Longrightarrow> list_all (\<lambda>e. column_ok (se_column e)) ss \<Longrightarrow>
   split_at CHR '','' (sort_string ss) =
     (case map expr_string ss of [] \<Rightarrow> [] | x # xs \<Rightarrow> x # map (\<lambda>y. CHR '' '' # y) xs)"
proof (induction ss)
  case Nil
  then show ?case by simp
next
  case (Cons e ss)
  have nc: "CHR '','' \<notin> set (expr_string e)" using Cons.prems(2) by (intro expr_string_no_comma) simp
  show ?case
  proof (cases ss)
    case Nil
    with nc show ?thesis by (simp add: sort_string_def split_at_no_sep)
  next
    case (Cons f fs)
    have "sort_string (e # ss) = expr_string e @ CHR '','' # CHR '' '' # sort_string ss"
      using Cons by (simp add: sort_string_def)
    then have "split_at CHR '','' (sort_string (e # ss)) =
        expr_string e # split_at CHR '','' (CHR '' '' # sort_string ss)"
      by (simp only: split_at_append_sep [OF nc])
    also have "split_at CHR '','' (CHR '' '' # sort_string ss) =
        (CHR '' '' # hd (split_at CHR '','' (sort_string ss))) # tl (split_at CHR '','' (sort_string ss))"
      by (rule split_at_Cons_ne) simp
    finally show ?thesis using Cons.IH Cons.prems(2) Cons by simp
  qed
qed

lemma parse_exprs_strings:
  "list_all (\<lambda>e. column_ok (se_column e)) ss \<Longrightarrow> list_all2 (\<lambda>t e. trim_space t = expr_string e) ts ss \<Longrightarrow>
   parse_exprs ts acc = Inr (acc @ ss)"
proof (induction ts arbitrary: ss acc)
  case Nil
  then show ?case by simp
next
  case (Cons t ts)
  then obtain e es where ss: "ss = e # es" "trim_space t = expr_string e" "column_ok (se_column e)"
    "list_all (\<lambda>e. column_ok (se_column e)) es" "list_all2 (\<lambda>t e. trim_space t = expr_string e) ts es"
    by (auto simp: list_all2_Cons1)
  have m: "mk_sort (se_column e) (to_upper (if se_desc e then ''DESC'' else []) = ''DESC'') = e"
  proof -
    have "to_upper ''DESC'' = ''DESC''" "to_upper [] = []" by code_simp+
    then show ?thesis by (cases e) (simp add: mk_sort_def)
  qed
  show ?case
    using Cons.IH [OF ss(4,5), of "acc @ [e]"] m by (simp add: ss(1,2) match_expr_string [OF ss(3)])
qed

definition columns_ok :: "sort_expr list \<Rightarrow> bool" where
  "columns_ok ss = list_all (\<lambda>e. column_ok (se_column e)) ss"

lemma sort_string_ends:
  "ss \<noteq> [] \<Longrightarrow> columns_ok ss \<Longrightarrow>
   sort_string ss \<noteq> [] \<and> hd (sort_string ss) = hd (expr_string (hd ss)) \<and>
   last (sort_string ss) = last (expr_string (last ss))"
proof (induction ss)
  case Nil
  then show ?case by simp
next
  case (Cons e ss)
  have e: "expr_string e \<noteq> []" using Cons.prems(2) expr_string_ends by (simp add: columns_ok_def)
  show ?case
  proof (cases ss)
    case Nil
    with e show ?thesis by (simp add: sort_string_def)
  next
    case (Cons f fs)
    have "sort_string (e # ss) = expr_string e @ CHR '','' # CHR '' '' # sort_string ss"
      using Cons by (simp add: sort_string_def)
    with Cons.IH Cons.prems(2) Cons e show ?thesis by (simp add: columns_ok_def)
  qed
qed

text \<open>
  Parsing the text form of a sort whose columns are words of the accepted characters gives
  the sort back, directions included.
\<close>

theorem sort_roundtrip:
  assumes "columns_ok ss"
  shows "parse_sort (sort_string ss) = Inr ss"
proof (cases "ss = []")
  case True
  then show ?thesis by (simp add: parse_sort_def sort_string_def)
next
  case False
  have ok: "column_ok (se_column (hd ss))" "column_ok (se_column (last ss))"
    using assms False by (auto simp: columns_ok_def list_all_iff)
  have t: "trim_space (sort_string ss) = sort_string ss" "sort_string ss \<noteq> []"
    using sort_string_ends [OF False assms] expr_string_ends [OF ok(1)] expr_string_ends [OF ok(2)]
    by (simp_all add: trim_space_id)
  obtain e es where ss: "ss = e # es" using False by (cases ss) auto
  have tr: "trim_space (expr_string f) = expr_string f" if "f \<in> set ss" for f
    using expr_string_ends [of f] that assms by (auto simp: columns_ok_def list_all_iff intro: trim_space_id)
  have "list_all2 (\<lambda>t e. trim_space t = expr_string e)
      (expr_string e # map (\<lambda>y. CHR '' '' # y) (map expr_string es)) (e # es)"
    using tr by (auto simp: ss list_all2_map1 list.rel_map trim_space_lead trim_char_def space_char_def
        intro!: list.rel_refl_strong)
  then have "parse_exprs (split_at CHR '','' (sort_string ss)) [] = Inr ss"
    using parse_exprs_strings [of ss _ "[]"] split_sort_string [OF False] assms
    by (simp add: columns_ok_def ss del: parse_exprs.simps)
  with t show ?thesis by (simp add: parse_sort_def)
qed

theorem sort_roundtrip_witness:
  "parse_sort (sort_string [mk_sort ''name'' True, mk_sort ''id'' False]) =
     Inr [mk_sort ''name'' True, mk_sort ''id'' False]"
  by (rule sort_roundtrip) code_simp

text \<open>The direction words are matched in two spellings only; any other is silently ascending.\<close>

lemma mixed_case_direction: "parse_sort ''name Desc'' = Inr [mk_sort ''name'' False]"
  by code_simp

end
