(* ===== verification/FilterPaging.thy ===== *)
theory FilterPaging
  imports FilterSort
begin

text \<open>
  \<^verbatim>\<open>pkg/filter/pagination.go\<close>: paging cursors. A value is \<open>None\<close> where the source has nil. The
  three slices are separate and a decoded cursor may have them at different lengths; an index out
  of range is the panic \<open>index_panic\<close>. JSON and base64 are standard library code outside the
  model: parameters of the functions that use them.
\<close>

record 'v paging_cursor =
  pc_keys :: "string list"
  pc_values :: "'v option list"
  pc_desc :: "bool list"
  pc_rorder :: bool
  pc_lthen :: bool

definition index_panic :: string where
  "index_panic = ''panic: index out of range''"

definition empty_cursor :: "bool \<Rightarrow> 'v paging_cursor" where
  "empty_cursor lt = \<lparr>pc_keys = [], pc_values = [], pc_desc = [], pc_rorder = False, pc_lthen = lt\<rparr>"

definition at_index :: "'a list \<Rightarrow> nat \<Rightarrow> 'a go_result" where
  "at_index xs i = (if i < length xs then Inr (xs ! i) else Inl index_panic)"

text \<open>\<open>Walk\<close> collects here what its callback is given.\<close>

fun walk_from :: "'v paging_cursor \<Rightarrow> nat \<Rightarrow> string list \<Rightarrow> (string \<times> 'v option \<times> bool) list go_result" where
  "walk_from p i [] = Inr []"
| "walk_from p i (key # keys) =
     (case at_index (pc_values p) i of
        Inl e \<Rightarrow> Inl e
      | Inr v \<Rightarrow>
          (case at_index (pc_desc p) i of
             Inl e \<Rightarrow> Inl e
           | Inr d \<Rightarrow>
               (case walk_from p (Suc i) keys of
                  Inl e \<Rightarrow> Inl e
                | Inr es \<Rightarrow> Inr ((key, v, d) # es))))"

definition cursor_walk :: "'v paging_cursor \<Rightarrow> (string \<times> 'v option \<times> bool) list go_result" where
  "cursor_walk p = walk_from p 0 (pc_keys p)"

definition cursor_set :: "'v paging_cursor \<Rightarrow> string \<Rightarrow> 'v option \<Rightarrow> bool \<Rightarrow> 'v paging_cursor go_result" where
  "cursor_set p k v d =
     (case find (\<lambda>i. pc_keys p ! i = k) [0..<length (pc_keys p)] of
        Some i \<Rightarrow>
          (if i < length (pc_values p) then Inr (p\<lparr>pc_values := (pc_values p)[i := v]\<rparr>)
           else Inl index_panic)
      | None \<Rightarrow>
          Inr (p\<lparr>pc_keys := pc_keys p @ [k], pc_values := pc_values p @ [v], pc_desc := pc_desc p @ [d]\<rparr>))"

text \<open>The sort a cursor dictates when the request names none.\<close>

fun sort_from_cursor :: "bool list \<Rightarrow> nat \<Rightarrow> string list \<Rightarrow> sort_expr list \<Rightarrow> sort_expr list go_result" where
  "sort_from_cursor desc k [] ss = Inr ss"
| "sort_from_cursor desc k (key # keys) ss =
     (case at_index desc k of
        Inl e \<Rightarrow> Inl e
      | Inr d \<Rightarrow> sort_from_cursor desc (Suc k) keys (ss @ [mk_sort key d]))"

definition err_incompatible_sort :: string where
  "err_incompatible_sort = ''sort incompatible with cursor; send empty sort''"

fun sort_matches :: "string list \<Rightarrow> bool list \<Rightarrow> sort_expr list \<Rightarrow> bool go_result" where
  "sort_matches keys desc [] = Inr True"
| "sort_matches keys desc (s # ss) =
     (case keys of
        [] \<Rightarrow> Inl index_panic
      | k # ks \<Rightarrow>
          if k \<noteq> se_column s then Inr False
          else case desc of
            [] \<Rightarrow> Inl index_panic
          | d # ds \<Rightarrow> if d \<noteq> se_desc s then Inr False else sort_matches ks ds ss)"

definition cursor_sort :: "'v paging_cursor option \<Rightarrow> sort_expr list \<Rightarrow> sort_expr list go_result" where
  "cursor_sort p ss =
     (case p of
        None \<Rightarrow> Inr ss
      | Some p \<Rightarrow>
          if ss = [] then sort_from_cursor (pc_desc p) 0 (pc_keys p) []
          else if length (pc_keys p) < length ss then Inl err_incompatible_sort
          else case sort_matches (pc_keys p) (pc_desc p) ss of
            Inl e \<Rightarrow> Inl e
          | Inr ok \<Rightarrow> if ok then Inr ss else Inl err_incompatible_sort)"

section \<open>Paging and the wire form\<close>

record 'v paging =
  pg_limit :: u64
  pg_cursor :: "'v paging_cursor option"
  pg_next :: "'v paging_cursor option"
  pg_prev :: "'v paging_cursor option"
  pg_inc_navigation :: bool
  pg_inc_total :: bool
  pg_total :: u64

record 'v cursor_codec =
  cc_json :: "'v paging_cursor \<Rightarrow> string go_result"
  cc_unjson :: "string \<Rightarrow> 'v paging_cursor go_result"
  cc_base64 :: "string \<Rightarrow> string"
  cc_unbase64 :: "string \<Rightarrow> string go_result"

definition cursor_marshal :: "'v cursor_codec \<Rightarrow> 'v paging_cursor \<Rightarrow> string go_result" where
  "cursor_marshal cc p =
     (case cc_json cc p of
        Inl e \<Rightarrow> Inl e
      | Inr buf \<Rightarrow> Inr (CHR 0x22 # cc_base64 cc buf @ [CHR 0x22]))"

definition cursor_encode :: "'v cursor_codec \<Rightarrow> 'v paging_cursor \<Rightarrow> string" where
  "cursor_encode cc p = (case cursor_marshal cc p of Inl e \<Rightarrow> [] | Inr b \<Rightarrow> b)"

definition strip_quotes :: "string \<Rightarrow> string" where
  "strip_quotes s = (if hd s = CHR 0x22 then butlast (tl s) else s)"

definition cursor_unmarshal :: "'v cursor_codec \<Rightarrow> string \<Rightarrow> 'v paging_cursor go_result" where
  "cursor_unmarshal cc s =
     (if s = [] then Inl index_panic
      else if hd s = CHR ''{'' then cc_unjson cc s
      else case cc_unbase64 cc (strip_quotes s) of
        Inl e \<Rightarrow> Inl e
      | Inr b \<Rightarrow> cc_unjson cc b)"

definition cursor_decode :: "'v cursor_codec \<Rightarrow> string \<Rightarrow> 'v paging_cursor go_result" where
  "cursor_decode cc s =
     (case cc_unbase64 cc s of Inl e \<Rightarrow> Inl e | Inr b \<Rightarrow> cursor_unmarshal cc b)"

definition parse_cursor :: "'v cursor_codec \<Rightarrow> string \<Rightarrow> 'v paging_cursor option go_result" where
  "parse_cursor cc s =
     (if s = [] then Inr None
      else case cc_unbase64 cc s of
        Inl e \<Rightarrow> Inl (''could not decode cursor: '' @ e)
      | Inr buf \<Rightarrow>
          (case cursor_unmarshal cc buf of
             Inl e \<Rightarrow> if e = index_panic then Inl e else Inl (''could not decode cursor: '' @ e)
           | Inr p \<Rightarrow> Inr (Some p)))"

definition new_paging :: "'v cursor_codec \<Rightarrow> u64 \<Rightarrow> string \<Rightarrow> 'v paging go_result" where
  "new_paging cc limit cur =
     (case parse_cursor cc cur of
        Inl e \<Rightarrow> Inl e
      | Inr p \<Rightarrow> Inr \<lparr>pg_limit = limit, pg_cursor = p, pg_next = None, pg_prev = None,
          pg_inc_navigation = False, pg_inc_total = False, pg_total = 0\<rparr>)"

section \<open>Well-formed cursors\<close>

definition cursor_wf :: "'v paging_cursor \<Rightarrow> bool" where
  "cursor_wf p \<longleftrightarrow> length (pc_values p) = length (pc_keys p) \<and> length (pc_desc p) = length (pc_keys p)"

definition cursor_entries :: "'v paging_cursor \<Rightarrow> (string \<times> 'v option \<times> bool) list" where
  "cursor_entries p = zip (pc_keys p) (zip (pc_values p) (pc_desc p))"

lemma empty_cursor_wf [simp]: "cursor_wf (empty_cursor lt)"
  by (simp add: cursor_wf_def empty_cursor_def)

lemma cursor_set_wf:
  assumes "cursor_wf p"
  shows "\<exists>q. cursor_set p k v d = Inr q \<and> cursor_wf q \<and> pc_rorder q = pc_rorder p \<and> pc_lthen q = pc_lthen p"
proof (cases "find (\<lambda>i. pc_keys p ! i = k) [0..<length (pc_keys p)]")
  case None
  with assms show ?thesis by (simp add: cursor_set_def cursor_wf_def)
next
  case (Some i)
  then have "i < length (pc_keys p)" by (auto simp: find_Some_iff)
  with Some assms show ?thesis by (simp add: cursor_set_def cursor_wf_def)
qed

lemma cursor_walk_wf:
  assumes "cursor_wf p"
  shows "cursor_walk p = Inr (cursor_entries p)"
proof -
  have "walk_from p (length (pc_keys p) - length ks) ks =
      Inr (drop (length (pc_keys p) - length ks) (cursor_entries p))"
    if "ks = drop (length (pc_keys p) - length ks) (pc_keys p)" "length ks \<le> length (pc_keys p)" for ks
    using that
  proof (induction ks)
    case Nil
    then show ?case by (simp add: cursor_entries_def)
  next
    case (Cons k ks)
    let ?i = "length (pc_keys p) - length (k # ks)"
    have i: "?i < length (pc_keys p)" "length (pc_keys p) - length ks = Suc ?i"
      using Cons.prems(2) by simp_all
    have kd: "k # ks = pc_keys p ! ?i # drop (Suc ?i) (pc_keys p)"
      using Cons.prems(1) i(1) by (simp add: Cons_nth_drop_Suc)
    have "walk_from p (Suc ?i) ks = Inr (drop (Suc ?i) (cursor_entries p))"
      using Cons.IH kd Cons.prems(2) i(2) by simp
    moreover have "drop ?i (cursor_entries p) = (k, pc_values p ! ?i, pc_desc p ! ?i) # drop (Suc ?i) (cursor_entries p)"
      using i(1) assms kd by (subst Cons_nth_drop_Suc [symmetric]) (simp_all add: cursor_entries_def cursor_wf_def)
    ultimately show ?case
      using i assms by (simp add: at_index_def cursor_wf_def)
  qed
  from this [of "pc_keys p"] show ?thesis by (simp add: cursor_walk_def)
qed

text \<open>
  encoding a cursor and decoding the text between the quotes gives the cursor back, when
  base64 decodes what it encoded and the JSON of the cursor is an object that parses to it.
\<close>

theorem cursor_roundtrip:
  assumes "cc_json cc p = Inr j" and "cc_unjson cc j = Inr p" and "j \<noteq> []" and "hd j = CHR ''{''"
    and "cc_unbase64 cc (cc_base64 cc j) = Inr j"
  shows "cursor_decode cc (strip_quotes (cursor_encode cc p)) = Inr p"
  using assms
  by (simp add: cursor_decode_def cursor_encode_def cursor_marshal_def strip_quotes_def cursor_unmarshal_def)

definition fixed_codec :: "'v paging_cursor \<Rightarrow> 'v cursor_codec" where
  "fixed_codec p = \<lparr>cc_json = (\<lambda>_. Inr ''{}''), cc_unjson = (\<lambda>_. Inr p), cc_base64 = rev, cc_unbase64 = (\<lambda>s. Inr (rev s))\<rparr>"

theorem cursor_roundtrip_witness:
  "cursor_decode (fixed_codec (empty_cursor False :: nat paging_cursor))
     (strip_quotes (cursor_encode (fixed_codec (empty_cursor False :: nat paging_cursor)) (empty_cursor False)))
   = Inr (empty_cursor False)"
  by (rule cursor_roundtrip [where j = "''{}''"]) (simp_all add: fixed_codec_def)

text \<open>
  a cursor in a request whose base64 text decodes to nothing makes the request panic, since
  the first byte is inspected before the length.
\<close>

theorem empty_cursor_panics:
  assumes "s \<noteq> []" and "cc_unbase64 cc s = Inr []"
  shows "new_paging cc limit s = Inl index_panic"
  using assms by (simp add: new_paging_def parse_cursor_def cursor_unmarshal_def)

definition newline_codec :: "nat cursor_codec" where
  "newline_codec =
     \<lparr>cc_json = (\<lambda>_. Inl ''''), cc_unjson = (\<lambda>_. Inl ''''), cc_base64 = (\<lambda>s. s),
      cc_unbase64 = (\<lambda>s. Inr (filter (\<lambda>c. c \<noteq> CHR 0x0A \<and> c \<noteq> CHR 0x0D) s))\<rparr>"

theorem empty_cursor_panics_witness:
  "new_paging newline_codec 10 [CHR 0x0A] = Inl index_panic"
  by (rule empty_cursor_panics) (simp_all add: newline_codec_def)

text \<open>
  a decoded cursor whose directions are fewer than its keys makes the sort taken from it
  panic.
\<close>

theorem short_cursor_panics:
  assumes "length (pc_desc p) < length (pc_keys p)"
  shows "cursor_sort (Some p) [] = Inl index_panic"
proof -
  have "sort_from_cursor ds k ks ss = Inl index_panic" if "length ds < k + length ks" "k \<le> length ds" for ds k ks ss
    using that by (induction ks arbitrary: k ss) (auto simp: at_index_def)
  with assms show ?thesis by (simp add: cursor_sort_def)
qed

theorem short_cursor_panics_witness:
  "cursor_sort (Some (\<lparr>pc_keys = [''id''], pc_values = [Some (1::nat)], pc_desc = [], pc_rorder = False,
     pc_lthen = False\<rparr>)) [] = Inl index_panic"
  by (rule short_cursor_panics) simp

end
