(* ===== verification/StoreCursor.thy ===== *)
theory StoreCursor
  imports FilterPaging
begin

text \<open>
  \<^verbatim>\<open>store/adapters/rdbms/cursor.go\<close>: the SQL condition that keeps the rows after (or, for a
  reversed cursor, before) the row a cursor points to.

  A condition is a term; \<open>cond_sql\<close> is its text with a placeholder for every value and
  \<open>cond_args\<close> the values in the order of the placeholders. \<open>eval_cond\<close> is its meaning in SQL's
  three-valued logic, None for unknown.
\<close>

datatype 'v cond =
  CIsNull string | CIsNotNull string | CConst bool
  | CCmp bool string string "'v option" | CEq string string "'v option"
  | CAnd "'v cond" "'v cond" | COr "'v cond" "'v cond"

record key_map =
  km_field :: string
  km_type :: string
  km_pattern :: "string \<Rightarrow> string"

type_synonym key_mapper = "string \<Rightarrow> key_map go_result"

definition default_mapper :: key_mapper where
  "default_mapper s = Inr \<lparr>km_field = s, km_type = s, km_pattern = (\<lambda>x. x)\<rparr>"

definition value_null :: "'v option \<Rightarrow> bool \<Rightarrow> bool" where
  "value_null v neg \<longleftrightarrow> (v = None \<and> \<not> neg) \<or> (v \<noteq> None \<and> neg)"

definition base_cond :: "key_map \<Rightarrow> bool \<Rightarrow> 'v option \<Rightarrow> 'v cond" where
  "base_cond km lt v =
     COr (CAnd (if lt then CIsNull (km_field km) else CIsNotNull (km_field km)) (CConst (value_null v lt)))
         (CCmp lt (km_type km) (km_pattern km ''?'') v)"

definition wrap_cond :: "'v cond \<Rightarrow> key_map \<Rightarrow> 'v option \<Rightarrow> 'v cond \<Rightarrow> 'v cond" where
  "wrap_cond base km v cnd =
     COr base
       (CAnd (COr (CAnd (CIsNull (km_field km)) (CConst (value_null v False)))
                  (CEq (km_type km) (km_pattern km ''?'') v)) cnd)"

text \<open>
  The key's column: the sortable column of that name, else the key itself. \<open>sortable\<close> is None
  where the source has a nil map.
\<close>

definition key_column :: "(string \<times> string) list option \<Rightarrow> string \<Rightarrow> string" where
  "key_column sortable key =
     (case sortable of
        None \<Rightarrow> key
      | Some m \<Rightarrow> (case map_of m (to_lower key) of Some v \<Rightarrow> v | None \<Rightarrow> key))"

text \<open>The loop from the last key to the first; \<open>n\<close> keys are left.\<close>

fun cond_loop :: "key_mapper \<Rightarrow> (string \<times> string) list option \<Rightarrow> 'v paging_cursor \<Rightarrow> nat \<Rightarrow> 'v cond option \<Rightarrow>
    'v cond option go_result" where
  "cond_loop mapper sortable cur 0 cnd = Inr cnd"
| "cond_loop mapper sortable cur (Suc i) cnd =
     (case mapper (key_column sortable (pc_keys cur ! i)) of
        Inl e \<Rightarrow> Inl e
      | Inr km \<Rightarrow>
          (case at_index (pc_desc cur) i of
             Inl e \<Rightarrow> Inl e
           | Inr d \<Rightarrow>
               (case at_index (pc_values cur) i of
                  Inl e \<Rightarrow> Inl e
                | Inr v \<Rightarrow>
                    (let lt = (if pc_rorder cur then \<not> d else d);
                         base = base_cond km lt v
                     in cond_loop mapper sortable cur i
                          (Some (case cnd of None \<Rightarrow> base | Some c \<Rightarrow> wrap_cond base km v c))))))"

definition cursor_cond :: "key_mapper \<Rightarrow> (string \<times> string) list option \<Rightarrow> 'v paging_cursor \<Rightarrow> 'v cond option go_result" where
  "cursor_cond mapper sortable cur = cond_loop mapper sortable cur (length (pc_keys cur)) None"

fun cond_sql :: "'v cond \<Rightarrow> string" where
  "cond_sql (CIsNull f) = f @ '' IS NULL''"
| "cond_sql (CIsNotNull f) = f @ '' IS NOT NULL''"
| "cond_sql (CConst b) = (if b then ''TRUE'' else ''FALSE'')"
| "cond_sql (CCmp lt f p v) = ''('' @ f @ (if lt then '' < '' else '' > '') @ p @ '')''"
| "cond_sql (CEq f p v) = f @ '' = '' @ p"
| "cond_sql (CAnd a b) = ''('' @ cond_sql a @ '' AND '' @ cond_sql b @ '')''"
| "cond_sql (COr a b) = ''('' @ cond_sql a @ '' OR '' @ cond_sql b @ '')''"

fun cond_args :: "'v cond \<Rightarrow> 'v option list" where
  "cond_args (CCmp lt f p v) = [v]"
| "cond_args (CEq f p v) = [v]"
| "cond_args (CAnd a b) = cond_args a @ cond_args b"
| "cond_args (COr a b) = cond_args a @ cond_args b"
| "cond_args c = []"

text \<open>The arguments as the source lists them: every value twice but the last.\<close>

definition cursor_values :: "'v paging_cursor \<Rightarrow> 'v option list" where
  "cursor_values cur =
     (if pc_keys cur = [] then []
      else concat (map (\<lambda>i. if i < length (pc_values cur) - 1
          then [pc_values cur ! i, pc_values cur ! i] else [pc_values cur ! i]) [0..<length (pc_values cur)]))"

definition cursor_to_sql :: "key_mapper \<Rightarrow> (string \<times> string) list option \<Rightarrow> 'v paging_cursor \<Rightarrow>
    (string \<times> 'v option list) go_result" where
  "cursor_to_sql mapper sortable cur =
     (case cursor_cond mapper sortable cur of
        Inl e \<Rightarrow> Inl e
      | Inr c \<Rightarrow> Inr ((case c of None \<Rightarrow> [] | Some c \<Rightarrow> cond_sql c), cursor_values cur))"

section \<open>The expression variant\<close>

text \<open>
  \<open>CursorExpression\<close> builds the same shape from goqu terms, but its null check does not depend on
  the direction. \<open>ident\<close> stands for the column lookup and \<open>cast\<close> for the value encoding.
\<close>

definition expr_base :: "string \<Rightarrow> bool \<Rightarrow> 'v option \<Rightarrow> 'v option \<Rightarrow> 'v cond" where
  "expr_base ident lt v w =
     COr (CAnd (CIsNotNull ident) (CConst (value_null v False))) (CCmp lt ident ''?'' w)"

fun expr_loop :: "(string \<Rightarrow> string go_result) \<Rightarrow> (string \<Rightarrow> 'v option \<Rightarrow> 'v option go_result) \<Rightarrow> 'v paging_cursor \<Rightarrow>
    nat \<Rightarrow> 'v cond option \<Rightarrow> 'v cond option go_result" where
  "expr_loop ident cast cur 0 cnd = Inr cnd"
| "expr_loop ident cast cur (Suc i) cnd =
     (case ident (pc_keys cur ! i) of
        Inl e \<Rightarrow> Inl e
      | Inr f \<Rightarrow>
          (case at_index (pc_values cur) i of
             Inl e \<Rightarrow> Inl e
           | Inr v \<Rightarrow>
               (case cast (pc_keys cur ! i) v of
                  Inl e \<Rightarrow> Inl e
                | Inr w \<Rightarrow>
                    (case at_index (pc_desc cur) i of
                       Inl e \<Rightarrow> Inl e
                     | Inr d \<Rightarrow>
                         (let lt = (if pc_rorder cur then \<not> d else d);
                              base = expr_base f lt v w
                          in expr_loop ident cast cur i
                               (Some (case cnd of
                                  None \<Rightarrow> base
                                | Some c \<Rightarrow>
                                    COr base
                                      (CAnd (COr (CAnd (CIsNull f) (CConst (value_null v False))) (CEq f ''?'' w)) c))))))))"

definition cursor_expression :: "(string \<Rightarrow> string go_result) \<Rightarrow> (string \<Rightarrow> 'v option \<Rightarrow> 'v option go_result) \<Rightarrow>
    'v paging_cursor \<Rightarrow> 'v cond option go_result" where
  "cursor_expression ident cast cur = expr_loop ident cast cur (length (pc_keys cur)) None"

section \<open>Meaning\<close>

fun and3 :: "bool option \<Rightarrow> bool option \<Rightarrow> bool option" where
  "and3 (Some False) _ = Some False"
| "and3 _ (Some False) = Some False"
| "and3 (Some True) (Some True) = Some True"
| "and3 _ _ = None"

fun or3 :: "bool option \<Rightarrow> bool option \<Rightarrow> bool option" where
  "or3 (Some True) _ = Some True"
| "or3 _ (Some True) = Some True"
| "or3 (Some False) (Some False) = Some False"
| "or3 _ _ = None"

definition cmp3 :: "('v \<Rightarrow> 'v \<Rightarrow> bool) \<Rightarrow> 'v option \<Rightarrow> 'v option \<Rightarrow> bool option" where
  "cmp3 f a b = (case (a, b) of (Some x, Some y) \<Rightarrow> Some (f x y) | _ \<Rightarrow> None)"

fun eval_cond :: "(string \<Rightarrow> 'v::linorder option) \<Rightarrow> 'v cond \<Rightarrow> bool option" where
  "eval_cond row (CIsNull f) = Some (row f = None)"
| "eval_cond row (CIsNotNull f) = Some (row f \<noteq> None)"
| "eval_cond row (CConst b) = Some b"
| "eval_cond row (CCmp lt f p v) = cmp3 (if lt then (<) else (>)) (row f) v"
| "eval_cond row (CEq f p v) = cmp3 (=) (row f) v"
| "eval_cond row (CAnd a b) = and3 (eval_cond row a) (eval_cond row b)"
| "eval_cond row (COr a b) = or3 (eval_cond row a) (eval_cond row b)"

lemma and3_True [simp]: "and3 a b = Some True \<longleftrightarrow> a = Some True \<and> b = Some True"
  by (cases "(a, b)" rule: and3.cases) auto

lemma or3_True [simp]: "or3 a b = Some True \<longleftrightarrow> a = Some True \<or> b = Some True"
  by (cases "(a, b)" rule: or3.cases) auto

text \<open>
  The order of the values a sort sees: nulls lowest, reversed for a descending key. A row is
  after the entries (column, value, descending) when it is strictly greater lexicographically.
\<close>

definition null_less :: "'v::linorder option \<Rightarrow> 'v option \<Rightarrow> bool" where
  "null_less a b \<longleftrightarrow> (case (a, b) of (_, None) \<Rightarrow> False | (None, Some _) \<Rightarrow> True | (Some x, Some y) \<Rightarrow> x < y)"

fun row_after :: "(string \<times> 'v::linorder option \<times> bool) list \<Rightarrow> (string \<Rightarrow> 'v option) \<Rightarrow> bool" where
  "row_after [] row \<longleftrightarrow> False"
| "row_after ((c, v, desc) # es) row \<longleftrightarrow>
     (if desc then null_less (row c) v else null_less v (row c)) \<or> (row c = v \<and> row_after es row)"

lemma eval_base:
  "eval_cond row (base_cond \<lparr>km_field = f, km_type = f, km_pattern = (\<lambda>x. x)\<rparr> lt v) = Some True \<longleftrightarrow>
     (if lt then null_less (row f) v else null_less v (row f))"
  by (cases "row f"; cases v) (auto simp: base_cond_def value_null_def cmp3_def null_less_def)

lemma eval_wrap:
  "eval_cond row (wrap_cond b \<lparr>km_field = f, km_type = f, km_pattern = (\<lambda>x. x)\<rparr> v c) = Some True \<longleftrightarrow>
     eval_cond row b = Some True \<or> (row f = v \<and> eval_cond row c = Some True)"
  by (cases "row f"; cases v) (auto simp: wrap_cond_def value_null_def cmp3_def)

definition keyed_entries :: "(string \<times> string) list option \<Rightarrow> 'v paging_cursor \<Rightarrow> (string \<times> 'v option \<times> bool) list" where
  "keyed_entries sortable cur =
     map (\<lambda>(k, v, d). (key_column sortable k, v, d \<noteq> pc_rorder cur)) (cursor_entries cur)"

lemma keyed_entries_nth:
  "cursor_wf cur \<Longrightarrow> i < length (pc_keys cur) \<Longrightarrow>
   keyed_entries sortable cur ! i =
     (key_column sortable (pc_keys cur ! i), pc_values cur ! i, pc_desc cur ! i \<noteq> pc_rorder cur)"
  by (simp add: keyed_entries_def cursor_entries_def cursor_wf_def)

lemma keyed_entries_length [simp]: "cursor_wf cur \<Longrightarrow> length (keyed_entries sortable cur) = length (pc_keys cur)"
  by (simp add: keyed_entries_def cursor_entries_def cursor_wf_def)

lemma cond_loop_after:
  assumes "cursor_wf cur"
  shows "n \<le> length (pc_keys cur) \<Longrightarrow> eval_cond row c = Some True \<longleftrightarrow> row_after es row \<Longrightarrow>
    \<exists>c'. cond_loop default_mapper sortable cur n (Some c) = Inr (Some c') \<and>
      (eval_cond row c' = Some True \<longleftrightarrow> row_after (take n (keyed_entries sortable cur) @ es) row)"
proof (induction n arbitrary: c es)
  case 0
  then show ?case by simp
next
  case (Suc n)
  let ?k = "key_column sortable (pc_keys cur ! n)" and ?v = "pc_values cur ! n"
  let ?d = "pc_desc cur ! n \<noteq> pc_rorder cur"
  let ?km = "\<lparr>km_field = ?k, km_type = ?k, km_pattern = (\<lambda>x. x)\<rparr>"
  have n: "n < length (pc_keys cur)" using Suc.prems(1) by simp
  have dm: "default_mapper ?k = Inr ?km" by (simp add: default_mapper_def)
  have lt: "(if pc_rorder cur then \<not> pc_desc cur ! n else pc_desc cur ! n) = ?d" by simp
  let ?c = "wrap_cond (base_cond ?km ?d ?v) ?km ?v c"
  have "eval_cond row ?c = Some True \<longleftrightarrow> row_after ((?k, ?v, ?d) # es) row"
    using Suc.prems(2) by (simp add: eval_wrap eval_base)
  from Suc.IH [OF _ this] n obtain c' where
    "cond_loop default_mapper sortable cur n (Some ?c) = Inr (Some c')"
    "eval_cond row c' = Some True \<longleftrightarrow> row_after (take n (keyed_entries sortable cur) @ (?k, ?v, ?d) # es) row"
    by auto
  moreover have "take (Suc n) (keyed_entries sortable cur) = take n (keyed_entries sortable cur) @ [(?k, ?v, ?d)]"
    using n assms by (simp add: take_Suc_conv_app_nth keyed_entries_nth)
  ultimately show ?case
    using n assms lt dm by (simp add: at_index_def cursor_wf_def Let_def)
qed

lemma cursor_cond_exists:
  assumes "cursor_wf cur" and "pc_keys cur \<noteq> []"
  shows "\<exists>c. cursor_cond default_mapper sortable cur = Inr (Some c) \<and>
    (eval_cond row c = Some True \<longleftrightarrow> row_after (keyed_entries sortable cur) row)"
proof -
  obtain n where n: "length (pc_keys cur) = Suc n" using assms(2) by (cases "length (pc_keys cur)") auto
  let ?k = "key_column sortable (pc_keys cur ! n)" and ?v = "pc_values cur ! n"
  let ?d = "pc_desc cur ! n \<noteq> pc_rorder cur"
  let ?km = "\<lparr>km_field = ?k, km_type = ?k, km_pattern = (\<lambda>x. x)\<rparr>"
  have dm: "default_mapper ?k = Inr ?km" by (simp add: default_mapper_def)
  have lt: "(if pc_rorder cur then \<not> pc_desc cur ! n else pc_desc cur ! n) = ?d" by simp
  have "eval_cond row (base_cond ?km ?d ?v) = Some True \<longleftrightarrow> row_after [(?k, ?v, ?d)] row"
    by (simp add: eval_base)
  from cond_loop_after [OF assms(1) _ this, of n sortable] n obtain c' where
    "cond_loop default_mapper sortable cur n (Some (base_cond ?km ?d ?v)) = Inr (Some c')"
    "eval_cond row c' = Some True \<longleftrightarrow> row_after (take n (keyed_entries sortable cur) @ [(?k, ?v, ?d)]) row"
    by auto
  moreover have "keyed_entries sortable cur = take n (keyed_entries sortable cur) @ [(?k, ?v, ?d)]"
    using n assms(1) by (metis keyed_entries_nth keyed_entries_length lessI take_Suc_conv_app_nth take_all_iff order_refl)
  ultimately show ?thesis
    using n assms(1) lt dm by (simp add: cursor_cond_def at_index_def cursor_wf_def Let_def)
qed

text \<open>
  C10: the rows the cursor condition keeps are exactly the rows after the one the cursor points
  to, in the order of its keys and directions (reversed for a cursor to the previous page), nulls
  counting as lowest: no row is skipped or repeated, with nulls in any key and on either side.
\<close>

theorem cursor_condition_exact:
  assumes "cursor_wf cur" and "pc_keys cur \<noteq> []"
  shows "\<exists>c. cursor_cond default_mapper sortable cur = Inr (Some c) \<and>
    (eval_cond row c = Some True \<longleftrightarrow> row_after (keyed_entries sortable cur) row)"
  by (rule cursor_cond_exists) (fact assms)+

definition cursor_example :: "nat paging_cursor" where
  "cursor_example = \<lparr>pc_keys = [''name'', ''id''], pc_values = [None, Some 8], pc_desc = [True, False],
     pc_rorder = False, pc_lthen = True\<rparr>"

theorem cursor_condition_exact_witness:
  "\<exists>c. cursor_cond default_mapper None cursor_example = Inr (Some c) \<and>
    (eval_cond (\<lambda>k. if k = ''id'' then Some 9 else None) c = Some True \<longleftrightarrow>
      row_after (keyed_entries None cursor_example) (\<lambda>k. if k = ''id'' then Some 9 else None))"
  by (rule cursor_condition_exact) (simp_all add: cursor_example_def cursor_wf_def)

section \<open>Placeholders\<close>

lemma cond_args_loop:
  "cursor_wf cur \<Longrightarrow> n \<le> length (pc_keys cur) \<Longrightarrow> cond_loop mapper sortable cur n (Some c) = Inr (Some c') \<Longrightarrow>
   cond_args c' = concat (map (\<lambda>v. [v, v]) (take n (pc_values cur))) @ cond_args c"
proof (induction n arbitrary: c)
  case 0
  then show ?case by simp
next
  case (Suc n)
  then obtain km where m: "mapper (key_column sortable (pc_keys cur ! n)) = Inr km"
    by (auto split: sum.splits)
  let ?lt = "if pc_rorder cur then \<not> pc_desc cur ! n else pc_desc cur ! n"
  let ?w = "wrap_cond (base_cond km ?lt (pc_values cur ! n)) km (pc_values cur ! n) c"
  have n: "n < length (pc_values cur)" "n < length (pc_desc cur)"
    using Suc.prems(1,2) by (auto simp: cursor_wf_def)
  then have "cond_loop mapper sortable cur n (Some ?w) = Inr (Some c')"
    using Suc.prems(3) m by (simp add: at_index_def Let_def)
  from Suc.IH [OF Suc.prems(1) _ this] Suc.prems(2)
  have "cond_args c' = concat (map (\<lambda>v. [v, v]) (take n (pc_values cur))) @ cond_args ?w" by simp
  then show ?case using n(1) by (simp add: wrap_cond_def base_cond_def take_Suc_conv_app_nth)
qed

lemma cursor_values_eq:
  assumes "pc_keys cur \<noteq> []" and "length (pc_values cur) = Suc n"
  shows "cursor_values cur = concat (map (\<lambda>v. [v, v]) (take n (pc_values cur))) @ [pc_values cur ! n]"
proof -
  have "map (\<lambda>i. if i < n then [pc_values cur ! i, pc_values cur ! i] else [pc_values cur ! i]) [0..<Suc n] =
      map (\<lambda>v. [v, v]) (take n (pc_values cur)) @ [[pc_values cur ! n]]"
    using assms(2) by (auto simp: list_eq_iff_nth_eq nth_append less_Suc_eq)
  then show ?thesis using assms by (simp add: cursor_values_def)
qed

text \<open>
  The argument list has one value for every placeholder of the condition, in the order the
  placeholders stand in.
\<close>

theorem cursor_arguments_match:
  assumes "cursor_wf cur" and "cursor_cond mapper sortable cur = Inr (Some c)"
  shows "cursor_values cur = cond_args c"
proof (cases "length (pc_keys cur)")
  case 0
  with assms(2) show ?thesis by (simp add: cursor_cond_def)
next
  case (Suc n)
  then obtain km where m: "mapper (key_column sortable (pc_keys cur ! n)) = Inr km"
    using assms(2) by (auto simp: cursor_cond_def split: sum.splits)
  let ?lt = "if pc_rorder cur then \<not> pc_desc cur ! n else pc_desc cur ! n"
  have n: "n < length (pc_values cur)" "n < length (pc_desc cur)" "length (pc_values cur) = Suc n"
    using assms(1) Suc by (auto simp: cursor_wf_def)
  then have "cond_loop mapper sortable cur n (Some (base_cond km ?lt (pc_values cur ! n))) = Inr (Some c)"
    using assms(2) m Suc by (simp add: cursor_cond_def at_index_def Let_def)
  from cond_args_loop [OF assms(1) _ this] Suc
  have "cond_args c = concat (map (\<lambda>v. [v, v]) (take n (pc_values cur))) @ [pc_values cur ! n]"
    by (simp add: base_cond_def)
  moreover have "pc_keys cur \<noteq> []" using Suc by auto
  ultimately show ?thesis using cursor_values_eq n(3) by metis
qed

theorem cursor_arguments_match_witness:
  "cursor_values cursor_example = cond_args
     (wrap_cond (base_cond \<lparr>km_field = ''name'', km_type = ''name'', km_pattern = (\<lambda>x. x)\<rparr> True None)
        \<lparr>km_field = ''name'', km_type = ''name'', km_pattern = (\<lambda>x. x)\<rparr> None
        (base_cond \<lparr>km_field = ''id'', km_type = ''id'', km_pattern = (\<lambda>x. x)\<rparr> False (Some 8)))"
  by (rule cursor_arguments_match [where mapper = default_mapper and sortable = None])
     (simp_all add: cursor_example_def cursor_wf_def cursor_cond_def numeral_2_eq_2 default_mapper_def
       at_index_def key_column_def)

text \<open>The text for two keys, as the unit test of the source has it.\<close>

lemma cursor_sql_example:
  "cursor_to_sql default_mapper None
     \<lparr>pc_keys = [''f1'', ''f2''], pc_values = [Some (2::nat), None], pc_desc = [False, False],
      pc_rorder = False, pc_lthen = False\<rparr> =
   Inr (''(((f1 IS NOT NULL AND FALSE) OR (f1 > ?)) OR (((f1 IS NULL AND FALSE) OR f1 = ?) AND ((f2 IS NOT NULL AND TRUE) OR (f2 > ?))))'',
     [Some 2, Some 2, None])"
  by code_simp

section \<open>Where the two builders go wrong\<close>

definition desc_cursor :: "nat paging_cursor" where
  "desc_cursor = \<lparr>pc_keys = [''age''], pc_values = [Some 5], pc_desc = [True], pc_rorder = False, pc_lthen = True\<rparr>"

text \<open>
  The expression variant ignores the direction in its null check: paging down a descending
  column it loses every row whose value is null, which the order puts last.
\<close>

theorem expression_loses_nulls:
  "row_after (keyed_entries None desc_cursor) (\<lambda>_. None) \<and>
   (\<exists>c. cursor_cond default_mapper None desc_cursor = Inr (Some c) \<and> eval_cond (\<lambda>_. None) c = Some True) \<and>
   (\<exists>c. cursor_expression Inr (\<lambda>_. Inr) desc_cursor = Inr (Some c) \<and> eval_cond (\<lambda>_. None) c \<noteq> Some True)"
proof (intro conjI)
  show "row_after (keyed_entries None desc_cursor) (\<lambda>_. None)"
    by (simp add: keyed_entries_def cursor_entries_def desc_cursor_def null_less_def)
  show "\<exists>c. cursor_cond default_mapper None desc_cursor = Inr (Some c) \<and> eval_cond (\<lambda>_. None) c = Some True"
    by (simp add: cursor_cond_def desc_cursor_def default_mapper_def at_index_def base_cond_def value_null_def key_column_def)
  show "\<exists>c. cursor_expression Inr (\<lambda>_. Inr) desc_cursor = Inr (Some c) \<and> eval_cond (\<lambda>_. None) c \<noteq> Some True"
    by (simp add: cursor_expression_def desc_cursor_def at_index_def expr_base_def value_null_def cmp3_def)
qed

definition crafted_cursor :: "nat paging_cursor" where
  "crafted_cursor = \<lparr>pc_keys = [''id'', ''1=1) OR (1''], pc_values = [Some 1, Some 1], pc_desc = [False, False],
     pc_rorder = False, pc_lthen = False\<rparr>"

text \<open>
  Only as many keys of a cursor as the sort has are compared with it, and the condition is
  built from all of them: a cursor made by hand puts the text of a further key into the SQL as it
  stands.
\<close>

theorem crafted_key_in_sql:
  "cursor_sort (Some crafted_cursor) [mk_sort ''id'' False] = Inr [mk_sort ''id'' False] \<and>
   (\<exists>pre post args. cursor_to_sql default_mapper (Some [(''id'', ''id'')]) crafted_cursor =
      Inr (pre @ ''1=1) OR (1'' @ post, args))"
proof
  show "cursor_sort (Some crafted_cursor) [mk_sort ''id'' False] = Inr [mk_sort ''id'' False]" by code_simp
  have "cursor_to_sql default_mapper (Some [(''id'', ''id'')]) crafted_cursor =
      Inr (''(((id IS NOT NULL AND FALSE) OR (id > ?)) OR (((id IS NULL AND FALSE) OR id = ?) AND (('' @
        ''1=1) OR (1'' @ '' IS NOT NULL AND FALSE) OR (1=1) OR (1 > ?))))'', [Some 1, Some 1, Some 1])"
    by code_simp
  then show "\<exists>pre post args. cursor_to_sql default_mapper (Some [(''id'', ''id'')]) crafted_cursor =
      Inr (pre @ ''1=1) OR (1'' @ post, args)" by blast
qed

end
