(* ===== verification/StorePage.thy ===== *)
theory StorePage
  imports StoreCursor
begin

text \<open>
  The paged search of the generated store, \<^verbatim>\<open>store/adapters/rdbms/rdbms.gen.go\<close>. Every resource
  has its own copy of the same functions; the model takes what differs, the sortable columns, the
  columns a cursor can be made of and the unique ones, as a \<open>resource\<close>, and the lines it is mapped
  to are those of the first resource (\<open>ApigwFilter\<close>, for which \<open>apigw_filter\<close> gives the record).

  The database is a parameter: \<open>engine\<close> answers a condition, an order and a limit (0 for none).
\<close>

record ('row, 'v) resource =
  rs_sortable :: "(string \<times> string) list"
  rs_column :: "string \<Rightarrow> 'row \<Rightarrow> 'v option"
  rs_collect :: "(string \<times> ('row \<Rightarrow> 'v option)) list"
  rs_unique :: "string list"

type_synonym ('row, 'v) engine = "'v cond option \<Rightarrow> (string \<times> bool) list \<Rightarrow> nat \<Rightarrow> 'row list go_result"

record ('row, 'v) page_filter =
  pf_sort :: "sort_expr list"
  pf_limit :: u64
  pf_cursor :: "'v paging_cursor option"
  pf_prev :: "'v paging_cursor option"
  pf_next :: "'v paging_cursor option"
  pf_check :: "('row \<Rightarrow> bool go_result) option"

definition min_ensure_fetch_limit :: u64 where
  "min_ensure_fetch_limit = 10"

definition max_refetches :: nat where
  "max_refetches = 100"

fun order_by :: "sort_expr list \<Rightarrow> (string \<times> string) list \<Rightarrow> (string \<times> bool) list go_result" where
  "order_by [] sortables = Inr []"
| "order_by (s # ss) sortables =
     (case (if sortables = [] then Some (se_column s) else map_of sortables (to_lower (se_column s))) of
        None \<Rightarrow> Inl (''column is not sortable: '' @ se_column s)
      | Some c \<Rightarrow>
          (case order_by ss sortables of
             Inl e \<Rightarrow> Inl e
           | Inr oo \<Rightarrow> Inr ((c, se_desc s) # oo)))"

text \<open>The loop over the fetched rows: the ones the check function accepts.\<close>

fun check_rows :: "('row \<Rightarrow> bool go_result) option \<Rightarrow> 'row list \<Rightarrow> 'row list go_result" where
  "check_rows chk [] = Inr []"
| "check_rows chk (r # rs) =
     (case (case chk of None \<Rightarrow> Inr True | Some f \<Rightarrow> f r) of
        Inl e \<Rightarrow> Inl e
      | Inr ok \<Rightarrow>
          (case check_rows chk rs of
             Inl e \<Rightarrow> Inl e
           | Inr out \<Rightarrow> Inr (if ok then r # out else out)))"

definition query_page :: "('row, 'v) resource \<Rightarrow> ('row, 'v) engine \<Rightarrow> ('row, 'v) page_filter \<Rightarrow>
    ('row list \<times> bool) go_result" where
  "query_page res engine f =
     (case (case pf_cursor f of None \<Rightarrow> Inr None | Some cur \<Rightarrow> cursor_cond default_mapper (Some (rs_sortable res)) cur) of
        Inl e \<Rightarrow> Inl e
      | Inr cond \<Rightarrow>
          (case order_by (pf_sort f) (rs_sortable res) of
             Inl e \<Rightarrow> Inl e
           | Inr oo \<Rightarrow>
               (case engine cond oo (unat (pf_limit f)) of
                  Inl e \<Rightarrow> Inl e
                | Inr rows \<Rightarrow>
                    (case check_rows (pf_check f) rows of
                       Inl e \<Rightarrow> Inl e
                     | Inr out \<Rightarrow> Inr (out, pf_limit f > 0 \<and> unat (pf_limit f) \<le> length rows)))))"

text \<open>The cursor made of a row: the values of the sort's columns, then the primary key.\<close>

fun collect_columns :: "('row, 'v) resource \<Rightarrow> 'row \<Rightarrow> sort_expr list \<Rightarrow> 'v paging_cursor \<Rightarrow> 'v paging_cursor go_result" where
  "collect_columns res row [] cur = Inr cur"
| "collect_columns res row (c # cc) cur =
     (case map_of (rs_collect res) (se_column c) of
        None \<Rightarrow> collect_columns res row cc cur
      | Some f \<Rightarrow>
          (case cursor_set cur (se_column c) (f row) (se_desc c) of
             Inl e \<Rightarrow> Inl e
           | Inr cur \<Rightarrow> collect_columns res row cc cur))"

definition collect_cursor :: "('row, 'v) resource \<Rightarrow> 'row \<Rightarrow> sort_expr list \<Rightarrow> 'v paging_cursor go_result" where
  "collect_cursor res row cc =
     (case collect_columns res row cc (empty_cursor (sort_reversed cc)) of
        Inl e \<Rightarrow> Inl e
      | Inr cur \<Rightarrow>
          (let has_unique = list_ex (\<lambda>c. se_column c \<in> set (rs_unique res)) cc;
               pk = list_ex (\<lambda>c. se_column c = ''id'') cc
           in if \<not> has_unique \<or> \<not> pk then collect_columns res row [mk_sort ''id'' False] cur else Inr cur))"

text \<open>
  The refetch loop. Each try starts from a copy of the caller's filter, so the cursor the source
  moves to the last row before it continues is dropped: it plays no part here.
\<close>

fun fetch_loop :: "('row, 'v) resource \<Rightarrow> ('row, 'v) engine \<Rightarrow> ('row, 'v) page_filter \<Rightarrow> sort_expr list \<Rightarrow>
    nat \<Rightarrow> u64 \<Rightarrow> 'row list \<Rightarrow> bool \<Rightarrow> ('row list \<times> bool) go_result" where
  "fetch_loop res engine f srt 0 limit rows has = Inr (rows, has)"
| "fetch_loop res engine f srt (Suc tries) limit rows has =
     (case query_page res engine (f\<lparr>pf_sort := srt, pf_limit := (if limit > 0 then limit + 1 else pf_limit f)\<rparr>) of
        Inl e \<Rightarrow> Inl e
      | Inr (aux, has) \<Rightarrow>
          if aux = [] then Inr (rows, has)
          else let rows = rows @ aux; req = pf_limit f; collected = of_nat (length rows)
               in if req = 0 \<or> \<not> has then Inr (rows, has)
                  else if req > collected then
                    (let limit = req - collected;
                         limit = (if limit < min_ensure_fetch_limit then min_ensure_fetch_limit else limit)
                     in fetch_loop res engine f srt tries limit rows has)
                  else Inr (if req < collected then take (unat req) rows else rows, has))"

definition with_cursor :: "bool \<Rightarrow> 'v paging_cursor go_result \<Rightarrow> ('v paging_cursor \<Rightarrow> 'v paging_cursor) \<Rightarrow>
    'v paging_cursor option go_result" where
  "with_cursor b c f = (if b then (case c of Inl e \<Rightarrow> Inl e | Inr c \<Rightarrow> Inr (Some (f c))) else Inr None)"

definition fetch_full_page :: "('row, 'v) resource \<Rightarrow> ('row, 'v) engine \<Rightarrow> ('row, 'v) page_filter \<Rightarrow> sort_expr list \<Rightarrow>
    ('row list \<times> 'v paging_cursor option \<times> 'v paging_cursor option) go_result" where
  "fetch_full_page res engine f srt =
     (case fetch_loop res engine f srt max_refetches (pf_limit f) [] False of
        Inl e \<Rightarrow> Inl e
      | Inr (rows, has_next) \<Rightarrow>
          if rows = [] then Inr ([], None, None)
          else let reversed = (case pf_cursor f of None \<Rightarrow> False | Some c \<Rightarrow> pc_rorder c);
                   has_prev = (pf_cursor f \<noteq> None);
                   (rows, has_prev, has_next) = (if reversed then (rev rows, has_next, has_prev) else (rows, has_prev, has_next))
               in case with_cursor has_prev (collect_cursor res (hd rows) (pf_sort f))
                         (\<lambda>c. c\<lparr>pc_rorder := True, pc_lthen := \<not> sort_reversed (pf_sort f)\<rparr>) of
                    Inl e \<Rightarrow> Inl e
                  | Inr prev \<Rightarrow>
                      (case with_cursor has_next (collect_cursor res (last rows) (pf_sort f))
                              (\<lambda>c. c\<lparr>pc_lthen := sort_reversed (pf_sort f)\<rparr>) of
                         Inl e \<Rightarrow> Inl e
                       | Inr nxt \<Rightarrow> Inr (rows, prev, nxt)))"

definition search_page :: "('row, 'v) resource \<Rightarrow> ('row, 'v) engine \<Rightarrow> ('row, 'v) page_filter \<Rightarrow>
    ('row list \<times> ('row, 'v) page_filter) go_result" where
  "search_page res engine f =
     (let f = f\<lparr>pf_prev := None, pf_next := None\<rparr>
      in case (case pf_cursor f of None \<Rightarrow> Inr (pf_sort f) | Some c \<Rightarrow> cursor_sort (Some c) (pf_sort f)) of
           Inl e \<Rightarrow> Inl e
         | Inr ss \<Rightarrow>
             (let ss = (if sort_get ss ''id'' = None then ss @ [mk_sort ''id'' (sort_last_desc ss)] else ss);
                  f = f\<lparr>pf_sort := ss\<rparr>;
                  srt = sort_clone ss;
                  srt = (case pf_cursor f of None \<Rightarrow> srt | Some c \<Rightarrow> if pc_rorder c then sort_reverse srt else srt)
              in case fetch_full_page res engine f srt of
                   Inl e \<Rightarrow> Inl e
                 | Inr (rows, prev, nxt) \<Rightarrow>
                     Inr (rows, f\<lparr>pf_cursor := None, pf_prev := prev, pf_next := nxt\<rparr>)))"

section \<open>A database\<close>

text \<open>The order a list of columns stands for; nulls are lowest.\<close>

fun row_before :: "(string \<Rightarrow> 'row \<Rightarrow> 'v::linorder option) \<Rightarrow> (string \<times> bool) list \<Rightarrow> 'row \<Rightarrow> 'row \<Rightarrow> bool" where
  "row_before col [] a b \<longleftrightarrow> False"
| "row_before col ((c, desc) # oo) a b \<longleftrightarrow>
     (if desc then null_less (col c b) (col c a) else null_less (col c a) (col c b)) \<or>
     (col c a = col c b \<and> row_before col oo a b)"

text \<open>
  What the search relies on: the answer is the rows that satisfy the condition, each once, in an
  order that never puts a row before a smaller one, cut at the limit.
\<close>

locale sql_engine =
  fixes col :: "string \<Rightarrow> 'row \<Rightarrow> 'v::linorder option" and engine :: "('row, 'v) engine" and content :: "'row list"
  assumes answers: "\<exists>full. mset full = mset (filter (\<lambda>r. case cond of None \<Rightarrow> True
        | Some c \<Rightarrow> eval_cond (\<lambda>k. col k r) c = Some True) content) \<and>
      sorted_wrt (\<lambda>a b. \<not> row_before col oo b a) full \<and>
      engine cond oo limit = Inr (if limit = 0 then full else take limit full)"

fun insert_row :: "('row \<Rightarrow> 'row \<Rightarrow> bool) \<Rightarrow> 'row \<Rightarrow> 'row list \<Rightarrow> 'row list" where
  "insert_row lt r [] = [r]"
| "insert_row lt r (x # xs) = (if lt x r then x # insert_row lt r xs else r # x # xs)"

definition sort_rows :: "('row \<Rightarrow> 'row \<Rightarrow> bool) \<Rightarrow> 'row list \<Rightarrow> 'row list" where
  "sort_rows lt rs = foldr (insert_row lt) rs []"

definition table_engine :: "(string \<Rightarrow> 'row \<Rightarrow> 'v::linorder option) \<Rightarrow> 'row list \<Rightarrow> ('row, 'v) engine" where
  "table_engine col rows cond oo limit =
     (let full = sort_rows (row_before col oo)
           (filter (\<lambda>r. case cond of None \<Rightarrow> True | Some c \<Rightarrow> eval_cond (\<lambda>k. col k r) c = Some True) rows)
      in Inr (if limit = 0 then full else take limit full))"

lemma null_less_irrefl [simp]: "\<not> null_less a a"
  by (cases a) (auto simp: null_less_def)

lemma null_less_trans: "null_less a b \<Longrightarrow> null_less b c \<Longrightarrow> null_less a c"
  by (auto simp: null_less_def split: option.splits)

lemma null_less_total: "null_less a b \<or> a = b \<or> null_less b a"
  by (cases a; cases b) (auto simp: null_less_def)

lemma row_before_irrefl [simp]: "\<not> row_before col oo a a"
  by (induction oo) auto

lemma row_before_trans: "row_before col oo a b \<Longrightarrow> row_before col oo b c \<Longrightarrow> row_before col oo a c"
proof (induction oo)
  case Nil
  then show ?case by simp
next
  case (Cons o1 oo)
  obtain c1 d where "o1 = (c1, d)" by (cases o1)
  with Cons show ?case by (auto intro: null_less_trans split: if_splits)
qed

lemma row_before_asym: "row_before col oo a b \<Longrightarrow> \<not> row_before col oo b a"
  using row_before_trans row_before_irrefl by metis

lemma row_before_cotrans: "\<not> row_before col oo a b \<Longrightarrow> \<not> row_before col oo b c \<Longrightarrow> \<not> row_before col oo a c"
proof (induction oo)
  case Nil
  then show ?case by simp
next
  case (Cons o1 oo)
  obtain c1 d where o: "o1 = (c1, d)" by (cases o1)
  show ?case
    using Cons null_less_total [of "col c1 a" "col c1 b"] null_less_total [of "col c1 b" "col c1 c"]
      null_less_trans [of "col c1 c" "col c1 b" "col c1 a"] null_less_trans [of "col c1 a" "col c1 b" "col c1 c"]
      null_less_trans [of "col c1 a" "col c1 c" "col c1 b"] null_less_trans [of "col c1 b" "col c1 a" "col c1 c"]
    by (auto simp: o split: if_splits) (metis null_less_irrefl null_less_trans)+
qed

lemma insert_row_mset [simp]: "mset (insert_row lt r xs) = add_mset r (mset xs)"
  by (induction xs) auto

lemma sort_rows_mset [simp]: "mset (sort_rows lt xs) = mset xs"
  by (induction xs) (auto simp: sort_rows_def)

lemma insert_row_sorted:
  "sorted_wrt (\<lambda>a b. \<not> row_before col oo b a) xs \<Longrightarrow>
   sorted_wrt (\<lambda>a b. \<not> row_before col oo b a) (insert_row (row_before col oo) r xs)"
proof (induction xs)
  case Nil
  then show ?case by simp
next
  case (Cons x xs)
  have s: "set (insert_row (row_before col oo) r xs) = insert r (set xs)"
    by (metis insert_row_mset set_mset_mset set_mset_add_mset_insert)
  show ?case
    using Cons row_before_asym [of col oo x r] row_before_cotrans [of col oo _ x r] by (auto simp: s)
qed

lemma sort_rows_sorted: "sorted_wrt (\<lambda>a b. \<not> row_before col oo b a) (sort_rows (row_before col oo) xs)"
  by (induction xs) (auto simp: sort_rows_def insert_row_sorted)

interpretation table: sql_engine col "table_engine col rows" rows for col rows
  by unfold_locales (auto simp: table_engine_def Let_def sort_rows_sorted
      intro!: exI [of _ "sort_rows (row_before col _) (filter _ rows)"])

end
