(* ===== verification/StorePageFacts.thy ===== *)
theory StorePageFacts
  imports StorePage
begin

text \<open>
  Paging through a sorted result: the pages that following the cursors gives, and what goes wrong
  when rows are rejected by the check function.
\<close>

section \<open>Sorted lists\<close>

lemma strict_unique:
  assumes "\<And>a. \<not> R a a" and "\<And>a b c. R a b \<Longrightarrow> R b c \<Longrightarrow> R a c"
  shows "sorted_wrt R xs \<Longrightarrow> sorted_wrt R ys \<Longrightarrow> set xs = set ys \<Longrightarrow> xs = ys"
proof (induction xs arbitrary: ys)
  case Nil
  then show ?case by simp
next
  case (Cons x xs)
  then obtain y zs where ys: "ys = y # zs" by (cases ys) auto
  have "x = y"
  proof (rule ccontr)
    assume "x \<noteq> y"
    then have "R x y" "R y x" using Cons.prems ys by auto
    with assms show False by blast
  qed
  moreover have "x \<notin> set xs" "y \<notin> set zs" using Cons.prems(1,2) ys assms(1) by auto
  ultimately have "set xs = set zs" using Cons.prems(3) ys by auto
  with Cons.IH Cons.prems(1,2) ys \<open>x = y\<close> show ?case by simp
qed

lemma filter_after:
  assumes "\<And>a. \<not> R a a" and "\<And>a b c. R a b \<Longrightarrow> R b c \<Longrightarrow> R a c" and "sorted_wrt R xs" and "i < length xs"
  shows "filter (R (xs ! i)) xs = drop (Suc i) xs"
    and "filter (\<lambda>r. R r (xs ! i)) xs = take i xs"
proof -
  have xs: "xs = take i xs @ xs ! i # drop (Suc i) xs" using assms(4) by (rule id_take_nth_drop)
  have s: "\<forall>a \<in> set (take i xs). R a (xs ! i)" "\<forall>b \<in> set (drop (Suc i) xs). R (xs ! i) b"
    using assms(3) by (subst (asm) xs, simp add: sorted_wrt_append)+
  then have n: "\<forall>a \<in> set (take i xs). \<not> R (xs ! i) a" "\<forall>b \<in> set (drop (Suc i) xs). \<not> R b (xs ! i)"
    using assms(1,2) by blast+
  have "filter (R (xs ! i)) (take i xs @ xs ! i # drop (Suc i) xs) = drop (Suc i) xs"
    using s(2) n(1) assms(1) by (simp add: filter_empty_conv filter_id_conv)
  with xs show "filter (R (xs ! i)) xs = drop (Suc i) xs" by simp
  have "filter (\<lambda>r. R r (xs ! i)) (take i xs @ xs ! i # drop (Suc i) xs) = take i xs"
    using s(1) n(2) assms(1) by (simp add: filter_empty_conv filter_id_conv)
  with xs show "filter (\<lambda>r. R r (xs ! i)) xs = take i xs" by simp
qed

section \<open>Cursors of rows\<close>

text \<open>
  What makes a sort pageable on a resource: every column is sortable and collected into cursors
  with the value the database sorts by, no column occurs twice, and the primary key is among them.
\<close>

definition pageable :: "('row, 'v) resource \<Rightarrow> sort_expr list \<Rightarrow> bool" where
  "pageable res ss \<longleftrightarrow>
     distinct (map se_column ss) \<and> ''id'' \<in> se_column ` set ss \<and> rs_sortable res \<noteq> [] \<and>
     list_all (\<lambda>e. map_of (rs_sortable res) (to_lower (se_column e)) \<noteq> None \<and>
       map_of (rs_collect res) (se_column e) =
         Some (rs_column res (key_column (Some (rs_sortable res)) (se_column e)))) ss"

definition full_sort :: "sort_expr list \<Rightarrow> sort_expr list" where
  "full_sort us = (if sort_get us ''id'' = None then us @ [mk_sort ''id'' (sort_last_desc us)] else us)"

definition sort_order :: "('row, 'v) resource \<Rightarrow> sort_expr list \<Rightarrow> (string \<times> bool) list" where
  "sort_order res ss = map (\<lambda>e. (key_column (Some (rs_sortable res)) (se_column e), se_desc e)) ss"

definition row_cursor :: "('row, 'v) resource \<Rightarrow> sort_expr list \<Rightarrow> 'row \<Rightarrow> 'v paging_cursor" where
  "row_cursor res ss row =
     \<lparr>pc_keys = map se_column ss,
      pc_values = map (\<lambda>e. rs_column res (key_column (Some (rs_sortable res)) (se_column e)) row) ss,
      pc_desc = map se_desc ss, pc_rorder = False, pc_lthen = sort_reversed ss\<rparr>"

lemma row_cursor_wf [simp]: "cursor_wf (row_cursor res ss row)"
  by (simp add: row_cursor_def cursor_wf_def)

lemma find_key_None:
  "find (\<lambda>i. ks ! i = k) [0..<length ks] = None \<longleftrightarrow> k \<notin> set ks"
  by (auto simp: find_None_iff in_set_conv_nth)

lemma collect_columns_new:
  assumes "list_all (\<lambda>e. map_of (rs_collect res) (se_column e) =
      Some (rs_column res (key_column (Some (rs_sortable res)) (se_column e)))) ss"
    and "distinct (map se_column ss)" and "set (pc_keys cur) \<inter> se_column ` set ss = {}"
  shows "collect_columns res row ss cur = Inr (cur\<lparr>pc_keys := pc_keys cur @ pc_keys (row_cursor res ss row),
     pc_values := pc_values cur @ pc_values (row_cursor res ss row),
     pc_desc := pc_desc cur @ pc_desc (row_cursor res ss row)\<rparr>)"
  using assms
proof (induction ss arbitrary: cur)
  case Nil
  then show ?case by (simp add: row_cursor_def)
next
  case (Cons e ss)
  have "find (\<lambda>i. pc_keys cur ! i = se_column e) [0..<length (pc_keys cur)] = None"
    using Cons.prems(3) by (simp add: find_key_None)
  with Cons show ?case by (auto simp: cursor_set_def row_cursor_def)
qed

lemma collect_columns_again:
  assumes "map_of (rs_collect res) (se_column e) = Some f" and "cursor_wf cur" and "distinct (pc_keys cur)"
    and "i < length (pc_keys cur)" and "pc_keys cur ! i = se_column e" and "pc_values cur ! i = f row"
  shows "collect_columns res row [e] cur = Inr cur"
proof -
  have "find (\<lambda>j. pc_keys cur ! j = se_column e) [0..<length (pc_keys cur)] = Some i"
    using assms(3-5) nth_eq_iff_index_eq [OF assms(3)]
    by (auto simp: find_Some_iff intro!: exI [of _ i]) (metis less_irrefl less_trans)
  with assms(1,2,4,6) show ?thesis
    by (simp add: cursor_set_def cursor_wf_def list_update_same_conv [THEN iffD2])
qed

lemma collect_cursor_row:
  assumes "pageable res ss"
  shows "collect_cursor res row ss = Inr (row_cursor res ss row)"
proof -
  have col: "list_all (\<lambda>e. map_of (rs_collect res) (se_column e) =
      Some (rs_column res (key_column (Some (rs_sortable res)) (se_column e)))) ss"
    and d: "distinct (map se_column ss)"
    using assms by (auto simp: pageable_def list_all_iff)
  have 1: "collect_columns res row ss (empty_cursor (sort_reversed ss)) = Inr (row_cursor res ss row)"
    using collect_columns_new [OF col d, of "empty_cursor (sort_reversed ss)" row]
    by (simp add: empty_cursor_def row_cursor_def)
  obtain i where i: "i < length ss" "se_column (ss ! i) = ''id''"
    using assms by (auto simp: pageable_def in_set_conv_nth)
  let ?e = "mk_sort ''id'' False"
  have "map_of (rs_collect res) ''id'' = Some (rs_column res (key_column (Some (rs_sortable res)) ''id''))"
    using col i(1) by (simp add: list_all_length flip: i(2))
  then have "collect_columns res row [?e] (row_cursor res ss row) = Inr (row_cursor res ss row)"
    using i d by (intro collect_columns_again [where i = i]) (simp_all add: row_cursor_def cursor_wf_def)
  with 1 show ?thesis by (simp add: collect_cursor_def Let_def)
qed

lemma order_by_pageable:
  "pageable res ss \<Longrightarrow> order_by ss (rs_sortable res) = Inr (sort_order res ss)"
proof -
  assume a: "pageable res ss"
  have "list_all (\<lambda>e. map_of m (to_lower (se_column e)) \<noteq> None) ss \<Longrightarrow> m \<noteq> [] \<Longrightarrow>
      order_by ss m = Inr (map (\<lambda>e. (key_column (Some m) (se_column e), se_desc e)) ss)" for m
    by (induction ss) (auto simp: key_column_def)
  with a show ?thesis by (auto simp: pageable_def sort_order_def list_all_iff)
qed

lemma row_after_cursor:
  "row_after (map (\<lambda>e. (kc (se_column e), col (kc (se_column e)) a, se_desc e \<noteq> bwd)) ss) (\<lambda>k. col k b) \<longleftrightarrow>
   (if bwd then row_before col (map (\<lambda>e. (kc (se_column e), se_desc e)) ss) b a
    else row_before col (map (\<lambda>e. (kc (se_column e), se_desc e)) ss) a b)"
  by (induction ss) auto

lemma keyed_row_cursor:
  "keyed_entries (Some (rs_sortable res)) ((row_cursor res ss row)\<lparr>pc_rorder := bwd, pc_lthen := lt\<rparr>) =
   map (\<lambda>e. (key_column (Some (rs_sortable res)) (se_column e),
      rs_column res (key_column (Some (rs_sortable res)) (se_column e)) row, se_desc e \<noteq> bwd)) ss"
  by (simp add: keyed_entries_def cursor_entries_def row_cursor_def zip_map_map map_zip_map comp_def
      zip_same_conv_map)

lemma row_before_flip: "row_before col (map (\<lambda>(c, d). (c, \<not> d)) oo) a b = row_before col oo b a"
  by (induction oo) auto

section \<open>Pages\<close>

lemma check_rows_none [simp]: "check_rows None rows = Inr rows"
  by (induction rows) auto

text \<open>With every row accepted one try is enough, and it returns the first \<open>limit\<close> of the rows.\<close>

lemma fetch_loop_plain:
  assumes "pf_check f = None" and "0 < pf_limit f" and "unat (pf_limit f) < 2 ^ 64 - 1"
    and "(case pf_cursor f of None \<Rightarrow> Inr None | Some c \<Rightarrow> cursor_cond default_mapper (Some (rs_sortable res)) c) = Inr cond"
    and "order_by srt (rs_sortable res) = Inr oo"
    and "engine cond oo (Suc (unat (pf_limit f))) = Inr (take (Suc (unat (pf_limit f))) rows)"
  shows "fetch_loop res engine f srt (Suc tries) (pf_limit f) [] False =
    Inr (take (unat (pf_limit f)) rows, unat (pf_limit f) < length rows)"
proof -
  let ?L = "unat (pf_limit f)"
  have L: "unat (pf_limit f + 1) = Suc ?L" "0 < ?L"
    using assms(2,3) by (simp_all add: unat_plus_if_size word_size word_less_nat_alt)
  then have g: "(0 :: u64) < pf_limit f + 1" by (simp add: word_less_nat_alt)
  let ?aux = "take (Suc ?L) rows"
  have q: "query_page res engine (f\<lparr>pf_sort := srt, pf_limit := pf_limit f + 1\<rparr>) =
      Inr (?aux, ?L < length rows)"
    using assms(1,4,5,6) L g by (simp add: query_page_def Suc_le_eq)
  show ?thesis
  proof (cases "rows = []")
    case True
    with q assms(2) show ?thesis by simp
  next
    case False
    have aux: "?aux \<noteq> []" using False by simp
    show ?thesis
    proof (cases "?L < length rows")
      case False
      with q assms(2) aux show ?thesis by (simp add: Let_def)
    next
      case True
      have "unat (of_nat (length ?aux) :: u64) = Suc ?L"
        using True L(1) by (simp add: add.commute)
      then have lt: "pf_limit f < of_nat (length ?aux)" by (simp add: word_less_nat_alt)
      then have "\<not> of_nat (length ?aux) < pf_limit f" by simp
      moreover have "pf_limit f \<noteq> 0" using assms(2) by simp
      ultimately show ?thesis
        using q aux True lt assms(2) unfolding fetch_loop.simps by (simp only: Let_def) simp
    qed
  qed
qed

context sql_engine
begin

lemma engine_sorted:
  assumes "sorted_wrt (row_before col oo) S" and "set S = set content" and "distinct content"
    and "\<And>r. r \<in> set content \<Longrightarrow> P r \<longleftrightarrow> (case cond of None \<Rightarrow> True | Some c \<Rightarrow> eval_cond (\<lambda>k. col k r) c = Some True)"
    and "0 < n"
  shows "engine cond oo n = Inr (take n (filter P S))"
proof -
  let ?Q = "\<lambda>r. case cond of None \<Rightarrow> True | Some c \<Rightarrow> eval_cond (\<lambda>k. col k r) c = Some True"
  obtain full where full: "mset full = mset (filter ?Q content)"
    "sorted_wrt (\<lambda>a b. \<not> row_before col oo b a) full" "engine cond oo n = Inr (if n = 0 then full else take n full)"
    using answers [of cond oo n] by (elim exE conjE)
  have st: "set full = set (filter P S)"
  proof -
    have "set full = {r \<in> set content. ?Q r}" using mset_eq_setD [OF full(1)] by simp
    then show ?thesis using assms(2,4) by auto
  qed
  have df: "distinct full"
    using mset_eq_imp_distinct_iff [OF full(1)] assms(3) by simp
  have tot: "row_before col oo a b \<or> row_before col oo b a" if "a \<in> set S" "b \<in> set S" "a \<noteq> b" for a b
  proof -
    note ab = that
    obtain i j where ij: "i < length S" "j < length S" "a = S ! i" "b = S ! j"
      using ab(1,2) by (auto simp: in_set_conv_nth)
    with ab(3) have "i \<noteq> j" by blast
    then have "i < j \<or> j < i" by linarith
    with ij assms(1) show ?thesis by (auto simp: sorted_wrt_iff_nth_less)
  qed
  have "sorted_wrt (row_before col oo) full"
    unfolding sorted_wrt_iff_nth_less
  proof (intro allI impI)
    fix i j assume ij: "i < j" "j < length full"
    have "full ! i \<noteq> full ! j" using ij df by (simp add: nth_eq_iff_index_eq)
    moreover have "full ! i \<in> set full" "full ! j \<in> set full" using ij by simp_all
    then have "full ! i \<in> set S" "full ! j \<in> set S" unfolding st by simp_all
    moreover have "\<not> row_before col oo (full ! j) (full ! i)"
      using full(2) ij by (simp add: sorted_wrt_iff_nth_less)
    ultimately show "row_before col oo (full ! i) (full ! j)" using tot by blast
  qed
  moreover note sorted_wrt_filter [OF assms(1), of P]
  ultimately have "full = filter P S"
    using st by (rule strict_unique [where R = "row_before col oo", rotated 2])
      (simp, erule row_before_trans)
  with full(3) assms(5) show ?thesis by simp
qed

end

text \<open>The rows of a search in the order of a sort that makes them all comparable.\<close>

definition listing :: "('row, 'v::linorder) resource \<Rightarrow> sort_expr list \<Rightarrow> 'row list \<Rightarrow> 'row list \<Rightarrow> bool" where
  "listing res ss content S \<longleftrightarrow>
     sorted_wrt (row_before (rs_column res) (sort_order res ss)) S \<and> set S = set content \<and> distinct content"

definition page_request :: "('row, 'v) page_filter \<Rightarrow> bool" where
  "page_request f \<longleftrightarrow> pf_check f = None \<and> 0 < pf_limit f \<and> unat (pf_limit f) < 2 ^ 64 - 1"

definition prev_cursor :: "('row, 'v) resource \<Rightarrow> sort_expr list \<Rightarrow> 'row \<Rightarrow> 'v paging_cursor" where
  "prev_cursor res ss row = (row_cursor res ss row)\<lparr>pc_rorder := True, pc_lthen := \<not> sort_reversed ss\<rparr>"

lemma row_cursor_cond:
  assumes "pageable res ss"
  shows "\<exists>c. cursor_cond default_mapper (Some (rs_sortable res))
      ((row_cursor res ss a)\<lparr>pc_rorder := bwd, pc_lthen := lt\<rparr>) = Inr (Some c) \<and>
    (\<forall>b. eval_cond (\<lambda>k. rs_column res k b) c = Some True \<longleftrightarrow>
      (if bwd then row_before (rs_column res) (sort_order res ss) b a
       else row_before (rs_column res) (sort_order res ss) a b))"
proof -
  let ?cur = "(row_cursor res ss a)\<lparr>pc_rorder := bwd, pc_lthen := lt\<rparr>"
  have wf: "cursor_wf ?cur" "pc_keys ?cur \<noteq> []"
    using assms by (auto simp: row_cursor_def cursor_wf_def pageable_def)
  obtain c where c: "cursor_cond default_mapper (Some (rs_sortable res)) ?cur = Inr (Some c)"
    using cursor_cond_exists [OF wf] by blast
  have "eval_cond (\<lambda>k. rs_column res k b) c = Some True \<longleftrightarrow>
      row_after (keyed_entries (Some (rs_sortable res)) ?cur) (\<lambda>k. rs_column res k b)" for b
    using cursor_cond_exists [OF wf, of "Some (rs_sortable res)" "\<lambda>k. rs_column res k b"] c by auto
  then have "eval_cond (\<lambda>k. rs_column res k b) c = Some True \<longleftrightarrow>
      (if bwd then row_before (rs_column res) (sort_order res ss) b a
       else row_before (rs_column res) (sort_order res ss) a b)" for b
    by (simp only: keyed_row_cursor row_after_cursor sort_order_def)
  with c show ?thesis by blast
qed

lemma order_reverse:
  "pageable res ss \<Longrightarrow> order_by (sort_reverse ss) (rs_sortable res) = Inr (map (\<lambda>(c, d). (c, \<not> d)) (sort_order res ss))"
proof -
  assume a: "pageable res ss"
  then have "pageable res (sort_reverse ss)"
    by (auto simp: pageable_def sort_reverse_def comp_def list_all_iff image_image)
  from order_by_pageable [OF this] show ?thesis
    by (simp add: sort_order_def sort_reverse_def comp_def)
qed

lemma fetch_first:
  assumes "sql_engine (rs_column res) engine content" and "pageable res ss" and "listing res ss content S"
    and "page_request f" and "pf_cursor f = None"
  shows "fetch_loop res engine f ss max_refetches (pf_limit f) [] False =
    Inr (take (unat (pf_limit f)) S, unat (pf_limit f) < length S)"
proof -
  have "engine None (sort_order res ss) (Suc (unat (pf_limit f))) = Inr (take (Suc (unat (pf_limit f))) (filter (\<lambda>_. True) S))"
    by (rule sql_engine.engine_sorted [OF assms(1)]) (use assms(3) in \<open>simp_all add: listing_def\<close>)
  then show ?thesis
    using fetch_loop_plain [of f res None ss "sort_order res ss" engine S 99] assms(4,5) order_by_pageable [OF assms(2)]
    by (simp add: page_request_def max_refetches_def del: fetch_loop.simps)
qed

lemma fetch_forward:
  assumes "sql_engine (rs_column res) engine content" and "pageable res ss" and "listing res ss content S"
    and "page_request f" and "pf_cursor f = Some (row_cursor res ss (S ! i))" and "i < length S"
  shows "fetch_loop res engine f ss max_refetches (pf_limit f) [] False =
    Inr (take (unat (pf_limit f)) (drop (Suc i) S), unat (pf_limit f) < length S - Suc i)"
proof -
  let ?R = "row_before (rs_column res) (sort_order res ss)"
  obtain c where c: "cursor_cond default_mapper (Some (rs_sortable res)) (row_cursor res ss (S ! i)) = Inr (Some c)"
    "\<And>b. eval_cond (\<lambda>k. rs_column res k b) c = Some True \<longleftrightarrow> ?R (S ! i) b"
    using row_cursor_cond [OF assms(2), where a = "S ! i" and bwd = False and lt = "sort_reversed ss"] by (auto simp: row_cursor_def)
  have "engine (Some c) (sort_order res ss) (Suc (unat (pf_limit f))) =
      Inr (take (Suc (unat (pf_limit f))) (filter (?R (S ! i)) S))"
    by (rule sql_engine.engine_sorted [OF assms(1)]) (use assms(3) in \<open>simp_all add: listing_def c(2)\<close>)
  moreover have "filter (?R (S ! i)) S = drop (Suc i) S"
    using assms(3,6) filter_after(1) [of ?R, OF row_before_irrefl row_before_trans] by (simp add: listing_def)
  ultimately show ?thesis
    using fetch_loop_plain [of f res "Some c" ss "sort_order res ss" engine "drop (Suc i) S" 99] assms(4,5)
      order_by_pageable [OF assms(2)] c(1)
    by (simp add: page_request_def max_refetches_def del: fetch_loop.simps)
qed

lemma fetch_backward:
  assumes "sql_engine (rs_column res) engine content" and "pageable res ss" and "listing res ss content S"
    and "page_request f" and "pf_cursor f = Some (prev_cursor res ss (S ! i))" and "i < length S"
  shows "fetch_loop res engine f (sort_reverse ss) max_refetches (pf_limit f) [] False =
    Inr (take (unat (pf_limit f)) (rev (take i S)), unat (pf_limit f) < i)"
proof -
  let ?R = "row_before (rs_column res) (sort_order res ss)"
  let ?oo = "map (\<lambda>(c, d). (c, \<not> d)) (sort_order res ss)"
  obtain c where c: "cursor_cond default_mapper (Some (rs_sortable res)) (prev_cursor res ss (S ! i)) = Inr (Some c)"
    "\<And>b. eval_cond (\<lambda>k. rs_column res k b) c = Some True \<longleftrightarrow> ?R b (S ! i)"
    using row_cursor_cond [OF assms(2), where a = "S ! i" and bwd = True] by (auto simp: prev_cursor_def)
  have "engine (Some c) ?oo (Suc (unat (pf_limit f))) =
      Inr (take (Suc (unat (pf_limit f))) (filter (\<lambda>b. ?R b (S ! i)) (rev S)))"
    by (rule sql_engine.engine_sorted [OF assms(1)])
       (use assms(3) in \<open>simp_all add: listing_def c(2) sorted_wrt_rev row_before_flip\<close>)
  moreover have "filter (\<lambda>b. ?R b (S ! i)) (rev S) = rev (take i S)"
    using assms(3,6) filter_after(2) [of ?R, OF row_before_irrefl row_before_trans]
    by (simp add: listing_def rev_filter [symmetric])
  ultimately show ?thesis
    using fetch_loop_plain [of f res "Some c" "sort_reverse ss" ?oo engine "rev (take i S)" 99] assms(4,5,6)
      order_reverse [OF assms(2)] c(1)
    by (simp add: page_request_def max_refetches_def del: fetch_loop.simps)
qed

section \<open>Searches\<close>

lemma full_sort_id [simp]: "sort_get (full_sort us) ''id'' \<noteq> None"
  by (auto simp: full_sort_def sort_get_def find_None_iff)

lemma full_sort_again [simp]: "full_sort (full_sort us) = full_sort us"
  using full_sort_id [of us] by (simp add: full_sort_def [of "full_sort us"])

lemma sort_from_cursor_map:
  "sort_from_cursor (map se_desc (pre @ ss)) (length pre) (map se_column ss) acc = Inr (acc @ ss)"
proof (induction ss arbitrary: pre acc)
  case Nil
  then show ?case by simp
next
  case (Cons e ss)
  from Cons.IH [of "pre @ [e]" "acc @ [e]"] show ?case by (simp add: at_index_def nth_append)
qed

lemma sort_matches_prefix: "sort_matches (map se_column us @ ks) (map se_desc us @ ds) us = Inr True"
  by (induction us) auto

text \<open>The sort of a request and the cursor of an earlier page of it agree on the full sort.\<close>

lemma cursor_sort_full:
  assumes "pc_keys cur = map se_column (full_sort us)" and "pc_desc cur = map se_desc (full_sort us)"
  shows "\<exists>us'. cursor_sort (Some cur) us = Inr us' \<and> full_sort us' = full_sort us"
proof (cases "us = []")
  case True
  with sort_from_cursor_map [of "[]" "full_sort us" "[]"] assms show ?thesis
    by (intro exI [of _ "full_sort us"]) (simp add: cursor_sort_def)
next
  case False
  have "\<exists>ts. full_sort us = us @ ts" by (simp add: full_sort_def)
  then obtain ts where ts: "full_sort us = us @ ts" ..
  with sort_matches_prefix [of us "map se_column ts" "map se_desc ts"] False assms show ?thesis
    by (intro exI [of _ us]) (simp add: cursor_sort_def)
qed

lemma search_unfold:
  assumes "(case pf_cursor f of None \<Rightarrow> Inr (pf_sort f) | Some c \<Rightarrow> cursor_sort (Some c) (pf_sort f)) = Inr us'"
    and "full_sort us' = ss"
  shows "search_page res engine f =
    (case fetch_full_page res engine (f\<lparr>pf_prev := None, pf_next := None, pf_sort := ss\<rparr>)
         (case pf_cursor f of None \<Rightarrow> ss | Some c \<Rightarrow> if pc_rorder c then sort_reverse ss else ss) of
       Inl e \<Rightarrow> Inl e
     | Inr (rows, prev, nxt) \<Rightarrow>
         Inr (rows, f\<lparr>pf_sort := ss, pf_cursor := None, pf_prev := prev, pf_next := nxt\<rparr>))"
  using assms
  by (cases "pf_cursor f")
     (simp_all add: search_page_def full_sort_def Let_def split: sum.split prod.split cong: if_cong)

lemma page_request_upd [simp]:
  "page_request (f\<lparr>pf_prev := a, pf_next := b, pf_sort := c\<rparr>) = page_request f"
  "page_request (f\<lparr>pf_cursor := d\<rparr>) = page_request f"
  by (simp_all add: page_request_def)

lemma fetch_full_forward:
  assumes "fetch_loop res engine f srt max_refetches (pf_limit f) [] False =
      Inr (take (unat (pf_limit f)) T, unat (pf_limit f) < length T)"
    and "pageable res (pf_sort f)" and "page_request f"
    and "case pf_cursor f of None \<Rightarrow> True | Some c \<Rightarrow> \<not> pc_rorder c"
  shows "\<exists>prev. fetch_full_page res engine f srt = Inr (take (unat (pf_limit f)) T, prev,
    if unat (pf_limit f) < length T then Some (row_cursor res (pf_sort f) (T ! (unat (pf_limit f) - 1))) else None)"
proof -
  let ?L = "unat (pf_limit f)"
  have L: "0 < ?L" using assms(3) by (simp add: page_request_def word_less_nat_alt)
  have last: "last (take ?L T) = T ! (?L - 1)" if "?L < length T"
    using that L by (subst last_conv_nth) auto
  show ?thesis
  proof (cases "take ?L T = []")
    case True
    with assms(1) L show ?thesis by (auto simp: fetch_full_page_def)
  next
    case False
    with assms(1,4) last show ?thesis
      by (cases "pf_cursor f") (auto simp: fetch_full_page_def with_cursor_def Let_def
          collect_cursor_row [OF assms(2)] row_cursor_def)
  qed
qed

lemma search_first:
  assumes "sql_engine (rs_column res) engine content" and "pageable res (full_sort (pf_sort f))"
    and "listing res (full_sort (pf_sort f)) content S" and "page_request f" and "pf_cursor f = None"
  shows "\<exists>g. search_page res engine f = Inr (take (unat (pf_limit f)) S, g) \<and>
    pf_next g = (if unat (pf_limit f) < length S
      then Some (row_cursor res (full_sort (pf_sort f)) (S ! (unat (pf_limit f) - 1))) else None)"
proof -
  let ?ss = "full_sort (pf_sort f)"
  let ?f = "f\<lparr>pf_prev := None, pf_next := None, pf_sort := ?ss\<rparr>"
  have "fetch_loop res engine ?f ?ss max_refetches (pf_limit ?f) [] False =
      Inr (take (unat (pf_limit ?f)) S, unat (pf_limit ?f) < length S)"
    by (rule fetch_first [OF assms(1-3)]) (use assms(4,5) in simp_all)
  from fetch_full_forward [OF this] assms(2,4,5) obtain prev where
    "fetch_full_page res engine ?f ?ss = Inr (take (unat (pf_limit f)) S, prev,
      if unat (pf_limit f) < length S then Some (row_cursor res ?ss (S ! (unat (pf_limit f) - 1))) else None)"
    by auto
  with search_unfold [of f "pf_sort f" ?ss res engine] assms(5) show ?thesis by simp
qed

lemma search_next:
  assumes "sql_engine (rs_column res) engine content" and "pageable res (full_sort (pf_sort f))"
    and "listing res (full_sort (pf_sort f)) content S" and "page_request f"
    and "pf_cursor f = Some (row_cursor res (full_sort (pf_sort f)) (S ! i))" and "i < length S"
  shows "\<exists>g. search_page res engine f = Inr (take (unat (pf_limit f)) (drop (Suc i) S), g) \<and>
    pf_next g = (if unat (pf_limit f) < length S - Suc i
      then Some (row_cursor res (full_sort (pf_sort f)) (S ! (i + unat (pf_limit f)))) else None)"
proof -
  let ?ss = "full_sort (pf_sort f)" and ?L = "unat (pf_limit f)"
  let ?f = "f\<lparr>pf_prev := None, pf_next := None, pf_sort := ?ss\<rparr>"
  have L: "0 < ?L" using assms(4) by (simp add: page_request_def word_less_nat_alt)
  obtain us' where us: "cursor_sort (pf_cursor f) (pf_sort f) = Inr us'" "full_sort us' = ?ss"
    using cursor_sort_full [of "row_cursor res ?ss (S ! i)" "pf_sort f"] assms(5) by (auto simp: row_cursor_def)
  have "fetch_loop res engine ?f ?ss max_refetches (pf_limit ?f) [] False =
      Inr (take (unat (pf_limit ?f)) (drop (Suc i) S), unat (pf_limit ?f) < length (drop (Suc i) S))"
    using fetch_forward [OF assms(1-3), of ?f i] assms(4-6) by simp
  from fetch_full_forward [OF this] assms(2,4,5) obtain prev where
    "fetch_full_page res engine ?f ?ss = Inr (take ?L (drop (Suc i) S), prev,
      if ?L < length (drop (Suc i) S) then Some (row_cursor res ?ss (drop (Suc i) S ! (?L - 1))) else None)"
    by (auto simp: row_cursor_def)
  moreover have "drop (Suc i) S ! (?L - 1) = S ! (i + ?L)" if "?L < length S - Suc i"
    using that L by (simp add: nth_drop)
  ultimately show ?thesis
    using search_unfold [of f us' ?ss res engine] us assms(5) by (auto simp: row_cursor_def)
qed

section \<open>Following the cursors\<close>

text \<open>A client that asks for the next page as long as there is a cursor for it.\<close>

fun follow_pages :: "('row, 'v) resource \<Rightarrow> ('row, 'v) engine \<Rightarrow> ('row, 'v) page_filter \<Rightarrow> nat \<Rightarrow> 'row list go_result" where
  "follow_pages res engine f 0 = Inr []"
| "follow_pages res engine f (Suc n) =
     (case search_page res engine f of
        Inl e \<Rightarrow> Inl e
      | Inr (rows, g) \<Rightarrow>
          (case pf_next g of
             None \<Rightarrow> Inr rows
           | Some c \<Rightarrow>
               (case follow_pages res engine (f\<lparr>pf_cursor := Some c\<rparr>) n of
                  Inl e \<Rightarrow> Inl e
                | Inr rest \<Rightarrow> Inr (rows @ rest))))"

lemma follow_rest:
  assumes "sql_engine (rs_column res) engine content" and "pageable res (full_sort (pf_sort f))"
    and "listing res (full_sort (pf_sort f)) content S" and "page_request f"
  shows "i < length S \<Longrightarrow> length S - Suc i < n \<Longrightarrow>
    follow_pages res engine (f\<lparr>pf_cursor := Some (row_cursor res (full_sort (pf_sort f)) (S ! i))\<rparr>) n =
      Inr (drop (Suc i) S)"
proof (induction n arbitrary: i)
  case 0
  then show ?case by simp
next
  case (Suc n)
  let ?L = "unat (pf_limit f)"
  have L: "0 < ?L" using assms(4) by (simp add: page_request_def word_less_nat_alt)
  let ?f = "f\<lparr>pf_cursor := Some (row_cursor res (full_sort (pf_sort f)) (S ! i))\<rparr>"
  obtain g where g: "search_page res engine ?f = Inr (take ?L (drop (Suc i) S), g)"
    "pf_next g = (if ?L < length S - Suc i
      then Some (row_cursor res (full_sort (pf_sort f)) (S ! (i + ?L))) else None)"
    using search_next [OF assms(1), of ?f S i] assms(2-4) Suc.prems(1) by auto
  show ?case
  proof (cases "?L < length S - Suc i")
    case True
    have "follow_pages res engine (f\<lparr>pf_cursor := Some (row_cursor res (full_sort (pf_sort f)) (S ! (i + ?L)))\<rparr>) n =
        Inr (drop (Suc (i + ?L)) S)"
      using Suc.IH [of "i + ?L"] Suc.prems True L by simp
    moreover have "take ?L (drop (Suc i) S) @ drop (Suc (i + ?L)) S = drop (Suc i) S"
      using append_take_drop_id [of ?L "drop (Suc i) S"] by (simp add: add.commute)
    ultimately show ?thesis using g True by simp
  next
    case False
    with g show ?thesis by simp
  qed
qed

lemma follow_all:
  assumes "sql_engine (rs_column res) engine content" and "pageable res (full_sort (pf_sort f))"
    and "listing res (full_sort (pf_sort f)) content S" and "page_request f" and "pf_cursor f = None"
    and "length S < n"
  shows "follow_pages res engine f n = Inr S"
proof -
  let ?L = "unat (pf_limit f)"
  have L: "0 < ?L" using assms(4) by (simp add: page_request_def word_less_nat_alt)
  obtain m where n: "n = Suc m" using assms(6) by (cases n) auto
  obtain g where g: "search_page res engine f = Inr (take ?L S, g)"
    "pf_next g = (if ?L < length S then Some (row_cursor res (full_sort (pf_sort f)) (S ! (?L - 1))) else None)"
    using search_first [OF assms(1-5)] by blast
  show ?thesis
  proof (cases "?L < length S")
    case True
    have "follow_pages res engine (f\<lparr>pf_cursor := Some (row_cursor res (full_sort (pf_sort f)) (S ! (?L - 1)))\<rparr>) m =
        Inr (drop (Suc (?L - 1)) S)"
      using follow_rest [OF assms(1-4), of "?L - 1" m] True L n assms(6) by simp
    with g True n L show ?thesis by simp
  next
    case False
    with g n show ?thesis by simp
  qed
qed


text \<open>
  The previous-page cursor of the page that starts at row \<open>i\<close> gives the rows just before it,
  in the same order as when paging forward.
\<close>

theorem previous_page:
  assumes "sql_engine (rs_column res) engine content" and "pageable res (full_sort (pf_sort f))"
    and "listing res (full_sort (pf_sort f)) content S" and "page_request f"
    and "pf_cursor f = Some (prev_cursor res (full_sort (pf_sort f)) (S ! i))" and "i < length S"
  shows "\<exists>g. search_page res engine f = Inr (drop (i - unat (pf_limit f)) (take i S), g) \<and>
    (pf_prev g \<noteq> None \<longleftrightarrow> unat (pf_limit f) < i)"
proof -
  let ?ss = "full_sort (pf_sort f)" and ?L = "unat (pf_limit f)"
  let ?f = "f\<lparr>pf_prev := None, pf_next := None, pf_sort := ?ss\<rparr>"
  have L: "0 < ?L" using assms(4) by (simp add: page_request_def word_less_nat_alt)
  obtain us' where us: "cursor_sort (pf_cursor f) (pf_sort f) = Inr us'" "full_sort us' = ?ss"
    using cursor_sort_full [of "prev_cursor res ?ss (S ! i)" "pf_sort f"] assms(5)
    by (auto simp: row_cursor_def prev_cursor_def)
  have fl: "fetch_loop res engine ?f (sort_reverse ?ss) max_refetches (pf_limit ?f) [] False =
      Inr (take ?L (rev (take i S)), ?L < i)"
    using fetch_backward [OF assms(1-3), of ?f i] assms(4-6) by simp
  have rows: "rev (take ?L (rev (take i S))) = drop (i - ?L) (take i S)"
    using assms(6) by (simp add: take_rev min_def)
  have "\<exists>prev nxt. fetch_full_page res engine ?f (sort_reverse ?ss) =
      Inr (drop (i - ?L) (take i S), prev, nxt) \<and> (prev \<noteq> None \<longleftrightarrow> ?L < i)"
  proof (cases "i = 0")
    case True
    with fl show ?thesis by (simp add: fetch_full_page_def)
  next
    case False
    then have "take ?L (rev (take i S)) \<noteq> []" using L assms(6) by auto
    with fl rows assms(2,5) show ?thesis
      by (auto simp: fetch_full_page_def Let_def prev_cursor_def with_cursor_def collect_cursor_row)
  qed
  with search_unfold [of f us' ?ss res engine] us assms(5) show ?thesis
    by (auto simp: prev_cursor_def)
qed

section \<open>A resource\<close>

text \<open>The first resource of the generated file, over numbers for identifiers and time stamps.\<close>

record stamped =
  st_id :: nat
  st_created :: nat
  st_updated :: "nat option"
  st_deleted :: "nat option"

definition apigw_sortable :: "(string \<times> string) list" where
  "apigw_sortable =
    [(''created_at'', ''created_at''), (''createdat'', ''created_at''), (''deleted_at'', ''deleted_at''),
     (''deletedat'', ''deleted_at''), (''id'', ''id''), (''updated_at'', ''updated_at''),
     (''updatedat'', ''updated_at'')]"

definition apigw_column :: "string \<Rightarrow> stamped \<Rightarrow> nat option" where
  "apigw_column c r =
    (if c = ''id'' then Some (st_id r) else if c = ''created_at'' then Some (st_created r)
     else if c = ''updated_at'' then st_updated r else if c = ''deleted_at'' then st_deleted r else None)"

definition apigw_filter :: "(stamped, nat) resource" where
  "apigw_filter =
     \<lparr>rs_sortable = apigw_sortable, rs_column = apigw_column,
      rs_collect = [(''id'', apigw_column ''id''), (''createdAt'', apigw_column ''created_at''),
        (''updatedAt'', apigw_column ''updated_at''), (''deletedAt'', apigw_column ''deleted_at'')],
      rs_unique = []\<rparr>"

definition demo_row :: "nat \<Rightarrow> nat option \<Rightarrow> stamped" where
  "demo_row i u = \<lparr>st_id = i, st_created = 10, st_updated = u, st_deleted = None\<rparr>"

definition demo_rows :: "stamped list" where
  "demo_rows = [demo_row 1 None, demo_row 2 (Some 7), demo_row 3 (Some 7), demo_row 4 (Some 5)]"

definition demo_listing :: "stamped list" where
  "demo_listing = [demo_row 3 (Some 7), demo_row 2 (Some 7), demo_row 4 (Some 5), demo_row 1 None]"

definition demo_request :: "u64 \<Rightarrow> (stamped \<Rightarrow> bool go_result) option \<Rightarrow> (stamped, nat) page_filter" where
  "demo_request limit chk =
     \<lparr>pf_sort = [mk_sort ''updatedAt'' True], pf_limit = limit, pf_cursor = None, pf_prev = None, pf_next = None,
      pf_check = chk\<rparr>"

lemma demo_hypotheses:
  "pageable apigw_filter (full_sort [mk_sort ''updatedAt'' True])"
  "listing apigw_filter (full_sort [mk_sort ''updatedAt'' True]) demo_rows demo_listing"
  "page_request (demo_request 2 None)"
  "pf_sort (demo_request 2 None) = [mk_sort ''updatedAt'' True]"
  "sql_engine (rs_column apigw_filter) (table_engine (rs_column apigw_filter) demo_rows) demo_rows"
proof -
  have f: "full_sort [mk_sort ''updatedAt'' True] = [mk_sort ''updatedAt'' True, mk_sort ''id'' True]" by code_simp
  have k: "key_column (Some apigw_sortable) ''updatedAt'' = ''updated_at''" "key_column (Some apigw_sortable) ''id'' = ''id''"
    "map_of apigw_sortable (to_lower ''updatedAt'') \<noteq> None" "map_of apigw_sortable (to_lower ''id'') \<noteq> None"
    "apigw_sortable \<noteq> []" by code_simp+
  show "pageable apigw_filter (full_sort [mk_sort ''updatedAt'' True])"
    using k by (simp add: pageable_def f apigw_filter_def)
  show "listing apigw_filter (full_sort [mk_sort ''updatedAt'' True]) demo_rows demo_listing"
    using k by (auto simp: listing_def f sort_order_def apigw_filter_def demo_rows_def demo_listing_def demo_row_def
        apigw_column_def null_less_def)
  show "page_request (demo_request 2 None)" by (simp add: page_request_def demo_request_def)
  show "pf_sort (demo_request 2 None) = [mk_sort ''updatedAt'' True]" by (simp add: demo_request_def)
  show "sql_engine (rs_column apigw_filter) (table_engine (rs_column apigw_filter) demo_rows) demo_rows"
    by (rule table.sql_engine_axioms)
qed


theorem previous_page_witness:
  "\<exists>g. search_page apigw_filter (table_engine (rs_column apigw_filter) demo_rows)
      ((demo_request 2 None)\<lparr>pf_cursor := Some (prev_cursor apigw_filter
        (full_sort [mk_sort ''updatedAt'' True]) (demo_listing ! 3))\<rparr>) =
      Inr (drop (3 - unat (pf_limit ((demo_request 2 None)\<lparr>pf_cursor := Some (prev_cursor apigw_filter
        (full_sort [mk_sort ''updatedAt'' True]) (demo_listing ! 3))\<rparr>))) (take 3 demo_listing), g) \<and>
      (pf_prev g \<noteq> None \<longleftrightarrow> unat (pf_limit ((demo_request 2 None)\<lparr>pf_cursor := Some (prev_cursor apigw_filter
        (full_sort [mk_sort ''updatedAt'' True]) (demo_listing ! 3))\<rparr>)) < 3)"
  by (rule previous_page [OF demo_hypotheses(5)])
     (use demo_hypotheses in \<open>simp_all add: demo_request_def demo_listing_def page_request_def\<close>)

section \<open>Rejected rows\<close>

definition id_row :: "nat \<Rightarrow> stamped" where
  "id_row i = demo_row i None"

definition id_request :: "u64 \<Rightarrow> (stamped \<Rightarrow> bool) \<Rightarrow> (stamped, nat) page_filter" where
  "id_request limit p =
     \<lparr>pf_sort = [], pf_limit = limit, pf_cursor = None, pf_prev = None, pf_next = None,
      pf_check = Some (\<lambda>r. Inr (p r))\<rparr>"

definition id_search :: "nat list \<Rightarrow> u64 \<Rightarrow> (stamped \<Rightarrow> bool) \<Rightarrow> (nat list \<times> bool) go_result" where
  "id_search ids limit p =
     (case search_page apigw_filter (table_engine apigw_column (map id_row ids)) (id_request limit p) of
        Inl e \<Rightarrow> Inl e
      | Inr (rows, g) \<Rightarrow> Inr (map st_id rows, pf_next g \<noteq> None))"

text \<open>
  When the check function rejects rows, the refetch starts from the first row again: the page
  of at most two rows has four, one of them twice, and no cursor to the next page.
\<close>

theorem refetch_repeats_rows:
  "id_search [1, 2, 3, 4, 5] 2 (\<lambda>r. st_id r > 2) = Inr ([3, 3, 4, 5], False)"
  by code_simp

text \<open>
  When the check function rejects every row of the first fetch, the search answers with no
  rows and no cursor, although there are accepted rows after them.
\<close>

theorem rejected_rows_end_search:
  "id_search [1, 2, 3, 4, 5] 2 (\<lambda>r. st_id r > 3) = Inr ([], False)"
  by code_simp

text \<open>
  A sort column in the database's spelling is accepted as sortable and left out of the
  cursor, so the request for the next page is refused as incompatible.
\<close>

theorem snake_case_sort_unpageable:
  "order_by [mk_sort ''created_at'' False] apigw_sortable = Inr [(''created_at'', False)] \<and>
   (case collect_cursor apigw_filter r (full_sort [mk_sort ''created_at'' False]) of
      Inr c \<Rightarrow> cursor_sort (Some c) [mk_sort ''created_at'' False] = Inl err_incompatible_sort
    | Inl e \<Rightarrow> False)"
proof
  show "order_by [mk_sort ''created_at'' False] apigw_sortable = Inr [(''created_at'', False)]" by code_simp
  have f: "full_sort [mk_sort ''created_at'' False] = [mk_sort ''created_at'' False, mk_sort ''id'' False]"
    by code_simp
  show "case collect_cursor apigw_filter r (full_sort [mk_sort ''created_at'' False]) of
      Inr c \<Rightarrow> cursor_sort (Some c) [mk_sort ''created_at'' False] = Inl err_incompatible_sort
    | Inl e \<Rightarrow> False"
    by (simp add: f collect_cursor_def apigw_filter_def empty_cursor_def cursor_set_def cursor_sort_def)
qed

end
