(* ===== verification/WfGraph.thy ===== *)
theory WfGraph
  imports Prelude
begin

text \<open>
  \<^verbatim>\<open>pkg/wfexec/step.go\<close>, \<^verbatim>\<open>graph.go\<close>, \<^verbatim>\<open>gateways.go\<close> and the part of \<^verbatim>\<open>pkg/expr/vars.go\<close> they call:
  the graph of workflow steps and the gateways that join and split its paths.

  A step is an interface value holding a pointer, compared by identity: \<^const>\<open>Some\<close> of an
  address, or \<^const>\<open>None\<close> for the nil interface. A \<^verbatim>\<open>*expr.Vars\<close> is \<^const>\<open>None\<close> for the nil
  pointer and otherwise a map from names to typed values, whose type is a parameter.
\<close>

type_synonym step = "nat option"

type_synonym 'v vars = "string \<rightharpoonup> 'v"

section \<open>Variables\<close>

definition vars_each :: "'v vars option \<Rightarrow> 'v vars" where
  "vars_each t = (case t of None \<Rightarrow> Map.empty | Some m \<Rightarrow> m)"

definition must_merge :: "'v vars option \<Rightarrow> 'v vars option list \<Rightarrow> 'v vars" where
  "must_merge t nn = foldl (\<lambda>out i. out ++ vars_each i) Map.empty (if t = None then nn else t # nn)"

definition vars_has :: "'v vars option \<Rightarrow> string \<Rightarrow> bool" where
  "vars_has t k = (case t of None \<Rightarrow> False | Some m \<Rightarrow> m k \<noteq> None)"

definition assign_field :: "'v vars \<Rightarrow> string \<Rightarrow> 'v \<Rightarrow> 'v vars" where
  "assign_field m k v = m(k \<mapsto> v)"

lemma must_merge_Nil: "must_merge t [] = vars_each t"
  by (simp add: must_merge_def vars_each_def)

lemma must_merge_one: "must_merge t [n] = vars_each t ++ vars_each n"
  by (simp add: must_merge_def vars_each_def)

section \<open>The graph\<close>

record graph =
  g_steps :: "step list"
  g_children :: "step \<Rightarrow> step list"
  g_parents :: "step \<Rightarrow> step list"
  g_index :: "u64 \<rightharpoonup> step"

definition new_graph :: graph where
  "new_graph = \<lparr>g_steps = [], g_children = (\<lambda>_. []), g_parents = (\<lambda>_. []), g_index = Map.empty\<rparr>"

definition add_parent :: "step \<Rightarrow> step \<Rightarrow> graph \<Rightarrow> graph" where
  "add_parent c p g =
     g\<lparr>g_parents := (g_parents g)(c := g_parents g c @ [p]),
       g_children := (g_children g)(p := g_children g p @ [c])\<rparr>"

text \<open>\<open>AddStep\<close> files the step under its identifier \<^term>\<open>i\<close> (zero is not filed).\<close>

definition add_step :: "u64 \<Rightarrow> step \<Rightarrow> step list \<Rightarrow> graph \<Rightarrow> graph" where
  "add_step i s cc g =
     foldl (\<lambda>g c. add_parent c s g)
       (g\<lparr>g_steps := g_steps g @ [s],
          g_index := (if i \<noteq> 0 then (g_index g)(i \<mapsto> s) else g_index g)\<rparr>) cc"

definition graph_len :: "graph \<Rightarrow> nat" where
  "graph_len g = length (g_steps g)"

definition step_by_id :: "graph \<Rightarrow> u64 \<Rightarrow> step" where
  "step_by_id g i = (case g_index g i of None \<Rightarrow> None | Some s \<Rightarrow> s)"

definition orphans :: "graph \<Rightarrow> step list" where
  "orphans g = foldl (\<lambda>oo s. if 0 < length (g_parents g s) then oo else oo @ [s]) [] (g_steps g)"

definition steps_hash :: "step list \<Rightarrow> step \<Rightarrow> bool" where
  "steps_hash ss = foldl (\<lambda>out s. out(s := True)) (\<lambda>_. False) ss"

fun contains_loop :: "(step \<Rightarrow> bool) \<Rightarrow> step list \<Rightarrow> bool" where
  "contains_loop hash [] = True"
| "contains_loop hash (s # ss) = (if \<not> hash s then False else contains_loop hash ss)"

definition steps_contain :: "step list \<Rightarrow> step list \<Rightarrow> bool" where
  "steps_contain ss steps = contains_loop (steps_hash ss) steps"

lemma steps_hash_iff: "steps_hash ss s \<longleftrightarrow> s \<in> set ss"
proof -
  have "foldl (\<lambda>out s. out(s := True)) h ss s \<longleftrightarrow> h s \<or> s \<in> set ss" for h :: "step \<Rightarrow> bool"
    by (induction ss arbitrary: h) auto
  then show ?thesis by (simp add: steps_hash_def)
qed

lemma steps_contain_iff [simp]: "steps_contain ss steps \<longleftrightarrow> set steps \<subseteq> set ss"
proof -
  have "contains_loop (steps_hash ss) steps \<longleftrightarrow> set steps \<subseteq> set ss"
    by (induction steps) (auto simp: steps_hash_iff)
  then show ?thesis by (simp add: steps_contain_def)
qed

lemma orphans_filter: "orphans g = filter (\<lambda>s. g_parents g s = []) (g_steps g)"
proof -
  have "foldl (\<lambda>oo s. if 0 < length (g_parents g s) then oo else oo @ [s]) acc ss
      = acc @ filter (\<lambda>s. g_parents g s = []) ss" for acc ss
    by (induction ss arbitrary: acc) auto
  then show ?thesis by (simp add: orphans_def)
qed

text \<open>The two relations of a graph describe the same edges, with multiplicity.\<close>

definition graph_wf :: "graph \<Rightarrow> bool" where
  "graph_wf g \<longleftrightarrow> (\<forall>p c. count_list (g_children g p) c = count_list (g_parents g c) p)"

lemma add_parent_wf: "graph_wf g \<Longrightarrow> graph_wf (add_parent c p g)"
  by (auto simp: graph_wf_def add_parent_def)

lemma add_step_wf: "graph_wf g \<Longrightarrow> graph_wf (add_step i s cc g)"
proof -
  have fold: "graph_wf g \<Longrightarrow> graph_wf (foldl (\<lambda>g c. add_parent c s g) g cc)" for g
    by (induction cc arbitrary: g) (auto intro: add_parent_wf)
  assume "graph_wf g"
  then show ?thesis unfolding add_step_def by (intro fold) (simp add: graph_wf_def)
qed

lemma graph_wf_edge: "graph_wf g \<Longrightarrow> c \<in> set (g_children g p) \<longleftrightarrow> p \<in> set (g_parents g c)"
  unfolding graph_wf_def by (metis count_list_0_iff)

text \<open>A graph built by any sequence of \<open>AddStep\<close> and \<open>AddParent\<close> calls.\<close>

datatype graph_call = CallStep u64 step "step list" | CallParent step step

definition apply_call :: "graph \<Rightarrow> graph_call \<Rightarrow> graph" where
  "apply_call g c = (case c of CallStep i s cc \<Rightarrow> add_step i s cc g | CallParent c p \<Rightarrow> add_parent c p g)"

definition build_graph :: "graph_call list \<Rightarrow> graph" where
  "build_graph = foldl apply_call new_graph"

lemma build_graph_wf: "graph_wf (build_graph cs)"
proof -
  have "graph_wf g \<Longrightarrow> graph_wf (foldl apply_call g cs)" for g
    by (induction cs arbitrary: g) (auto simp: apply_call_def add_step_wf add_parent_wf split: graph_call.split)
  moreover have "graph_wf new_graph" by (simp add: graph_wf_def new_graph_def)
  ultimately show ?thesis unfolding build_graph_def by simp
qed

text \<open>
  In every graph the calls can build, the children and the parents relation hold the same
  edges with the same multiplicity, and the orphans are, in order of insertion, the steps that
  are nobody's child.
\<close>

theorem graph_relations_agree:
  "count_list (g_children (build_graph cs) p) c = count_list (g_parents (build_graph cs) c) p \<and>
   orphans (build_graph cs) =
     filter (\<lambda>s. \<nexists>p. s \<in> set (g_children (build_graph cs) p)) (g_steps (build_graph cs))"
proof -
  note wf = build_graph_wf [of cs]
  then have "(g_parents (build_graph cs) s = []) = (\<nexists>p. s \<in> set (g_children (build_graph cs) p))" for s
    using graph_wf_edge [OF wf] by (metis empty_iff list.set(1) list.set_intros(1) neq_Nil_conv)
  with wf show ?thesis by (auto simp: graph_wf_def orphans_filter)
qed

end
