(* ===== verification/WfState.thy ===== *)
theory WfState
  imports WfGraph
begin

text \<open>
  \<^verbatim>\<open>pkg/wfexec/response.go\<close>, \<^verbatim>\<open>prompt.go\<close>, \<^verbatim>\<open>iterator.go\<close> and \<^verbatim>\<open>state.go\<close>: what the execution of a
  step can answer, the iterators of loops, and the state that travels along the graph.

  The stack of loops of a state is a Go slice: states made by \<open>Next\<close> share its backing array,
  so the arrays are kept in an explicit store and a slice is an address and a length.
\<close>

section \<open>Errors\<close>

text \<open>One constructor per message the engine makes; \<^const>\<open>Inl\<close> strings of steps are their own.\<close>

datatype wf_error =
    StepError string
  | NoSteps | HasParents | Canceled
  | UnexistingState | AccessDenied
  | StateIsNil | StepIsNil
  | BreakOutsideLoop | ContinueOutsideLoop
  | WithoutOwner | UnknownResponse string | InconsistentRelationship
  | StepCrashed u64 string
  | ExecutionFailed u64 u64 wf_error
  | ContextDone

section \<open>Iterators\<close>

text \<open>
  \<open>genericIterator\<close>: the iterator's own step, the first step of its body, the step that leads
  out, and the address of its handler.
\<close>

record iterator =
  it_iter :: step
  it_next :: step
  it_exit :: step
  it_handler :: nat

definition iterator_is :: "iterator \<Rightarrow> step \<Rightarrow> bool" where
  "iterator_is i s \<longleftrightarrow> it_iter i = s"

definition iterator_break :: "iterator \<Rightarrow> step" where
  "iterator_break i = it_exit i"

definition iterator_step :: "iterator \<Rightarrow> step" where
  "iterator_step i = it_iter i"

text \<open>
  \<open>genericIterator.Next\<close>. The handler's \<open>More\<close> and \<open>Next\<close> and the optional \<open>EvalResults\<close> of the
  iterator step are arguments; they act on a world \<^typ>\<open>'w\<close>. Results are the next step, the
  variables (the nil pointer unless evaluated), and the error.
\<close>

definition iterator_next ::
  "('v vars \<Rightarrow> 'w \<Rightarrow> (string + bool) \<times> 'w) \<Rightarrow> ('v vars \<Rightarrow> 'w \<Rightarrow> (string + 'v vars option) \<times> 'w) \<Rightarrow>
   ('v vars option \<Rightarrow> 'w \<Rightarrow> ('v vars option \<times> string option) \<times> 'w) option \<Rightarrow>
   iterator \<Rightarrow> 'v vars \<Rightarrow> 'w \<Rightarrow> (step \<times> 'v vars option \<times> string option) \<times> 'w" where
  "iterator_next hm nxt evl i scope w =
     (case hm scope w of
        (Inl e, w) \<Rightarrow> ((None, None, Some e), w)
      | (Inr False, w) \<Rightarrow> ((None, None, None), w)
      | (Inr True, w) \<Rightarrow>
          (case nxt scope w of
             (Inl e, w) \<Rightarrow> ((None, None, Some e), w)
           | (Inr results, w) \<Rightarrow>
               (case evl of
                  None \<Rightarrow> ((it_next i, None, None), w)
                | Some f \<Rightarrow>
                    (case f results w of
                       ((out, Some e), w) \<Rightarrow> ((None, out, Some e), w)
                     | ((out, None), w) \<Rightarrow> ((it_next i, out, None), w)))))"

text \<open>\<open>GenericResourceNextCheck\<close>, on Go's 64-bit \<open>uint\<close>: the sum may wrap.\<close>

definition resource_next_check :: "bool \<Rightarrow> u64 \<Rightarrow> u64 \<Rightarrow> u64 \<Rightarrow> u64 \<Rightarrow> bool \<Rightarrow> bool" where
  "resource_next_check use_limit ptr buff_size tot limit has_more =
     (if use_limit \<and> limit \<le> ptr + tot then False
      else if ptr < buff_size then True
      else has_more)"

section \<open>Responses\<close>

record 'v prompt =
  pr_payload :: "'v vars option"
  pr_owner :: u64
  pr_ref :: string
  pr_sent :: bool

definition mk_prompt :: "u64 \<Rightarrow> string \<Rightarrow> 'v vars option \<Rightarrow> 'v prompt" where
  "mk_prompt owner ref payload = \<lparr>pr_payload = payload, pr_owner = owner, pr_ref = ref, pr_sent = False\<rparr>"

definition mark_sent :: "'v prompt \<Rightarrow> 'v prompt" where
  "mark_sent p = p\<lparr>pr_sent := True\<rparr>"

text \<open>The dynamic types \<open>exec\<close> tells apart; times are integers, zero is Go's zero time.\<close>

datatype 'v response =
    RIterator iterator
  | RVars "'v vars option"
  | RErrHandler step
  | RLoopBreak
  | RLoopContinue
  | RPartial
  | RTermination
  | RDelayed int
  | RResumed
  | RPrompted "'v prompt"
  | RSteps "step list"
  | RStep step
  | ROther string

section \<open>States\<close>

record loop_slice =
  ls_array :: nat
  ls_len :: nat

record 'v state =
  st_id :: u64
  st_owner :: "u64 option"
  st_session :: u64
  st_parent :: step
  st_step :: step
  st_next :: "step list"
  st_err :: "wf_error option"
  st_input :: "'v vars option"
  st_scope :: "'v vars option"
  st_results :: "'v vars option"
  st_handler :: step
  st_handled :: bool
  st_loops :: loop_slice
  st_action :: string
  st_created :: int
  st_completed :: "int option"

text \<open>
  The memory of the engine: the world of the steps, the backing arrays of the loop stacks
  (their length is their capacity), and the number of identifiers drawn.
\<close>

record 'w memory =
  me_world :: 'w
  me_arrays :: "iterator option list list"
  me_ids :: nat

text \<open>\<open>make([]Iterator, 0, 4)\<close> and the nil slice.\<close>

definition alloc_loops :: "'w memory \<Rightarrow> loop_slice \<times> 'w memory" where
  "alloc_loops m =
     (\<lparr>ls_array = length (me_arrays m), ls_len = 0\<rparr>,
      m\<lparr>me_arrays := me_arrays m @ [replicate 4 None]\<rparr>)"

definition nil_loops :: "'w memory \<Rightarrow> loop_slice \<times> 'w memory" where
  "nil_loops m =
     (\<lparr>ls_array = length (me_arrays m), ls_len = 0\<rparr>, m\<lparr>me_arrays := me_arrays m @ [[]]\<rparr>)"

definition draw_id :: "(nat \<Rightarrow> u64) \<Rightarrow> 'w memory \<Rightarrow> u64 \<times> 'w memory" where
  "draw_id gen m = (gen (me_ids m), m\<lparr>me_ids := Suc (me_ids m)\<rparr>)"

definition new_state ::
  "(nat \<Rightarrow> u64) \<Rightarrow> u64 \<Rightarrow> int \<Rightarrow> u64 option \<Rightarrow> step \<Rightarrow> step \<Rightarrow> 'v vars option \<Rightarrow> 'w memory \<Rightarrow>
   'v state \<times> 'w memory" where
  "new_state gen ses now owner caller current scope m =
     (let (i, m) = draw_id gen m; (l, m) = alloc_loops m
      in (\<lparr>st_id = i, st_owner = owner, st_session = ses, st_parent = caller, st_step = current,
           st_next = [], st_err = None, st_input = None, st_scope = scope, st_results = None,
           st_handler = None, st_handled = False, st_loops = l, st_action = '''',
           st_created = now, st_completed = None\<rparr>, m))"

definition final_state ::
  "(nat \<Rightarrow> u64) \<Rightarrow> u64 \<Rightarrow> int \<Rightarrow> 'v vars option \<Rightarrow> 'w memory \<Rightarrow> 'v state \<times> 'w memory" where
  "final_state gen ses now scope m =
     (let (i, m) = draw_id gen m; (l, m) = nil_loops m
      in (\<lparr>st_id = i, st_owner = None, st_session = ses, st_parent = None, st_step = None,
           st_next = [], st_err = None, st_input = None, st_scope = scope, st_results = None,
           st_handler = None, st_handled = False, st_loops = l, st_action = '''',
           st_created = now, st_completed = Some now\<rparr>, m))"

definition state_next ::
  "(nat \<Rightarrow> u64) \<Rightarrow> 'v state \<Rightarrow> step \<Rightarrow> 'v vars option \<Rightarrow> 'w memory \<Rightarrow> 'v state \<times> 'w memory" where
  "state_next gen s current scope m =
     (let (i, m) = draw_id gen m
      in (\<lparr>st_id = i, st_owner = st_owner s, st_session = st_session s, st_parent = st_step s,
           st_step = current, st_next = [], st_err = None, st_input = None, st_scope = scope,
           st_results = None, st_handler = st_handler s, st_handled = False, st_loops = st_loops s,
           st_action = '''', st_created = 0, st_completed = None\<rparr>, m))"

record 'v request =
  rq_session :: u64
  rq_state :: u64
  rq_input :: "'v vars option"
  rq_scope :: "'v vars option"
  rq_parent :: step

definition make_request :: "'v state \<Rightarrow> 'v request" where
  "make_request s =
     \<lparr>rq_session = st_session s, rq_state = st_id s, rq_input = st_input s, rq_scope = st_scope s,
      rq_parent = st_parent s\<rparr>"

text \<open>\<open>append\<close> writes into the shared array while there is room, and copies when there is none.\<close>

definition new_loop :: "iterator \<Rightarrow> 'v state \<Rightarrow> 'w memory \<Rightarrow> 'v state \<times> 'w memory" where
  "new_loop i s m =
     (let l = st_loops s; arr = me_arrays m ! ls_array l; n = ls_len l
      in if n < length arr
         then (s\<lparr>st_loops := l\<lparr>ls_len := Suc n\<rparr>\<rparr>,
               m\<lparr>me_arrays := (me_arrays m)[ls_array l := arr[n := Some i]]\<rparr>)
         else (s\<lparr>st_loops := \<lparr>ls_array = length (me_arrays m), ls_len = Suc n\<rparr>\<rparr>,
               m\<lparr>me_arrays := me_arrays m @ [arr @ Some i # replicate (max n 1 - 1) None]\<rparr>))"

definition loop_curr :: "'w memory \<Rightarrow> 'v state \<Rightarrow> iterator option" where
  "loop_curr m s =
     (let l = ls_len (st_loops s)
      in if 0 < l then me_arrays m ! ls_array (st_loops s) ! (l - 1) else None)"

text \<open>\<open>loopEnd\<close>: the way out of the innermost loop; it panics outside of every loop.\<close>

definition loop_end :: "'w memory \<Rightarrow> 'v state \<Rightarrow> (step list \<times> 'v state) option" where
  "loop_end m s =
     (case loop_curr m s of
        None \<Rightarrow> None
      | Some i \<Rightarrow> Some ([iterator_break i], s\<lparr>st_loops := (st_loops s)\<lparr>ls_len := ls_len (st_loops s) - 1\<rparr>\<rparr>))"

text \<open>\<open>IDs\<close>, \<open>MakeFrame\<close> (times in milliseconds are divided out) and \<open>Error\<close>.\<close>

definition step_ids :: "(step \<Rightarrow> u64) \<Rightarrow> step list \<Rightarrow> u64 list" where
  "step_ids sid ss = (if length ss = 0 then [] else map sid ss)"

record 'v frame =
  fr_created :: int
  fr_session :: u64
  fr_state :: u64
  fr_input :: "'v vars"
  fr_scope :: "'v vars"
  fr_results :: "'v vars"
  fr_parent :: u64
  fr_step :: u64
  fr_next :: "u64 list"
  fr_step_time :: "64 word"
  fr_action :: string
  fr_error :: "wf_error option"

text \<open>
  \<open>unref\<close> marshals and unmarshals variables: what the round trip through JSON keeps is the
  argument. The step time is the quotient of nanoseconds, truncated towards zero, as a \<open>uint\<close>.
\<close>

definition make_frame ::
  "(step \<Rightarrow> u64) \<Rightarrow> ('v vars option \<Rightarrow> 'v vars) \<Rightarrow> 'v state \<Rightarrow> 'v frame" where
  "make_frame sid unref s =
     \<lparr>fr_created = st_created s, fr_session = st_session s, fr_state = st_id s,
      fr_input = unref (st_input s), fr_scope = unref (st_scope s), fr_results = unref (st_results s),
      fr_parent = (if st_parent s = None then 0 else sid (st_parent s)),
      fr_step = (if st_step s = None then 0 else sid (st_step s)),
      fr_next = step_ids sid (st_next s),
      fr_step_time = (case st_completed s of None \<Rightarrow> 0
        | Some t \<Rightarrow> word_of_int (if t < st_created s then - ((st_created s - t) div 1000000)
                                else (t - st_created s) div 1000000)),
      fr_action = st_action s, fr_error = st_err s\<rparr>"

section \<open>Loop stacks\<close>

text \<open>The iterators a slice holds, innermost last.\<close>

definition loops_of :: "'w memory \<Rightarrow> 'v state \<Rightarrow> iterator option list" where
  "loops_of m s = take (ls_len (st_loops s)) (me_arrays m ! ls_array (st_loops s))"

definition loops_ok :: "'w memory \<Rightarrow> loop_slice \<Rightarrow> bool" where
  "loops_ok m l \<longleftrightarrow> ls_array l < length (me_arrays m) \<and> ls_len l \<le> length (me_arrays m ! ls_array l)"

lemma loop_curr_last:
  "loops_ok m (st_loops s) \<Longrightarrow>
   loop_curr m s = (if loops_of m s = [] then None else last (loops_of m s))"
  by (auto simp: loop_curr_def loops_of_def loops_ok_def last_conv_nth Let_def)

lemma new_loop_loops:
  assumes "loops_ok m (st_loops s)" and "new_loop i s m = (s', m')"
  shows "loops_of m' s' = loops_of m s @ [Some i] \<and> loops_ok m' (st_loops s')"
  using assms
  by (auto simp: new_loop_def loops_of_def loops_ok_def Let_def take_Suc_conv_app_nth nth_append
      split: if_splits)

lemma loop_end_loops:
  assumes "loops_ok m (st_loops s)" and "loop_end m s = Some (out, s')"
  shows "\<exists>i. loops_of m s = loops_of m s' @ [Some i] \<and> out = [iterator_break i] \<and>
    loops_ok m (st_loops s')"
proof -
  from assms(2) obtain i where i: "loop_curr m s = Some i"
    and s': "s' = s\<lparr>st_loops := (st_loops s)\<lparr>ls_len := ls_len (st_loops s) - 1\<rparr>\<rparr>" and out: "out = [iterator_break i]"
    by (auto simp: loop_end_def split: option.splits)
  define n where "n = ls_len (st_loops s) - 1"
  from i have n: "ls_len (st_loops s) = Suc n" and at: "me_arrays m ! ls_array (st_loops s) ! n = Some i"
    by (auto simp: loop_curr_def n_def Let_def split: if_splits)
  with assms(1) show ?thesis
    by (auto simp: s' out loops_of_def loops_ok_def take_Suc_conv_app_nth)
qed

end
