(* ===== verification/WfGateway.thy ===== *)
theory WfGateway
  imports WfState "HOL-Library.AList"
begin

text \<open>
  \<^verbatim>\<open>pkg/wfexec/gateways.go\<close>: join, fork, inclusive and exclusive gateways. A path tester is a
  function of the scope (\<^const>\<open>None\<close> for a nil tester) that answers a flag or an error.
\<close>

type_synonym 'v tester = "('v vars option \<Rightarrow> string + bool) option"

record 'v gateway_path =
  gp_test :: "'v tester"
  gp_to :: step

definition new_gateway_path :: "step \<Rightarrow> 'v tester \<Rightarrow> 'v gateway_path" where
  "new_gateway_path s t = \<lparr>gp_test = t, gp_to = s\<rparr>"

section \<open>Join\<close>

text \<open>The scopes are a Go map: an association list with distinct keys.\<close>

record 'v join_gateway =
  jg_paths :: "step list"
  jg_scopes :: "(step \<times> 'v vars option) list"

definition new_join_gateway :: "step list \<Rightarrow> 'v join_gateway" where
  "new_join_gateway ss = \<lparr>jg_paths = ss, jg_scopes = []\<rparr>"

definition join_merge :: "(step \<times> 'v vars option) list \<Rightarrow> step list \<Rightarrow> 'v vars option" where
  "join_merge scopes paths =
     foldl (\<lambda>merged p. case map_of scopes p of
         Some (Some v) \<Rightarrow> Some (must_merge merged [Some v])
       | _ \<Rightarrow> merged) None paths"

definition join_exec ::
  "'v request \<Rightarrow> 'v join_gateway \<Rightarrow> (string + 'v response) \<times> 'v join_gateway" where
  "join_exec r gw =
     (if \<not> steps_contain (jg_paths gw) [rq_parent r] then (Inl ''unknown parent for join gateway'', gw)
      else let scopes = AList.update (rq_parent r) (rq_scope r) (jg_scopes gw);
               gw = gw\<lparr>jg_scopes := scopes\<rparr>
           in if length scopes < length (jg_paths gw) then (Inr RPartial, gw)
              else (Inr (RVars (join_merge scopes (jg_paths gw))), gw))"

text \<open>The answers to a sequence of arrivals, each a parent and its scope.\<close>

definition join_request :: "step \<times> 'v vars option \<Rightarrow> 'v request" where
  "join_request a =
     \<lparr>rq_session = 0, rq_state = 0, rq_input = None, rq_scope = snd a, rq_parent = fst a\<rparr>"

fun join_arrivals ::
  "'v join_gateway \<Rightarrow> (step \<times> 'v vars option) list \<Rightarrow> (string + 'v response) list \<times> 'v join_gateway" where
  "join_arrivals gw [] = ([], gw)"
| "join_arrivals gw (a # as) =
     (let (out, gw) = join_exec (join_request a) gw; (outs, gw) = join_arrivals gw as
      in (out # outs, gw))"

definition scopes_after :: "(step \<times> 'v vars option) list \<Rightarrow> (step \<times> 'v vars option) list \<Rightarrow> (step \<times> 'v vars option) list" where
  "scopes_after = foldl (\<lambda>s a. AList.update (fst a) (snd a) s)"

lemma join_arrivals_append:
  "join_arrivals gw (as @ bs) =
     (let (outs, gw') = join_arrivals gw as; (outs', gw'') = join_arrivals gw' bs
      in (outs @ outs', gw''))"
  by (induction as arbitrary: gw) (auto simp: Let_def split: prod.splits)

lemma join_arrivals_state:
  "fst ` set as \<subseteq> set (jg_paths gw) \<Longrightarrow>
   snd (join_arrivals gw as) = gw\<lparr>jg_scopes := scopes_after (jg_scopes gw) as\<rparr>"
proof (induction as arbitrary: gw)
  case Nil
  then show ?case by (simp add: scopes_after_def)
next
  case (Cons a as)
  from Cons.prems have known: "steps_contain (jg_paths gw) [rq_parent (join_request a)]"
    by (simp add: join_request_def)
  define gw' where "gw' = gw\<lparr>jg_scopes := AList.update (fst a) (snd a) (jg_scopes gw)\<rparr>"
  have "snd (join_exec (join_request a) gw) = gw'"
    using known by (auto simp: join_exec_def join_request_def gw'_def Let_def)
  moreover from Cons have "snd (join_arrivals gw' as) = gw'\<lparr>jg_scopes := scopes_after (jg_scopes gw') as\<rparr>"
    by (simp add: gw'_def)
  ultimately show ?case
    by (auto simp: gw'_def scopes_after_def split: prod.splits)
qed

lemma scopes_after_keys:
  "distinct (map fst s) \<Longrightarrow>
   distinct (map fst (scopes_after s as)) \<and> fst ` set (scopes_after s as) = fst ` set s \<union> fst ` set as"
proof (induction as arbitrary: s)
  case Nil
  then show ?case by (simp add: scopes_after_def)
next
  case (Cons a as)
  from Cons.prems have "distinct (map fst (AList.update (fst a) (snd a) s))" by (rule distinct_update)
  with Cons.IH [OF this] show ?case by (auto simp: scopes_after_def dom_update)
qed

lemma scopes_after_value: "map_of (scopes_after s as) = map_of s ++ map_of (rev as)"
proof (induction as arbitrary: s)
  case Nil
  then show ?case by (simp add: scopes_after_def)
next
  case (Cons a as)
  have "map_of (scopes_after s (a # as)) = map_of (AList.update (fst a) (snd a) s) ++ map_of (rev as)"
    using Cons by (simp add: scopes_after_def)
  also have "\<dots> = map_of s ++ map_of (rev (a # as))"
    by (auto simp: update_conv fun_eq_iff map_add_def split: option.splits)
  finally show ?case .
qed

lemma join_merge_cong:
  "(\<And>p. p \<in> set paths \<Longrightarrow> map_of s p = map_of t p) \<Longrightarrow> join_merge s paths = join_merge t paths"
  unfolding join_merge_def by (intro foldl_cong) auto

lemma join_last_answer:
  assumes "distinct paths" and "fst ` set (as @ [a]) \<subseteq> set paths"
  shows "last (fst (join_arrivals (new_join_gateway paths) (as @ [a]))) =
    (if fst ` set (as @ [a]) = set paths
     then Inr (RVars (join_merge (rev (as @ [a])) paths)) else Inr RPartial)"
proof -
  define gw :: "'a join_gateway" where "gw = new_join_gateway paths"
  define s where "s = scopes_after [] (as @ [a])"
  have keys: "distinct (map fst s)" "fst ` set s = fst ` set (as @ [a])"
    using scopes_after_keys [of "[]" "as @ [a]"] by (auto simp: s_def)
  from assms(2) have st: "snd (join_arrivals gw as) = gw\<lparr>jg_scopes := scopes_after [] as\<rparr>"
    using join_arrivals_state [of as gw] by (simp add: gw_def new_join_gateway_def)
  have s_step: "AList.update (fst a) (snd a) (scopes_after [] as) = s"
    by (simp add: s_def scopes_after_def)
  have "length s = card (fst ` set (as @ [a]))"
    using keys by (metis distinct_card length_map set_map)
  then have len: "length s < length paths \<longleftrightarrow> fst ` set (as @ [a]) \<noteq> set paths"
    using assms by (metis card_subset_eq distinct_card finite_set linorder_neqE_nat
        card_mono not_le)
  have "map_of s p = map_of (rev (as @ [a])) p" for p
    by (simp add: s_def scopes_after_value)
  then have mrg: "join_merge s paths = join_merge (rev (as @ [a])) paths"
    by (intro join_merge_cong)
  have known: "fst a \<in> set paths" using assms(2) by simp
  have "last (fst (join_arrivals gw (as @ [a]))) = fst (join_exec (join_request a) (gw\<lparr>jg_scopes := scopes_after [] as\<rparr>))"
    using st by (auto simp: join_arrivals_append Let_def split: prod.splits)
  with known len mrg s_step show ?thesis
    by (auto simp: join_exec_def join_request_def gw_def new_join_gateway_def Let_def)
qed

text \<open>
  C15: a join over distinct paths answers the last of any sequence of arrivals on its paths with
  "partial" while some path is missing, and otherwise with the variables merged in the order of
  its paths, whatever the order of arrival, each path contributing the scope it brought last. In
  particular it is never reset: once complete, it lets every further arrival through with the
  old scopes of the others.
\<close>

theorem join_waits_for_all_paths:
  assumes "distinct paths" and "fst ` set (as @ [a]) \<subseteq> set paths"
  shows "last (fst (join_arrivals (new_join_gateway paths) (as @ [a]))) =
    (if fst ` set (as @ [a]) = set paths
     then Inr (RVars (join_merge (rev (as @ [a])) paths)) else Inr RPartial)"
  using assms by (rule join_last_answer)

theorem join_waits_for_all_paths_witness:
  "last (fst (join_arrivals (new_join_gateway [Some 1, Some 2])
      ([(Some 2, Some [''x'' \<mapsto> (2::nat)]), (Some 1, Some [''x'' \<mapsto> 1])] @ [(Some 1, Some [''x'' \<mapsto> 3])])))
   = Inr (RVars (join_merge [(Some 1, Some [''x'' \<mapsto> 3]), (Some 1, Some [''x'' \<mapsto> 1]), (Some 2, Some [''x'' \<mapsto> 2])]
       [Some 1, Some 2]))"
  by (subst join_waits_for_all_paths) auto

section \<open>Fork, inclusive and exclusive\<close>

definition fork_exec :: "'v request \<Rightarrow> string + 'v response" where
  "fork_exec r = Inr (RSteps [])"

definition incl_gateway :: "'v gateway_path list \<Rightarrow> string + 'v gateway_path list" where
  "incl_gateway pp =
     (if length pp < 2 then Inl ''expecting at least two paths for incusive gateway''
      else if list_ex (\<lambda>p. gp_test p = None) pp
      then Inl ''all inclusve gateway paths must have valid test Expression''
      else Inr pp)"

fun incl_loop :: "'v gateway_path list \<Rightarrow> 'v vars option \<Rightarrow> step list \<Rightarrow> string + step list" where
  "incl_loop [] scope paths = Inr paths"
| "incl_loop (p # ps) scope paths =
     (case gp_test p of
        None \<Rightarrow> Inl ''runtime error: invalid memory address or nil pointer dereference''
      | Some t \<Rightarrow>
          (case t scope of
             Inl e \<Rightarrow> Inl e
           | Inr result \<Rightarrow> incl_loop ps scope (if result then paths @ [gp_to p] else paths)))"

definition incl_exec :: "'v gateway_path list \<Rightarrow> 'v request \<Rightarrow> string + 'v response" where
  "incl_exec gw r =
     (case incl_loop gw (rq_scope r) [] of
        Inl e \<Rightarrow> Inl e
      | Inr paths \<Rightarrow>
          if length paths = 0 then Inl ''inclusive gateway must match at least one condition''
          else Inr (RSteps paths))"

fun excl_check :: "'v gateway_path list \<Rightarrow> nat \<Rightarrow> nat \<Rightarrow> bool" where
  "excl_check [] i t = True"
| "excl_check (p # ps) i t = (if gp_test p = None \<and> i \<noteq> t - 1 then False else excl_check ps (i + 1) t)"

definition excl_gateway :: "'v gateway_path list \<Rightarrow> string + 'v gateway_path list" where
  "excl_gateway pp =
     (let t = length pp
      in if t < 2 then Inl ''expecting at least two paths for exclusive gateway''
         else if \<not> excl_check pp 0 t
         then Inl ''all exclusive gateway paths must have valid test Expression''
         else Inr pp)"

text \<open>A nil target is the nil interface, which no case of \<open>exec\<close> accepts.\<close>

definition step_response :: "step \<Rightarrow> 'v response" where
  "step_response s = (if s = None then ROther ''<nil>'' else RStep s)"

fun excl_exec :: "'v gateway_path list \<Rightarrow> 'v request \<Rightarrow> string + 'v response" where
  "excl_exec [] r = Inl ''exclusive gateway must match one condition''"
| "excl_exec (p # ps) r =
     (case gp_test p of
        None \<Rightarrow> Inr (step_response (gp_to p))
      | Some t \<Rightarrow>
          (case t (rq_scope r) of
             Inl e \<Rightarrow> Inl e
           | Inr result \<Rightarrow> if result then Inr (step_response (gp_to p)) else excl_exec ps r))"

text \<open>What a path answers on a scope; an absent test is an else branch.\<close>

definition path_result :: "'v vars option \<Rightarrow> 'v gateway_path \<Rightarrow> string + bool" where
  "path_result scope p = (case gp_test p of None \<Rightarrow> Inr True | Some t \<Rightarrow> t scope)"

lemma incl_loop_spec:
  "\<forall>p \<in> set pp. gp_test p \<noteq> None \<Longrightarrow>
   incl_loop pp scope acc =
     (case find (\<lambda>p. isl (path_result scope p)) pp of
        Some p \<Rightarrow> Inl (projl (path_result scope p))
      | None \<Rightarrow> Inr (acc @ map gp_to (filter (\<lambda>p. projr (path_result scope p)) pp)))"
proof (induction pp arbitrary: acc)
  case Nil
  then show ?case by simp
next
  case (Cons p pp)
  then obtain t where t: "gp_test p = Some t" by auto
  then have "path_result scope p = t scope" by (simp add: path_result_def)
  with Cons t show ?case by (cases "t scope") (auto split: option.split)
qed

lemma incl_gateway_tests: "incl_gateway pp = Inr gw \<Longrightarrow> gw = pp \<and> 2 \<le> length pp \<and> (\<forall>p \<in> set pp. gp_test p \<noteq> None)"
  by (auto simp: incl_gateway_def list_ex_iff split: if_splits)

lemma excl_exec_spec:
  "excl_exec pp r =
     (case find (\<lambda>p. path_result (rq_scope r) p \<noteq> Inr False) pp of
        None \<Rightarrow> Inl ''exclusive gateway must match one condition''
      | Some p \<Rightarrow> (case path_result (rq_scope r) p of
            Inl e \<Rightarrow> Inl e | Inr _ \<Rightarrow> Inr (step_response (gp_to p))))"
  by (induction pp) (auto simp: path_result_def split: option.splits sum.splits)

text \<open>
  A constructed inclusive gateway takes exactly the paths whose test holds, in their order,
  and fails when none holds or at the first test that fails; an exclusive gateway takes the first
  path whose test holds (an absent test is the else branch), or fails at the first failing test
  before it, or when none holds.
\<close>

theorem gateways_choose:
  assumes "incl_gateway pp = Inr gw"
  shows "(case incl_exec gw r of
       Inr (RSteps ss) \<Rightarrow> ss = map gp_to (filter (\<lambda>p. path_result (rq_scope r) p = Inr True) pp) \<and> ss \<noteq> [] \<and>
         (\<forall>p \<in> set pp. \<not> isl (path_result (rq_scope r) p))
     | Inr _ \<Rightarrow> False
     | Inl e \<Rightarrow> (\<exists>p \<in> set pp. path_result (rq_scope r) p = Inl e) \<or>
         (\<forall>p \<in> set pp. path_result (rq_scope r) p = Inr False)) \<and>
    excl_exec pp r =
     (case find (\<lambda>p. path_result (rq_scope r) p \<noteq> Inr False) pp of
        None \<Rightarrow> Inl ''exclusive gateway must match one condition''
      | Some p \<Rightarrow> (case path_result (rq_scope r) p of
            Inl e \<Rightarrow> Inl e | Inr _ \<Rightarrow> Inr (step_response (gp_to p))))"
proof (rule conjI [OF _ excl_exec_spec])
  note gw = incl_gateway_tests [OF assms]
  show "case incl_exec gw r of
       Inr (RSteps ss) \<Rightarrow> ss = map gp_to (filter (\<lambda>p. path_result (rq_scope r) p = Inr True) pp) \<and> ss \<noteq> [] \<and>
         (\<forall>p \<in> set pp. \<not> isl (path_result (rq_scope r) p))
     | Inr _ \<Rightarrow> False
     | Inl e \<Rightarrow> (\<exists>p \<in> set pp. path_result (rq_scope r) p = Inl e) \<or>
         (\<forall>p \<in> set pp. path_result (rq_scope r) p = Inr False)"
  proof (cases "find (\<lambda>p. isl (path_result (rq_scope r) p)) pp")
    case None
    then have all: "\<forall>p \<in> set pp. \<not> isl (path_result (rq_scope r) p)" by (simp add: find_None)
    have val: "\<not> isl x \<Longrightarrow> projr x = (x = Inr True)" "\<not> isl x \<Longrightarrow> (x = Inr False) = (x \<noteq> Inr True)"
      for x :: "string + bool"
      by (cases x; auto)+
    with all have sel: "filter (\<lambda>p. projr (path_result (rq_scope r) p)) pp = filter (\<lambda>p. path_result (rq_scope r) p = Inr True) pp"
      by (intro filter_cong) auto
    have "incl_loop pp (rq_scope r) [] = Inr (map gp_to (filter (\<lambda>p. path_result (rq_scope r) p = Inr True) pp))"
      using gw None sel by (simp add: incl_loop_spec)
    with gw all val show ?thesis
      by (auto simp: incl_exec_def filter_empty_conv)
  next
    case (Some p)
    from find_SomeD [OF this] have "p \<in> set pp" "path_result (rq_scope r) p = Inl (projl (path_result (rq_scope r) p))"
      by (auto simp: isl_def split: sum.splits)
    with gw Some show ?thesis by (auto simp: incl_exec_def incl_loop_spec intro: bexI [of _ p])
  qed
qed

definition demo_paths :: "nat gateway_path list" where
  "demo_paths = [new_gateway_path (Some 1) (Some (\<lambda>s. Inr (vars_has s ''x''))), new_gateway_path (Some 2) (Some (\<lambda>s. Inr True))]"

theorem gateways_choose_witness:
  "incl_exec demo_paths (join_request (None, None)) = Inr (RSteps [Some 2]) \<and>
   excl_exec demo_paths (join_request (None, None)) = Inr (RStep (Some 2))"
proof -
  have "incl_gateway demo_paths = Inr demo_paths" by (simp add: incl_gateway_def demo_paths_def new_gateway_path_def)
  from gateways_choose [OF this, of "join_request (None, None)"] show ?thesis
    by (simp add: demo_paths_def new_gateway_path_def path_result_def join_request_def vars_has_def step_response_def
        incl_exec_def split: sum.splits response.splits if_splits)
qed

end
