(* ===== verification/WfExec.thy ===== *)
theory WfExec
  imports WfGateway
begin

text \<open>
  \<^verbatim>\<open>Session.exec\<close> of \<^verbatim>\<open>pkg/wfexec/session.go\<close>: one execution of a step. The function returns the
  state as the code leaves it, the states to run next, the error, and what it does to the maps of
  the session under the session's lock; \<^verbatim>\<open>WfSession\<close> applies that when the lock is free.

  The steps, the handlers of iterators, the text of errors and the source of identifiers are code
  outside the engine: the fields of an environment. They act on a world of type \<^typ>\<open>'w\<close>. Steps do
  not change the variables they are given; logging and tracing are left out.
\<close>

datatype 'v exec_outcome = Returned "'v response" "wf_error option" | Panicked string

record ('v, 'w) wf_env =
  en_exec :: "step \<Rightarrow> 'v request \<Rightarrow> 'w \<Rightarrow> 'v exec_outcome \<times> 'w"
  en_start :: "nat \<Rightarrow> 'v vars \<Rightarrow> 'w \<Rightarrow> string option \<times> 'w"
  en_more :: "nat \<Rightarrow> 'v vars \<Rightarrow> 'w \<Rightarrow> (string + bool) \<times> 'w"
  en_next :: "nat \<Rightarrow> 'v vars \<Rightarrow> 'w \<Rightarrow> (string + 'v vars option) \<times> 'w"
  en_eval :: "step \<Rightarrow> ('v vars option \<Rightarrow> 'w \<Rightarrow> ('v vars option \<times> string option) \<times> 'w) option"
  en_error :: "wf_error \<Rightarrow> 'v"
  en_sid :: "step \<Rightarrow> u64"
  en_gen :: "nat \<Rightarrow> u64"
  en_resumed :: "int \<Rightarrow> 'v vars"

text \<open>What the execution does to the session: drop all delays, or file the state.\<close>

datatype 'v effect = NoEffect | ClearDelayed | AddDelayed int | AddPrompted "'v prompt"

record ('v, 'w) exec_result =
  xr_state :: "'v state"
  xr_next :: "'v state option list"
  xr_err :: "wf_error option"
  xr_effect :: "'v effect"
  xr_panic :: "wf_error option"
  xr_mem :: "'w memory"

definition exec_stop :: "'v state \<Rightarrow> wf_error option \<Rightarrow> 'v effect \<Rightarrow> 'w memory \<Rightarrow> ('v, 'w) exec_result" where
  "exec_stop st e eff m =
     \<lparr>xr_state = st, xr_next = [], xr_err = e, xr_effect = eff, xr_panic = None, xr_mem = m\<rparr>"

definition exec_states :: "'v state \<Rightarrow> 'v state option list \<Rightarrow> 'v effect \<Rightarrow> 'w memory \<Rightarrow> ('v, 'w) exec_result" where
  "exec_states st nxt eff m =
     \<lparr>xr_state = st, xr_next = nxt, xr_err = None, xr_effect = eff, xr_panic = None, xr_mem = m\<rparr>"

text \<open>The deferred function turns a panic into an error for the error queue; the results are nil.\<close>

definition exec_crash :: "('v, 'w) wf_env \<Rightarrow> 'v state \<Rightarrow> string \<Rightarrow> 'w memory \<Rightarrow> ('v, 'w) exec_result" where
  "exec_crash env st reason m =
     \<lparr>xr_state = st, xr_next = [], xr_err = None, xr_effect = NoEffect,
      xr_panic = Some (StepCrashed (en_sid env (st_step st)) reason), xr_mem = m\<rparr>"

section \<open>The end of an execution: the next states\<close>

definition can_enqueue :: "'v state \<Rightarrow> wf_error option" where
  "can_enqueue st = (if st_step st = None \<and> st_completed st = None then Some StepIsNil else None)"

text \<open>
  The loop that makes the next states, as a slice of pointers. On a state that cannot be queued
  the code returns the error together with the slice, whose remaining entries are nil.
\<close>

fun make_next ::
  "(nat \<Rightarrow> u64) \<Rightarrow> 'v state \<Rightarrow> 'v vars option \<Rightarrow> step list \<Rightarrow> 'w memory \<Rightarrow>
   ('v state option list \<times> wf_error option) \<times> 'w memory" where
  "make_next gen st scope [] m = (([], None), m)"
| "make_next gen st scope (s # ss) m =
     (let (nn, m) = state_next gen st s scope m
      in case can_enqueue nn of
           Some e \<Rightarrow> ((replicate (Suc (length ss)) None, Some e), m)
         | None \<Rightarrow> (let ((nxt, e), m) = make_next gen st scope ss m in ((Some nn # nxt, e), m)))"

definition children_next :: "graph \<Rightarrow> 'v state \<Rightarrow> 'v state" where
  "children_next g st = (if st_next st = [] then st\<lparr>st_next := g_children g (st_step st)\<rparr> else st)"

definition relationship_ok :: "graph \<Rightarrow> 'v state \<Rightarrow> bool" where
  "relationship_ok g st \<longleftrightarrow> st_next st = [] \<or>
     (let cc = g_children g (st_step st) in \<not> (0 < length cc \<and> \<not> steps_contain cc (st_next st)))"

definition loop_back :: "iterator option \<Rightarrow> 'v state \<Rightarrow> 'v state" where
  "loop_back cur st =
     (case cur of
        Some i \<Rightarrow> if st_next st = [] then st\<lparr>st_next := [iterator_step i]\<rparr> else st
      | None \<Rightarrow> st)"

definition exec_finish ::
  "('v, 'w) wf_env \<Rightarrow> u64 \<Rightarrow> int \<Rightarrow> graph \<Rightarrow> 'v state \<Rightarrow> 'v vars \<Rightarrow> iterator option \<Rightarrow> 'w memory \<Rightarrow>
   ('v, 'w) exec_result" where
  "exec_finish env ses now g st scope cur m =
     (if \<not> relationship_ok g st then exec_stop st (Some InconsistentRelationship) NoEffect m
      else let st = loop_back cur (children_next g st)
           in if st_next st = [] then
                (let (fin, m) = final_state (en_gen env) ses now (Some scope) m
                 in exec_states st [Some fin] NoEffect m)
              else
                (let ((nxt, e), m) = make_next (en_gen env) st (Some scope) (st_next st) m
                 in (exec_stop st e NoEffect m)\<lparr>xr_next := nxt\<rparr>))"

section \<open>Resolving a response\<close>

definition first_other :: "step \<Rightarrow> step list \<Rightarrow> step list" where
  "first_other h cc = (case find (\<lambda>c. c \<noteq> h) cc of None \<Rightarrow> [] | Some c \<Rightarrow> [c])"

definition exec_respond ::
  "('v, 'w) wf_env \<Rightarrow> u64 \<Rightarrow> int \<Rightarrow> graph \<Rightarrow> 'v state \<Rightarrow> 'v vars \<Rightarrow> iterator option \<Rightarrow> 'v response \<Rightarrow>
   'w memory \<Rightarrow> ('v, 'w) exec_result" where
  "exec_respond env ses now g st scope cur r m =
     (case r of
        RVars vs \<Rightarrow>
          exec_finish env ses now g (st\<lparr>st_results := vs\<rparr>) (must_merge (Some scope) [vs]) cur m
      | RErrHandler h \<Rightarrow>
          (let other = first_other h (g_children g (st_step st));
               st = st\<lparr>st_action := ''error handler initialized'', st_handler := h\<rparr>
           in exec_finish env ses now g
                (if other = [] then st else st\<lparr>st_next := other\<rparr>) scope cur m)
      | RLoopBreak \<Rightarrow>
          (let st = st\<lparr>st_action := ''loop break''\<rparr>
           in if cur = None then exec_stop st (Some BreakOutsideLoop) NoEffect m
              else case loop_end m st of
                None \<Rightarrow> exec_crash env st ''not inside a loop'' m
              | Some (out, st) \<Rightarrow> exec_finish env ses now g (st\<lparr>st_next := out\<rparr>) scope cur m)
      | RLoopContinue \<Rightarrow>
          (let st = st\<lparr>st_action := ''loop continue''\<rparr>
           in case cur of
                None \<Rightarrow> exec_stop st (Some ContinueOutsideLoop) NoEffect m
              | Some i \<Rightarrow> exec_finish env ses now g (st\<lparr>st_next := [iterator_step i]\<rparr>) scope cur m)
      | RPartial \<Rightarrow> exec_stop (st\<lparr>st_action := ''partial''\<rparr>) None NoEffect m
      | RTermination \<Rightarrow>
          (let (fin, m) = final_state (en_gen env) ses now (Some scope) m
           in exec_states (st\<lparr>st_action := ''termination''\<rparr>) [Some fin] ClearDelayed m)
      | RDelayed t \<Rightarrow> exec_stop (st\<lparr>st_action := ''delayed''\<rparr>) None (AddDelayed t) m
      | RResumed \<Rightarrow> exec_finish env ses now g (st\<lparr>st_action := ''resumed''\<rparr>) scope cur m
      | RPrompted p \<Rightarrow>
          (let st = st\<lparr>st_action := ''prompted''\<rparr>
           in if pr_owner p = 0 then exec_stop st (Some WithoutOwner) NoEffect m
              else exec_stop st None (AddPrompted p) m)
      | RSteps ss \<Rightarrow>
          exec_finish env ses now g (st\<lparr>st_action := ''next-steps'', st_next := ss\<rparr>) scope cur m
      | RStep s \<Rightarrow>
          exec_finish env ses now g (st\<lparr>st_action := ''next-step'', st_next := [s]\<rparr>) scope cur m
      | RIterator i \<Rightarrow> exec_stop st (Some (UnknownResponse ''iterator'')) NoEffect m
      | ROther t \<Rightarrow> exec_stop st (Some (UnknownResponse t)) NoEffect m)"

text \<open>
  The first type switch: an iterator, new or current, is asked for its next round. The result is
  then the variables of the round, a \<^verbatim>\<open>*expr.Vars\<close> even when it is nil.
\<close>

definition exec_iterate ::
  "('v, 'w) wf_env \<Rightarrow> u64 \<Rightarrow> int \<Rightarrow> graph \<Rightarrow> 'v state \<Rightarrow> 'v vars \<Rightarrow> iterator option \<Rightarrow> 'v response \<Rightarrow>
   'w memory \<Rightarrow> ('v, 'w) exec_result" where
  "exec_iterate env ses now g st scope cur r m =
     (case r of
        RIterator i \<Rightarrow>
          (let st = st\<lparr>st_action := ''iterator initialized''\<rparr>;
               ((n, out, e), w) = iterator_next (en_more env (it_handler i)) (en_next env (it_handler i))
                   (en_eval env (it_iter i)) i scope (me_world m);
               m = m\<lparr>me_world := w\<rparr>
           in case e of
                Some msg \<Rightarrow> exec_stop (st\<lparr>st_err := Some (StepError msg)\<rparr>) (Some (StepError msg)) NoEffect m
              | None \<Rightarrow>
                  (case n of
                     Some _ \<Rightarrow> exec_respond env ses now g (st\<lparr>st_next := [n]\<rparr>) scope cur (RVars out) m
                   | None \<Rightarrow>
                       (case loop_end m st of
                          None \<Rightarrow> exec_crash env st ''not inside a loop'' m
                        | Some (ss, st) \<Rightarrow> exec_respond env ses now g (st\<lparr>st_next := ss\<rparr>) scope cur (RVars out) m)))
      | _ \<Rightarrow> exec_respond env ses now g st scope cur r m)"

text \<open>A failed step with an error handler: continue there once, with the error in the scope.\<close>

definition exec_handle ::
  "('v, 'w) wf_env \<Rightarrow> 'v state \<Rightarrow> 'v vars \<Rightarrow> wf_error \<Rightarrow> 'w memory \<Rightarrow> ('v, 'w) exec_result" where
  "exec_handle env st scope e m =
     (if st_handler st = None then exec_stop st (Some e) NoEffect m
      else let scope = assign_field scope ''error'' (en_error env e);
               eh = st_handler st;
               st = st\<lparr>st_handler := None, st_handled := True\<rparr>;
               (nn, m) = state_next (en_gen env) st eh (Some scope) m
           in exec_states st [Some nn] NoEffect m)"

definition exec_answer ::
  "('v, 'w) wf_env \<Rightarrow> u64 \<Rightarrow> int \<Rightarrow> graph \<Rightarrow> 'v state \<Rightarrow> 'v vars \<Rightarrow> iterator option \<Rightarrow> 'v response \<Rightarrow>
   'w memory \<Rightarrow> ('v, 'w) exec_result" where
  "exec_answer env ses now g st scope cur r m =
     (case st_err st of
        Some e \<Rightarrow> exec_handle env st scope e m
      | None \<Rightarrow> exec_iterate env ses now g st scope cur r m)"

text \<open>The step is run; an iterator it answers is put on the stack of loops and started.\<close>

definition exec_call ::
  "('v, 'w) wf_env \<Rightarrow> u64 \<Rightarrow> int \<Rightarrow> graph \<Rightarrow> 'v state \<Rightarrow> 'v vars \<Rightarrow> iterator option \<Rightarrow> 'w memory \<Rightarrow>
   ('v, 'w) exec_result" where
  "exec_call env ses now g st scope cur m =
     (case en_exec env (st_step st) (make_request st) (me_world m) of
        (Panicked reason, w) \<Rightarrow> exec_crash env st reason (m\<lparr>me_world := w\<rparr>)
      | (Returned r e, w) \<Rightarrow>
          (let m = m\<lparr>me_world := w\<rparr>; st = st\<lparr>st_err := e\<rparr>
           in case (r, e) of
                (RIterator i, None) \<Rightarrow>
                  (let (st, m) = new_loop i st m
                   in case en_start env (it_handler i) scope (me_world m) of
                        (Some msg, w) \<Rightarrow> exec_stop st (Some (StepError msg)) NoEffect (m\<lparr>me_world := w\<rparr>)
                      | (None, w) \<Rightarrow>
                          exec_answer env ses now g st scope cur r (m\<lparr>me_world := w\<rparr>))
              | _ \<Rightarrow> exec_answer env ses now g st scope cur r m))"

definition exec ::
  "('v, 'w) wf_env \<Rightarrow> u64 \<Rightarrow> int \<Rightarrow> graph \<Rightarrow> 'v state \<Rightarrow> 'w memory \<Rightarrow> ('v, 'w) exec_result" where
  "exec env ses now g st m =
     (let st = st\<lparr>st_created := now\<rparr>;
          scope = must_merge (Some Map.empty) [st_scope st];
          cur = loop_curr m st
      in case cur of
           Some i \<Rightarrow>
             if iterator_is i (st_step st) then exec_answer env ses now g st scope cur (RIterator i) m
             else exec_call env ses now g st scope cur m
         | None \<Rightarrow> exec_call env ses now g st scope cur m)"

end
