(* ===== verification/WfSession.thy ===== *)
theory WfSession
  imports WfExec
begin

text \<open>
  \<^verbatim>\<open>pkg/wfexec/session.go\<close>: a session, the worker that takes states from its queue, the goroutines
  that execute them and the calls of its clients, as a step function over an explicit state. The
  channels are bounded lists, the program counters of the worker and of the goroutines name the
  points where the code waits for the session's lock or for a channel; a step that would wait is
  not enabled (\<^const>\<open>None\<close>). Between two such points the code is one step.

  The lock is held across steps only where the code waits while holding it, or never releases it.
  A client call that would wait while holding the lock is not taken at all.
\<close>

datatype session_status = SessionActive | SessionPrompted | SessionDelayed | SessionFailed | SessionCompleted

definition status_string :: "session_status \<Rightarrow> string" where
  "status_string st = (case st of
       SessionActive \<Rightarrow> ''active'' | SessionPrompted \<Rightarrow> ''prompted'' | SessionDelayed \<Rightarrow> ''delayed''
     | SessionFailed \<Rightarrow> ''failed'' | SessionCompleted \<Rightarrow> ''completed'')"

definition state_chan_buf :: nat where "state_chan_buf = 512"

definition concurrent_exec :: nat where "concurrent_exec = 32"

datatype 'v worker =
    Selecting
  | WantSuspended int
  | Suspending int "u64 list"
  | WaitSlot "'v state"
  | Completing "'v state"
  | GotError "wf_error option"
  | Stopping
  | Stopped

datatype 'v goroutine =
    Executing "'v state"
  | Panicking "'v state" "wf_error"
  | Finishing "'v state" "'v state option list"
  | Failing session_status "'v state" "'v state option list"
  | FailPush "'v state" "'v state option list"
  | Notifying session_status "'v state" "'v state option list"
  | Enqueueing "'v state option list"

record ('v, 'w) session =
  se_id :: u64
  se_workflow :: u64
  se_graph :: graph
  se_queue :: "'v state list"
  se_qerr :: "wf_error option list"
  se_goros :: "'v goroutine list"
  se_worker :: "'v worker"
  se_delayed :: "(u64 \<times> int \<times> 'v state) list option"
  se_prompted :: "(u64 \<times> 'v prompt \<times> 'v state) list"
  se_result :: "'v vars option"
  se_err :: "wf_error option"
  se_locked :: bool
  se_done :: bool
  se_crashed :: bool
  se_mem :: "'w memory"
  se_events :: "(session_status \<times> 'v state) list"

section \<open>A new session, its status\<close>

definition new_session :: "('v, 'w) wf_env \<Rightarrow> u64 \<Rightarrow> graph \<Rightarrow> 'w memory \<Rightarrow> ('v, 'w) session" where
  "new_session env workflow g m =
     (let (i, m) = draw_id (en_gen env) m
      in \<lparr>se_id = i, se_workflow = workflow, se_graph = g, se_queue = [], se_qerr = [], se_goros = [],
          se_worker = Selecting, se_delayed = Some [], se_prompted = [], se_result = None, se_err = None,
          se_locked = False, se_done = False, se_crashed = False, se_mem = m, se_events = []\<rparr>)"

definition delayed_list :: "('v, 'w) session \<Rightarrow> (u64 \<times> int \<times> 'v state) list" where
  "delayed_list s = (case se_delayed s of None \<Rightarrow> [] | Some d \<Rightarrow> d)"

definition status_of :: "('v, 'w) session \<Rightarrow> session_status" where
  "status_of s =
     (if se_err s \<noteq> None then SessionFailed
      else if 0 < length (se_prompted s) then SessionPrompted
      else if 0 < length (delayed_list s) then SessionDelayed
      else if se_result s = None then SessionActive
      else SessionCompleted)"

text \<open>\<open>Status\<close>, \<open>Error\<close> and \<open>Result\<close> need the lock.\<close>

definition status_answer :: "('v, 'w) session \<Rightarrow> session_status option" where
  "status_answer s = (if se_locked s then None else Some (status_of s))"

definition session_idle :: "('v, 'w) session \<Rightarrow> bool option" where
  "session_idle s = map_option (\<lambda>st. st \<noteq> SessionActive) (status_answer s)"

definition session_suspended :: "('v, 'w) session \<Rightarrow> bool option" where
  "session_suspended s = (if se_locked s then None else Some (0 < length (delayed_list s)))"

definition wait_expected :: "session_status list" where
  "wait_expected = [SessionFailed, SessionDelayed, SessionCompleted]"

section \<open>Channels\<close>

definition enqueue :: "('v, 'w) wf_env \<Rightarrow> 'v state \<Rightarrow> ('v, 'w) session \<Rightarrow> (wf_error option \<times> ('v, 'w) session) option" where
  "enqueue env st s =
     (case can_enqueue st of
        Some e \<Rightarrow> Some (Some e, s)
      | None \<Rightarrow>
          (let (st, m) = (if st_id st = 0
               then (let (i, m) = draw_id (en_gen env) (se_mem s) in (st\<lparr>st_id := i\<rparr>, m)) else (st, se_mem s))
           in if length (se_queue s) < state_chan_buf
              then Some (None, s\<lparr>se_queue := se_queue s @ [st], se_mem := m\<rparr>)
              else if se_done s then Some (Some ContextDone, s\<lparr>se_mem := m\<rparr>)
              else None))"

definition push_err :: "wf_error option \<Rightarrow> ('v, 'w) session \<Rightarrow> ('v, 'w) session option" where
  "push_err e s = (if length (se_qerr s) < 1 then Some (s\<lparr>se_qerr := se_qerr s @ [e]\<rparr>) else None)"

section \<open>Clients\<close>

definition session_exec ::
  "('v, 'w) wf_env \<Rightarrow> int \<Rightarrow> u64 option \<Rightarrow> step \<Rightarrow> 'v vars option \<Rightarrow> ('v, 'w) session \<Rightarrow>
   (wf_error option \<times> ('v, 'w) session) option" where
  "session_exec env now owner st scope s =
     (if se_locked s then None
      else if graph_len (se_graph s) = 0 then
        map_option (\<lambda>s. (Some NoSteps, s)) (push_err (Some NoSteps) s)
      else if 0 < length (g_parents (se_graph s) st) then
        map_option (\<lambda>s. (Some HasParents, s)) (push_err (Some HasParents) s)
      else let scope = (if scope = None then Some Map.empty else scope);
               (n, m) = new_state (en_gen env) (se_id s) now owner None st scope (se_mem s)
           in enqueue env n (s\<lparr>se_mem := m\<rparr>))"

definition session_resume ::
  "('v, 'w) wf_env \<Rightarrow> u64 option \<Rightarrow> u64 \<Rightarrow> 'v vars option \<Rightarrow> ('v, 'w) session \<Rightarrow>
   ((wf_error + u64 \<times> u64) \<times> ('v, 'w) session) option" where
  "session_resume env ident i input s =
     (if se_locked s then None
      else case map_of (se_prompted s) i of
        None \<Rightarrow> Some (Inl UnexistingState, s)
      | Some (p, st) \<Rightarrow>
          if ident = None \<or> ident \<noteq> Some (pr_owner p) then Some (Inl AccessDenied, s)
          else (case enqueue env (st\<lparr>st_input := input\<rparr>) (s\<lparr>se_prompted := AList.delete i (se_prompted s)\<rparr>) of
                  None \<Rightarrow> None
                | Some (Some e, s) \<Rightarrow> Some (Inl e, s)
                | Some (None, s) \<Rightarrow> Some (Inr (st_id st, pr_owner p), s)))"

definition session_cancel :: "('v, 'w) session \<Rightarrow> ('v, 'w) session option" where
  "session_cancel s = push_err (Some Canceled) s"

definition session_stop :: "('v, 'w) session \<Rightarrow> ('v, 'w) session option" where
  "session_stop s = push_err None s"

record 'v pending_prompt =
  pp_ref :: string
  pp_session :: u64
  pp_created :: int
  pp_state :: u64
  pp_payload :: "'v vars option"
  pp_owner :: u64
  pp_sent :: bool

definition to_pending :: "u64 \<Rightarrow> 'v prompt \<times> 'v state \<Rightarrow> 'v pending_prompt" where
  "to_pending ses p =
     \<lparr>pp_ref = pr_ref (fst p), pp_session = ses, pp_created = st_created (snd p), pp_state = st_id (snd p),
      pp_payload = pr_payload (fst p), pp_owner = pr_owner (fst p), pp_sent = pr_sent (fst p)\<rparr>"

definition pending_prompts :: "('v, 'w) session \<Rightarrow> 'v pending_prompt list" where
  "pending_prompts s = map (\<lambda>(i, p). to_pending (se_id s) p) (se_prompted s)"

definition user_pending_prompts :: "u64 \<Rightarrow> ('v, 'w) session \<Rightarrow> 'v pending_prompt list" where
  "user_pending_prompts owner s =
     (if owner = 0 then []
      else map (\<lambda>(i, p). to_pending (se_id s) p) (filter (\<lambda>(i, p). pr_owner (fst p) = owner) (se_prompted s)))"

definition unsent_pending_prompts :: "('v, 'w) session \<Rightarrow> 'v pending_prompt list" where
  "unsent_pending_prompts s = filter (\<lambda>p. \<not> pp_sent p) (pending_prompts s)"

text \<open>
  \<open>WaitUntil\<close> over what it meets, each with the session at that moment: ticks of its clock, and the
  end of its context, which cancels the session. It answers the session's error; \<^const>\<open>None\<close>
  while it waits, also for the lock or for room in the error channel.
\<close>

datatype ('v, 'w) wait_event = WaitTick "('v, 'w) session" | WaitDone "('v, 'w) session"

fun wait_loop :: "session_status list \<Rightarrow> ('v, 'w) wait_event list \<Rightarrow> wf_error option option" where
  "wait_loop expected [] = None"
| "wait_loop expected (WaitTick s # es) =
     (case status_answer s of
        None \<Rightarrow> None
      | Some st \<Rightarrow> if List.member expected st then Some (se_err s) else wait_loop expected es)"
| "wait_loop expected (WaitDone s # es) = map_option se_err (session_cancel s)"

definition wait_until :: "session_status list \<Rightarrow> ('v, 'w) session \<Rightarrow> ('v, 'w) wait_event list \<Rightarrow> wf_error option option" where
  "wait_until expected s es =
     (case status_answer s of
        None \<Rightarrow> None
      | Some st \<Rightarrow> if List.member expected st then Some (se_err s) else wait_loop expected es)"

section \<open>The worker\<close>

definition worker_context_done :: "('v, 'w) session \<Rightarrow> ('v, 'w) session option" where
  "worker_context_done s =
     (if se_worker s = Selecting \<and> se_done s then Some (s\<lparr>se_worker := Stopping\<rparr>) else None)"

definition worker_tick :: "int \<Rightarrow> ('v, 'w) session \<Rightarrow> ('v, 'w) session option" where
  "worker_tick now s =
     (if se_worker s = Selecting then Some (s\<lparr>se_worker := WantSuspended now\<rparr>) else None)"

text \<open>\<open>queueScheduledSuspended\<close>: the order of the map's keys is any permutation of them.\<close>

definition worker_suspended :: "u64 list \<Rightarrow> ('v, 'w) session \<Rightarrow> ('v, 'w) session option" where
  "worker_suspended ks s =
     (case se_worker s of
        WantSuspended now \<Rightarrow>
          if \<not> se_locked s \<and> mset ks = mset (map fst (delayed_list s))
          then Some (s\<lparr>se_worker := Suspending now ks, se_locked := True\<rparr>) else None
      | _ \<Rightarrow> None)"

definition worker_resume :: "('v, 'w) wf_env \<Rightarrow> ('v, 'w) session \<Rightarrow> ('v, 'w) session option" where
  "worker_resume env s =
     (case se_worker s of
        Suspending now [] \<Rightarrow> Some (s\<lparr>se_worker := Selecting, se_locked := False\<rparr>)
      | Suspending now (k # ks) \<Rightarrow>
          (case map_of (delayed_list s) k of
             None \<Rightarrow> Some (s\<lparr>se_worker := Suspending now ks\<rparr>)
           | Some (t, st) \<Rightarrow>
               if t \<noteq> 0 \<and> now < t then Some (s\<lparr>se_worker := Suspending now ks\<rparr>)
               else if length (se_queue s) < state_chan_buf
               then Some (s\<lparr>se_worker := Suspending now ks,
                   se_delayed := Some (AList.delete k (delayed_list s)),
                   se_queue := se_queue s @ [st\<lparr>st_input := Some (en_resumed env t)\<rparr>]\<rparr>)
               else None)
      | _ \<Rightarrow> None)"

definition worker_pull :: "('v, 'w) session \<Rightarrow> ('v, 'w) session option" where
  "worker_pull s =
     (if se_worker s = Selecting then
        (case se_queue s of
           [] \<Rightarrow> None
         | st # q \<Rightarrow>
             Some (s\<lparr>se_queue := q, se_worker := (if st_step st = None then Completing st else WaitSlot st)\<rparr>))
      else None)"

definition worker_complete :: "('v, 'w) session \<Rightarrow> ('v, 'w) session option" where
  "worker_complete s =
     (case se_worker s of
        Completing st \<Rightarrow>
          if se_locked s then None
          else if status_of s = SessionPrompted \<or> status_of s = SessionDelayed
          then Some (s\<lparr>se_worker := Selecting\<rparr>)
          else Some (s\<lparr>se_result := Some (must_merge (Some Map.empty) [st_scope st]),
              se_events := se_events s @ [(SessionCompleted, st)], se_worker := Stopping\<rparr>)
      | _ \<Rightarrow> None)"

definition worker_spawn :: "('v, 'w) session \<Rightarrow> ('v, 'w) session option" where
  "worker_spawn s =
     (case se_worker s of
        WaitSlot st \<Rightarrow>
          if length (se_goros s) < concurrent_exec
          then Some (s\<lparr>se_goros := se_goros s @ [Executing st], se_worker := Selecting\<rparr>) else None
      | _ \<Rightarrow> None)"

definition worker_take_error :: "('v, 'w) session \<Rightarrow> ('v, 'w) session option" where
  "worker_take_error s =
     (if se_worker s = Selecting then
        (case se_qerr s of [] \<Rightarrow> None | e # q \<Rightarrow> Some (s\<lparr>se_qerr := q, se_worker := GotError e\<rparr>))
      else None)"

definition worker_set_error :: "('v, 'w) session \<Rightarrow> ('v, 'w) session option" where
  "worker_set_error s =
     (case se_worker s of
        GotError e \<Rightarrow>
          if se_locked s then None
          else if e = None then Some (s\<lparr>se_worker := Stopping\<rparr>)
          else Some (s\<lparr>se_err := e, se_worker := Stopping\<rparr>)
      | _ \<Rightarrow> None)"

text \<open>The deferred \<open>Stop\<close> of the worker.\<close>

definition worker_stop :: "('v, 'w) session \<Rightarrow> ('v, 'w) session option" where
  "worker_stop s =
     (if se_worker s = Stopping then map_option (\<lambda>s. s\<lparr>se_worker := Stopped\<rparr>) (session_stop s) else None)"

section \<open>The goroutines\<close>

definition set_goro :: "nat \<Rightarrow> 'v goroutine \<Rightarrow> ('v, 'w) session \<Rightarrow> ('v, 'w) session" where
  "set_goro k gr s = s\<lparr>se_goros := (se_goros s)[k := gr]\<rparr>"

definition end_goro :: "nat \<Rightarrow> ('v, 'w) session \<Rightarrow> ('v, 'w) session" where
  "end_goro k s = s\<lparr>se_goros := take k (se_goros s) @ drop (Suc k) (se_goros s)\<rparr>"

definition goro_at :: "nat \<Rightarrow> ('v, 'w) session \<Rightarrow> 'v goroutine option" where
  "goro_at k s = (if k < length (se_goros s) then Some (se_goros s ! k) else None)"

text \<open>
  What an execution does to the maps, under the lock. A delay after a termination is an assignment
  to a nil map: it panics with the lock held, and nothing releases it.
\<close>

definition apply_effect :: "('v, 'w) wf_env \<Rightarrow> ('v, 'w) exec_result \<Rightarrow> nat \<Rightarrow> ('v, 'w) session \<Rightarrow> ('v, 'w) session" where
  "apply_effect env x k s =
     (let st = xr_state x; fin = Finishing (if st_err st = None then st\<lparr>st_err := xr_err x\<rparr> else st) (xr_next x)
      in case xr_effect x of
        NoEffect \<Rightarrow> set_goro k fin s
      | ClearDelayed \<Rightarrow> (set_goro k fin s)\<lparr>se_delayed := None\<rparr>
      | AddDelayed t \<Rightarrow>
          (case se_delayed s of
             None \<Rightarrow> (set_goro k (Panicking st (StepCrashed (en_sid env (st_step st)) ''assignment to entry in nil map'')) s)\<lparr>se_locked := True\<rparr>
           | Some d \<Rightarrow> (set_goro k fin s)\<lparr>se_delayed := Some (AList.update (st_id st) (t, st) d)\<rparr>)
      | AddPrompted p \<Rightarrow>
          (set_goro k fin s)\<lparr>se_prompted := AList.update (st_id st) (p, st) (se_prompted s)\<rparr>)"

definition goro_exec :: "('v, 'w) wf_env \<Rightarrow> int \<Rightarrow> nat \<Rightarrow> ('v, 'w) session \<Rightarrow> ('v, 'w) session option" where
  "goro_exec env now k s =
     (case goro_at k s of
        Some (Executing st) \<Rightarrow>
          (let x = exec env (se_id s) now (se_graph s) st (se_mem s); s' = s\<lparr>se_mem := xr_mem x\<rparr>
           in case xr_panic x of
                Some e \<Rightarrow> Some (set_goro k (Panicking (xr_state x) e) s')
              | None \<Rightarrow>
                  if xr_effect x \<noteq> NoEffect \<and> se_locked s then None
                  else Some (apply_effect env x k s'))
      | _ \<Rightarrow> None)"

definition goro_panic :: "nat \<Rightarrow> ('v, 'w) session \<Rightarrow> ('v, 'w) session option" where
  "goro_panic k s =
     (case goro_at k s of
        Some (Panicking st e) \<Rightarrow> map_option (set_goro k (Finishing st [])) (push_err (Some e) s)
      | _ \<Rightarrow> None)"

definition goro_finish :: "('v, 'w) wf_env \<Rightarrow> int \<Rightarrow> nat \<Rightarrow> ('v, 'w) session \<Rightarrow> ('v, 'w) session option" where
  "goro_finish env now k s =
     (case goro_at k s of
        Some (Finishing st nxt) \<Rightarrow>
          if se_locked s then None
          else (case st_err st of
                  None \<Rightarrow> Some (set_goro k (Notifying (status_of s) (st\<lparr>st_completed := Some now\<rparr>) nxt) s)
                | Some e \<Rightarrow> Some (set_goro k (Failing (status_of s) (st\<lparr>st_completed := Some now,
                    st_err := Some (ExecutionFailed (se_workflow s) (en_sid env (st_step st)) e)\<rparr>) nxt) s))
      | _ \<Rightarrow> None)"

definition goro_fail :: "nat \<Rightarrow> ('v, 'w) session \<Rightarrow> ('v, 'w) session option" where
  "goro_fail k s =
     (case goro_at k s of
        Some (Failing status st nxt) \<Rightarrow>
          if se_locked s then None
          else if st_handled st then Some (set_goro k (Notifying status st nxt) s)
          else (case push_err (st_err st) s of
                  Some s' \<Rightarrow> Some (set_goro k (Notifying SessionFailed st nxt) s')
                | None \<Rightarrow> Some ((set_goro k (FailPush st nxt) s)\<lparr>se_locked := True\<rparr>))
      | _ \<Rightarrow> None)"

definition goro_fail_push :: "nat \<Rightarrow> ('v, 'w) session \<Rightarrow> ('v, 'w) session option" where
  "goro_fail_push k s =
     (case goro_at k s of
        Some (FailPush st nxt) \<Rightarrow>
          map_option (\<lambda>s'. (set_goro k (Notifying SessionFailed st nxt) s')\<lparr>se_locked := False\<rparr>) (push_err (st_err st) s)
      | _ \<Rightarrow> None)"

definition goro_notify :: "nat \<Rightarrow> ('v, 'w) session \<Rightarrow> ('v, 'w) session option" where
  "goro_notify k s =
     (case goro_at k s of
        Some (Notifying status st nxt) \<Rightarrow>
          Some ((set_goro k (Enqueueing nxt) s)\<lparr>se_events := se_events s @ [(status, st)]\<rparr>)
      | _ \<Rightarrow> None)"

text \<open>A nil state among the next ones is dereferenced outside the deferred recover: the process dies.\<close>

definition goro_enqueue :: "('v, 'w) wf_env \<Rightarrow> nat \<Rightarrow> ('v, 'w) session \<Rightarrow> ('v, 'w) session option" where
  "goro_enqueue env k s =
     (case goro_at k s of
        Some (Enqueueing []) \<Rightarrow> Some (end_goro k s)
      | Some (Enqueueing (None # nxt)) \<Rightarrow> Some (s\<lparr>se_crashed := True\<rparr>)
      | Some (Enqueueing (Some n # nxt)) \<Rightarrow>
          (case enqueue env n s of
             None \<Rightarrow> None
           | Some (Some e, s') \<Rightarrow> Some (end_goro k s')
           | Some (None, s') \<Rightarrow> Some (set_goro k (Enqueueing nxt) s'))
      | _ \<Rightarrow> None)"

section \<open>Steps and reachable sessions\<close>

datatype 'v action =
    DoExec int "u64 option" step "'v vars option"
  | DoResume "u64 option" u64 "'v vars option"
  | DoCancel
  | DoContextDone
  | DoWorkerDone
  | DoTick int
  | DoSuspended "u64 list"
  | DoWorkerResume
  | DoPull
  | DoComplete
  | DoSpawn
  | DoTakeError
  | DoSetError
  | DoStop
  | DoGoroExec int nat
  | DoGoroPanic nat
  | DoGoroFinish int nat
  | DoGoroFail nat
  | DoGoroFailPush nat
  | DoGoroNotify nat
  | DoGoroEnqueue nat

definition act :: "('v, 'w) wf_env \<Rightarrow> 'v action \<Rightarrow> ('v, 'w) session \<Rightarrow> ('v, 'w) session option" where
  "act env a s =
     (if se_crashed s then None
      else case a of
        DoExec now owner st scope \<Rightarrow> map_option snd (session_exec env now owner st scope s)
      | DoResume ident i input \<Rightarrow> map_option snd (session_resume env ident i input s)
      | DoCancel \<Rightarrow> session_cancel s
      | DoContextDone \<Rightarrow> Some (s\<lparr>se_done := True\<rparr>)
      | DoWorkerDone \<Rightarrow> worker_context_done s
      | DoTick now \<Rightarrow> worker_tick now s
      | DoSuspended ks \<Rightarrow> worker_suspended ks s
      | DoWorkerResume \<Rightarrow> worker_resume env s
      | DoPull \<Rightarrow> worker_pull s
      | DoComplete \<Rightarrow> worker_complete s
      | DoSpawn \<Rightarrow> worker_spawn s
      | DoTakeError \<Rightarrow> worker_take_error s
      | DoSetError \<Rightarrow> worker_set_error s
      | DoStop \<Rightarrow> worker_stop s
      | DoGoroExec now k \<Rightarrow> goro_exec env now k s
      | DoGoroPanic k \<Rightarrow> goro_panic k s
      | DoGoroFinish now k \<Rightarrow> goro_finish env now k s
      | DoGoroFail k \<Rightarrow> goro_fail k s
      | DoGoroFailPush k \<Rightarrow> goro_fail_push k s
      | DoGoroNotify k \<Rightarrow> goro_notify k s
      | DoGoroEnqueue k \<Rightarrow> goro_enqueue env k s)"

inductive wf_step :: "('v, 'w) wf_env \<Rightarrow> ('v, 'w) session \<Rightarrow> ('v, 'w) session \<Rightarrow> bool" for env where
  step: "act env a s = Some s' \<Longrightarrow> wf_step env s s'"

abbreviation wf_steps :: "('v, 'w) wf_env \<Rightarrow> ('v, 'w) session \<Rightarrow> ('v, 'w) session \<Rightarrow> bool" where
  "wf_steps env \<equiv> (wf_step env)\<^sup>*\<^sup>*"

fun run_session :: "('v, 'w) wf_env \<Rightarrow> 'v action list \<Rightarrow> ('v, 'w) session \<Rightarrow> ('v, 'w) session option" where
  "run_session env [] s = Some s"
| "run_session env (a # as) s = (case act env a s of None \<Rightarrow> None | Some s' \<Rightarrow> run_session env as s')"

lemma run_session_steps: "run_session env as s = Some s' \<Longrightarrow> wf_steps env s s'"
  by (induction as arbitrary: s) (auto intro: wf_step.step converse_rtranclp_into_rtranclp split: option.splits)

lemma run_session_append:
  "run_session env (as @ bs) s = (case run_session env as s of None \<Rightarrow> None | Some s' \<Rightarrow> run_session env bs s')"
  by (induction as arbitrary: s) (auto split: option.splits)

text \<open>The equations of the steps, for proofs that go through all of them.\<close>

lemmas client_defs = session_exec_def session_resume_def session_cancel_def session_stop_def
  enqueue_def push_err_def draw_id_def new_state_def alloc_loops_def

lemmas worker_defs = worker_context_done_def worker_tick_def worker_suspended_def worker_resume_def
  worker_pull_def worker_complete_def worker_spawn_def worker_take_error_def worker_set_error_def worker_stop_def

lemmas goro_defs = goro_exec_def goro_panic_def goro_finish_def goro_fail_def goro_fail_push_def goro_notify_def
  goro_enqueue_def apply_effect_def set_goro_def end_goro_def

end
