(* ===== verification/WfLoop.thy ===== *)
theory WfLoop
  imports WfState
begin

text \<open>
  \<^verbatim>\<open>automation/automation/iterators.go\<close> and \<^verbatim>\<open>loop_handler.go\<close>: the iterator handlers of the
  loops a workflow can use, behind the interface \<open>IteratorHandler\<close> that \<open>genericIterator\<close> calls.
  An \<open>int64\<close> is a word read by \<^const>\<open>sint\<close>. The expression of a condition loop and the scanner
  of a line loop are parameters.
\<close>

type_synonym i64 = "64 word"

text \<open>\<open>Typify\<close> on the types the loops use: other typed values are a parameter.\<close>

datatype 'a typed = TInt i64 | TBool bool | TText string | TOther 'a

section \<open>The handlers\<close>

record sequence_iterator =
  sq_counter :: i64
  sq_first :: i64
  sq_last :: i64
  sq_step :: i64

definition seq_more :: "sequence_iterator \<Rightarrow> bool" where
  "seq_more i \<longleftrightarrow> sint (sq_counter i) < sint (sq_last i)"

definition seq_has_next :: "'a typed vars \<Rightarrow> sequence_iterator \<Rightarrow> (string + bool) \<times> sequence_iterator" where
  "seq_has_next scope i = (Inr (seq_more i), i)"

definition seq_next :: "'a typed vars \<Rightarrow> sequence_iterator \<Rightarrow> (string + 'a typed vars option) \<times> sequence_iterator" where
  "seq_next scope i =
     (let i' = i\<lparr>sq_counter := sq_counter i + sq_step i\<rparr>
      in (Inr (Some [''counter'' \<mapsto> TInt (sq_counter i),
            ''isFirst'' \<mapsto> TBool (sq_counter i = sq_first i),
            ''isLast'' \<mapsto> TBool (\<not> seq_more i')]), i'))"

definition divide_panic :: string where
  "divide_panic = ''panic: integer divide by zero''"

text \<open>
  \<open>sequence\<close>: arguments not given are \<^const>\<open>None\<close>. The code multiplies both bounds by
  \<open>Step/Step\<close>, Go's signed quotient, which is 1 unless the step is 0.
\<close>

definition sequence_handler :: "i64 option \<Rightarrow> i64 option \<Rightarrow> i64 option \<Rightarrow> string + sequence_iterator" where
  "sequence_handler first_arg last_arg step_arg =
     (let f = (case first_arg of None \<Rightarrow> 0 | Some f \<Rightarrow> f);
          l = (case last_arg of None \<Rightarrow> 1 | Some l \<Rightarrow> l);
          s = (case step_arg of None \<Rightarrow> 1 | Some s \<Rightarrow> s)
      in if s = 0 then Inl divide_panic
         else let q = (1 :: i64)
              in if sint (l * q) \<le> sint (f * q)
                 then Inl ''failed to initialize counter iterator with first step greater than last''
                 else Inr \<lparr>sq_counter = f, sq_first = f, sq_last = l, sq_step = s\<rparr>)"

record 'v collection_iterator =
  cl_ptr :: nat
  cl_set :: "'v list"

definition each_handler :: "'v list \<Rightarrow> 'v collection_iterator" where
  "each_handler items = \<lparr>cl_ptr = 0, cl_set = items\<rparr>"

definition each_start :: "'v collection_iterator \<Rightarrow> string option \<times> 'v collection_iterator" where
  "each_start i = (None, i\<lparr>cl_ptr := 0\<rparr>)"

definition each_has_next :: "'v vars \<Rightarrow> 'v collection_iterator \<Rightarrow> (string + bool) \<times> 'v collection_iterator" where
  "each_has_next scope i = (Inr (cl_ptr i < length (cl_set i)), i)"

definition each_next :: "'v vars \<Rightarrow> 'v collection_iterator \<Rightarrow> (string + 'v vars option) \<times> 'v collection_iterator" where
  "each_next scope i =
     (if cl_ptr i < length (cl_set i)
      then (Inr (Some [''item'' \<mapsto> cl_set i ! cl_ptr i]), i\<lparr>cl_ptr := Suc (cl_ptr i)\<rparr>)
      else (Inl ''panic: index out of range'', i))"

definition do_has_next :: "('v vars \<Rightarrow> string + bool) \<Rightarrow> 'v vars \<Rightarrow> 'w \<Rightarrow> (string + bool) \<times> 'w" where
  "do_has_next test scope w = (test scope, w)"

definition do_next :: "'v vars \<Rightarrow> 'w \<Rightarrow> (string + 'v vars option) \<times> 'w" where
  "do_next scope w = (Inr (Some Map.empty), w)"

text \<open>A scanner that stops at an error keeps it: lines still to come, the current one, the error.\<close>

record scanner =
  sc_lines :: "string list"
  sc_text :: string
  sc_err :: "string option"

definition scanner_scan :: "scanner \<Rightarrow> bool \<times> scanner" where
  "scanner_scan s = (case sc_lines s of [] \<Rightarrow> (False, s\<lparr>sc_text := ''''\<rparr>)
     | l # ls \<Rightarrow> (True, s\<lparr>sc_lines := ls, sc_text := l\<rparr>))"

definition lines_has_next :: "'a typed vars \<Rightarrow> scanner \<Rightarrow> (string + bool) \<times> scanner" where
  "lines_has_next scope s = (let (b, s) = scanner_scan s in (Inr b, s))"

definition lines_next :: "'a typed vars \<Rightarrow> scanner \<Rightarrow> (string + 'a typed vars option) \<times> scanner" where
  "lines_next scope s =
     (case sc_err s of Some e \<Rightarrow> (Inl e, s) | None \<Rightarrow> (Inr (Some [''line'' \<mapsto> TText (sc_text s)]), s))"

section \<open>Driving a handler through \<open>genericIterator\<close>\<close>

text \<open>
  The rounds of a loop whose body does not change what the handler looks at: each round is one
  call of \<open>Next\<close>, and the loop is over when it answers no step. \<^const>\<open>None\<close> is a loop still running
  after the rounds allowed.
\<close>

fun drive ::
  "('v vars \<Rightarrow> 'w \<Rightarrow> (string + bool) \<times> 'w) \<Rightarrow> ('v vars \<Rightarrow> 'w \<Rightarrow> (string + 'v vars option) \<times> 'w) \<Rightarrow>
   ('v vars option \<Rightarrow> 'w \<Rightarrow> ('v vars option \<times> string option) \<times> 'w) option \<Rightarrow>
   iterator \<Rightarrow> 'v vars \<Rightarrow> nat \<Rightarrow> 'w \<Rightarrow> ('v vars option list \<times> string option) option" where
  "drive hm nxt evl i scope 0 w = None"
| "drive hm nxt evl i scope (Suc n) w =
     (case iterator_next hm nxt evl i scope w of
        ((s, out, Some e), w) \<Rightarrow> Some ([], Some e)
      | ((None, out, None), w) \<Rightarrow> Some ([], None)
      | ((Some s, out, None), w) \<Rightarrow>
          (case drive hm nxt evl i scope n w of
             None \<Rightarrow> None
           | Some (outs, e) \<Rightarrow> Some (out # outs, e)))"

locale iterator_handler =
  fixes ok :: "'h \<Rightarrow> bool"
    and has_next :: "'v vars \<Rightarrow> 'h \<Rightarrow> (string + bool) \<times> 'h"
    and next_item :: "'v vars \<Rightarrow> 'h \<Rightarrow> (string + 'v vars option) \<times> 'h"
    and items :: "'h \<Rightarrow> 'v vars list"
  assumes has_next_law: "ok h \<Longrightarrow> has_next scope h = (Inr (items h \<noteq> []), h)"
    and next_law: "ok h \<Longrightarrow> items h = v # vs \<Longrightarrow>
      \<exists>h'. next_item scope h = (Inr (Some v), h') \<and> ok h' \<and> items h' = vs"
begin

lemma drive_items:
  assumes "ok h" and "it_next i = Some body"
  shows "drive has_next next_item (Some (\<lambda>r h. ((f r, None), h))) i scope n h =
    (if n \<le> length (items h) then None else Some (map (\<lambda>v. f (Some v)) (items h), None))"
  using assms(1)
proof (induction n arbitrary: h)
  case 0
  then show ?case by simp
next
  case (Suc n)
  show ?case
  proof (cases "items h")
    case Nil
    with Suc.prems show ?thesis by (simp add: iterator_next_def has_next_law)
  next
    case (Cons v vs)
    with next_law [OF Suc.prems] obtain h' where
      h': "next_item scope h = (Inr (Some v), h')" "ok h'" "items h' = vs" by blast
    with Cons Suc.prems assms(2) Suc.IH [OF h'(2)] show ?thesis
      by (simp add: iterator_next_def has_next_law)
  qed
qed

end

section \<open>Sequences\<close>

function seq_counters :: "int \<Rightarrow> int \<Rightarrow> int \<Rightarrow> int list" where
  "seq_counters c l s = (if c < l \<and> 0 < s then c # seq_counters (c + s) l s else [])"
  by pat_completeness auto
termination by (relation "measure (\<lambda>(c, l, s). nat (l - c))") auto

declare seq_counters.simps [simp del]

definition seq_item :: "i64 \<Rightarrow> int \<Rightarrow> int \<Rightarrow> int \<Rightarrow> 'a typed vars" where
  "seq_item f l s c =
     [''counter'' \<mapsto> TInt (word_of_int c), ''isFirst'' \<mapsto> TBool (word_of_int c = f), ''isLast'' \<mapsto> TBool (l \<le> c + s)]"

definition seq_ok :: "sequence_iterator \<Rightarrow> bool" where
  "seq_ok i \<longleftrightarrow> 0 < sint (sq_step i) \<and> sint (sq_last i) + sint (sq_step i) \<le> 2 ^ 63"

definition seq_items :: "sequence_iterator \<Rightarrow> 'a typed vars list" where
  "seq_items i = map (seq_item (sq_first i) (sint (sq_last i)) (sint (sq_step i)))
     (seq_counters (sint (sq_counter i)) (sint (sq_last i)) (sint (sq_step i)))"

lemma sint_add_bounded:
  fixes a b :: i64
  assumes "sint a + sint b < 2 ^ 63" and "0 \<le> sint b"
  shows "sint (a + b) = sint a + sint b"
proof -
  have "- (2 ^ 63) \<le> sint a" using sint_ge [of a] by simp
  with assms show ?thesis by (simp add: sint_word_ariths signed_take_bit_int_eq_self)
qed

interpretation seq: iterator_handler seq_ok seq_has_next seq_next seq_items
proof
  fix scope :: "'b typed vars" and h :: sequence_iterator
  assume "seq_ok h"
  then show "seq_has_next scope h = (Inr ((seq_items h :: 'b typed vars list) \<noteq> []), h)"
    by (simp add: seq_has_next_def seq_items_def seq_ok_def seq_more_def seq_counters.simps [of "sint (sq_counter h)"])
next
  fix scope v :: "'c typed vars" and h :: sequence_iterator and vs
  assume ok: "seq_ok h" and items: "seq_items h = v # vs"
  let ?c = "sint (sq_counter h)" and ?l = "sint (sq_last h)" and ?s = "sint (sq_step h)"
  let ?h = "h\<lparr>sq_counter := sq_counter h + sq_step h\<rparr>"
  from items have less: "?c < ?l" and v: "v = seq_item (sq_first h) ?l ?s ?c"
    and vs: "vs = map (seq_item (sq_first h) ?l ?s) (seq_counters (?c + ?s) ?l ?s)"
    by (auto simp: seq_items_def seq_counters.simps [of ?c] split: if_splits)
  from ok less have add: "sint (sq_counter h + sq_step h) = ?c + ?s"
    by (intro sint_add_bounded) (auto simp: seq_ok_def)
  have "seq_next scope h = (Inr (Some v), ?h)"
    using add by (simp add: seq_next_def Let_def v seq_item_def seq_more_def not_less)
  moreover have "seq_ok ?h" using ok by (simp add: seq_ok_def)
  moreover have "seq_items ?h = vs" by (simp add: seq_items_def vs add)
  ultimately show "\<exists>h'. seq_next scope h = (Inr (Some v), h') \<and> seq_ok h' \<and> seq_items h' = vs"
    by blast
qed

text \<open>
  A sequence loop with a positive step whose last bound plus the step stays below \<open>2^63\<close>
  runs its body once for each counter from the first up to the last bound, in steps, telling the
  first and the last round, and then ends.
\<close>

theorem sequence_counts:
  assumes "sequence_handler (Some first_arg) (Some last_arg) (Some step_arg) = Inr h"
    and "0 < sint step_arg" and "sint last_arg + sint step_arg \<le> 2 ^ 63" and "it_next i = Some body"
    and "length (seq_counters (sint first_arg) (sint last_arg) (sint step_arg)) < n"
  shows "drive seq_has_next seq_next (Some (\<lambda>r h. ((r, None), h))) i scope n h =
    Some (map (\<lambda>c. Some (seq_item first_arg (sint last_arg) (sint step_arg) c))
      (seq_counters (sint first_arg) (sint last_arg) (sint step_arg)), None)"
proof -
  from assms(1) have h: "h = \<lparr>sq_counter = first_arg, sq_first = first_arg, sq_last = last_arg, sq_step = step_arg\<rparr>"
    by (auto simp: sequence_handler_def Let_def split: if_splits)
  with assms have "seq_ok h" by (simp add: seq_ok_def)
  from seq.drive_items [OF this assms(4), of "\<lambda>r. r" scope n] show ?thesis
    using assms(5) by (simp add: h seq_items_def comp_def)
qed

theorem sequence_counts_witness:
  "drive seq_has_next seq_next (Some (\<lambda>r h. ((r, None), h))) \<lparr>it_iter = Some 1, it_next = Some 2, it_exit = Some 3, it_handler = 0\<rparr>
     (Map.empty :: unit typed vars) 3 \<lparr>sq_counter = 1, sq_first = 1, sq_last = 4, sq_step = 2\<rparr> =
   Some (map (\<lambda>c. Some (seq_item (1 :: i64) (sint (4 :: i64)) (sint (2 :: i64)) c))
     (seq_counters (sint (1 :: i64)) (sint (4 :: i64)) (sint (2 :: i64))), None)"
  by (rule sequence_counts [where body = 2]) (simp_all add: sequence_handler_def seq_counters.simps)

text \<open>
  A sequence loop from an even counter to the largest 64-bit integer by 2 never ends: the
  counter wraps around below the bound.
\<close>

theorem sequence_wraps_forever:
  "sequence_handler (Some 0) (Some 0x7FFFFFFFFFFFFFFF) (Some 2) =
     Inr \<lparr>sq_counter = 0, sq_first = 0, sq_last = 0x7FFFFFFFFFFFFFFF, sq_step = 2\<rparr> \<and>
   drive seq_has_next seq_next None \<lparr>it_iter = Some 1, it_next = Some 2, it_exit = Some 3, it_handler = 0\<rparr> (scope :: 'a typed vars) n
     \<lparr>sq_counter = 0, sq_first = 0, sq_last = 0x7FFFFFFFFFFFFFFF, sq_step = 2\<rparr> = None"
proof (rule conjI)
  show "sequence_handler (Some 0) (Some 0x7FFFFFFFFFFFFFFF) (Some 2) =
     Inr \<lparr>sq_counter = 0, sq_first = 0, sq_last = 0x7FFFFFFFFFFFFFFF, sq_step = 2\<rparr>"
    by code_simp
  define it where "it = \<lparr>it_iter = Some 1, it_next = Some 2, it_exit = Some 3, it_handler = (0::nat)\<rparr>"
  have below: "seq_more h" if "even (sq_counter h)" "sq_last h = 0x7FFFFFFFFFFFFFFF" for h
  proof -
    have last: "sint (0x7FFFFFFFFFFFFFFF :: i64) = 2 ^ 63 - 1" by simp
    from that(1) have "sq_counter h \<noteq> 0x7FFFFFFFFFFFFFFF" by auto
    then have "sint (sq_counter h) \<noteq> sint (0x7FFFFFFFFFFFFFFF :: i64)" using signed_word_eqI by blast
    moreover have "sint (sq_counter h) < 2 ^ 63" using sint_lt [of "sq_counter h"] by simp
    ultimately show ?thesis unfolding seq_more_def that(2) last by linarith
  qed
  have "drive seq_has_next seq_next None it scope n h = None"
    if "even (sq_counter h)" "sq_last h = 0x7FFFFFFFFFFFFFFF" "sq_step h = 2" for h
    using that
  proof (induction n arbitrary: h)
    case (Suc n)
    let ?h = "h\<lparr>sq_counter := sq_counter h + sq_step h\<rparr>"
    from Suc.prems have "even (sq_counter ?h)" by simp
    with Suc.prems have "drive seq_has_next seq_next None it scope n ?h = None" by (intro Suc.IH) auto
    moreover from Suc.prems below [of h]
    have "iterator_next seq_has_next seq_next None it scope h = ((Some 2, None, None), ?h)"
      by (simp add: iterator_next_def seq_has_next_def seq_next_def Let_def it_def)
    ultimately show ?case by simp
  qed simp
  from this [of "\<lparr>sq_counter = 0, sq_first = 0, sq_last = 0x7FFFFFFFFFFFFFFF, sq_step = 2\<rparr>"]
  show "drive seq_has_next seq_next None \<lparr>it_iter = Some 1, it_next = Some 2, it_exit = Some 3, it_handler = 0\<rparr> scope n
     \<lparr>sq_counter = 0, sq_first = 0, sq_last = 0x7FFFFFFFFFFFFFFF, sq_step = 2\<rparr> = None"
    by (simp add: it_def)
qed

section \<open>Collections\<close>

definition each_items :: "'v collection_iterator \<Rightarrow> 'v vars list" where
  "each_items i = map (\<lambda>v. [''item'' \<mapsto> v]) (drop (cl_ptr i) (cl_set i))"

interpretation each: iterator_handler "\<lambda>_. True" each_has_next each_next each_items
proof
  fix scope v :: "'v vars" and h :: "'v collection_iterator" and vs
  assume items: "each_items h = v # vs"
  then have "drop (cl_ptr h) (cl_set h) \<noteq> []" by (auto simp: each_items_def)
  then have ptr: "cl_ptr h < length (cl_set h)" by simp
  with items show "\<exists>h'. each_next scope h = (Inr (Some v), h') \<and> True \<and> each_items h' = vs"
    by (auto simp: each_next_def each_items_def Cons_nth_drop_Suc [symmetric])
qed (auto simp: each_has_next_def each_items_def)

text \<open>
  a loop over a collection runs its body once for each item, in order, and then ends.
\<close>

theorem each_visits_all:
  "drive each_has_next each_next (Some (\<lambda>r h. ((r, None), h)))
     \<lparr>it_iter = Some 1, it_next = Some 2, it_exit = Some 3, it_handler = 0\<rparr> scope (Suc (length vs))
     (snd (each_start (each_handler vs))) = Some (map (\<lambda>v. Some [''item'' \<mapsto> v]) vs, None)"
  by (subst each.drive_items) (simp_all add: each_items_def each_start_def each_handler_def)

end
