(* ===== verification/WfExecFacts.thy ===== *)
theory WfExecFacts
  imports WfExec WfLoop
begin

text \<open>
  What one execution of a step guarantees: it stays on the graph, an error is handled at most
  once per handler, a loop makes its rounds, and the places where it does not do what the code
  means: stacks of loops shared between forked paths, and nil steps.
\<close>

lemmas exec_unfold = exec_def exec_call_def exec_answer_def exec_handle_def exec_iterate_def exec_respond_def

lemmas exec_outcomes = exec_stop_def exec_states_def exec_crash_def

lemma exec_stop_sel [simp]:
  "xr_state (exec_stop st e eff m) = st" "xr_next (exec_stop st e eff m) = []"
  "xr_err (exec_stop st e eff m) = e" "xr_effect (exec_stop st e eff m) = eff"
  "xr_panic (exec_stop st e eff m) = None" "xr_mem (exec_stop st e eff m) = m"
  by (simp_all add: exec_stop_def)

lemma exec_states_sel [simp]:
  "xr_state (exec_states st nxt eff m) = st" "xr_next (exec_states st nxt eff m) = nxt"
  "xr_err (exec_states st nxt eff m) = None" "xr_effect (exec_states st nxt eff m) = eff"
  "xr_panic (exec_states st nxt eff m) = None" "xr_mem (exec_states st nxt eff m) = m"
  by (simp_all add: exec_states_def)

lemma exec_crash_sel [simp]:
  "xr_state (exec_crash env st e m) = st" "xr_next (exec_crash env st e m) = []"
  "xr_err (exec_crash env st e m) = None" "xr_effect (exec_crash env st e m) = NoEffect"
  "xr_mem (exec_crash env st e m) = m"
  by (simp_all add: exec_crash_def)

section \<open>Executions stay on the graph\<close>

lemma state_next_sel:
  "state_next gen s c scope m = (nn, m') \<Longrightarrow>
   st_step nn = c \<and> st_parent nn = st_step s \<and> st_scope nn = scope \<and> st_handler nn = st_handler s \<and>
   st_loops nn = st_loops s \<and> st_err nn = None \<and> st_completed nn = None \<and> \<not> st_handled nn \<and>
   me_arrays m' = me_arrays m \<and> me_world m' = me_world m"
  by (auto simp: state_next_def draw_id_def Let_def)

lemma final_state_sel:
  "final_state gen ses now scope m = (nn, m') \<Longrightarrow>
   st_step nn = None \<and> st_completed nn = Some now \<and> st_scope nn = scope \<and> st_parent nn = None"
  by (auto simp: final_state_def draw_id_def nil_loops_def Let_def)

lemma make_next_member:
  "make_next gen st scope ss m = ((nxt, e), m') \<Longrightarrow> Some nn \<in> set nxt \<Longrightarrow>
   st_step nn \<in> set ss \<and> st_step nn \<noteq> None \<and> st_parent nn = st_step st"
proof (induction ss arbitrary: m nxt e m')
  case Nil
  then show ?case by simp
next
  case (Cons s ss)
  obtain n1 m1 where n1: "state_next gen st s scope m = (n1, m1)" by (cases "state_next gen st s scope m")
  obtain nx2 e2 m2 where n2: "make_next gen st scope ss m1 = ((nx2, e2), m2)"
    by (metis prod.exhaust)
  note sel = state_next_sel [OF n1]
  show ?case
  proof (cases "s = None")
    case True
    with Cons.prems n1 sel show ?thesis by (auto simp: can_enqueue_def)
  next
    case False
    with sel have "can_enqueue n1 = None" by (simp add: can_enqueue_def)
    with Cons.prems n1 n2 have nxt: "nxt = Some n1 # nx2" by auto
    with Cons.prems(2) sel False Cons.IH [OF n2] show ?thesis by auto
  qed
qed

definition on_graph :: "graph \<Rightarrow> step \<Rightarrow> 'v state \<Rightarrow> bool" where
  "on_graph g s nn \<longleftrightarrow> st_step nn = None \<or>
     st_parent nn = s \<and> (g_children g s = [] \<or> st_step nn \<in> set (g_children g s))"

lemma finish_on_graph:
  assumes "Some nn \<in> set (xr_next (exec_finish env ses now g st scope cur m))"
  shows "on_graph g (st_step st) nn"
proof -
  define st2 where "st2 = loop_back cur (children_next g st)"
  have step: "st_step st2 = st_step st"
    by (auto simp: st2_def loop_back_def children_next_def split: option.splits)
  obtain nxt e m' where nxt: "make_next (en_gen env) st2 (Some scope) (st_next st2) m = ((nxt, e), m')"
    by (metis prod.exhaust)
  obtain fin m'' where fin: "final_state (en_gen env) ses now (Some scope) m = (fin, m'')" by (metis prod.exhaust)
  from assms have ok: "relationship_ok g st" by (auto simp: exec_finish_def split: if_splits)
  then have sub: "g_children g (st_step st) = [] \<or> set (st_next st2) \<subseteq> set (g_children g (st_step st))"
    by (auto simp: relationship_ok_def Let_def st2_def loop_back_def children_next_def split: option.splits if_splits)
  from assms ok nxt fin have "nn = fin \<or> Some nn \<in> set nxt"
    by (simp add: exec_finish_def st2_def [symmetric] Let_def split: if_splits)
  with make_next_member [OF nxt] final_state_sel [OF fin] sub step show ?thesis
    by (auto simp: on_graph_def)
qed

lemma loop_end_step: "loop_end m st = Some (out, st') \<Longrightarrow> st_step st' = st_step st"
  by (auto simp: loop_end_def split: option.splits)

lemma respond_on_graph:
  "Some nn \<in> set (xr_next (exec_respond env ses now g st scope cur r m)) \<Longrightarrow> on_graph g (st_step st) nn"
proof (cases r)
  case RTermination
  assume "Some nn \<in> set (xr_next (exec_respond env ses now g st scope cur r m))"
  with RTermination show ?thesis
    using final_state_sel [of "en_gen env" ses now "Some scope" m]
    by (auto simp: exec_respond_def on_graph_def split: prod.splits)
qed (auto simp: exec_respond_def Let_def loop_end_step dest!: finish_on_graph
    split: if_splits option.splits prod.splits)

lemma iterate_on_graph:
  "Some nn \<in> set (xr_next (exec_iterate env ses now g st scope cur r m)) \<Longrightarrow> on_graph g (st_step st) nn"
  by (cases r) (auto simp: exec_iterate_def Let_def loop_end_step dest!: respond_on_graph
    split: option.splits prod.splits)

lemma answer_on_graph:
  "Some nn \<in> set (xr_next (exec_answer env ses now g st scope cur r m)) \<Longrightarrow>
   on_graph g (st_step st) nn \<or> st_step nn = st_handler st \<and> st_parent nn = st_step st \<and> st_err st \<noteq> None"
  using iterate_on_graph [of nn env ses now g st scope cur r m]
  by (auto simp: exec_answer_def exec_handle_def Let_def dest: state_next_sel split: option.splits if_splits prod.splits)

lemma new_loop_sel: "new_loop i s m = (s', m') \<Longrightarrow>
  st_step s' = st_step s \<and> st_handler s' = st_handler s \<and> st_err s' = st_err s"
  by (auto simp: new_loop_def Let_def split: if_splits)

lemma exec_on_graph:
  "Some nn \<in> set (xr_next (exec env ses now g st m)) \<Longrightarrow>
   on_graph g (st_step st) nn \<or> st_step nn = st_handler st \<and> st_parent nn = st_step st"
  by (auto simp: exec_def exec_call_def Let_def dest!: answer_on_graph new_loop_sel
    split: option.splits prod.splits if_splits exec_outcome.splits response.splits)

text \<open>
  C11: every state an execution hands on is the final state, or stands on a child of the executed
  step (when the step has children in the graph at all), or on the error handler of the state; and
  its parent is the executed step.
\<close>

theorem execution_stays_on_graph:
  assumes "Some nn \<in> set (xr_next (exec env ses now g st m))" and "st_step nn \<noteq> None"
  shows "st_parent nn = st_step st \<and>
    (g_children g (st_step st) = [] \<or> st_step nn \<in> set (g_children g (st_step st)) \<or> st_step nn = st_handler st)"
  using exec_on_graph [OF assms(1)] assms(2) by (auto simp: on_graph_def)

section \<open>Errors\<close>

lemmas exec_eval = exec_def loop_curr_def exec_call_def exec_answer_def exec_iterate_def exec_respond_def
  exec_handle_def exec_finish_def relationship_ok_def loop_back_def children_next_def state_next_def can_enqueue_def
  final_state_def new_state_def nil_loops_def new_loop_def loop_end_def draw_id_def alloc_loops_def make_request_def
  iterator_is_def iterator_break_def iterator_step_def iterator_next_def exec_stop_def exec_states_def Let_def

text \<open>The step is run, unless it is the iterator of the innermost loop.\<close>

definition calls_step :: "'w memory \<Rightarrow> 'v state \<Rightarrow> bool" where
  "calls_step m st \<longleftrightarrow> (case loop_curr m st of None \<Rightarrow> True | Some i \<Rightarrow> \<not> iterator_is i (st_step st))"

lemma loop_curr_created [simp]: "loop_curr m (st\<lparr>st_created := t\<rparr>) = loop_curr m st"
  by (simp add: loop_curr_def Let_def)

lemma loop_curr_err [simp]: "loop_curr m (st\<lparr>st_err := e\<rparr>) = loop_curr m st"
  by (simp add: loop_curr_def Let_def)

lemma make_request_created [simp]: "make_request (st\<lparr>st_created := t\<rparr>) = make_request st"
  by (simp add: make_request_def)

lemma exec_calls:
  "calls_step m st \<Longrightarrow> exec env ses now g st m =
     exec_call env ses now g (st\<lparr>st_created := now\<rparr>) (vars_each (st_scope st)) (loop_curr m st) m"
  by (auto simp: exec_def calls_step_def must_merge_one Let_def vars_each_def split: option.splits)

lemma exec_iterates:
  "loop_curr m st = Some i \<Longrightarrow> iterator_is i (st_step st) \<Longrightarrow> exec env ses now g st m =
     exec_answer env ses now g (st\<lparr>st_created := now\<rparr>) (vars_each (st_scope st)) (Some i) (RIterator i) m"
  by (auto simp: exec_def must_merge_one Let_def vars_each_def split: option.splits)

lemma exec_failed:
  assumes "calls_step m st" and "en_exec env (st_step st) (make_request st) (me_world m) = (Returned r (Some e), w)"
  shows "exec env ses now g st m =
    exec_handle env (st\<lparr>st_created := now, st_err := Some e\<rparr>) (vars_each (st_scope st)) e (m\<lparr>me_world := w\<rparr>)"
  using assms by (cases r) (simp_all add: exec_calls exec_call_def exec_answer_def Let_def)

text \<open>
  When a step fails and an error handler is set, the execution goes on to the handler with
  the error in the scope and no handler set, so that a second failure is not handled again; with
  no handler set the error is the answer. An error of the current iterator is the answer either
  way: no handler sees it.
\<close>

theorem errors_handled_once:
  assumes "calls_step m st" and "en_exec env (st_step st) (make_request st) (me_world m) = (Returned r (Some e), w)"
    and "loop_curr m' st' = Some i" and "iterator_is i (st_step st')" and "st_err st' = None"
    and "iterator_next (en_more env (it_handler i)) (en_next env (it_handler i)) (en_eval env (it_iter i)) i
      (vars_each (st_scope st')) (me_world m') = ((n, out, Some msg), w')"
  shows "(if st_handler st = None
      then xr_err (exec env ses now g st m) = Some e \<and> xr_next (exec env ses now g st m) = []
      else xr_err (exec env ses now g st m) = None \<and>
        (\<exists>nn. xr_next (exec env ses now g st m) = [Some nn] \<and> st_step nn = st_handler st \<and> st_handler nn = None \<and>
           st_scope nn = Some ((vars_each (st_scope st))(''error'' \<mapsto> en_error env e)))) \<and>
    xr_err (exec env ses now g st' m') = Some (StepError msg) \<and> xr_next (exec env ses now g st' m') = []"
proof -
  have "(if st_handler st = None
      then xr_err (exec env ses now g st m) = Some e \<and> xr_next (exec env ses now g st m) = []
      else xr_err (exec env ses now g st m) = None \<and>
        (\<exists>nn. xr_next (exec env ses now g st m) = [Some nn] \<and> st_step nn = st_handler st \<and> st_handler nn = None \<and>
           st_scope nn = Some ((vars_each (st_scope st))(''error'' \<mapsto> en_error env e))))"
    using exec_failed [OF assms(1,2)]
    by (auto simp: exec_handle_def assign_field_def Let_def dest: state_next_sel split: prod.splits)
  moreover have "xr_err (exec env ses now g st' m') = Some (StepError msg) \<and> xr_next (exec env ses now g st' m') = []"
    using assms(5,6) by (simp add: exec_iterates [OF assms(3,4)] exec_answer_def exec_iterate_def Let_def)
  ultimately show ?thesis by blast
qed

section \<open>Rounds of a loop\<close>

lemma loops_of_fields [simp]:
  "loops_of m (st\<lparr>st_created := t\<rparr>) = loops_of m st" "loops_of m (st\<lparr>st_next := ss\<rparr>) = loops_of m st"
  "loops_of m (st\<lparr>st_action := a\<rparr>) = loops_of m st" "loops_of m (st\<lparr>st_results := vs\<rparr>) = loops_of m st"
  "loops_of m (st\<lparr>st_err := e\<rparr>) = loops_of m st"
  by (simp_all add: loops_of_def)

definition at_step :: "'w memory \<Rightarrow> 'v state \<Rightarrow> step \<Rightarrow> iterator option list \<Rightarrow> bool" where
  "at_step m st s ls \<longleftrightarrow> st_step st = s \<and> loops_ok m (st_loops st) \<and> loops_of m st = ls \<and>
     st_err st = None \<and> st_next st = [] \<and> st_completed st = None"

definition moves_to :: "('v, 'w) exec_result \<Rightarrow> step \<Rightarrow> iterator option list \<Rightarrow> 'v vars \<Rightarrow> 'w \<Rightarrow> bool" where
  "moves_to x s ls scope w \<longleftrightarrow> (\<exists>nn. xr_next x = [Some nn] \<and> at_step (xr_mem x) nn s ls \<and>
     st_scope nn = Some scope \<and> me_world (xr_mem x) = w) \<and> xr_err x = None \<and> xr_panic x = None"

lemma finish_moves:
  assumes "relationship_ok g st" and "st_next (loop_back cur (children_next g st)) = [s]" and "s \<noteq> None"
    and "loops_ok m (st_loops st)"
  shows "moves_to (exec_finish env ses now g st scope cur m) s (loops_of m st) scope (me_world m)"
proof -
  define st' where "st' = loop_back cur (children_next g st)"
  obtain nn m' where nn: "state_next (en_gen env) st' s (Some scope) m = (nn, m')" by fastforce
  have loops: "st_loops st' = st_loops st"
    by (auto simp: st'_def loop_back_def children_next_def split: option.splits)
  note sel = state_next_sel [OF nn]
  then have "can_enqueue nn = None" using assms(3) by (auto simp: can_enqueue_def)
  with assms nn have "exec_finish env ses now g st scope cur m = exec_states st' [Some nn] NoEffect m'"
    by (simp add: exec_finish_def st'_def [symmetric] Let_def exec_stop_def exec_states_def)
  moreover have "st_next nn = []" using nn by (auto simp: state_next_def draw_id_def Let_def)
  ultimately show ?thesis
    using sel loops assms(4) by (simp add: moves_to_def at_step_def loops_of_def loops_ok_def)
qed

lemma at_step_curr:
  "at_step m st s (ls @ [Some i]) \<Longrightarrow> loop_curr m st = Some i \<and> loops_ok m (st_loops st) \<and>
     loops_of m st = ls @ [Some i] \<and> st_step st = s \<and> st_err st = None \<and> st_next st = []"
  by (auto simp: at_step_def loop_curr_last)

text \<open>A round of the iterator on top of the stack, whatever loop was current before.\<close>

lemma round_begins:
  assumes "at_step m st (it_iter i) (ls @ [Some i])" and "Some b \<in> set (g_children g (it_iter i))"
    and "iterator_next (en_more env (it_handler i)) (en_next env (it_handler i)) (en_eval env (it_iter i)) i
      scope (me_world m) = ((Some b, out, None), w)"
  shows "moves_to (exec_answer env ses now g st scope cur (RIterator i) m) (Some b) (ls @ [Some i]) (scope ++ vars_each out) w"
proof -
  note st = at_step_curr [OF assms(1)]
  define st' where "st' = st\<lparr>st_action := ''iterator initialized'', st_next := [Some b], st_results := out\<rparr>"
  have "exec_answer env ses now g st scope cur (RIterator i) m =
      exec_finish env ses now g st' (scope ++ vars_each out) cur (m\<lparr>me_world := w\<rparr>)"
    using st assms(3)
    by (simp add: exec_answer_def exec_iterate_def exec_respond_def Let_def st'_def must_merge_one vars_each_def)
  moreover have "moves_to (exec_finish env ses now g st' (scope ++ vars_each out) cur (m\<lparr>me_world := w\<rparr>))
      (Some b) (loops_of (m\<lparr>me_world := w\<rparr>) st') (scope ++ vars_each out) (me_world (m\<lparr>me_world := w\<rparr>))"
    using st assms(2)
    by (intro finish_moves) (auto simp: st'_def relationship_ok_def loop_back_def children_next_def loops_ok_def Let_def
        split: option.splits)
  ultimately show ?thesis using st by (simp add: st'_def loops_of_def)
qed

lemma loops_of_len: "loops_ok m (st_loops st) \<Longrightarrow> length (loops_of m st) = ls_len (st_loops st)"
  by (simp add: loops_of_def loops_ok_def)

lemma loop_left:
  assumes "at_step m st (it_iter i) (ls @ [Some i])" and "Some b \<in> set (g_children g (it_iter i))" and "it_exit i = Some b"
    and "iterator_next (en_more env (it_handler i)) (en_next env (it_handler i)) (en_eval env (it_iter i)) i
      scope (me_world m) = ((None, out, None), w)"
  shows "moves_to (exec_answer env ses now g st scope cur (RIterator i) m) (Some b) ls (scope ++ vars_each out) w"
proof -
  note st = at_step_curr [OF assms(1)]
  define l where "l = (st_loops st)\<lparr>ls_len := ls_len (st_loops st) - 1\<rparr>"
  define st' where "st' = st\<lparr>st_action := ''iterator initialized'', st_loops := l, st_next := [Some b], st_results := out\<rparr>"
  have "loop_curr (m\<lparr>me_world := w\<rparr>) (st\<lparr>st_action := ''iterator initialized''\<rparr>) = Some i"
    using st by (simp add: loop_curr_def Let_def split: if_splits)
  then have "loop_end (m\<lparr>me_world := w\<rparr>) (st\<lparr>st_action := ''iterator initialized''\<rparr>)
      = Some ([Some b], st\<lparr>st_action := ''iterator initialized'', st_loops := l\<rparr>)"
    using assms(3) by (simp add: loop_end_def iterator_break_def l_def)
  then have "exec_answer env ses now g st scope cur (RIterator i) m =
      exec_finish env ses now g st' (scope ++ vars_each out) cur (m\<lparr>me_world := w\<rparr>)"
    using st assms(4)
    by (simp add: exec_answer_def exec_iterate_def exec_respond_def Let_def st'_def must_merge_one vars_each_def)
  moreover have "loops_ok m l" "take (ls_len l) (me_arrays m ! ls_array l) = ls"
  proof -
    have len: "ls_len (st_loops st) = Suc (length ls)" using loops_of_len [of m st] st by simp
    with st show "loops_ok m l" by (auto simp: loops_ok_def l_def)
    from st have "take (length ls) (loops_of m st) = ls" by simp
    with len show "take (ls_len l) (me_arrays m ! ls_array l) = ls" by (simp add: loops_of_def l_def min_def)
  qed
  moreover have "moves_to (exec_finish env ses now g st' (scope ++ vars_each out) cur (m\<lparr>me_world := w\<rparr>))
      (Some b) (loops_of (m\<lparr>me_world := w\<rparr>) st') (scope ++ vars_each out) (me_world (m\<lparr>me_world := w\<rparr>))"
    using st assms(2) calculation
    by (intro finish_moves) (auto simp: st'_def relationship_ok_def loop_back_def children_next_def loops_ok_def Let_def
        split: option.splits)
  ultimately show ?thesis by (simp add: st'_def loops_of_def)
qed

text \<open>The last step of a body goes back by an edge of the graph, or with no edge at all.\<close>

lemma round_ends:
  assumes "at_step m st s (ls @ [Some i])" and "s \<noteq> it_iter i" and "it_iter i \<noteq> None"
    and "g_children g s = [] \<or> g_children g s = [it_iter i]"
    and "en_exec env s (make_request st) (me_world m) = (Returned (RVars vs) None, w)"
  shows "moves_to (exec env ses now g st m) (it_iter i) (ls @ [Some i]) (vars_each (st_scope st) ++ vars_each vs) w"
proof -
  note st = at_step_curr [OF assms(1)]
  with assms(2) have "calls_step m st" by (auto simp: calls_step_def iterator_is_def)
  note x = exec_calls [OF this, of env ses now g]
  define st' where "st' = st\<lparr>st_created := now, st_err := None, st_results := vs\<rparr>"
  have "exec env ses now g st m =
      exec_finish env ses now g st' (vars_each (st_scope st) ++ vars_each vs) (Some i) (m\<lparr>me_world := w\<rparr>)"
    using st assms(5)
    by (simp add: x exec_call_def exec_answer_def exec_iterate_def exec_respond_def Let_def st'_def must_merge_one vars_each_def)
  moreover have "moves_to (exec_finish env ses now g st' (vars_each (st_scope st) ++ vars_each vs) (Some i) (m\<lparr>me_world := w\<rparr>))
      (it_iter i) (loops_of (m\<lparr>me_world := w\<rparr>) st') (vars_each (st_scope st) ++ vars_each vs) (me_world (m\<lparr>me_world := w\<rparr>))"
    using st assms(3,4)
    by (intro finish_moves) (auto simp: st'_def relationship_ok_def loop_back_def children_next_def loops_ok_def Let_def iterator_step_def)
  ultimately show ?thesis using st by (simp add: st'_def loops_of_def)
qed

text \<open>Following an execution along single successors, for at most the given number of steps.\<close>

fun follow ::
  "('v, 'w) wf_env \<Rightarrow> u64 \<Rightarrow> int \<Rightarrow> graph \<Rightarrow> nat \<Rightarrow> 'v state \<Rightarrow> 'w memory \<Rightarrow> step list \<times> 'v state \<times> 'w memory" where
  "follow env ses now g 0 st m = ([], st, m)"
| "follow env ses now g (Suc n) st m =
     (let x = exec env ses now g st m
      in case xr_next x of
           [Some nn] \<Rightarrow> (let (ss, st', m') = follow env ses now g n nn (xr_mem x) in (st_step st # ss, st', m'))
         | _ \<Rightarrow> ([st_step st], st, xr_mem x))"

lemma follow_moves:
  assumes "moves_to (exec env ses now g st m) s ls scope w"
  obtains nn where "follow env ses now g (Suc n) st m =
      (let (ss, st', m') = follow env ses now g n nn (xr_mem (exec env ses now g st m)) in (st_step st # ss, st', m'))"
    and "at_step (xr_mem (exec env ses now g st m)) nn s ls" and "me_world (xr_mem (exec env ses now g st m)) = w"
  using assms by (auto simp: moves_to_def)

text \<open>
  A loop of the graph over a handler: the iterator step leads to the body and out, the body is one
  step that answers variables and leaves the world alone.
\<close>

definition loop_wired ::
  "('v vars \<Rightarrow> 'w \<Rightarrow> (string + bool) \<times> 'w) \<Rightarrow> ('v vars \<Rightarrow> 'w \<Rightarrow> (string + 'v vars option) \<times> 'w) \<Rightarrow>
   ('v, 'w) wf_env \<Rightarrow> graph \<Rightarrow> iterator \<Rightarrow> bool" where
  "loop_wired hm nxt env g i \<longleftrightarrow>
     en_more env (it_handler i) = hm \<and> en_next env (it_handler i) = nxt \<and> en_eval env (it_iter i) = None \<and>
     it_iter i \<noteq> None \<and> it_next i \<noteq> None \<and> it_exit i \<noteq> None \<and> it_next i \<noteq> it_iter i \<and>
     it_next i \<in> set (g_children g (it_iter i)) \<and> it_exit i \<in> set (g_children g (it_iter i)) \<and>
     (g_children g (it_next i) = [] \<or> g_children g (it_next i) = [it_iter i]) \<and>
     (\<forall>rq w. \<exists>vs. en_exec env (it_next i) rq w = (Returned (RVars vs) None, w))"

context iterator_handler
begin

lemma wired_round:
  assumes "loop_wired has_next next_item env g i" and "ok h" and "items h = v # vs"
  obtains h' where "iterator_next (en_more env (it_handler i)) (en_next env (it_handler i)) (en_eval env (it_iter i)) i
      scope h = ((it_next i, None, None), h')" and "ok h'" and "items h' = vs"
  using assms next_law [OF assms(2,3), of scope]
  by (auto simp: loop_wired_def iterator_next_def has_next_law)

lemma wired_end:
  assumes "loop_wired has_next next_item env g i" and "ok h" and "items h = []"
  shows "iterator_next (en_more env (it_handler i)) (en_next env (it_handler i)) (en_eval env (it_iter i)) i
      scope h = ((None, None, None), h)"
  using assms by (auto simp: loop_wired_def iterator_next_def has_next_law)

lemma loop_rounds:
  assumes "loop_wired has_next next_item env g i"
  shows "exec env ses now g st m = exec_answer env ses now g st1 (vars_each (st_scope st)) cur (RIterator i) m1 \<Longrightarrow>
    st_step st = it_iter i \<Longrightarrow> at_step m1 st1 (it_iter i) (ls @ [Some i]) \<Longrightarrow>
    ok (me_world m1) \<Longrightarrow> items (me_world m1) = vs \<Longrightarrow>
    \<exists>st' m'. follow env ses now g (2 * length vs + 1) st m =
        (concat (replicate (length vs) [it_iter i, it_next i]) @ [it_iter i], st', m') \<and>
      at_step m' st' (it_exit i) ls"
proof (induction vs arbitrary: st m st1 m1 cur)
  case Nil
  from assms obtain b where b: "it_exit i = Some b" "Some b \<in> set (g_children g (it_iter i))"
    by (auto simp: loop_wired_def)
  from loop_left [OF Nil(3) b(2,1) wired_end [OF assms Nil(4,5)]]
  have "moves_to (exec env ses now g st m) (Some b) ls (vars_each (st_scope st) ++ vars_each None) (me_world m1)"
    by (simp add: Nil(1))
  then obtain nn where "follow env ses now g (Suc 0) st m = ([st_step st], nn, xr_mem (exec env ses now g st m))"
    and "at_step (xr_mem (exec env ses now g st m)) nn (Some b) ls"
    by (rule follow_moves [where n = 0]) auto
  with Nil(2) b show ?case by auto
next
  case (Cons v vs)
  from assms obtain b where b: "it_next i = Some b" "Some b \<in> set (g_children g (it_iter i))" "Some b \<noteq> it_iter i"
    and it: "it_iter i \<noteq> None" and bk: "g_children g (Some b) = [] \<or> g_children g (Some b) = [it_iter i]"
    and body: "\<And>rq w. \<exists>r. en_exec env (Some b) rq w = (Returned (RVars r) None, w)"
    by (auto simp: loop_wired_def)
  obtain h' where h': "iterator_next (en_more env (it_handler i)) (en_next env (it_handler i)) (en_eval env (it_iter i)) i
      (vars_each (st_scope st)) (me_world m1) = ((Some b, None, None), h')" "ok h'" "items h' = vs"
    using wired_round [OF assms Cons(5,6)] b(1) by metis
  from round_begins [OF Cons(4) b(2) h'(1)]
  have "moves_to (exec env ses now g st m) (Some b) (ls @ [Some i]) (vars_each (st_scope st) ++ vars_each None) h'"
    by (simp add: Cons(2))
  then obtain s1 where s1: "follow env ses now g (Suc (Suc (2 * length vs + 1))) st m =
      (let (ss, st', m') = follow env ses now g (Suc (2 * length vs + 1)) s1 (xr_mem (exec env ses now g st m)) in (st_step st # ss, st', m'))"
    "at_step (xr_mem (exec env ses now g st m)) s1 (Some b) (ls @ [Some i])"
    "me_world (xr_mem (exec env ses now g st m)) = h'"
    by (rule follow_moves)
  let ?m1 = "xr_mem (exec env ses now g st m)"
  obtain r where "en_exec env (Some b) (make_request s1) (me_world ?m1) = (Returned (RVars r) None, me_world ?m1)"
    using body by blast
  from round_ends [OF s1(2) b(3) it bk this]
  obtain s2 where s2: "follow env ses now g (Suc (2 * length vs + 1)) s1 ?m1 =
      (let (ss, st', m') = follow env ses now g (2 * length vs + 1) s2 (xr_mem (exec env ses now g s1 ?m1)) in (st_step s1 # ss, st', m'))"
    "at_step (xr_mem (exec env ses now g s1 ?m1)) s2 (it_iter i) (ls @ [Some i])"
    "me_world (xr_mem (exec env ses now g s1 ?m1)) = me_world ?m1"
    by (rule follow_moves)
  let ?m2 = "xr_mem (exec env ses now g s1 ?m1)"
  note c2 = at_step_curr [OF s2(2)]
  have "exec env ses now g s2 ?m2 = exec_answer env ses now g (s2\<lparr>st_created := now\<rparr>) (vars_each (st_scope s2)) (Some i) (RIterator i) ?m2"
    using c2 by (simp add: exec_iterates iterator_is_def)
  moreover have "at_step ?m2 (s2\<lparr>st_created := now\<rparr>) (it_iter i) (ls @ [Some i])" using s2(2) by (simp add: at_step_def)
  moreover have "ok (me_world ?m2)" "items (me_world ?m2) = vs" using s1(3) s2(3) h'(2,3) by simp_all
  ultimately obtain st' m' where "follow env ses now g (2 * length vs + 1) s2 ?m2 =
        (concat (replicate (length vs) [it_iter i, it_next i]) @ [it_iter i], st', m')"
      and exit: "at_step m' st' (it_exit i) ls" using Cons.IH c2 by metis
  with s1(1,2) s2(1) Cons(3) b(1) have "follow env ses now g (Suc (Suc (2 * length vs + 1))) st m =
      (concat (replicate (length (v # vs)) [it_iter i, it_next i]) @ [it_iter i], st', m')"
    by (simp add: at_step_def)
  with exit show ?case by auto
qed

lemma loop_entered:
  assumes "loop_wired has_next next_item env g i" and "at_step m st (it_iter i) ls" and "calls_step m st"
    and "en_exec env (it_iter i) (make_request st) (me_world m) = (Returned (RIterator i) None, w)"
    and "en_start env (it_handler i) (vars_each (st_scope st)) w = (None, w')"
    and "ok w'" and "items w' = vs"
  shows "\<exists>st' m'. follow env ses now g (2 * length vs + 1) st m =
        (concat (replicate (length vs) [it_iter i, it_next i]) @ [it_iter i], st', m') \<and>
      at_step m' st' (it_exit i) ls"
proof -
  define st0 where "st0 = st\<lparr>st_created := now, st_err := None\<rparr>"
  obtain st1 m1 where push: "new_loop i st0 (m\<lparr>me_world := w\<rparr>) = (st1, m1)" by fastforce
  have ok0: "loops_ok (m\<lparr>me_world := w\<rparr>) (st_loops st0)" "loops_of (m\<lparr>me_world := w\<rparr>) st0 = ls"
    using assms(2) by (auto simp: st0_def at_step_def loops_ok_def loops_of_def)
  from push have flds: "st_step st1 = st_step st" "st_err st1 = None" "st_next st1 = st_next st" "st_completed st1 = st_completed st"
    by (auto simp: new_loop_def Let_def st0_def split: if_splits)
  have ans: "exec env ses now g st m = exec_answer env ses now g st1 (vars_each (st_scope st)) (loop_curr m st) (RIterator i) (m1\<lparr>me_world := w'\<rparr>)"
  proof -
    have "me_world m1 = w" using push by (auto simp: new_loop_def Let_def split: if_splits)
    with assms(2,4,5) push show ?thesis
      by (simp add: exec_calls [OF assms(3)] exec_call_def Let_def st0_def at_step_def)
  qed
  have at: "at_step (m1\<lparr>me_world := w'\<rparr>) st1 (it_iter i) (ls @ [Some i])"
    using new_loop_loops [OF ok0(1) push] ok0(2) flds assms(2) by (auto simp: at_step_def loops_ok_def loops_of_def)
  have "st_step st = it_iter i" using assms(2) by (simp add: at_step_def)
  from loop_rounds [OF assms(1) ans this at] show ?thesis using assms(6,7) by simp
qed

end


section \<open>Loops on forked paths\<close>

lemma forked_loops_overwrite:
  assumes "loops_ok m (st_loops s1)" and "st_loops s2 = st_loops s1"
    and "ls_len (st_loops s1) < length (me_arrays m ! ls_array (st_loops s1))"
    and "new_loop i1 s1 m = (s1', m1)" and "new_loop i2 s2 m1 = (s2', m2)"
  shows "loop_curr m1 s1' = Some i1 \<and> loop_curr m2 s1' = Some i2"
  using assms by (auto simp: new_loop_def loop_curr_def loops_ok_def Let_def)

text \<open>
  A fork (step 1) to two loops: iterator steps 2 and 3 with bodies 4 and 5, and a common exit 6.
  Both loops always have a further round; the bodies have no edge back.
\<close>

definition demo_iterator :: "nat \<Rightarrow> iterator" where
  "demo_iterator k = \<lparr>it_iter = Some k, it_next = Some (k + 2), it_exit = Some 6, it_handler = k\<rparr>"

definition demo_env :: "(unit, unit) wf_env" where
  "demo_env =
     \<lparr>en_exec = (\<lambda>s rq w. (Returned
          (if s = Some 1 then RSteps []
           else if s = Some 2 then RIterator (demo_iterator 2)
           else if s = Some 3 then RIterator (demo_iterator 3)
           else RVars None) None, w)),
      en_start = (\<lambda>_ _ w. (None, w)), en_more = (\<lambda>_ _ w. (Inr True, w)), en_next = (\<lambda>_ _ w. (Inr None, w)),
      en_eval = (\<lambda>_. None), en_error = (\<lambda>_. ()), en_sid = (\<lambda>s. case s of None \<Rightarrow> 0 | Some k \<Rightarrow> of_nat k),
      en_gen = (\<lambda>n. of_nat n + 1), en_resumed = (\<lambda>_. Map.empty)\<rparr>"

definition demo_graph :: graph where
  "demo_graph = build_graph [CallStep 1 (Some 1) [Some 2, Some 3], CallStep 2 (Some 2) [Some 4, Some 6],
     CallStep 3 (Some 3) [Some 5, Some 6], CallStep 4 (Some 4) [], CallStep 5 (Some 5) [], CallStep 6 (Some 6) []]"

definition demo_memory :: "'w \<Rightarrow> 'w memory" where
  "demo_memory w = \<lparr>me_world = w, me_arrays = [], me_ids = 0\<rparr>"

definition next_at :: "('v, 'w) exec_result \<Rightarrow> nat \<Rightarrow> 'v state" where
  "next_at x k = the (xr_next x ! k)"

definition fork_start :: "(unit, unit) exec_result" where
  "fork_start = (let (s0, m0) = new_state (en_gen demo_env) 1 0 None None (Some 1) None (demo_memory ())
     in exec demo_env 1 0 demo_graph s0 m0)"

definition first_path :: "(unit, unit) exec_result" where
  "first_path = exec demo_env 1 0 demo_graph (next_at fork_start 0) (xr_mem fork_start)"

definition second_path :: "(unit, unit) exec_result" where
  "second_path = exec demo_env 1 0 demo_graph (next_at fork_start 1) (xr_mem first_path)"

lemmas demo_eval = demo_env_def demo_graph_def build_graph_def apply_call_def new_graph_def add_step_def add_parent_def
  demo_memory_def demo_iterator_def

lemma next_at_record: "next_at \<lparr>xr_state = a, xr_next = nx, xr_err = b, xr_effect = c, xr_panic = d, xr_mem = e\<rparr> k = the (nx ! k)"
  by (simp add: next_at_def)

lemma fork_start_eval:
  "xr_next fork_start = [Some (next_at fork_start 0), Some (next_at fork_start 1)] \<and> st_step (next_at fork_start 0) = Some 2 \<and>
   st_step (next_at fork_start 1) = Some 3 \<and> st_loops (next_at fork_start 0) = \<lparr>ls_array = 0, ls_len = 0\<rparr> \<and>
   st_loops (next_at fork_start 1) = \<lparr>ls_array = 0, ls_len = 0\<rparr> \<and> me_arrays (xr_mem fork_start) = [[None, None, None, None]] \<and>
   st_next (next_at fork_start 0) = [] \<and> st_next (next_at fork_start 1) = [] \<and>
   st_err (next_at fork_start 0) = None \<and> st_err (next_at fork_start 1) = None"
  by (simp add: fork_start_def next_at_record demo_eval exec_eval numeral_eq_Suc)

lemma first_path_eval: "xr_next first_path = [Some (next_at first_path 0)] \<and> st_step (next_at first_path 0) = Some 4 \<and>
   st_loops (next_at first_path 0) = \<lparr>ls_array = 0, ls_len = 1\<rparr> \<and> me_arrays (xr_mem first_path) = [[Some (demo_iterator 2), None, None, None]] \<and>
   st_next (next_at first_path 0) = [] \<and> st_err (next_at first_path 0) = None"
  using fork_start_eval
  by (simp add: first_path_def next_at_record demo_eval exec_eval)
lemma second_path_eval: "me_arrays (xr_mem second_path) = [[Some (demo_iterator 3), None, None, None]]"
  using fork_start_eval first_path_eval
  by (simp add: second_path_def demo_eval exec_eval)
text \<open>
  The states of forked paths share the backing array of their stacks of loops. A loop started
  on the second path replaces the loop of the first: after the body of the first loop the state
  goes back to its own iterator when the second path has not started, and to the iterator of the
  second path when it has.
\<close>

theorem forked_loops_mixed:
  "map (map_option st_step) (xr_next fork_start) = [Some (Some 2), Some (Some 3)] \<and>
   st_step (next_at first_path 0) = Some 4 \<and>
   map (map_option st_step) (xr_next (exec demo_env 1 0 demo_graph (next_at first_path 0) (xr_mem first_path))) = [Some (Some 2)] \<and>
   map (map_option st_step) (xr_next (exec demo_env 1 0 demo_graph (next_at first_path 0) (xr_mem second_path))) = [Some (Some 3)]"
  using fork_start_eval first_path_eval second_path_eval by (simp add: exec_eval demo_eval)

theorem execution_stays_on_graph_witness:
  "\<exists>nn. Some nn \<in> set (xr_next fork_start) \<and> st_parent nn = Some 1 \<and>
     (g_children demo_graph (Some 1) = [] \<or> st_step nn \<in> set (g_children demo_graph (Some 1)) \<or> st_step nn = None)"
proof -
  obtain s0 :: "unit state" and m0 where s0: "new_state (en_gen demo_env) 1 0 None None (Some 1) None (demo_memory ()) = (s0, m0)" by fastforce
  then have f: "fork_start = exec demo_env 1 0 demo_graph s0 m0" by (simp add: fork_start_def)
  from s0 have st: "st_step s0 = Some 1" "st_handler s0 = None" by (auto simp: new_state_def draw_id_def alloc_loops_def Let_def)
  have nn: "Some (next_at fork_start 0) \<in> set (xr_next fork_start)" "st_step (next_at fork_start 0) \<noteq> None"
    using fork_start_eval by auto
  from execution_stays_on_graph [OF nn(1) [unfolded f] nn(2) [unfolded f]] nn(1) st f show ?thesis by metis
qed

definition failing_env :: "(unit, unit) wf_env" where
  "failing_env = demo_env\<lparr>en_exec := \<lambda>s rq w. (Returned (ROther ''<nil>'') (Some (StepError ''no'')), w),
     en_more := \<lambda>_ _ w. (Inl ''gone'', w)\<rparr>"

definition demo_state :: "step \<Rightarrow> step \<Rightarrow> 'v state" where
  "demo_state s h =
     \<lparr>st_id = 1, st_owner = None, st_session = 1, st_parent = None, st_step = s, st_next = [], st_err = None,
      st_input = None, st_scope = None, st_results = None, st_handler = h, st_handled = False,
      st_loops = \<lparr>ls_array = 0, ls_len = 0\<rparr>, st_action = '''', st_created = 0, st_completed = None\<rparr>"

definition loop_state :: "step \<Rightarrow> 'v state" where
  "loop_state h = (demo_state (Some 2) h)\<lparr>st_loops := \<lparr>ls_array = 0, ls_len = 1\<rparr>\<rparr>"

definition loop_memory :: "'w \<Rightarrow> 'w memory" where
  "loop_memory w = \<lparr>me_world = w, me_arrays = [[Some (demo_iterator 2), None, None, None]], me_ids = 0\<rparr>"

theorem errors_handled_once_witness:
  "(\<exists>nn. xr_next (exec failing_env 1 0 demo_graph (demo_state (Some 1) (Some 6)) (loop_memory ())) = [Some nn] \<and>
      st_step nn = Some 6 \<and> st_handler nn = None) \<and>
   xr_err (exec failing_env 1 0 demo_graph (loop_state (Some 6)) (loop_memory ())) = Some (StepError ''gone'')"
proof -
  have "(if st_handler (demo_state (Some 1) (Some 6) :: unit state) = None
      then xr_err (exec failing_env 1 0 demo_graph (demo_state (Some 1) (Some 6)) (loop_memory ())) = Some (StepError ''no'') \<and>
        xr_next (exec failing_env 1 0 demo_graph (demo_state (Some 1) (Some 6)) (loop_memory ())) = []
      else xr_err (exec failing_env 1 0 demo_graph (demo_state (Some 1) (Some 6)) (loop_memory ())) = None \<and>
        (\<exists>nn. xr_next (exec failing_env 1 0 demo_graph (demo_state (Some 1) (Some 6)) (loop_memory ())) = [Some nn] \<and>
           st_step nn = st_handler (demo_state (Some 1) (Some 6) :: unit state) \<and> st_handler nn = None \<and>
           st_scope nn = Some ((vars_each (st_scope (demo_state (Some 1) (Some 6))))(''error'' \<mapsto> en_error failing_env (StepError ''no''))))) \<and>
    xr_err (exec failing_env 1 0 demo_graph (loop_state (Some 6)) (loop_memory ())) = Some (StepError ''gone'') \<and>
    xr_next (exec failing_env 1 0 demo_graph (loop_state (Some 6)) (loop_memory ())) = []"
    by (rule errors_handled_once [where i = "demo_iterator 2" and r = "ROther ''<nil>''" and w = "()" and w' = "()" and n = None and out = None])
      (simp_all add: calls_step_def loop_curr_def demo_state_def loop_state_def loop_memory_def failing_env_def
        iterator_is_def demo_iterator_def iterator_next_def)
  then show ?thesis by (auto simp: demo_state_def)
qed

definition count_env :: "('a typed, sequence_iterator) wf_env" where
  "count_env =
     \<lparr>en_exec = (\<lambda>s rq w. (Returned (if s = Some 2 then RIterator (demo_iterator 2) else RVars None) None, w)),
      en_start = (\<lambda>_ _ w. (None, w)), en_more = (\<lambda>_. seq_has_next), en_next = (\<lambda>_. seq_next),
      en_eval = (\<lambda>_. None), en_error = (\<lambda>_. TText ''error''), en_sid = (\<lambda>_. 0),
      en_gen = (\<lambda>n. of_nat n), en_resumed = (\<lambda>_. Map.empty)\<rparr>"

lemma seq_counters_demo: "seq_counters 1 4 2 = [1, 3]"
  by code_simp


end
