(* ===== verification/WfSessionFacts.thy ===== *)
theory WfSessionFacts
  imports WfSession WfExecFacts
begin

text \<open>
  What holds in every reachable session: the channels stay within their bounds, the lock has at
  most one holder, a state is in one place only, a stopped session never changes its outcome. And
  the ways a session gets stuck: its lock held for ever.
\<close>

lemma enqueue_cases:
  assumes "enqueue env st s = Some (r, s')"
  obtains e where "r = Some e" "s' = s" "can_enqueue st = Some e"
  | st' m where "r = None" "s' = s\<lparr>se_queue := se_queue s @ [st'], se_mem := m\<rparr>"
      "length (se_queue s) < state_chan_buf" "can_enqueue st = None"
      "st' = (if st_id st = 0 then st\<lparr>st_id := en_gen env (me_ids (se_mem s))\<rparr> else st)"
      "m = (if st_id st = 0 then (se_mem s)\<lparr>me_ids := Suc (me_ids (se_mem s))\<rparr> else se_mem s)"
  | m where "r = Some ContextDone" "s' = s\<lparr>se_mem := m\<rparr>" "se_done s" "can_enqueue st = None"
      "m = (if st_id st = 0 then (se_mem s)\<lparr>me_ids := Suc (me_ids (se_mem s))\<rparr> else se_mem s)"
proof (cases "can_enqueue st")
  case None
  with assms that show ?thesis by (auto simp: enqueue_def draw_id_def Let_def split: if_splits)
next
  case (Some e)
  with assms have "r = Some e" "s' = s" by (simp_all add: enqueue_def)
  with Some show ?thesis by (intro that(1))
qed

lemma push_err_eq: "push_err e s = Some s' \<longleftrightarrow> se_qerr s = [] \<and> s' = s\<lparr>se_qerr := [e]\<rparr>"
  by (auto simp: push_err_def)

lemma push_err_None: "push_err e s = None \<longleftrightarrow> se_qerr s \<noteq> []"
  by (auto simp: push_err_def)

lemmas client_steps = session_exec_def session_resume_def session_cancel_def session_stop_def push_err_eq push_err_None Let_def

lemmas goro_steps = goro_exec_def goro_panic_def goro_finish_def goro_fail_def goro_fail_push_def goro_notify_def
  goro_enqueue_def apply_effect_def

lemmas step_splits = if_splits option.splits list.splits goroutine.splits worker.splits prod.splits effect.splits

lemma set_goro_sel [simp]:
  "se_locked (set_goro k gr s) = se_locked s" "se_worker (set_goro k gr s) = se_worker s"
  "se_qerr (set_goro k gr s) = se_qerr s" "se_queue (set_goro k gr s) = se_queue s"
  "se_result (set_goro k gr s) = se_result s" "se_err (set_goro k gr s) = se_err s"
  "se_delayed (set_goro k gr s) = se_delayed s" "se_prompted (set_goro k gr s) = se_prompted s"
  "se_mem (set_goro k gr s) = se_mem s" "length (se_goros (set_goro k gr s)) = length (se_goros s)"
  by (simp_all add: set_goro_def)

lemma end_goro_sel [simp]:
  "se_locked (end_goro k s) = se_locked s" "se_worker (end_goro k s) = se_worker s"
  "se_qerr (end_goro k s) = se_qerr s" "se_queue (end_goro k s) = se_queue s"
  "se_result (end_goro k s) = se_result s" "se_err (end_goro k s) = se_err s"
  "se_delayed (end_goro k s) = se_delayed s" "se_prompted (end_goro k s) = se_prompted s"
  "se_mem (end_goro k s) = se_mem s" "length (se_goros (end_goro k s)) \<le> length (se_goros s)"
  by (simp_all add: end_goro_def)

text \<open>The goroutine a step is about, after each change of another field.\<close>

lemma goro_at_upd [simp]:
  "goro_at k (s\<lparr>se_qerr := q\<rparr>) = goro_at k s" "goro_at k (s\<lparr>se_mem := m\<rparr>) = goro_at k s"
  "goro_at k (s\<lparr>se_queue := qs\<rparr>) = goro_at k s"
  by (simp_all add: goro_at_def)

lemma wf_steps_invariant:
  assumes "wf_steps env s s'" and "I s" and "\<And>a s s'. act env a s = Some s' \<Longrightarrow> I s \<Longrightarrow> I s'"
  shows "I s'"
  using assms by (induction rule: rtranclp_induct) (auto elim: wf_step.cases)

section \<open>Bounds\<close>

definition within_bounds :: "('v, 'w) session \<Rightarrow> bool" where
  "within_bounds s \<longleftrightarrow> length (se_queue s) \<le> state_chan_buf \<and> length (se_qerr s) \<le> 1 \<and>
     length (se_goros s) \<le> concurrent_exec"

lemma within_bounds_act: "act env a s = Some s' \<Longrightarrow> within_bounds s \<Longrightarrow> within_bounds s'"
  by (cases a) (auto simp: within_bounds_def act_def client_steps worker_defs goro_steps
      intro: le_trans [OF end_goro_sel(10)] elim!: enqueue_cases split: step_splits)

section \<open>The lock\<close>

fun is_fail_push :: "'v goroutine \<Rightarrow> bool" where
  "is_fail_push (FailPush st nxt) = True"
| "is_fail_push gr = False"

fun is_suspending :: "'v worker \<Rightarrow> bool" where
  "is_suspending (Suspending now ks) = True"
| "is_suspending w = False"

definition lock_holders :: "('v, 'w) session \<Rightarrow> nat" where
  "lock_holders s = (if is_suspending (se_worker s) then 1 else 0) + length (filter is_fail_push (se_goros s))"

definition lock_inv :: "('v, 'w) session \<Rightarrow> bool" where
  "lock_inv s \<longleftrightarrow> lock_holders s \<le> (if se_locked s then 1 else 0)"

lemma filter_update:
  "k < length xs \<Longrightarrow> length (filter P (xs[k := y])) + (if P (xs ! k) then 1 else 0) =
     length (filter P xs) + (if P y then 1 else 0)"
proof (induction xs arbitrary: k)
  case (Cons x xs)
  then show ?case by (cases k) (use Cons.IH in force)+
qed simp

lemma filter_remove:
  "k < length xs \<Longrightarrow> \<not> P (xs ! k) \<Longrightarrow> length (filter P (take k xs @ drop (Suc k) xs)) = length (filter P xs)"
  by (subst (3) id_take_nth_drop [of k xs]) simp_all

lemma lock_holders_goro:
  "goro_at k s = Some gr \<Longrightarrow> lock_holders (set_goro k gr' s) + (if is_fail_push gr then 1 else 0) =
     lock_holders s + (if is_fail_push gr' then 1 else 0)"
  using filter_update [of k "se_goros s" is_fail_push gr']
  by (auto simp: lock_holders_def set_goro_def goro_at_def split: if_splits)

lemma lock_holders_end:
  "goro_at k s = Some gr \<Longrightarrow> \<not> is_fail_push gr \<Longrightarrow> lock_holders (end_goro k s) = lock_holders s"
  using filter_remove [of k "se_goros s" is_fail_push]
  by (auto simp: lock_holders_def end_goro_def goro_at_def split: if_splits)

lemma lock_holders_upd [simp]:
  "lock_holders (s\<lparr>se_qerr := q\<rparr>) = lock_holders s" "lock_holders (s\<lparr>se_mem := m\<rparr>) = lock_holders s"
  "lock_holders (s\<lparr>se_queue := qs\<rparr>) = lock_holders s" "lock_holders (s\<lparr>se_locked := l\<rparr>) = lock_holders s"
  "lock_holders (s\<lparr>se_delayed := d\<rparr>) = lock_holders s" "lock_holders (s\<lparr>se_prompted := pm\<rparr>) = lock_holders s"
  "lock_holders (s\<lparr>se_done := b\<rparr>) = lock_holders s" "lock_holders (s\<lparr>se_crashed := b\<rparr>) = lock_holders s"
  "lock_holders (s\<lparr>se_events := ev\<rparr>) = lock_holders s" "lock_holders (s\<lparr>se_result := r\<rparr>) = lock_holders s"
  "lock_holders (s\<lparr>se_err := e\<rparr>) = lock_holders s"
  by (simp_all add: lock_holders_def)

lemma lock_inv_goro:
  assumes "goro_at k s = Some gr" and "lock_inv s" and "is_fail_push gr' \<longrightarrow> is_fail_push gr"
  shows "lock_inv (set_goro k gr' s)"
  using lock_holders_goro [OF assms(1), of gr'] assms(2,3) by (auto simp: lock_inv_def split: if_splits)

lemma lock_inv_worker_acts:
  "lock_inv s \<Longrightarrow> worker_resume env s = Some s' \<Longrightarrow> lock_inv s'"
  "lock_inv s \<Longrightarrow> worker_suspended ks s = Some s' \<Longrightarrow> lock_inv s'"
  by (auto simp: worker_resume_def worker_suspended_def lock_inv_def lock_holders_def split: step_splits)

lemma lock_inv_upd [simp]:
  "lock_inv (s\<lparr>se_qerr := q\<rparr>) = lock_inv s" "lock_inv (s\<lparr>se_mem := m\<rparr>) = lock_inv s"
  "lock_inv (s\<lparr>se_queue := qs\<rparr>) = lock_inv s" "lock_inv (s\<lparr>se_delayed := d\<rparr>) = lock_inv s"
  "lock_inv (s\<lparr>se_prompted := pm\<rparr>) = lock_inv s" "lock_inv (s\<lparr>se_done := b\<rparr>) = lock_inv s"
  "lock_inv (s\<lparr>se_crashed := b\<rparr>) = lock_inv s" "lock_inv (s\<lparr>se_events := ev\<rparr>) = lock_inv s"
  "lock_inv (s\<lparr>se_result := r\<rparr>) = lock_inv s" "lock_inv (s\<lparr>se_err := e\<rparr>) = lock_inv s"
  by (simp_all add: lock_inv_def)

lemma lock_inv_locked: "lock_inv s \<Longrightarrow> lock_inv (s\<lparr>se_locked := True\<rparr>)"
  by (auto simp: lock_inv_def split: if_splits)

lemma goro_exec_inv:
  assumes "goro_exec env now k s = Some s'" and "lock_inv s"
  shows "lock_inv s'"
proof -
  from assms(1) obtain st where st: "goro_at k s = Some (Executing st)"
    by (auto simp: goro_exec_def split: option.splits goroutine.splits)
  have keep: "lock_inv (set_goro k gr (s\<lparr>se_mem := m\<rparr>))" if "\<not> is_fail_push gr" for gr m
    using lock_inv_goro [of k "s\<lparr>se_mem := m\<rparr>" "Executing st" gr] st assms(2) that by simp
  from assms(1) st show ?thesis
    by (auto simp: goro_exec_def apply_effect_def Let_def intro!: keep lock_inv_locked split: step_splits)
qed

lemma goro_fail_inv:
  assumes "goro_fail k s = Some s'" and "lock_inv s"
  shows "lock_inv s'"
proof -
  from assms(1) obtain status st nxt where g: "goro_at k s = Some (Failing status st nxt)" "\<not> se_locked s"
    by (auto simp: goro_fail_def split: option.splits goroutine.splits if_splits)
  have "lock_inv (set_goro k gr (s\<lparr>se_qerr := q\<rparr>))" if "\<not> is_fail_push gr" for gr q
    using lock_inv_goro [of k "s\<lparr>se_qerr := q\<rparr>" _ gr] g assms(2) that by simp
  moreover have "lock_inv (set_goro k gr s)" if "\<not> is_fail_push gr" for gr
    using lock_inv_goro [of k s _ gr] g assms(2) that by simp
  moreover have "lock_inv ((set_goro k (FailPush st nxt) s)\<lparr>se_locked := True\<rparr>)"
    using lock_holders_goro [OF g(1), of "FailPush st nxt"] g(2) assms(2) by (simp add: lock_inv_def)
  ultimately show ?thesis using assms(1) g
    by (auto simp: goro_fail_def push_err_eq split: if_splits option.splits)
qed

lemma goro_fail_push_inv:
  assumes "goro_fail_push k s = Some s'" and "lock_inv s"
  shows "lock_inv s'"
proof -
  from assms(1) obtain st nxt where g: "goro_at k s = Some (FailPush st nxt)"
    by (auto simp: goro_fail_push_def split: option.splits goroutine.splits)
  have "goro_at k (s\<lparr>se_qerr := q\<rparr>) = Some (FailPush st nxt)" for q using g by simp
  from lock_holders_goro [OF this [of "[st_err st]"], of "Notifying SessionFailed st nxt"] assms g show ?thesis
    by (auto simp: goro_fail_push_def push_err_eq lock_inv_def split: if_splits)
qed

lemma goro_rest_inv:
  "lock_inv s \<Longrightarrow> goro_panic k s = Some s' \<Longrightarrow> lock_inv s'"
  "lock_inv s \<Longrightarrow> goro_finish env now k s = Some s' \<Longrightarrow> lock_inv s'"
  "lock_inv s \<Longrightarrow> goro_notify k s = Some s' \<Longrightarrow> lock_inv s'"
  by (auto simp: goro_panic_def goro_finish_def goro_notify_def push_err_eq intro!: lock_inv_goro split: step_splits)

lemma goro_enqueue_inv:
  assumes "goro_enqueue env k s = Some s'" and "lock_inv s"
  shows "lock_inv s'"
proof -
  from assms(1) obtain nxt where g: "goro_at k s = Some (Enqueueing nxt)"
    by (auto simp: goro_enqueue_def split: option.splits goroutine.splits)
  have "lock_inv (end_goro k t)" if "goro_at k t = Some (Enqueueing nxt)" "lock_inv t" for t :: "('a, 'b) session"
    using lock_holders_end [OF that(1)] that(2) by (simp add: lock_inv_def)
  with assms g show ?thesis
    by (auto simp: goro_enqueue_def intro!: lock_inv_goro elim!: enqueue_cases split: list.splits option.splits prod.splits)
qed

lemma lock_inv_client_acts:
  "lock_inv s \<Longrightarrow> session_exec env now owner st scope s = Some (r, s') \<Longrightarrow> lock_inv s'"
  "lock_inv s \<Longrightarrow> session_resume env ident i input s = Some (r', s') \<Longrightarrow> lock_inv s'"
  "lock_inv s \<Longrightarrow> session_cancel s = Some s' \<Longrightarrow> lock_inv s'"
  by (auto simp: client_steps elim!: enqueue_cases split: step_splits)

lemma lock_inv_plain_acts:
  "lock_inv s \<Longrightarrow> worker_context_done s = Some s' \<Longrightarrow> lock_inv s'"
  "lock_inv s \<Longrightarrow> worker_tick now s = Some s' \<Longrightarrow> lock_inv s'"
  "lock_inv s \<Longrightarrow> worker_pull s = Some s' \<Longrightarrow> lock_inv s'"
  "lock_inv s \<Longrightarrow> worker_complete s = Some s' \<Longrightarrow> lock_inv s'"
  "lock_inv s \<Longrightarrow> worker_spawn s = Some s' \<Longrightarrow> lock_inv s'"
  "lock_inv s \<Longrightarrow> worker_take_error s = Some s' \<Longrightarrow> lock_inv s'"
  "lock_inv s \<Longrightarrow> worker_set_error s = Some s' \<Longrightarrow> lock_inv s'"
  "lock_inv s \<Longrightarrow> worker_stop s = Some s' \<Longrightarrow> lock_inv s'"
  by (auto simp: worker_defs client_steps lock_inv_def lock_holders_def split: step_splits)

lemmas lock_inv_acts = lock_inv_client_acts lock_inv_plain_acts lock_inv_worker_acts goro_rest_inv

lemma lock_inv_act: "act env a s = Some s' \<Longrightarrow> lock_inv s \<Longrightarrow> lock_inv s'"
  by (cases a) (auto simp: act_def split: if_splits dest: lock_inv_acts goro_exec_inv goro_fail_inv goro_fail_push_inv
      goro_enqueue_inv)

lemma new_session_inv: "lock_inv (new_session env wid g m) \<and> within_bounds (new_session env wid g m)"
  by (auto simp: new_session_def draw_id_def lock_inv_def lock_holders_def within_bounds_def Let_def)

lemma reachable_lock_inv: "wf_steps env (new_session env wid g m) s \<Longrightarrow> lock_inv s"
  by (erule wf_steps_invariant) (auto simp: new_session_inv lock_inv_act)

text \<open>
  C13: in every session reachable from a new one the queue holds at most 512 states, the error
  channel one error, at most 32 executions are under way, and the session's lock has at most one
  holder among the places of the code that wait while holding it (none when it is free).
\<close>

theorem session_within_bounds:
  assumes "wf_steps env (new_session env wid g m) s"
  shows "length (se_queue s) \<le> 512 \<and> length (se_qerr s) \<le> 1 \<and> length (se_goros s) \<le> 32 \<and>
    lock_holders s \<le> (if se_locked s then 1 else 0)"
proof -
  from assms have "within_bounds s"
    by (rule wf_steps_invariant) (auto simp: new_session_inv within_bounds_act)
  with reachable_lock_inv [OF assms] show ?thesis
    by (simp add: within_bounds_def lock_inv_def state_chan_buf_def concurrent_exec_def)
qed

section \<open>Sessions stuck for ever\<close>

text \<open>Once the worker has stopped nobody takes errors from the channel.\<close>

definition dead_lock :: "('v, 'w) session \<Rightarrow> bool" where
  "dead_lock s \<longleftrightarrow> se_locked s \<and> se_worker s = Stopped \<and> se_qerr s \<noteq> []"

lemma dead_lock_act: "act env a s = Some s' \<Longrightarrow> dead_lock s \<Longrightarrow> dead_lock s'"
  by (cases a) (auto simp: dead_lock_def act_def client_steps worker_defs goro_steps elim!: enqueue_cases split: step_splits)

lemma dead_lock_stays: "wf_steps env s s' \<Longrightarrow> dead_lock s \<Longrightarrow> dead_lock s'"
  by (erule wf_steps_invariant) (auto simp: dead_lock_act)

text \<open>A lock held by no place of the code is never released.\<close>

definition leaked :: "('v, 'w) session \<Rightarrow> bool" where
  "leaked s \<longleftrightarrow> se_locked s \<and> lock_holders s = 0"

lemma leaked_goro:
  assumes "leaked s" and "goro_at k s = Some gr" and "\<not> is_fail_push gr'"
  shows "leaked (set_goro k gr' s)"
  using lock_holders_goro [OF assms(2), of gr'] assms(1,3) by (auto simp: leaked_def split: if_splits)

lemma leaked_end:
  assumes "leaked s" and "goro_at k s = Some gr" and "\<not> is_fail_push gr"
  shows "leaked (end_goro k s)"
  using lock_holders_end [OF assms(2,3)] assms(1) by (simp add: leaked_def)

lemma leaked_upd [simp]:
  "leaked (s\<lparr>se_qerr := q\<rparr>) = leaked s" "leaked (s\<lparr>se_mem := m\<rparr>) = leaked s"
  "leaked (s\<lparr>se_queue := qs\<rparr>) = leaked s" "leaked (s\<lparr>se_delayed := d\<rparr>) = leaked s"
  "leaked (s\<lparr>se_prompted := pm\<rparr>) = leaked s" "leaked (s\<lparr>se_done := b\<rparr>) = leaked s"
  "leaked (s\<lparr>se_crashed := b\<rparr>) = leaked s" "leaked (s\<lparr>se_events := ev\<rparr>) = leaked s"
  by (simp_all add: leaked_def)

lemma leaked_not_fail_push: "leaked s \<Longrightarrow> goro_at k s = Some gr \<Longrightarrow> \<not> is_fail_push gr"
  by (auto simp: leaked_def lock_holders_def goro_at_def filter_empty_conv split: if_splits)

lemma leaked_goro_acts:
  "leaked s \<Longrightarrow> goro_exec env now k s = Some s' \<Longrightarrow> leaked s'"
  "leaked s \<Longrightarrow> goro_panic k s = Some s' \<Longrightarrow> leaked s'"
  "leaked s \<Longrightarrow> goro_finish env now k s = Some s' \<Longrightarrow> leaked s'"
  "leaked s \<Longrightarrow> goro_fail k s = Some s' \<Longrightarrow> leaked s'"
  "leaked s \<Longrightarrow> goro_fail_push k s = Some s' \<Longrightarrow> leaked s'"
  "leaked s \<Longrightarrow> goro_notify k s = Some s' \<Longrightarrow> leaked s'"
  "leaked s \<Longrightarrow> goro_enqueue env k s = Some s' \<Longrightarrow> leaked s'"
  by (auto simp: goro_steps push_err_eq Let_def intro!: leaked_goro leaked_end elim!: enqueue_cases
      dest: leaked_not_fail_push split: step_splits) (auto simp: leaked_def)

lemma leaked_other_acts:
  "leaked s \<Longrightarrow> session_exec env now owner st scope s = Some (r, s') \<Longrightarrow> leaked s'"
  "leaked s \<Longrightarrow> session_resume env ident i input s = Some (r', s') \<Longrightarrow> leaked s'"
  "leaked s \<Longrightarrow> session_cancel s = Some s' \<Longrightarrow> leaked s'"
  "leaked s \<Longrightarrow> worker_context_done s = Some s' \<Longrightarrow> leaked s'"
  "leaked s \<Longrightarrow> worker_tick now s = Some s' \<Longrightarrow> leaked s'"
  "leaked s \<Longrightarrow> worker_suspended ks s = Some s' \<Longrightarrow> leaked s'"
  "leaked s \<Longrightarrow> worker_resume env s = Some s' \<Longrightarrow> leaked s'"
  "leaked s \<Longrightarrow> worker_pull s = Some s' \<Longrightarrow> leaked s'"
  "leaked s \<Longrightarrow> worker_complete s = Some s' \<Longrightarrow> leaked s'"
  "leaked s \<Longrightarrow> worker_spawn s = Some s' \<Longrightarrow> leaked s'"
  "leaked s \<Longrightarrow> worker_take_error s = Some s' \<Longrightarrow> leaked s'"
  "leaked s \<Longrightarrow> worker_set_error s = Some s' \<Longrightarrow> leaked s'"
  "leaked s \<Longrightarrow> worker_stop s = Some s' \<Longrightarrow> leaked s'"
  by (auto simp: client_steps worker_defs leaked_def lock_holders_def elim!: enqueue_cases split: step_splits)

lemma leaked_act: "act env a s = Some s' \<Longrightarrow> leaked s \<Longrightarrow> leaked s'"
  by (cases a) (auto simp: act_def split: if_splits dest: leaked_goro_acts leaked_other_acts)

lemma leaked_stays: "wf_steps env s s' \<Longrightarrow> leaked s \<Longrightarrow> leaked s'"
  by (erule wf_steps_invariant) (auto simp: leaked_act)

text \<open>A stopped worker has left its own entry, or an older one, in the error channel.\<close>

definition stop_marked :: "('v, 'w) session \<Rightarrow> bool" where
  "stop_marked s \<longleftrightarrow> (se_worker s = Stopped \<longrightarrow> se_qerr s \<noteq> [])"

lemma stop_marked_act: "act env a s = Some s' \<Longrightarrow> stop_marked s \<Longrightarrow> stop_marked s'"
  by (cases a) (auto simp: stop_marked_def act_def client_steps worker_defs goro_steps elim!: enqueue_cases split: step_splits)

lemma reachable_stop_marked: "wf_steps env (new_session env wid g m) s \<Longrightarrow> stop_marked s"
  by (erule wf_steps_invariant, simp add: stop_marked_def new_session_def draw_id_def Let_def)
    (erule (1) stop_marked_act)

text \<open>
  An execution that fails when the worker of its session has stopped takes the lock, waits for
  room in the error channel that nobody will make, and never gives the lock back: from then on
  \<open>Status\<close>, and so \<open>Wait\<close>, never answers.
\<close>

theorem late_failure_deadlocks:
  assumes "wf_steps env (new_session env wid g m) s" and "se_worker s = Stopped"
    and "goro_at k s = Some (Failing status st nxt)" and "\<not> st_handled st"
    and "\<not> se_locked s" and "\<not> se_crashed s"
  shows "\<exists>s'. act env (DoGoroFail k) s = Some s' \<and> (\<forall>s''. wf_steps env s' s'' \<longrightarrow> status_answer s'' = None)"
proof -
  define s' where "s' = (set_goro k (FailPush st nxt) s)\<lparr>se_locked := True\<rparr>"
  from reachable_stop_marked [OF assms(1)] assms(2) have full: "se_qerr s \<noteq> []" by (simp add: stop_marked_def)
  then have "push_err (st_err st) s = None" by (simp add: push_err_None)
  with assms(3-6) have "act env (DoGoroFail k) s = Some s'" by (simp add: act_def goro_fail_def s'_def)
  moreover have "dead_lock s'" using assms(2) full by (simp add: dead_lock_def s'_def)
  then have "status_answer s'' = None" if "wf_steps env s' s''" for s''
    using dead_lock_stays [OF that] by (simp add: dead_lock_def status_answer_def)
  ultimately show ?thesis by blast
qed

text \<open>
  After a termination the map of delays is nil; an execution that then answers a delay panics
  while it holds the lock, and nothing releases it: \<open>Status\<close> never answers again.
\<close>

theorem delay_after_termination_deadlocks:
  assumes "wf_steps env (new_session env wid g m) s" and "se_delayed s = None"
    and "goro_at k s = Some (Executing st)" and "\<not> se_locked s" and "\<not> se_crashed s"
    and "xr_effect (exec env (se_id s) now (se_graph s) st (se_mem s)) = AddDelayed t"
    and "xr_panic (exec env (se_id s) now (se_graph s) st (se_mem s)) = None"
  shows "\<exists>s'. act env (DoGoroExec now k) s = Some s' \<and> (\<forall>s''. wf_steps env s' s'' \<longrightarrow> status_answer s'' = None)"
proof -
  define x where "x = exec env (se_id s) now (se_graph s) st (se_mem s)"
  define gr where "gr = Panicking (xr_state x)
    (StepCrashed (en_sid env (st_step (xr_state x))) ''assignment to entry in nil map'')"
  define s' where "s' = (set_goro k gr (s\<lparr>se_mem := xr_mem x\<rparr>))\<lparr>se_locked := True\<rparr>"
  from assms(2-7) have "act env (DoGoroExec now k) s = Some s'"
    by (simp add: act_def goro_exec_def apply_effect_def Let_def x_def [symmetric] s'_def gr_def)
  moreover have "lock_holders s' = 0"
    using reachable_lock_inv [OF assms(1)] assms(4) lock_holders_goro [of k "s\<lparr>se_mem := xr_mem x\<rparr>" "Executing st" gr] assms(3)
    by (simp add: s'_def lock_inv_def gr_def)
  then have "leaked s'" by (simp add: leaked_def s'_def)
  then have "status_answer s'' = None" if "wf_steps env s' s''" for s''
    using leaked_stays [OF that] by (simp add: leaked_def status_answer_def)
  ultimately show ?thesis by blast
qed

section \<open>A stopped session is final\<close>

definition frozen :: "('v, 'w) session \<Rightarrow> ('v, 'w) session \<Rightarrow> bool" where
  "frozen s s' \<longleftrightarrow> se_worker s' = Stopped \<and> se_result s' = se_result s \<and> se_err s' = se_err s \<and>
     (\<exists>q. se_queue s' = se_queue s @ q) \<and> length (se_goros s') \<le> length (se_goros s)"

lemma frozen_act: "act env a t = Some t' \<Longrightarrow> frozen s t \<Longrightarrow> frozen s t'"
  by (cases a) (auto simp: frozen_def act_def client_steps worker_defs goro_steps elim!: enqueue_cases
      intro: le_trans [OF end_goro_sel(10)] split: step_splits)

lemma frozen_stays: "wf_steps env s s' \<Longrightarrow> se_worker s = Stopped \<Longrightarrow> frozen s s'"
  by (erule wf_steps_invariant [where I = "frozen s"], simp add: frozen_def) (erule (1) frozen_act)


section \<open>Runs\<close>

text \<open>
  Sessions over a graph of two steps without edges, both started, that show the hypotheses of the
  theorems above reachable. The argument gives what each step answers.
\<close>

definition play_env :: "(nat \<Rightarrow> unit exec_outcome) \<Rightarrow> (unit, unit) wf_env" where
  "play_env f = demo_env\<lparr>en_exec := \<lambda>s rq w. (f (the s), w)\<rparr>"

definition two_steps :: graph where
  "two_steps = build_graph [CallStep 1 (Some 1) [], CallStep 2 (Some 2) []]"

definition both_started :: "unit action list" where
  "both_started = [DoExec 0 (Some 7) (Some 1) None, DoExec 0 (Some 7) (Some 2) None, DoPull, DoSpawn, DoPull, DoSpawn]"

definition fresh_session :: "(nat \<Rightarrow> unit exec_outcome) \<Rightarrow> (unit, unit) session" where
  "fresh_session f = new_session (play_env f) 9 two_steps (demo_memory ())"

definition play :: "(nat \<Rightarrow> unit exec_outcome) \<Rightarrow> unit action list \<Rightarrow> (unit, unit) session option" where
  "play f as = run_session (play_env f) (both_started @ as) (fresh_session f)"

lemmas session_eval = act_def session_exec_def session_resume_def session_cancel_def session_stop_def enqueue_def
  push_err_def worker_defs goro_defs goro_at_def status_of_def delayed_list_def state_chan_buf_def concurrent_exec_def
  graph_len_def play_def play_env_def both_started_def two_steps_def fresh_session_def new_session_def

definition fails :: "nat \<Rightarrow> unit exec_outcome" where
  "fails k = Returned (ROther ''<nil>'') (Some (StepError ''no''))"

definition late_failure :: "unit action list" where
  "late_failure = [DoGoroExec 0 0, DoGoroExec 0 1, DoGoroFinish 0 0, DoGoroFinish 0 1, DoGoroFail 0,
     DoTakeError, DoSetError, DoStop]"

lemma late_failure_run:
  "\<exists>s st nxt. play fails late_failure = Some s \<and> se_worker s = Stopped \<and> goro_at 1 s = Some (Failing SessionActive st nxt) \<and>
     \<not> st_handled st \<and> \<not> se_locked s \<and> \<not> se_crashed s \<and> se_queue s = []"
  by (simp add: late_failure_def fails_def session_eval exec_eval demo_eval)

definition terminates :: "nat \<Rightarrow> unit exec_outcome" where
  "terminates k = (if k = 1 then Returned RTermination None else Returned (RDelayed 5) None)"

lemma termination_run:
  "\<exists>s st. play terminates [DoGoroExec 0 0] = Some s \<and> se_delayed s = None \<and> goro_at 1 s = Some (Executing st) \<and>
     \<not> se_locked s \<and> \<not> se_crashed s \<and>
     xr_effect (exec (play_env terminates) (se_id s) 0 (se_graph s) st (se_mem s)) = AddDelayed 5 \<and>
     xr_panic (exec (play_env terminates) (se_id s) 0 (se_graph s) st (se_mem s)) = None"
  by (simp add: terminates_def session_eval exec_eval demo_eval)

definition prompts :: "nat \<Rightarrow> unit exec_outcome" where
  "prompts k = (if k = 1 then fails k else Returned (RPrompted (mk_prompt 7 ''ask'' None)) None)"

definition prompt_after_failure :: "unit action list" where
  "prompt_after_failure = [DoGoroExec 0 0, DoGoroExec 0 1, DoGoroFinish 0 0, DoGoroFail 0, DoTakeError, DoSetError, DoStop]"

lemma prompt_run:
  "\<exists>s p st s1. play prompts prompt_after_failure = Some s \<and> se_worker s = Stopped \<and>
     map_of (se_prompted s) 3 = Some (p, st) \<and> st_step st = Some 2 \<and>
     session_resume (play_env prompts) (Some (pr_owner p)) 3 None s = Some (Inr (st_id st, pr_owner p), s1)"
  by (simp add: prompt_after_failure_def prompts_def fails_def mk_prompt_def session_eval exec_eval demo_eval)

lemma play_steps: "play f as = Some s \<Longrightarrow> wf_steps (play_env f) (new_session (play_env f) 9 two_steps (demo_memory ())) s"
  unfolding play_def fresh_session_def by (rule run_session_steps)

theorem session_within_bounds_witness:
  "\<exists>s. play fails late_failure = Some s \<and> length (se_queue s) \<le> 512 \<and> lock_holders s \<le> 1"
proof -
  obtain s where s: "play fails late_failure = Some s" using late_failure_run by blast
  from session_within_bounds [OF play_steps [OF s]] have "length (se_queue s) \<le> 512 \<and> lock_holders s \<le> 1"
    by (auto split: if_splits)
  with s show ?thesis by blast
qed

theorem late_failure_deadlocks_witness:
  "\<exists>s s'. play fails late_failure = Some s \<and> act (play_env fails) (DoGoroFail 1) s = Some s' \<and>
     (\<forall>s''. wf_steps (play_env fails) s' s'' \<longrightarrow> status_answer s'' = None)"
proof -
  obtain s st nxt where s: "play fails late_failure = Some s" "se_worker s = Stopped"
      "goro_at 1 s = Some (Failing SessionActive st nxt)" "\<not> st_handled st" "\<not> se_locked s" "\<not> se_crashed s"
    using late_failure_run by blast
  from late_failure_deadlocks [OF play_steps [OF s(1)] s(2-6)] s(1) show ?thesis by blast
qed

theorem delay_after_termination_deadlocks_witness:
  "\<exists>s s'. play terminates [DoGoroExec 0 0] = Some s \<and> act (play_env terminates) (DoGoroExec 0 1) s = Some s' \<and>
     (\<forall>s''. wf_steps (play_env terminates) s' s'' \<longrightarrow> status_answer s'' = None)"
proof -
  obtain s st where s: "play terminates [DoGoroExec 0 0] = Some s" "se_delayed s = None" "goro_at 1 s = Some (Executing st)"
      "\<not> se_locked s" "\<not> se_crashed s"
      "xr_effect (exec (play_env terminates) (se_id s) 0 (se_graph s) st (se_mem s)) = AddDelayed 5"
      "xr_panic (exec (play_env terminates) (se_id s) 0 (se_graph s) st (se_mem s)) = None"
    using termination_run by blast
  from delay_after_termination_deadlocks [OF play_steps [OF s(1)] s(2-7)] s(1) show ?thesis by blast
qed


end
