(* ===== verification/Decimal.thy ===== *)
theory Decimal
  imports Prelude
begin

text \<open>Decimal notation of unsigned 64 bit numbers: Go's \<open>strconv.FormatUint\<close> and \<open>strconv.ParseUint\<close> in base 10.\<close>

definition digit_char :: "nat \<Rightarrow> char" where
  "digit_char d = char_of (48 + d)"

fun format_nat :: "nat \<Rightarrow> string" where
  "format_nat n = (if n < 10 then [digit_char n] else format_nat (n div 10) @ [digit_char (n mod 10)])"

declare format_nat.simps [simp del]

definition format_uint :: "u64 \<Rightarrow> string" where
  "format_uint w = format_nat (unat w)"

text \<open>
  The parser stops at the first character that is no digit, with 0 beside its error, and when the
  number leaves 64 bits, with the greatest number: values on the left.
\<close>

fun uint_digits :: "nat \<Rightarrow> string \<Rightarrow> u64 + nat" where
  "uint_digits acc [] = Inr acc"
| "uint_digits acc (c # s) =
     (let d = of_char c in
      if d < (48::nat) \<or> 57 < d then Inl 0
      else let acc = 10 * acc + (d - 48) in if 2 ^ 64 \<le> acc then Inl (- 1) else uint_digits acc s)"

definition parse_uint :: "string \<Rightarrow> u64 option" where
  "parse_uint s = (if s = [] then None else case uint_digits 0 s of Inl v \<Rightarrow> None | Inr n \<Rightarrow> Some (of_nat n))"

text \<open>The value alone, where the error is ignored.\<close>

definition uint_value :: "string \<Rightarrow> u64" where
  "uint_value s = (if s = [] then 0 else case uint_digits 0 s of Inl v \<Rightarrow> v | Inr n \<Rightarrow> of_nat n)"

lemma of_char_digit [simp]: "d < 10 \<Longrightarrow> of_char (digit_char d) = (48 + d :: nat)"
  by (simp add: digit_char_def)

lemma format_nat_nonempty [simp]: "format_nat n \<noteq> []"
  by (subst format_nat.simps) simp

lemma uint_digits_append:
  "uint_digits acc (s @ t) = (case uint_digits acc s of Inl v \<Rightarrow> Inl v | Inr a \<Rightarrow> uint_digits a t)"
  by (induction acc s rule: uint_digits.induct) (simp_all add: Let_def)

lemma parse_format_nat: "n < 2 ^ 64 \<Longrightarrow> uint_digits 0 (format_nat n) = Inr n"
proof (induction n rule: format_nat.induct)
  case (1 n)
  show ?case
  proof (cases "n < 10")
    case True
    then show ?thesis by (subst format_nat.simps) simp
  next
    case False
    have "n div 10 < 2 ^ 64" using 1(2) by (rule le_less_trans [OF div_le_dividend])
    with 1(1) [OF False] have "uint_digits 0 (format_nat (n div 10)) = Inr (n div 10)" by simp
    with False 1(2) show ?thesis by (subst format_nat.simps) (simp add: uint_digits_append Let_def)
  qed
qed

lemma parse_format_uint [simp]: "parse_uint (format_uint w) = Some w"
proof -
  have "unat w < 2 ^ 64" using unsigned_less [of w] by simp
  then show ?thesis by (simp add: parse_uint_def format_uint_def parse_format_nat)
qed

lemma format_uint_inj [simp]: "format_uint v = format_uint w \<longleftrightarrow> v = w"
  by (metis option.inject parse_format_uint)

lemma format_uint_nonempty [simp]: "format_uint w \<noteq> []"
  by (simp add: format_uint_def)


section \<open>Signed numbers\<close>

text \<open>A signed number is the word of its two's complement: \<open>strconv.ParseInt\<close> and \<open>FormatInt\<close>.\<close>

definition parse_int :: "string \<Rightarrow> u64 option" where
  "parse_int s =
     (let (neg, t) = (case s of [] \<Rightarrow> (False, s)
                      | c # s' \<Rightarrow> if c = CHR ''-'' then (True, s') else if c = CHR ''+'' then (False, s') else (False, s))
      in case parse_uint t of
           None \<Rightarrow> None
         | Some n \<Rightarrow> if neg then if 2 ^ 63 < n then None else Some (- n)
                     else if 2 ^ 63 \<le> n then None else Some n)"

definition format_int :: "u64 \<Rightarrow> string" where
  "format_int w = (if sint w < 0 then CHR ''-'' # format_nat (nat (- sint w)) else format_nat (nat (sint w)))"

lemma uint_value_format [simp]: "uint_value (format_uint w) = w"
proof -
  have "unat w < 2 ^ 64" using unsigned_less [of w] by simp
  then show ?thesis by (simp add: uint_value_def format_uint_def parse_format_nat)
qed

lemma uint_value_parse: "parse_uint s = Some w \<Longrightarrow> uint_value s = w"
  by (simp add: parse_uint_def uint_value_def split: if_splits sum.splits)

end
