(* ===== verification/WfConvert.thy ===== *)
theory WfConvert
  imports WfGateway Decimal FilterSort
begin

text \<open>
  \<^verbatim>\<open>automation/service/workflow_converter.go\<close>: from the stored definition of a workflow to the graph
  that is executed, with \<^verbatim>\<open>automation/types/param.go\<close>, \<^verbatim>\<open>step.go\<close> and the issues of \<^verbatim>\<open>workflow.go\<close>.

  A step of the graph is the address at which its content is stored; what is stored says which step
  the constructor was given. The expression parser and the registries of types and functions are
  arguments. Texts that Go prints with \<^verbatim>\<open>%q\<close> are put between double
  quotes without escapes.
\<close>

section \<open>Definitions of workflows\<close>

record wexpr =
  we_target :: string
  we_source :: string
  we_expr :: string
  we_type :: string
  we_tests :: "string list"

record wf_step_def =
  ws_id :: u64
  ws_kind :: string
  ws_ref :: string
  ws_args :: "wexpr list"
  ws_results :: "wexpr list"

record wf_path =
  wp_expr :: string
  wp_parent :: u64
  wp_child :: u64

record wf_param =
  pa_name :: string
  pa_types :: "string list"
  pa_required :: bool

record wf_function =
  fd_kind :: string
  fd_params :: "wf_param list"
  fd_results :: "wf_param list"
  fd_handler :: bool
  fd_iterator :: bool

record conv_env =
  ce_parse :: "string \<Rightarrow> string option"
  ce_known_type :: "string \<Rightarrow> bool"
  ce_function :: "string \<Rightarrow> wf_function option"
  ce_corredor :: bool

definition is_deferred :: "wf_step_def \<Rightarrow> bool" where
  "is_deferred s \<longleftrightarrow> ws_kind s = ''prompt'' \<or> ws_kind s = ''delay''"

definition has_deferred :: "wf_step_def list \<Rightarrow> bool" where
  "has_deferred ss \<longleftrightarrow> list_ex is_deferred ss"

fun get_by_target :: "wexpr list \<Rightarrow> string \<Rightarrow> wexpr option" where
  "get_by_target [] t = None"
| "get_by_target (e # ee) t = (if we_target e = t then Some e else get_by_target ee t)"

section \<open>Issues\<close>

record wf_issue =
  is_culprit :: "(string \<times> nat) list"
  is_desc :: string

definition issue :: "string \<Rightarrow> (string \<times> nat) list \<Rightarrow> wf_issue" where
  "issue err culprit = \<lparr>is_culprit = culprit, is_desc = err\<rparr>"

definition set_culprit :: "string \<Rightarrow> nat \<Rightarrow> wf_issue list \<Rightarrow> wf_issue list" where
  "set_culprit n pos ii = map (\<lambda>i. i\<lparr>is_culprit := AList.update n pos (is_culprit i)\<rparr>) ii"

fun culprit_text :: "(string \<times> nat) list \<Rightarrow> string" where
  "culprit_text [] = []"
| "culprit_text [(k, n)] = k @ '':'' @ format_nat n"
| "culprit_text ((k, n) # kn # kns) = k @ '':'' @ format_nat n @ '' '' @ culprit_text (kn # kns)"

definition issue_text :: "wf_issue \<Rightarrow> string" where
  "issue_text i = is_desc i @ '' [map['' @ culprit_text (is_culprit i) @ '']]''"

fun distinct_loop :: "string list \<Rightarrow> wf_issue list \<Rightarrow> wf_issue list" where
  "distinct_loop idx [] = []"
| "distinct_loop idx (i # ii) =
     (if List.member idx (issue_text i) then distinct_loop idx ii else i # distinct_loop (issue_text i # idx) ii)"

definition distinct_issues :: "wf_issue list \<Rightarrow> wf_issue list" where
  "distinct_issues ii = distinct_loop [] ii"

section \<open>Parameters of functions\<close>

definition quoted :: "string \<Rightarrow> string" where
  "quoted s = CHR 0x27 # s @ [CHR 0x27]"

definition dquoted :: "string \<Rightarrow> string" where
  "dquoted s = CHR 0x22 # s @ [CHR 0x22]"

definition has_type :: "wf_param \<Rightarrow> string \<Rightarrow> bool" where
  "has_type p t \<longleftrightarrow> List.member (pa_types p) t"

fun get_param :: "wf_param list \<Rightarrow> string \<Rightarrow> wf_param option" where
  "get_param [] n = None"
| "get_param (p # pp) n = (if pa_name p = n then Some p else get_param pp n)"

fun check_params :: "wexpr list \<Rightarrow> wf_param list \<Rightarrow> string option" where
  "check_params ee [] = None"
| "check_params ee (p # pp) =
     (case get_by_target ee (pa_name p) of
        None \<Rightarrow> if pa_required p then Some (''parameter '' @ pa_name p @ '' is required'') else check_params ee pp
      | Some e \<Rightarrow>
          if \<not> has_type p (we_type e) \<and> \<not> has_type p ''Any''
          then Some (''incompatible argument type '' @ quoted (we_type e) @ '' for parameter '' @ quoted (pa_name p) @
                     (if 1 < length (pa_types p) then '', expecting one of '' else '', expecting '') @ join_strings '', '' (pa_types p))
          else check_params ee pp)"

definition verify_arguments :: "wf_param list \<Rightarrow> wexpr list \<Rightarrow> string option" where
  "verify_arguments pp ee =
     (case find (\<lambda>e. get_param pp (we_target e) = None) ee of
        Some e \<Rightarrow> Some (''unknown parameter '' @ we_target e @ '' is used'')
      | None \<Rightarrow> check_params ee pp)"

fun check_results :: "wexpr list \<Rightarrow> wf_param list \<Rightarrow> string option" where
  "check_results ee [] = None"
| "check_results ee (p # pp) =
     (case get_by_target ee (pa_name p) of
        None \<Rightarrow> check_results ee pp
      | Some e \<Rightarrow>
          if we_type e \<noteq> [] \<and> \<not> has_type p (we_type e)
          then Some (''incompatible type '' @ we_type e @ '' for result '' @ pa_name p @ '', expecting '' @ join_strings '', '' (pa_types p))
          else check_results ee pp)"

definition verify_results :: "wf_param list \<Rightarrow> wexpr list \<Rightarrow> string option" where
  "verify_results pp ee =
     (case find (\<lambda>e. 0 < length (we_source e) \<and> get_param pp (we_source e) = None) ee of
        Some e \<Rightarrow> Some (''unknown result '' @ we_source e @ '' is used'')
      | None \<Rightarrow> check_results ee pp)"

section \<open>Checks of single steps\<close>

datatype counted = Arguments | Results | Outbound | Inbound

fun counted_name :: "counted \<Rightarrow> string" where
  "counted_name Arguments = ''argument''"
| "counted_name Results = ''result''"
| "counted_name Outbound = ''outbound path''"
| "counted_name Inbound = ''inbound path''"

datatype step_check =
    Count int int counted
  | RequiredRef
  | NumericRef
  | NoRef
  | CheckDisabledFunc
  | CheckArg string string
  | RequiredArg string string
  | UnknownGateway

fun counted_length :: "wf_step_def \<Rightarrow> wf_path list \<Rightarrow> wf_path list \<Rightarrow> counted \<Rightarrow> int" where
  "counted_length s ins outs Arguments = int (length (ws_args s))"
| "counted_length s ins outs Results = int (length (ws_results s))"
| "counted_length s ins outs Outbound = int (length outs)"
| "counted_length s ins outs Inbound = int (length ins)"

definition count_check :: "wf_step_def \<Rightarrow> int \<Rightarrow> int \<Rightarrow> int \<Rightarrow> string \<Rightarrow> string option" where
  "count_check s l mi ma typ =
     (if ma = 0 \<and> mi = ma \<and> l \<noteq> mi then Some (ws_kind s @ '' step does not expect any '' @ typ @ ''s'')
      else if 0 < ma \<and> mi = ma \<and> l \<noteq> mi then Some (ws_kind s @ '' step expects exactly '' @ format_nat (nat mi) @ '' '' @ typ @ ''(s)'')
      else if l < mi then Some (ws_kind s @ '' step expects at least '' @ format_nat (nat mi) @ '' '' @ typ @ ''(s)'')
      else if 0 < ma \<and> ma < l then Some (ws_kind s @ '' step expects no more than '' @ format_nat (nat ma) @ '' '' @ typ @ ''(s)'')
      else None)"

definition check_arg :: "wf_step_def \<Rightarrow> string \<Rightarrow> string \<Rightarrow> string option" where
  "check_arg s n typ =
     (case get_by_target (ws_args s) n of
        Some e \<Rightarrow> if we_type e \<noteq> typ then Some (n @ '' argument on '' @ ws_kind s @ '' step must be '' @ typ @ '', got type '' @ quoted (we_type e)) else None
      | None \<Rightarrow> None)"

fun run_check :: "conv_env \<Rightarrow> wf_step_def \<Rightarrow> wf_path list \<Rightarrow> wf_path list \<Rightarrow> step_check \<Rightarrow> string option" where
  "run_check env s ins outs (Count mi ma typ) = count_check s (counted_length s ins outs typ) mi ma (counted_name typ)"
| "run_check env s ins outs RequiredRef = (if ws_ref s = [] then Some (ws_kind s @ '' step expects reference'') else None)"
| "run_check env s ins outs NumericRef = None"
| "run_check env s ins outs NoRef = (if ws_ref s \<noteq> [] then Some (ws_kind s @ '' step does not expects reference'') else None)"
| "run_check env s ins outs CheckDisabledFunc =
     (if \<not> ce_corredor env \<and> ws_ref s = ''corredorExec'' then Some ''not allowed to execute corredor step'' else None)"
| "run_check env s ins outs (CheckArg n typ) = check_arg s n typ"
| "run_check env s ins outs (RequiredArg n typ) =
     (if get_by_target (ws_args s) n = None then Some (ws_kind s @ '' step expects to have '' @ quoted n @ '' argument'')
      else check_arg s n typ)"
| "run_check env s ins outs UnknownGateway = Some ''unknown gateway type''"

definition gateway_check :: "wf_step_def \<Rightarrow> step_check list \<Rightarrow> step_check list" where
  "gateway_check s checks =
     (if ws_ref s = ''join'' then checks @ [Count 1 (-1) Inbound]
      else if List.member [''fork'', ''incl'', ''excl''] (ws_ref s) then checks @ [Count 1 (-1) Outbound]
      else checks @ [UnknownGateway])"

definition zero_of :: "counted \<Rightarrow> step_check" where
  "zero_of typ = Count 0 0 typ"

definition step_checks :: "wf_step_def \<Rightarrow> string + step_check list" where
  "step_checks s =
     (let k = ws_kind s in
      if k = ''error-handler'' then Inr [NoRef, zero_of Arguments, zero_of Results, Count 1 2 Outbound]
      else if k = ''debug'' then Inr [NoRef, zero_of Results, Count 0 1 Outbound]
      else if k = ''visual'' then Inr [zero_of Results, zero_of Arguments]
      else if k = ''expressions'' then Inr [NoRef, zero_of Results, Count 1 (-1) Arguments, Count 0 1 Outbound]
      else if k = ''gateway'' then Inr (gateway_check s [zero_of Arguments, zero_of Results])
      else if k = ''error''
        then Inr [RequiredArg ''message'' ''String'', Count 0 1 Arguments, zero_of Results, zero_of Outbound]
      else if k = ''termination'' then Inr [NoRef, zero_of Arguments, zero_of Results, zero_of Outbound]
      else if k = ''function'' then Inr [RequiredRef, NumericRef, CheckDisabledFunc, Count 0 1 Outbound]
      else if k = ''iterator'' then Inr [RequiredRef, Count 2 2 Outbound]
      else if k = ''prompt'' then Inr [RequiredRef, Count 0 1 Outbound]
      else if k = ''delay''
        then Inr [CheckArg ''timestamp'' ''DateTime'', CheckArg ''offset'' ''Duration'', Count 1 1 Arguments,
                  zero_of Results, Count 0 1 Outbound]
      else if k = ''break'' \<or> k = ''continue''
        then Inr [NoRef, zero_of Arguments, zero_of Results, Count 0 1 Outbound, zero_of Outbound]
      else if k = [] then Inl ''missing step kind''
      else Inl (''unknown step kind '' @ quoted k))"

definition verify_step :: "conv_env \<Rightarrow> wf_step_def \<Rightarrow> wf_path list \<Rightarrow> wf_path list \<Rightarrow> wf_issue list" where
  "verify_step env s ins outs =
     (case step_checks s of
        Inl e \<Rightarrow> [issue e []]
      | Inr checks \<Rightarrow> map (\<lambda>e. issue e []) (List.map_filter (run_check env s ins outs) checks))"

section \<open>Conversion of single steps\<close>

datatype conv_step =
    DebugStep
  | ExpressionsStep "wexpr list"
  | ForkStep
  | JoinStep "step list"
  | InclStep "(step \<times> string) list"
  | ExclStep "(step \<times> string) list"
  | FunctionStep string "wexpr list" "wexpr list"
  | IteratorStep string "wexpr list" "wexpr list" step step
  | ErrorStep "wexpr list"
  | TerminationStep
  | PromptStep string "wexpr list" "wexpr list"
  | DelayStep "wexpr list"
  | ErrHandlerStep step
  | BreakStep
  | ContinueStep

text \<open>A conversion yields an error, a step, or nothing as long as steps it needs are missing.\<close>

type_synonym conv_result = "string + conv_step option"

fun join_parents :: "graph \<Rightarrow> wf_path list \<Rightarrow> step list \<Rightarrow> step list option" where
  "join_parents g [] ss = Some ss"
| "join_parents g (p # ps) ss =
     (case step_by_id g (wp_parent p) of None \<Rightarrow> None | Some a \<Rightarrow> join_parents g ps (ss @ [Some a]))"

fun gateway_paths :: "conv_env \<Rightarrow> graph \<Rightarrow> wf_path list \<Rightarrow> (step \<times> string) list \<Rightarrow> string + (step \<times> string) list option" where
  "gateway_paths env g [] pp = Inr (Some pp)"
| "gateway_paths env g (c # cs) pp =
     (case step_by_id g (wp_child c) of
        None \<Rightarrow> Inr None
      | Some a \<Rightarrow>
          (case if 0 < length (wp_expr c) then ce_parse env (wp_expr c) else None of
             Some e \<Rightarrow> Inl e
           | None \<Rightarrow> gateway_paths env g cs (pp @ [(Some a, wp_expr c)])))"

text \<open>
  The constructors of inclusive and exclusive gateways: every path is given a test here, so they
  only ask for two paths.
\<close>

definition path_test :: "step \<times> string \<Rightarrow> bool gateway_path" where
  "path_test p = new_gateway_path (fst p) (Some (\<lambda>s. Inr True))"

definition conv_gateway :: "conv_env \<Rightarrow> graph \<Rightarrow> wf_step_def \<Rightarrow> wf_path list \<Rightarrow> wf_path list \<Rightarrow> conv_result" where
  "conv_gateway env g s ins outs =
     (if ws_ref s = ''fork'' then Inr (Some ForkStep)
      else if ws_ref s = ''join''
        then Inr (case join_parents g ins [] of None \<Rightarrow> None | Some ss \<Rightarrow> Some (JoinStep ss))
      else if ws_ref s = ''incl'' \<or> ws_ref s = ''excl''
        then (case gateway_paths env g outs [] of
                Inl e \<Rightarrow> Inl e
              | Inr None \<Rightarrow> Inr None
              | Inr (Some pp) \<Rightarrow>
                  if ws_ref s = ''excl''
                  then (case excl_gateway (map path_test pp) of Inl e \<Rightarrow> Inl e | Inr _ \<Rightarrow> Inr (Some (ExclStep pp)))
                  else (case incl_gateway (map path_test pp) of Inl e \<Rightarrow> Inl e | Inr _ \<Rightarrow> Inr (Some (InclStep pp))))
      else Inl ''unexpected workflow configuration'')"

definition conv_error_handler :: "graph \<Rightarrow> wf_path list \<Rightarrow> conv_result" where
  "conv_error_handler g outs =
     (if length outs = 0 then Inl ''expecting at least one path out of error handling step''
      else if length outs = 1 then Inr (Some (ErrHandlerStep None))
      else if length outs = 2
        then (case step_by_id g (wp_child (outs ! 1)) of None \<Rightarrow> Inr None | Some a \<Rightarrow> Inr (Some (ErrHandlerStep (Some a))))
      else Inl ''max 2 paths out of error handling step'')"

definition check_function :: "conv_env \<Rightarrow> wf_step_def \<Rightarrow> string + wf_function" where
  "check_function env s =
     (case ce_function env (ws_ref s) of
        None \<Rightarrow> Inl (''unknown function '' @ dquoted (ws_ref s))
      | Some d \<Rightarrow>
          if fd_kind d \<noteq> ws_kind s then Inl (''unexpected '' @ fd_kind d @ '' on '' @ ws_kind s @ '' step'')
          else if fd_kind d = ''iterator'' \<and> \<not> fd_iterator d then Inl (''iterator handler for '' @ dquoted (ws_ref s) @ '' not set'')
          else if fd_kind d \<noteq> ''iterator'' \<and> \<not> fd_handler d then Inl (''function handler for '' @ dquoted (ws_ref s) @ '' not set'')
          else case verify_arguments (fd_params d) (ws_args s) of
            Some e \<Rightarrow> Inl (''failed to verify argument expressions for '' @ ws_kind s @ '' '' @ ws_ref s @ '': '' @ e)
          | None \<Rightarrow>
              (case verify_results (fd_results d) (ws_results s) of
                 Some e \<Rightarrow> Inl (''failed to verify result expressions for '' @ ws_kind s @ '' '' @ ws_ref s @ '': '' @ e)
               | None \<Rightarrow> Inr d))"

definition conv_function_step :: "conv_env \<Rightarrow> graph \<Rightarrow> wf_step_def \<Rightarrow> wf_path list \<Rightarrow> conv_result" where
  "conv_function_step env g s outs =
     (case check_function env s of
        Inl e \<Rightarrow> Inl e
      | Inr d \<Rightarrow>
          if fd_kind d = ''iterator''
          then if length outs \<noteq> 2 then Inl ''expecting exactly 2 outbound paths for iterator''
               else (case (step_by_id g (wp_child (outs ! 0)), step_by_id g (wp_child (outs ! 1))) of
                       (Some n, Some x) \<Rightarrow> Inr (Some (IteratorStep (ws_ref s) (ws_args s) (ws_results s) (Some n) (Some x)))
                     | _ \<Rightarrow> Inr None)
          else if fd_kind d \<noteq> ''function'' then Inl ''expecting function kind''
          else Inr (Some (FunctionStep (ws_ref s) (ws_args s) (ws_results s))))"

fun parse_expressions :: "conv_env \<Rightarrow> wexpr list \<Rightarrow> string option" where
  "parse_expressions env [] = None"
| "parse_expressions env (e # ee) =
     (case if length (go_trim (we_expr e)) = 0 then None else ce_parse env (we_expr e) of
        Some err \<Rightarrow> Some err
      | None \<Rightarrow>
          let name = (if we_type e = [] then ''Any'' else we_type e)
          in if \<not> ce_known_type env name
             then Some (''unknown or unregistered type '' @ dquoted name @ '' used for expression '' @ dquoted (we_expr e) @ '' on '' @ dquoted (we_target e))
             else case List.map_filter (ce_parse env) (we_tests e) of
                    err # _ \<Rightarrow> Some err
                  | [] \<Rightarrow> parse_expressions env ee)"

definition conv_kind :: "conv_env \<Rightarrow> graph \<Rightarrow> wf_step_def \<Rightarrow> wf_path list \<Rightarrow> wf_path list \<Rightarrow> conv_result" where
  "conv_kind env g s ins outs =
     (let k = ws_kind s in
      if k = ''visual'' then Inr None
      else if k = ''debug'' then Inr (Some DebugStep)
      else if k = ''expressions'' then Inr (Some (ExpressionsStep (ws_args s)))
      else if k = ''gateway'' then conv_gateway env g s ins outs
      else if k = ''function'' \<or> k = ''iterator'' then conv_function_step env g s outs
      else if k = ''error'' then Inr (Some (ErrorStep (ws_args s)))
      else if k = ''termination'' then Inr (Some TerminationStep)
      else if k = ''prompt'' then Inr (Some (PromptStep (ws_ref s) (ws_args s) (ws_results s)))
      else if k = ''delay'' then Inr (Some (DelayStep (ws_args s)))
      else if k = ''error-handler'' then conv_error_handler g outs
      else if k = ''break'' then Inr (Some BreakStep)
      else if k = ''continue'' then Inr (Some ContinueStep)
      else Inl (''unsupported step kind '' @ dquoted k))"

definition conv_def :: "conv_env \<Rightarrow> graph \<Rightarrow> wf_step_def \<Rightarrow> wf_path list \<Rightarrow> wf_path list \<Rightarrow> conv_result" where
  "conv_def env g s ins outs =
     (case parse_expressions env (ws_args s) of
        Some e \<Rightarrow> Inl (''failed to parse step arguments expressions for '' @ ws_kind s @ '': '' @ e)
      | None \<Rightarrow>
          (case parse_expressions env (ws_results s) of
             Some e \<Rightarrow> Inl (''failed to parse step results expressions for '' @ ws_kind s @ '': '' @ e)
           | None \<Rightarrow> conv_kind env g s ins outs))"

section \<open>The graph\<close>

text \<open>The state of the conversion: the graph, what is stored for its steps, the issues.\<close>

record conv_state =
  cs_graph :: graph
  cs_stored :: "conv_step list"
  cs_issues :: "wf_issue list"

definition in_paths :: "wf_path list \<Rightarrow> wf_step_def \<Rightarrow> wf_path list" where
  "in_paths pp s = filter (\<lambda>p. wp_child p = ws_id s) pp"

definition out_paths :: "wf_path list \<Rightarrow> wf_step_def \<Rightarrow> wf_path list" where
  "out_paths pp s = filter (\<lambda>p. wp_child p \<noteq> ws_id s \<and> wp_parent p = ws_id s) pp"

text \<open>One step of a pass: the state and whether there was progress.\<close>

definition resolve_step ::
  "conv_env \<Rightarrow> wf_path list \<Rightarrow> (u64 \<Rightarrow> nat) \<Rightarrow> conv_state \<times> bool \<Rightarrow> wf_step_def \<Rightarrow> conv_state \<times> bool" where
  "resolve_step env pp pos acc s =
     (let (st, progress) = acc in
      if step_by_id (cs_graph st) (ws_id s) \<noteq> None then (st, progress)
      else
        let ins = in_paths pp s; outs = out_paths pp s; issues = verify_step env s ins outs in
        case conv_def env (cs_graph st) s ins outs of
          Inl e \<Rightarrow>
            (st\<lparr>cs_issues := cs_issues st @ set_culprit ''step'' (pos (ws_id s)) (issues @ [issue e []])\<rparr>, progress)
        | Inr None \<Rightarrow> (st\<lparr>cs_issues := cs_issues st @ set_culprit ''step'' (pos (ws_id s)) issues\<rparr>, progress)
        | Inr (Some c) \<Rightarrow>
            (st\<lparr>cs_graph := add_step (ws_id s) (Some (length (cs_stored st))) [] (cs_graph st),
                cs_stored := cs_stored st @ [c],
                cs_issues := cs_issues st @ set_culprit ''step'' (pos (ws_id s)) issues\<rparr>, True))"

fun resolve_loop ::
  "nat \<Rightarrow> conv_env \<Rightarrow> wf_path list \<Rightarrow> (u64 \<Rightarrow> nat) \<Rightarrow> wf_step_def list \<Rightarrow> conv_state \<Rightarrow> conv_state option" where
  "resolve_loop 0 env pp pos ss st = None"
| "resolve_loop (Suc fuel) env pp pos ss st =
     (if \<not> graph_len (cs_graph st) < length ss then Some st
      else case foldl (resolve_step env pp pos) (st, False) ss of (st, progress) \<Rightarrow>
        if progress then resolve_loop fuel env pp pos ss st
        else Some (st\<lparr>cs_issues := cs_issues st @ [issue ''failed to resolve workflow step dependencies''
               (if ss = [] then [] else [(''step'', pos (ws_id (last ss)))])]\<rparr>))"

fun duplicate_ids :: "nat \<Rightarrow> (u64 \<rightharpoonup> nat) \<Rightarrow> wf_step_def list \<Rightarrow> wf_issue list" where
  "duplicate_ids i ids [] = []"
| "duplicate_ids i ids (s # ss) =
     (case ids (ws_id s) of
        Some d \<Rightarrow> issue ''step ID not unique'' [(''duplicate'', d), (''step'', i)] # duplicate_ids (Suc i) ids ss
      | None \<Rightarrow> duplicate_ids (Suc i) (ids(ws_id s \<mapsto> i)) ss)"

fun position_of :: "nat \<Rightarrow> wf_step_def list \<Rightarrow> u64 \<Rightarrow> nat" where
  "position_of i [] d = 0"
| "position_of i (s # ss) d = (if ws_id s = d then i else position_of (Suc i) ss d)"

definition unresolved_path :: "u64 \<Rightarrow> nat \<Rightarrow> wf_issue" where
  "unresolved_path i pos = issue (''failed to resolve step with ID '' @ format_uint i) [(''path'', pos)]"

fun connect_paths :: "nat \<Rightarrow> wf_path list \<Rightarrow> graph \<times> wf_issue list \<Rightarrow> graph \<times> wf_issue list" where
  "connect_paths pos [] acc = acc"
| "connect_paths pos (p # pp) (g, ii) =
     connect_paths (Suc pos) pp
       (if step_by_id g (wp_child p) = None then (g, ii @ [unresolved_path (wp_child p) pos])
        else if step_by_id g (wp_parent p) = None then (g, ii @ [unresolved_path (wp_parent p) pos])
        else if 0 < length ii then (g, ii)
        else (add_parent (step_by_id g (wp_child p)) (step_by_id g (wp_parent p)) g, ii))"

definition make_graph ::
  "conv_env \<Rightarrow> wf_step_def list \<Rightarrow> wf_path list \<Rightarrow> (wf_issue list + graph \<times> conv_step list) option" where
  "make_graph env steps pp =
     (let dup = duplicate_ids 0 Map.empty steps in
      if 0 < length dup then Some (Inl dup)
      else
        let ss = filter (\<lambda>s. ws_kind s \<noteq> ''visual'') steps in
        case resolve_loop (Suc (Suc (length ss))) env pp (position_of 0 steps) ss
               \<lparr>cs_graph = new_graph, cs_stored = [], cs_issues = []\<rparr> of
          None \<Rightarrow> None
        | Some st \<Rightarrow>
            (case connect_paths 0 pp (cs_graph st, cs_issues st) of (g, ii) \<Rightarrow>
               Some (if 0 < length ii then Inl (distinct_issues ii) else Inr (g, cs_stored st))))"

end
