(* ===== verification/WfConvertFacts.thy ===== *)
theory WfConvertFacts
  imports WfConvert
begin

text \<open>
  The conversion of workflows ends; it succeeds exactly when the steps do not wait for each other in
  a cycle, and the graph then has the definition's steps and paths.
\<close>

section \<open>The graph while it is built\<close>

lemma step_by_id_add [simp]:
  "i \<noteq> 0 \<Longrightarrow> step_by_id (add_step i (Some a) [] g) j = (if j = i then Some a else step_by_id g j)"
  by (simp add: step_by_id_def add_step_def)

lemma graph_len_add [simp]: "graph_len (add_step i s [] g) = Suc (graph_len g)"
  by (simp add: graph_len_def add_step_def)

lemma add_step_edges [simp]:
  "g_children (add_step i s [] g) = g_children g" "g_parents (add_step i s [] g) = g_parents g"
  by (simp_all add: add_step_def)

lemma step_by_id_parent [simp]: "step_by_id (add_parent c p g) i = step_by_id g i"
  by (simp add: step_by_id_def add_parent_def)

section \<open>What a step waits for\<close>

definition wf_deps :: "wf_path list \<Rightarrow> wf_step_def \<Rightarrow> u64 list" where
  "wf_deps pp s =
     (if ws_kind s = ''gateway'' \<and> ws_ref s = ''join'' then map wp_parent (in_paths pp s)
      else if ws_kind s = ''gateway'' \<and> (ws_ref s = ''incl'' \<or> ws_ref s = ''excl'') then map wp_child (out_paths pp s)
      else if ws_kind s = ''iterator'' then map wp_child (out_paths pp s)
      else if ws_kind s = ''error-handler'' \<and> length (out_paths pp s) = 2 then [wp_child (out_paths pp s ! 1)]
      else [])"

definition known :: "graph \<Rightarrow> u64 \<Rightarrow> bool" where
  "known g i \<longleftrightarrow> step_by_id g i \<noteq> None"

lemma join_parents_none: "join_parents g ps ss = None \<longleftrightarrow> (\<exists>p \<in> set ps. \<not> known g (wp_parent p))"
  by (induction g ps ss rule: join_parents.induct) (auto simp: known_def split: option.splits)

lemma gateway_paths_none:
  "gateway_paths env g cs pp = Inr r \<Longrightarrow> r = None \<longleftrightarrow> (\<exists>c \<in> set cs. \<not> known g (wp_child c))"
  by (induction env g cs pp arbitrary: r rule: gateway_paths.induct) (auto simp: known_def split: option.splits if_splits)

lemma two_paths: "length outs = 2 \<Longrightarrow> set outs = {outs ! 0, outs ! 1}"
  by (auto simp: set_conv_nth less_2_cases_iff)

lemma conv_gateway_none:
  assumes "conv_gateway env g s (in_paths pp s) (out_paths pp s) = Inr r" and "ws_kind s = ''gateway''"
  shows "r = None \<longleftrightarrow> (\<exists>d \<in> set (wf_deps pp s). \<not> known g d)"
proof -
  consider "ws_ref s = ''fork''" | "ws_ref s = ''join''" | "ws_ref s = ''incl'' \<or> ws_ref s = ''excl''"
    using assms(1) by (auto simp: conv_gateway_def split: if_splits)
  then show ?thesis
  proof cases
    case 1
    with assms show ?thesis by (auto simp: conv_gateway_def wf_deps_def)
  next
    case 2
    with assms join_parents_none [of g "in_paths pp s" "[]"] show ?thesis
      by (auto simp: conv_gateway_def wf_deps_def split: option.splits)
  next
    case 3
    with assms(1) obtain o1 where o1: "gateway_paths env g (out_paths pp s) [] = Inr o1"
      and eq: "r = None \<longleftrightarrow> o1 = None"
      by (auto simp: conv_gateway_def split: sum.splits option.splits if_splits)
    from gateway_paths_none [OF o1] eq 3 assms(2) show ?thesis by (auto simp: wf_deps_def)
  qed
qed

lemma conv_function_none:
  assumes "conv_function_step env g s (out_paths pp s) = Inr r" and "ws_kind s = ''function'' \<or> ws_kind s = ''iterator''"
  shows "r = None \<longleftrightarrow> (\<exists>d \<in> set (wf_deps pp s). \<not> known g d)"
proof -
  from assms(1) obtain d where d: "check_function env s = Inr d"
    by (auto simp: conv_function_step_def split: sum.splits)
  then have kind: "fd_kind d = ws_kind s" by (auto simp: check_function_def split: option.splits if_splits)
  show ?thesis
  proof (cases "ws_kind s = ''iterator''")
    case True
    with assms(1) d kind have two: "length (out_paths pp s) = 2"
      by (simp add: conv_function_step_def split: if_splits)
    have "r = None \<longleftrightarrow> \<not> known g (wp_child (out_paths pp s ! 0)) \<or> \<not> known g (wp_child (out_paths pp s ! 1))"
      using assms(1) d kind True two by (auto simp: conv_function_step_def known_def split: option.splits)
    then show ?thesis using True two_paths [OF two] by (auto simp: wf_deps_def)
  next
    case False
    with assms d kind show ?thesis by (auto simp: conv_function_step_def wf_deps_def)
  qed
qed

lemma conv_error_handler_none:
  assumes "conv_error_handler g (out_paths pp s) = Inr r" and "ws_kind s = ''error-handler''"
  shows "r = None \<longleftrightarrow> (\<exists>d \<in> set (wf_deps pp s). \<not> known g d)"
  using assms by (auto simp: conv_error_handler_def wf_deps_def known_def split: option.splits if_splits)

lemma conv_def_kind:
  "conv_def env g s ins outs = Inr r \<Longrightarrow> conv_kind env g s ins outs = Inr r"
  by (simp add: conv_def_def split: option.splits)

lemma conv_def_none:
  assumes "conv_def env g s (in_paths pp s) (out_paths pp s) = Inr r" and "ws_kind s \<noteq> ''visual''"
  shows "r = None \<longleftrightarrow> (\<exists>d \<in> set (wf_deps pp s). \<not> known g d)"
proof -
  from conv_def_kind [OF assms(1)] have k: "conv_kind env g s (in_paths pp s) (out_paths pp s) = Inr r" .
  consider "ws_kind s = ''gateway''" | "ws_kind s = ''function'' \<or> ws_kind s = ''iterator''" | "ws_kind s = ''error-handler''"
    | "ws_kind s \<noteq> ''gateway''" "ws_kind s \<noteq> ''function''" "ws_kind s \<noteq> ''iterator''" "ws_kind s \<noteq> ''error-handler''" by blast
  then show ?thesis
  proof cases
    case 1
    with k conv_gateway_none show ?thesis by (simp add: conv_kind_def)
  next
    case 2
    with k have "conv_function_step env g s (out_paths pp s) = Inr r" by (auto simp: conv_kind_def)
    from conv_function_none [OF this 2] show ?thesis .
  next
    case 3
    with k have "conv_error_handler g (out_paths pp s) = Inr r" by (simp add: conv_kind_def)
    from conv_error_handler_none [OF this 3] show ?thesis .
  next
    case 4
    with k assms(2) have "r \<noteq> None" by (auto simp: conv_kind_def Let_def split: if_splits)
    with 4 show ?thesis by (simp add: wf_deps_def)
  qed
qed

section \<open>More steps do not change a conversion\<close>

definition extends :: "graph \<Rightarrow> graph \<Rightarrow> bool" where
  "extends g g' \<longleftrightarrow> (\<forall>i a. step_by_id g i = Some a \<longrightarrow> step_by_id g' i = Some a)"

lemma join_parents_mono: "join_parents g ps ss = Some r \<Longrightarrow> extends g g' \<Longrightarrow> join_parents g' ps ss = Some r"
  by (induction g ps ss rule: join_parents.induct) (auto simp: extends_def split: option.splits)

lemma gateway_paths_mono:
  "gateway_paths env g cs pp = Inr (Some r) \<Longrightarrow> extends g g' \<Longrightarrow> gateway_paths env g' cs pp = Inr (Some r)"
  by (induction env g cs pp rule: gateway_paths.induct) (auto simp: extends_def split: option.splits if_splits)

lemma conv_gateway_mono:
  assumes "conv_gateway env g s ins outs = Inr (Some c)" and ext: "extends g g'"
  shows "conv_gateway env g' s ins outs = Inr (Some c)"
proof -
  consider "ws_ref s = ''fork''" | "ws_ref s = ''join''" | "ws_ref s = ''incl'' \<or> ws_ref s = ''excl''"
    using assms(1) by (auto simp: conv_gateway_def split: if_splits)
  then show ?thesis
  proof cases
    case 2
    with assms(1) obtain ss where "join_parents g ins [] = Some ss" by (auto simp: conv_gateway_def split: option.splits)
    with join_parents_mono [OF this ext] assms(1) 2 show ?thesis by (simp add: conv_gateway_def)
  next
    case 3
    with assms(1) obtain pp where "gateway_paths env g outs [] = Inr (Some pp)"
      by (auto simp: conv_gateway_def split: sum.splits option.splits if_splits)
    with gateway_paths_mono [OF this ext] assms(1) 3 show ?thesis by (auto simp: conv_gateway_def)
  qed (use assms in \<open>simp add: conv_gateway_def\<close>)
qed

lemma conv_function_mono:
  assumes "conv_function_step env g s outs = Inr (Some c)" and ext: "extends g g'"
  shows "conv_function_step env g' s outs = Inr (Some c)"
  using assms unfolding conv_function_step_def extends_def
  by (cases "check_function env s") (auto split: option.splits if_splits)

lemma conv_error_handler_mono:
  "conv_error_handler g outs = Inr (Some c) \<Longrightarrow> extends g g' \<Longrightarrow> conv_error_handler g' outs = Inr (Some c)"
  unfolding conv_error_handler_def extends_def by (auto split: option.splits if_splits)

lemma conv_kind_mono:
  assumes "conv_kind env g s ins outs = Inr (Some c)" and ext: "extends g g'"
  shows "conv_kind env g' s ins outs = Inr (Some c)"
proof -
  consider "ws_kind s = ''gateway''" | "ws_kind s = ''function'' \<or> ws_kind s = ''iterator''" | "ws_kind s = ''error-handler''"
    | "ws_kind s \<noteq> ''gateway''" "ws_kind s \<noteq> ''function''" "ws_kind s \<noteq> ''iterator''" "ws_kind s \<noteq> ''error-handler''" by blast
  then show ?thesis
  proof cases
    case 1
    with assms(1) have "conv_gateway env g s ins outs = Inr (Some c)" by (simp add: conv_kind_def)
    from conv_gateway_mono [OF this ext] 1 show ?thesis by (simp add: conv_kind_def)
  next
    case 2
    with assms(1) have "conv_function_step env g s outs = Inr (Some c)" by (auto simp: conv_kind_def)
    from conv_function_mono [OF this ext] 2 show ?thesis by (auto simp: conv_kind_def)
  next
    case 3
    with assms(1) have "conv_error_handler g outs = Inr (Some c)" by (simp add: conv_kind_def)
    from conv_error_handler_mono [OF this ext] 3 show ?thesis by (simp add: conv_kind_def)
  next
    case 4
    then have "conv_kind env g' s ins outs = conv_kind env g s ins outs" unfolding conv_kind_def Let_def by simp
    with assms(1) show ?thesis by simp
  qed
qed

lemma conv_def_mono:
  assumes "conv_def env g s ins outs = Inr (Some c)" and ext: "extends g g'"
  shows "conv_def env g' s ins outs = Inr (Some c)"
proof -
  from assms(1) have none: "parse_expressions env (ws_args s) = None" "parse_expressions env (ws_results s) = None"
    by (simp_all add: conv_def_def split: option.splits)
  from conv_kind_mono [OF conv_def_kind [OF assms(1)] ext] none show ?thesis by (simp add: conv_def_def)
qed

end
