(* ===== verification/WfConvertGraph.thy ===== *)
theory WfConvertGraph
  imports WfConvertFacts
begin

text \<open>
  The graph built from a definition: the passes of the conversion as a derivation that adds one
  resolved step at a time, and what every graph derived this way satisfies.
\<close>

section \<open>Derivations\<close>

inductive built :: "conv_env \<Rightarrow> wf_path list \<Rightarrow> wf_step_def list \<Rightarrow> graph \<Rightarrow> conv_step list \<Rightarrow> bool"
  for env pp where
  built_none: "built env pp [] new_graph []"
| built_step: "built env pp rs g cs \<Longrightarrow> \<not> known g (ws_id s) \<Longrightarrow>
    conv_def env g s (in_paths pp s) (out_paths pp s) = Inr (Some c) \<Longrightarrow>
    built env pp (rs @ [s]) (add_step (ws_id s) (Some (length cs)) [] g) (cs @ [c])"

lemma resolve_step_cases:
  assumes "resolve_step env pp pos (st, b) s = (st', b')"
  shows "(\<exists>c. conv_def env (cs_graph st) s (in_paths pp s) (out_paths pp s) = Inr (Some c) \<and>
            \<not> known (cs_graph st) (ws_id s) \<and> b' \<and> cs_stored st' = cs_stored st @ [c] \<and>
            cs_graph st' = add_step (ws_id s) (Some (length (cs_stored st))) [] (cs_graph st)) \<or>
         (cs_graph st' = cs_graph st \<and> cs_stored st' = cs_stored st \<and> b' = b \<and>
          (known (cs_graph st) (ws_id s) \<or>
           (\<nexists>c. conv_def env (cs_graph st) s (in_paths pp s) (out_paths pp s) = Inr (Some c))))"
proof (cases "known (cs_graph st) (ws_id s)")
  case True
  with assms show ?thesis by (auto simp: resolve_step_def known_def)
next
  case False
  then have new: "step_by_id (cs_graph st) (ws_id s) = None" by (simp add: known_def)
  consider e where "conv_def env (cs_graph st) s (in_paths pp s) (out_paths pp s) = Inl e"
    | "conv_def env (cs_graph st) s (in_paths pp s) (out_paths pp s) = Inr None"
    | c where "conv_def env (cs_graph st) s (in_paths pp s) (out_paths pp s) = Inr (Some c)"
    by (metis not_None_eq sum.exhaust)
  then show ?thesis by cases (use assms new False in \<open>auto simp: resolve_step_def Let_def\<close>)
qed

lemma resolve_step_built:
  assumes "resolve_step env pp pos (st, b) s = (st', b')" and "built env pp rs (cs_graph st) (cs_stored st)"
  shows "(\<exists>c. built env pp (rs @ [s]) (cs_graph st') (cs_stored st') \<and> b' \<and>
            cs_stored st' = cs_stored st @ [c] \<and> \<not> known (cs_graph st) (ws_id s)) \<or>
         (cs_graph st' = cs_graph st \<and> cs_stored st' = cs_stored st \<and> b' = b \<and>
          (known (cs_graph st) (ws_id s) \<or>
           (\<nexists>c. conv_def env (cs_graph st) s (in_paths pp s) (out_paths pp s) = Inr (Some c))))"
  using resolve_step_cases [OF assms(1)]
proof
  assume "\<exists>c. conv_def env (cs_graph st) s (in_paths pp s) (out_paths pp s) = Inr (Some c) \<and>
    \<not> known (cs_graph st) (ws_id s) \<and> b' \<and> cs_stored st' = cs_stored st @ [c] \<and>
    cs_graph st' = add_step (ws_id s) (Some (length (cs_stored st))) [] (cs_graph st)"
  with built_step [OF assms(2)] show ?thesis by auto
qed simp

text \<open>
  The invariant of the passes: the state is derived from some of the definition's steps, and as
  long as there are no issues these passed their checks.
\<close>

definition verified :: "conv_env \<Rightarrow> wf_path list \<Rightarrow> wf_step_def \<Rightarrow> bool" where
  "verified env pp s \<longleftrightarrow> verify_step env s (in_paths pp s) (out_paths pp s) = []"

definition conv_inv :: "conv_env \<Rightarrow> wf_path list \<Rightarrow> wf_step_def set \<Rightarrow> conv_state \<Rightarrow> wf_step_def list \<Rightarrow> bool" where
  "conv_inv env pp S st rs \<longleftrightarrow>
     built env pp rs (cs_graph st) (cs_stored st) \<and> set rs \<subseteq> S \<and> (cs_issues st = [] \<longrightarrow> (\<forall>s \<in> set rs. verified env pp s))"

lemma resolve_step_issues:
  assumes "resolve_step env pp pos (st, b) s = (st', b')"
  shows "\<exists>ii. cs_issues st' = cs_issues st @ ii \<and> (ii = [] \<longrightarrow> known (cs_graph st) (ws_id s) \<or> verified env pp s)"
  using assms by (auto simp: resolve_step_def known_def verified_def set_culprit_def Let_def split: if_splits sum.splits option.splits)

lemma resolve_step_inv:
  assumes "resolve_step env pp pos (st, b) s = (st', b')" and "conv_inv env pp S st rs" and "s \<in> S"
  shows "\<exists>rs'. conv_inv env pp S st' rs' \<and> length rs \<le> length rs' \<and> (b' \<longrightarrow> b \<or> length rs < length rs')"
proof -
  from assms(2) have inv: "built env pp rs (cs_graph st) (cs_stored st)" "set rs \<subseteq> S"
    "cs_issues st = [] \<longrightarrow> (\<forall>s \<in> set rs. verified env pp s)" by (simp_all add: conv_inv_def)
  from resolve_step_issues [OF assms(1)] obtain ii where ii: "cs_issues st' = cs_issues st @ ii"
    "ii = [] \<longrightarrow> known (cs_graph st) (ws_id s) \<or> verified env pp s" by blast
  from resolve_step_built [OF assms(1) inv(1)] show ?thesis
  proof
    assume new: "\<exists>c. built env pp (rs @ [s]) (cs_graph st') (cs_stored st') \<and> b' \<and> cs_stored st' = cs_stored st @ [c] \<and>
      \<not> known (cs_graph st) (ws_id s)"
    with inv ii assms(3) have "conv_inv env pp S st' (rs @ [s])" by (auto simp: conv_inv_def)
    then show ?thesis by (intro exI [of _ "rs @ [s]"]) simp
  next
    assume "cs_graph st' = cs_graph st \<and> cs_stored st' = cs_stored st \<and> b' = b \<and>
      (known (cs_graph st) (ws_id s) \<or>
       (\<nexists>c. conv_def env (cs_graph st) s (in_paths pp s) (out_paths pp s) = Inr (Some c)))"
    with inv ii show ?thesis by (intro exI [of _ rs]) (simp add: conv_inv_def)
  qed
qed

lemma pass_inv:
  assumes "foldl (resolve_step env pp pos) (st, b) ss = (st', b')" and "conv_inv env pp S st rs" and "set ss \<subseteq> S"
  shows "\<exists>rs'. conv_inv env pp S st' rs' \<and> length rs \<le> length rs' \<and> (b' \<longrightarrow> b \<or> length rs < length rs')"
  using assms
proof (induction ss arbitrary: st b rs)
  case Nil
  then show ?case by auto
next
  case (Cons s ss)
  obtain st1 b1 where step: "resolve_step env pp pos (st, b) s = (st1, b1)" by fastforce
  with Cons.prems(1) have rest: "foldl (resolve_step env pp pos) (st1, b1) ss = (st', b')" by simp
  from resolve_step_inv [OF step Cons.prems(2)] Cons.prems(3) obtain rs1 where rs1: "conv_inv env pp S st1 rs1"
    "length rs \<le> length rs1" "b1 \<longrightarrow> b \<or> length rs < length rs1" by auto
  from Cons.IH [OF rest rs1(1)] Cons.prems(3) obtain rs' where
    "conv_inv env pp S st' rs'" "length rs1 \<le> length rs'" "b' \<longrightarrow> b1 \<or> length rs1 < length rs'" by auto
  with rs1 show ?case by (intro exI [of _ rs']) linarith
qed

lemma pass_stuck:
  assumes "foldl (resolve_step env pp pos) (st, b) ss = (st', False)"
  shows "\<not> b \<and> cs_graph st' = cs_graph st \<and>
    (\<forall>s \<in> set ss. known (cs_graph st) (ws_id s) \<or>
       (\<nexists>c. conv_def env (cs_graph st) s (in_paths pp s) (out_paths pp s) = Inr (Some c)))"
  using assms
proof (induction ss arbitrary: st b)
  case (Cons s ss)
  obtain st1 b1 where step: "resolve_step env pp pos (st, b) s = (st1, b1)" by fastforce
  with Cons.prems have "foldl (resolve_step env pp pos) (st1, b1) ss = (st', False)" by simp
  from Cons.IH [OF this] have ih: "\<not> b1" "cs_graph st' = cs_graph st1"
    "\<forall>s \<in> set ss. known (cs_graph st1) (ws_id s) \<or>
       (\<nexists>c. conv_def env (cs_graph st1) s (in_paths pp s) (out_paths pp s) = Inr (Some c))" by auto
  from resolve_step_cases [OF step] ih(1) have "cs_graph st1 = cs_graph st" "b1 = b"
    "known (cs_graph st) (ws_id s) \<or>
       (\<nexists>c. conv_def env (cs_graph st) s (in_paths pp s) (out_paths pp s) = Inr (Some c))" by auto
  with ih show ?case by simp
qed simp

section \<open>What a derived graph satisfies\<close>

lemma new_graph_unknown [simp]: "\<not> known new_graph i"
  by (simp add: known_def step_by_id_def new_graph_def)

lemma built_len: "built env pp rs g cs \<Longrightarrow> length cs = length rs \<and> graph_len g = length rs"
  by (induction rule: built.induct) (auto simp: graph_len_def add_step_def new_graph_def)

lemma built_steps: "built env pp rs g cs \<Longrightarrow> g_steps g = map Some [0..<length rs]"
  by (induction rule: built.induct) (auto simp: add_step_def new_graph_def dest: built_len)

lemma built_edges: "built env pp rs g cs \<Longrightarrow> g_children g = (\<lambda>_. []) \<and> g_parents g = (\<lambda>_. [])"
  by (induction rule: built.induct) (simp_all add: new_graph_def)

lemma built_lookup:
  "built env pp rs g cs \<Longrightarrow> \<forall>s \<in> set rs. ws_id s \<noteq> 0 \<Longrightarrow>
   step_by_id g i = Some a \<longleftrightarrow> a < length rs \<and> ws_id (rs ! a) = i"
proof (induction arbitrary: a rule: built.induct)
  case built_none
  then show ?case by (simp add: step_by_id_def new_graph_def)
next
  case (built_step rs g cs s c)
  then have len: "length cs = length rs" by (auto dest: built_len)
  from built_step.IH [of a] built_step.prems
  have ih: "step_by_id g i = Some a \<longleftrightarrow> a < length rs \<and> ws_id (rs ! a) = i" by simp
  from built_step.prems have "ws_id s \<noteq> 0" by simp
  show ?case
  proof (cases "i = ws_id s")
    case True
    from built_step.hyps(2) have "step_by_id g (ws_id s) = None" by (simp add: known_def)
    with ih True have "\<not> (a < length rs \<and> ws_id (rs ! a) = i)" by simp
    with True \<open>ws_id s \<noteq> 0\<close> len show ?thesis by (auto simp: nth_append less_Suc_eq)
  next
    case False
    with ih \<open>ws_id s \<noteq> 0\<close> show ?thesis by (auto simp: nth_append less_Suc_eq)
  qed
qed

lemma built_known:
  assumes "built env pp rs g cs" and "\<forall>s \<in> set rs. ws_id s \<noteq> 0"
  shows "known g i \<longleftrightarrow> i \<in> ws_id ` set rs"
  using built_lookup [OF assms, of i] unfolding known_def
  by (metis (no_types, lifting) image_iff in_set_conv_nth not_None_eq)

lemma built_distinct: "built env pp rs g cs \<Longrightarrow> \<forall>s \<in> set rs. ws_id s \<noteq> 0 \<Longrightarrow> distinct (map ws_id rs)"
proof (induction rule: built.induct)
  case (built_step rs g cs s c)
  with built_known [OF built_step.hyps(1), of "ws_id s"] show ?case by auto
qed simp

lemma extends_add: "\<not> known g i \<Longrightarrow> i \<noteq> 0 \<Longrightarrow> extends g (add_step i (Some a) [] g)"
  by (simp add: extends_def known_def)

lemma built_conv:
  "built env pp rs g cs \<Longrightarrow> \<forall>s \<in> set rs. ws_id s \<noteq> 0 \<Longrightarrow> a < length rs \<Longrightarrow>
   conv_def env g (rs ! a) (in_paths pp (rs ! a)) (out_paths pp (rs ! a)) = Inr (Some (cs ! a))"
proof (induction rule: built.induct)
  case (built_step rs g cs s c)
  from built_step.hyps(1) have len: "length cs = length rs" by (auto dest: built_len)
  from built_step.hyps(2) built_step.prems(1) have ext: "extends g (add_step (ws_id s) (Some (length cs)) [] g)"
    by (intro extends_add) auto
  show ?case
  proof (cases "a < length rs")
    case True
    with built_step.IH built_step.prems(1)
    have "conv_def env g (rs ! a) (in_paths pp (rs ! a)) (out_paths pp (rs ! a)) = Inr (Some (cs ! a))" by simp
    from conv_def_mono [OF this ext] True len show ?thesis by (simp add: nth_append)
  next
    case False
    with built_step.prems(2) have "a = length rs" by simp
    with conv_def_mono [OF built_step.hyps(3) ext] len show ?thesis by (simp add: nth_append)
  qed
qed simp

lemma built_order:
  "built env pp rs g cs \<Longrightarrow> \<forall>s \<in> set rs. ws_id s \<noteq> 0 \<and> ws_kind s \<noteq> ''visual'' \<Longrightarrow> a < length rs \<Longrightarrow>
   d \<in> set (wf_deps pp (rs ! a)) \<Longrightarrow> \<exists>b < a. ws_id (rs ! b) = d"
proof (induction rule: built.induct)
  case (built_step rs g cs s c)
  show ?case
  proof (cases "a < length rs")
    case True
    with built_step.IH built_step.prems have "\<exists>b < a. ws_id (rs ! b) = d" by (simp add: nth_append)
    with True show ?thesis by (metis (no_types, lifting) dual_order.strict_trans nth_append)
  next
    case False
    with built_step.prems(2) have a: "a = length rs" by simp
    with built_step.prems(3) have "d \<in> set (wf_deps pp s)" by simp
    with conv_def_none [OF built_step.hyps(3)] built_step.prems(1) have "known g d" by auto
    with built_known [OF built_step.hyps(1)] built_step.prems(1) have "d \<in> ws_id ` set rs" by simp
    then obtain b where "b < length rs" "ws_id (rs ! b) = d" by (metis (no_types, lifting) image_iff in_set_conv_nth)
    with a show ?thesis by (intro exI [of _ b]) (simp add: nth_append)
  qed
qed simp

section \<open>The passes end\<close>

lemma resolve_loop_returns:
  assumes "conv_inv env pp S st rs" and "set ss \<subseteq> S" and "length ss < fuel + length rs" and "0 < fuel"
  shows "\<exists>st' rs'. resolve_loop fuel env pp pos ss st = Some st' \<and> conv_inv env pp S st' rs' \<and>
    (length ss \<le> length rs' \<or> cs_issues st' \<noteq> [])"
  using assms
proof (induction fuel env pp pos ss st arbitrary: rs rule: resolve_loop.induct)
  case (1 env pp pos ss st)
  then show ?case by simp
next
  case (2 fuel env pp pos ss st)
  then have len: "graph_len (cs_graph st) = length rs" by (auto simp: conv_inv_def dest: built_len)
  show ?case
  proof (cases "graph_len (cs_graph st) < length ss")
    case False
    with 2(2) len show ?thesis by auto
  next
    case True
    obtain st1 b1 where pass: "foldl (resolve_step env pp pos) (st, False) ss = (st1, b1)" by fastforce
    from pass_inv [OF pass 2(2,3)] obtain rs1 where rs1: "conv_inv env pp S st1 rs1" "b1 \<longrightarrow> length rs < length rs1" by auto
    show ?thesis
    proof (cases b1)
      case True
      with 2(4) rs1(2) len \<open>graph_len (cs_graph st) < length ss\<close> have "length ss < fuel + length rs1" "0 < fuel" by simp_all
      from 2(1) [OF _ pass [symmetric] _ rs1(1) 2(3) this] True \<open>graph_len (cs_graph st) < length ss\<close> pass
      show ?thesis by simp
    next
      case False
      with rs1(1) have "conv_inv env pp S (st1\<lparr>cs_issues := cs_issues st1 @ [i]\<rparr>) rs1" for i by (simp add: conv_inv_def)
      with False pass \<open>graph_len (cs_graph st) < length ss\<close> show ?thesis by auto
    qed
  qed
qed

section \<open>Paths\<close>

definition resolved_path :: "graph \<Rightarrow> wf_path \<Rightarrow> bool" where
  "resolved_path g p \<longleftrightarrow> known g (wp_child p) \<and> known g (wp_parent p)"

lemma connect_paths_issues: "ii \<noteq> [] \<Longrightarrow> snd (connect_paths pos pp (g, ii)) \<noteq> []"
  by (induction pos pp "(g, ii)" arbitrary: g ii rule: connect_paths.induct) auto

lemma add_parent_resolved [simp]: "resolved_path (add_parent c p g) = resolved_path g"
  by (simp add: resolved_path_def known_def fun_eq_iff)

lemma connect_paths_ok:
  "snd (connect_paths pos pp (g, [])) = [] \<longleftrightarrow> (\<forall>p \<in> set pp. resolved_path g p)"
proof (induction pp arbitrary: pos g)
  case (Cons p pp)
  show ?case
  proof (cases "resolved_path g p")
    case True
    then obtain a b where "step_by_id g (wp_child p) = Some a" "step_by_id g (wp_parent p) = Some b"
      by (auto simp: resolved_path_def known_def)
    with Cons.IH [of "Suc pos" "add_parent (Some a) (Some b) g"] True show ?thesis by simp
  next
    case False
    then show ?thesis by (auto simp: resolved_path_def known_def connect_paths_issues)
  qed
qed simp

definition child_list :: "graph \<Rightarrow> wf_path list \<Rightarrow> step \<Rightarrow> step list" where
  "child_list g pp x = map (\<lambda>p. step_by_id g (wp_child p)) (filter (\<lambda>p. step_by_id g (wp_parent p) = x) pp)"

definition parent_list :: "graph \<Rightarrow> wf_path list \<Rightarrow> step \<Rightarrow> step list" where
  "parent_list g pp x = map (\<lambda>p. step_by_id g (wp_parent p)) (filter (\<lambda>p. step_by_id g (wp_child p) = x) pp)"

lemma connect_paths_edges:
  "\<forall>p \<in> set pp. resolved_path g p \<Longrightarrow>
   \<exists>g'. connect_paths pos pp (g, []) = (g', []) \<and> g_steps g' = g_steps g \<and> g_index g' = g_index g \<and>
     (\<forall>x. g_children g' x = g_children g x @ child_list g pp x \<and> g_parents g' x = g_parents g x @ parent_list g pp x)"
proof (induction pp arbitrary: pos g)
  case Nil
  then show ?case by (simp add: child_list_def parent_list_def)
next
  case (Cons p pp)
  let ?g = "add_parent (step_by_id g (wp_child p)) (step_by_id g (wp_parent p)) g"
  have same: "child_list ?g = child_list g" "parent_list ?g = parent_list g"
    by (simp_all add: child_list_def parent_list_def fun_eq_iff)
  from Cons.prems obtain a b where "step_by_id g (wp_child p) = Some a" "step_by_id g (wp_parent p) = Some b"
    by (auto simp: resolved_path_def known_def)
  then have step: "connect_paths pos (p # pp) (g, []) = connect_paths (Suc pos) pp (?g, [])" by simp
  from Cons.prems have "\<forall>p \<in> set pp. resolved_path ?g p" by simp
  from Cons.IH [OF this, of "Suc pos"] show ?case
    unfolding step same by (auto simp: add_parent_def child_list_def parent_list_def)
qed

end
