(* ===== verification/WfConvertProps.thy ===== *)
theory WfConvertProps
  imports WfConvertGraph
begin

text \<open>
  The conversion of workflow definitions as a whole: it returns, a graph it returns is the
  definition, and it returns one exactly for sound definitions whose steps do not wait for each
  other in a cycle.
\<close>

section \<open>Errors do not depend on the order of the steps\<close>

lemma gateway_paths_agree:
  "gateway_paths env g cs pp = Inr (Some r) \<Longrightarrow> length pp = length qq \<Longrightarrow>
   \<exists>r'. gateway_paths env g' cs qq = Inr r' \<and> (\<forall>q. r' = Some q \<longrightarrow> length q = length r)"
proof (induction env g cs pp arbitrary: qq rule: gateway_paths.induct)
  case (2 env g c cs pp)
  from 2(2) obtain a where a: "step_by_id g (wp_child c) = Some a"
    and e: "(if 0 < length (wp_expr c) then ce_parse env (wp_expr c) else None) = None"
    and rest: "gateway_paths env g cs (pp @ [(Some a, wp_expr c)]) = Inr (Some r)"
    by (auto split: option.splits)
  show ?case
  proof (cases "step_by_id g' (wp_child c)")
    case (Some b)
    from 2(1) [OF a e rest, of "qq @ [(Some b, wp_expr c)]"] 2(3)
    obtain r' where "gateway_paths env g' cs (qq @ [(Some b, wp_expr c)]) = Inr r'" "\<forall>q. r' = Some q \<longrightarrow> length q = length r"
      by auto
    with Some e show ?thesis by auto
  qed simp
qed simp

lemma excl_check_tests [simp]: "excl_check (map path_test pp) i t"
  by (induction pp arbitrary: i) (auto simp: path_test_def new_gateway_path_def)

lemma path_tests [simp]: "\<not> list_ex (\<lambda>p. gp_test p = None) (map path_test pp)"
  by (induction pp) (auto simp: path_test_def new_gateway_path_def)

lemma gateways_built [simp]:
  "excl_gateway (map path_test pp) =
     (if length pp < 2 then Inl ''expecting at least two paths for exclusive gateway'' else Inr (map path_test pp))"
  "incl_gateway (map path_test pp) =
     (if length pp < 2 then Inl ''expecting at least two paths for incusive gateway'' else Inr (map path_test pp))"
  using path_tests [of pp] by (auto simp: excl_gateway_def incl_gateway_def Let_def simp del: path_tests)

lemma conv_gateway_agree:
  assumes "conv_gateway env g s ins outs = Inr (Some c)"
  shows "\<exists>r. conv_gateway env g' s ins outs = Inr r"
proof -
  consider "ws_ref s = ''fork''" | "ws_ref s = ''join''" | "ws_ref s = ''incl'' \<or> ws_ref s = ''excl''"
    using assms by (auto simp: conv_gateway_def split: if_splits)
  then show ?thesis
  proof cases
    case 3
    with assms obtain pp where pp: "gateway_paths env g outs [] = Inr (Some pp)" "\<not> length pp < 2"
      by (auto simp: conv_gateway_def split: sum.splits option.splits if_splits)
    from gateway_paths_agree [OF pp(1), of "[]" g'] obtain r' where
      r': "gateway_paths env g' outs [] = Inr r'" "\<forall>q. r' = Some q \<longrightarrow> length q = length pp" by auto
    show ?thesis
    proof (cases r')
      case (Some q)
      with r' pp(2) have "\<not> length q < 2" by auto
      with r' Some 3 show ?thesis by (auto simp: conv_gateway_def)
    qed (use 3 r' in \<open>auto simp: conv_gateway_def\<close>)
  qed (simp_all add: conv_gateway_def)
qed

lemma conv_function_agree:
  assumes "conv_function_step env g s outs = Inr (Some c)"
  shows "\<exists>r. conv_function_step env g' s outs = Inr r"
  using assms unfolding conv_function_step_def
  by (cases "check_function env s") (auto split: option.splits if_splits)

lemma conv_error_handler_agree:
  "conv_error_handler g outs = Inr (Some c) \<Longrightarrow> \<exists>r. conv_error_handler g' outs = Inr r"
  unfolding conv_error_handler_def by (auto split: option.splits if_splits)

lemma conv_kind_agree:
  assumes "conv_kind env g s ins outs = Inr (Some c)"
  shows "\<exists>r. conv_kind env g' s ins outs = Inr r"
proof -
  consider "ws_kind s = ''gateway''" | "ws_kind s = ''function'' \<or> ws_kind s = ''iterator''" | "ws_kind s = ''error-handler''"
    | "ws_kind s \<noteq> ''gateway''" "ws_kind s \<noteq> ''function''" "ws_kind s \<noteq> ''iterator''" "ws_kind s \<noteq> ''error-handler''" by blast
  then show ?thesis
  proof cases
    case 1
    with assms have "conv_gateway env g s ins outs = Inr (Some c)" by (simp add: conv_kind_def)
    from conv_gateway_agree [OF this] 1 show ?thesis by (simp add: conv_kind_def)
  next
    case 2
    with assms have "conv_function_step env g s outs = Inr (Some c)" by (auto simp: conv_kind_def)
    from conv_function_agree [OF this] 2 show ?thesis by (auto simp: conv_kind_def)
  next
    case 3
    with assms have "conv_error_handler g outs = Inr (Some c)" by (simp add: conv_kind_def)
    from conv_error_handler_agree [OF this] 3 show ?thesis by (simp add: conv_kind_def)
  next
    case 4
    then have "conv_kind env g' s ins outs = conv_kind env g s ins outs" unfolding conv_kind_def Let_def by simp
    with assms show ?thesis by auto
  qed
qed

lemma conv_def_agree:
  assumes "conv_def env g s ins outs = Inr (Some c)"
  shows "\<exists>r. conv_def env g' s ins outs = Inr r"
proof -
  from assms have none: "parse_expressions env (ws_args s) = None" "parse_expressions env (ws_results s) = None"
    by (simp_all add: conv_def_def split: option.splits)
  from conv_kind_agree [OF conv_def_kind [OF assms], of g'] none show ?thesis by (simp add: conv_def_def)
qed

section \<open>Sound definitions\<close>

text \<open>A step is sound when it passes its checks and would be converted if all steps were known.\<close>

definition full_graph :: graph where
  "full_graph = new_graph\<lparr>g_index := (\<lambda>_. Some (Some 0))\<rparr>"

definition converts :: "conv_env \<Rightarrow> wf_path list \<Rightarrow> wf_step_def \<Rightarrow> bool" where
  "converts env pp s \<longleftrightarrow>
     (case conv_def env full_graph s (in_paths pp s) (out_paths pp s) of Inr (Some _) \<Rightarrow> True | _ \<Rightarrow> False)"

definition sound_step :: "conv_env \<Rightarrow> wf_path list \<Rightarrow> wf_step_def \<Rightarrow> bool" where
  "sound_step env pp s \<longleftrightarrow> verified env pp s \<and> converts env pp s"

definition active_steps :: "wf_step_def list \<Rightarrow> wf_step_def list" where
  "active_steps steps = filter (\<lambda>s. ws_kind s \<noteq> ''visual'') steps"

definition waits_for :: "wf_step_def list \<Rightarrow> wf_path list \<Rightarrow> (u64 \<times> u64) set" where
  "waits_for steps pp = {(d, ws_id s) | d s. s \<in> set (active_steps steps) \<and> d \<in> set (wf_deps pp s)}"

lemma full_graph_known [simp]: "known full_graph i"
  by (simp add: known_def step_by_id_def full_graph_def)

lemma converts_iff:
  "ws_kind s \<noteq> ''visual'' \<Longrightarrow>
   converts env pp s \<longleftrightarrow> (\<exists>r. conv_def env full_graph s (in_paths pp s) (out_paths pp s) = Inr r)"
  using conv_def_none [of env full_graph s pp]
  by (auto simp: converts_def split: sum.splits option.splits)

lemma converts_result:
  assumes "converts env pp s"
  shows "\<exists>r. conv_def env g s (in_paths pp s) (out_paths pp s) = Inr r"
proof -
  from assms obtain c where "conv_def env full_graph s (in_paths pp s) (out_paths pp s) = Inr (Some c)"
    by (auto simp: converts_def split: sum.splits option.splits)
  from conv_def_agree [OF this] show ?thesis .
qed

lemma converts_stuck:
  assumes "converts env pp s" and "ws_kind s \<noteq> ''visual''"
    and "\<nexists>c. conv_def env g s (in_paths pp s) (out_paths pp s) = Inr (Some c)"
  shows "\<exists>d \<in> set (wf_deps pp s). \<not> known g d"
proof -
  from converts_result [OF assms(1)] obtain r where r: "conv_def env g s (in_paths pp s) (out_paths pp s) = Inr r" by blast
  with assms(3) have "r = None" by (cases r) auto
  with conv_def_none [OF r assms(2)] show ?thesis by simp
qed

lemma set_culprit_Nil [simp]: "set_culprit n i [] = []"
  by (simp add: set_culprit_def)

lemma sound_resolve_step:
  assumes "resolve_step env pp pos (st, b) s = (st', b')" and "sound_step env pp s"
  shows "cs_issues st' = cs_issues st"
proof -
  from assms(2) have v: "verify_step env s (in_paths pp s) (out_paths pp s) = []" and "converts env pp s"
    by (simp_all add: sound_step_def verified_def)
  from converts_result [OF this(2)] obtain r where "conv_def env (cs_graph st) s (in_paths pp s) (out_paths pp s) = Inr r" by blast
  with assms(1) v show ?thesis by (auto simp: resolve_step_def Let_def split: if_splits option.splits)
qed

lemma sound_pass:
  "foldl (resolve_step env pp pos) (st, b) ss = (st', b') \<Longrightarrow> \<forall>s \<in> set ss. sound_step env pp s \<Longrightarrow> cs_issues st' = cs_issues st"
proof (induction ss arbitrary: st b)
  case (Cons s ss)
  obtain st1 b1 where step: "resolve_step env pp pos (st, b) s = (st1, b1)" by fastforce
  with Cons.IH [of st1 b1] Cons.prems sound_resolve_step [OF step] show ?case by simp
qed simp

lemma duplicate_ids_iff:
  "duplicate_ids i ids ss = [] \<longleftrightarrow> distinct (map ws_id ss) \<and> (\<forall>s \<in> set ss. ids (ws_id s) = None)"
proof (induction i ids ss rule: duplicate_ids.induct)
  case (2 i ids s ss)
  show ?case
  proof (cases "ids (ws_id s)")
    case None
    have "(\<forall>t \<in> set ss. (ids(ws_id s \<mapsto> i)) (ws_id t) = None) \<longleftrightarrow> ws_id s \<notin> ws_id ` set ss \<and> (\<forall>t \<in> set ss. ids (ws_id t) = None)"
      by (auto simp: image_iff)
    with 2(1) [OF None] None show ?thesis by (simp add: conj_ac del: fun_upd_apply)
  qed simp
qed simp

section \<open>The definition and its graph\<close>

lemma make_graph_loop:
  "\<exists>st rs. resolve_loop (Suc (Suc (length (active_steps steps)))) env pp (position_of 0 steps) (active_steps steps)
       \<lparr>cs_graph = new_graph, cs_stored = [], cs_issues = []\<rparr> = Some st \<and>
     conv_inv env pp (set (active_steps steps)) st rs \<and>
     (length (active_steps steps) \<le> length rs \<or> cs_issues st \<noteq> [])"
proof -
  have "conv_inv env pp (set (active_steps steps)) \<lparr>cs_graph = new_graph, cs_stored = [], cs_issues = []\<rparr> []"
    by (simp add: conv_inv_def built_none)
  from resolve_loop_returns [OF this, of "active_steps steps" "Suc (Suc (length (active_steps steps)))" "position_of 0 steps"]
  show ?thesis by simp
qed

lemma active_all:
  assumes "built env pp rs g cs" and "\<forall>s \<in> set steps. ws_id s \<noteq> 0" and "set rs \<subseteq> set (active_steps steps)"
    and "length (active_steps steps) \<le> length rs"
  shows "set rs = set (active_steps steps) \<and> length rs = length (active_steps steps)"
proof -
  from assms(2,3) have "\<forall>s \<in> set rs. ws_id s \<noteq> 0" by (auto simp: active_steps_def)
  with assms(1) have "distinct (map ws_id rs)" by (rule built_distinct)
  then have "distinct rs" by (simp add: distinct_map)
  then have card: "card (set rs) = length rs" by (rule distinct_card)
  have "card (set (active_steps steps)) \<le> length rs" using assms(4) card_length [of "active_steps steps"] by linarith
  with card assms(3) have "set rs = set (active_steps steps)" by (metis List.finite_set card_mono card_subset_eq le_antisym)
  with card card_length [of "active_steps steps"] assms(4) show ?thesis by simp
qed

text \<open>The state in which the passes of a successful conversion end.\<close>

lemma make_graph_ok:
  assumes "make_graph env steps pp = Some (Inr (g', cs))" and "\<forall>s \<in> set steps. ws_id s \<noteq> 0"
  shows "\<exists>rs g. built env pp rs g cs \<and> set rs = set (active_steps steps) \<and> length rs = length (active_steps steps) \<and>
    (\<forall>s \<in> set rs. verified env pp s) \<and> (\<forall>p \<in> set pp. resolved_path g p) \<and> distinct (map ws_id steps) \<and>
    fst (connect_paths 0 pp (g, [])) = g'"
proof -
  from make_graph_loop obtain st rs where loop:
    "resolve_loop (Suc (Suc (length (active_steps steps)))) env pp (position_of 0 steps) (active_steps steps)
       \<lparr>cs_graph = new_graph, cs_stored = [], cs_issues = []\<rparr> = Some st"
    and inv: "conv_inv env pp (set (active_steps steps)) st rs"
    and len: "length (active_steps steps) \<le> length rs \<or> cs_issues st \<noteq> []" by blast
  obtain g1 ii where conn: "connect_paths 0 pp (cs_graph st, cs_issues st) = (g1, ii)" by fastforce
  from assms(1) loop conn have *: "duplicate_ids 0 Map.empty steps = []" "ii = []" "g1 = g'" "cs_stored st = cs"
    by (auto simp: make_graph_def active_steps_def [symmetric] Let_def split: if_splits)
  with conn connect_paths_issues [of "cs_issues st" 0 pp "cs_graph st"] have none: "cs_issues st = []" by auto
  with inv have inv': "built env pp rs (cs_graph st) cs" "set rs \<subseteq> set (active_steps steps)" "\<forall>s \<in> set rs. verified env pp s"
    by (simp_all add: conv_inv_def *)
  from active_all [OF inv'(1) assms(2) inv'(2)] len none
  have "set rs = set (active_steps steps)" "length rs = length (active_steps steps)" by auto
  moreover from *(1) have "distinct (map ws_id steps)" by (simp add: duplicate_ids_iff)
  moreover from conn none *(2) have "\<forall>p \<in> set pp. resolved_path (cs_graph st) p"
    using connect_paths_ok [of 0 pp "cs_graph st"] by simp
  ultimately show ?thesis using inv' conn none *(3) by (intro exI [of _ rs] exI [of _ "cs_graph st"]) simp
qed

lemma step_by_id_index: "g_index g = g_index h \<Longrightarrow> step_by_id g i = step_by_id h i"
  by (simp add: step_by_id_def)

lemma extends_index: "g_index g = g_index h \<Longrightarrow> extends g h"
  by (simp add: extends_def step_by_id_def)

lemma conv_def_index:
  "g_index g = g_index h \<Longrightarrow> conv_def env g s ins outs = Inr (Some c) \<Longrightarrow> conv_def env h s ins outs = Inr (Some c)"
  using conv_def_mono extends_index by blast

text \<open>
  C22: a graph the conversion returns is the definition. It holds as many steps as the definition has
  non-visual steps; each of these is filed under its identifier, at an address that holds its
  conversion with respect to this same graph; and the children and parents of the address are
  the definition's paths out of and into the step, in their order.
\<close>

theorem graph_is_definition:
  assumes "make_graph env steps pp = Some (Inr (g, cs))" and "\<forall>s \<in> set steps. ws_id s \<noteq> 0"
  shows "length (g_steps g) = length (active_steps steps) \<and>
    (\<forall>s \<in> set (active_steps steps). \<exists>a < length cs. step_by_id g (ws_id s) = Some a \<and>
       conv_def env g s (in_paths pp s) (out_paths pp s) = Inr (Some (cs ! a)) \<and>
       g_children g (Some a) = map (\<lambda>p. step_by_id g (wp_child p)) (filter (\<lambda>p. wp_parent p = ws_id s) pp) \<and>
       g_parents g (Some a) = map (\<lambda>p. step_by_id g (wp_parent p)) (filter (\<lambda>p. wp_child p = ws_id s) pp))"
proof -
  from make_graph_ok [OF assms] obtain rs h where h: "built env pp rs h cs" "set rs = set (active_steps steps)"
    "length rs = length (active_steps steps)" "\<forall>p \<in> set pp. resolved_path h p" "fst (connect_paths 0 pp (h, [])) = g" by blast
  from assms(2) h(2) have nz: "\<forall>s \<in> set rs. ws_id s \<noteq> 0" by (auto simp: active_steps_def)
  from connect_paths_edges [OF h(4), of 0] h(5) have g: "g_steps g = g_steps h" "g_index g = g_index h"
    "\<And>x. g_children g x = g_children h x @ child_list h pp x" "\<And>x. g_parents g x = g_parents h x @ parent_list h pp x" by auto
  from g(2) have ids: "step_by_id g i = step_by_id h i" for i by (rule step_by_id_index)
  have addr: "step_by_id h i = Some a \<longleftrightarrow> i = ws_id (rs ! a)" if "a < length rs" for i a
    using built_lookup [OF h(1) nz, of i a] that by auto
  have "\<exists>a < length cs. step_by_id g (ws_id s) = Some a \<and>
       conv_def env g s (in_paths pp s) (out_paths pp s) = Inr (Some (cs ! a)) \<and>
       g_children g (Some a) = map (\<lambda>p. step_by_id g (wp_child p)) (filter (\<lambda>p. wp_parent p = ws_id s) pp) \<and>
       g_parents g (Some a) = map (\<lambda>p. step_by_id g (wp_parent p)) (filter (\<lambda>p. wp_child p = ws_id s) pp)"
    if s: "s \<in> set (active_steps steps)" for s
  proof -
    from s h(2) obtain a where a: "a < length rs" "rs ! a = s" by (metis in_set_conv_nth)
    from conv_def_index [OF g(2) [symmetric] built_conv [OF h(1) nz a(1)]]
    have "conv_def env g s (in_paths pp s) (out_paths pp s) = Inr (Some (cs ! a))" by (simp add: a(2))
    with a addr [OF a(1)] built_len [OF h(1)] built_edges [OF h(1)] show ?thesis
      by (intro exI [of _ a]) (simp add: ids g(3,4) child_list_def parent_list_def)
  qed
  moreover from g(1) h(3) built_steps [OF h(1)] have "length (g_steps g) = length (active_steps steps)" by simp
  ultimately show ?thesis by blast
qed

lemma built_waits_for:
  assumes "built env pp rs g cs" and "set rs = set (active_steps steps)" and "\<forall>s \<in> set steps. ws_id s \<noteq> 0"
  shows "acyclic (waits_for steps pp)"
proof -
  from assms(2,3) have nz: "\<forall>s \<in> set rs. ws_id s \<noteq> 0 \<and> ws_kind s \<noteq> ''visual''" by (auto simp: active_steps_def)
  then have nz': "\<forall>s \<in> set rs. ws_id s \<noteq> 0" by blast
  define pos where "pos i = the (step_by_id g i)" for i
  have at: "pos (ws_id (rs ! a)) = a" if "a < length rs" for a
    using built_lookup [OF assms(1) nz', of "ws_id (rs ! a)" a] that by (simp add: pos_def)
  have "pos d < pos i" if "(d, i) \<in> waits_for steps pp" for d i
  proof -
    from that assms(2) obtain s where s: "s \<in> set rs" "d \<in> set (wf_deps pp s)" "i = ws_id s" by (auto simp: waits_for_def)
    then obtain a where a: "a < length rs" "rs ! a = s" by (metis in_set_conv_nth)
    from built_order [OF assms(1) nz a(1)] s(2) a(2) obtain b where "b < a" "ws_id (rs ! b) = d" by auto
    with at [of a] at [of b] a s(3) show ?thesis by auto
  qed
  then have "acyclic ((waits_for steps pp)\<inverse>)" by (intro acyclicI_order [of _ pos]) auto
  then show ?thesis by simp
qed

lemma waits_for_finite: "finite (waits_for steps pp)"
proof -
  have "waits_for steps pp = (\<Union>s \<in> set (active_steps steps). (\<lambda>d. (d, ws_id s)) ` set (wf_deps pp s))"
    by (auto simp: waits_for_def)
  then show ?thesis by simp
qed

section \<open>When the conversion succeeds\<close>

definition endpoints_in :: "wf_path list \<Rightarrow> wf_step_def list \<Rightarrow> bool" where
  "endpoints_in pp ss \<longleftrightarrow> list_all (\<lambda>p. wp_parent p \<in> ws_id ` set ss \<and> wp_child p \<in> ws_id ` set ss) pp"

lemma endpoints_inD: "endpoints_in pp ss \<Longrightarrow> p \<in> set pp \<Longrightarrow> wp_parent p \<in> ws_id ` set ss \<and> wp_child p \<in> ws_id ` set ss"
  by (simp add: endpoints_in_def list_all_iff)

lemma wf_deps_endpoints:
  assumes "endpoints_in pp ss" and "d \<in> set (wf_deps pp s)"
  shows "d \<in> ws_id ` set ss"
proof -
  have "out_paths pp s ! 1 \<in> set pp" if "length (out_paths pp s) = 2"
    using nth_mem [of 1 "out_paths pp s"] that by (auto simp: out_paths_def)
  with assms(2) have "\<exists>p \<in> set pp. d = wp_parent p \<or> d = wp_child p"
    by (auto simp: wf_deps_def in_paths_def out_paths_def split: if_splits)
  with endpoints_inD [OF assms(1)] show ?thesis by blast
qed

text \<open>As long as a step is missing, some missing step waits for nothing that is missing.\<close>

lemma some_step_ready:
  assumes "acyclic (waits_for steps pp)" and "endpoints_in pp (active_steps steps)"
    and "s \<in> set (active_steps steps)" and "\<not> known g (ws_id s)"
  shows "\<exists>t \<in> set (active_steps steps). \<not> known g (ws_id t) \<and> (\<forall>d \<in> set (wf_deps pp t). known g d)"
proof -
  define Q where "Q = {i \<in> ws_id ` set (active_steps steps). \<not> known g i}"
  from assms(3,4) have "ws_id s \<in> Q" by (simp add: Q_def)
  moreover have "wf (waits_for steps pp)" by (rule finite_acyclic_wf [OF waits_for_finite assms(1)])
  ultimately obtain z where z: "z \<in> Q" "\<And>y. (y, z) \<in> waits_for steps pp \<Longrightarrow> y \<notin> Q" using wfE_min by metis
  from z(1) obtain t where t: "t \<in> set (active_steps steps)" "z = ws_id t" "\<not> known g z" by (auto simp: Q_def)
  have "known g d" if "d \<in> set (wf_deps pp t)" for d
  proof -
    from that t have "(d, z) \<in> waits_for steps pp" by (auto simp: waits_for_def)
    with z(2) wf_deps_endpoints [OF assms(2) that] show ?thesis by (auto simp: Q_def)
  qed
  with t show ?thesis by blast
qed

lemma all_known_length:
  assumes "conv_inv env pp (set (active_steps steps)) st rs" and "\<forall>s \<in> set steps. ws_id s \<noteq> 0"
    and "distinct (map ws_id steps)" and "\<forall>s \<in> set (active_steps steps). known (cs_graph st) (ws_id s)"
  shows "graph_len (cs_graph st) = length (active_steps steps)"
proof -
  let ?ss = "active_steps steps"
  from assms(1) have b: "built env pp rs (cs_graph st) (cs_stored st)" "set rs \<subseteq> set ?ss" by (simp_all add: conv_inv_def)
  with assms(2) have nz: "\<forall>s \<in> set rs. ws_id s \<noteq> 0" by (auto simp: active_steps_def)
  from assms(3) have "distinct (map ws_id ?ss)" by (auto simp: active_steps_def distinct_map inj_on_def)
  then have "card (ws_id ` set ?ss) = length ?ss" by (metis distinct_card length_map set_map)
  moreover from built_distinct [OF b(1) nz] have "card (ws_id ` set rs) = length rs" by (metis distinct_card length_map set_map)
  moreover from assms(4) built_known [OF b(1) nz] b(2) have "ws_id ` set ?ss = ws_id ` set rs" by auto
  ultimately show ?thesis using built_len [OF b(1)] by simp
qed

lemma sound_loop:
  assumes "resolve_loop fuel env pp pos (active_steps steps) st = Some st'"
    and "conv_inv env pp (set (active_steps steps)) st rs" and "cs_issues st = []"
    and nz: "\<forall>s \<in> set steps. ws_id s \<noteq> 0" and dist: "distinct (map ws_id steps)"
    and sound: "\<forall>s \<in> set (active_steps steps). sound_step env pp s"
    and ends: "endpoints_in pp (active_steps steps)" and acyc: "acyclic (waits_for steps pp)"
  shows "cs_issues st' = []"
  using assms(1-3)
proof (induction fuel arbitrary: st rs)
  case (Suc fuel)
  let ?ss = "active_steps steps"
  show ?case
  proof (cases "graph_len (cs_graph st) < length ?ss")
    case True
    obtain st1 b1 where pass: "foldl (resolve_step env pp pos) (st, False) ?ss = (st1, b1)" by fastforce
    from sound_pass [OF pass] sound Suc.prems(3) have none: "cs_issues st1 = []" by simp
    show ?thesis
    proof (cases b1)
      case True
      from pass_inv [OF pass Suc.prems(2)] obtain rs1 where "conv_inv env pp (set ?ss) st1 rs1" by auto
      from Suc.IH [OF _ this none] Suc.prems(1) pass True \<open>graph_len (cs_graph st) < length ?ss\<close> show ?thesis by simp
    next
      case False
      with pass pass_stuck [of env pp pos st False ?ss st1] have stuck: "\<forall>s \<in> set ?ss. known (cs_graph st) (ws_id s) \<or>
        (\<nexists>c. conv_def env (cs_graph st) s (in_paths pp s) (out_paths pp s) = Inr (Some c))" by simp
      from all_known_length [OF Suc.prems(2) nz dist] True obtain s where
        "s \<in> set ?ss" "\<not> known (cs_graph st) (ws_id s)" by auto
      from some_step_ready [OF acyc ends this] obtain t where t: "t \<in> set ?ss" "\<not> known (cs_graph st) (ws_id t)"
        "\<forall>d \<in> set (wf_deps pp t). known (cs_graph st) d" by blast
      from t(1) sound have "converts env pp t" "ws_kind t \<noteq> ''visual''" by (auto simp: sound_step_def active_steps_def)
      from converts_stuck [OF this] stuck t show ?thesis by blast
    qed
  next
    case False
    with Suc.prems show ?thesis by simp
  qed
qed simp

lemma sound_definition_succeeds:
  assumes nz: "\<forall>s \<in> set steps. ws_id s \<noteq> 0" and dist: "distinct (map ws_id steps)"
    and sound: "\<forall>s \<in> set (active_steps steps). sound_step env pp s"
    and ends: "endpoints_in pp (active_steps steps)" and acyc: "acyclic (waits_for steps pp)"
  shows "\<exists>g cs. make_graph env steps pp = Some (Inr (g, cs))"
proof -
  let ?ss = "active_steps steps"
  let ?st = "\<lparr>cs_graph = new_graph, cs_stored = [], cs_issues = []\<rparr>"
  from make_graph_loop obtain st rs where
    loop: "resolve_loop (Suc (Suc (length ?ss))) env pp (position_of 0 steps) ?ss ?st = Some st"
    and inv: "conv_inv env pp (set ?ss) st rs" and len: "length ?ss \<le> length rs \<or> cs_issues st \<noteq> []" by blast
  have start: "conv_inv env pp (set ?ss) ?st []" by (simp add: conv_inv_def built_none)
  from sound_loop [OF loop start _ nz dist sound ends acyc] have none: "cs_issues st = []" by simp
  from inv have b: "built env pp rs (cs_graph st) (cs_stored st)" "set rs \<subseteq> set ?ss" by (simp_all add: conv_inv_def)
  from active_all [OF b(1) nz b(2)] len none have rs: "set rs = set ?ss" by simp
  with nz have "\<forall>s \<in> set rs. ws_id s \<noteq> 0" by (auto simp: active_steps_def)
  from built_known [OF b(1) this] rs endpoints_inD [OF ends] have "\<forall>p \<in> set pp. resolved_path (cs_graph st) p"
    by (simp add: resolved_path_def)
  from connect_paths_edges [OF this] obtain g where "connect_paths 0 pp (cs_graph st, []) = (g, [])" by blast
  moreover from dist have "duplicate_ids 0 Map.empty steps = []" by (simp add: duplicate_ids_iff)
  ultimately have "make_graph env steps pp = Some (Inr (g, cs_stored st))"
    using loop none by (simp add: make_graph_def active_steps_def [symmetric])
  then show ?thesis by blast
qed

text \<open>
  C21: the conversion of a definition whose steps have identifiers succeeds exactly when no
  identifier is used twice, every step passes its checks and converts, every path joins two
  non-visual steps, and no steps wait for each other in a cycle: a join waits for its parents, a
  gateway and an iterator for their children, an error handler for its second child.
\<close>

theorem conversion_succeeds_iff:
  assumes "\<forall>s \<in> set steps. ws_id s \<noteq> 0"
  shows "(\<exists>g cs. make_graph env steps pp = Some (Inr (g, cs))) \<longleftrightarrow>
    distinct (map ws_id steps) \<and> (\<forall>s \<in> set (active_steps steps). sound_step env pp s) \<and>
    endpoints_in pp (active_steps steps) \<and> acyclic (waits_for steps pp)" (is "?graph \<longleftrightarrow> ?sound")
proof
  assume ?graph
  then obtain g cs where ok: "make_graph env steps pp = Some (Inr (g, cs))" by blast
  from make_graph_ok [OF ok assms] obtain rs h where h: "built env pp rs h cs" "set rs = set (active_steps steps)"
    "\<forall>s \<in> set rs. verified env pp s" "\<forall>p \<in> set pp. resolved_path h p" "distinct (map ws_id steps)" by blast
  from assms h(2) have nz: "\<forall>s \<in> set rs. ws_id s \<noteq> 0" by (auto simp: active_steps_def)
  from built_known [OF h(1) nz] h(2,4) have "endpoints_in pp (active_steps steps)"
    by (auto simp: endpoints_in_def list_all_iff resolved_path_def)
  moreover have "sound_step env pp s" if s: "s \<in> set (active_steps steps)" for s
  proof -
    from s h(2) obtain a where a: "a < length rs" "rs ! a = s" by (metis in_set_conv_nth)
    from conv_def_agree [OF built_conv [OF h(1) nz a(1)], of full_graph] a(2) s
    have "converts env pp s" by (simp add: converts_iff active_steps_def)
    with h(2,3) s show ?thesis by (simp add: sound_step_def)
  qed
  ultimately show ?sound using h(5) built_waits_for [OF h(1,2) assms] by blast
next
  assume ?sound
  with sound_definition_succeeds [OF assms] show ?graph by blast
qed

text \<open>
  The conversion always returns: a pass that makes no progress ends it, and every other pass
  adds a step, so the passes allowed are enough.
\<close>

theorem conversion_returns: "make_graph env steps pp \<noteq> None"
  using make_graph_loop [of steps env pp]
  by (auto simp: make_graph_def active_steps_def [symmetric] Let_def split: prod.splits)

text \<open>Two branches between a fork and a join, and a gateway that waits for a step behind it.\<close>

definition demo_step :: "u64 \<Rightarrow> string \<Rightarrow> string \<Rightarrow> wf_step_def" where
  "demo_step i k r = \<lparr>ws_id = i, ws_kind = k, ws_ref = r, ws_args = [], ws_results = []\<rparr>"

definition demo_path :: "u64 \<Rightarrow> u64 \<Rightarrow> wf_path" where
  "demo_path p c = \<lparr>wp_expr = [], wp_parent = p, wp_child = c\<rparr>"

definition demo_env :: conv_env where
  "demo_env = \<lparr>ce_parse = (\<lambda>_. None), ce_known_type = (\<lambda>_. True), ce_function = (\<lambda>_. None), ce_corredor = True\<rparr>"

definition demo_steps :: "wf_step_def list" where
  "demo_steps = [demo_step 4 ''gateway'' ''join'', demo_step 1 ''gateway'' ''fork'', demo_step 2 ''debug'' [],
                 demo_step 3 ''debug'' [], demo_step 9 ''visual'' [], demo_step 5 ''termination'' []]"

definition demo_wf :: "wf_path list" where
  "demo_wf = [demo_path 1 2, demo_path 1 3, demo_path 2 4, demo_path 3 4, demo_path 4 5]"

definition is_graph :: "(wf_issue list + graph \<times> conv_step list) option \<Rightarrow> bool" where
  "is_graph r = (case r of Some (Inr _) \<Rightarrow> True | _ \<Rightarrow> False)"

lemma is_graphD: "is_graph r \<Longrightarrow> \<exists>g cs. r = Some (Inr (g, cs))"
  by (auto simp: is_graph_def split: option.splits sum.splits)

lemma demo_graph: "is_graph (make_graph demo_env demo_steps demo_wf)"
  by code_simp

definition cycle_steps :: "wf_step_def list" where
  "cycle_steps = [demo_step 1 ''gateway'' ''excl'', demo_step 2 ''gateway'' ''join'', demo_step 3 ''termination'' []]"

definition cycle_wf :: "wf_path list" where
  "cycle_wf = [demo_path 1 2, demo_path 1 3, demo_path 2 3]"

lemma demo_ids: "\<forall>s \<in> set demo_steps. ws_id s \<noteq> 0" "\<forall>s \<in> set cycle_steps. ws_id s \<noteq> 0"
  by code_simp+

theorem graph_is_definition_witness:
  "case make_graph demo_env demo_steps demo_wf of
     Some (Inr (g, cs)) \<Rightarrow> length (g_steps g) = 5 \<and>
       (\<exists>a < length cs. step_by_id g 4 = Some a \<and> g_parents g (Some a) = [step_by_id g 2, step_by_id g 3])
   | _ \<Rightarrow> False"
proof -
  from is_graphD [OF demo_graph] obtain g cs where g: "make_graph demo_env demo_steps demo_wf = Some (Inr (g, cs))" by blast
  have "length (active_steps demo_steps) = 5" "demo_step 4 ''gateway'' ''join'' \<in> set (active_steps demo_steps)" by code_simp+
  moreover have "filter (\<lambda>p. wp_child p = ws_id (demo_step 4 ''gateway'' ''join'')) demo_wf = [demo_path 2 4, demo_path 3 4]"
    by code_simp
  moreover have "ws_id (demo_step 4 ''gateway'' ''join'') = 4" "wp_parent (demo_path 2 4) = 2" "wp_parent (demo_path 3 4) = 3"
    by (simp_all add: demo_step_def demo_path_def)
  ultimately show ?thesis using graph_is_definition [OF g demo_ids(1)] by (auto simp: g)
qed

theorem conversion_succeeds_iff_witness:
  "acyclic (waits_for demo_steps demo_wf) \<and> \<not> acyclic (waits_for cycle_steps cycle_wf)"
proof -
  have "distinct (map ws_id cycle_steps)" "\<forall>s \<in> set (active_steps cycle_steps). sound_step demo_env cycle_wf s"
    "endpoints_in cycle_wf (active_steps cycle_steps)" "\<not> is_graph (make_graph demo_env cycle_steps cycle_wf)" by code_simp+
  with conversion_succeeds_iff [OF demo_ids(2), of demo_env cycle_wf] have "\<not> acyclic (waits_for cycle_steps cycle_wf)"
    by (auto simp: is_graph_def)
  moreover from conversion_succeeds_iff [OF demo_ids(1), of demo_env demo_wf] is_graphD [OF demo_graph]
  have "acyclic (waits_for demo_steps demo_wf)" by blast
  ultimately show ?thesis by blast
qed

end
