(* ===== verification/EnvoyRef.thy ===== *)
theory EnvoyRef
  imports Decimal
begin

text \<open>
  \<^verbatim>\<open>pkg/envoy/resource/types.go\<close> and \<^verbatim>\<open>resource.go\<close>: identifiers of resources, the references
  between them and the operations on sets of references.

  References are values here: the code shares pointers to them, and a set of references is changed
  in place where a function assigns its result back to the field it was called on.
\<close>

section \<open>Identifiers\<close>

fun ids_add :: "string list \<Rightarrow> string list \<Rightarrow> string list" where
  "ids_add ri [] = ri"
| "ids_add ri (i # ii) = ids_add (if 0 < length i then ri @ [i] else ri) ii"

definition make_identifiers :: "string list \<Rightarrow> string list" where
  "make_identifiers ss = ids_add [] ss"

fun ids_has_any :: "string list \<Rightarrow> string list \<Rightarrow> bool" where
  "ids_has_any [] check = False"
| "ids_has_any (i # ri) check = (if List.member check i then True else ids_has_any ri check)"

definition ids_first :: "string list \<Rightarrow> string" where
  "ids_first ri = (if length ri = 0 then [] else ri ! 0)"

fun ids_first_id :: "string list \<Rightarrow> 64 word" where
  "ids_first_id [] = 0"
| "ids_first_id (s # ri) = (case parse_uint s of None \<Rightarrow> ids_first_id ri | Some v \<Rightarrow> v)"

text \<open>Values that identifiers are made of: a number, a \<open>fmt.Stringer\<close> and what it prints, a string.\<close>

datatype ident_value = IdUint "64 word" | IdStringer string | IdString string

fun ident_of :: "ident_value \<Rightarrow> string" where
  "ident_of (IdUint c) = (if c = 0 then [] else format_uint c)"
| "ident_of (IdStringer s) = s"
| "ident_of (IdString s) = s"

fun identifiers_loop :: "string list \<Rightarrow> ident_value list \<Rightarrow> string list" where
  "identifiers_loop ss [] = ss"
| "identifiers_loop ss (i # ii) = identifiers_loop (if ident_of i = [] then ss else ss @ [ident_of i]) ii"

definition identifiers :: "ident_value list \<Rightarrow> string list" where
  "identifiers ii = identifiers_loop [] ii"

text \<open>
  \<open>Check\<close> compares the digits of a number with the interface value the number is in: values of
  different types, which are never equal.
\<close>

fun check_ident :: "string \<Rightarrow> ident_value list \<Rightarrow> bool" where
  "check_ident a [] = False"
| "check_ident a (IdString pi # ii) = (if a = pi then True else check_ident a ii)"
| "check_ident a (i # ii) = check_ident a ii"

section \<open>References\<close>

datatype ref = Ref (rf_type: string) (rf_ids: "string list") (rf_constraints: "ref list")

definition make_ref :: "string \<Rightarrow> string list \<Rightarrow> ref" where
  "make_ref rt ii = Ref rt ii []"

definition make_wild_ref :: "string \<Rightarrow> ref" where
  "make_wild_ref rt = Ref rt (make_identifiers [''*'']) []"

definition make_generic_ref :: "string \<Rightarrow> 64 word \<Rightarrow> string list \<Rightarrow> ref option" where
  "make_generic_ref t sid ii =
     (let aux = Ref t (identifiers (IdUint sid # map IdString ii)) []
      in if t = [] \<or> length (rf_ids aux) = 0 then None else Some aux)"

fun first_ok_string :: "string list \<Rightarrow> string" where
  "first_ok_string [] = []"
| "first_ok_string (s # ss) = (if s \<noteq> [] \<and> s \<noteq> ''0'' then s else first_ok_string ss)"

definition ref_is_wildcard :: "ref \<Rightarrow> bool" where
  "ref_is_wildcard r \<longleftrightarrow> (if length (rf_ids r) = 0 then False else List.member (rf_ids r) ''*'')"

definition ref_constraint :: "ref \<Rightarrow> ref \<Rightarrow> ref" where
  "ref_constraint r c =
     Ref (rf_type r) (rf_ids r) (rf_constraints r @ [Ref (rf_type c) (make_identifiers (rf_ids c)) []])"

fun ref_equals :: "ref \<Rightarrow> ref \<Rightarrow> bool" where
  "ref_equals a (Ref bt bi bc) =
     (if rf_type a \<noteq> bt then False
      else if \<not> ref_is_wildcard (Ref bt bi bc) \<and> \<not> ids_has_any (rf_ids a) bi then False
      else list_all (\<lambda>c. list_ex (\<lambda>r. ref_equals r c) (rf_constraints a)) bc)"

fun find_ref_from :: "nat \<Rightarrow> ref list \<Rightarrow> ref \<Rightarrow> int" where
  "find_ref_from i [] ref = -1"
| "find_ref_from i (r # rr) ref = (if ref_equals r ref then int i else find_ref_from (Suc i) rr ref)"

definition find_ref :: "ref list \<Rightarrow> ref \<Rightarrow> int" where
  "find_ref rr ref = find_ref_from 0 rr ref"

definition has_ref :: "ref list \<Rightarrow> ref \<Rightarrow> bool" where
  "has_ref rr ref \<longleftrightarrow> -1 < find_ref rr ref"

definition refset_equals :: "ref list \<Rightarrow> ref list \<Rightarrow> bool" where
  "refset_equals aa bb \<longleftrightarrow> length aa = length bb \<and> list_all2 ref_equals aa bb"

definition is_subset :: "ref list \<Rightarrow> ref list \<Rightarrow> bool" where
  "is_subset aa bb \<longleftrightarrow> (if length aa < length bb then False else refset_equals (take (length bb) aa) bb)"

text \<open>
  \<open>replaceRef\<close> goes from the last reference to the first. \<open>replace_down\<close> yields the references from
  a position on, whether the old one was found, and whether it was removed, which ends the loop: then
  the last of the references takes its place.
\<close>

definition replace_end :: "ref option \<Rightarrow> ref list \<times> bool \<times> bool \<Rightarrow> ref list" where
  "replace_end new res =
     (case res of (rr, found, removed) \<Rightarrow>
        (case new of Some n \<Rightarrow> if \<not> found then rr @ [n] else rr | None \<Rightarrow> rr))"

fun replace_down :: "ref \<Rightarrow> ref option \<Rightarrow> ref list \<Rightarrow> ref list \<times> bool \<times> bool" where
  "replace_down old new [] = ([], False, False)"
| "replace_down old new (Ref rt ii cc # rr) =
     (let (rr', found, removed) = replace_down old new rr
      in if removed then (Ref rt ii cc # rr', found, True)
         else if ref_equals (Ref rt ii cc) old
           then (case new of
                   None \<Rightarrow> (if rr' = [] then [] else last rr' # butlast rr', True, True)
                 | Some n \<Rightarrow> (n # rr', True, False))
         else (Ref rt ii (if 0 < length cc then replace_end new (replace_down old new cc) else cc) # rr', found, False))"

definition replace_ref :: "ref list \<Rightarrow> ref \<Rightarrow> ref option \<Rightarrow> ref list" where
  "replace_ref rr old new = replace_end new (replace_down old new rr)"

text \<open>Unique references: the identifiers seen by type.\<close>

fun unique_loop :: "(string \<rightharpoonup> string list) \<Rightarrow> ref list \<Rightarrow> ref list \<Rightarrow> ref list" where
  "unique_loop seen out [] = out"
| "unique_loop seen out (r # rr) =
     (case seen (rf_type r) of
        None \<Rightarrow> unique_loop (seen(rf_type r \<mapsto> rf_ids r)) (out @ [r]) rr
      | Some ii \<Rightarrow>
          if \<not> ids_has_any ii (rf_ids r)
          then unique_loop (seen(rf_type r \<mapsto> ids_add ii (rf_ids r))) (out @ [r]) rr
          else unique_loop seen out rr)"

definition ref_unique :: "ref list \<Rightarrow> ref list" where
  "ref_unique rr = unique_loop Map.empty [] rr"

section \<open>Resources\<close>

record import_resource =
  rs_type :: string
  rs_ids :: "string list"
  rs_refs :: "ref list"

definition add_identifier :: "string list \<Rightarrow> import_resource \<Rightarrow> import_resource" where
  "add_identifier ss t = t\<lparr>rs_ids := ids_add (rs_ids t) ss\<rparr>"

definition add_ref :: "string \<Rightarrow> string list \<Rightarrow> import_resource \<Rightarrow> import_resource" where
  "add_ref rt ii t = t\<lparr>rs_refs := rs_refs t @ [Ref rt (ids_add [] (filter (\<lambda>i. i \<noteq> []) ii)) []]\<rparr>"

definition base_replace_ref :: "ref \<Rightarrow> ref option \<Rightarrow> import_resource \<Rightarrow> import_resource" where
  "base_replace_ref old new t = t\<lparr>rs_refs := replace_ref (rs_refs t) old new\<rparr>"

definition base_ref :: "import_resource \<Rightarrow> ref" where
  "base_ref t = Ref (rs_type t) (rs_ids t) []"

definition has_refs :: "import_resource \<Rightarrow> bool" where
  "has_refs t \<longleftrightarrow> length (rs_refs t) = 0"

text \<open>\<open>ReRef\<close> reads the new references at the positions of the old ones: fewer of them is a panic.\<close>

fun re_ref :: "ref list \<Rightarrow> ref option list \<Rightarrow> import_resource \<Rightarrow> import_resource option" where
  "re_ref [] new t = Some t"
| "re_ref (o1 # old) [] t = None"
| "re_ref (o1 # old) (n # new) t = re_ref old new (base_replace_ref o1 n t)"

definition search_for_identifiers :: "import_resource list \<Rightarrow> string \<Rightarrow> string list \<Rightarrow> import_resource list" where
  "search_for_identifiers rr rt ii = filter (\<lambda>r. rs_type r = rt \<and> ids_has_any (rs_ids r) ii) rr"

definition search_for_references :: "import_resource list \<Rightarrow> ref \<Rightarrow> import_resource list" where
  "search_for_references rr ref = filter (\<lambda>r. has_ref (rs_refs r) ref) rr"

text \<open>References to module fields need not be resolved.\<close>

definition ignore_dep_resolution :: "ref \<Rightarrow> bool" where
  "ignore_dep_resolution r \<longleftrightarrow> rf_type r = ''corteza::compose:module-field''"

section \<open>What the operations do\<close>

lemma ids_add_filter [simp]: "ids_add ri ii = ri @ filter (\<lambda>i. i \<noteq> []) ii"
  by (induction ri ii rule: ids_add.induct) auto

lemma ids_has_any_iff [simp]: "ids_has_any ri check \<longleftrightarrow> set ri \<inter> set check \<noteq> {}"
  by (induction ri) auto

lemma identifiers_map [simp]: "identifiers ii = filter (\<lambda>s. s \<noteq> []) (map ident_of ii)"
proof -
  have "identifiers_loop ss ii = ss @ filter (\<lambda>s. s \<noteq> []) (map ident_of ii)" for ss
    by (induction ii arbitrary: ss) auto
  then show ?thesis by (simp add: identifiers_def)
qed

lemma check_ident_strings: "check_ident a ii \<longleftrightarrow> IdString a \<in> set ii"
  by (induction a ii rule: check_ident.induct) auto

lemma has_ref_iff [simp]: "has_ref rr ref \<longleftrightarrow> (\<exists>r \<in> set rr. ref_equals r ref)"
proof -
  have "-1 < find_ref_from i rr ref \<longleftrightarrow> (\<exists>r \<in> set rr. ref_equals r ref)" for i
    by (induction i rr ref rule: find_ref_from.induct) auto
  then show ?thesis by (simp add: has_ref_def find_ref_def)
qed

lemma replace_down_none:
  "(\<forall>r \<in> set rr. \<not> ref_equals r old) \<Longrightarrow>
   replace_down old new rr =
     (map (\<lambda>r. if rf_constraints r = [] then r
               else Ref (rf_type r) (rf_ids r) (replace_ref (rf_constraints r) old new)) rr, False, False)"
proof (induction rr)
  case (Cons r rr)
  then show ?case by (cases r) (simp add: replace_ref_def)
qed simp

end
