(* ===== verification/EnvoyGraph.thy ===== *)
theory EnvoyGraph
  imports EnvoyRef
begin

text \<open>
  \<^verbatim>\<open>pkg/envoy/node.go\<close>, \<^verbatim>\<open>graph.go\<close> and \<^verbatim>\<open>builder.go\<close>: the dependency graph of resources to import, and the order in
  which it provides them, resolving cycles by providing a resource twice.

  Nodes are pointers: the positions of the resources. A set of nodes in the form of a Go map is a
  function to flags; the order in which Go iterates over a map is the argument \<open>iter\<close>.
\<close>

section \<open>The index of nodes\<close>

type_synonym node_index = "(string \<times> string \<times> nat list) list"

fun index_put :: "node_index \<Rightarrow> string \<Rightarrow> string \<Rightarrow> nat \<Rightarrow> node_index" where
  "index_put [] rt i n = [(rt, i, [n])]"
| "index_put ((rt', i', ns) # ri) rt i n =
     (if rt' = rt \<and> i' = i then (rt', i', ns @ [n]) # ri else (rt', i', ns) # index_put ri rt i n)"

definition index_add :: "import_resource list \<Rightarrow> node_index" where
  "index_add rr =
     foldl (\<lambda>ri (n, r). foldl (\<lambda>ri i. index_put ri (rs_type r) i n) ri (rs_ids r)) [] (enumerate 0 rr)"

fun index_get :: "node_index \<Rightarrow> string \<Rightarrow> string \<Rightarrow> nat list" where
  "index_get [] rt i = []"
| "index_get ((rt', i', ns) # ri) rt i = (if rt' = rt \<and> i' = i then ns else index_get ri rt i)"

text \<open>A constraint is met when a reference of the resource has its type and one of its identifiers.\<close>

definition constraint_met :: "import_resource \<Rightarrow> ref \<Rightarrow> bool" where
  "constraint_met r c = list_ex (\<lambda>ref. rf_type ref = rf_type c \<and> ids_has_any (rf_ids ref) (rf_ids c)) (rs_refs r)"

fun get_ref_loop :: "import_resource list \<Rightarrow> node_index \<Rightarrow> ref \<Rightarrow> string list \<Rightarrow> nat option" where
  "get_ref_loop rr ri ref [] = None"
| "get_ref_loop rr ri ref (i # ii) =
     (case index_get ri (rf_type ref) i of
        [] \<Rightarrow> get_ref_loop rr ri ref ii
      | n # ns \<Rightarrow>
          if rf_constraints ref = [] then Some n
          else case find (\<lambda>n. list_ex (constraint_met (rr ! n)) (rf_constraints ref)) (n # ns) of
                 Some m \<Rightarrow> Some m
               | None \<Rightarrow> get_ref_loop rr ri ref ii)"

definition get_ref :: "import_resource list \<Rightarrow> node_index \<Rightarrow> ref \<Rightarrow> nat option" where
  "get_ref rr ri ref = get_ref_loop rr ri ref (rf_ids ref)"

definition get_resource_type :: "(nat list \<Rightarrow> nat list) \<Rightarrow> node_index \<Rightarrow> string \<Rightarrow> nat list" where
  "get_resource_type iter ri rt = iter (remdups (concat (map (\<lambda>(t, i, ns). if t = rt then ns else []) ri)))"

section \<open>The graph\<close>

record egraph =
  eg_nodes :: "nat list"
  eg_children :: "nat \<Rightarrow> nat list"
  eg_parents :: "nat \<Rightarrow> nat list"
  eg_missing :: "ref list"
  eg_inverted :: bool
  eg_processed :: "nat \<Rightarrow> bool"
  eg_conflicting :: "nat \<Rightarrow> bool"

definition new_egraph :: egraph where
  "new_egraph = \<lparr>eg_nodes = [], eg_children = (\<lambda>_. []), eg_parents = (\<lambda>_. []), eg_missing = [],
     eg_inverted = False, eg_processed = (\<lambda>_. False), eg_conflicting = (\<lambda>_. False)\<rparr>"

definition add_node :: "nat \<Rightarrow> egraph \<Rightarrow> egraph" where
  "add_node n g = g\<lparr>eg_nodes := eg_nodes g @ [n]\<rparr>"

definition child_nodes :: "egraph \<Rightarrow> nat \<Rightarrow> nat list" where
  "child_nodes g n = (if eg_inverted g then eg_parents g n else eg_children g n)"

definition parent_nodes :: "egraph \<Rightarrow> nat \<Rightarrow> nat list" where
  "parent_nodes g n = (if eg_inverted g then eg_children g n else eg_parents g n)"

definition add_child :: "nat \<Rightarrow> nat \<Rightarrow> egraph \<Rightarrow> egraph" where
  "add_child n m g =
     (if eg_inverted g then g\<lparr>eg_parents := (eg_parents g)(n := eg_parents g n @ [m])\<rparr>
      else g\<lparr>eg_children := (eg_children g)(n := eg_children g n @ [m])\<rparr>)"

definition add_eparent :: "nat \<Rightarrow> nat \<Rightarrow> egraph \<Rightarrow> egraph" where
  "add_eparent n m g =
     (if eg_inverted g then g\<lparr>eg_children := (eg_children g)(n := eg_children g n @ [m])\<rparr>
      else g\<lparr>eg_parents := (eg_parents g)(n := eg_parents g n @ [m])\<rparr>)"

definition mark_processed :: "nat \<Rightarrow> egraph \<Rightarrow> egraph" where
  "mark_processed n g = g\<lparr>eg_processed := (eg_processed g)(n := True)\<rparr>"

definition mark_conflicting :: "nat \<Rightarrow> egraph \<Rightarrow> egraph" where
  "mark_conflicting n g = g\<lparr>eg_conflicting := (eg_conflicting g)(n := True)\<rparr>"

definition remove_processed :: "egraph \<Rightarrow> nat list \<Rightarrow> nat list" where
  "remove_processed g nn = foldl (\<lambda>mm n. if \<not> eg_processed g n then mm @ [n] else mm) [] nn"

definition remove_conflicting :: "egraph \<Rightarrow> nat list \<Rightarrow> nat list" where
  "remove_conflicting g nn = foldl (\<lambda>mm n. if \<not> eg_conflicting g n then mm @ [n] else mm) [] nn"

section \<open>The next resource\<close>

record resource_state =
  es_node :: nat
  es_conflicting :: bool
  es_deps :: "nat list"
  es_parents :: "nat list"

definition prep_exec_state :: "egraph \<Rightarrow> nat \<Rightarrow> bool \<Rightarrow> resource_state" where
  "prep_exec_state g n conflicting =
     \<lparr>es_node = n, es_conflicting = conflicting, es_deps = child_nodes g n, es_parents = parent_nodes g n\<rparr>"

text \<open>
  The depth-first search for a node on a cycle. The path is restored when a call returns nil, so it
  is passed down; the set of nodes looked at is handed through. The recursion ends because the path
  grows: fuel for its depth, with \<^const>\<open>None\<close> when it runs out.
\<close>

function traverse :: "egraph \<Rightarrow> nat \<Rightarrow> nat \<Rightarrow> nat list \<Rightarrow> nat list \<Rightarrow> (nat option \<times> nat list) option"
and traverse_all :: "egraph \<Rightarrow> nat \<Rightarrow> nat list \<Rightarrow> nat list \<Rightarrow> nat list \<Rightarrow> (nat option \<times> nat list) option" where
  "traverse g 0 n path seen = None"
| "traverse g (Suc fuel) n path seen =
     (let seen = n # seen
      in if List.member path n then Some (Some n, seen)
         else let cnn = remove_processed g (remove_conflicting g (child_nodes g n))
              in if length cnn = 0 then Some (None, seen)
                 else traverse_all g fuel cnn (n # path) seen)"
| "traverse_all g fuel [] path seen = Some (None, seen)"
| "traverse_all g fuel (c # cs) path seen =
     (case traverse g fuel c path seen of
        None \<Rightarrow> None
      | Some (Some m, seen) \<Rightarrow> Some (Some m, seen)
      | Some (None, seen) \<Rightarrow> traverse_all g fuel cs path seen)"
  by pat_completeness auto
termination
  by (relation "measures [\<lambda>x. case x of Inl (g, f, n, p, s) \<Rightarrow> f | Inr (g, f, cs, p, s) \<Rightarrow> f,
        \<lambda>x. case x of Inl _ \<Rightarrow> 0 | Inr (g, f, cs, p, s) \<Rightarrow> Suc (length cs)]") auto

fun cycle_loop :: "egraph \<Rightarrow> nat \<Rightarrow> nat list \<Rightarrow> nat list \<Rightarrow> nat option option" where
  "cycle_loop g fuel [] seen = Some None"
| "cycle_loop g fuel (n # nn) seen =
     (if List.member seen n then cycle_loop g fuel nn seen
      else case traverse g fuel n [] seen of
             None \<Rightarrow> None
           | Some (Some m, seen) \<Rightarrow> Some (Some m)
           | Some (None, seen) \<Rightarrow> cycle_loop g fuel nn seen)"

definition find_cycle_node :: "egraph \<Rightarrow> nat list \<Rightarrow> nat option option" where
  "find_cycle_node g nn = cycle_loop g (Suc (length (eg_nodes g))) nn []"

text \<open>\<open>Next\<close>: nothing left, a resource, or the error the code calls basically impossible.\<close>

datatype next_resource = NoneLeft | NextState resource_state | NoCycleNode

definition next_ready :: "egraph \<Rightarrow> nat list \<Rightarrow> nat option" where
  "next_ready g upNN =
     find (\<lambda>n. length (remove_processed g (remove_conflicting g (parent_nodes g n))) = 0) upNN"

definition envoy_next :: "egraph \<Rightarrow> next_resource \<times> egraph" where
  "envoy_next g =
     (let upNN = remove_processed g (eg_nodes g)
      in if length upNN = 0 then (NoneLeft, g)
         else case next_ready g upNN of
           Some n \<Rightarrow> (NextState (prep_exec_state g n False), mark_processed n g)
         | None \<Rightarrow>
             (case find_cycle_node g (remove_conflicting g upNN) of
                Some (Some n) \<Rightarrow> (NextState (prep_exec_state g n True), mark_conflicting n g)
              | _ \<Rightarrow> (NoCycleNode, g)))"

definition next_inverted :: "egraph \<Rightarrow> next_resource \<times> egraph" where
  "next_inverted g =
     (let (r, g) = envoy_next (g\<lparr>eg_inverted := True\<rparr>) in (r, g\<lparr>eg_inverted := False\<rparr>))"

text \<open>An encoder's loop: it takes resources until there are none, at most the given number.\<close>

fun provide :: "nat \<Rightarrow> egraph \<Rightarrow> (resource_state list \<times> next_resource) option" where
  "provide 0 g = None"
| "provide (Suc fuel) g =
     (case next_inverted g of
        (NextState s, g) \<Rightarrow> map_option (\<lambda>(ss, r). (s # ss, r)) (provide fuel g)
      | (r, g) \<Rightarrow> Some ([], r))"

section \<open>Building the graph\<close>

definition connect :: "nat \<Rightarrow> nat \<Rightarrow> egraph \<Rightarrow> egraph" where
  "connect c n g = add_eparent n c (add_child c n g)"

definition connect_ref ::
  "(nat list \<Rightarrow> nat list) \<Rightarrow> import_resource list \<Rightarrow> node_index \<Rightarrow> nat \<Rightarrow> egraph \<times> ref list \<Rightarrow> ref \<Rightarrow> egraph \<times> ref list" where
  "connect_ref iter rr ri c acc ref =
     (let (g, missing) = acc
      in if ref_is_wildcard ref
         then (foldl (\<lambda>g n. connect c n g) g (get_resource_type iter ri (rf_type ref)), missing)
         else case get_ref rr ri ref of
           None \<Rightarrow> (g, if ignore_dep_resolution ref then missing else missing @ [ref])
         | Some n \<Rightarrow> (connect c n g, missing))"

definition build_node ::
  "(nat list \<Rightarrow> nat list) \<Rightarrow> import_resource list \<Rightarrow> node_index \<Rightarrow> egraph \<times> ref list \<Rightarrow> nat \<Rightarrow> egraph \<times> ref list" where
  "build_node iter rr ri acc c =
     (let (g, missing) = foldl (connect_ref iter rr ri c) acc (rs_refs (rr ! c)) in (add_node c g, missing))"

definition build_egraph :: "(nat list \<Rightarrow> nat list) \<Rightarrow> bool \<Rightarrow> import_resource list \<Rightarrow> egraph" where
  "build_egraph iter report_missing rr =
     (let (g, missing) = foldl (build_node iter rr (index_add rr)) (new_egraph, []) [0..<length rr]
      in if report_missing \<and> 0 < length missing then g\<lparr>eg_missing := missing\<rparr> else g)"

text \<open>
  \<open>Build\<close>: the preparers see every resource state in order and may change the resources, which the
  final graph is built from.
\<close>

fun prepare_all ::
  "(resource_state \<Rightarrow> import_resource list \<Rightarrow> string + import_resource list) list \<Rightarrow> resource_state \<Rightarrow> import_resource list \<Rightarrow>
   string + import_resource list" where
  "prepare_all [] s rr = Inr rr"
| "prepare_all (p # pp) s rr = (case p s rr of Inl e \<Rightarrow> Inl e | Inr rr \<Rightarrow> prepare_all pp s rr)"

fun prepare_loop ::
  "(resource_state \<Rightarrow> import_resource list \<Rightarrow> string + import_resource list) list \<Rightarrow> nat \<Rightarrow> egraph \<Rightarrow> import_resource list \<Rightarrow>
   (string + import_resource list) option" where
  "prepare_loop pp 0 g rr = None"
| "prepare_loop pp (Suc fuel) g rr =
     (case next_inverted g of
        (NoneLeft, g) \<Rightarrow> Some (Inr rr)
      | (NoCycleNode, g) \<Rightarrow> Some (Inl ''could not determine non-conflicting node'')
      | (NextState s, g) \<Rightarrow>
          (case prepare_all pp s rr of
             Inl e \<Rightarrow> Some (Inl e)
           | Inr rr \<Rightarrow> prepare_loop pp fuel g rr))"

definition unresolved_references :: string where
  "unresolved_references = ''builder error: unresolved references''"

definition envoy_build ::
  "(nat list \<Rightarrow> nat list) \<Rightarrow> bool \<Rightarrow> (resource_state \<Rightarrow> import_resource list \<Rightarrow> string + import_resource list) list \<Rightarrow> nat \<Rightarrow>
   import_resource list \<Rightarrow> (string option \<times> egraph option) option" where
  "envoy_build iter report pp fuel rr =
     (let g = build_egraph iter report rr
      in if 0 < length (eg_missing g) then Some (Some unresolved_references, Some g)
         else case prepare_loop pp fuel g rr of
           None \<Rightarrow> None
         | Some (Inl e) \<Rightarrow> Some (Some e, None)
         | Some (Inr rr') \<Rightarrow>
             (let g = build_egraph iter report rr'
              in if 0 < length (eg_missing g) then Some (Some unresolved_references, Some g)
                 else Some (None, Some g)))"

end
