(* ===== verification/EnvoyFacts.thy ===== *)
theory EnvoyFacts
  imports EnvoyGraph
begin

text \<open>
  The order in which a graph provides its resources: every resource once, after everything it
  refers to, where a resource on a cycle of references is provided a first time as conflicting.
\<close>

lemma remove_processed_filter [simp]: "remove_processed g nn = filter (\<lambda>n. \<not> eg_processed g n) nn"
proof -
  have "foldl (\<lambda>mm n. if \<not> eg_processed g n then mm @ [n] else mm) acc nn
      = acc @ filter (\<lambda>n. \<not> eg_processed g n) nn" for acc
    by (induction nn arbitrary: acc) auto
  then show ?thesis by (simp add: remove_processed_def)
qed

lemma remove_conflicting_filter [simp]: "remove_conflicting g nn = filter (\<lambda>n. \<not> eg_conflicting g n) nn"
proof -
  have "foldl (\<lambda>mm n. if \<not> eg_conflicting g n then mm @ [n] else mm) acc nn
      = acc @ filter (\<lambda>n. \<not> eg_conflicting g n) nn" for acc
    by (induction nn arbitrary: acc) auto
  then show ?thesis by (simp add: remove_conflicting_def)
qed

section \<open>The search for a cycle\<close>

text \<open>The children the search goes to.\<close>

definition open_children :: "egraph \<Rightarrow> nat \<Rightarrow> nat list" where
  "open_children g n = remove_processed g (remove_conflicting g (child_nodes g n))"

definition open_child :: "egraph \<Rightarrow> nat \<Rightarrow> nat \<Rightarrow> bool" where
  "open_child g y x \<longleftrightarrow> y \<in> set (open_children g x)"

lemma traverse_unfold:
  "traverse g (Suc fuel) n path seen =
     (if n \<in> set path then Some (Some n, n # seen)
      else if open_children g n = [] then Some (None, n # seen)
      else traverse_all g fuel (open_children g n) (n # path) (n # seen))"
  by (simp add: Let_def open_children_def del: remove_processed_filter remove_conflicting_filter)

declare traverse.simps(2) [simp del]

text \<open>A search that finds nothing has only met nodes from which every way ends.\<close>

lemma traverse_nothing:
  "traverse g fuel n path seen = Some (None, seen') \<Longrightarrow>
     Wellfounded.accp (open_child g) n \<and> (\<forall>x \<in> set seen' - set seen. Wellfounded.accp (open_child g) x)"
  "traverse_all g fuel cs path seen = Some (None, seen') \<Longrightarrow>
     (\<forall>c \<in> set cs. Wellfounded.accp (open_child g) c) \<and> (\<forall>x \<in> set seen' - set seen. Wellfounded.accp (open_child g) x)"
proof (induction g fuel n path seen and g fuel cs path seen arbitrary: seen' and seen' rule: traverse_traverse_all.induct)
  case (2 g fuel n path seen)
  show ?case
  proof (cases "open_children g n = []")
    case True
    have "Wellfounded.accp (open_child g) n" by (rule accpI) (simp add: open_child_def True)
    with 2(2) True show ?thesis by (auto simp: traverse_unfold split: if_splits)
  next
    case False
    with 2(2) have notin: "n \<notin> set path"
      and rest: "traverse_all g fuel (open_children g n) (n # path) (n # seen) = Some (None, seen')"
      by (auto simp: traverse_unfold split: if_splits)
    from 2(1) [OF refl _ refl _ ] notin False rest
    have ih: "(\<forall>c \<in> set (open_children g n). Wellfounded.accp (open_child g) c) \<and>
        (\<forall>x \<in> set seen' - set (n # seen). Wellfounded.accp (open_child g) x)"
      by (simp add: open_children_def)
    then have "Wellfounded.accp (open_child g) n" by - (rule accpI, simp add: open_child_def)
    with ih show ?thesis by auto
  qed
next
  case (4 g fuel c cs path seen)
  from 4(3) obtain s1 where s1: "traverse g fuel c path seen = Some (None, s1)"
    and s2: "traverse_all g fuel cs path s1 = Some (None, seen')"
    by (auto split: option.splits)
  note head = 4(1) [OF s1] and tail = 4(2) [OF s1 refl refl s2]
  have "Wellfounded.accp (open_child g) x" if x: "x \<in> set seen' - set seen" for x
  proof (cases "x \<in> set s1")
    case True
    with x head show ?thesis by blast
  next
    case False
    with x tail show ?thesis by blast
  qed
  with head tail show ?case by simp
qed simp_all

text \<open>A node found is one the search started from or went to, and lies on a cycle.\<close>

fun chain_to :: "egraph \<Rightarrow> nat \<Rightarrow> nat list \<Rightarrow> bool" where
  "chain_to g n [] = True"
| "chain_to g n (p # path) = (open_child g n p \<and> chain_to g p path)"

lemma chain_reaches: "chain_to g n path \<Longrightarrow> m \<in> set path \<Longrightarrow> (open_child g)\<^sup>+\<^sup>+ n m"
proof (induction path arbitrary: n)
  case (Cons p path)
  then have np: "open_child g n p" by simp
  show ?case
  proof (cases "m = p")
    case True
    with np show ?thesis by blast
  next
    case False
    with Cons have "(open_child g)\<^sup>+\<^sup>+ p m" by simp
    with np show ?thesis by (rule tranclp_into_tranclp2)
  qed
qed simp

lemma traverse_found:
  "traverse g fuel n path seen = Some (Some m, seen') \<Longrightarrow> chain_to g n path \<Longrightarrow>
     (open_child g)\<^sup>+\<^sup>+ m m \<and> (m = n \<or> (\<exists>x. open_child g m x))"
  "traverse_all g fuel cs path seen = Some (Some m, seen') \<Longrightarrow> (\<forall>c \<in> set cs. chain_to g c path) \<Longrightarrow> path \<noteq> [] \<Longrightarrow>
     (open_child g)\<^sup>+\<^sup>+ m m \<and> (\<exists>x. open_child g m x)"
proof (induction g fuel n path seen and g fuel cs path seen arbitrary: seen' and seen' rule: traverse_traverse_all.induct)
  case (2 g fuel n path seen)
  show ?case
  proof (cases "n \<in> set path")
    case True
    with 2(2) have "m = n" by (auto simp: traverse_unfold)
    with True 2(3) show ?thesis by (auto intro: chain_reaches)
  next
    case False
    with 2(2) have ne: "open_children g n \<noteq> []"
      and rest: "traverse_all g fuel (open_children g n) (n # path) (n # seen) = Some (Some m, seen')"
      by (auto simp: traverse_unfold split: if_splits)
    have "\<forall>c \<in> set (open_children g n). chain_to g c (n # path)" using 2(3) by (auto simp: open_child_def)
    with 2(1) [OF refl _ refl] False ne rest show ?thesis by (simp add: open_children_def)
  qed
next
  case (4 g fuel c cs path seen)
  show ?case
  proof (cases "traverse g fuel c path seen")
    case None
    with 4(3) show ?thesis by simp
  next
    case (Some r)
    obtain o1 s1 where r: "r = (o1, s1)" by fastforce
    from 4(4,5) have c: "\<exists>x. open_child g c x" by (cases path) auto
    show ?thesis
    proof (cases o1)
      case None
      with 4(2) [OF Some [unfolded r None] refl refl] 4(3,4,5) Some r None show ?thesis by simp
    next
      case (Some m')
      with 4(1) [of s1] 4(3,4) \<open>traverse g fuel c path seen = Some r\<close> r c show ?thesis by auto
    qed
  qed
qed simp_all

text \<open>The fuel is enough: the path holds different nodes of the graph.\<close>

lemma traverse_fuel:
  assumes "finite R" and closed: "\<And>x. set (open_children g x) \<subseteq> R"
  shows "distinct path \<Longrightarrow> set path \<subseteq> R \<Longrightarrow> n \<in> R \<Longrightarrow> card R < fuel + length path \<Longrightarrow> traverse g fuel n path seen \<noteq> None"
    and "distinct path \<Longrightarrow> set path \<subseteq> R \<Longrightarrow> set cs \<subseteq> R \<Longrightarrow> card R < fuel + length path \<Longrightarrow> traverse_all g fuel cs path seen \<noteq> None"
  using assms
proof (induction g fuel n path seen and g fuel cs path seen rule: traverse_traverse_all.induct)
  case (1 g n path seen)
  have "length path \<le> card R" using 1(1,2,5) by (metis card_mono distinct_card)
  with 1(4) show ?case by simp
next
  case (2 g fuel n path seen)
  show ?case
  proof (cases "n \<in> set path \<or> open_children g n = []")
    case True
    then show ?thesis by (auto simp: traverse_unfold)
  next
    case False
    with 2 show ?thesis by (simp add: traverse_unfold open_children_def)
  qed
next
  case (4 g fuel c cs path seen)
  from 4 have "traverse g fuel c path seen \<noteq> None" by simp
  with 4 show ?case by (auto split: option.splits)
qed simp_all

section \<open>The next resource\<close>

text \<open>The relations of the graph describe the same edges, between its nodes.\<close>

definition linked :: "egraph \<Rightarrow> bool" where
  "linked g \<longleftrightarrow> distinct (eg_nodes g) \<and>
     (\<forall>a b. b \<in> set (eg_children g a) \<longleftrightarrow> a \<in> set (eg_parents g b)) \<and>
     (\<forall>a b. b \<in> set (eg_children g a) \<longrightarrow> a \<in> set (eg_nodes g) \<and> b \<in> set (eg_nodes g))"

lemma linked_flags [simp]:
  "linked (g\<lparr>eg_inverted := b\<rparr>) = linked g" "linked (mark_processed n g) = linked g"
  "linked (mark_conflicting n g) = linked g"
  by (simp_all add: linked_def mark_processed_def mark_conflicting_def)

lemma linked_child: "linked g \<Longrightarrow> y \<in> set (child_nodes g x) \<longleftrightarrow> x \<in> set (parent_nodes g y)"
  by (auto simp: linked_def child_nodes_def parent_nodes_def)

lemma linked_nodes:
  "linked g \<Longrightarrow> y \<in> set (child_nodes g x) \<Longrightarrow> y \<in> set (eg_nodes g) \<and> x \<in> set (eg_nodes g)"
  unfolding linked_def child_nodes_def by (auto split: if_splits)

definition open_nodes :: "egraph \<Rightarrow> nat list" where
  "open_nodes g = remove_conflicting g (remove_processed g (eg_nodes g))"

lemma open_child_iff:
  "linked g \<Longrightarrow> open_child g y x \<longleftrightarrow> y \<in> set (open_nodes g) \<and> x \<in> set (parent_nodes g y)"
  using linked_child [of g y x] linked_nodes [of g y x]
  by (auto simp: open_child_def open_children_def open_nodes_def)

lemma cycle_loop_nothing:
  "cycle_loop g fuel nn seen = Some None \<Longrightarrow> \<forall>x \<in> set seen. Wellfounded.accp (open_child g) x \<Longrightarrow>
   \<forall>x \<in> set nn. Wellfounded.accp (open_child g) x"
proof (induction nn arbitrary: seen)
  case (Cons n nn)
  show ?case
  proof (cases "n \<in> set seen")
    case True
    with Cons show ?thesis by auto
  next
    case False
    with Cons.prems(1) obtain s1 where s1: "traverse g fuel n [] seen = Some (None, s1)" "cycle_loop g fuel nn s1 = Some None"
      by (auto split: option.splits)
    from traverse_nothing(1) [OF s1(1)] Cons.prems(2) have n: "Wellfounded.accp (open_child g) n"
      and "\<forall>x \<in> set s1. Wellfounded.accp (open_child g) x" by blast+
    with Cons.IH [OF s1(2)] show ?thesis by simp
  qed
qed simp

lemma cycle_loop_found:
  "cycle_loop g fuel nn seen = Some (Some m) \<Longrightarrow> (open_child g)\<^sup>+\<^sup>+ m m"
proof (induction nn arbitrary: seen)
  case (Cons n nn)
  show ?case
  proof (cases "n \<in> set seen")
    case True
    with Cons show ?thesis by auto
  next
    case False
    with Cons.prems obtain o1 s1 where s1: "traverse g fuel n [] seen = Some (o1, s1)"
      by (auto split: option.splits)
    with Cons False show ?thesis by (cases o1) (auto dest: traverse_found(1))
  qed
qed simp

lemma cycle_loop_fuel:
  assumes "linked g" and "set nn \<subseteq> set (open_nodes g)"
  shows "cycle_loop g (Suc (length (eg_nodes g))) nn seen \<noteq> None"
  using assms(2)
proof (induction nn arbitrary: seen)
  case (Cons n nn)
  have closed: "set (open_children g x) \<subseteq> set (open_nodes g)" for x
    using assms(1) open_child_iff [OF assms(1)] by (auto simp: open_child_def)
  have "card (set (open_nodes g)) \<le> length (open_nodes g)" by (rule card_length)
  also have "\<dots> \<le> length (eg_nodes g)" by (simp add: open_nodes_def le_trans [OF length_filter_le length_filter_le])
  finally have "traverse g (Suc (length (eg_nodes g))) n [] seen \<noteq> None"
    using Cons.prems by (intro traverse_fuel(1) [OF _ closed]) auto
  with Cons show ?case by (auto split: option.splits)
qed simp

text \<open>Among finitely many nodes that all have an open parent among them, the search finds a cycle.\<close>

lemma no_sink:
  assumes "finite R" and "R \<noteq> {}" and parent: "\<And>y. y \<in> R \<Longrightarrow> \<exists>x \<in> R. r y x"
  shows "\<exists>x \<in> R. \<not> Wellfounded.accp r x"
proof (rule ccontr)
  assume "\<not> ?thesis"
  then have all: "\<forall>x \<in> R. Wellfounded.accp r x" by blast
  define E where "E = {(y, x). x \<in> R \<and> y \<in> R \<and> r y x}"
  have "x \<in> Wellfounded.acc E" if "Wellfounded.accp r x" for x
    using that by (induction rule: accp.induct) (auto intro: acc.intros simp: E_def)
  moreover have "x \<in> Wellfounded.acc E" if "x \<notin> R" for x using that by (auto intro: acc.intros simp: E_def)
  ultimately have "wf E" using all by (metis acc_wfI)
  moreover have "finite E"
  proof (rule finite_subset)
    show "E \<subseteq> R \<times> R" by (auto simp: E_def)
    show "finite (R \<times> R)" using assms(1) by simp
  qed
  ultimately have wfE: "wf (E\<inverse>)" by (intro finite_acyclic_wf_converse wf_acyclic)
  from assms(2) obtain a where a: "a \<in> R" by blast
  from wfE_min [OF wfE a] obtain z where z: "z \<in> R" "\<And>y. (y, z) \<in> E\<inverse> \<Longrightarrow> y \<notin> R" by blast
  from parent [OF z(1)] obtain x where x: "x \<in> R" "r z x" by blast
  then have "(x, z) \<in> E\<inverse>" using z(1) by (simp add: E_def)
  with z(2) x(1) show False by blast
qed

lemma next_ready_None:
  assumes "linked g" and "next_ready g (remove_processed g (eg_nodes g)) = None" and "remove_processed g (eg_nodes g) \<noteq> []"
  shows "\<exists>m. find_cycle_node g (open_nodes g) = Some (Some m) \<and> (open_child g)\<^sup>+\<^sup>+ m m"
proof -
  have "\<exists>x \<in> set (open_nodes g). x \<in> set (parent_nodes g y)" if "y \<in> set (remove_processed g (eg_nodes g))" for y
  proof -
    from assms(2) that have "remove_processed g (remove_conflicting g (parent_nodes g y)) \<noteq> []"
      by (auto simp: next_ready_def find_None)
    then obtain x where "x \<in> set (parent_nodes g y)" "\<not> eg_processed g x" "\<not> eg_conflicting g x"
      by (auto simp: filter_empty_conv)
    moreover from this have "y \<in> set (child_nodes g x)" using linked_child [OF assms(1), of y x] by blast
    then have "x \<in> set (eg_nodes g)" using linked_nodes [OF assms(1)] by blast
    ultimately show ?thesis by (intro bexI [of _ x]) (simp_all add: open_nodes_def)
  qed
  note par = this
  have sub: "set (open_nodes g) \<subseteq> set (remove_processed g (eg_nodes g))" by (auto simp: open_nodes_def)
  obtain y where "y \<in> set (remove_processed g (eg_nodes g))" using assms(3) by (metis list.set_intros(1) neq_Nil_conv)
  from par [OF this] have ne: "set (open_nodes g) \<noteq> {}" by auto
  have up: "\<exists>x \<in> set (open_nodes g). open_child g y x" if y: "y \<in> set (open_nodes g)" for y
    using par [OF subsetD [OF sub y]] y open_child_iff [OF assms(1)] by blast
  have "\<exists>x \<in> set (open_nodes g). \<not> Wellfounded.accp (open_child g) x"
    by (rule no_sink [OF finite_set ne]) (rule up)
  then obtain x where x: "x \<in> set (open_nodes g)" "\<not> Wellfounded.accp (open_child g) x" by (elim bexE)
  have "find_cycle_node g (open_nodes g) \<noteq> Some None"
    using cycle_loop_nothing [of g "Suc (length (eg_nodes g))" "open_nodes g" "[]"] x unfolding find_cycle_node_def by auto
  moreover have "find_cycle_node g (open_nodes g) \<noteq> None"
    unfolding find_cycle_node_def by (rule cycle_loop_fuel [OF assms(1) subset_refl])
  ultimately obtain m where m: "find_cycle_node g (open_nodes g) = Some (Some m)" by (metis not_None_eq)
  then have "(open_child g)\<^sup>+\<^sup>+ m m" unfolding find_cycle_node_def by (rule cycle_loop_found)
  with m show ?thesis by blast
qed

end
