(* ===== verification/EnvoyOrder.thy ===== *)
theory EnvoyOrder
  imports EnvoyFacts
begin

text \<open>
  What a graph provides when it is asked until nothing is left, and what the builder's graph is:
  the edges are the resolved references.
\<close>

section \<open>One step\<close>

definition touched :: "egraph \<Rightarrow> nat set" where
  "touched g = {n. eg_processed g n \<or> eg_conflicting g n}"

lemma open_cycle_node: "linked g \<Longrightarrow> (open_child g)\<^sup>+\<^sup>+ m m \<Longrightarrow> m \<in> set (open_nodes g)"
  using open_child_iff [of g m] by (auto dest: tranclpD)

lemma next_ready_Some:
  "next_ready g nn = Some n \<Longrightarrow> n \<in> set nn \<and> set (parent_nodes g n) \<subseteq> touched g"
  by (auto simp: next_ready_def find_Some_iff touched_def filter_empty_conv)

lemma envoy_next_cases:
  assumes "linked g"
  obtains
    (none_left) "remove_processed g (eg_nodes g) = []" "envoy_next g = (NoneLeft, g)"
  | (ready) n where "n \<in> set (eg_nodes g)" "\<not> eg_processed g n" "set (parent_nodes g n) \<subseteq> touched g"
      "envoy_next g = (NextState (prep_exec_state g n False), mark_processed n g)"
  | (cyclic) n where "n \<in> set (open_nodes g)" "(open_child g)\<^sup>+\<^sup>+ n n"
      "envoy_next g = (NextState (prep_exec_state g n True), mark_conflicting n g)"
proof -
  let ?up = "remove_processed g (eg_nodes g)"
  show thesis
  proof (cases "?up = []")
    case True
    then have "envoy_next g = (NoneLeft, g)" unfolding envoy_next_def Let_def by simp
    with True show thesis by (rule none_left)
  next
    case up: False
    show thesis
    proof (cases "next_ready g ?up")
      case None
      from next_ready_None [OF assms None up] obtain m
        where m: "find_cycle_node g (open_nodes g) = Some (Some m)" "(open_child g)\<^sup>+\<^sup>+ m m" by blast
      with up None have "envoy_next g = (NextState (prep_exec_state g m True), mark_conflicting m g)"
        unfolding envoy_next_def Let_def open_nodes_def by simp
      with open_cycle_node [OF assms m(2)] m(2) show thesis by (rule cyclic)
    next
      case (Some n)
      with up have "envoy_next g = (NextState (prep_exec_state g n False), mark_processed n g)"
        unfolding envoy_next_def Let_def by simp
      with next_ready_Some [OF Some] show thesis by (intro ready [of n]) simp_all
    qed
  qed
qed

section \<open>The resources provided\<close>

text \<open>A resource comes after all of \<open>ch\<close>, but for the first time of one on a cycle.\<close>

fun in_order :: "(nat \<Rightarrow> nat set) \<Rightarrow> nat set \<Rightarrow> resource_state list \<Rightarrow> bool" where
  "in_order ch seen [] = True"
| "in_order ch seen (s # ss) =
     ((es_conflicting s \<or> ch (es_node s) \<subseteq> seen) \<and> in_order ch (insert (es_node s) seen) ss)"

definition settled_nodes :: "resource_state list \<Rightarrow> nat list" where
  "settled_nodes ss = map es_node (filter (\<lambda>s. \<not> es_conflicting s) ss)"

definition provisional :: "resource_state list \<Rightarrow> nat list" where
  "provisional ss = map es_node (filter es_conflicting ss)"

lemma settled_simps [simp]:
  "settled_nodes [] = []" "settled_nodes (s # ss) = (if es_conflicting s then settled_nodes ss else es_node s # settled_nodes ss)"
  "provisional [] = []" "provisional (s # ss) = (if es_conflicting s then es_node s # provisional ss else provisional ss)"
  by (simp_all add: settled_nodes_def provisional_def)

text \<open>What is left to do: a node is provided at most twice.\<close>

definition work :: "egraph \<Rightarrow> nat" where
  "work g = length (remove_processed g (eg_nodes g)) + length (open_nodes g)"

lemma flags_simps [simp]:
  "eg_nodes (mark_processed n g) = eg_nodes g" "eg_nodes (mark_conflicting n g) = eg_nodes g"
  "eg_children (mark_processed n g) = eg_children g" "eg_children (mark_conflicting n g) = eg_children g"
  "eg_inverted (mark_processed n g) = eg_inverted g" "eg_inverted (mark_conflicting n g) = eg_inverted g"
  "eg_processed (mark_processed n g) m = (m = n \<or> eg_processed g m)"
  "eg_conflicting (mark_processed n g) m = eg_conflicting g m"
  "eg_processed (mark_conflicting n g) m = eg_processed g m"
  "eg_conflicting (mark_conflicting n g) m = (m = n \<or> eg_conflicting g m)"
  "touched (mark_processed n g) = insert n (touched g)" "touched (mark_conflicting n g) = insert n (touched g)"
  by (auto simp: mark_processed_def mark_conflicting_def touched_def)

lemma filter_one_less:
  "x \<in> set xs \<Longrightarrow> P x \<Longrightarrow> length (filter (\<lambda>y. y \<noteq> x \<and> P y) xs) < length (filter P xs)"
proof (induction xs)
  case (Cons y ys)
  show ?case
  proof (cases "x \<in> set ys")
    case True
    with Cons show ?thesis by auto
  next
    case False
    with Cons.prems have "x = y" by simp
    moreover have "length (filter (\<lambda>z. z \<noteq> x \<and> P z) ys) \<le> length (filter P ys)"
      by (induction ys) auto
    ultimately show ?thesis using Cons.prems by simp
  qed
qed simp

lemma work_processed:
  assumes "n \<in> set (eg_nodes g)" "\<not> eg_processed g n"
  shows "work (mark_processed n g) < work g"
proof -
  have "length (filter (\<lambda>m. m \<noteq> n \<and> \<not> eg_processed g m) (eg_nodes g)) < length (filter (\<lambda>m. \<not> eg_processed g m) (eg_nodes g))"
    using assms by (intro filter_one_less)
  moreover have "length (filter (\<lambda>m. \<not> eg_conflicting g m \<and> m \<noteq> n \<and> \<not> eg_processed g m) xs)
      \<le> length (filter (\<lambda>m. \<not> eg_conflicting g m \<and> \<not> eg_processed g m) xs)" for xs
    by (induction xs) auto
  ultimately show ?thesis by (simp add: work_def open_nodes_def add_less_le_mono conj_commute)
qed

lemma work_conflicting:
  assumes "n \<in> set (open_nodes g)"
  shows "work (mark_conflicting n g) < work g"
proof -
  have "length (filter (\<lambda>m. m \<noteq> n \<and> \<not> eg_conflicting g m) (remove_processed g (eg_nodes g)))
      < length (filter (\<lambda>m. \<not> eg_conflicting g m) (remove_processed g (eg_nodes g)))"
    using assms by (intro filter_one_less) (auto simp: open_nodes_def)
  then show ?thesis by (simp add: work_def open_nodes_def conj_commute)
qed

lemma inverted_flags [simp]:
  "touched (g\<lparr>eg_inverted := b\<rparr>) = touched g" "work (g\<lparr>eg_inverted := b\<rparr>) = work g"
  "open_nodes (g\<lparr>eg_inverted := b\<rparr>) = open_nodes g"
  "(mark_processed n g)\<lparr>eg_inverted := b\<rparr> = mark_processed n (g\<lparr>eg_inverted := b\<rparr>)"
  "(mark_conflicting n g)\<lparr>eg_inverted := b\<rparr> = mark_conflicting n (g\<lparr>eg_inverted := b\<rparr>)"
  by (simp_all add: touched_def work_def open_nodes_def mark_processed_def mark_conflicting_def)

definition refers :: "egraph \<Rightarrow> nat \<Rightarrow> nat \<Rightarrow> bool" where
  "refers g a b \<longleftrightarrow> b \<in> set (eg_children g a)"

lemma refers_flags [simp]: "refers (mark_processed n g) = refers g" "refers (mark_conflicting n g) = refers g"
  by (simp_all add: refers_def fun_eq_iff)

lemma open_cycle_refers:
  assumes "linked g" and "eg_inverted g" and "(open_child g)\<^sup>+\<^sup>+ n n"
  shows "(refers g)\<^sup>+\<^sup>+ n n"
proof -
  have step: "refers g a b" if "open_child g a b" for a b
    using that assms(2) by (simp add: open_child_iff [OF assms(1)] parent_nodes_def refers_def)
  have "(refers g)\<^sup>+\<^sup>+ a b" if "(open_child g)\<^sup>+\<^sup>+ a b" for a b
    using that by (induction rule: tranclp_induct) (auto intro: tranclp.intros step)
  from this [OF assms(3)] show ?thesis .
qed

lemma next_inverted_cases:
  assumes "linked g" and "\<not> eg_inverted g"
  obtains
    (none_left) "\<forall>n \<in> set (eg_nodes g). eg_processed g n" "next_inverted g = (NoneLeft, g)"
  | (ready) s where "es_node s \<in> set (eg_nodes g)" "\<not> eg_processed g (es_node s)" "\<not> es_conflicting s"
      "set (eg_children g (es_node s)) \<subseteq> touched g" "next_inverted g = (NextState s, mark_processed (es_node s) g)"
  | (cyclic) s where "es_node s \<in> set (open_nodes g)" "es_conflicting s" "(refers g)\<^sup>+\<^sup>+ (es_node s) (es_node s)"
      "next_inverted g = (NextState s, mark_conflicting (es_node s) g)"
proof -
  let ?g = "g\<lparr>eg_inverted := True\<rparr>"
  have restore: "g\<lparr>eg_inverted := False\<rparr> = g" using assms(2) by simp
  have lk: "linked ?g" using assms(1) by simp
  show thesis
  proof (rule envoy_next_cases [OF lk])
    assume a: "remove_processed ?g (eg_nodes ?g) = []" "envoy_next ?g = (NoneLeft, ?g)"
    from a(1) have "\<forall>n \<in> set (eg_nodes g). eg_processed g n" by (simp add: filter_empty_conv)
    moreover from a(2) have "next_inverted g = (NoneLeft, g)" by (simp add: next_inverted_def restore)
    ultimately show thesis by (rule none_left)
  next
    fix n assume a: "n \<in> set (eg_nodes ?g)" "\<not> eg_processed ?g n" "set (parent_nodes ?g n) \<subseteq> touched ?g"
      "envoy_next ?g = (NextState (prep_exec_state ?g n False), mark_processed n ?g)"
    then show thesis
      by (intro ready [of "prep_exec_state ?g n False"]) (simp_all add: prep_exec_state_def parent_nodes_def next_inverted_def restore)
  next
    fix n assume a: "n \<in> set (open_nodes ?g)" "(open_child ?g)\<^sup>+\<^sup>+ n n"
      "envoy_next ?g = (NextState (prep_exec_state ?g n True), mark_conflicting n ?g)"
    from open_cycle_refers [OF lk _ a(2)] have "(refers g)\<^sup>+\<^sup>+ n n" by (simp add: refers_def [abs_def])
    with a show thesis
      by (intro cyclic [of "prep_exec_state ?g n True"]) (simp_all add: prep_exec_state_def next_inverted_def restore)
  qed
qed

lemma provide_all:
  "linked g \<Longrightarrow> \<not> eg_inverted g \<Longrightarrow> work g < fuel \<Longrightarrow>
   \<exists>ss. provide fuel g = Some (ss, NoneLeft) \<and> distinct (settled_nodes ss) \<and>
     set (settled_nodes ss) = {n \<in> set (eg_nodes g). \<not> eg_processed g n} \<and>
     in_order (\<lambda>n. set (eg_children g n)) (touched g) ss \<and> distinct (provisional ss) \<and>
     (\<forall>n \<in> set (provisional ss). \<not> eg_conflicting g n \<and> (refers g)\<^sup>+\<^sup>+ n n)"
proof (induction fuel arbitrary: g)
  case (Suc fuel)
  show ?case
  proof (rule next_inverted_cases [OF Suc.prems(1,2)])
    assume "\<forall>n \<in> set (eg_nodes g). eg_processed g n" "next_inverted g = (NoneLeft, g)"
    then show ?case by simp
  next
    fix s assume s: "es_node s \<in> set (eg_nodes g)" "\<not> eg_processed g (es_node s)" "\<not> es_conflicting s"
      "set (eg_children g (es_node s)) \<subseteq> touched g" "next_inverted g = (NextState s, mark_processed (es_node s) g)"
    have "work (mark_processed (es_node s) g) < fuel" using work_processed [OF s(1,2)] Suc.prems(3) by simp
    with Suc.IH [of "mark_processed (es_node s) g"] Suc.prems(1,2) obtain ss where
      "provide fuel (mark_processed (es_node s) g) = Some (ss, NoneLeft)" "distinct (settled_nodes ss)"
      "set (settled_nodes ss) = {n \<in> set (eg_nodes g). \<not> (n = es_node s \<or> eg_processed g n)}"
      "in_order (\<lambda>n. set (eg_children g n)) (insert (es_node s) (touched g)) ss" "distinct (provisional ss)"
      "\<forall>n \<in> set (provisional ss). \<not> eg_conflicting g n \<and> (refers g)\<^sup>+\<^sup>+ n n"
      by auto
    with s show ?case by (intro exI [of _ "s # ss"]) auto
  next
    fix s assume s: "es_node s \<in> set (open_nodes g)" "es_conflicting s" "(refers g)\<^sup>+\<^sup>+ (es_node s) (es_node s)"
      "next_inverted g = (NextState s, mark_conflicting (es_node s) g)"
    have "work (mark_conflicting (es_node s) g) < fuel" using work_conflicting [OF s(1)] Suc.prems(3) by simp
    with Suc.IH [of "mark_conflicting (es_node s) g"] Suc.prems(1,2) obtain ss where
      "provide fuel (mark_conflicting (es_node s) g) = Some (ss, NoneLeft)" "distinct (settled_nodes ss)"
      "set (settled_nodes ss) = {n \<in> set (eg_nodes g). \<not> eg_processed g n}"
      "in_order (\<lambda>n. set (eg_children g n)) (insert (es_node s) (touched g)) ss" "distinct (provisional ss)"
      "\<forall>n \<in> set (provisional ss). n \<noteq> es_node s \<and> \<not> eg_conflicting g n \<and> (refers g)\<^sup>+\<^sup>+ n n"
      by auto
    with s show ?case by (intro exI [of _ "s # ss"]) (auto simp: open_nodes_def)
  qed
qed simp

section \<open>The index\<close>

definition indexed :: "node_index \<Rightarrow> string \<Rightarrow> string \<Rightarrow> nat \<Rightarrow> bool" where
  "indexed ri rt i n \<longleftrightarrow> n \<in> set (index_get ri rt i)"

lemma index_put_keys: "(\<lambda>(t, i, ns). (t, i)) ` set (index_put ri rt i n) = insert (rt, i) ((\<lambda>(t, i, ns). (t, i)) ` set ri)"
  by (induction ri rt i n rule: index_put.induct) auto

lemma index_get_put:
  "index_get (index_put ri rt i n) rt' i' = (if rt' = rt \<and> i' = i then index_get ri rt i @ [n] else index_get ri rt' i')"
  by (induction ri rt i n rule: index_put.induct) auto

definition index_ok :: "node_index \<Rightarrow> bool" where
  "index_ok ri \<longleftrightarrow> distinct (map (\<lambda>(t, i, ns). (t, i)) ri)"

lemma index_ok_put: "index_ok ri \<Longrightarrow> index_ok (index_put ri rt i n)"
proof (induction ri rt i n rule: index_put.induct)
  case (2 rt' i' ns ri rt i n)
  then show ?case using index_put_keys [of ri rt i n] by (auto simp: index_ok_def)
qed (simp add: index_ok_def)

lemma index_ok_get: "index_ok ri \<Longrightarrow> (t, i, ns) \<in> set ri \<Longrightarrow> index_get ri t i = ns"
  by (induction ri t i rule: index_get.induct) (force simp: index_ok_def)+

lemma index_get_mem: "index_get ri t i \<noteq> [] \<Longrightarrow> (t, i, index_get ri t i) \<in> set ri"
  by (induction ri t i rule: index_get.induct) auto

lemma index_ids:
  "index_ok ri \<Longrightarrow> index_ok (foldl (\<lambda>ri i. index_put ri rt i n) ri ii)"
  "indexed (foldl (\<lambda>ri i. index_put ri rt i n) ri ii) t i m \<longleftrightarrow> indexed ri t i m \<or> t = rt \<and> i \<in> set ii \<and> m = n"
  by (induction ii arbitrary: ri) (auto simp: index_ok_put indexed_def index_get_put)

lemma index_add_spec:
  "index_ok (index_add rr)"
  "indexed (index_add rr) t i m \<longleftrightarrow> m < length rr \<and> rs_type (rr ! m) = t \<and> i \<in> set (rs_ids (rr ! m))"
proof -
  let ?f = "\<lambda>ri (n, r). foldl (\<lambda>ri i. index_put ri (rs_type r) i n) ri (rs_ids r)"
  have "index_ok ri \<Longrightarrow> index_ok (foldl ?f ri nrs)" for ri nrs
    by (induction nrs arbitrary: ri) (auto simp: index_ids)
  from this [of "[]"] show "index_ok (index_add rr)" by (simp add: index_add_def index_ok_def)
  have "indexed (foldl ?f ri nrs) t i m \<longleftrightarrow> indexed ri t i m \<or> (\<exists>r. (m, r) \<in> set nrs \<and> rs_type r = t \<and> i \<in> set (rs_ids r))" for ri nrs
    by (induction nrs arbitrary: ri) (auto simp: index_ids)
  from this [of "[]" "enumerate 0 rr"]
  show "indexed (index_add rr) t i m \<longleftrightarrow> m < length rr \<and> rs_type (rr ! m) = t \<and> i \<in> set (rs_ids (rr ! m))"
    by (auto simp: index_add_def indexed_def in_set_enumerate_eq)
qed

text \<open>A resource a reference may stand for.\<close>

definition candidate :: "import_resource list \<Rightarrow> ref \<Rightarrow> nat \<Rightarrow> bool" where
  "candidate rr ref n \<longleftrightarrow> n < length rr \<and> rs_type (rr ! n) = rf_type ref \<and>
     set (rs_ids (rr ! n)) \<inter> set (rf_ids ref) \<noteq> {} \<and>
     (rf_constraints ref = [] \<or> (\<exists>c \<in> set (rf_constraints ref). constraint_met (rr ! n) c))"

lemma get_ref_loop_spec:
  "case get_ref_loop rr ri ref ii of
     None \<Rightarrow> \<forall>i \<in> set ii. \<forall>n. indexed ri (rf_type ref) i n \<longrightarrow>
       rf_constraints ref \<noteq> [] \<and> (\<forall>c \<in> set (rf_constraints ref). \<not> constraint_met (rr ! n) c)
   | Some n \<Rightarrow> \<exists>i \<in> set ii. indexed ri (rf_type ref) i n \<and>
       (rf_constraints ref = [] \<or> (\<exists>c \<in> set (rf_constraints ref). constraint_met (rr ! n) c))"
proof (induction ii)
  case (Cons i ii)
  show ?case
  proof (cases "index_get ri (rf_type ref) i")
    case Nil
    with Cons show ?thesis by (auto simp: indexed_def split: option.splits)
  next
    case (Cons n ns)
    let ?p = "\<lambda>n. list_ex (constraint_met (rr ! n)) (rf_constraints ref)"
    show ?thesis
    proof (cases "rf_constraints ref = []")
      case True
      with Cons show ?thesis by (auto simp: indexed_def)
    next
      case con: False
      show ?thesis
      proof (cases "find ?p (n # ns)")
        case None
        with Cons con have "get_ref_loop rr ri ref (i # ii) = get_ref_loop rr ri ref ii" by simp
        moreover have "\<forall>m. indexed ri (rf_type ref) i m \<longrightarrow> (\<forall>c \<in> set (rf_constraints ref). \<not> constraint_met (rr ! m) c)"
          using None Cons by (auto simp: indexed_def find_None_iff list_ex_iff simp del: find.simps)
        ultimately show ?thesis using Cons.IH con by (auto split: option.splits)
      next
        case (Some m)
        with Cons con have "get_ref_loop rr ri ref (i # ii) = Some m" by simp
        moreover from Some have "m \<in> set (n # ns)" "?p m" by (metis find_Some_iff nth_mem)+
        ultimately show ?thesis using Cons con by (auto simp: indexed_def list_ex_iff)
      qed
    qed
  qed
qed simp

lemma get_ref_sound: "get_ref rr (index_add rr) ref = Some n \<Longrightarrow> candidate rr ref n"
  using get_ref_loop_spec [where rr = rr and ri = "index_add rr" and ref = ref and ii = "rf_ids ref"]
  by (auto simp: get_ref_def candidate_def index_add_spec)

lemma get_ref_complete: "get_ref rr (index_add rr) ref = None \<Longrightarrow> \<not> candidate rr ref n"
  using get_ref_loop_spec [where rr = rr and ri = "index_add rr" and ref = ref and ii = "rf_ids ref"]
  by (auto simp: get_ref_def candidate_def index_add_spec)

lemma get_resource_type_spec:
  assumes "\<And>xs. set (iter xs) = set xs"
  shows "set (get_resource_type iter (index_add rr) t) = {n. n < length rr \<and> rs_type (rr ! n) = t \<and> rs_ids (rr ! n) \<noteq> []}"
proof -
  have "n \<in> set (get_resource_type iter (index_add rr) t) \<longleftrightarrow> (\<exists>i. indexed (index_add rr) t i n)" for n
  proof -
    have "n \<in> set (get_resource_type iter (index_add rr) t) \<longleftrightarrow> (\<exists>i ns. (t, i, ns) \<in> set (index_add rr) \<and> n \<in> set ns)"
      by (force simp: get_resource_type_def assms split: if_splits)
    also have "\<dots> \<longleftrightarrow> (\<exists>i. indexed (index_add rr) t i n)"
    proof
      assume "\<exists>i ns. (t, i, ns) \<in> set (index_add rr) \<and> n \<in> set ns"
      then show "\<exists>i. indexed (index_add rr) t i n"
        using index_ok_get [OF index_add_spec(1) [of rr], of t] unfolding indexed_def by blast
    next
      assume "\<exists>i. indexed (index_add rr) t i n"
      then obtain i where i: "n \<in> set (index_get (index_add rr) t i)" unfolding indexed_def by blast
      then have "index_get (index_add rr) t i \<noteq> []" by auto
      from index_get_mem [OF this] i show "\<exists>i ns. (t, i, ns) \<in> set (index_add rr) \<and> n \<in> set ns" by blast
    qed
    finally show ?thesis .
  qed
  then show ?thesis unfolding index_add_spec(2) by (auto simp: ex_in_conv)
qed

section \<open>The graph that is built\<close>

text \<open>The resources a reference is resolved to, and those that a resource refers to.\<close>

definition ref_targets :: "(nat list \<Rightarrow> nat list) \<Rightarrow> import_resource list \<Rightarrow> ref \<Rightarrow> nat list" where
  "ref_targets iter rr ref =
     (if ref_is_wildcard ref then get_resource_type iter (index_add rr) (rf_type ref)
      else case get_ref rr (index_add rr) ref of None \<Rightarrow> [] | Some n \<Rightarrow> [n])"

definition resolved :: "(nat list \<Rightarrow> nat list) \<Rightarrow> import_resource list \<Rightarrow> nat \<Rightarrow> nat list" where
  "resolved iter rr c = concat (map (ref_targets iter rr) (rs_refs (rr ! c)))"

definition unresolved :: "import_resource list \<Rightarrow> nat \<Rightarrow> ref list" where
  "unresolved rr c =
     filter (\<lambda>ref. \<not> ref_is_wildcard ref \<and> get_ref rr (index_add rr) ref = None \<and> \<not> ignore_dep_resolution ref) (rs_refs (rr ! c))"

lemma ref_targets_bound:
  assumes "\<And>xs. set (iter xs) = set xs"
  shows "set (ref_targets iter rr ref) \<subseteq> {..<length rr}"
  using get_resource_type_spec [OF assms, of rr] get_ref_sound [of rr ref]
  by (auto simp: ref_targets_def candidate_def split: option.splits)

lemma resolved_bound:
  "(\<And>xs. set (iter xs) = set xs) \<Longrightarrow> set (resolved iter rr c) \<subseteq> {..<length rr}"
  using ref_targets_bound [of iter rr] by (fastforce simp: resolved_def)

text \<open>Both directions of an edge are added together.\<close>

definition edges_ok :: "egraph \<Rightarrow> bool" where
  "edges_ok g \<longleftrightarrow> \<not> eg_inverted g \<and> (\<forall>a b. b \<in> set (eg_children g a) \<longleftrightarrow> a \<in> set (eg_parents g b)) \<and>
     eg_processed g = (\<lambda>_. False) \<and> eg_conflicting g = (\<lambda>_. False)"

lemma connect_ok:
  assumes "edges_ok g"
  shows "edges_ok (connect c n g)" "eg_children (connect c n g) = (eg_children g)(c := eg_children g c @ [n])"
    "eg_nodes (connect c n g) = eg_nodes g" "eg_missing (connect c n g) = eg_missing g"
  using assms by (auto simp: edges_ok_def connect_def add_child_def add_eparent_def)

lemma connect_many:
  assumes "edges_ok g"
  shows "edges_ok (foldl (\<lambda>g n. connect c n g) g ns)"
    "eg_children (foldl (\<lambda>g n. connect c n g) g ns) = (eg_children g)(c := eg_children g c @ ns)"
    "eg_nodes (foldl (\<lambda>g n. connect c n g) g ns) = eg_nodes g"
    "eg_missing (foldl (\<lambda>g n. connect c n g) g ns) = eg_missing g"
  using assms by (induction ns arbitrary: g) (auto simp: connect_ok fun_eq_iff)

lemma connect_refs:
  "foldl (connect_ref iter rr (index_add rr) c) (g, missing) refs =
     (foldl (\<lambda>g n. connect c n g) g (concat (map (ref_targets iter rr) refs)),
      missing @ filter (\<lambda>ref. \<not> ref_is_wildcard ref \<and> get_ref rr (index_add rr) ref = None \<and> \<not> ignore_dep_resolution ref) refs)"
  by (induction refs arbitrary: g missing)
    (auto simp: connect_ref_def ref_targets_def Let_def split: option.splits)

lemma build_node_eq:
  "build_node iter rr (index_add rr) (g, missing) c =
     (add_node c (foldl (\<lambda>g n. connect c n g) g (resolved iter rr c)), missing @ unresolved rr c)"
  by (simp add: build_node_def connect_refs resolved_def unresolved_def)

lemma build_nodes:
  "\<exists>g. foldl (build_node iter rr (index_add rr)) (new_egraph, []) [0..<k] = (g, concat (map (unresolved rr) [0..<k])) \<and>
     edges_ok g \<and> eg_nodes g = [0..<k] \<and> eg_missing g = [] \<and>
     eg_children g = (\<lambda>c. if c < k then resolved iter rr c else [])"
proof (induction k)
  case 0
  show ?case by (simp add: new_egraph_def edges_ok_def)
next
  case (Suc k)
  then obtain g where g: "foldl (build_node iter rr (index_add rr)) (new_egraph, []) [0..<k] = (g, concat (map (unresolved rr) [0..<k]))"
    "edges_ok g" "eg_nodes g = [0..<k]" "eg_missing g = []" "eg_children g = (\<lambda>c. if c < k then resolved iter rr c else [])" by blast
  let ?g = "foldl (\<lambda>g n. connect k n g) g (resolved iter rr k)"
  note many = connect_many [OF g(2), of k "resolved iter rr k"]
  have "edges_ok (add_node k ?g)" using many(1) by (simp add: edges_ok_def add_node_def)
  moreover have "eg_children (add_node k ?g) = (\<lambda>c. if c < Suc k then resolved iter rr c else [])"
    using many(2) g(5) by (auto simp: add_node_def fun_eq_iff)
  ultimately show ?case using g(1,3,4) many(3,4) by (simp add: build_node_eq) (simp add: add_node_def)
qed

lemma build_egraph_spec:
  assumes "\<And>xs. set (iter xs) = set xs"
  shows "linked (build_egraph iter report rr)" "\<not> eg_inverted (build_egraph iter report rr)"
    "touched (build_egraph iter report rr) = {}" "eg_nodes (build_egraph iter report rr) = [0..<length rr]"
    "eg_children (build_egraph iter report rr) = (\<lambda>c. if c < length rr then resolved iter rr c else [])"
    "eg_missing (build_egraph iter report rr) = (if report then concat (map (unresolved rr) [0..<length rr]) else [])"
proof -
  obtain g where g: "foldl (build_node iter rr (index_add rr)) (new_egraph, []) [0..<length rr] =
       (g, concat (map (unresolved rr) [0..<length rr]))"
    "edges_ok g" "eg_nodes g = [0..<length rr]" "eg_missing g = []"
    "eg_children g = (\<lambda>c. if c < length rr then resolved iter rr c else [])"
    using build_nodes by blast
  define m where "m = (if report then concat (map (unresolved rr) [0..<length rr]) else [])"
  have eq: "build_egraph iter report rr = g\<lparr>eg_missing := m\<rparr>"
    using g(1,4) by (simp add: build_egraph_def m_def)
  show "linked (build_egraph iter report rr)"
    using g(2,3,5) resolved_bound [OF assms, of rr] unfolding linked_def edges_ok_def eq
    by (auto split: if_splits) 
  show "\<not> eg_inverted (build_egraph iter report rr)" "touched (build_egraph iter report rr) = {}"
    using g(2) by (simp_all add: eq edges_ok_def touched_def)
  show "eg_nodes (build_egraph iter report rr) = [0..<length rr]"
    "eg_children (build_egraph iter report rr) = (\<lambda>c. if c < length rr then resolved iter rr c else [])"
    "eg_missing (build_egraph iter report rr) = (if report then concat (map (unresolved rr) [0..<length rr]) else [])"
    using g(3,5) by (simp_all add: eq m_def)
qed

end
