(* ===== verification/EnvoyBuild.thy ===== *)
theory EnvoyBuild
  imports EnvoyOrder
begin

text \<open>
  The properties of the import: what references are resolved to, the order resources are provided
  in, what the builder returns, and what replacing a reference does to the others.
\<close>

section \<open>The builder and its preparers\<close>

fun prepare_states ::
  "(resource_state \<Rightarrow> import_resource list \<Rightarrow> string + import_resource list) list \<Rightarrow> resource_state list \<Rightarrow> import_resource list \<Rightarrow>
   string + import_resource list" where
  "prepare_states pp [] rr = Inr rr"
| "prepare_states pp (s # ss) rr =
     (case prepare_all pp s rr of Inl e \<Rightarrow> Inl e | Inr rr \<Rightarrow> prepare_states pp ss rr)"

lemma prepare_loop_provide:
  "provide fuel g = Some (ss, NoneLeft) \<Longrightarrow> prepare_loop pp fuel g rr = Some (prepare_states pp ss rr)"
proof (induction fuel arbitrary: g ss rr)
  case (Suc fuel)
  obtain r g' where step: "next_inverted g = (r, g')" by fastforce
  show ?case
  proof (cases r)
    case (NextState s)
    with Suc.prems step obtain ss' where "ss = s # ss'" "provide fuel g' = Some (ss', NoneLeft)" by auto
    with Suc.IH step NextState show ?thesis by (auto split: sum.splits)
  qed (use Suc.prems step in auto)
qed simp

definition missing_refs :: "import_resource list \<Rightarrow> ref list" where
  "missing_refs rr = concat (map (unresolved rr) [0..<length rr])"

lemma missing_refs_empty:
  "missing_refs rr = [] \<longleftrightarrow>
     (\<forall>c < length rr. \<forall>ref \<in> set (rs_refs (rr ! c)).
        ref_is_wildcard ref \<or> ignore_dep_resolution ref \<or> (\<exists>n. candidate rr ref n))"
proof -
  have "get_ref rr (index_add rr) ref = None \<longleftrightarrow> \<not> (\<exists>n. candidate rr ref n)" for ref
    using get_ref_sound [of rr ref] get_ref_complete [of rr ref] by (cases "get_ref rr (index_add rr) ref") auto
  then show ?thesis by (auto simp: missing_refs_def unresolved_def filter_empty_conv)
qed

section \<open>The provided order\<close>

lemma provide_built:
  assumes "\<And>xs. set (iter xs) = set xs"
  shows "\<exists>ss. provide (2 * length rr + 1) (build_egraph iter report rr) = Some (ss, NoneLeft) \<and>
    distinct (settled_nodes ss) \<and> set (settled_nodes ss) = {..<length rr} \<and>
    in_order (\<lambda>n. set (if n < length rr then resolved iter rr n else [])) {} ss \<and> distinct (provisional ss) \<and>
    (\<forall>n \<in> set (provisional ss). (\<lambda>a b. b \<in> set (resolved iter rr a))\<^sup>+\<^sup>+ n n)"
proof -
  let ?g = "build_egraph iter report rr"
  note spec = build_egraph_spec [OF assms, of report rr]
  have un: "\<not> eg_processed ?g n" "\<not> eg_conflicting ?g n" for n
    using spec(3) by (auto simp: touched_def)
  have "work ?g < 2 * length rr + 1" using spec(4) by (simp add: work_def open_nodes_def un)
  from provide_all [OF spec(1,2) this] obtain ss where ss:
    "provide (2 * length rr + 1) ?g = Some (ss, NoneLeft)" "distinct (settled_nodes ss)"
    "set (settled_nodes ss) = {n \<in> set (eg_nodes ?g). \<not> eg_processed ?g n}"
    "in_order (\<lambda>n. set (eg_children ?g n)) (touched ?g) ss" "distinct (provisional ss)"
    "\<forall>n \<in> set (provisional ss). \<not> eg_conflicting ?g n \<and> (refers ?g)\<^sup>+\<^sup>+ n n" by blast
  have step: "b \<in> set (resolved iter rr a)" if "refers ?g a b" for a b
    using that by (simp add: refers_def spec(5) split: if_splits)
  have "(\<lambda>a b. b \<in> set (resolved iter rr a))\<^sup>+\<^sup>+ a b" if "(refers ?g)\<^sup>+\<^sup>+ a b" for a b
    using that by (induction rule: tranclp_induct) (auto intro: tranclp.intros step)
  with ss(6) have "\<forall>n \<in> set (provisional ss). (\<lambda>a b. b \<in> set (resolved iter rr a))\<^sup>+\<^sup>+ n n" by blast
  moreover have "set (settled_nodes ss) = {..<length rr}" using ss(3) spec(4) by (auto simp: un)
  ultimately show ?thesis using ss(1,2,4,5) by (intro exI [of _ ss]) (simp add: spec(3,5))
qed

lemma in_order_settled:
  "in_order (\<lambda>n. set (if n < k then f n else [])) seen ss \<Longrightarrow> set (settled_nodes ss) \<subseteq> {..<k} \<Longrightarrow>
   in_order (\<lambda>n. set (f n)) seen ss"
  by (induction ss arbitrary: seen) (auto split: if_splits)

lemma import_plan:
  assumes "\<And>xs. set (iter xs) = set xs"
  shows "\<exists>ss. provide (2 * length rr + 1) (build_egraph iter report rr) = Some (ss, NoneLeft) \<and>
    distinct (settled_nodes ss) \<and> set (settled_nodes ss) = {..<length rr} \<and> in_order (\<lambda>n. set (resolved iter rr n)) {} ss \<and>
    distinct (provisional ss) \<and> (\<forall>n \<in> set (provisional ss). (\<lambda>a b. b \<in> set (resolved iter rr a))\<^sup>+\<^sup>+ n n)"
  using provide_built [OF assms, of rr report] in_order_settled [where k = "length rr" and f = "resolved iter rr" and seen = "{}"]
  by (metis subset_refl)

text \<open>
  C16: A graph that is built provides every resource exactly once as settled, and ends. A resource
  comes only after all those its references are resolved to, where a resource on a cycle of
  references counts from a first, provisional time; at most one such time each, and only
  for resources that do lie on a cycle.
\<close>

theorem import_order:
  assumes "\<And>xs. set (iter xs) = set xs"
  shows "\<exists>ss. provide (2 * length rr + 1) (build_egraph iter report rr) = Some (ss, NoneLeft) \<and>
    distinct (settled_nodes ss) \<and> set (settled_nodes ss) = {..<length rr} \<and> in_order (\<lambda>n. set (resolved iter rr n)) {} ss \<and>
    distinct (provisional ss) \<and> (\<forall>n \<in> set (provisional ss). (\<lambda>a b. b \<in> set (resolved iter rr a))\<^sup>+\<^sup>+ n n)"
  by (rule import_plan [OF assms])

definition demo_resources :: "import_resource list" where
  "demo_resources =
     [\<lparr>rs_type = ''page'', rs_ids = [''p''], rs_refs = [Ref ''module'' [''m''] []]\<rparr>,
      \<lparr>rs_type = ''module'', rs_ids = [''m''], rs_refs = [Ref ''ns'' [''n''] [], Ref ''page'' [''p''] []]\<rparr>,
      \<lparr>rs_type = ''ns'', rs_ids = [''n''], rs_refs = []\<rparr>]"

theorem import_order_witness:
  "\<exists>ss. provide 7 (build_egraph (\<lambda>xs. xs) True demo_resources) = Some (ss, NoneLeft) \<and>
    distinct (settled_nodes ss) \<and> set (settled_nodes ss) = {..<3}"
  using import_order [of "\<lambda>xs. xs" demo_resources True] by (auto simp: demo_resources_def)

text \<open>
  A wildcard reference is resolved to all resources of its type that have an identifier.
  Any other is resolved to at most one resource, which has the type and one of the
  identifiers and, when the reference has constraints, meets one of them; to none only when there is
  no such resource. A safe builder reports no missing reference exactly when all the others, those to module fields
  apart, can be resolved.
\<close>

theorem references_resolve:
  assumes "\<And>xs. set (iter xs) = set xs"
  shows "(if ref_is_wildcard ref
          then set (ref_targets iter rr ref) = {n. n < length rr \<and> rs_type (rr ! n) = rf_type ref \<and> rs_ids (rr ! n) \<noteq> []}
          else length (ref_targets iter rr ref) \<le> 1 \<and> (\<forall>n \<in> set (ref_targets iter rr ref). candidate rr ref n) \<and>
               (ref_targets iter rr ref = [] \<longleftrightarrow> \<not> (\<exists>n. candidate rr ref n))) \<and>
         (eg_missing (build_egraph iter True rr) = [] \<longleftrightarrow>
            (\<forall>c < length rr. \<forall>ref \<in> set (rs_refs (rr ! c)).
               ref_is_wildcard ref \<or> ignore_dep_resolution ref \<or> (\<exists>n. candidate rr ref n)))"
  (is "?A \<and> ?B")
proof
  show ?A
  proof (cases "ref_is_wildcard ref")
    case True
    then show ?thesis by (simp add: ref_targets_def get_resource_type_spec [OF assms])
  next
    case False
    then show ?thesis using get_ref_sound [of rr ref] get_ref_complete [of rr ref]
      by (auto simp: ref_targets_def split: option.splits)
  qed
  show ?B unfolding missing_refs_empty [symmetric] by (simp add: build_egraph_spec [OF assms] missing_refs_def)
qed

theorem references_resolve_witness:
  "\<exists>n \<in> set (ref_targets (\<lambda>xs. xs) demo_resources (Ref ''ns'' [''x'', ''n''] [])). candidate demo_resources (Ref ''ns'' [''x'', ''n''] []) n"
proof -
  have c: "candidate demo_resources (Ref ''ns'' [''x'', ''n''] []) 2"
    by (simp add: candidate_def demo_resources_def)
  from references_resolve [of "\<lambda>xs. xs" "Ref ''ns'' [''x'', ''n''] []" demo_resources]
  have "length (ref_targets (\<lambda>xs. xs) demo_resources (Ref ''ns'' [''x'', ''n''] [])) \<le> 1 \<and>
      (\<forall>n \<in> set (ref_targets (\<lambda>xs. xs) demo_resources (Ref ''ns'' [''x'', ''n''] [])). candidate demo_resources (Ref ''ns'' [''x'', ''n''] []) n) \<and>
      ref_targets (\<lambda>xs. xs) demo_resources (Ref ''ns'' [''x'', ''n''] []) \<noteq> []"
    using c by (auto simp: ref_is_wildcard_def)
  then show ?thesis by (cases "ref_targets (\<lambda>xs. xs) demo_resources (Ref ''ns'' [''x'', ''n''] [])") auto
qed

text \<open>
  C17: \<open>Build\<close> returns. It refuses resources with missing references, before and after the
  preparation; in between, the preparers see the states of the import order one by one, each the
  resources as the ones before left them, and the first error of one is the result.
\<close>

theorem build_returns:
  assumes "\<And>xs. set (iter xs) = set xs"
  shows "\<exists>ss. set (settled_nodes ss) = {..<length rr} \<and> in_order (\<lambda>n. set (resolved iter rr n)) {} ss \<and>
    envoy_build iter report pp (2 * length rr + 1) rr = Some
      (if report \<and> missing_refs rr \<noteq> [] then (Some unresolved_references, Some (build_egraph iter report rr))
       else case prepare_states pp ss rr of
           Inl e \<Rightarrow> (Some e, None)
         | Inr rr' \<Rightarrow> (if report \<and> missing_refs rr' \<noteq> [] then Some unresolved_references else None,
                     Some (build_egraph iter report rr')))"
proof -
  from import_plan [OF assms, of rr report] obtain ss where
    "provide (2 * length rr + 1) (build_egraph iter report rr) = Some (ss, NoneLeft)"
    and order: "set (settled_nodes ss) = {..<length rr}" "in_order (\<lambda>n. set (resolved iter rr n)) {} ss" by blast
  then have loop: "prepare_loop pp (2 * length rr + 1) (build_egraph iter report rr) rr = Some (prepare_states pp ss rr)"
    by (intro prepare_loop_provide)
  have missing: "eg_missing (build_egraph iter report rr) = (if report then missing_refs rr else [])" for rr
    by (simp only: build_egraph_spec [OF assms] missing_refs_def)
  show ?thesis
  proof (intro exI [of _ ss] conjI)
    show "envoy_build iter report pp (2 * length rr + 1) rr = Some
      (if report \<and> missing_refs rr \<noteq> [] then (Some unresolved_references, Some (build_egraph iter report rr))
       else case prepare_states pp ss rr of
           Inl e \<Rightarrow> (Some e, None)
         | Inr rr' \<Rightarrow> (if report \<and> missing_refs rr' \<noteq> [] then Some unresolved_references else None,
                     Some (build_egraph iter report rr')))"
      unfolding envoy_build_def Let_def loop missing by (cases "prepare_states pp ss rr") simp_all
  qed (rule order)+
qed

lemma length_demo_resources: "length demo_resources = 3"
  by (simp add: demo_resources_def)

theorem build_returns_witness:
  "\<exists>ss g. set (settled_nodes ss) = {..<3} \<and> envoy_build (\<lambda>xs. xs) False [] 7 demo_resources = Some (None, Some g)"
proof -
  have none: "prepare_states [] ss rr = Inr rr" for ss rr by (induction ss) simp_all
  show ?thesis
    using build_returns [of "\<lambda>xs. xs" demo_resources False "[]"] by (auto simp: none length_demo_resources)
qed

section \<open>Replacing references\<close>

text \<open>
  Replacing a reference that is nowhere in a set adds the new one to the set, as documented, and
  also to the constraints of every other reference that has constraints.
\<close>

theorem replace_ref_spreads:
  assumes "\<forall>r \<in> set rr. \<not> ref_equals r old"
    and "\<forall>r \<in> set rr. \<forall>c \<in> set (rf_constraints r). \<not> ref_equals c old \<and> rf_constraints c = []"
  shows "replace_ref rr old (Some new) =
    map (\<lambda>r. if rf_constraints r = [] then r else Ref (rf_type r) (rf_ids r) (rf_constraints r @ [new])) rr @ [new]"
proof -
  have inner: "replace_ref cc old (Some new) = cc @ [new]"
    if "\<forall>c \<in> set cc. \<not> ref_equals c old \<and> rf_constraints c = []" for cc
    using that by (simp add: replace_ref_def replace_end_def replace_down_none map_idI)
  show ?thesis unfolding replace_ref_def [of rr] replace_down_none [OF assms(1)]
    using assms(2) by (auto simp: replace_end_def inner)
qed

theorem replace_ref_spreads_witness:
  "replace_ref [Ref ''module'' [''m''] [Ref ''ns'' [''a''] []]] (Ref ''page'' [''p''] []) (Some (Ref ''page'' [''q''] []))
   = [Ref ''module'' [''m''] [Ref ''ns'' [''a''] [], Ref ''page'' [''q''] []], Ref ''page'' [''q''] []]"
  using replace_ref_spreads [of "[Ref ''module'' [''m''] [Ref ''ns'' [''a''] []]]" "Ref ''page'' [''p''] []" "Ref ''page'' [''q''] []"]
  by simp

end
