(* ===== verification/RecValue.thy ===== *)
theory RecValue
  imports Decimal
begin

text \<open>
  \<^verbatim>\<open>compose/types/record_value.go\<close> with the parts of \<^verbatim>\<open>module_field.go\<close>, \<^verbatim>\<open>module_field_options.go\<close>,
  \<^verbatim>\<open>module_field_expr.go\<close> and \<^verbatim>\<open>validated.go\<close> it relies on: the values of a record, the fields of its
  module, and how old and new values are merged.

  Moments are integers, the zero time of Go is 0; a place is a natural number (it counts values).
\<close>

type_synonym moment = int

record rvalue =
  rv_record :: u64
  rv_name :: string
  rv_value :: string
  rv_ref :: u64
  rv_place :: nat
  rv_deleted :: "moment option"
  rv_updated :: bool
  rv_old :: string

text \<open>
  Values of the type \<open>interface{}\<close>, as options of fields and results of expressions have them;
  \<open>AOther\<close> is any other value, with the text that \<open>fmt\<close> prints for it.
\<close>

datatype any =
    ANil
  | ABool bool
  | AStr string
  | AInt u64
  | AStrs "string list"
  | AList "any list"
  | AMap "(string \<times> any) list"
  | AOther string

record field_validator =
  fv_id :: u64
  fv_test :: string
  fv_error :: string

record field_expr =
  fe_value :: string
  fe_sanitizers :: "string list"
  fe_validators :: "field_validator list"
  fe_no_validators :: bool
  fe_formatters :: "string list"
  fe_no_formatters :: bool

record module_field =
  mf_name :: string
  mf_kind :: string
  mf_options :: "string \<rightharpoonup> any"
  mf_required :: bool
  mf_multi :: bool
  mf_default :: "rvalue list"
  mf_expr :: field_expr

section \<open>Fields and their options\<close>

definition opt_bool :: "(string \<rightharpoonup> any) \<Rightarrow> string \<Rightarrow> bool" where
  "opt_bool opts key = (case opts key of Some (ABool v) \<Rightarrow> v | _ \<Rightarrow> False)"

text \<open>What \<open>fmt\<close> prints for a value (\<open>%v\<close>); maps are lists in the order of their keys.\<close>

fun spaced :: "string list \<Rightarrow> string" where
  "spaced [] = []"
| "spaced [s] = s"
| "spaced (s # t # ss) = s @ '' '' @ spaced (t # ss)"

fun any_text :: "any \<Rightarrow> string"
and list_text :: "any list \<Rightarrow> string"
and map_text :: "(string \<times> any) list \<Rightarrow> string" where
  "any_text ANil = ''<nil>''"
| "any_text (ABool b) = (if b then ''true'' else ''false'')"
| "any_text (AStr s) = s"
| "any_text (AInt i) = format_int i"
| "any_text (AStrs ss) = ''['' @ spaced ss @ '']''"
| "any_text (AList vs) = ''['' @ list_text vs @ '']''"
| "any_text (AMap kvs) = ''map['' @ map_text kvs @ '']''"
| "any_text (AOther s) = s"
| "list_text [] = []"
| "list_text [v] = any_text v"
| "list_text (v # w # vs) = any_text v @ '' '' @ list_text (w # vs)"
| "map_text [] = []"
| "map_text [(k, v)] = k @ '':'' @ any_text v"
| "map_text ((k, v) # kv # kvs) = k @ '':'' @ any_text v @ '' '' @ map_text (kv # kvs)"

text \<open>
  The last resort is a float: \<open>float_int\<close> stands for \<open>int64(strconv.ParseFloat(text))\<close>.
\<close>

definition int64_def :: "(string \<Rightarrow> u64 option) \<Rightarrow> (string \<rightharpoonup> any) \<Rightarrow> string \<Rightarrow> u64 \<Rightarrow> u64" where
  "int64_def float_int opts key d =
     (case opts key of
        None \<Rightarrow> d
      | Some (AInt i) \<Rightarrow> i
      | Some v \<Rightarrow>
          (case parse_int (any_text v) of
             Some i \<Rightarrow> i
           | None \<Rightarrow> (case float_int (any_text v) of Some i \<Rightarrow> i | None \<Rightarrow> d)))"

definition precision :: "(string \<Rightarrow> u64 option) \<Rightarrow> (string \<rightharpoonup> any) \<Rightarrow> u64" where
  "precision float_int opts =
     (let p = int64_def float_int opts ''precision'' 0
      in if p < 0 then 0 else if 6 < p then 6 else p)"

definition is_unique :: "(string \<rightharpoonup> any) \<Rightarrow> bool" where
  "is_unique opts = opt_bool opts ''isUnique''"

definition is_unique_multi :: "(string \<rightharpoonup> any) \<Rightarrow> bool" where
  "is_unique_multi opts = opt_bool opts ''isUniqueMultiValue''"

fun has_name :: "module_field list \<Rightarrow> string \<Rightarrow> bool" where
  "has_name [] n = False"
| "has_name (f # ff) n = (if n = mf_name f then True else has_name ff n)"

fun find_by_name :: "module_field list \<Rightarrow> string \<Rightarrow> module_field option" where
  "find_by_name [] n = None"
| "find_by_name (f # ff) n = (if n = mf_name f then Some f else find_by_name ff n)"

definition is_ref :: "module_field \<Rightarrow> bool" where
  "is_ref f \<longleftrightarrow> mf_kind f = ''Record'' \<or> mf_kind f = ''User'' \<or> mf_kind f = ''File''"

definition is_boolean :: "module_field \<Rightarrow> bool" where
  "is_boolean f \<longleftrightarrow> mf_kind f = ''Bool''"

definition is_numeric :: "module_field \<Rightarrow> bool" where
  "is_numeric f \<longleftrightarrow> mf_kind f = ''Number''"

definition is_date_only :: "module_field \<Rightarrow> bool" where
  "is_date_only f \<longleftrightarrow> mf_kind f = ''DateTime'' \<and> opt_bool (mf_options f) ''onlyDate''"

definition is_time_only :: "module_field \<Rightarrow> bool" where
  "is_time_only f \<longleftrightarrow> mf_kind f = ''DateTime'' \<and> opt_bool (mf_options f) ''onlyTime''"

definition is_date_time :: "module_field \<Rightarrow> bool" where
  "is_date_time f \<longleftrightarrow> mf_kind f = ''DateTime'' \<and> \<not> is_date_only f \<and> \<not> is_time_only f"

section \<open>Sets of values\<close>

definition is_deleted :: "rvalue \<Rightarrow> bool" where
  "is_deleted v \<longleftrightarrow> rv_deleted v \<noteq> None"

definition new_value :: "string \<Rightarrow> string \<Rightarrow> u64 \<Rightarrow> nat \<Rightarrow> rvalue" where
  "new_value n v r p =
     \<lparr>rv_record = 0, rv_name = n, rv_value = v, rv_ref = r, rv_place = p, rv_deleted = None, rv_updated = False, rv_old = []\<rparr>"

definition filter_by_name :: "rvalue list \<Rightarrow> string \<Rightarrow> rvalue list" where
  "filter_by_name vs n = filter (\<lambda>v. rv_name v = n) vs"

definition filter_by_record :: "rvalue list \<Rightarrow> u64 \<Rightarrow> rvalue list" where
  "filter_by_record vs i = filter (\<lambda>v. rv_record v = i) vs"

definition replace_values :: "rvalue list \<Rightarrow> string \<Rightarrow> string list \<Rightarrow> rvalue list" where
  "replace_values vs n ss =
     filter (\<lambda>v. rv_name v \<noteq> n) vs @ map (\<lambda>(p, s). (new_value n s 0 p)\<lparr>rv_updated := True\<rparr>) (enumerate 0 ss)"

fun set_value :: "rvalue list \<Rightarrow> rvalue \<Rightarrow> rvalue list" where
  "set_value [] v = [v]"
| "set_value (w # vs) v = (if rv_name w = rv_name v \<and> rv_place w = rv_place v then v # vs else w # set_value vs v)"

fun get_value :: "rvalue list \<Rightarrow> string \<Rightarrow> nat \<Rightarrow> rvalue option" where
  "get_value [] n p = None"
| "get_value (v # vs) n p = (if rv_name v = n \<and> rv_place v = p then Some v else get_value vs n p)"

definition has_value :: "rvalue list \<Rightarrow> string \<Rightarrow> nat \<Rightarrow> bool" where
  "has_value vs n p \<longleftrightarrow> get_value vs n p \<noteq> None"

definition set_record_id :: "u64 \<Rightarrow> rvalue list \<Rightarrow> rvalue list" where
  "set_record_id i vs = map (\<lambda>v. v\<lparr>rv_record := i\<rparr>) vs"

definition set_updated_flag :: "bool \<Rightarrow> rvalue list \<Rightarrow> rvalue list" where
  "set_updated_flag b vs = map (\<lambda>v. v\<lparr>rv_updated := b\<rparr>) vs"

definition get_updated :: "rvalue list \<Rightarrow> rvalue list" where
  "get_updated vs = filter rv_updated vs"

definition get_clean :: "rvalue list \<Rightarrow> rvalue list" where
  "get_clean vs =
     map (\<lambda>v. \<lparr>rv_record = rv_record v, rv_name = rv_name v, rv_value = rv_value v, rv_ref = rv_ref v,
               rv_place = rv_place v, rv_deleted = None, rv_updated = False, rv_old = []\<rparr>)
       (filter (\<lambda>v. rv_deleted v = None) vs)"

definition value_less :: "rvalue \<Rightarrow> rvalue \<Rightarrow> bool" where
  "value_less a b \<longleftrightarrow>
     (if rv_name a \<noteq> rv_name b then ord.lexordp (\<lambda>c d. of_char c < (of_char d :: nat)) (rv_name a) (rv_name b)
      else rv_place a < rv_place b)"

section \<open>Merging old and new values\<close>

text \<open>An old value, marked as removed.\<close>

definition mark_removed :: "rvalue \<Rightarrow> rvalue" where
  "mark_removed v =
     \<lparr>rv_record = 0, rv_name = rv_name v, rv_value = rv_value v, rv_ref = rv_ref v, rv_place = rv_place v,
      rv_deleted = Some 0, rv_updated = True, rv_old = rv_value v\<rparr>"

text \<open>A new value is written over the one at its place.\<close>

definition overwrite :: "rvalue \<Rightarrow> rvalue \<Rightarrow> rvalue" where
  "overwrite ex n =
     (let ex = ex\<lparr>rv_deleted := rv_deleted n\<rparr>;
          ex = (if rv_old ex = rv_value n then ex\<lparr>rv_updated := False\<rparr>
                else if \<not> rv_updated ex then ex\<lparr>rv_updated := (rv_value ex \<noteq> rv_value n), rv_old := rv_value ex\<rparr>
                else ex)
      in ex\<lparr>rv_value := rv_value n, rv_ref := rv_ref n\<rparr>)"

fun merge_one :: "rvalue list \<Rightarrow> rvalue \<Rightarrow> rvalue list" where
  "merge_one [] n = [(new_value (rv_name n) (rv_value n) (rv_ref n) (rv_place n))\<lparr>rv_updated := True\<rparr>]"
| "merge_one (ex # out) n =
     (if rv_name ex = rv_name n \<and> rv_place ex = rv_place n then overwrite ex n # out else ex # merge_one out n)"

definition raw_merge :: "rvalue list \<Rightarrow> rvalue list \<Rightarrow> rvalue list" where
  "raw_merge vs new =
     (if length vs = 0 then map (\<lambda>v. v\<lparr>rv_updated := True\<rparr>) new
      else foldl merge_one (map mark_removed vs) new)"

fun copy_denied :: "rvalue list \<Rightarrow> module_field list \<Rightarrow> (module_field \<Rightarrow> bool) \<Rightarrow> rvalue list \<Rightarrow> rvalue list" where
  "copy_denied vs [] can_access new = new"
| "copy_denied vs (f # ff) can_access new =
     copy_denied vs ff can_access
       (if length (filter_by_name new (mf_name f)) = 0 \<and> \<not> can_access f
        then new @ get_clean (filter_by_name vs (mf_name f)) else new)"

definition merge_values :: "rvalue list \<Rightarrow> module_field list \<Rightarrow> rvalue list \<Rightarrow> (module_field \<Rightarrow> bool) \<Rightarrow> rvalue list" where
  "merge_values vs mfs new can_access =
     raw_merge vs (copy_denied vs mfs can_access (filter (\<lambda>v. has_name mfs (rv_name v)) new))"

section \<open>Errors of values\<close>

record rv_error =
  er_kind :: string
  er_meta :: "(string \<times> any) list"

text \<open>A set of errors is a pointer: \<^const>\<open>None\<close> is nil, which is valid as an empty set is.\<close>

type_synonym rv_errors = "rv_error list option"

definition errors_valid :: "rv_errors \<Rightarrow> bool" where
  "errors_valid rve \<longleftrightarrow> (case rve of None \<Rightarrow> True | Some es \<Rightarrow> length es = 0)"

definition has_kind :: "rv_errors \<Rightarrow> string \<Rightarrow> bool" where
  "has_kind rve k \<longleftrightarrow> (case rve of None \<Rightarrow> False | Some es \<Rightarrow> list_ex (\<lambda>e. er_kind e = k) es)"

end
