(* ===== verification/RecSanitize.thy ===== *)
theory RecSanitize
  imports RecValue
begin

text \<open>
  \<^verbatim>\<open>compose/service/values/sanitizer.go\<close>, \<^verbatim>\<open>formatter.go\<close>, \<^verbatim>\<open>expr.go\<close> and \<^verbatim>\<open>shared.go\<close>: values are
  brought into the form of their fields' kinds, value expressions are evaluated, and values are
  formatted for their readers.

  What comes from outside of the repository is an argument: the expression language, the removal of
  markup, the parsing and printing of floats and times (by layout), of addresses and locators, and
  what the checkers of references and of uniqueness answer.
\<close>

text \<open>The scope of a value expression: the values at the start, results that replace some, the new and old record.\<close>

record expr_scope =
  es_values :: "rvalue list"
  es_results :: "(string \<times> any) list"
  es_new :: "rvalue list"
  es_old :: "rvalue list option"

record val_env =
  ve_eval :: "string \<Rightarrow> string \<Rightarrow> string + any"
  ve_formula :: "string \<Rightarrow> expr_scope \<Rightarrow> string + any"
  ve_test :: "string \<Rightarrow> rvalue \<Rightarrow> rvalue list \<Rightarrow> string + bool"
  ve_rich_text :: "string \<Rightarrow> string"
  ve_time :: "string \<Rightarrow> string \<Rightarrow> moment option"
  ve_show_time :: "string \<Rightarrow> moment \<Rightarrow> string"
  ve_ref_time :: "bool \<Rightarrow> bool \<Rightarrow> moment"
  ve_number :: "string \<Rightarrow> u64 \<Rightarrow> string option"
  ve_float_int :: "string \<Rightarrow> u64 option"
  ve_big_float :: "string \<Rightarrow> u64 \<Rightarrow> bool"
  ve_email :: "string \<Rightarrow> bool"
  ve_url :: "string \<Rightarrow> (string \<times> string) option"
  ve_unique :: "(rvalue \<Rightarrow> module_field \<Rightarrow> string + u64) option"
  ve_record_ref :: "(rvalue \<Rightarrow> module_field \<Rightarrow> string + bool) option"
  ve_user_ref :: "(rvalue \<Rightarrow> module_field \<Rightarrow> string + bool) option"
  ve_file_ref :: "(rvalue \<Rightarrow> module_field \<Rightarrow> string + bool) option"

section \<open>Strings\<close>

definition trim_right :: "char \<Rightarrow> string \<Rightarrow> string" where
  "trim_right c s = rev (dropWhile (\<lambda>d. d = c) (rev s))"

text \<open>The expressions \<open>truthy\<close> and \<open>refy\<close> of the package.\<close>

definition truthy :: "string \<Rightarrow> bool" where
  "truthy s \<longleftrightarrow> List.member [''t'', ''true'', ''y'', ''yes'', ''1''] s"

definition refy :: "string \<Rightarrow> bool" where
  "refy s \<longleftrightarrow>
     (case s of
        [] \<Rightarrow> False
      | c # ds \<Rightarrow> 49 \<le> (of_char c :: nat) \<and> of_char c \<le> (57 :: nat) \<and>
                  list_all (\<lambda>d. 48 \<le> (of_char d :: nat) \<and> of_char d \<le> (57 :: nat)) ds)"

section \<open>Values by kind\<close>

definition s_bool :: "any \<Rightarrow> string" where
  "s_bool v =
     (case v of
        ABool b \<Rightarrow> if b then ''1'' else []
      | AStr c \<Rightarrow> if truthy (to_lower c) then ''1'' else []
      | _ \<Rightarrow> [])"

definition time_only_formats :: "string list" where
  "time_only_formats =
     [''15:04:05'', ''15:04'', ''15:04:05Z07:00'', ''15:04:05 MST'', ''15:04:05 -0700'', ''15:04 MST'',
      ''15:04Z07:00'', ''15:04 -0700'', ''3:04PM'']"

definition rfc3339 :: string where
  "rfc3339 = ''2006-01-02T15:04:05Z07:00''"

definition date_time_formats :: "string list" where
  "date_time_formats =
     [rfc3339, ''2006-01-02T15:04:05'', ''Mon, 02 Jan 2006 15:04:05 -0700'', ''Mon, 02 Jan 2006 15:04:05 MST'',
      ''02 Jan 06 15:04 -0700'', ''02 Jan 06 15:04 MST'', ''Monday, 02-Jan-06 15:04:05 MST'',
      ''Mon Jan _2 15:04:05 2006'', ''Mon Jan _2 15:04:05 MST 2006'', ''Mon Jan 02 15:04:05 -0700 2006'',
      ''2006-01-02 15:04:05.999999999 -0700 MST'', ''2006-01-02'', ''02 Jan 2006'', ''2006-01-02T15:04:05-0700'',
      ''2006-01-02 15:04:05 -07:00'', ''2006-01-02 15:04:05 -0700'', ''2006-01-02 15:04:05Z07:00'',
      ''2006-01-02 15:04:05Z0700'', ''2006-01-02 15:04:05'', ''3:04PM'', ''Jan _2 15:04:05'',
      ''Jan _2 15:04:05.000'', ''Jan _2 15:04:05.000000'', ''Jan _2 15:04:05.000000000'', ''2006-01-02'',
      ''02 Jan 06'', ''Monday, 02-Jan-06'', ''Mon, 02 Jan 2006'', ''2006/_1/_2'']"

fun first_time :: "val_env \<Rightarrow> string list \<Rightarrow> string \<Rightarrow> moment option" where
  "first_time env [] s = None"
| "first_time env (format # fs) s = (case ve_time env format s of Some t \<Rightarrow> Some t | None \<Rightarrow> first_time env fs s)"

definition s_datetime :: "val_env \<Rightarrow> any \<Rightarrow> bool \<Rightarrow> bool \<Rightarrow> string" where
  "s_datetime env v only_date only_time =
     (let datetime = any_text v;
          (internal, formats) =
            (if only_time then (''15:04:05'', time_only_formats)
             else (if only_date then ''2006-01-02'' else rfc3339, date_time_formats))
      in case first_time env formats datetime of Some t \<Rightarrow> ve_show_time env internal t | None \<Rightarrow> [])"

definition s_number :: "val_env \<Rightarrow> any \<Rightarrow> u64 \<Rightarrow> string" where
  "s_number env num p =
     (case ve_number env (any_text num) p of
        None \<Rightarrow> ''0''
      | Some s \<Rightarrow> if List.member s CHR ''.'' then trim_right CHR ''.'' (trim_right CHR ''0'' s) else s)"

definition s_string :: "val_env \<Rightarrow> string \<Rightarrow> string" where
  "s_string env s = ve_rich_text env s"

definition kind_of :: "module_field \<Rightarrow> string" where
  "kind_of f = to_lower (mf_kind f)"

definition field_precision :: "val_env \<Rightarrow> module_field \<Rightarrow> u64" where
  "field_precision env f = precision (ve_float_int env) (mf_options f)"

definition sanitize_any :: "val_env \<Rightarrow> module_field \<Rightarrow> any \<Rightarrow> string" where
  "sanitize_any env f v =
     (if kind_of f = ''bool'' then s_bool v
      else if kind_of f = ''datetime''
        then s_datetime env v (opt_bool (mf_options f) ''onlyDate'') (opt_bool (mf_options f) ''onlyTime'')
      else if kind_of f = ''number'' then s_number env v (field_precision env f)
      else any_text v)"

section \<open>The sanitizer\<close>

fun number_places :: "nat \<Rightarrow> rvalue list \<Rightarrow> rvalue list" where
  "number_places i [] = []"
| "number_places i (v # vs) =
     (if is_deleted v then number_places i vs else v\<lparr>rv_place := i\<rparr> # number_places (Suc i) vs)"

definition order_values :: "module_field list \<Rightarrow> rvalue list \<Rightarrow> rvalue list" where
  "order_values ff vs = concat (map (\<lambda>f. number_places 0 (filter_by_name vs (mf_name f))) ff)"

fun run_sanitizers :: "val_env \<Rightarrow> module_field \<Rightarrow> string list \<Rightarrow> rvalue \<Rightarrow> rvalue" where
  "run_sanitizers env f [] v = v"
| "run_sanitizers env f (e # es) v =
     run_sanitizers env f es
       (case ve_eval env e (rv_value v) of Inl _ \<Rightarrow> v | Inr r \<Rightarrow> v\<lparr>rv_value := sanitize_any env f r\<rparr>)"

definition sanitize_ref :: "rvalue \<Rightarrow> rvalue" where
  "sanitize_ref v =
     (let v = (if refy (rv_value v) then v\<lparr>rv_ref := uint_value (rv_value v)\<rparr> else v)
      in if rv_ref v = 0 then v\<lparr>rv_value := []\<rparr> else v)"

definition sanitize_kind :: "val_env \<Rightarrow> module_field \<Rightarrow> rvalue \<Rightarrow> rvalue" where
  "sanitize_kind env f v =
     (if kind_of f = ''bool'' then v\<lparr>rv_value := s_bool (AStr (rv_value v))\<rparr>
      else if kind_of f = ''datetime''
        then v\<lparr>rv_value := s_datetime env (AStr (rv_value v))
                  (opt_bool (mf_options f) ''onlyDate'') (opt_bool (mf_options f) ''onlyTime'')\<rparr>
      else if kind_of f = ''number'' then v\<lparr>rv_value := s_number env (AStr (rv_value v)) (field_precision env f)\<rparr>
      else if kind_of f = ''string'' then v\<lparr>rv_value := s_string env (rv_value v)\<rparr>
      else v)"

definition sanitize_value :: "val_env \<Rightarrow> module_field list \<Rightarrow> rvalue \<Rightarrow> rvalue" where
  "sanitize_value env ff v =
     (case find_by_name ff (rv_name v) of
        None \<Rightarrow> v
      | Some f \<Rightarrow>
          if fe_value (mf_expr f) \<noteq> [] then v
          else if is_deleted v \<or> \<not> rv_updated v then v
          else let v = run_sanitizers env f (fe_sanitizers (mf_expr f)) v;
                   v = (if kind_of f \<noteq> ''string'' then v\<lparr>rv_value := go_trim (rv_value v)\<rparr> else v);
                   v = (if is_ref f then sanitize_ref v else v)
               in sanitize_kind env f v)"

definition sanitizer_run :: "val_env \<Rightarrow> module_field list \<Rightarrow> rvalue list \<Rightarrow> rvalue list" where
  "sanitizer_run env ff vs = map (sanitize_value env ff) (order_values ff vs)"

definition run_xss :: "val_env \<Rightarrow> module_field list \<Rightarrow> rvalue list \<Rightarrow> rvalue list" where
  "run_xss env ff vs =
     map (\<lambda>v. case find_by_name ff (rv_name v) of
                None \<Rightarrow> v
              | Some f \<Rightarrow> if kind_of f = ''string'' then v\<lparr>rv_value := s_string env (rv_value v)\<rparr> else v) vs"

section \<open>The formatter\<close>

definition f_bool :: "rvalue \<Rightarrow> rvalue" where
  "f_bool v = (if rv_value v \<noteq> ''1'' then v\<lparr>rv_value := []\<rparr> else v)"

definition f_datetime :: "val_env \<Rightarrow> rvalue \<Rightarrow> module_field \<Rightarrow> rvalue" where
  "f_datetime env v f =
     (let (internal, formats) =
        (if opt_bool (mf_options f) ''onlyDate'' then (''2006-01-02'', [''2006-01-02''])
         else if opt_bool (mf_options f) ''onlyTime'' then (''15:04:05'', [''15:04:05'', ''15:04''])
         else (rfc3339, [rfc3339, ''2006-01-02 15:04:05'', ''2006-01-02 15:04'']))
      in case first_time env formats (rv_value v) of
           Some t \<Rightarrow> v\<lparr>rv_value := ve_show_time env internal t\<rparr>
         | None \<Rightarrow> v\<lparr>rv_value := []\<rparr>)"

definition format_value :: "val_env \<Rightarrow> module_field list \<Rightarrow> rvalue \<Rightarrow> rvalue" where
  "format_value env ff v =
     (case find_by_name ff (rv_name v) of
        None \<Rightarrow> v
      | Some f \<Rightarrow>
          if fe_value (mf_expr f) \<noteq> [] then v
          else let v = (if \<not> (fe_no_formatters (mf_expr f) \<and> 0 < length (fe_formatters (mf_expr f)))
                        then if kind_of f = ''bool'' then f_bool v
                             else if kind_of f = ''datetime'' then f_datetime env v f else v
                        else v)
               in run_sanitizers env f (fe_formatters (mf_expr f)) v)"

definition formatter_run :: "val_env \<Rightarrow> module_field list \<Rightarrow> rvalue list \<Rightarrow> rvalue list" where
  "formatter_run env ff vs = map (format_value env ff) vs"

section \<open>Value expressions\<close>

definition value_error :: "string \<Rightarrow> module_field \<Rightarrow> rv_error" where
  "value_error k f = \<lparr>er_kind = k, er_meta = [(''field'', AStr (mf_name f))]\<rparr>"

text \<open>Fields in order, with the values of the record, the results so far and the errors.\<close>

fun eval_fields ::
  "val_env \<Rightarrow> rvalue list \<Rightarrow> rvalue list option \<Rightarrow> module_field list \<Rightarrow> rvalue list \<Rightarrow> (string \<times> any) list \<Rightarrow>
   rv_error list \<Rightarrow> rvalue list \<times> rv_error list" where
  "eval_fields env start old [] vs results errs = (vs, errs)"
| "eval_fields env start old (f # ff) vs results errs =
     (if fe_value (mf_expr f) = [] then eval_fields env start old ff vs results errs
      else case ve_formula env (fe_value (mf_expr f)) \<lparr>es_values = start, es_results = results, es_new = vs, es_old = old\<rparr> of
        Inl _ \<Rightarrow> (vs, errs @ [value_error ''valueExpression'' f])
      | Inr tmp \<Rightarrow>
          let incompatible = errs @ [value_error ''evaluatedValueIncompatible'' f];
              keep = (\<lambda>ss. eval_fields env start old ff (replace_values vs (mf_name f) ss)
                (if List.member [''new'', ''old''] (mf_name f) then results else (mf_name f, tmp) # results) errs)
          in case tmp of
               AList values \<Rightarrow>
                 if \<not> mf_multi f then eval_fields env start old ff vs results incompatible
                 else keep (map (sanitize_any env f) values)
             | _ \<Rightarrow>
                 if mf_multi f then eval_fields env start old ff vs results incompatible
                 else keep [sanitize_any env f tmp])"

definition expression :: "val_env \<Rightarrow> module_field list \<Rightarrow> rvalue list \<Rightarrow> rvalue list option \<Rightarrow> rvalue list \<times> rv_error list" where
  "expression env ff vs old = eval_fields env vs old ff vs [] []"

end
