(* ===== verification/RecValidate.thy ===== *)
theory RecValidate
  imports RecSanitize
begin

text \<open>
  \<^verbatim>\<open>compose/service/values/validator.go\<close>: values of a record against the options of the fields. The messages
  of the errors, from the locale service, are left out.
\<close>

section \<open>Errors\<close>

definition internal_err :: "module_field \<Rightarrow> rv_error" where
  "internal_err f = value_error ''internal'' f"

definition empty_err :: "module_field \<Rightarrow> rv_error" where
  "empty_err f = value_error ''empty'' f"

definition invalid_value_err :: "module_field \<Rightarrow> string \<Rightarrow> rv_error" where
  "invalid_value_err f v = \<lparr>er_kind = ''invalidValue'', er_meta = [(''field'', AStr (mf_name f)), (''value'', AStr v)]\<rparr>"

definition invalid_ref_err :: "module_field \<Rightarrow> u64 \<Rightarrow> rv_error" where
  "invalid_ref_err f r = \<lparr>er_kind = ''invalidRef'', er_meta = [(''field'', AStr (mf_name f)), (''ref'', AInt r)]\<rparr>"

definition duplicate_in_set_err :: "module_field \<Rightarrow> string \<Rightarrow> rv_error" where
  "duplicate_in_set_err f v =
     \<lparr>er_kind = ''duplicateValueInSet'', er_meta = [(''field'', AStr (mf_name f)), (''value'', AStr v)]\<rparr>"

definition duplicate_err :: "module_field \<Rightarrow> u64 \<Rightarrow> rv_error" where
  "duplicate_err f i = \<lparr>er_kind = ''duplicateValue'', er_meta = [(''field'', AStr (mf_name f)), (''recordID'', AInt i)]\<rparr>"

section \<open>Validators of kinds\<close>

definition v_bool :: "rvalue \<Rightarrow> module_field \<Rightarrow> rv_error list" where
  "v_bool v f =
     (if rv_value v = [] then []
      else if rv_value v \<noteq> ''1'' \<and> rv_value v \<noteq> ''0'' \<and> rv_value v \<noteq> [] then [invalid_value_err f (rv_value v)]
      else [])"

definition v_datetime :: "val_env \<Rightarrow> rvalue \<Rightarrow> module_field \<Rightarrow> rv_error list" where
  "v_datetime env v f =
     (let opt = opt_bool (mf_options f);
          ref_time = ve_ref_time env (opt ''onlyDate'') (opt ''onlyTime'');
          format = (if opt ''onlyDate'' then ''2006-01-02'' else if opt ''onlyTime'' then ''15:04:05'' else rfc3339)
      in case ve_time env format (rv_value v) of
           None \<Rightarrow> [invalid_value_err f (rv_value v)]
         | Some t \<Rightarrow>
             if opt ''onlyFutureValues'' then (if \<not> ref_time < t then [invalid_value_err f (rv_value v)] else [])
             else if opt ''onlyPastValues'' then (if \<not> t < ref_time then [invalid_value_err f (rv_value v)] else [])
             else [])"

definition v_email :: "val_env \<Rightarrow> rvalue \<Rightarrow> module_field \<Rightarrow> rv_error list" where
  "v_email env v f = (if \<not> ve_email env (rv_value v) then [invalid_value_err f (rv_value v)] else [])"

text \<open>Files, records and users: a checker of references, when there is one.\<close>

definition v_ref :: "(rvalue \<Rightarrow> module_field \<Rightarrow> string + bool) option \<Rightarrow> rvalue \<Rightarrow> module_field \<Rightarrow> rv_error list" where
  "v_ref checker v f =
     (case checker of
        None \<Rightarrow> []
      | Some check \<Rightarrow>
          (case check v f of
             Inl _ \<Rightarrow> [internal_err f]
           | Inr ok \<Rightarrow> if \<not> ok then [invalid_ref_err f (rv_ref v)] else []))"

definition v_number :: "val_env \<Rightarrow> rvalue \<Rightarrow> module_field \<Rightarrow> rv_error list" where
  "v_number env v f =
     (if \<not> ve_big_float env (rv_value v) (field_precision env f) then [invalid_value_err f (rv_value v)] else [])"

fun map_lookup :: "(string \<times> any) list \<Rightarrow> string \<Rightarrow> any option" where
  "map_lookup [] k = None"
| "map_lookup ((k', v) # kvs) k = (if k' = k then Some v else map_lookup kvs k)"

fun select_option :: "any \<Rightarrow> string option" where
  "select_option (AStr c) = Some c"
| "select_option (AMap c) = (case map_lookup c ''value'' of Some (AStr v) \<Rightarrow> Some v | _ \<Rightarrow> None)"
| "select_option _ = None"

definition select_values :: "any \<Rightarrow> string list" where
  "select_values options =
     (case options of
        AStrs oo \<Rightarrow> oo
      | AList oo \<Rightarrow> List.map_filter select_option oo
      | _ \<Rightarrow> [])"

definition v_select :: "rvalue \<Rightarrow> module_field \<Rightarrow> rv_error list" where
  "v_select v f =
     (case mf_options f ''options'' of
        None \<Rightarrow> []
      | Some options \<Rightarrow>
          let sbm = select_values options
          in if length sbm = 0 then [internal_err f]
             else if \<not> List.member sbm (rv_value v) then [invalid_value_err f (rv_value v)] else [])"

definition v_url :: "val_env \<Rightarrow> rvalue \<Rightarrow> module_field \<Rightarrow> rv_error list" where
  "v_url env v f =
     (case ve_url env (rv_value v) of
        None \<Rightarrow> [invalid_value_err f (rv_value v)]
      | Some (scheme, host) \<Rightarrow>
          if scheme = [] \<or> host = [] then [invalid_value_err f (rv_value v)]
          else if opt_bool (mf_options f) ''onlySecure'' \<and> scheme \<noteq> ''https'' then [invalid_value_err f (rv_value v)]
          else [])"

definition validate_kind :: "val_env \<Rightarrow> rvalue \<Rightarrow> module_field \<Rightarrow> rv_error list" where
  "validate_kind env v f =
     (if kind_of f = ''bool'' then v_bool v f
      else if kind_of f = ''datetime'' then v_datetime env v f
      else if kind_of f = ''email'' then v_email env v f
      else if kind_of f = ''file'' then v_ref (ve_file_ref env) v f
      else if kind_of f = ''number'' then v_number env v f
      else if kind_of f = ''record'' then v_ref (ve_record_ref env) v f
      else if kind_of f = ''select'' then v_select v f
      else if kind_of f = ''url'' then v_url env v f
      else if kind_of f = ''user'' then v_ref (ve_user_ref env) v f
      else [])"

section \<open>The phases\<close>

text \<open>Required values, and values that must differ from each other.\<close>

fun first_duplicate :: "string list \<Rightarrow> rvalue list \<Rightarrow> string option" where
  "first_duplicate flipped [] = None"
| "first_duplicate flipped (v # vs) =
     (if List.member flipped (rv_value v) then Some (rv_value v) else first_duplicate (rv_value v # flipped) vs)"

definition check_field :: "rvalue list \<Rightarrow> module_field \<Rightarrow> rv_error list" where
  "check_field vs f =
     (let vv = filter_by_name vs (mf_name f)
      in if mf_required f \<and> (length vv = 0 \<or> list_ex (\<lambda>v. length (rv_value v) = 0 \<or> (is_ref f \<and> rv_ref v = 0)) vv)
           then [empty_err f]
         else if mf_multi f \<and> is_unique_multi (mf_options f)
           then (case first_duplicate [] vv of Some d \<Rightarrow> [duplicate_in_set_err f d] | None \<Rightarrow> [])
         else [])"

fun check_fields :: "rvalue list \<Rightarrow> rv_error list \<Rightarrow> module_field list \<Rightarrow> rv_error list" where
  "check_fields vs out [] = out"
| "check_fields vs out (f # ff) = check_fields vs (out @ check_field vs f) ff"

text \<open>The tests of a field, up to the first that fails.\<close>

fun run_tests :: "val_env \<Rightarrow> rvalue list \<Rightarrow> rvalue \<Rightarrow> module_field \<Rightarrow> field_validator list \<Rightarrow> rv_error list" where
  "run_tests env vs v f [] = []"
| "run_tests env vs v f (cv # cvs) =
     (case ve_test env (fv_test cv) v vs of
        Inl _ \<Rightarrow> [internal_err f]
      | Inr invalid \<Rightarrow> if invalid then [value_error ''error'' f] else run_tests env vs v f cvs)"

text \<open>
  An empty value ends the whole validation with nil: \<^const>\<open>None\<close>, whatever errors there are.
\<close>

fun check_values :: "val_env \<Rightarrow> module_field list \<Rightarrow> rvalue list \<Rightarrow> rv_error list \<Rightarrow> rvalue list \<Rightarrow> rv_error list option" where
  "check_values env ff vs out [] = Some out"
| "check_values env ff vs out (v # rest) =
     (if \<not> rv_updated v \<or> is_deleted v then check_values env ff vs out rest
      else case find_by_name ff (rv_name v) of
        None \<Rightarrow> check_values env ff vs out rest
      | Some f \<Rightarrow>
          if fe_value (mf_expr f) \<noteq> [] then check_values env ff vs out rest
          else if \<not> (fe_no_validators (mf_expr f) \<and> 0 < length (fe_validators (mf_expr f)))
          then if rv_value v = [] then None
               else check_values env ff vs (out @ validate_kind env v f @ run_tests env vs v f (fe_validators (mf_expr f))) rest
          else check_values env ff vs (out @ run_tests env vs v f (fe_validators (mf_expr f))) rest)"

fun check_unique :: "val_env \<Rightarrow> u64 \<Rightarrow> module_field list \<Rightarrow> rv_error list \<Rightarrow> rvalue list \<Rightarrow> rv_error list option" where
  "check_unique env rid ff out [] = Some out"
| "check_unique env rid ff out (v # rest) =
     (case find_by_name ff (rv_name v) of
        None \<Rightarrow> check_unique env rid ff out rest
      | Some f \<Rightarrow>
          if \<not> is_unique (mf_options f) then check_unique env rid ff out rest
          else case ve_unique env of
            None \<Rightarrow> None
          | Some check \<Rightarrow>
              (case check v f of
                 Inl _ \<Rightarrow> check_unique env rid ff (out @ [internal_err f]) rest
               | Inr d \<Rightarrow> check_unique env rid ff (if 0 < d \<and> d \<noteq> rid then out @ [duplicate_err f d] else out) rest))"

definition validator_run :: "val_env \<Rightarrow> module_field list \<Rightarrow> u64 \<Rightarrow> rvalue list \<Rightarrow> rv_errors" where
  "validator_run env ff rid vs =
     (case check_values env ff vs (check_fields vs [] ff) vs of
        None \<Rightarrow> None
      | Some out \<Rightarrow>
          (case check_unique env rid ff out vs of
             None \<Rightarrow> None
           | Some out \<Rightarrow> if errors_valid (Some out) then None else Some out))"

end
