(* ===== verification/RecService.thy ===== *)
theory RecService
  imports RecValidate
begin

text \<open>
  The writing of records in \<^verbatim>\<open>compose/service/record.go\<close>: checks of the input, ownership, permissions on
  fields, preparation of the values, creation and update. Permissions, users, the identifier and
  the time, the handlers of events and the outcome of storing are arguments.
\<close>

datatype user_lookup = UserFound | UserNotFound | UserFailed

record rec_env =
  re_val :: val_env
  re_create_owned :: bool
  re_manage_owner :: bool
  re_update_value :: "module_field \<Rightarrow> bool"
  re_user :: "u64 \<Rightarrow> user_lookup"
  re_now :: moment

record crecord =
  rc_id :: u64
  rc_values :: "rvalue list"
  rc_owned_by :: u64
  rc_created_at :: moment
  rc_created_by :: u64
  rc_updated_at :: "moment option"
  rc_updated_by :: u64
  rc_deleted_at :: "moment option"
  rc_deleted_by :: u64

section \<open>The input\<close>

definition is_stale :: "moment option \<Rightarrow> moment option \<Rightarrow> moment \<Rightarrow> bool" where
  "is_stale new updated_at created_at =
     (case new of
        None \<Rightarrow> False
      | Some n \<Rightarrow> (case updated_at of Some u \<Rightarrow> n \<noteq> u | None \<Rightarrow> n = created_at))"

text \<open>The expression \<open>numeric\<close>: a digit that is not 0, and at least one more.\<close>

definition numeric :: "string \<Rightarrow> bool" where
  "numeric s \<longleftrightarrow> refy s \<and> 1 < length s"

fun check_names :: "module_field list \<Rightarrow> rvalue list \<Rightarrow> string option" where
  "check_names ff [] = None"
| "check_names ff (v # vs) =
     (case find_by_name ff (rv_name v) of
        None \<Rightarrow> Some ''field not found''
      | Some field \<Rightarrow>
          if is_ref field
          then if rv_value v = [] \<or> rv_value v = ''0'' then check_names ff vs
               else if \<not> numeric (rv_value v) then Some ''invalid reference format''
               else check_names ff vs
          else check_names ff vs)"

fun check_single :: "rvalue list \<Rightarrow> module_field list \<Rightarrow> string option" where
  "check_single vs [] = None"
| "check_single vs (field # ff) =
     (if \<not> mf_multi field \<and> 1 < length (filter_by_name vs (mf_name field))
      then Some ''more than one value for a single-value field'' else check_single vs ff)"

definition value_sanitization :: "module_field list \<Rightarrow> rvalue list \<Rightarrow> string option" where
  "value_sanitization ff vs = (case check_names ff vs of Some e \<Rightarrow> Some e | None \<Rightarrow> check_single vs ff)"

section \<open>Ownership\<close>

definition calc_record_owner :: "u64 \<Rightarrow> u64 \<Rightarrow> u64 \<Rightarrow> u64" where
  "calc_record_owner cur new invoker =
     (let invoker = (if invoker = 0 then cur else invoker)
      in if new = 0 then invoker else new)"

definition owner_error :: "string \<Rightarrow> u64 \<Rightarrow> rv_errors" where
  "owner_error k owner = Some [\<lparr>er_kind = k, er_meta = [(''field'', AStr []), (''value'', AInt owner)]\<rparr>]"

text \<open>The errors, and the record with its owner set when there are none.\<close>

definition set_record_owner :: "rec_env \<Rightarrow> crecord option \<Rightarrow> crecord \<Rightarrow> u64 \<Rightarrow> rv_errors \<times> crecord" where
  "set_record_owner env old upd invoker =
     (let cur_owner = (case old of Some r \<Rightarrow> rc_owned_by r | None \<Rightarrow> 0);
          upd_owner = calc_record_owner cur_owner (rc_owned_by upd) invoker
      in if old = None \<and> upd_owner \<noteq> invoker \<and> \<not> re_create_owned env then (owner_error ''accessDenied'' upd_owner, upd)
         else if old \<noteq> None \<and> cur_owner \<noteq> upd_owner \<and> \<not> re_manage_owner env
           then (owner_error ''accessDenied'' upd_owner, upd)
         else case re_user env upd_owner of
             UserNotFound \<Rightarrow> (owner_error ''invalidValue'' upd_owner, upd)
           | UserFailed \<Rightarrow> (owner_error ''internal'' upd_owner, upd)
           | UserFound \<Rightarrow> (None, upd\<lparr>rc_owned_by := upd_owner\<rparr>))"

section \<open>Values\<close>

definition update_denied :: "rvalue \<Rightarrow> rv_error" where
  "update_denied v = \<lparr>er_kind = ''updateDenied'', er_meta = [(''field'', AStr (rv_name v)), (''value'', AStr (rv_value v))]\<rparr>"

definition update_op_check :: "rec_env \<Rightarrow> module_field list \<Rightarrow> rvalue list \<Rightarrow> rv_errors" where
  "update_op_check env ff vs =
     Some (map update_denied
       (filter (\<lambda>v. case find_by_name ff (rv_name v) of None \<Rightarrow> False
                    | Some f \<Rightarrow> rv_updated v \<and> \<not> re_update_value env f) vs))"

definition record_preparer :: "val_env \<Rightarrow> module_field list \<Rightarrow> crecord \<Rightarrow> rv_errors \<times> crecord" where
  "record_preparer env ff new =
     (let vs = sanitizer_run env ff (rc_values new);
          (vs, errs) = expression env ff vs None
      in if \<not> errors_valid (Some errs) then (Some errs, new\<lparr>rc_values := vs\<rparr>)
         else let rve = validator_run env ff (rc_id new) vs
              in if \<not> errors_valid rve then (rve, new\<lparr>rc_values := vs\<rparr>)
                 else (None, new\<lparr>rc_values := formatter_run env ff (get_clean vs)\<rparr>))"

fun default_values :: "module_field \<Rightarrow> nat \<Rightarrow> rvalue list \<Rightarrow> rvalue list \<Rightarrow> rvalue list" where
  "default_values f i [] out = out"
| "default_values f i (dv # dvs) out =
     default_values f (Suc i) dvs
       (if \<not> has_value out (mf_name f) i then out @ [new_value (mf_name f) (rv_value dv) 0 i] else out)"

definition value_defaults :: "module_field list \<Rightarrow> rvalue list \<Rightarrow> rvalue list" where
  "value_defaults ff vs = foldl (\<lambda>out f. default_values f 0 (mf_default f) out) vs ff"

section \<open>Creation\<close>

text \<open>A value counts as updated only when it differs from the default value of its place.\<close>

definition mark_unlike_default :: "module_field list \<Rightarrow> rvalue \<Rightarrow> rvalue" where
  "mark_unlike_default ff v =
     (case find_by_name ff (rv_name v) of
        None \<Rightarrow> v
      | Some f \<Rightarrow>
          let d = (case get_value (mf_default f) [] (rv_place v) of
                     Some d \<Rightarrow> Some d
                   | None \<Rightarrow> get_value (mf_default f) (rv_name v) (rv_place v))
          in v\<lparr>rv_updated := (case d of None \<Rightarrow> True | Some d \<Rightarrow> rv_value d \<noteq> rv_value v)\<rparr>)"

definition proc_create :: "rec_env \<Rightarrow> u64 \<Rightarrow> u64 \<Rightarrow> module_field list \<Rightarrow> crecord \<Rightarrow> rv_errors \<times> crecord" where
  "proc_create env next_id invoker ff new =
     (let new = new\<lparr>rc_values := map (mark_unlike_default ff) (set_updated_flag True (rc_values new))\<rparr>;
          new = new\<lparr>rc_id := next_id, rc_created_by := invoker, rc_created_at := re_now env, rc_updated_at := None,
                    rc_updated_by := 0, rc_deleted_at := None, rc_deleted_by := 0\<rparr>
      in case set_record_owner env None new invoker of
           (Some e, new) \<Rightarrow> (Some e, new)
         | (None, new) \<Rightarrow>
             let rve = update_op_check env ff (rc_values new)
             in if \<not> errors_valid rve then (rve, new) else record_preparer (re_val env) ff new)"

section \<open>Update\<close>

text \<open>An error of the ownership ends the procedure with the result variable still nil.\<close>

definition proc_update :: "rec_env \<Rightarrow> u64 \<Rightarrow> module_field list \<Rightarrow> crecord \<Rightarrow> crecord \<Rightarrow> rv_errors \<times> crecord" where
  "proc_update env invoker ff upd old =
     (let upd = upd\<lparr>rc_values := sanitizer_run (re_val env) ff (set_updated_flag True (rc_values upd))\<rparr>;
          upd = upd\<lparr>rc_created_at := rc_created_at old, rc_created_by := rc_created_by old,
                    rc_updated_at := Some (re_now env), rc_updated_by := invoker,
                    rc_deleted_at := rc_deleted_at old, rc_deleted_by := rc_deleted_by old\<rparr>
      in case set_record_owner env (Some old) upd invoker of
           (Some e, upd) \<Rightarrow> (None, upd)
         | (None, upd) \<Rightarrow>
             let upd = upd\<lparr>rc_values := merge_values (rc_values old) ff (rc_values upd)
                   (\<lambda>f. case find_by_name ff (mf_name f) of Some g \<Rightarrow> re_update_value env g | None \<Rightarrow> False)\<rparr>;
                 rve = update_op_check env ff (rc_values upd)
             in if \<not> errors_valid rve then (rve, upd) else record_preparer (re_val env) ff upd)"

section \<open>The operations\<close>

text \<open>The outcome: an error, errors of values, or the record as stored and as returned.\<close>

datatype write_result = WriteError string | WriteInvalid rv_errors | Written crecord crecord

text \<open>What handlers of the event make of a record and its errors: an error, or both changed.\<close>

type_synonym event_hook = "crecord \<Rightarrow> rv_errors \<Rightarrow> string + crecord \<times> rv_errors"

definition record_create ::
  "rec_env \<Rightarrow> bool \<Rightarrow> u64 \<Rightarrow> u64 \<Rightarrow> u64 \<Rightarrow> module_field list \<Rightarrow> event_hook \<Rightarrow> string option \<Rightarrow> crecord \<Rightarrow> write_result" where
  "record_create env can_create id1 id2 invoker ff hook stored new =
     (if \<not> can_create then WriteError ''not allowed to create''
      else case value_sanitization ff (rc_values new) of
        Some e \<Rightarrow> WriteError e
      | None \<Rightarrow>
          (case proc_create env id1 invoker ff new of (rve, new) \<Rightarrow>
             if \<not> errors_valid rve then WriteInvalid rve
             else case hook new rve of
               Inl e \<Rightarrow> WriteError e
             | Inr (new, rve) \<Rightarrow>
                 if \<not> errors_valid rve then WriteInvalid rve
                 else (case proc_create env id2 invoker ff (new\<lparr>rc_values := value_defaults ff (rc_values new)\<rparr>) of
                     (rve, new) \<Rightarrow>
                       if \<not> errors_valid rve then WriteInvalid rve
                       else case stored of
                         Some e \<Rightarrow> WriteError e
                       | None \<Rightarrow> Written new (new\<lparr>rc_values := formatter_run (re_val env) ff (rc_values new)\<rparr>))))"

definition record_update ::
  "rec_env \<Rightarrow> bool \<Rightarrow> u64 \<Rightarrow> module_field list \<Rightarrow> event_hook \<Rightarrow> string option \<Rightarrow> crecord \<Rightarrow> crecord \<Rightarrow> write_result" where
  "record_update env can_update invoker ff hook stored upd old =
     (if rc_id upd = 0 then WriteError ''invalid ID''
      else if \<not> can_update then WriteError ''not allowed to update''
      else if is_stale (rc_updated_at upd) (rc_updated_at old) (rc_created_at old) then WriteError ''stale data''
      else case value_sanitization ff (rc_values upd) of
        Some e \<Rightarrow> WriteError e
      | None \<Rightarrow>
          (case proc_update env invoker ff upd old of (rve, upd) \<Rightarrow>
             if \<not> errors_valid rve then WriteInvalid rve
             else case hook upd rve of
               Inl e \<Rightarrow> WriteError e
             | Inr (upd, rve) \<Rightarrow>
                 if \<not> errors_valid rve then WriteInvalid rve
                 else (case proc_update env invoker ff upd old of (rve, upd) \<Rightarrow>
                   if \<not> errors_valid rve then WriteInvalid rve
                   else case stored of
                     Some e \<Rightarrow> WriteError e
                   | None \<Rightarrow>
                       Written upd (upd\<lparr>rc_values := formatter_run (re_val env) ff (get_clean (rc_values upd))\<rparr>))))"

end
