(* ===== verification/RecMerge.thy ===== *)
theory RecMerge
  imports RecService
begin

text \<open>
  What the merge of old and new values yields at every place of every field, and that fields whose
  update is denied keep their values.
\<close>

definition rv_key :: "rvalue \<Rightarrow> string \<times> nat" where
  "rv_key v = (rv_name v, rv_place v)"

lemma find_by_name_some: "find_by_name ff n = Some f \<Longrightarrow> f \<in> set ff \<and> mf_name f = n"
  by (induction ff n rule: find_by_name.induct) (auto split: if_splits)

lemma find_by_name_none: "find_by_name ff n = None \<longleftrightarrow> n \<notin> mf_name ` set ff"
  by (induction ff n rule: find_by_name.induct) auto

lemma has_name_iff [simp]: "has_name ff n \<longleftrightarrow> n \<in> mf_name ` set ff"
  by (induction ff n rule: has_name.induct) auto

lemma find_by_name_distinct: "distinct (map mf_name ff) \<Longrightarrow> f \<in> set ff \<Longrightarrow> find_by_name ff (mf_name f) = Some f"
  by (induction ff) (auto simp: image_iff)

lemma get_value_some: "get_value vs n p = Some v \<Longrightarrow> v \<in> set vs \<and> rv_key v = (n, p)"
  by (induction vs n p rule: get_value.induct) (auto simp: rv_key_def split: if_splits)

lemma get_value_none: "get_value vs n p = None \<longleftrightarrow> (n, p) \<notin> rv_key ` set vs"
  by (induction vs n p rule: get_value.induct) (auto simp: rv_key_def)

lemma get_value_append: "get_value (vs @ ws) n p = (case get_value vs n p of None \<Rightarrow> get_value ws n p | Some v \<Rightarrow> Some v)"
  by (induction vs n p rule: get_value.induct) auto

lemma set_get_value:
  "rv_name v = n \<Longrightarrow> rv_place v = p \<Longrightarrow> get_value (set_value vs v) n p = Some v"
  "(rv_name v, rv_place v) \<noteq> (n, p) \<Longrightarrow> get_value (set_value vs v) n p = get_value vs n p"
  by (induction vs v rule: set_value.induct) auto

section \<open>One new value\<close>

definition written :: "rvalue option \<Rightarrow> rvalue \<Rightarrow> rvalue" where
  "written ex n =
     (case ex of
        None \<Rightarrow> (new_value (rv_name n) (rv_value n) (rv_ref n) (rv_place n))\<lparr>rv_updated := True\<rparr>
      | Some ex \<Rightarrow> overwrite ex n)"

lemma overwrite_key [simp]: "rv_name (overwrite ex n) = rv_name ex" "rv_place (overwrite ex n) = rv_place ex"
  by (simp_all add: overwrite_def Let_def)

lemma get_merge_one:
  "get_value (merge_one out n) a b =
     (if rv_key n = (a, b) then Some (written (get_value out a b) n) else get_value out a b)"
  by (induction out n rule: merge_one.induct) (auto simp: rv_key_def written_def new_value_def)

lemma get_foldl_merge:
  "distinct (map rv_key new) \<Longrightarrow>
   get_value (foldl merge_one out new) a b =
     (case get_value new a b of None \<Rightarrow> get_value out a b | Some n \<Rightarrow> Some (written (get_value out a b) n))"
proof (induction new arbitrary: out)
  case (Cons n new)
  show ?case
  proof (cases "rv_key n = (a, b)")
    case True
    with Cons.prems have "get_value new a b = None" by (auto simp: get_value_none)
    with True Cons show ?thesis by (simp add: get_merge_one rv_key_def)
  next
    case False
    with Cons show ?thesis by (auto simp: get_merge_one rv_key_def split: option.splits)
  qed
qed simp

lemma get_mark_removed: "get_value (map mark_removed vs) a b = map_option mark_removed (get_value vs a b)"
  by (induction vs a b rule: get_value.induct) (auto simp: mark_removed_def)

lemma written_mark_removed:
  "rv_key n = rv_key ex \<Longrightarrow> written (Some (mark_removed ex)) n =
     \<lparr>rv_record = 0, rv_name = rv_name n, rv_value = rv_value n, rv_ref = rv_ref n, rv_place = rv_place n,
      rv_deleted = rv_deleted n, rv_updated = (rv_value ex \<noteq> rv_value n), rv_old = rv_value ex\<rparr>"
  by (auto simp: written_def overwrite_def mark_removed_def Let_def rv_key_def)

lemma raw_merge_get:
  assumes "vs \<noteq> []" and "distinct (map rv_key new)"
  shows "get_value (raw_merge vs new) a b =
    (case get_value new a b of
       None \<Rightarrow> map_option mark_removed (get_value vs a b)
     | Some n \<Rightarrow> Some
         (case get_value vs a b of
            None \<Rightarrow> (new_value a (rv_value n) (rv_ref n) b)\<lparr>rv_updated := True\<rparr>
          | Some ex \<Rightarrow>
              \<lparr>rv_record = 0, rv_name = a, rv_value = rv_value n, rv_ref = rv_ref n, rv_place = b,
               rv_deleted = rv_deleted n, rv_updated = (rv_value ex \<noteq> rv_value n), rv_old = rv_value ex\<rparr>))"
proof (cases "get_value new a b")
  case None
  with assms show ?thesis by (simp add: raw_merge_def get_foldl_merge get_mark_removed)
next
  case (Some n)
  from get_value_some [OF this] have n: "rv_name n = a" "rv_place n = b" by (simp_all add: rv_key_def)
  show ?thesis
  proof (cases "get_value vs a b")
    case None
    with Some assms n show ?thesis by (simp add: raw_merge_def get_foldl_merge get_mark_removed written_def)
  next
    case (Some ex)
    from get_value_some [OF this] have "rv_key n = rv_key ex" using n by (simp add: rv_key_def)
    with Some \<open>get_value new a b = Some n\<close> assms n show ?thesis
      by (simp add: raw_merge_def get_foldl_merge get_mark_removed written_mark_removed)
  qed
qed

section \<open>Fields that may not be updated\<close>

lemma copy_denied_get:
  "distinct (map mf_name ff) \<Longrightarrow>
   get_value (copy_denied vs ff can new) a b =
     (if (\<exists>f \<in> set ff. mf_name f = a \<and> \<not> can f) \<and> filter_by_name new a = []
      then get_value (get_clean (filter_by_name vs a)) a b else get_value new a b)"
proof (induction vs ff can new rule: copy_denied.induct)
  case (2 vs f ff can new)
  let ?new = "if length (filter_by_name new (mf_name f)) = 0 \<and> \<not> can f then new @ get_clean (filter_by_name vs (mf_name f)) else new"
  have other: "get_value (get_clean (filter_by_name vs (mf_name f))) a b = None" "filter_by_name (get_clean (filter_by_name vs (mf_name f))) a = []"
    if "mf_name f \<noteq> a"
    using that by (auto simp: get_value_none get_clean_def filter_by_name_def rv_key_def filter_empty_conv)
  have none: "get_value new a b = None" if "filter_by_name new a = []"
    using that by (auto simp: get_value_none filter_by_name_def rv_key_def filter_empty_conv)
  show ?case
  proof (cases "mf_name f = a")
    case True
    with 2(2) have "a \<notin> mf_name ` set ff" by simp
    then have "\<not> (\<exists>g \<in> set ff. mf_name g = a)" by blast
    with 2(1) 2(2) True none show ?thesis by (auto simp: get_value_append split: option.splits)
  next
    case False
    then have "filter_by_name ?new a = filter_by_name new a" "get_value ?new a b = get_value new a b"
      using other by (auto simp: filter_by_name_def get_value_append split: option.splits)
    with 2(1) 2(2) False show ?thesis by auto
  qed
qed simp

lemma copy_denied_distinct:
  "distinct (map mf_name ff) \<Longrightarrow> distinct (map rv_key vs) \<Longrightarrow> distinct (map rv_key new) \<Longrightarrow>
   distinct (map rv_key (copy_denied vs ff can new))"
proof (induction vs ff can new rule: copy_denied.induct)
  case (2 vs f ff can new)
  have "distinct (map rv_key (new @ get_clean (filter_by_name vs (mf_name f))))" if none: "filter_by_name new (mf_name f) = []"
  proof -
    have "map rv_key (get_clean ws) = map rv_key (filter (\<lambda>v. rv_deleted v = None) ws)" for ws
      by (induction ws) (auto simp: get_clean_def rv_key_def)
    moreover have "distinct (map rv_key (filter P (filter Q vs)))" for P Q
      using 2(3) by (simp add: distinct_map inj_on_def)
    ultimately have "distinct (map rv_key (get_clean (filter_by_name vs (mf_name f))))" by (simp add: filter_by_name_def)
    moreover have "rv_key ` set new \<inter> rv_key ` set (get_clean (filter_by_name vs (mf_name f))) = {}"
      using none by (auto simp: filter_by_name_def get_clean_def rv_key_def filter_empty_conv)
    ultimately show ?thesis using 2(4) by simp
  qed
  with 2 show ?case by simp
qed simp

lemma copy_denied_kept:
  "v \<in> set (copy_denied vs ff can new) \<Longrightarrow> v \<in> set new \<or> rv_deleted v = None"
  by (induction vs ff can new rule: copy_denied.induct) (auto simp: get_clean_def split: if_splits)

end
