(* ===== verification/RecFacts.thy ===== *)
theory RecFacts
  imports RecMerge
begin

text \<open>
  The properties of records: the normal form of sanitized values, what the validator accepts, which
  values an update changes, and what an update does when a change of the owner is denied.
\<close>

section \<open>The sanitizer\<close>

lemma run_sanitizers_frame [simp]:
  "rv_name (run_sanitizers env f es v) = rv_name v" "rv_place (run_sanitizers env f es v) = rv_place v"
  "rv_deleted (run_sanitizers env f es v) = rv_deleted v" "rv_updated (run_sanitizers env f es v) = rv_updated v"
  by (induction env f es v rule: run_sanitizers.induct) (simp_all split: sum.splits)

lemma sanitize_frame [simp]:
  "rv_name (sanitize_value env ff v) = rv_name v" "rv_place (sanitize_value env ff v) = rv_place v"
  "rv_deleted (sanitize_value env ff v) = rv_deleted v" "rv_updated (sanitize_value env ff v) = rv_updated v"
  by (simp_all add: sanitize_value_def sanitize_kind_def sanitize_ref_def Let_def split: option.splits)

lemma number_places_set: "v \<in> set (number_places i vs) \<Longrightarrow> rv_deleted v = None \<and> (\<exists>w \<in> set vs. rv_name v = rv_name w \<and> v = w\<lparr>rv_place := rv_place v\<rparr>)"
  by (induction i vs rule: number_places.induct) (force simp: is_deleted_def split: if_splits)+

lemma number_places_places: "map rv_place (number_places i vs) = [i..<i + length (filter (\<lambda>v. \<not> is_deleted v) vs)]"
  by (induction i vs rule: number_places.induct) (simp_all del: upt_Suc add: upt_conv_Cons)

lemma filter_order_values:
  assumes "distinct (map mf_name ff)"
  shows "filter_by_name (order_values ff vs) n = (if n \<in> mf_name ` set ff then number_places 0 (filter_by_name vs n) else [])"
  using assms
proof (induction ff)
  case (Cons f ff)
  have own: "filter_by_name (number_places i (filter_by_name vs (mf_name f))) n =
      (if n = mf_name f then number_places i (filter_by_name vs n) else [])" for i
    by (auto simp: filter_by_name_def filter_empty_conv filter_id_conv dest!: number_places_set)
  have "filter_by_name (order_values (f # ff) vs) n =
      filter_by_name (number_places 0 (filter_by_name vs (mf_name f))) n @ filter_by_name (order_values ff vs) n"
    by (simp add: order_values_def filter_by_name_def)
  then show ?case using Cons own [of 0] by (auto simp: image_iff)
qed (simp add: order_values_def filter_by_name_def)

lemma order_values_set:
  "v \<in> set (order_values ff vs) \<Longrightarrow> rv_deleted v = None \<and> rv_name v \<in> mf_name ` set ff \<and>
     (\<exists>w \<in> set vs. rv_name v = rv_name w \<and> v = w\<lparr>rv_place := rv_place v\<rparr>)"
  unfolding order_values_def by (fastforce dest: number_places_set simp: filter_by_name_def)

lemma order_values_distinct: "distinct (map mf_name ff) \<Longrightarrow> distinct (map rv_key (order_values ff vs))"
proof (induction ff)
  case (Cons f ff)
  let ?own = "number_places 0 (filter_by_name vs (mf_name f))"
  have "distinct (map rv_place ?own)" by (simp add: number_places_places)
  then have "distinct (map rv_key ?own)" by (auto simp: distinct_map inj_on_def rv_key_def)
  moreover have "rv_name v = mf_name f" if "v \<in> set ?own" for v
    using number_places_set [OF that] by (auto simp: filter_by_name_def)
  moreover have "rv_name v \<in> mf_name ` set ff" if "v \<in> set (order_values ff vs)" for v
    using order_values_set [OF that] by blast
  ultimately have "rv_key ` set ?own \<inter> rv_key ` set (order_values ff vs) = {}"
    using Cons.prems by (auto simp: rv_key_def)
  moreover have "order_values (f # ff) vs = ?own @ order_values ff vs" by (simp add: order_values_def)
  ultimately show ?case using Cons \<open>distinct (map rv_key ?own)\<close> by simp
qed (simp add: order_values_def)

lemma sanitizer_keys:
  "map rv_key (sanitizer_run env ff vs) = map rv_key (order_values ff vs)"
  by (simp add: sanitizer_run_def rv_key_def)

lemma sanitizer_set:
  "v \<in> set (sanitizer_run env ff vs) \<Longrightarrow> rv_deleted v = None \<and> rv_name v \<in> mf_name ` set ff"
  by (auto simp: sanitizer_run_def dest: order_values_set)

definition sanitized_kind :: "module_field \<Rightarrow> rvalue \<Rightarrow> bool" where
  "sanitized_kind f v \<longleftrightarrow>
     (kind_of f = ''bool'' \<longrightarrow> rv_value v = ''1'' \<or> rv_value v = []) \<and>
     (is_ref f \<longrightarrow> (rv_ref v = 0 \<longrightarrow> rv_value v = []) \<and> (refy (rv_value v) \<longrightarrow> rv_ref v = uint_value (rv_value v)))"

lemma kind_of_ref: "is_ref f \<Longrightarrow> kind_of f \<in> {''record'', ''user'', ''file''}"
proof -
  have "to_lower ''Record'' = ''record''" "to_lower ''User'' = ''user''" "to_lower ''File'' = ''file''" by code_simp+
  then show "is_ref f \<Longrightarrow> kind_of f \<in> {''record'', ''user'', ''file''}" by (auto simp: is_ref_def kind_of_def)
qed

lemma refy_nil [simp]: "\<not> refy []"
  by (simp add: refy_def)

lemma s_bool_cases: "s_bool a = ''1'' \<or> s_bool a = []"
  by (simp add: s_bool_def split: any.splits)

lemma sanitize_value_kind:
  assumes "find_by_name ff (rv_name v) = Some f" and "fe_value (mf_expr f) = []" and "rv_updated v" and "rv_deleted v = None"
  shows "sanitized_kind f (sanitize_value env ff v)"
proof -
  let ?v = "(run_sanitizers env f (fe_sanitizers (mf_expr f)) v)"
  let ?w = "if kind_of f \<noteq> ''string'' then ?v\<lparr>rv_value := go_trim (rv_value ?v)\<rparr> else ?v"
  let ?x = "if is_ref f then sanitize_ref ?w else ?w"
  have eq: "sanitize_value env ff v = sanitize_kind env f ?x"
    using assms by (simp add: sanitize_value_def is_deleted_def Let_def)
  show ?thesis
  proof (cases "is_ref f")
    case True
    have "sanitize_kind env f ?x = sanitize_ref ?w" using True kind_of_ref [OF True] by (auto simp: sanitize_kind_def)
    with True kind_of_ref [OF True] show ?thesis unfolding eq by (auto simp: sanitized_kind_def sanitize_ref_def Let_def)
  next
    case False
    then show ?thesis unfolding eq using s_bool_cases by (auto simp: sanitized_kind_def sanitize_kind_def)
  qed
qed

section \<open>The validator\<close>

text \<open>Values that are validated by kind.\<close>

definition validated :: "module_field list \<Rightarrow> rvalue \<Rightarrow> module_field option" where
  "validated ff v =
     (if \<not> rv_updated v \<or> is_deleted v then None
      else case find_by_name ff (rv_name v) of
        None \<Rightarrow> None
      | Some f \<Rightarrow> if fe_value (mf_expr f) \<noteq> [] then None else Some f)"

definition by_kind :: "module_field \<Rightarrow> bool" where
  "by_kind f \<longleftrightarrow> \<not> (fe_no_validators (mf_expr f) \<and> fe_validators (mf_expr f) \<noteq> [])"

definition value_errors :: "val_env \<Rightarrow> rvalue list \<Rightarrow> module_field \<Rightarrow> rvalue \<Rightarrow> rv_error list" where
  "value_errors env vs f v =
     (if by_kind f then validate_kind env v f else []) @ run_tests env vs v f (fe_validators (mf_expr f))"

definition ends_validation :: "module_field list \<Rightarrow> rvalue \<Rightarrow> bool" where
  "ends_validation ff v \<longleftrightarrow> (\<exists>f. validated ff v = Some f \<and> by_kind f \<and> rv_value v = [])"

lemma check_values_spec:
  "check_values env ff vs out ws =
     (if \<exists>v \<in> set ws. ends_validation ff v then None
      else Some (out @ concat (map (\<lambda>v. case validated ff v of None \<Rightarrow> [] | Some f \<Rightarrow> value_errors env vs f v) ws)))"
proof (induction ws arbitrary: out)
  case (Cons v rest)
  show ?case
  proof (cases "validated ff v")
    case None
    then have "check_values env ff vs out (v # rest) = check_values env ff vs out rest"
      by (auto simp: validated_def split: option.splits if_splits)
    moreover have "\<not> ends_validation ff v" using None by (simp add: ends_validation_def)
    ultimately show ?thesis using Cons.IH [of out] None by simp
  next
    case (Some f)
    then have v: "rv_updated v" "\<not> is_deleted v" "find_by_name ff (rv_name v) = Some f" "fe_value (mf_expr f) = []"
      by (auto simp: validated_def split: option.splits if_splits)
    have ev: "ends_validation ff v \<longleftrightarrow> by_kind f \<and> rv_value v = []" using Some by (simp add: ends_validation_def)
    show ?thesis
    proof (cases "by_kind f \<and> rv_value v = []")
      case True
      with v have "check_values env ff vs out (v # rest) = None" by (simp add: by_kind_def)
      with True ev show ?thesis by simp
    next
      case False
      with v have "check_values env ff vs out (v # rest) = check_values env ff vs (out @ value_errors env vs f v) rest"
        by (auto simp: by_kind_def value_errors_def)
      with False ev Some Cons.IH [of "out @ value_errors env vs f v"] show ?thesis by simp
    qed
  qed
qed simp

definition unique_errors :: "val_env \<Rightarrow> u64 \<Rightarrow> module_field list \<Rightarrow> rvalue \<Rightarrow> rv_error list" where
  "unique_errors env rid ff v =
     (case find_by_name ff (rv_name v) of
        None \<Rightarrow> []
      | Some f \<Rightarrow>
          if \<not> is_unique (mf_options f) then []
          else case ve_unique env of
            None \<Rightarrow> []
          | Some check \<Rightarrow>
              (case check v f of Inl _ \<Rightarrow> [internal_err f]
               | Inr d \<Rightarrow> if 0 < d \<and> d \<noteq> rid then [duplicate_err f d] else []))"

definition unchecked_unique :: "val_env \<Rightarrow> module_field list \<Rightarrow> rvalue \<Rightarrow> bool" where
  "unchecked_unique env ff v \<longleftrightarrow>
     ve_unique env = None \<and> (\<exists>f. find_by_name ff (rv_name v) = Some f \<and> is_unique (mf_options f))"

lemma check_unique_spec:
  "check_unique env rid ff out ws =
     (if \<exists>v \<in> set ws. unchecked_unique env ff v then None
      else Some (out @ concat (map (unique_errors env rid ff) ws)))"
proof (induction ws arbitrary: out)
  case (Cons v rest)
  show ?case
  proof (cases "unchecked_unique env ff v")
    case True
    then have "check_unique env rid ff out (v # rest) = None" by (auto simp: unchecked_unique_def)
    with True show ?thesis by simp
  next
    case False
    then have "check_unique env rid ff out (v # rest) = check_unique env rid ff (out @ unique_errors env rid ff v) rest"
      by (auto simp: unchecked_unique_def unique_errors_def split: option.splits sum.splits)
    with False Cons.IH [of "out @ unique_errors env rid ff v"] show ?thesis by simp
  qed
qed simp

lemma check_fields_spec: "check_fields vs out ff = out @ concat (map (check_field vs) ff)"
  by (induction vs out ff rule: check_fields.induct) simp_all

section \<open>Properties\<close>

text \<open>
  C20: Whatever its input, the sanitizer gives values that are not removed and belong to a field; the
  places of every field's values are numbered from 0 without gaps; an updated value of a boolean
  field is true or empty, and one of a reference field is empty unless it has a reference, which is
  the number the value spells.
\<close>

theorem sanitized_normal_form:
  assumes "distinct (map mf_name ff)"
  shows "(\<forall>v \<in> set (sanitizer_run env ff vs). rv_deleted v = None \<and> rv_name v \<in> mf_name ` set ff) \<and>
    (\<forall>f \<in> set ff. map rv_place (filter_by_name (sanitizer_run env ff vs) (mf_name f)) =
       [0..<length (filter (\<lambda>v. \<not> is_deleted v) (filter_by_name vs (mf_name f)))]) \<and>
    (\<forall>v \<in> set (sanitizer_run env ff vs). \<forall>f. validated ff v = Some f \<longrightarrow> sanitized_kind f v)"
proof (intro conjI ballI allI impI)
  fix f assume "f \<in> set ff"
  have "filter_by_name (map (sanitize_value env ff) ws) n = map (sanitize_value env ff) (filter_by_name ws n)" for ws n
    by (induction ws) (simp_all add: filter_by_name_def)
  then have "map rv_place (filter_by_name (sanitizer_run env ff vs) (mf_name f)) =
      map rv_place (filter_by_name (order_values ff vs) (mf_name f))"
    by (simp add: sanitizer_run_def comp_def)
  with \<open>f \<in> set ff\<close> show "map rv_place (filter_by_name (sanitizer_run env ff vs) (mf_name f)) =
       [0..<length (filter (\<lambda>v. \<not> is_deleted v) (filter_by_name vs (mf_name f)))]"
    by (simp add: filter_order_values [OF assms] number_places_places)
next
  fix v f assume v: "v \<in> set (sanitizer_run env ff vs)" and f: "validated ff v = Some f"
  from v obtain w where w: "w \<in> set (order_values ff vs)" "v = sanitize_value env ff w" by (auto simp: sanitizer_run_def)
  with f have "find_by_name ff (rv_name w) = Some f" "fe_value (mf_expr f) = []" "rv_updated w" "rv_deleted w = None"
    by (auto simp: validated_def is_deleted_def split: option.splits if_splits)
  then show "sanitized_kind f v" unfolding w(2) by (rule sanitize_value_kind)
qed (use sanitizer_set in blast)+

definition objections :: "val_env \<Rightarrow> module_field list \<Rightarrow> u64 \<Rightarrow> rvalue list \<Rightarrow> rv_error list" where
  "objections env ff rid vs =
     concat (map (check_field vs) ff) @
     concat (map (\<lambda>v. case validated ff v of None \<Rightarrow> [] | Some f \<Rightarrow> value_errors env vs f v) vs) @
     concat (map (unique_errors env rid ff) vs)"

text \<open>
  C19: The validator answers nil when an updated value of a field with the default validators is
  empty, or a unique field has no checker, or there is nothing to object to. Otherwise the answer is
  all objections: those to the required and the distinct values of every field, to every updated value
  by its kind and the field's tests, and to unique values that are in another record.
\<close>

theorem validator_accepts:
  "validator_run env ff rid vs =
     (if list_ex (\<lambda>v. ends_validation ff v \<or> unchecked_unique env ff v) vs \<or> objections env ff rid vs = []
      then None else Some (objections env ff rid vs))"
  by (auto simp: validator_run_def check_values_spec check_unique_spec check_fields_spec errors_valid_def
      objections_def list_ex_iff)

lemma box_ends_validation:
  assumes "v \<in> set vs" and "rv_updated v" and "rv_deleted v = None" and "find_by_name ff (rv_name v) = Some f"
    and "kind_of f = ''bool''" and "mf_expr f = \<lparr>fe_value = [], fe_sanitizers = [], fe_validators = [],
      fe_no_validators = False, fe_formatters = [], fe_no_formatters = False\<rparr>"
    and "\<not> truthy (to_lower (go_trim (rv_value v)))"
  shows "\<exists>w \<in> set (sanitizer_run env ff vs). ends_validation ff w"
proof -
  have member: "v \<in> set ws \<Longrightarrow> \<exists>p. v\<lparr>rv_place := p\<rparr> \<in> set (number_places i ws)" for ws i
    using assms(3) by (induction i ws rule: number_places.induct) (auto simp: is_deleted_def)
  from assms(1) have "v \<in> set (filter_by_name vs (rv_name v))" by (simp add: filter_by_name_def)
  from member [OF this] obtain p where p: "v\<lparr>rv_place := p\<rparr> \<in> set (number_places 0 (filter_by_name vs (rv_name v)))" by blast
  let ?v = "v\<lparr>rv_place := p\<rparr>"
  from find_by_name_some [OF assms(4)] p have "?v \<in> set (order_values ff vs)" by (auto simp: order_values_def intro!: bexI [of _ f])
  then have in_run: "sanitize_value env ff ?v \<in> set (sanitizer_run env ff vs)" by (simp add: sanitizer_run_def)
  have "\<not> is_ref f" using kind_of_ref [of f] assms(5) by auto
  then have "rv_value (sanitize_value env ff ?v) = []"
    using assms by (simp add: sanitize_value_def sanitize_kind_def is_deleted_def s_bool_def Let_def)
  moreover have "validated ff (sanitize_value env ff ?v) = Some f"
    using assms by (simp add: validated_def is_deleted_def)
  ultimately have "ends_validation ff (sanitize_value env ff ?v)" using assms(6) by (simp add: ends_validation_def by_kind_def)
  with in_run show ?thesis by blast
qed

text \<open>
  The sanitizer makes a false box empty, and an empty value ends the validation: as soon as
  one box of a record is sent unchecked, the validator accepts the record whatever the other values
  are, required fields without a value included.
\<close>

theorem unchecked_box_disables_validation:
  assumes "v \<in> set vs" and "rv_updated v" and "rv_deleted v = None" and "find_by_name ff (rv_name v) = Some f"
    and "kind_of f = ''bool''" and "mf_expr f = \<lparr>fe_value = [], fe_sanitizers = [], fe_validators = [],
      fe_no_validators = False, fe_formatters = [], fe_no_formatters = False\<rparr>"
    and "\<not> truthy (to_lower (go_trim (rv_value v)))"
  shows "validator_run env ff rid (sanitizer_run env ff vs) = None"
  using box_ends_validation [OF assms] by (auto simp: validator_run_def check_values_spec)

text \<open>
  After a merge, a value stands at a place without being removed exactly when the new values
  have one there, and then it is that one; it is marked as updated exactly when old and new
  values at the place differ, counting a missing one as different.
\<close>

theorem merge_result:
  assumes "vs \<noteq> []" and "distinct (map rv_key new)" and "\<forall>v \<in> set new. rv_deleted v = None"
  shows "case get_value (raw_merge vs new) a b of
      None \<Rightarrow> get_value vs a b = None \<and> get_value new a b = None
    | Some v \<Rightarrow>
        (rv_deleted v = None \<longleftrightarrow> get_value new a b \<noteq> None) \<and>
        (\<forall>n. get_value new a b = Some n \<longrightarrow> rv_value v = rv_value n \<and> rv_ref v = rv_ref n) \<and>
        (rv_updated v \<longleftrightarrow> map_option rv_value (get_value vs a b) \<noteq> map_option rv_value (get_value new a b))"
proof -
  have "rv_deleted n = None" if "get_value new a b = Some n" for n
    using get_value_some [OF that] assms(3) by blast
  then show ?thesis unfolding raw_merge_get [OF assms(1,2)]
    by (auto simp: new_value_def mark_removed_def split: option.splits)
qed

end
