(* ===== verification/RecProps.thy ===== *)
theory RecProps
  imports RecFacts
begin

text \<open>
  The update of records as a whole: fields that may not be updated keep their values when the owner
  stays, and everything is left unchecked when a change of the owner is denied. Witnesses of the
  properties of records.
\<close>

section \<open>Denied fields\<close>

lemma errors_valid_update_check:
  "errors_valid (update_op_check env ff vs) \<longleftrightarrow>
     (\<forall>v \<in> set vs. \<forall>f. find_by_name ff (rv_name v) = Some f \<longrightarrow> rv_updated v \<longrightarrow> re_update_value env f)"
  by (auto simp: errors_valid_def update_op_check_def filter_empty_conv split: option.splits)

definition allowed :: "rec_env \<Rightarrow> module_field list \<Rightarrow> module_field \<Rightarrow> bool" where
  "allowed env ff f = (case find_by_name ff (mf_name f) of Some g \<Rightarrow> re_update_value env g | None \<Rightarrow> False)"

lemma denied_kept:
  assumes names: "distinct (map mf_name ff)" and old: "distinct (map rv_key vs)" and new: "distinct (map rv_key new)"
    and f: "f \<in> set ff" "\<not> re_update_value env f" and kept: "\<forall>v \<in> set new. rv_deleted v = None"
    and ok: "errors_valid (update_op_check env ff (merge_values vs ff new (allowed env ff)))"
  shows "map_option rv_value (get_value (merge_values vs ff new (allowed env ff)) (mf_name f) p) =
      map_option rv_value (get_value vs (mf_name f) p)"
    and "get_value (merge_values vs ff new (allowed env ff)) (mf_name f) p = Some v \<Longrightarrow> rv_deleted v = None"
proof -
  let ?new = "copy_denied vs ff (allowed env ff) (filter (\<lambda>v. has_name ff (rv_name v)) new)"
  have dist: "distinct (map rv_key ?new)"
    using new by (intro copy_denied_distinct names old) (auto simp: distinct_map inj_on_def)
  have clean: "\<forall>v \<in> set ?new. rv_deleted v = None" using copy_denied_kept kept by fastforce
  let ?out = "merge_values vs ff new (allowed env ff)"
  have out: "?out = raw_merge vs ?new" by (simp add: merge_values_def)
  have unmarked: "\<not> rv_updated w" if "get_value ?out (mf_name f) p = Some w" for w
    using get_value_some [OF that] ok find_by_name_distinct [OF names f(1)] f(2)
    unfolding errors_valid_update_check by (force simp: rv_key_def)
  show "map_option rv_value (get_value ?out (mf_name f) p) = map_option rv_value (get_value vs (mf_name f) p)"
  proof (cases "vs = []")
    case True
    then have "?out = map (\<lambda>v. v\<lparr>rv_updated := True\<rparr>) ?new" unfolding out by (simp add: raw_merge_def)
    then have "get_value ?out (mf_name f) p = None" using unmarked get_value_some [of ?out "mf_name f" p]
      by (cases "get_value ?out (mf_name f) p") auto
    with True show ?thesis by simp
  next
    case False
    note get = raw_merge_get [OF False dist, folded out, of "mf_name f" p]
    show ?thesis
    proof (cases "get_value ?new (mf_name f) p")
      case None
      with get have eq: "get_value ?out (mf_name f) p = map_option mark_removed (get_value vs (mf_name f) p)" by simp
      have "get_value vs (mf_name f) p = None"
      proof (rule ccontr)
        assume "get_value vs (mf_name f) p \<noteq> None"
        then obtain ex where "get_value ?out (mf_name f) p = Some (mark_removed ex)" using eq by auto
        from unmarked [OF this] show False by (simp add: mark_removed_def)
      qed
      with eq show ?thesis by simp
    next
      case (Some n)
      show ?thesis
      proof (cases "get_value vs (mf_name f) p")
        case None
        with get Some unmarked show ?thesis by (simp add: new_value_def)
      next
        case (Some ex)
        with get \<open>get_value ?new (mf_name f) p = Some n\<close> unmarked show ?thesis by simp
      qed
    qed
  qed
  assume some: "get_value ?out (mf_name f) p = Some v"
  show "rv_deleted v = None"
  proof (cases "vs = []")
    case True
    then have "?out = map (\<lambda>v. v\<lparr>rv_updated := True\<rparr>) ?new" unfolding out by (simp add: raw_merge_def)
    with get_value_some [OF some] unmarked [OF some] show ?thesis by auto
  next
    case False
    note get = raw_merge_get [OF False dist, folded out, of "mf_name f" p]
    have "rv_deleted w = None" if "get_value ?new (mf_name f) p = Some w" for w
      using get_value_some [OF that] clean by blast
    with get some unmarked [OF some] show ?thesis
      by (cases "get_value vs (mf_name f) p") (auto simp: mark_removed_def new_value_def split: option.splits)
  qed
qed

text \<open>
  C18: When the owner stays and is a user, an update that passes the checks of the procedure has
  merged values that agree with the old ones at every place of every field the invoker may not
  update, none of them removed.
\<close>

theorem denied_fields_unchanged:
  assumes "distinct (map mf_name ff)" and "distinct (map rv_key (rc_values old))"
    and "rc_owned_by upd = rc_owned_by old" and "rc_owned_by old \<noteq> 0" and "re_user env (rc_owned_by old) = UserFound"
    and "proc_update env invoker ff upd old = (rve, rec1)" and "errors_valid rve"
  shows "\<exists>merged. (\<exists>r. rc_values r = merged \<and> record_preparer (re_val env) ff r = (rve, rec1)) \<and>
    (\<forall>f \<in> set ff. \<not> re_update_value env f \<longrightarrow>
       (\<forall>p. map_option rv_value (get_value merged (mf_name f) p) = map_option rv_value (get_value (rc_values old) (mf_name f) p) \<and>
            (\<forall>v. get_value merged (mf_name f) p = Some v \<longrightarrow> rv_deleted v = None)))"
proof -
  let ?new = "sanitizer_run (re_val env) ff (set_updated_flag True (rc_values upd))"
  let ?merged = "merge_values (rc_values old) ff ?new (allowed env ff)"
  define upd1 where "upd1 = upd\<lparr>rc_created_at := rc_created_at old, rc_created_by := rc_created_by old,
      rc_updated_at := Some (re_now env), rc_updated_by := invoker, rc_deleted_at := rc_deleted_at old, rc_deleted_by := rc_deleted_by old,
      rc_owned_by := rc_owned_by old, rc_values := ?merged\<rparr>"
  have proc: "proc_update env invoker ff upd old =
      (let rve = update_op_check env ff ?merged
       in if \<not> errors_valid rve then (rve, upd1) else record_preparer (re_val env) ff upd1)"
    using assms(3,4,5) by (simp add: proc_update_def set_record_owner_def calc_record_owner_def Let_def upd1_def allowed_def [abs_def])
  have ok: "errors_valid (update_op_check env ff ?merged)" using proc assms(6,7) by (auto simp: Let_def split: if_splits)
  then have prep: "record_preparer (re_val env) ff upd1 = (rve, rec1)" using proc assms(6) by (simp add: Let_def)
  have keys: "distinct (map rv_key ?new)" unfolding sanitizer_keys by (rule order_values_distinct [OF assms(1)])
  have undeleted: "\<forall>v \<in> set ?new. rv_deleted v = None" using sanitizer_set by blast
  have "rc_values upd1 = ?merged" by (simp add: upd1_def)
  with prep denied_kept [OF assms(1,2) keys _ _ undeleted ok] show ?thesis by (intro exI [of _ ?merged]) blast
qed

section \<open>A denied change of the owner\<close>

definition prepared_input :: "rec_env \<Rightarrow> module_field list \<Rightarrow> rvalue list \<Rightarrow> rvalue list" where
  "prepared_input env ff vs = sanitizer_run (re_val env) ff (set_updated_flag True vs)"

lemma denied_owner_update:
  assumes "rc_owned_by upd \<noteq> 0" and "rc_owned_by upd \<noteq> rc_owned_by old" and "\<not> re_manage_owner env"
  shows "proc_update env invoker ff upd old =
    (None, upd\<lparr>rc_values := prepared_input env ff (rc_values upd), rc_created_at := rc_created_at old,
       rc_created_by := rc_created_by old, rc_updated_at := Some (re_now env), rc_updated_by := invoker,
       rc_deleted_at := rc_deleted_at old, rc_deleted_by := rc_deleted_by old\<rparr>)"
  using assms by (simp add: proc_update_def set_record_owner_def calc_record_owner_def owner_error_def prepared_input_def Let_def)

text \<open>
  When the invoker asks for another owner and may not change owners, the update goes
  through: the record is stored with the owner that was asked for and with the values that
  were sent, sanitized only. Permissions on fields, the merge with the old values,
  expressions and the validator play no part.
\<close>

theorem denied_owner_change_is_stored:
  assumes "rc_owned_by upd \<noteq> 0" and "rc_owned_by upd \<noteq> rc_owned_by old" and "\<not> re_manage_owner env"
    and "rc_id upd \<noteq> 0" and "rc_updated_at upd = None" and "value_sanitization ff (rc_values upd) = None"
  shows "\<exists>stored returned. record_update env True invoker ff (\<lambda>r rve. Inr (r, rve)) None upd old = Written stored returned \<and>
    rc_owned_by stored = rc_owned_by upd \<and>
    rc_values stored = prepared_input env ff (prepared_input env ff (rc_values upd))"
  using assms by (simp add: record_update_def is_stale_def denied_owner_update errors_valid_def)

section \<open>Witnesses\<close>

definition plain_expr :: field_expr where
  "plain_expr = \<lparr>fe_value = [], fe_sanitizers = [], fe_validators = [], fe_no_validators = False,
     fe_formatters = [], fe_no_formatters = False\<rparr>"

definition plain_field :: "string \<Rightarrow> string \<Rightarrow> bool \<Rightarrow> module_field" where
  "plain_field n k req = \<lparr>mf_name = n, mf_kind = k, mf_options = Map.empty, mf_required = req, mf_multi = False,
     mf_default = [], mf_expr = plain_expr\<rparr>"

definition plain_env :: val_env where
  "plain_env = \<lparr>ve_eval = (\<lambda>_ _. Inl []), ve_formula = (\<lambda>_ _. Inl []), ve_test = (\<lambda>_ _ _. Inl []),
     ve_rich_text = (\<lambda>s. s), ve_time = (\<lambda>_ _. None), ve_show_time = (\<lambda>_ _. []), ve_ref_time = (\<lambda>_ _. 0),
     ve_number = (\<lambda>s _. Some s), ve_float_int = (\<lambda>_. None), ve_big_float = (\<lambda>_ _. True), ve_email = (\<lambda>_. True),
     ve_url = (\<lambda>_. None), ve_unique = None, ve_record_ref = None, ve_user_ref = None, ve_file_ref = None\<rparr>"

definition plain_rec_env :: "(module_field \<Rightarrow> bool) \<Rightarrow> rec_env" where
  "plain_rec_env can = \<lparr>re_val = plain_env, re_create_owned = False, re_manage_owner = False, re_update_value = can,
     re_user = (\<lambda>_. UserFound), re_now = 7\<rparr>"

definition demo_fields :: "module_field list" where
  "demo_fields = [plain_field ''title'' ''String'' True, plain_field ''done'' ''Bool'' False]"

definition demo_values :: "rvalue list" where
  "demo_values = [new_value ''title'' ''a'' 0 0]"

definition demo_record :: "u64 \<Rightarrow> rvalue list \<Rightarrow> crecord" where
  "demo_record owner vs = \<lparr>rc_id = 5, rc_values = vs, rc_owned_by = owner, rc_created_at = 1, rc_created_by = 1,
     rc_updated_at = None, rc_updated_by = 0, rc_deleted_at = None, rc_deleted_by = 0\<rparr>"

lemma demo_names: "distinct (map mf_name demo_fields)"
  by (simp add: demo_fields_def plain_field_def)

theorem sanitized_normal_form_witness:
  "map rv_place (filter_by_name (sanitizer_run plain_env demo_fields [new_value ''title'' ''b'' 0 3, new_value ''title'' ''c'' 0 9]) ''title'') = [0, 1]"
proof -
  have "plain_field ''title'' ''String'' True \<in> set demo_fields" by (simp add: demo_fields_def)
  with sanitized_normal_form [OF demo_names, of plain_env "[new_value ''title'' ''b'' 0 3, new_value ''title'' ''c'' 0 9]"]
  show ?thesis by (force simp: plain_field_def filter_by_name_def new_value_def is_deleted_def upt_rec)
qed

theorem unchecked_box_disables_validation_witness:
  "validator_run plain_env demo_fields 5 (sanitizer_run plain_env demo_fields
     [(new_value ''done'' ''false'' 0 0)\<lparr>rv_updated := True\<rparr>]) = None"
proof -
  have find: "find_by_name demo_fields ''done'' = Some (plain_field ''done'' ''Bool'' False)"
    by (simp add: demo_fields_def plain_field_def)
  have box: "kind_of (plain_field ''done'' ''Bool'' False) = ''bool''" "\<not> truthy (to_lower (go_trim ''false''))"
    by code_simp+
  show ?thesis
    by (rule unchecked_box_disables_validation [where f = "plain_field ''done'' ''Bool'' False"
          and v = "(new_value ''done'' ''false'' 0 0)\<lparr>rv_updated := True\<rparr>"])
      (use find box in \<open>simp_all add: new_value_def plain_field_def plain_expr_def\<close>)
qed

theorem merge_result_witness:
  "case get_value (raw_merge demo_values [new_value ''done'' ''1'' 0 0]) ''title'' 0 of
     None \<Rightarrow> False | Some v \<Rightarrow> rv_deleted v \<noteq> None \<and> rv_updated v"
  using merge_result [of demo_values "[new_value ''done'' ''1'' 0 0]" "''title''" 0]
  by (simp add: demo_values_def new_value_def split: option.splits)

theorem denied_fields_unchanged_witness:
  "\<exists>r. record_preparer plain_env demo_fields r =
     proc_update (plain_rec_env (\<lambda>f. mf_name f \<noteq> ''title'')) 1 demo_fields
       (demo_record 3 [new_value ''done'' ''1'' 0 0]) (demo_record 3 demo_values) \<and>
   map_option rv_value (get_value (rc_values r) ''title'' 0) = Some ''a''"
proof -
  let ?env = "plain_rec_env (\<lambda>f. mf_name f \<noteq> ''title'')"
  let ?old = "demo_record 3 demo_values" and ?upd = "demo_record 3 [new_value ''done'' ''1'' 0 0]"
  obtain rve rec1 where run: "proc_update ?env 1 demo_fields ?upd ?old = (rve, rec1)" by fastforce
  have "errors_valid (fst (proc_update ?env 1 demo_fields ?upd ?old))" by code_simp
  with run have valid: "errors_valid rve" by simp
  have "distinct (map rv_key (rc_values ?old))" by (simp add: demo_record_def demo_values_def)
  from denied_fields_unchanged [OF demo_names this _ _ _ run valid] obtain r where
    r: "record_preparer (re_val ?env) demo_fields r = (rve, rec1)" and
    "\<forall>f \<in> set demo_fields. \<not> re_update_value ?env f \<longrightarrow>
       (\<forall>p. map_option rv_value (get_value (rc_values r) (mf_name f) p) = map_option rv_value (get_value (rc_values ?old) (mf_name f) p))"
    by (auto simp: demo_record_def plain_rec_env_def)
  then have "map_option rv_value (get_value (rc_values r) ''title'' 0) = Some ''a''"
    by (simp add: demo_fields_def plain_field_def plain_rec_env_def demo_record_def demo_values_def new_value_def)
  with r run show ?thesis by (intro exI [of _ r]) (simp add: plain_rec_env_def)
qed

theorem denied_owner_change_is_stored_witness:
  "\<exists>stored returned. record_update (plain_rec_env (\<lambda>_. False)) True 1 demo_fields (\<lambda>r rve. Inr (r, rve)) None
     (demo_record 9 [new_value ''title'' [] 0 0]) (demo_record 3 demo_values) = Written stored returned \<and> rc_owned_by stored = 9"
proof -
  have "value_sanitization demo_fields [new_value ''title'' [] 0 0] = None" by code_simp
  with denied_owner_change_is_stored [of "demo_record 9 [new_value ''title'' [] 0 0]" "demo_record 3 demo_values"
      "plain_rec_env (\<lambda>_. False)" demo_fields 1]
  show ?thesis by (auto simp: demo_record_def plain_rec_env_def)
qed

end
