(* ===== verification/EventBus.thy ===== *)
theory EventBus
  imports RbacResource
begin

text \<open>
  \<^verbatim>\<open>pkg/eventbus/constraints.go\<close>, \<^verbatim>\<open>handlers.go\<close> and \<^verbatim>\<open>eventbus.go\<close>: constraints of handlers, the handlers
  that match an event, and the synchronous and asynchronous dispatch of events.

  The bus is a map from addresses to handlers. Go iterates over a map in any order: the order is an
  argument, and as it is any order, the stable sort here yields every result of the unstable one.
  Regular expressions are functions; their compilation is an argument. A match that dereferences a
  nil pointer is \<^const>\<open>None\<close>.
\<close>

section \<open>Constraints\<close>

datatype event_constraint =
    MustBeEqual bool string "string list"
  | MustBeLike bool string "string list"
  | MustMatch bool string "(string \<Rightarrow> bool) list"

fun cn_name :: "event_constraint \<Rightarrow> string" where
  "cn_name (MustBeEqual neg n vv) = n"
| "cn_name (MustBeLike neg n vv) = n"
| "cn_name (MustMatch neg n rr) = n"

fun cn_values :: "event_constraint \<Rightarrow> string list" where
  "cn_values (MustBeEqual neg n vv) = vv"
| "cn_values (MustBeLike neg n vv) = vv"
| "cn_values (MustMatch neg n rr) = []"

definition like_char :: "char \<Rightarrow> char" where
  "like_char c = (if c = CHR ''%'' then CHR ''*'' else if c = CHR ''_'' then CHR ''?'' else c)"

definition must_like_maker :: "string \<Rightarrow> bool \<Rightarrow> string list \<Rightarrow> event_constraint" where
  "must_like_maker n neg vv = MustBeLike neg n (map (map like_char) vv)"

fun compile_all :: "(string \<Rightarrow> string + (string \<Rightarrow> bool)) \<Rightarrow> string list \<Rightarrow> string + (string \<Rightarrow> bool) list" where
  "compile_all compile [] = Inr []"
| "compile_all compile (v # vv) =
     (case compile v of
        Inl e \<Rightarrow> Inl e
      | Inr r \<Rightarrow> (case compile_all compile vv of Inl e \<Rightarrow> Inl e | Inr rr \<Rightarrow> Inr (r # rr)))"

definition must_match_maker ::
  "(string \<Rightarrow> string + (string \<Rightarrow> bool)) \<Rightarrow> string \<Rightarrow> bool \<Rightarrow> string list \<Rightarrow> string + event_constraint" where
  "must_match_maker compile n neg vv =
     (case compile_all compile vv of Inl e \<Rightarrow> Inl e | Inr rr \<Rightarrow> Inr (MustMatch neg n rr))"

definition constraint_maker ::
  "(string \<Rightarrow> string + (string \<Rightarrow> bool)) \<Rightarrow> string \<Rightarrow> string \<Rightarrow> string list \<Rightarrow> string + event_constraint" where
  "constraint_maker compile n op vv =
     (let o' = to_lower op in
      if List.member ['''', ''eq'', ''='', ''=='', ''===''] o' then Inr (MustBeEqual False n vv)
      else if List.member [''not eq'', ''ne'', ''!='', ''!==''] o' then Inr (MustBeEqual True n vv)
      else if o' = ''like'' then Inr (must_like_maker n False vv)
      else if o' = ''not like'' then Inr (must_like_maker n True vv)
      else if o' = ''~'' then must_match_maker compile n False vv
      else if o' = ''!~'' then must_match_maker compile n True vv
      else Inl ''operator not supported'')"

text \<open>\<open>Match\<close> of the three constraints.\<close>

fun match_values :: "(string \<Rightarrow> bool) list \<Rightarrow> bool \<Rightarrow> string \<Rightarrow> bool" where
  "match_values [] neg s = neg"
| "match_values (t # ts) neg s = (if t s then \<not> neg else match_values ts neg s)"

fun cn_match :: "event_constraint \<Rightarrow> string \<Rightarrow> bool" where
  "cn_match (MustBeEqual neg n vv) s = match_values (map (\<lambda>v. (=) v) vv) neg s"
| "cn_match (MustBeLike neg n vv) s = match_values (map path_match vv) neg s"
| "cn_match (MustMatch neg n rr) s = match_values rr neg s"

fun match_first :: "bool option list \<Rightarrow> bool option" where
  "match_first [] = Some False"
| "match_first (c # cs) =
     (case c of None \<Rightarrow> None | Some True \<Rightarrow> Some True | Some False \<Rightarrow> match_first cs)"

section \<open>Events and handlers\<close>

record bus_event =
  ev_resource :: string
  ev_type :: string
  ev_match :: "event_constraint \<Rightarrow> bool option"

record 'f handler =
  h_fn :: 'f
  h_resources :: "string \<Rightarrow> bool"
  h_events :: "string \<Rightarrow> bool"
  h_constraints :: "event_constraint list"
  h_weight :: int

datatype handler_op = OpFor "string list" | OpOn "string list" | OpConstraint event_constraint | OpWeight int

fun apply_op :: "handler_op \<Rightarrow> 'f handler \<Rightarrow> 'f handler" where
  "apply_op (OpFor rr) t = t\<lparr>h_resources := foldl (\<lambda>m r. m(r := True)) (h_resources t) rr\<rparr>"
| "apply_op (OpOn ee) t = t\<lparr>h_events := foldl (\<lambda>m e. m(e := True)) (h_events t) ee\<rparr>"
| "apply_op (OpConstraint c) t = t\<lparr>h_constraints := h_constraints t @ [c]\<rparr>"
| "apply_op (OpWeight w) t = t\<lparr>h_weight := w\<rparr>"

definition new_handler :: "'f \<Rightarrow> handler_op list \<Rightarrow> 'f handler" where
  "new_handler f ops =
     foldl (\<lambda>t op. apply_op op t)
       \<lparr>h_fn = f, h_resources = (\<lambda>_. False), h_events = (\<lambda>_. False), h_constraints = [], h_weight = 0\<rparr> ops"

fun match_all :: "(event_constraint \<Rightarrow> bool option) \<Rightarrow> event_constraint list \<Rightarrow> bool option" where
  "match_all m [] = Some True"
| "match_all m (c # cs) =
     (case m c of None \<Rightarrow> None | Some b \<Rightarrow> if \<not> b then Some False else match_all m cs)"

definition handler_match :: "'f handler \<Rightarrow> bus_event option \<Rightarrow> bool option" where
  "handler_match t re =
     (case re of
        None \<Rightarrow> Some False
      | Some ev \<Rightarrow>
          if length (ev_resource ev) = 0 \<or> \<not> h_resources t (ev_resource ev) then Some False
          else if length (ev_type ev) = 0 \<or> \<not> h_events t (ev_type ev) then Some False
          else match_all (ev_match ev) (h_constraints t))"

section \<open>The bus\<close>

type_synonym 'f bus = "nat \<rightharpoonup> 'f handler"

definition register :: "nat \<Rightarrow> 'f \<Rightarrow> handler_op list \<Rightarrow> 'f bus \<Rightarrow> 'f bus" where
  "register ptr f ops b = b(ptr \<mapsto> new_handler f ops)"

definition unregister :: "nat list \<Rightarrow> 'f bus \<Rightarrow> 'f bus" where
  "unregister ptrs b = foldl (\<lambda>b p. b(p := None)) b ptrs"

fun unregister_by_resource :: "string \<Rightarrow> nat list \<Rightarrow> 'f bus \<Rightarrow> 'f bus" where
  "unregister_by_resource r [] b = b"
| "unregister_by_resource r (p # ps) b =
     (case b p of
        None \<Rightarrow> unregister_by_resource r ps b
      | Some h \<Rightarrow> unregister_by_resource r ps (if h_resources h r then b(p := None) else b))"

fun find_loop :: "'f bus \<Rightarrow> bus_event option \<Rightarrow> nat list \<Rightarrow> 'f handler list \<Rightarrow> 'f handler list option" where
  "find_loop b ev [] tt = Some tt"
| "find_loop b ev (p # ps) tt =
     (case b p of
        None \<Rightarrow> find_loop b ev ps tt
      | Some t \<Rightarrow>
          (case handler_match t ev of
             None \<Rightarrow> None
           | Some m \<Rightarrow> find_loop b ev ps (if m then tt @ [t] else tt)))"

definition find_handlers :: "nat list \<Rightarrow> 'f bus \<Rightarrow> bus_event option \<Rightarrow> 'f handler list option" where
  "find_handlers order b ev = (if ev = None then Some [] else map_option (sort_key h_weight) (find_loop b ev order []))"

text \<open>
  What running a handler function leads to; a panic is swallowed by the deferred recovery where
  the error reporting is configured, and the call then returns no error.
\<close>

datatype run_outcome = Done | Failed string | Panicked

type_synonym ('f, 'w) runner = "'f \<Rightarrow> bus_event option \<Rightarrow> 'w \<Rightarrow> run_outcome \<times> 'w"

definition handle :: "bool \<Rightarrow> ('f, 'w) runner \<Rightarrow> 'f handler \<Rightarrow> bus_event option \<Rightarrow> 'w \<Rightarrow> run_outcome \<times> 'w" where
  "handle recovers run t ev w =
     (case run (h_fn t) ev w of (res, w') \<Rightarrow> (if res = Panicked \<and> recovers then Done else res, w'))"

fun run_loop :: "bool \<Rightarrow> ('f, 'w) runner \<Rightarrow> bus_event option \<Rightarrow> 'f handler list \<Rightarrow> 'w \<Rightarrow> run_outcome \<times> 'w" where
  "run_loop recovers run ev [] w = (Done, w)"
| "run_loop recovers run ev (t # ts) w =
     (case handle recovers run t ev w of
        (Done, w') \<Rightarrow> run_loop recovers run ev ts w'
      | (res, w') \<Rightarrow> (res, w'))"

definition wait_for ::
  "bool \<Rightarrow> ('f, 'w) runner \<Rightarrow> nat list \<Rightarrow> 'f bus \<Rightarrow> bus_event option \<Rightarrow> 'w \<Rightarrow> run_outcome \<times> 'w" where
  "wait_for recovers run order b ev w =
     (case find_handlers order b ev of None \<Rightarrow> (Panicked, w) | Some tt \<Rightarrow> run_loop recovers run ev tt w)"

text \<open>\<open>Dispatch\<close> starts a goroutine for each of the handlers; the result is what it starts.\<close>

definition dispatch :: "nat list \<Rightarrow> 'f bus \<Rightarrow> bus_event option \<Rightarrow> 'f handler list option" where
  "dispatch order b ev = find_handlers order b ev"

end
