(* ===== verification/EventBusFacts.thy ===== *)
theory EventBusFacts
  imports EventBus
begin

text \<open>
  Which handlers an event reaches, in which order and how far; constraints and their negation;
  LIKE patterns against the SQL reading.
\<close>

section \<open>Constraints\<close>

lemma match_values_iff: "match_values ts neg s \<longleftrightarrow> neg \<noteq> (\<exists>t \<in> set ts. t s)"
  by (induction ts) auto

text \<open>The SQL reading of a LIKE pattern.\<close>

fun sql_like :: "string \<Rightarrow> string \<Rightarrow> bool" where
  "sql_like [] s = (s = [])"
| "sql_like (c # p) [] = (c = CHR ''%'' \<and> sql_like p [])"
| "sql_like (c # p) (x # xs) =
     (if c = CHR ''%'' then sql_like p (x # xs) \<or> sql_like (c # p) xs
      else (c = CHR ''_'' \<or> x = c) \<and> sql_like p xs)"

definition plain_like :: "string \<Rightarrow> bool" where
  "plain_like p \<longleftrightarrow> list_all (\<lambda>c. c \<notin> {CHR ''*'', CHR ''?'', CHR ''['', CHR 0x5C}) p"

lemma like_char_plain:
  "c \<notin> {CHR ''*'', CHR ''?'', CHR ''['', CHR 0x5C} \<Longrightarrow>
   (like_char c = CHR ''*'' \<longleftrightarrow> c = CHR ''%'') \<and> (like_char c = CHR ''?'' \<longleftrightarrow> c = CHR ''_'') \<and>
   like_char c \<noteq> CHR ''['' \<and> like_char c \<noteq> CHR 0x5C \<and> (c \<noteq> CHR ''%'' \<longrightarrow> c \<noteq> CHR ''_'' \<longrightarrow> like_char c = c)"
  by (auto simp: like_char_def)

lemma path_match_star:
  "path_match (CHR ''*'' # p) (x # xs) \<longleftrightarrow> path_match p (x # xs) \<or> x \<noteq> CHR ''/'' \<and> path_match (CHR ''*'' # p) xs"
  by (simp add: path_match.simps(2) [of "CHR ''*''" p "x # xs"])

lemma like_char_percent [simp]: "like_char (CHR ''%'') = CHR ''*''"
  by (simp add: like_char_def)

lemma path_match_like:
  "plain_like p \<Longrightarrow> CHR ''/'' \<notin> set s \<Longrightarrow> path_match (map like_char p) s = sql_like p s"
proof (induction p s rule: sql_like.induct)
  case (2 c p)
  then have c: "c \<notin> {CHR ''*'', CHR ''?'', CHR ''['', CHR 0x5C}" and p: "plain_like p" by (auto simp: plain_like_def)
  show ?case using like_char_plain [OF c] 2(1) [OF p] by (cases "c = CHR ''%''") (auto simp: path_match.simps(2))
next
  case (3 c p x xs)
  then have c: "c \<notin> {CHR ''*'', CHR ''?'', CHR ''['', CHR 0x5C}" and p: "plain_like p" by (auto simp: plain_like_def)
  show ?case
  proof (cases "c = CHR ''%''")
    case True
    with 3 p have "path_match (map like_char p) (x # xs) = sql_like p (x # xs)"
      "path_match (map like_char (c # p)) xs = sql_like (c # p) xs" by auto
    with True 3(5) show ?thesis by (auto simp: path_match_star)
  next
    case False
    with 3 p have "path_match (map like_char p) xs = sql_like p xs" by auto
    with False like_char_plain [OF c] 3(5) show ?thesis by (auto simp: path_match.simps(2))
  qed
qed simp



section \<open>Handlers\<close>

lemma match_all_true: "match_all m cs = Some True \<longleftrightarrow> (\<forall>c \<in> set cs. m c = Some True)"
  by (induction cs) (auto split: option.splits)

lemma handler_match_true:
  "handler_match t (Some ev) = Some True \<longleftrightarrow>
     ev_resource ev \<noteq> [] \<and> ev_type ev \<noteq> [] \<and> h_resources t (ev_resource ev) \<and> h_events t (ev_type ev) \<and>
     (\<forall>c \<in> set (h_constraints t). ev_match ev c = Some True)"
  by (auto simp: handler_match_def match_all_true)

lemma find_loop_spec:
  "find_loop b ev ps tt = Some hs \<Longrightarrow>
   hs = tt @ map (\<lambda>p. the (b p)) (filter (\<lambda>p. p \<in> dom b \<and> handler_match (the (b p)) ev = Some True) ps)"
proof (induction ps arbitrary: tt)
  case (Cons p ps)
  show ?case
  proof (cases "b p")
    case None
    with Cons show ?thesis by auto
  next
    case (Some t)
    with Cons.prems obtain m where m: "handler_match t ev = Some m" by (auto split: option.splits)
    with Some Cons.prems Cons.IH [of "if m then tt @ [t] else tt"] show ?thesis by (cases m) (simp_all add: domIff)
  qed
qed simp

lemma find_loop_total:
  "(\<forall>p \<in> dom b. handler_match (the (b p)) ev \<noteq> None) \<Longrightarrow> find_loop b ev ps tt \<noteq> None"
  by (induction b ev ps tt rule: find_loop.induct) (auto simp: dom_def split: option.splits)

definition matching :: "nat list \<Rightarrow> 'f bus \<Rightarrow> bus_event option \<Rightarrow> 'f handler list" where
  "matching order b ev = map (\<lambda>p. the (b p)) (filter (\<lambda>p. p \<in> dom b \<and> handler_match (the (b p)) ev = Some True) order)"

lemma find_handlers_spec:
  "find_handlers order b (Some ev) = Some hs \<Longrightarrow> hs = sort_key h_weight (matching order b (Some ev))"
  by (auto simp: find_handlers_def matching_def dest: find_loop_spec)

section \<open>Dispatch\<close>

text \<open>The outcomes of a list of handlers, each run in the world the ones before it left.\<close>

fun handler_runs :: "bool \<Rightarrow> ('f, 'w) runner \<Rightarrow> bus_event option \<Rightarrow> 'f handler list \<Rightarrow> 'w \<Rightarrow> (run_outcome \<times> 'w) list" where
  "handler_runs recovers run ev [] w = []"
| "handler_runs recovers run ev (t # ts) w =
     handle recovers run t ev w # handler_runs recovers run ev ts (snd (handle recovers run t ev w))"

definition first_failure :: "(run_outcome \<times> 'w) list \<Rightarrow> 'w \<Rightarrow> run_outcome \<times> 'w" where
  "first_failure rr w =
     (case List.find (\<lambda>x. fst x \<noteq> Done) rr of Some x \<Rightarrow> x | None \<Rightarrow> (Done, snd (last ((Done, w) # rr))))"

lemma wait_loop_runs: "run_loop recovers run ev hs w = first_failure (handler_runs recovers run ev hs w) w"
proof (induction hs arbitrary: w)
  case Nil
  then show ?case by (simp add: first_failure_def)
next
  case (Cons t ts)
  obtain res w' where h: "handle recovers run t ev w = (res, w')" by fastforce
  show ?case
  proof (cases "res = Done")
    case True
    with h Cons [of w'] show ?thesis
      by (auto simp: first_failure_def split: option.splits)
  next
    case False
    with h show ?thesis by (cases res) (simp_all add: first_failure_def)
  qed
qed

text \<open>
  C23: a synchronous dispatch runs exactly the registered handlers whose resource types, event types
  and constraints all match, by ascending weight, each in the state the one before left, up to the
  first that fails; its error is the result.
\<close>

theorem wait_for_runs_matching:
  assumes "distinct order" and "set order = dom b"
    and "\<forall>p \<in> dom b. handler_match (the (b p)) (Some ev) \<noteq> None"
  shows "\<exists>hs. mset hs = image_mset (\<lambda>p. the (b p))
             (mset_set {p \<in> dom b. handler_match (the (b p)) (Some ev) = Some True}) \<and>
           sorted (map h_weight hs) \<and>
           wait_for recovers run order b (Some ev) w = first_failure (handler_runs recovers run (Some ev) hs w) w"
proof -
  from find_loop_total [OF assms(3)] have "find_handlers order b (Some ev) \<noteq> None" by (simp add: find_handlers_def)
  then obtain hs where hs: "find_handlers order b (Some ev) = Some hs" by blast
  note spec = find_handlers_spec [OF hs]
  let ?ps = "filter (\<lambda>p. p \<in> dom b \<and> handler_match (the (b p)) (Some ev) = Some True) order"
  from assms(1,2) have "mset ?ps = mset_set {p \<in> dom b. handler_match (the (b p)) (Some ev) = Some True}"
    by (subst mset_set_set [symmetric]) (auto intro!: arg_cong [where f = mset_set])
  with spec have "mset hs = image_mset (\<lambda>p. the (b p)) (mset_set {p \<in> dom b. handler_match (the (b p)) (Some ev) = Some True})"
    by (simp add: matching_def)
  moreover from spec have "sorted (map h_weight hs)" by simp
  moreover have "wait_for recovers run order b (Some ev) w = first_failure (handler_runs recovers run (Some ev) hs w) w"
    by (simp add: wait_for_def hs wait_loop_runs)
  ultimately show ?thesis by blast
qed

text \<open>Two of three handlers, the second of which fails; the world is the list of what ran.\<close>

definition demo_bus :: "nat bus" where
  "demo_bus = register 1 10 [OpOn [''onUpdate''], OpFor [''compose:record''], OpWeight 5]
     (register 2 20 [OpOn [''onUpdate''], OpFor [''compose:record''], OpConstraint (MustBeEqual False ''module'' [''other''])]
     (register 3 30 [OpOn [''onUpdate'', ''onCreate''], OpFor [''compose:record'']] Map.empty))"

definition demo_event :: bus_event where
  "demo_event = \<lparr>ev_resource = ''compose:record'', ev_type = ''onUpdate'', ev_match = (\<lambda>c. Some (cn_match c ''order''))\<rparr>"

definition demo_run :: "(nat, nat list) runner" where
  "demo_run f ev w = (if f = 10 then Failed ''denied'' else Done, w @ [f])"

theorem wait_for_runs_matching_witness:
  "distinct [1, 2, 3 :: nat] \<and>
   (\<exists>hs. wait_for True demo_run [1, 2, 3] demo_bus (Some demo_event) [] =
           first_failure (handler_runs True demo_run (Some demo_event) hs []) [] \<and> sorted (map h_weight hs)) \<and>
   wait_for True demo_run [1, 2, 3] demo_bus (Some demo_event) [] = (Failed ''denied'', [30, 10])"
proof -
  have "distinct [1, 2, 3 :: nat]" by simp
  moreover have "set [1, 2, 3] = dom demo_bus" by (auto simp: demo_bus_def register_def)
  moreover have "handler_match t (Some demo_event) \<noteq> None" for t :: "nat handler"
  proof -
    have "match_all (ev_match demo_event) cs \<noteq> None" for cs by (induction cs) (auto simp: demo_event_def)
    then show ?thesis by (auto simp: handler_match_def)
  qed
  ultimately have "\<exists>hs. wait_for True demo_run [1, 2, 3] demo_bus (Some demo_event) [] =
      first_failure (handler_runs True demo_run (Some demo_event) hs []) [] \<and> sorted (map h_weight hs)"
    using wait_for_runs_matching [of "[1, 2, 3]" demo_bus demo_event True demo_run "[]"] by blast
  moreover have "wait_for True demo_run [1, 2, 3] demo_bus (Some demo_event) [] = (Failed ''denied'', [30, 10])" by code_simp
  ultimately show ?thesis by simp
qed

end
