(* ===== verification/Scheduler.thy ===== *)
theory Scheduler
  imports Prelude
begin

text \<open>
  \<^verbatim>\<open>pkg/scheduler/service.go\<close> and \<^verbatim>\<open>helpers.go\<close>: events fired at regular times, and the tests whether the
  present time is one of given crontab expressions or timestamps.

  Times are nanoseconds since Go's zero time. The crontab package and the reading of timestamps are
  arguments: an error, or the next matching time after a time, or a time. A step of the service is a
  section guarded by its lock, or one round of the loop that waits for the ticker.
\<close>

section \<open>Times\<close>

definition second_ns :: int where
  "second_ns = 1000000000"

definition truncate_time :: "int \<Rightarrow> int \<Rightarrow> int" where
  "truncate_time t d = (if d \<le> 0 then t else t - t mod d)"

definition round_time :: "int \<Rightarrow> int \<Rightarrow> int" where
  "round_time t d = (if d \<le> 0 then t else let r = t mod d in if r + r < d then t - r else t + (d - r))"

type_synonym cron_parser = "string \<Rightarrow> string + (int \<Rightarrow> int)"

fun on_interval_loop :: "cron_parser \<Rightarrow> int \<Rightarrow> string list \<Rightarrow> bool \<times> string option" where
  "on_interval_loop cron t [] = (False, None)"
| "on_interval_loop cron t (i # ii) =
     (if length i = 0 then on_interval_loop cron t ii
      else case cron i of
        Inl e \<Rightarrow> (False, Some e)
      | Inr next_time \<Rightarrow> (t = next_time (t - 1), None))"

definition on_interval_at :: "cron_parser \<Rightarrow> int \<Rightarrow> string list \<Rightarrow> bool \<times> string option" where
  "on_interval_at cron t ii = on_interval_loop cron (truncate_time t second_ns) ii"

definition on_interval :: "cron_parser \<Rightarrow> int \<Rightarrow> string list \<Rightarrow> bool" where
  "on_interval cron t ii = fst (on_interval_at cron t ii)"

fun on_timestamp_loop :: "(string \<Rightarrow> string + int) \<Rightarrow> int \<Rightarrow> string list \<Rightarrow> bool \<times> string option" where
  "on_timestamp_loop parse t [] = (False, None)"
| "on_timestamp_loop parse t (s # ss) =
     (if length s = 0 then on_timestamp_loop parse t ss
      else case parse s of Inl e \<Rightarrow> (False, Some e) | Inr ts \<Rightarrow> (t = round_time ts second_ns, None))"

definition on_timestamp_at :: "(string \<Rightarrow> string + int) \<Rightarrow> int \<Rightarrow> string list \<Rightarrow> bool \<times> string option" where
  "on_timestamp_at parse t tt = on_timestamp_loop parse (truncate_time t second_ns) tt"

definition on_timestamp :: "(string \<Rightarrow> string + int) \<Rightarrow> int \<Rightarrow> string list \<Rightarrow> bool" where
  "on_timestamp parse t tt = fst (on_timestamp_at parse t tt)"

section \<open>The service\<close>

text \<open>The ticker is set but unconfigured (its channel is nil), or one of those made so far.\<close>

datatype ticker = Blank | Running nat

text \<open>
  The goroutines are counted by where they are: between the check and the rest of \<^verbatim>\<open>Start\<close>, asleep
  until the first interval, about to watch, at the head of the loop of \<^verbatim>\<open>watch\<close>, ended by a panic. Those
  that wait in the \<^verbatim>\<open>select\<close> of the loop are listed with the ticker they have read. A ticker keeps one
  tick that was not received yet. A dispatch that panics, which ends the goroutine too, is left out.
\<close>

record 'e sched =
  sc_events :: "'e list"
  sc_interval :: int
  sc_ticker :: "ticker option"
  sc_made :: nat
  sc_stopped :: "nat list"
  sc_ticks :: "nat list"
  sc_done :: bool
  sc_starting :: nat
  sc_sleeping :: nat
  sc_fresh :: nat
  sc_watching :: nat
  sc_waiting :: "ticker list"
  sc_panicked :: nat
  sc_fired :: "'e list list"

definition new_sched :: "int \<Rightarrow> 'e sched" where
  "new_sched interval =
     \<lparr>sc_events = [], sc_interval = (if interval = 0 then 60 * second_ns else interval), sc_ticker = None,
      sc_made = 0, sc_stopped = [], sc_ticks = [], sc_done = False, sc_starting = 0, sc_sleeping = 0, sc_fresh = 0,
      sc_watching = 0, sc_waiting = [], sc_panicked = 0, sc_fired = []\<rparr>"

definition on_tick :: "'e list \<Rightarrow> 'e sched \<Rightarrow> 'e sched" where
  "on_tick es s = s\<lparr>sc_events := sc_events s @ es\<rparr>"

definition stop_sched :: "'e sched \<Rightarrow> 'e sched" where
  "stop_sched s =
     (case sc_ticker s of
        None \<Rightarrow> s
      | Some Blank \<Rightarrow> s\<lparr>sc_ticker := None\<rparr>
      | Some (Running k) \<Rightarrow> s\<lparr>sc_stopped := k # sc_stopped s, sc_ticker := None\<rparr>)"

definition started :: "'e sched \<Rightarrow> bool" where
  "started s \<longleftrightarrow> sc_ticker s \<noteq> None"

definition first_delay :: "int \<Rightarrow> int \<Rightarrow> int \<Rightarrow> int" where
  "first_delay interval now1 now2 = truncate_time now1 interval + interval - now2"

definition dispatch_events :: "'e sched \<Rightarrow> 'e sched" where
  "dispatch_events s = s\<lparr>sc_fired := sc_fired s @ [sc_events s]\<rparr>"

inductive sched_step :: "'e sched \<Rightarrow> 'e sched \<Rightarrow> bool" where
  ev_on_tick: "sched_step s (on_tick es s)"
| ev_stop: "sched_step s (stop_sched s)"
| ev_cancel: "sched_step s (s\<lparr>sc_done := True\<rparr>)"
| ev_start_check: "\<not> started s \<Longrightarrow> sched_step s (s\<lparr>sc_starting := Suc (sc_starting s)\<rparr>)"
| ev_start_set: "0 < sc_starting s \<Longrightarrow>
    sched_step s (s\<lparr>sc_starting := sc_starting s - 1, sc_ticker := Some Blank, sc_sleeping := Suc (sc_sleeping s)\<rparr>)"
| ev_wake: "0 < sc_sleeping s \<Longrightarrow> 0 < sc_interval s \<Longrightarrow>
    sched_step s (s\<lparr>sc_sleeping := sc_sleeping s - 1, sc_ticker := Some (Running (sc_made s)),
                    sc_made := Suc (sc_made s), sc_fresh := Suc (sc_fresh s)\<rparr>)"
| ev_wake_panic: "0 < sc_sleeping s \<Longrightarrow> \<not> 0 < sc_interval s \<Longrightarrow>
    sched_step s (s\<lparr>sc_sleeping := sc_sleeping s - 1, sc_panicked := Suc (sc_panicked s)\<rparr>)"
| ev_watch: "0 < sc_fresh s \<Longrightarrow>
    sched_step s (dispatch_events s\<lparr>sc_fresh := sc_fresh s - 1, sc_watching := Suc (sc_watching s)\<rparr>)"
| ev_select: "0 < sc_watching s \<Longrightarrow> sc_ticker s = Some t \<Longrightarrow>
    sched_step s (s\<lparr>sc_watching := sc_watching s - 1, sc_waiting := t # sc_waiting s\<rparr>)"
| ev_nil: "0 < sc_watching s \<Longrightarrow> \<not> started s \<Longrightarrow>
    sched_step s (stop_sched s\<lparr>sc_watching := sc_watching s - 1, sc_panicked := Suc (sc_panicked s)\<rparr>)"
| ev_ticked: "k < sc_made s \<Longrightarrow> k \<notin> set (sc_stopped s) \<Longrightarrow>
    sched_step s (s\<lparr>sc_ticks := (if List.member (sc_ticks s) k then sc_ticks s else k # sc_ticks s)\<rparr>)"
| ev_tick: "Running k \<in> set (sc_waiting s) \<Longrightarrow> k \<in> set (sc_ticks s) \<Longrightarrow>
    sched_step s (dispatch_events s\<lparr>sc_ticks := remove1 k (sc_ticks s), sc_waiting := remove1 (Running k) (sc_waiting s),
                                    sc_watching := Suc (sc_watching s)\<rparr>)"
| ev_done: "t \<in> set (sc_waiting s) \<Longrightarrow> sc_done s \<Longrightarrow>
    sched_step s (s\<lparr>sc_waiting := remove1 t (sc_waiting s), sc_watching := Suc (sc_watching s)\<rparr>)"

section \<open>Tests of the present time\<close>

lemma find_filter_loop:
  "on_interval_loop cron t ii =
     (case List.find (\<lambda>i. i \<noteq> []) ii of
        None \<Rightarrow> (False, None)
      | Some i \<Rightarrow> (case cron i of Inl e \<Rightarrow> (False, Some e) | Inr next_time \<Rightarrow> (t = next_time (t - 1), None)))"
  by (induction ii) auto

text \<open>
  only the first non-empty crontab expression counts: the test holds exactly if the second the
  present time lies in is the next time of this expression after the nanosecond before it, and the
  other expressions are not looked at.
\<close>

theorem only_first_interval_counts:
  "on_interval cron t ii =
     (case List.find (\<lambda>i. i \<noteq> []) ii of
        None \<Rightarrow> False
      | Some i \<Rightarrow> (case cron i of Inl e \<Rightarrow> False
          | Inr next_time \<Rightarrow> truncate_time t second_ns = next_time (truncate_time t second_ns - 1)))"
  by (auto simp: on_interval_def on_interval_at_def find_filter_loop split: option.splits sum.splits)

lemma truncate_time_eq: "0 < d \<Longrightarrow> truncate_time t d = d * (t div d)"
  by (simp add: truncate_time_def minus_mod_eq_mult_div)

text \<open>
  The first tick comes at a multiple of the interval, at most one interval away, if the interval
  is positive.
\<close>

theorem first_tick_aligned:
  assumes "0 < interval"
  shows "0 < first_delay interval t t \<and> first_delay interval t t \<le> interval \<and> (t + first_delay interval t t) mod interval = 0"
proof -
  have "first_delay interval t t = interval - t mod interval"
    using assms by (simp add: first_delay_def truncate_time_def)
  moreover have "(t + (interval - t mod interval)) mod interval = 0"
  proof -
    have "t + (interval - t mod interval) = interval * (t div interval + 1)"
      using minus_mod_eq_mult_div [of t interval] by (simp add: algebra_simps)
    then show ?thesis by simp
  qed
  ultimately show ?thesis using assms by simp
qed

theorem first_tick_aligned_witness:
  "0 < first_delay (60 * second_ns) 90000000001 90000000001 \<and>
   (90000000001 + first_delay (60 * second_ns) 90000000001 90000000001) mod (60 * second_ns) = 0"
  using first_tick_aligned [of "60 * second_ns" 90000000001] by (simp add: second_ns_def)

section \<open>Runs of the service\<close>

definition watchers :: "'e sched \<Rightarrow> nat" where
  "watchers s = sc_watching s + length (sc_waiting s)"

lemma member_length: "x \<in> set xs \<Longrightarrow> Suc (length (remove1 x xs)) = length xs"
  using length_pos_if_in_set [of x xs] by (simp add: length_remove1)

lemma stop_keeps [simp]:
  "sc_watching (stop_sched s) = sc_watching s" "sc_waiting (stop_sched s) = sc_waiting s"
  "sc_panicked (stop_sched s) = sc_panicked s"
  by (simp_all add: stop_sched_def split: option.split ticker.split)

lemma watching_step: "sched_step s s' \<Longrightarrow> watchers s + sc_panicked s \<le> watchers s' + sc_panicked s'"
proof (induction rule: sched_step.induct)
  case (ev_tick k s)
  from member_length [OF ev_tick(1)] show ?case by (simp add: watchers_def dispatch_events_def)
next
  case (ev_done t s)
  from member_length [OF ev_done(1)] show ?case by (simp add: watchers_def)
qed (simp_all add: watchers_def on_tick_def dispatch_events_def)

text \<open>
  a goroutine that watches the ticker ends only by a panic: the return on cancellation leaves
  the function of one round, so the loop goes on and finds the context done again and again, until
  the service is stopped and the loop dereferences the missing ticker.
\<close>

theorem watch_ends_only_by_panic:
  assumes "sched_step\<^sup>*\<^sup>* s s'"
  shows "watchers s + sc_panicked s \<le> watchers s' + sc_panicked s'"
  using assms
proof (induction rule: rtranclp_induct)
  case (step s1 s2)
  from watching_step [OF step(2)] step(3) show ?case by simp
qed simp

definition demo_sched :: "nat sched" where
  "demo_sched = on_tick [1, 2] (new_sched 0)"

definition demo_watching :: "nat sched" where
  "demo_watching = demo_sched\<lparr>sc_ticker := Some (Running 0), sc_made := 1, sc_watching := 1, sc_fired := [[1, 2]]\<rparr>"

text \<open>
  a stop during the wait for the first interval is lost: the goroutine that wakes up
  configures the ticker all the same, and the service is started although it was stopped last.
\<close>

theorem early_stop_is_lost:
  assumes "\<not> started s" and "0 < sc_interval s"
  shows "\<exists>s1 s2. sched_step\<^sup>*\<^sup>* s s1 \<and> started s1 \<and> sched_step\<^sup>*\<^sup>* (stop_sched s1) s2 \<and>
    started s2 \<and> sc_watching s2 = Suc (sc_watching s) \<and> sc_fired s2 = sc_fired s @ [sc_events s]"
proof -
  let ?a = "s\<lparr>sc_starting := Suc (sc_starting s)\<rparr>"
  let ?b = "?a\<lparr>sc_starting := sc_starting s, sc_ticker := Some Blank, sc_sleeping := Suc (sc_sleeping s)\<rparr>"
  let ?c = "?b\<lparr>sc_ticker := None\<rparr>"
  let ?d = "?c\<lparr>sc_sleeping := sc_sleeping s, sc_ticker := Some (Running (sc_made s)), sc_made := Suc (sc_made s),
              sc_fresh := Suc (sc_fresh s)\<rparr>"
  let ?e = "dispatch_events ?d\<lparr>sc_fresh := sc_fresh s, sc_watching := Suc (sc_watching s)\<rparr>"
  have "sched_step s ?a" by (rule ev_start_check) (rule assms)
  moreover have "sched_step ?a ?b" using ev_start_set [of ?a] by simp
  ultimately have start: "sched_step\<^sup>*\<^sup>* s ?b" by (meson rtranclp.rtrancl_refl rtranclp.rtrancl_into_rtrancl)
  have stop: "stop_sched ?b = ?c" by (simp add: stop_sched_def)
  have "sched_step ?c ?d" using ev_wake [of ?c] assms(2) by simp
  moreover have "sched_step ?d ?e" using ev_watch [of ?d] by simp
  ultimately have run: "sched_step\<^sup>*\<^sup>* ?c ?e"
    by (meson rtranclp.rtrancl_refl rtranclp.rtrancl_into_rtrancl)
  show ?thesis
    using start run stop by (intro exI [of _ ?b] exI [of _ ?e]) (simp add: started_def dispatch_events_def)
qed

theorem watch_ends_only_by_panic_witness:
  "\<exists>s'. sched_step\<^sup>*\<^sup>* demo_watching s' \<and> sc_done s' \<and> 1 \<le> watchers s' + sc_panicked s'"
proof -
  have "sched_step\<^sup>*\<^sup>* demo_watching (demo_watching\<lparr>sc_done := True\<rparr>)" by (rule r_into_rtranclp [of sched_step, OF ev_cancel])
  with watch_ends_only_by_panic [OF this] show ?thesis by (intro exI) (auto simp: demo_watching_def watchers_def)
qed

theorem early_stop_is_lost_witness:
  "\<exists>s1 s2. sched_step\<^sup>*\<^sup>* demo_sched s1 \<and> started s1 \<and> sched_step\<^sup>*\<^sup>* (stop_sched s1) s2 \<and> started s2 \<and> sc_fired s2 = [[1, 2]]"
proof -
  have "\<not> started demo_sched" "0 < sc_interval demo_sched" "sc_fired demo_sched = []" "sc_events demo_sched = [1, 2]" by code_simp+
  with early_stop_is_lost [of demo_sched] show ?thesis by auto
qed

end
