(* ===== verification/EventMatch.thy ===== *)
theory EventMatch
  imports EventBusFacts Scheduler
begin

text \<open>
  \<^verbatim>\<open>compose/service/event\<close> and \<^verbatim>\<open>system/service/event\<close>: what the events of namespaces, modules, pages,
  records, users, roles, memberships, applications, clients, queues, mail, sinks and schedules
  answer to a constraint. A pointer is an option; times are already formatted.
\<close>

section \<open>Resources of events\<close>

record e_namespace = en_slug :: string en_name :: string

record e_module = em_handle :: string em_name :: string

record e_page = ep_handle :: string ep_title :: string

record e_record =
  er_created :: string
  er_updated :: "string option"
  er_deleted :: "string option"
  er_values :: "(string \<times> string) list"

record e_user = eu_handle :: string eu_email :: string

record e_role = eo_handle :: string eo_name :: string

record e_mail =
  el_subject :: string
  el_from :: "string list"
  el_to :: "string list"
  el_reply_to :: "string list"
  el_cc :: "string list"
  el_bcc :: "string list"

record e_sink =
  es_host :: string
  es_remote :: string
  es_method :: string
  es_path :: string
  es_username :: string
  es_password :: string
  es_query :: "string \<Rightarrow> string"
  es_post :: "string \<Rightarrow> string"
  es_header :: "string \<Rightarrow> string"

text \<open>A field of a pointer that is not checked for nil.\<close>

definition deref :: "'a option \<Rightarrow> ('a \<Rightarrow> bool) \<Rightarrow> bool option" where
  "deref r f = map_option f r"

section \<open>Matching\<close>

definition namespace_match :: "e_namespace option \<Rightarrow> event_constraint \<Rightarrow> bool option" where
  "namespace_match r c =
     (if List.member [''namespace'', ''namespace.slug'', ''namespace.handle''] (cn_name c)
      then deref r (\<lambda>n. cn_match c (en_slug n))
      else if cn_name c = ''namespace.name'' then deref r (\<lambda>n. cn_match c (en_name n))
      else Some False)"

definition module_match :: "e_module option \<Rightarrow> event_constraint \<Rightarrow> bool option" where
  "module_match r c =
     (if cn_name c = ''module'' \<or> cn_name c = ''module.handle'' then deref r (\<lambda>m. cn_match c (em_handle m))
      else if cn_name c = ''module.name'' then deref r (\<lambda>m. cn_match c (em_name m))
      else Some False)"

definition page_match :: "e_page option \<Rightarrow> event_constraint \<Rightarrow> bool option" where
  "page_match r c =
     (if cn_name c = ''page'' \<or> cn_name c = ''page.handle'' then deref r (\<lambda>p. cn_match c (ep_handle p))
      else if cn_name c = ''page.title'' then deref r (\<lambda>p. cn_match c (ep_title p))
      else Some False)"

definition record_match_values :: string where
  "record_match_values = ''record.values.''"

definition match_record_values :: "e_record \<Rightarrow> event_constraint \<Rightarrow> bool" where
  "match_record_values r c \<longleftrightarrow>
     is_prefix_of record_match_values (cn_name c) \<and>
     list_ex (\<lambda>v. fst v = drop (length record_match_values) (cn_name c) \<and> cn_match c (snd v)) (er_values r)"

definition record_match :: "e_record option \<Rightarrow> event_constraint \<Rightarrow> bool option" where
  "record_match r c =
     (let n = cn_name c in
      if n = ''record.updatedAt'' \<or> n = ''record.updated-at'' then deref (Option.bind r er_updated) (cn_match c)
      else if n = ''record.createdAt'' \<or> n = ''record.created-at'' then deref r (\<lambda>x. cn_match c (er_created x))
      else if n = ''record.deletedAt'' \<or> n = ''record.deleted-at'' then deref (Option.bind r er_deleted) (cn_match c)
      else if is_prefix_of record_match_values n then deref r (\<lambda>x. match_record_values x c)
      else Some False)"

definition user_match :: "e_user option \<Rightarrow> event_constraint \<Rightarrow> bool option" where
  "user_match r c =
     (if cn_name c = ''user'' \<or> cn_name c = ''user.handle''
      then Some (case r of None \<Rightarrow> False | Some u \<Rightarrow> cn_match c (eu_handle u))
      else if cn_name c = ''user.email'' then Some (case r of None \<Rightarrow> False | Some u \<Rightarrow> cn_match c (eu_email u))
      else Some False)"

definition role_match :: "e_role option \<Rightarrow> event_constraint \<Rightarrow> bool option" where
  "role_match r c =
     (if cn_name c = ''role'' \<or> cn_name c = ''role.handle'' then deref r (\<lambda>x. cn_match c (eo_handle x))
      else if cn_name c = ''role.name'' then deref r (\<lambda>x. cn_match c (eo_name x))
      else Some False)"

definition application_match :: "string option \<Rightarrow> event_constraint \<Rightarrow> bool option" where
  "application_match r c = (if cn_name c = ''application.name'' then deref r (cn_match c) else Some False)"

definition auth_client_match :: "string option \<Rightarrow> event_constraint \<Rightarrow> bool option" where
  "auth_client_match r c =
     (if cn_name c = ''auth-client'' \<or> cn_name c = ''auth-client.handle'' then deref r (cn_match c) else Some False)"

definition queue_match :: "string option \<Rightarrow> event_constraint \<Rightarrow> bool option" where
  "queue_match r c = (if cn_name c = ''payload.queue'' then deref r (cn_match c) else Some False)"

definition mail_match_any :: "event_constraint \<Rightarrow> string list \<Rightarrow> bool" where
  "mail_match_any c aa \<longleftrightarrow> list_ex (cn_match c) aa"

definition mail_match :: "e_mail option \<Rightarrow> event_constraint \<Rightarrow> bool option" where
  "mail_match r c =
     (let n = cn_name c in
      if n = ''message.header.subject'' \<or> n = ''mail.header.subject'' then deref r (\<lambda>m. cn_match c (el_subject m))
      else if n = ''message.header.from'' \<or> n = ''mail.header.from'' then deref r (\<lambda>m. mail_match_any c (el_from m))
      else if n = ''message.header.to'' \<or> n = ''mail.header.to'' then deref r (\<lambda>m. mail_match_any c (el_to m))
      else if n = ''message.header.reply-to'' \<or> n = ''mail.header.replyTo'' then deref r (\<lambda>m. mail_match_any c (el_reply_to m))
      else if n = ''message.header.cc'' \<or> n = ''mail.header.cc'' then deref r (\<lambda>m. mail_match_any c (el_cc m))
      else if n = ''message.header.bcc'' \<or> n = ''mail.header.bcc'' then deref r (\<lambda>m. mail_match_any c (el_bcc m))
      else Some False)"

definition after_prefix :: "string \<Rightarrow> event_constraint \<Rightarrow> string" where
  "after_prefix p c = drop (length p) (cn_name c)"

definition sink_match :: "e_sink option \<Rightarrow> event_constraint \<Rightarrow> bool option" where
  "sink_match r c =
     (let n = cn_name c; on = (\<lambda>f. deref r (\<lambda>x. cn_match c (f x))) in
      if n = ''request.host'' then on es_host
      else if n = ''request.remoteAddress'' \<or> n = ''request.remote-address'' then on es_remote
      else if n = ''request.method'' then on es_method
      else if n = ''request.path'' then on es_path
      else if n = ''request.username'' then on es_username
      else if n = ''request.password'' then on es_password
      else if n = ''request.content-type'' then on (\<lambda>x. es_header x ''content-type'')
      else if is_prefix_of ''request.get.'' n then on (\<lambda>x. es_query x (after_prefix ''request.get.'' c))
      else if is_prefix_of ''request.post.'' n then on (\<lambda>x. es_post x (after_prefix ''request.post.'' c))
      else if is_prefix_of ''request.header.'' n then on (\<lambda>x. es_header x (after_prefix ''request.header.'' c))
      else Some True)"

section \<open>Events\<close>

text \<open>What an event carries, with the resource and event types it reports.\<close>

datatype payload =
    NamespaceEvent "e_namespace option"
  | ModuleEvent "e_module option" "e_namespace option"
  | PageEvent "e_page option" "e_namespace option"
  | RecordEvent "e_record option" "e_module option" "e_namespace option"
  | UserEvent "e_user option"
  | RoleEvent "e_role option"
  | RoleMemberEvent "e_user option" "e_role option"
  | ApplicationEvent "string option"
  | AuthClientEvent "string option"
  | QueueEvent "string option"
  | MailEvent "e_mail option"
  | SinkEvent "e_sink option"
  | DataPrivacyEvent
  | IntervalEvent
  | TimestampEvent
  | BaseEvent

record clock =
  ck_cron :: cron_parser
  ck_parse :: "string \<Rightarrow> string + int"
  ck_now :: int

text \<open>The checks of \<open>MatchFirst\<close> are functions that are called one after the other; here they are values.\<close>

fun payload_match :: "clock \<Rightarrow> payload \<Rightarrow> event_constraint \<Rightarrow> bool option" where
  "payload_match k (NamespaceEvent n) c = namespace_match n c"
| "payload_match k (ModuleEvent m n) c = match_first [module_match m c, namespace_match n c]"
| "payload_match k (PageEvent p n) c = match_first [page_match p c, namespace_match n c]"
| "payload_match k (RecordEvent r m n) c = match_first [record_match r c, module_match m c, namespace_match n c]"
| "payload_match k (UserEvent u) c = user_match u c"
| "payload_match k (RoleEvent r) c = role_match r c"
| "payload_match k (RoleMemberEvent u r) c = match_first [user_match u c, role_match r c]"
| "payload_match k (ApplicationEvent a) c = application_match a c"
| "payload_match k (AuthClientEvent a) c = auth_client_match a c"
| "payload_match k (QueueEvent q) c = queue_match q c"
| "payload_match k (MailEvent m) c = mail_match m c"
| "payload_match k (SinkEvent r) c = sink_match r c"
| "payload_match k DataPrivacyEvent c = Some True"
| "payload_match k IntervalEvent c = Some (on_interval (ck_cron k) (ck_now k) (cn_values c))"
| "payload_match k TimestampEvent c = Some (on_timestamp (ck_parse k) (ck_now k) (cn_values c))"
| "payload_match k BaseEvent c = Some False"

section \<open>Constraints on record values\<close>

lemma match_equal: "cn_match (MustBeEqual neg n vv) v \<longleftrightarrow> neg \<noteq> (v \<in> set vv)"
  by (auto simp: match_values_iff)

lemma prefix_append [simp]: "is_prefix_of p (p @ f)"
  by (induction p) auto

lemma value_name_other:
  "cn_name c = record_match_values @ f \<Longrightarrow> module_match m c = Some False \<and> namespace_match n c = Some False"
  by (simp add: module_match_def namespace_match_def record_match_values_def)

text \<open>
  A constraint on the values of a field holds for an event of a record exactly if some value of
  the field satisfies it: the negated comparison holds already if one of several values differs,
  and never for a record without a value of the field.
\<close>

theorem record_value_constraint:
  "payload_match k (RecordEvent (Some r) m n) (MustBeEqual neg (record_match_values @ f) vv) =
     Some (\<exists>v. (f, v) \<in> set (er_values r) \<and> (neg \<noteq> (v \<in> set vv)))"
proof -
  let ?c = "MustBeEqual neg (record_match_values @ f) vv"
  have "match_record_values r ?c \<longleftrightarrow> (\<exists>v. (f, v) \<in> set (er_values r) \<and> (neg \<noteq> (v \<in> set vv)))"
    unfolding match_record_values_def list_ex_iff match_equal by (simp add: Bex_def split_paired_Ex del: cn_match.simps)
  moreover have "is_prefix_of record_match_values (cn_name ?c)" by simp
  then have "record_match (Some r) ?c = Some (match_record_values r ?c)"
    by (simp add: record_match_def deref_def record_match_values_def del: prefix_append)
  ultimately show ?thesis using value_name_other [of ?c f m n] by (simp split: bool.splits)
qed

text \<open>
  a constraint on the time of the last update dereferences a nil pointer for every record that
  was never updated: once the types and the constraints before it match, the search for handlers
  panics, whatever else is registered.
\<close>

theorem update_time_constraint_panics:
  assumes "b p = Some h" and "p \<in> set order" and "er_updated r = None"
    and "ev_match ev = payload_match k (RecordEvent (Some r) m n)" and "ev_resource ev \<noteq> []" and "ev_type ev \<noteq> []"
    and "h_resources h (ev_resource ev)" and "h_events h (ev_type ev)"
    and "h_constraints h = pre @ c # post" and "cn_name c = ''record.updatedAt''"
    and "\<forall>d \<in> set pre. ev_match ev d = Some True"
  shows "wait_for recovers run order b (Some ev) w = (Panicked, w)"
proof -
  have c: "ev_match ev c = None" using assms(3,4,10) by (simp add: record_match_def deref_def)
  have "match_all (ev_match ev) (pre @ c # post) = None" if "\<forall>d \<in> set pre. ev_match ev d = Some True"
    using that c by (induction pre) simp_all
  with assms have "handler_match h (Some ev) = None" by (simp add: handler_match_def)
  then have "find_loop b (Some ev) order tt = None" for tt
    using assms(1,2) by (induction order arbitrary: tt) (auto split: option.splits)
  then show ?thesis by (simp add: wait_for_def find_handlers_def)
qed

definition demo_event_record :: e_record where
  "demo_event_record = \<lparr>er_created = ''2022-01-01T00:00:00Z'', er_updated = None, er_deleted = None, er_values = []\<rparr>"

definition demo_clock :: clock where
  "demo_clock = \<lparr>ck_cron = (\<lambda>_. Inr (\<lambda>t. t + 1)), ck_parse = (\<lambda>_. Inl ''bad''), ck_now = 0\<rparr>"

theorem update_time_constraint_panics_witness:
  "wait_for True demo_run [7]
     (register 7 10 [OpOn [''beforeUpdate''], OpFor [''compose:record''],
                     OpConstraint (MustBeEqual True ''record.updatedAt'' [''2022''])] Map.empty)
     (Some \<lparr>ev_resource = ''compose:record'', ev_type = ''beforeUpdate'',
            ev_match = payload_match demo_clock (RecordEvent (Some demo_event_record) None None)\<rparr>) [] = (Panicked, [])"
  by (rule update_time_constraint_panics
        [where p = 7 and pre = "[]" and post = "[]" and r = demo_event_record and k = demo_clock and m = None and n = None])
    (auto simp: register_def new_handler_def demo_event_record_def)

end
