(* ===== verification/EventLock.thy ===== *)
theory EventLock
  imports Prelude
begin

text \<open>
  The read-write lock of \<^verbatim>\<open>pkg/eventbus/eventbus.go\<close>. \<^verbatim>\<open>WaitFor\<close> holds it for reading while the handlers
  run, and handlers call services that dispatch further events; \<^verbatim>\<open>Register\<close> and \<^verbatim>\<open>Unregister\<close>
  hold it for writing. As documented for \<^verbatim>\<open>sync.RWMutex\<close>, a writer that waits keeps new readers
  out.
\<close>

section \<open>Calls and the lock\<close>

text \<open>A dispatch with the calls its handlers make, and a change of the handlers.\<close>

datatype bus_call = Dispatching "bus_call list" | Changing

datatype lock_action = ARLock | ARUnlock | ALock | AUnlock

fun actions :: "bus_call \<Rightarrow> lock_action list" where
  "actions (Dispatching cs) = ARLock # concat (map actions cs) @ [ARUnlock]"
| "actions Changing = [ALock, AUnlock]"

record lock_state =
  lk_readers :: nat
  lk_writer :: "nat option"
  lk_held :: bool
  lk_threads :: "lock_action list list"

definition lock_start :: "bus_call list list \<Rightarrow> lock_state" where
  "lock_start css =
     \<lparr>lk_readers = 0, lk_writer = None, lk_held = False, lk_threads = map (\<lambda>cs. concat (map actions cs)) css\<rparr>"

inductive lock_step :: "lock_state \<Rightarrow> lock_state \<Rightarrow> bool" where
  read_lock: "i < length (lk_threads s) \<Longrightarrow> lk_threads s ! i = ARLock # as \<Longrightarrow> lk_writer s = None \<Longrightarrow>
    lock_step s (s\<lparr>lk_readers := Suc (lk_readers s), lk_threads := (lk_threads s)[i := as]\<rparr>)"
| read_unlock: "i < length (lk_threads s) \<Longrightarrow> lk_threads s ! i = ARUnlock # as \<Longrightarrow>
    lock_step s (s\<lparr>lk_readers := lk_readers s - 1, lk_threads := (lk_threads s)[i := as]\<rparr>)"
| announce: "i < length (lk_threads s) \<Longrightarrow> lk_threads s ! i = ALock # as \<Longrightarrow> lk_writer s = None \<Longrightarrow>
    lock_step s (s\<lparr>lk_writer := Some i, lk_held := False\<rparr>)"
| acquire: "i < length (lk_threads s) \<Longrightarrow> lk_threads s ! i = ALock # as \<Longrightarrow> lk_writer s = Some i \<Longrightarrow>
    \<not> lk_held s \<Longrightarrow> lk_readers s = 0 \<Longrightarrow>
    lock_step s (s\<lparr>lk_held := True, lk_threads := (lk_threads s)[i := as]\<rparr>)"
| unlock: "i < length (lk_threads s) \<Longrightarrow> lk_threads s ! i = AUnlock # as \<Longrightarrow> lk_writer s = Some i \<Longrightarrow> lk_held s \<Longrightarrow>
    lock_step s (s\<lparr>lk_writer := None, lk_held := False, lk_threads := (lk_threads s)[i := as]\<rparr>)"

definition all_returned :: "lock_state \<Rightarrow> bool" where
  "all_returned s \<longleftrightarrow> list_all (\<lambda>as. as = []) (lk_threads s)"

section \<open>Programs of the threads\<close>

text \<open>
  A thread that holds the lock \<^term>\<open>d\<close> times for reading; unless \<^term>\<open>n\<close>, it only locks when it
  holds nothing.
\<close>

fun prog :: "bool \<Rightarrow> nat \<Rightarrow> lock_action list \<Rightarrow> bool" where
  "prog n d [] = (d = 0)"
| "prog n d (ARLock # as) = ((n \<or> d = 0) \<and> prog n (Suc d) as)"
| "prog n d (ARUnlock # as) = (0 < d \<and> prog n (d - 1) as)"
| "prog n d (ALock # AUnlock # as) = ((n \<or> d = 0) \<and> prog n d as)"
| "prog n d _ = False"

lemma prog_lock: "prog n d (ALock # as) \<Longrightarrow> \<exists>bs. as = AUnlock # bs \<and> (n \<or> d = 0) \<and> prog n d bs"
  by (cases "(n, d, ALock # as)" rule: prog.cases) auto

lemma prog_no_unlock [simp]: "\<not> prog n d (AUnlock # as)"
  by simp

lemma prog_actions: "prog True d bs \<Longrightarrow> prog True d (actions c @ bs)"
proof (induction c arbitrary: d bs)
  case (Dispatching cs)
  have "prog True d' as \<Longrightarrow> prog True d' (concat (map actions cs') @ as)" if "set cs' \<subseteq> set cs" for d' as cs'
    using that Dispatching.IH by (induction cs') auto
  from this [of cs "Suc d" "ARUnlock # bs"] Dispatching.prems show ?case by simp
qed simp

lemma prog_calls: "prog True 0 (concat (map actions cs))"
proof (induction cs)
  case (Cons c cs)
  then show ?case using prog_actions by simp
qed simp

definition flat_call :: "bus_call \<Rightarrow> bool" where
  "flat_call c \<longleftrightarrow> c = Changing \<or> c = Dispatching []"

lemma prog_flat: "\<forall>c \<in> set cs. flat_call c \<Longrightarrow> prog False 0 (concat (map actions cs))"
  by (induction cs) (auto simp: flat_call_def)

section \<open>Invariant\<close>

definition holds :: "lock_state \<Rightarrow> nat \<Rightarrow> bool" where
  "holds s i \<longleftrightarrow> lk_writer s = Some i \<and> lk_held s"

definition thread_ok :: "bool \<Rightarrow> lock_state \<Rightarrow> nat \<Rightarrow> nat \<Rightarrow> bool" where
  "thread_ok n s d i \<longleftrightarrow>
     (if holds s i then \<exists>bs. lk_threads s ! i = AUnlock # bs \<and> prog n d bs else prog n d (lk_threads s ! i))"

definition rw_inv :: "bool \<Rightarrow> lock_state \<Rightarrow> nat list \<Rightarrow> bool" where
  "rw_inv n s ds \<longleftrightarrow>
     length ds = length (lk_threads s) \<and> lk_readers s = sum_list ds \<and>
     (\<forall>i < length ds. thread_ok n s (ds ! i) i) \<and>
     (\<forall>i. lk_writer s = Some i \<longrightarrow> i < length ds \<and>
        (if lk_held s then lk_readers s = 0 else \<exists>as. lk_threads s ! i = ALock # as))"

lemma sum_list_zero_nth: "sum_list (ds :: nat list) = 0 \<Longrightarrow> i < length ds \<Longrightarrow> ds ! i = 0"
  by (simp add: sum_list_eq_0_iff)

lemma sum_list_upd: "i < length ds \<Longrightarrow> sum_list (ds[i := (k :: nat)]) + ds ! i = sum_list ds + k"
proof (induction ds arbitrary: i)
  case (Cons d ds)
  then show ?case by (cases i) auto
qed simp

lemma lock_inv_step:
  assumes "lock_step s s'" and "rw_inv n s ds"
  shows "\<exists>ds'. rw_inv n s' ds' \<and> length ds' = length ds"
  using assms
proof cases
  case (read_lock i as)
  with assms(2) have "thread_ok n s (ds ! i) i" "\<not> holds s i" "i < length ds" by (simp_all add: rw_inv_def holds_def)
  with read_lock have "prog n (Suc (ds ! i)) as" by (simp add: thread_ok_def)
  with assms(2) read_lock sum_list_upd [of i ds "Suc (ds ! i)"] have "rw_inv n s' (ds[i := Suc (ds ! i)])"
    by (auto simp: rw_inv_def thread_ok_def holds_def nth_list_update)
  then show ?thesis by (intro exI [of _ "ds[i := Suc (ds ! i)]"]) simp
next
  case (read_unlock i as)
  with assms(2) have ok: "thread_ok n s (ds ! i) i" "i < length ds" by (simp_all add: rw_inv_def)
  with read_unlock have nh: "\<not> holds s i" by (auto simp: thread_ok_def)
  with ok read_unlock have p: "0 < ds ! i" "prog n (ds ! i - 1) as" by (simp_all add: thread_ok_def)
  have nw: "lk_writer s = Some j \<Longrightarrow> \<not> lk_held s" for j
    using assms(2) p(1) sum_list_zero_nth [OF _ ok(2)] unfolding rw_inv_def by force
  then have nh': "\<not> holds s j" for j by (auto simp: holds_def)
  from assms(2) read_unlock sum_list_upd [of i ds "ds ! i - 1"] ok(2) p(1)
  have sum: "lk_readers s' = sum_list (ds[i := ds ! i - 1])" by (simp add: rw_inv_def)
  have threads: "thread_ok n s' (ds[i := ds ! i - 1] ! j) j" if "j < length ds" for j
  proof -
    from that assms(2) have "thread_ok n s (ds ! j) j" by (simp add: rw_inv_def)
    with nh' have "prog n (ds ! j) (lk_threads s ! j)" by (simp add: thread_ok_def)
    moreover from read_unlock nh' have "\<not> holds s' j" by (simp add: holds_def)
    ultimately show ?thesis using read_unlock p(2) ok(2) that by (cases "i = j") (simp_all add: thread_ok_def)
  qed
  have writer: "j < length ds \<and> (if lk_held s' then lk_readers s' = 0 else \<exists>as. lk_threads s' ! j = ALock # as)"
    if "lk_writer s' = Some j" for j
  proof -
    from that read_unlock have w: "lk_writer s = Some j" by simp
    with assms(2) nw [OF w] obtain bs where "j < length ds" "lk_threads s ! j = ALock # bs" by (auto simp: rw_inv_def)
    with read_unlock nw [OF w] show ?thesis by (cases "j = i") simp_all
  qed
  have "length ds = length (lk_threads s')" using assms(2) read_unlock by (simp add: rw_inv_def)
  with sum threads writer have "rw_inv n s' (ds[i := ds ! i - 1])"
    unfolding rw_inv_def by (simp only: length_list_update) blast
  then show ?thesis by (intro exI [of _ "ds[i := ds ! i - 1]"]) simp
next
  case (announce i as)
  with assms(2) have "rw_inv n s' ds" by (auto simp: rw_inv_def thread_ok_def holds_def)
  then show ?thesis by blast
next
  case (acquire i as)
  with assms(2) have "thread_ok n s (ds ! i) i" "\<not> holds s i" by (simp_all add: rw_inv_def holds_def)
  with acquire have "prog n (ds ! i) (ALock # as)" by (simp add: thread_ok_def)
  from prog_lock [OF this] assms(2) acquire have "rw_inv n s' ds"
    by (auto simp: rw_inv_def thread_ok_def holds_def nth_list_update)
  then show ?thesis by blast
next
  case (unlock i as)
  with assms(2) have "thread_ok n s (ds ! i) i" "holds s i" by (simp_all add: rw_inv_def holds_def)
  with unlock have "prog n (ds ! i) as" by (simp add: thread_ok_def)
  with assms(2) unlock have "rw_inv n s' ds"
    by (auto simp: rw_inv_def thread_ok_def holds_def nth_list_update)
  then show ?thesis by blast
qed

lemma lock_inv_start:
  assumes "\<forall>cs \<in> set css. prog n 0 (concat (map actions cs))"
  shows "rw_inv n (lock_start css) (replicate (length css) 0)"
  using assms by (auto simp: rw_inv_def lock_start_def thread_ok_def holds_def sum_list_replicate)

lemma lock_inv_reach:
  assumes "lock_step\<^sup>*\<^sup>* (lock_start css) s" and "\<forall>cs \<in> set css. prog n 0 (concat (map actions cs))"
  shows "\<exists>ds. rw_inv n s ds \<and> length ds = length css"
  using assms(1)
proof (induction rule: rtranclp_induct)
  case base
  with lock_inv_start [OF assms(2)] show ?case by force
next
  case (step s s')
  then show ?case using lock_inv_step by metis
qed

section \<open>Flat calls\<close>

lemma prog_flat_held: "prog False d as \<Longrightarrow> 0 < d \<Longrightarrow> \<exists>bs. as = ARUnlock # bs"
  by (cases "(False, d, as)" rule: prog.cases) auto

lemma flat_progress:
  assumes inv: "rw_inv False s ds" and "\<not> all_returned s"
  shows "\<exists>s'. lock_step s s'"
proof (cases "lk_writer s")
  case (Some i)
  with inv have i: "i < length (lk_threads s)" "i < length ds" "thread_ok False s (ds ! i) i" by (auto simp: rw_inv_def)
  show ?thesis
  proof (cases "lk_held s")
    case True
    with i(3) Some obtain bs where "lk_threads s ! i = AUnlock # bs" by (auto simp: thread_ok_def holds_def)
    with lock_step.unlock [OF i(1)] Some True show ?thesis by blast
  next
    case False
    with inv Some obtain as where as: "lk_threads s ! i = ALock # as" by (auto simp: rw_inv_def)
    show ?thesis
    proof (cases "lk_readers s = 0")
      case True
      with lock_step.acquire [OF i(1) as] Some False show ?thesis by blast
    next
      case no: False
      with inv obtain d where "d \<in> set ds" "0 < d" by (auto simp: rw_inv_def sum_list_eq_0_iff)
      then obtain j where j: "j < length ds" "0 < ds ! j" by (metis in_set_conv_nth)
      with inv have "thread_ok False s (ds ! j) j" by (simp add: rw_inv_def)
      with False have "prog False (ds ! j) (lk_threads s ! j)" by (simp add: thread_ok_def holds_def)
      from prog_flat_held [OF this j(2)] j(1) inv lock_step.read_unlock show ?thesis by (auto simp: rw_inv_def)
    qed
  qed
next
  case None
  from assms(2) obtain i where i: "i < length (lk_threads s)" "lk_threads s ! i \<noteq> []"
    by (auto simp: all_returned_def list_all_length)
  then obtain a as where as: "lk_threads s ! i = a # as" by (cases "lk_threads s ! i") auto
  from inv i(1) None have "prog False (ds ! i) (lk_threads s ! i)" by (auto simp: rw_inv_def thread_ok_def holds_def)
  with as have "a \<noteq> AUnlock" by auto
  with as i(1) None show ?thesis using lock_step.read_lock lock_step.read_unlock lock_step.announce by (cases a) blast+
qed

definition lock_measure :: "lock_state \<Rightarrow> nat" where
  "lock_measure s = 2 * sum_list (map length (lk_threads s)) + (if lk_writer s = None then 1 else 0)"

lemma sum_lengths_upd:
  "i < length xs \<Longrightarrow> xs ! i = a # as \<Longrightarrow> sum_list (map length xs) = Suc (sum_list (map length (xs[i := as])))"
proof (induction xs arbitrary: i)
  case (Cons x xs)
  then show ?case by (cases i) auto
qed simp

lemma lock_step_measure: "lock_step s s' \<Longrightarrow> lock_measure s' < lock_measure s"
  by (induction rule: lock_step.induct) (auto simp: lock_measure_def dest: sum_lengths_upd)

text \<open>
  As long as no handler calls the bus, every call returns: in every state that any number of
  concurrent dispatches and changes of handlers can reach, all have returned or one can proceed,
  and every step brings the end nearer.
\<close>

theorem flat_calls_return:
  assumes "lock_step\<^sup>*\<^sup>* (lock_start css) s" and "\<forall>cs \<in> set css. \<forall>c \<in> set cs. flat_call c"
  shows "(all_returned s \<or> (\<exists>s'. lock_step s s')) \<and> (\<forall>s'. lock_step s s' \<longrightarrow> lock_measure s' < lock_measure s)"
proof -
  from assms(2) prog_flat have "\<forall>cs \<in> set css. prog False 0 (concat (map actions cs))" by blast
  from lock_inv_reach [OF assms(1) this] flat_progress lock_step_measure show ?thesis by blast
qed

section \<open>Handlers that change the handlers\<close>

text \<open>A change within a dispatch: the thread waits for itself.\<close>

fun has_change :: "bus_call \<Rightarrow> bool" where
  "has_change (Dispatching cs) = list_ex has_change cs"
| "has_change Changing = True"

fun blocked_ahead :: "nat \<Rightarrow> lock_action list \<Rightarrow> bool" where
  "blocked_ahead d [] = False"
| "blocked_ahead d (ARLock # as) = blocked_ahead (Suc d) as"
| "blocked_ahead d (ARUnlock # as) = blocked_ahead (d - 1) as"
| "blocked_ahead d (ALock # as) = (0 < d \<or> blocked_ahead d as)"
| "blocked_ahead d (AUnlock # as) = blocked_ahead d as"

lemma blocked_actions:
  "blocked_ahead d (actions c @ as) \<longleftrightarrow> has_change c \<and> (0 < d \<or> c \<noteq> Changing) \<or> blocked_ahead d as"
proof (induction c arbitrary: d as)
  case (Dispatching cs)
  have "blocked_ahead (Suc d') (concat (map actions cs') @ bs) \<longleftrightarrow> list_ex has_change cs' \<or> blocked_ahead (Suc d') bs"
    if "set cs' \<subseteq> set cs" for cs' bs and d'
    using that Dispatching.IH by (induction cs') auto
  from this [of cs d "ARUnlock # as"] show ?case by simp
qed auto

text \<open>How often a thread holds the lock can be read off what it still does.\<close>

fun depth :: "lock_action list \<Rightarrow> int" where
  "depth [] = 0"
| "depth (a # as) = depth as + (if a = ARUnlock then 1 else if a = ARLock then - 1 else 0)"

lemma prog_depth: "prog n d as \<Longrightarrow> int d = depth as"
  by (induction n d as rule: prog.induct) auto

lemma thread_depth:
  assumes "rw_inv n s ds" and "i < length ds"
  shows "ds ! i = nat (depth (lk_threads s ! i))"
proof -
  from assms have "thread_ok n s (ds ! i) i" by (simp add: rw_inv_def)
  then have "int (ds ! i) = depth (lk_threads s ! i)" by (auto simp: thread_ok_def dest: prog_depth split: if_splits)
  then show ?thesis by simp
qed

definition stuck_thread :: "lock_state \<Rightarrow> nat \<Rightarrow> bool" where
  "stuck_thread s j \<longleftrightarrow> blocked_ahead (nat (depth (lk_threads s ! j))) (lk_threads s ! j)"

lemma stuck_step:
  assumes "lock_step s s'" and "rw_inv n s ds" and "j < length ds" and "stuck_thread s j"
  shows "stuck_thread s' j"
proof -
  have d: "ds ! j = nat (depth (lk_threads s ! j))" by (rule thread_depth [OF assms(2,3)])
  have zero: "lk_readers s = 0 \<Longrightarrow> ds ! j = 0" using assms(2,3) sum_list_zero_nth by (auto simp: rw_inv_def)
  have ok: "thread_ok n s (ds ! j) j" using assms(2,3) by (simp add: rw_inv_def)
  show ?thesis
    using assms(1)
  proof cases
    case (read_lock i as)
    show ?thesis
    proof (cases "i = j")
      case True
      with read_lock ok have "prog n (Suc (ds ! j)) as" by (auto simp: thread_ok_def split: if_splits)
      from prog_depth [OF this] have "nat (depth as) = Suc (ds ! j)" by simp
      with True read_lock assms(4) d show ?thesis by (simp add: stuck_thread_def)
    qed (use read_lock assms(4) in \<open>simp add: stuck_thread_def\<close>)
  next
    case (read_unlock i as)
    show ?thesis
    proof (cases "i = j")
      case True
      with read_unlock ok have "prog n (ds ! j - 1) as" by (auto simp: thread_ok_def split: if_splits)
      from prog_depth [OF this] have "nat (depth as) = ds ! j - 1" by simp
      with True read_unlock assms(4) d show ?thesis by (simp add: stuck_thread_def)
    qed (use read_unlock assms(4) in \<open>simp add: stuck_thread_def\<close>)
  next
    case (acquire i as)
    show ?thesis
    proof (cases "i = j")
      case True
      with zero acquire d have "nat (depth (ALock # as)) = 0" by simp
      with True acquire assms(4) show ?thesis by (simp add: stuck_thread_def)
    qed (use acquire assms(4) in \<open>simp add: stuck_thread_def\<close>)
  next
    case (unlock i as)
    with assms(4) show ?thesis by (cases "i = j") (simp_all add: stuck_thread_def)
  qed (use assms(4) in \<open>simp add: stuck_thread_def\<close>)
qed

lemma stuck_start:
  assumes "j < length css" and "c \<in> set (css ! j)" and "has_change c" and "c \<noteq> Changing"
  shows "stuck_thread (lock_start css) j"
proof -
  have "has_change c \<Longrightarrow> c \<noteq> Changing \<Longrightarrow> c \<in> set cs \<Longrightarrow> blocked_ahead d (concat (map actions cs))" for cs d
  proof (induction cs)
    case (Cons a cs)
    then show ?case by (auto simp: blocked_actions)
  qed simp
  from this [OF assms(3,4,2)] assms(1) show ?thesis by (simp add: stuck_thread_def lock_start_def)
qed

text \<open>
  C25: a dispatch one of whose handlers registers or unregisters handlers, directly or through
  further dispatches, never returns: in no reachable state has its thread finished.
\<close>

theorem change_in_handler_never_returns:
  assumes "lock_step\<^sup>*\<^sup>* (lock_start css) s" and "j < length css" and "Dispatching cs \<in> set (css ! j)"
    and "has_change (Dispatching cs)"
  shows "lk_threads s ! j \<noteq> []"
proof -
  have all: "\<forall>cs \<in> set css. prog True 0 (concat (map actions cs))" using prog_calls by blast
  from assms(1) have "stuck_thread s j"
  proof (induction rule: rtranclp_induct)
    case base
    from stuck_start [OF assms(2,3,4)] show ?case by simp
  next
    case (step s s')
    from lock_inv_reach [OF step(1) all] obtain ds where "rw_inv True s ds" "length ds = length css" by blast
    with stuck_step [OF step(2)] assms(2) step(3) show ?case by metis
  qed
  then show ?thesis by (auto simp: stuck_thread_def)
qed

text \<open>
  a dispatch within a dispatch can stop the bus for good: when a change of the handlers is
  announced between the two, each waits for the other.
\<close>

theorem nested_dispatch_deadlocks:
  "\<exists>s. lock_step\<^sup>*\<^sup>* (lock_start [[Dispatching [Dispatching []]], [Changing]]) s \<and> \<not> all_returned s \<and> (\<nexists>s'. lock_step s s')"
proof -
  let ?s0 = "lock_start [[Dispatching [Dispatching []]], [Changing]]"
  let ?s1 = "?s0\<lparr>lk_readers := 1, lk_threads := [[ARLock, ARUnlock, ARUnlock], [ALock, AUnlock]]\<rparr>"
  let ?s2 = "?s1\<lparr>lk_writer := Some 1\<rparr>"
  have "lock_step ?s0 ?s1" using read_lock [of 0 ?s0 "[ARLock, ARUnlock, ARUnlock]"] by (simp add: lock_start_def)
  moreover have "lock_step ?s1 ?s2" using announce [of 1 ?s1 "[AUnlock]"] by (simp add: lock_start_def)
  ultimately have "lock_step\<^sup>*\<^sup>* ?s0 ?s2" by (meson converse_rtranclp_into_rtranclp rtranclp.rtrancl_refl)
  moreover have "\<not> lock_step ?s2 s'" for s'
    by (auto simp: lock_start_def less_Suc_eq nth_Cons split: nat.splits elim!: lock_step.cases)
  moreover have "\<not> all_returned ?s2" by (simp add: all_returned_def)
  ultimately show ?thesis by blast
qed

theorem flat_calls_return_witness:
  "\<exists>s'. lock_step (lock_start [[Dispatching [], Changing], [Changing]]) s'"
proof -
  have flat: "\<forall>cs \<in> set [[Dispatching [], Changing], [Changing]]. \<forall>c \<in> set cs. flat_call c" by (simp add: flat_call_def)
  have "\<not> all_returned (lock_start [[Dispatching [], Changing], [Changing]])" by code_simp
  with flat_calls_return [OF rtranclp.rtrancl_refl flat] show ?thesis by blast
qed

theorem change_in_handler_never_returns_witness:
  "\<exists>s. lock_step (lock_start [[Dispatching [Dispatching [Changing]]]]) s \<and> lk_threads s ! 0 \<noteq> []"
proof -
  let ?s0 = "lock_start [[Dispatching [Dispatching [Changing]]]]"
  let ?s1 = "?s0\<lparr>lk_readers := 1, lk_threads := [[ARLock, ALock, AUnlock, ARUnlock, ARUnlock]]\<rparr>"
  have step: "lock_step ?s0 ?s1" using read_lock [of 0 ?s0 "[ARLock, ALock, AUnlock, ARUnlock, ARUnlock]"] by (simp add: lock_start_def)
  from change_in_handler_never_returns [OF r_into_rtranclp [of lock_step, OF step], of 0 "[Dispatching [Changing]]"] step
  show ?thesis by auto
qed

end
