(* ===== verification/AutoTrigger.thy ===== *)
theory AutoTrigger
  imports WfConvertProps EventBusFacts
begin

text \<open>
  \<^verbatim>\<open>automation/service/trigger.go\<close>: the registration of the triggers of workflows on the event bus.

  The tables of the store are lists. Labels, meta, scope and input are texts (\<^const>\<open>None\<close> for nil) that
  are only compared and copied. Addresses of handlers are allocated by an argument; logging,
  transactions and errors of the store are left out, lookups that find nothing are not.
\<close>

section \<open>Rows of the store\<close>

record wf_row =
  wr_id :: u64
  wr_handle :: string
  wr_labels :: "string option"
  wr_meta :: "string option"
  wr_enabled :: bool
  wr_trace :: bool
  wr_keep :: int
  wr_scope :: "string option"
  wr_steps :: "wf_step_def list"
  wr_paths :: "wf_path list"
  wr_issues :: "wf_issue list"
  wr_run_as :: u64
  wr_owner :: u64
  wr_created :: int
  wr_updated :: "int option"
  wr_deleted :: "int option"

record trigger_row =
  tr_id :: u64
  tr_enabled :: bool
  tr_workflow :: u64
  tr_step :: u64
  tr_resource :: string
  tr_event :: string
  tr_constraints :: "(string \<times> string \<times> string list) list"
  tr_input :: "string option"
  tr_labels :: "string option"
  tr_meta :: "string option"
  tr_owner :: u64
  tr_created :: int
  tr_updated :: "int option"
  tr_deleted :: "int option"

text \<open>
  The handler functions: the one for a workflow whose graph could not be built, the one that
  executes a workflow, and those of other services.
\<close>

datatype bus_fn = InvalidFn wf_row trigger_row | WorkflowFn wf_row trigger_row | OtherFn nat

record cache_item =
  ci_wf :: wf_row
  ci_graph :: "(graph \<times> conv_step list) option"
  ci_run_as :: "u64 option"

record auto_env =
  ae_conv :: conv_env
  ae_compile :: "string \<Rightarrow> string + (string \<Rightarrow> bool)"
  ae_register :: bool
  ae_user :: "u64 \<Rightarrow> string + bool"
  ae_alloc :: "bus_fn bus \<Rightarrow> nat"
  ae_can_create :: bool
  ae_can_update :: "wf_row \<Rightarrow> bool"
  ae_can_delete :: "wf_row \<Rightarrow> bool"
  ae_can_undelete :: "wf_row \<Rightarrow> bool"
  ae_can_triggers :: "wf_row \<Rightarrow> bool"
  ae_now :: int
  ae_caller :: u64
  ae_call_stack_size :: nat

record auto_state =
  au_workflows :: "wf_row list"
  au_triggers :: "trigger_row list"
  au_cache :: "u64 \<rightharpoonup> cache_item"
  au_index :: "string \<rightharpoonup> u64"
  au_reg :: "u64 \<rightharpoonup> (u64 \<times> nat) list"
  au_bus :: "bus_fn bus"

section \<open>Lookups\<close>

definition search_triggers :: "u64 list \<Rightarrow> bool \<Rightarrow> auto_state \<Rightarrow> trigger_row list" where
  "search_triggers ids deleted st =
     filter (\<lambda>t. (deleted \<or> tr_deleted t = None) \<and> tr_enabled t \<and> (0 < length ids \<longrightarrow> List.member ids (tr_workflow t)))
       (au_triggers st)"

definition filter_by_workflow :: "u64 \<Rightarrow> trigger_row list \<Rightarrow> trigger_row list" where
  "filter_by_workflow wid tt = filter (\<lambda>t. tr_workflow t = wid) tt"

definition load_workflow :: "u64 \<Rightarrow> auto_state \<Rightarrow> string + wf_row" where
  "load_workflow wid st =
     (if wid = 0 then Inl ''invalid ID''
      else case List.find (\<lambda>x. wr_id x = wid) (au_workflows st) of None \<Rightarrow> Inl ''not found'' | Some w \<Rightarrow> Inr w)"

definition load_trigger :: "u64 \<Rightarrow> auto_state \<Rightarrow> string + trigger_row" where
  "load_trigger tid st =
     (if tid = 0 then Inl ''invalid ID''
      else case List.find (\<lambda>t. tr_id t = tid) (au_triggers st) of None \<Rightarrow> Inl ''not found'' | Some t \<Rightarrow> Inr t)"

section \<open>Validation\<close>

definition convert :: "auto_env \<Rightarrow> wf_row \<Rightarrow> (graph \<times> conv_step list) option \<times> wf_issue list" where
  "convert env w =
     (case make_graph (ae_conv env) (wr_steps w) (wr_paths w) of
        Some (Inr g) \<Rightarrow> (Some g, []) | Some (Inl ii) \<Rightarrow> (None, ii) | None \<Rightarrow> (None, []))"

definition require_run_as :: "(string \<times> string) list" where
  "require_run_as =
     [(''system:sink'', ''onRequest''), (''system:queue'', ''onMessage''), (''system'', ''onInterval''),
      (''system'', ''onTimestamp''), (''compose'', ''onInterval''), (''compose'', ''onTimestamp'')]"

fun validate_triggers :: "wf_row \<Rightarrow> nat \<Rightarrow> trigger_row list \<Rightarrow> wf_issue list" where
  "validate_triggers w i [] = []"
| "validate_triggers w i (t # tt) =
     (if \<not> tr_enabled t \<or> tr_deleted t \<noteq> None then validate_triggers w (Suc i) tt
      else map (\<lambda>(r, e). issue (r @ '' for '' @ e @ '' requires run-as to be set'') [(''trigger'', i)])
             (filter (\<lambda>(r, e). tr_resource t = r \<and> tr_event t = e \<and> wr_run_as w = 0) require_run_as)
           @ validate_triggers w (Suc i) tt)"

definition run_as :: "auto_env \<Rightarrow> wf_row \<Rightarrow> string + u64 option" where
  "run_as env w =
     (if wr_run_as w = 0 then Inr None
      else case ae_user env (wr_run_as w) of
        Inl e \<Rightarrow> Inl (''failed to load run-as user '' @ format_uint (wr_run_as w) @ '': '' @ e)
      | Inr valid \<Rightarrow>
          if valid then Inr (Some (wr_run_as w))
          else Inl (''invalid user '' @ format_uint (wr_run_as w) @ '' used for workflow run-as''))"

section \<open>Registration\<close>

definition trigger_ops :: "auto_env \<Rightarrow> trigger_row \<Rightarrow> handler_op list" where
  "trigger_ops env t =
     [OpOn [tr_event t], OpFor [tr_resource t]] @
     List.map_filter (\<lambda>(n, op, vv). case constraint_maker (ae_compile env) n op vv of
        Inl e \<Rightarrow> None | Inr c \<Rightarrow> Some (OpConstraint c)) (tr_constraints t)"

definition registrable :: "wf_row \<Rightarrow> bool" where
  "registrable w \<longleftrightarrow> wr_enabled w \<and> wr_deleted w = None"

definition drop_registration :: "u64 \<Rightarrow> u64 \<Rightarrow> auto_state \<Rightarrow> auto_state" where
  "drop_registration wid tid st =
     (case au_reg st wid of
        None \<Rightarrow> st\<lparr>au_reg := (au_reg st)(wid \<mapsto> [])\<rparr>
      | Some m \<Rightarrow>
          (case map_of m tid of
             None \<Rightarrow> st
           | Some ptr \<Rightarrow> if ptr \<noteq> 0 then st\<lparr>au_bus := unregister [ptr] (au_bus st)\<rparr> else st))"

definition add_registration :: "auto_env \<Rightarrow> wf_row \<Rightarrow> bool \<Rightarrow> trigger_row \<Rightarrow> auto_state \<Rightarrow> auto_state" where
  "add_registration env w has_graph t st =
     (let ptr = ae_alloc env (au_bus st);
          fn = (if has_graph then WorkflowFn w t else InvalidFn w t);
          m = (case au_reg st (wr_id w) of None \<Rightarrow> [] | Some m \<Rightarrow> m)
      in st\<lparr>au_reg := (au_reg st)(wr_id w \<mapsto> AList.update (tr_id t) ptr m),
            au_bus := register ptr fn (trigger_ops env t) (au_bus st)\<rparr>)"

definition register_trigger :: "auto_env \<Rightarrow> wf_row \<Rightarrow> bool \<Rightarrow> auto_state \<Rightarrow> trigger_row \<Rightarrow> auto_state" where
  "register_trigger env w has_graph st t =
     (let st1 = drop_registration (wr_id w) (tr_id t) st in
      if \<not> registrable w \<or> \<not> tr_enabled t \<or> tr_deleted t \<noteq> None then st1
      else add_registration env w has_graph t st1)"

definition register_triggers :: "auto_env \<Rightarrow> wf_row \<Rightarrow> trigger_row list \<Rightarrow> auto_state \<Rightarrow> auto_state" where
  "register_triggers env w tt st =
     (let has_graph = (registrable w \<and> wr_issues w = [] \<and> snd (convert env w) = [])
      in foldl (register_trigger env w has_graph) st tt)"

definition register_workflow :: "auto_env \<Rightarrow> wf_row \<Rightarrow> trigger_row list \<Rightarrow> auto_state \<Rightarrow> string option \<times> auto_state" where
  "register_workflow env w tt st =
     (if \<not> ae_register env then (None, st)
      else if \<not> wr_enabled w \<or> 0 < length (wr_issues w) then (None, st)
      else if length (filter_by_workflow (wr_id w) tt) < length tt
      then (Some ''all triggers must reference the given workflow'', st)
      else if 0 < length (validate_triggers w 0 tt) then (None, st)
      else case run_as env w of
        Inl e \<Rightarrow> (Some e, st)
      | Inr _ \<Rightarrow> (None, register_triggers env w tt st))"

definition unregister_workflow :: "auto_state \<Rightarrow> wf_row \<Rightarrow> auto_state" where
  "unregister_workflow st w =
     (let m = (case au_reg st (wr_id w) of None \<Rightarrow> [] | Some m \<Rightarrow> m)
      in st\<lparr>au_bus := foldl (\<lambda>b p. unregister [p] b) (au_bus st) (map snd m), au_reg := (au_reg st)(wr_id w := None)\<rparr>)"

definition unregister_workflows :: "wf_row list \<Rightarrow> auto_state \<Rightarrow> auto_state" where
  "unregister_workflows wwf st = foldl unregister_workflow st wwf"

fun unregister_triggers :: "trigger_row list \<Rightarrow> auto_state \<Rightarrow> auto_state" where
  "unregister_triggers [] st = st"
| "unregister_triggers (t # tt) st =
     (case au_reg st (tr_workflow t) of
        None \<Rightarrow> st
      | Some m \<Rightarrow>
          (case map_of m (tr_id t) of
             None \<Rightarrow> unregister_triggers tt st
           | Some ptr \<Rightarrow> unregister_triggers tt (st\<lparr>au_bus := unregister [ptr] (au_bus st)\<rparr>)))"

fun register_workflows_loop ::
  "auto_env \<Rightarrow> trigger_row list \<Rightarrow> wf_row list \<Rightarrow> auto_state \<Rightarrow> string option \<times> auto_state" where
  "register_workflows_loop env tt [] st = (None, st)"
| "register_workflows_loop env tt (w # wwf) st =
     (let st1 = unregister_workflow st w in
      if \<not> wr_enabled w then register_workflows_loop env tt wwf st1
      else if wr_deleted w \<noteq> None then register_workflows_loop env tt wwf st1
      else if 0 < length (wr_issues w) then register_workflows_loop env tt wwf st1
      else case register_workflow env w (filter_by_workflow (wr_id w) tt) st1 of
        (Some e, st2) \<Rightarrow> (Some e, st2)
      | (None, st2) \<Rightarrow> register_workflows_loop env tt wwf st2)"

definition register_workflows :: "auto_env \<Rightarrow> wf_row list \<Rightarrow> auto_state \<Rightarrow> string option \<times> auto_state" where
  "register_workflows env wwf st =
     register_workflows_loop env (search_triggers (map wr_id wwf) True st) wwf st"

definition update_trigger_registration :: "auto_env \<Rightarrow> trigger_row \<Rightarrow> auto_state \<Rightarrow> string option \<times> auto_state" where
  "update_trigger_registration env t st =
     (case load_workflow (tr_workflow t) st of Inl e \<Rightarrow> (Some e, st) | Inr w \<Rightarrow> register_workflow env w [t] st)"

end
