(* ===== verification/Handle.thy ===== *)
theory Handle
  imports Prelude
begin

text \<open>
  \<^verbatim>\<open>pkg/handle/handle.go\<close>: the identifiers users give to resources, that is the texts of the regular
  expression there, and the empty one.
\<close>

definition handle_letter :: "char \<Rightarrow> bool" where
  "handle_letter c \<longleftrightarrow>
     (let n = (of_char c :: nat) in 65 \<le> n \<and> n \<le> 90 \<or> 97 \<le> n \<and> n \<le> 122)"

definition handle_digit :: "char \<Rightarrow> bool" where
  "handle_digit c \<longleftrightarrow> 48 \<le> (of_char c :: nat) \<and> (of_char c :: nat) \<le> 57"

definition valid_handle :: "string \<Rightarrow> bool" where
  "valid_handle s \<longleftrightarrow>
     s = [] \<or>
     2 \<le> length s \<and> handle_letter (hd s) \<and> (handle_letter (last s) \<or> handle_digit (last s)) \<and>
     list_all (\<lambda>c. handle_letter c \<or> handle_digit c \<or> List.member [CHR ''_'', CHR ''-'', CHR ''.''] c) (butlast (tl s))"

end
