(* ===== verification/AutoWorkflow.thy ===== *)
theory AutoWorkflow
  imports AutoTrigger Handle
begin

text \<open>
  \<^verbatim>\<open>automation/service/workflow.go\<close> and the changes of \<^verbatim>\<open>trigger.go\<close>: creating, changing, deleting
  and loading workflows and triggers, the cache of graphs, and the execution of a workflow up to
  the start of its session.

  An operation returns an error or a row, and the state of the service. The store is rolled back on
  errors, the cache and the event bus are not; a row that was not saved is dropped with the error.
\<close>

section \<open>Stale data\<close>

definition is_stale_row :: "int option \<Rightarrow> int option \<Rightarrow> int \<Rightarrow> bool" where
  "is_stale_row new updated created =
     (case new of
        None \<Rightarrow> False
      | Some n \<Rightarrow> (case updated of Some u \<Rightarrow> n \<noteq> u | None \<Rightarrow> n = created))"

section \<open>Changes of workflows\<close>

text \<open>What a request may change; \<^const>\<open>None\<close> where the code tests for nil.\<close>

record wf_update =
  wu_handle :: string
  wu_enabled :: bool
  wu_labels :: "string option"
  wu_trace :: bool
  wu_keep :: int
  wu_meta :: "string option"
  wu_scope :: "string option"
  wu_steps :: "wf_step_def list option"
  wu_paths :: "wf_path list option"
  wu_run_as :: u64
  wu_owner :: u64
  wu_updated :: "int option"

record wf_changes =
  wc_changed :: bool
  wc_labels :: bool
  wc_def :: bool

definition unique_check :: "string \<Rightarrow> u64 \<Rightarrow> auto_state \<Rightarrow> string option" where
  "unique_check h wid st =
     (if h = [] then None
      else case List.find (\<lambda>x. to_lower (wr_handle x) = to_lower h \<and> wr_deleted x = None) (au_workflows st) of
        None \<Rightarrow> None
      | Some e \<Rightarrow> if wr_id e \<noteq> wid then Some ''handle not unique'' else None)"

definition differs :: "'a option \<Rightarrow> 'a option \<Rightarrow> bool" where
  "differs upd res \<longleftrightarrow> upd \<noteq> None \<and> upd \<noteq> res"

definition keep_or :: "'a option \<Rightarrow> 'a \<Rightarrow> 'a" where
  "keep_or upd old = (case upd of None \<Rightarrow> old | Some x \<Rightarrow> x)"

definition wf_definition_changed :: "wf_update \<Rightarrow> wf_row \<Rightarrow> bool" where
  "wf_definition_changed u r \<longleftrightarrow>
     wr_enabled r \<noteq> wu_enabled u \<or> wr_trace r \<noteq> wu_trace u \<or> wr_keep r \<noteq> wu_keep u \<or>
     differs (wu_scope u) (wr_scope r) \<or> differs (wu_steps u) (Some (wr_steps r)) \<or>
     differs (wu_paths u) (Some (wr_paths r)) \<or> wr_run_as r \<noteq> wu_run_as u"

definition apply_wf_update :: "auto_env \<Rightarrow> wf_update \<Rightarrow> wf_row \<Rightarrow> wf_row \<times> wf_changes" where
  "apply_wf_update env u r =
     (let d = wf_definition_changed u r;
          c = (d \<or> wr_handle r \<noteq> wu_handle u \<or> differs (wu_meta u) (wr_meta r) \<or> wr_owner r \<noteq> wu_owner u)
      in (r\<lparr>wr_handle := wu_handle u, wr_enabled := wu_enabled u,
            wr_labels := (if wu_labels u \<noteq> None then wu_labels u else wr_labels r),
            wr_trace := wu_trace u, wr_keep := wu_keep u,
            wr_meta := (if wu_meta u \<noteq> None then wu_meta u else wr_meta r),
            wr_scope := (if wu_scope u \<noteq> None then wu_scope u else wr_scope r),
            wr_steps := keep_or (wu_steps u) (wr_steps r), wr_paths := keep_or (wu_paths u) (wr_paths r),
            wr_run_as := wu_run_as u, wr_owner := wu_owner u,
            wr_updated := (if c then Some (ae_now env) else wr_updated r)\<rparr>,
          \<lparr>wc_changed = c, wc_labels = differs (wu_labels u) (wr_labels r), wc_def = d\<rparr>))"

type_synonym wf_handler = "auto_state \<Rightarrow> wf_row \<Rightarrow> string + wf_row \<times> wf_changes"

definition no_changes :: wf_changes where
  "no_changes = \<lparr>wc_changed = False, wc_labels = False, wc_def = False\<rparr>"

definition wf_handle_update :: "auto_env \<Rightarrow> u64 \<Rightarrow> wf_update \<Rightarrow> wf_handler" where
  "wf_handle_update env wid u st r =
     (if \<not> ae_can_update env r then Inl ''not allowed to update''
      else if is_stale_row (wu_updated u) (wr_updated r) (wr_created r) then Inl ''stale data''
      else if wu_handle u \<noteq> wr_handle r \<and> \<not> valid_handle (wu_handle u) then Inl ''invalid handle''
      else case unique_check (wu_handle u) wid st of
        Some e \<Rightarrow> Inl e
      | None \<Rightarrow> Inr (apply_wf_update env u r))"

definition wf_handle_delete :: "auto_env \<Rightarrow> wf_handler" where
  "wf_handle_delete env st r =
     (if \<not> ae_can_delete env r then Inl ''not allowed to delete''
      else if wr_deleted r \<noteq> None then Inr (r, no_changes)
      else Inr (r\<lparr>wr_deleted := Some (ae_now env)\<rparr>, no_changes\<lparr>wc_changed := True\<rparr>))"

definition wf_handle_undelete :: "auto_env \<Rightarrow> wf_handler" where
  "wf_handle_undelete env st r =
     (if \<not> ae_can_undelete env r then Inl ''not allowed to undelete''
      else if wr_deleted r = None then Inr (r, no_changes)
      else Inr (r\<lparr>wr_deleted := None\<rparr>, no_changes\<lparr>wc_changed := True\<rparr>))"

section \<open>Validation and the cache\<close>

text \<open>The graph, the run-as user and the row with its issues; an error if the user cannot be loaded.\<close>

definition validate_workflow ::
  "auto_env \<Rightarrow> auto_state \<Rightarrow> wf_row \<Rightarrow> string option \<times> wf_row \<times> (graph \<times> conv_step list) option \<times> u64 option" where
  "validate_workflow env st w =
     (case convert env w of (g, ii) \<Rightarrow>
        let ii1 = ii @ validate_triggers w 0 (search_triggers [wr_id w] False st) in
        case run_as env w of
          Inr u \<Rightarrow> (None, w\<lparr>wr_issues := ii1\<rparr>, g, u)
        | Inl e \<Rightarrow>
            (case ae_user env (wr_run_as w) of Inl e' \<Rightarrow> Some e' | Inr _ \<Rightarrow> None,
             w\<lparr>wr_issues := ii1 @ [issue e []]\<rparr>, g, Some (wr_run_as w)))"

definition executable :: "wf_row \<Rightarrow> bool" where
  "executable w \<longleftrightarrow> wr_deleted w = None \<and> wr_enabled w"

definition update_cache :: "wf_row \<Rightarrow> (graph \<times> conv_step list) option \<Rightarrow> u64 option \<Rightarrow> auto_state \<Rightarrow> auto_state" where
  "update_cache w g u st =
     st\<lparr>au_cache := (au_cache st)(wr_id w :=
          (if executable w then Some \<lparr>ci_wf = w, ci_graph = g, ci_run_as = u\<rparr> else None))\<rparr>"

definition save_workflow :: "wf_row \<Rightarrow> auto_state \<Rightarrow> auto_state" where
  "save_workflow w st = st\<lparr>au_workflows := map (\<lambda>x. if wr_id x = wr_id w then w else x) (au_workflows st)\<rparr>"

definition save_labels :: "wf_row \<Rightarrow> auto_state \<Rightarrow> auto_state" where
  "save_labels w st =
     st\<lparr>au_workflows := map (\<lambda>x. if wr_id x = wr_id w then x\<lparr>wr_labels := wr_labels w\<rparr> else x) (au_workflows st)\<rparr>"

section \<open>Operations on workflows\<close>

type_synonym 'r auto_result = "(string + 'r) \<times> auto_state"

definition wf_register :: "auto_env \<Rightarrow> wf_row \<Rightarrow> auto_state \<Rightarrow> string option \<times> auto_state" where
  "wf_register env w st = (if wr_issues w = [] then register_workflows env [w] st else (None, st))"

definition wf_updater :: "auto_env \<Rightarrow> u64 \<Rightarrow> wf_handler \<Rightarrow> auto_state \<Rightarrow> wf_row auto_result" where
  "wf_updater env wid fn st =
     (case load_workflow wid st of
        Inl e \<Rightarrow> (Inl e, st)
      | Inr r \<Rightarrow>
          (case fn st r of
             Inl e \<Rightarrow> (Inl e, st)
           | Inr (r1, ch) \<Rightarrow>
               (case validate_workflow env st r1 of
                  (Some e, _) \<Rightarrow> (Inl e, st)
                | (None, r2, g, u) \<Rightarrow>
                    (case wf_register env r2 (update_cache r2 g u st) of
                       (Some e, st2) \<Rightarrow> (Inl e, st2)
                     | (None, st2) \<Rightarrow>
                         let st3 = (if wc_changed ch \<or> 0 < length (wr_issues r2) then save_workflow r2 st2 else st2)
                         in (Inr r2, if wc_labels ch then save_labels r2 st3 else st3)))))"

definition wf_change :: "auto_env \<Rightarrow> u64 \<Rightarrow> wf_update \<Rightarrow> auto_state \<Rightarrow> wf_row auto_result" where
  "wf_change env wid u st = wf_updater env wid (wf_handle_update env wid u) st"

definition wf_delete :: "auto_env \<Rightarrow> u64 \<Rightarrow> auto_state \<Rightarrow> wf_row auto_result" where
  "wf_delete env wid st = wf_updater env wid (wf_handle_delete env) st"

definition wf_undelete :: "auto_env \<Rightarrow> u64 \<Rightarrow> auto_state \<Rightarrow> wf_row auto_result" where
  "wf_undelete env wid st = wf_updater env wid (wf_handle_undelete env) st"

definition wf_create :: "auto_env \<Rightarrow> u64 \<Rightarrow> wf_row \<Rightarrow> auto_state \<Rightarrow> wf_row auto_result" where
  "wf_create env next_id new st =
     (if \<not> ae_can_create env then (Inl ''not allowed to create'', st)
      else if \<not> valid_handle (wr_handle new) then (Inl ''invalid handle'', st)
      else case unique_check (wr_handle new) (wr_id new) st of
        Some e \<Rightarrow> (Inl e, st)
      | None \<Rightarrow>
          let r = new\<lparr>wr_id := next_id, wr_issues := [], wr_owner := ae_caller env, wr_created := ae_now env,
                     wr_updated := None, wr_deleted := None\<rparr> in
          (case validate_workflow env st r of
             (Some e, _) \<Rightarrow> (Inl e, st)
           | (None, r1, g, u) \<Rightarrow>
               (case wf_register env r1 (update_cache r1 g u st) of
                  (Some e, st2) \<Rightarrow> (Inl e, st2)
                | (None, st2) \<Rightarrow> (Inr r1, st2\<lparr>au_workflows := au_workflows st2 @ [r1]\<rparr>))))"

fun load_loop :: "auto_env \<Rightarrow> wf_row list \<Rightarrow> auto_state \<Rightarrow> wf_row list \<times> auto_state" where
  "load_loop env [] st = ([], st)"
| "load_loop env (w # ws) st =
     (let st1 = st\<lparr>au_index := (au_index st)(wr_handle w \<mapsto> wr_id w)\<rparr> in
      case validate_workflow env st w of
        (e, w1, g, u) \<Rightarrow>
          (case load_loop env ws (if e = None then update_cache w1 g u st1 else st1) of (ws1, st2) \<Rightarrow> (w1 # ws1, st2)))"

definition wf_load :: "auto_env \<Rightarrow> auto_state \<Rightarrow> string option \<times> auto_state" where
  "wf_load env st =
     (case load_loop env (filter wr_enabled (au_workflows st)) st of (ws, st1) \<Rightarrow> register_workflows env ws st1)"

section \<open>Operations on triggers\<close>

record trigger_update =
  tu_enabled :: bool
  tu_labels :: "string option"
  tu_step :: u64
  tu_event :: string
  tu_resource :: string
  tu_meta :: "string option"
  tu_input :: "string option"
  tu_constraints :: "(string \<times> string \<times> string list) list option"
  tu_owner :: u64
  tu_updated :: "int option"

type_synonym trigger_handler = "auto_state \<Rightarrow> trigger_row \<Rightarrow> string + trigger_row \<times> bool \<times> bool"

definition can_manage_trigger :: "auto_env \<Rightarrow> trigger_row \<Rightarrow> string \<Rightarrow> auto_state \<Rightarrow> string option" where
  "can_manage_trigger env t err st =
     (case load_workflow (tr_workflow t) st of
        Inl e \<Rightarrow> Some e | Inr w \<Rightarrow> if \<not> ae_can_triggers env w then Some err else None)"

definition apply_trigger_update :: "auto_env \<Rightarrow> trigger_update \<Rightarrow> trigger_row \<Rightarrow> trigger_row \<times> bool \<times> bool" where
  "apply_trigger_update env u t =
     (let c = (tr_enabled t \<noteq> tu_enabled u \<or> tr_step t \<noteq> tu_step u \<or> tr_event t \<noteq> tu_event u \<or>
               tr_resource t \<noteq> tu_resource u \<or> differs (tu_meta u) (tr_meta t) \<or> differs (tu_input u) (tr_input t) \<or>
               differs (tu_constraints u) (Some (tr_constraints t)) \<or> tr_owner t \<noteq> tu_owner u)
      in (t\<lparr>tr_enabled := tu_enabled u, tr_labels := (if tu_labels u \<noteq> None then tu_labels u else tr_labels t),
            tr_step := tu_step u, tr_event := tu_event u, tr_resource := tu_resource u,
            tr_meta := (if tu_meta u \<noteq> None then tu_meta u else tr_meta t),
            tr_input := (if tu_input u \<noteq> None then tu_input u else tr_input t),
            tr_constraints := keep_or (tu_constraints u) (tr_constraints t), tr_owner := tu_owner u,
            tr_updated := (if c then Some (ae_now env) else tr_updated t)\<rparr>,
          c, differs (tu_labels u) (tr_labels t)))"

definition trigger_handle_update :: "auto_env \<Rightarrow> trigger_update \<Rightarrow> trigger_handler" where
  "trigger_handle_update env u st t =
     (case can_manage_trigger env t ''not allowed to update'' st of
        Some e \<Rightarrow> Inl e
      | None \<Rightarrow>
          if is_stale_row (tu_updated u) (tr_updated t) (tr_created t) then Inl ''stale data''
          else Inr (apply_trigger_update env u t))"

definition trigger_handle_delete :: "auto_env \<Rightarrow> trigger_handler" where
  "trigger_handle_delete env st t =
     (case can_manage_trigger env t ''not allowed to delete'' st of
        Some e \<Rightarrow> Inl e
      | None \<Rightarrow>
          if tr_deleted t \<noteq> None then Inr (t, False, False)
          else Inr (t\<lparr>tr_deleted := Some (ae_now env)\<rparr>, True, False))"

definition trigger_handle_undelete :: "auto_env \<Rightarrow> trigger_handler" where
  "trigger_handle_undelete env st t =
     (case can_manage_trigger env t ''not allowed to undelete'' st of
        Some e \<Rightarrow> Inl e
      | None \<Rightarrow> if tr_deleted t = None then Inr (t, False, False) else Inr (t\<lparr>tr_deleted := None\<rparr>, True, False))"

definition save_trigger :: "trigger_row \<Rightarrow> auto_state \<Rightarrow> auto_state" where
  "save_trigger t st = st\<lparr>au_triggers := map (\<lambda>x. if tr_id x = tr_id t then t else x) (au_triggers st)\<rparr>"

definition save_trigger_labels :: "trigger_row \<Rightarrow> auto_state \<Rightarrow> auto_state" where
  "save_trigger_labels t st =
     st\<lparr>au_triggers := map (\<lambda>x. if tr_id x = tr_id t then x\<lparr>tr_labels := tr_labels t\<rparr> else x) (au_triggers st)\<rparr>"

definition trigger_updater :: "u64 \<Rightarrow> trigger_handler \<Rightarrow> auto_state \<Rightarrow> trigger_row auto_result" where
  "trigger_updater tid fn st =
     (case load_trigger tid st of
        Inl e \<Rightarrow> (Inl e, st)
      | Inr t \<Rightarrow>
          (case fn st t of
             Inl e \<Rightarrow> (Inl e, st)
           | Inr (t1, changed, labels) \<Rightarrow>
               let st1 = (if changed then save_trigger t1 st else st)
               in (Inr t1, if labels then save_trigger_labels t1 st1 else st1)))"

definition trigger_change :: "auto_env \<Rightarrow> u64 \<Rightarrow> trigger_update \<Rightarrow> auto_state \<Rightarrow> trigger_row auto_result" where
  "trigger_change env tid u st = trigger_updater tid (trigger_handle_update env u) st"

definition trigger_delete :: "auto_env \<Rightarrow> u64 \<Rightarrow> auto_state \<Rightarrow> trigger_row auto_result" where
  "trigger_delete env tid st = trigger_updater tid (trigger_handle_delete env) st"

definition trigger_undelete :: "auto_env \<Rightarrow> u64 \<Rightarrow> auto_state \<Rightarrow> trigger_row auto_result" where
  "trigger_undelete env tid st = trigger_updater tid (trigger_handle_undelete env) st"

text \<open>An error of the registration rolls the new row back; issues are no errors here.\<close>

definition trigger_create :: "auto_env \<Rightarrow> u64 \<Rightarrow> trigger_row \<Rightarrow> auto_state \<Rightarrow> trigger_row auto_result" where
  "trigger_create env next_id new st =
     (case load_workflow (tr_workflow new) st of
        Inl e \<Rightarrow> (Inl e, st)
      | Inr w \<Rightarrow>
          if \<not> ae_can_triggers env w then (Inl ''not allowed to create'', st)
          else
            let t = new\<lparr>tr_id := next_id, tr_owner := ae_caller env, tr_created := ae_now env, tr_updated := None, tr_deleted := None\<rparr> in
            (case register_workflow env w [t] st of
               (Some e, st1) \<Rightarrow> (Inl e, st1)
             | (None, st1) \<Rightarrow> (Inr t, st1\<lparr>au_triggers := au_triggers st1 @ [t]\<rparr>)))"

end
