(* ===== verification/AutoFacts.thy ===== *)
theory AutoFacts
  imports AutoWorkflow
begin

text \<open>
  The registrations of the trigger service against the handlers on the event bus: an invariant of
  all operations, and the handlers of a workflow after it was saved.
\<close>

section \<open>Owners of handlers\<close>

fun owner :: "bus_fn \<Rightarrow> (u64 \<times> u64) option" where
  "owner (InvalidFn w t) = Some (wr_id w, tr_id t)"
| "owner (WorkflowFn w t) = Some (wr_id w, tr_id t)"
| "owner (OtherFn n) = None"

definition reg_lookup :: "auto_state \<Rightarrow> u64 \<Rightarrow> u64 \<Rightarrow> nat option" where
  "reg_lookup st wid tid = (case au_reg st wid of None \<Rightarrow> None | Some m \<Rightarrow> map_of m tid)"

definition alloc_ok :: "auto_env \<Rightarrow> bool" where
  "alloc_ok env \<longleftrightarrow> (\<forall>b. finite (dom b) \<longrightarrow> ae_alloc env b \<notin> dom b \<and> ae_alloc env b \<noteq> 0)"

definition reg_ok :: "auto_state \<Rightarrow> bool" where
  "reg_ok st \<longleftrightarrow>
     finite (dom (au_bus st)) \<and> au_bus st 0 = None \<and>
     (\<forall>wid m. au_reg st wid = Some m \<longrightarrow> distinct (map fst m)) \<and>
     (\<forall>wid tid p. reg_lookup st wid tid = Some p \<longleftrightarrow>
        (\<exists>h. au_bus st p = Some h \<and> owner (h_fn h) = Some (wid, tid)))"

lemma reg_okD:
  "reg_ok st \<Longrightarrow> reg_lookup st wid tid = Some p \<longleftrightarrow> (\<exists>h. au_bus st p = Some h \<and> owner (h_fn h) = Some (wid, tid))"
  by (simp add: reg_ok_def)

definition handlers_of :: "u64 \<Rightarrow> auto_state \<Rightarrow> bus_fn handler set" where
  "handlers_of wid st = {h. \<exists>p tid. au_bus st p = Some h \<and> owner (h_fn h) = Some (wid, tid)}"

lemma new_handler_fn [simp]: "h_fn (new_handler f ops) = f"
proof -
  have "h_fn (foldl (\<lambda>t op. apply_op op t) t ops) = h_fn t" for t :: "'a handler"
  proof (induction ops arbitrary: t)
    case (Cons op ops)
    then show ?case by (cases op) simp_all
  qed simp
  then show ?thesis by (simp add: new_handler_def)
qed

lemma unregister_each:
  "foldl (\<lambda>b p. unregister [p] b) b ps = (\<lambda>p. if p \<in> set ps then None else b p)"
  by (induction ps arbitrary: b) (auto simp: unregister_def fun_eq_iff)

section \<open>Unregistering a workflow\<close>

lemma unregister_workflow_lookup:
  "reg_lookup (unregister_workflow st w) wid tid = (if wid = wr_id w then None else reg_lookup st wid tid)"
  by (simp add: unregister_workflow_def Let_def reg_lookup_def)

lemma unregister_workflow_bus:
  assumes "reg_ok st"
  shows "au_bus (unregister_workflow st w) p =
    (if \<exists>h tid. au_bus st p = Some h \<and> owner (h_fn h) = Some (wr_id w, tid) then None else au_bus st p)"
proof -
  have "p \<in> set (map snd (case au_reg st (wr_id w) of None \<Rightarrow> [] | Some m \<Rightarrow> m)) \<longleftrightarrow> (\<exists>tid. reg_lookup st (wr_id w) tid = Some p)"
  proof (cases "au_reg st (wr_id w)")
    case (Some m)
    with assms have "distinct (map fst m)" by (simp add: reg_ok_def)
    then have "(tid, p) \<in> set m \<longleftrightarrow> map_of m tid = Some p" for tid by (metis map_of_eq_Some_iff)
    with Some show ?thesis by (force simp: reg_lookup_def)
  qed (simp add: reg_lookup_def)
  also have "\<dots> \<longleftrightarrow> (\<exists>h tid. au_bus st p = Some h \<and> owner (h_fn h) = Some (wr_id w, tid))"
    using reg_okD [OF assms, of "wr_id w"] by blast
  finally show ?thesis by (simp only: unregister_workflow_def Let_def unregister_each) simp
qed

lemma unregister_workflow_ok:
  assumes "reg_ok st"
  shows "reg_ok (unregister_workflow st w)"
proof -
  note bus = unregister_workflow_bus [OF assms, of w]
  have "dom (au_bus (unregister_workflow st w)) \<subseteq> dom (au_bus st)" by (auto simp: bus split: if_splits)
  with assms have "finite (dom (au_bus (unregister_workflow st w)))" by (metis finite_subset reg_ok_def)
  moreover have "au_bus (unregister_workflow st w) 0 = None" using assms by (simp add: bus reg_ok_def)
  moreover have "distinct (map fst m)" if "au_reg (unregister_workflow st w) wid = Some m" for wid m
    using that assms by (auto simp: unregister_workflow_def Let_def reg_ok_def split: if_splits)
  moreover have "reg_lookup (unregister_workflow st w) wid tid = Some p \<longleftrightarrow>
    (\<exists>h. au_bus (unregister_workflow st w) p = Some h \<and> owner (h_fn h) = Some (wid, tid))" for wid tid p
    using reg_okD [OF assms, of wid tid p] by (auto simp: unregister_workflow_lookup bus)
  ultimately show ?thesis by (simp add: reg_ok_def)
qed

lemma unregister_workflow_handlers:
  assumes "reg_ok st"
  shows "handlers_of wid (unregister_workflow st w) = (if wid = wr_id w then {} else handlers_of wid st)"
proof -
  have "au_bus (unregister_workflow st w) p = Some h \<and> owner (h_fn h) = Some (wid, tid) \<longleftrightarrow>
      wid \<noteq> wr_id w \<and> au_bus st p = Some h \<and> owner (h_fn h) = Some (wid, tid)" for p h tid
    by (auto simp: unregister_workflow_bus [OF assms])
  then show ?thesis by (simp add: handlers_of_def)
qed

lemma unregister_workflow_tables [simp]:
  "au_workflows (unregister_workflow st w) = au_workflows st" "au_triggers (unregister_workflow st w) = au_triggers st"
  "au_cache (unregister_workflow st w) = au_cache st"
  by (simp_all add: unregister_workflow_def Let_def)

section \<open>Registering triggers\<close>

definition live_trigger :: "trigger_row \<Rightarrow> bool" where
  "live_trigger t \<longleftrightarrow> tr_enabled t \<and> tr_deleted t = None"

definition registration_of :: "auto_env \<Rightarrow> wf_row \<Rightarrow> bool \<Rightarrow> trigger_row \<Rightarrow> bus_fn handler" where
  "registration_of env w has_graph t =
     new_handler (if has_graph then WorkflowFn w t else InvalidFn w t) (trigger_ops env t)"

lemma registration_owner [simp]: "owner (h_fn (registration_of env w g t)) = Some (wr_id w, tr_id t)"
  by (simp add: registration_of_def)

lemma drop_registration_new:
  assumes "reg_lookup st wid tid = None"
  shows "reg_lookup (drop_registration wid tid st) = reg_lookup st \<and> au_bus (drop_registration wid tid st) = au_bus st \<and>
    (\<forall>i m. au_reg (drop_registration wid tid st) i = Some m \<longrightarrow> m = [] \<or> au_reg st i = Some m)"
  using assms by (auto simp: drop_registration_def reg_lookup_def fun_eq_iff split: option.splits)

lemma drop_registration_tables [simp]:
  "au_workflows (drop_registration wid tid st) = au_workflows st" "au_triggers (drop_registration wid tid st) = au_triggers st"
  "au_cache (drop_registration wid tid st) = au_cache st"
  by (auto simp: drop_registration_def split: option.splits)

lemma drop_registration_ok:
  assumes ok: "reg_ok st" and new: "reg_lookup st wid tid = None"
  shows "reg_ok (drop_registration wid tid st) \<and> handlers_of i (drop_registration wid tid st) = handlers_of i st"
proof -
  from drop_registration_new [OF new] have eq: "reg_lookup (drop_registration wid tid st) = reg_lookup st"
    "au_bus (drop_registration wid tid st) = au_bus st"
    and m: "\<And>i m. au_reg (drop_registration wid tid st) i = Some m \<Longrightarrow> m = [] \<or> au_reg st i = Some m" by blast+
  from m ok have "distinct (map fst m')" if "au_reg (drop_registration wid tid st) i = Some m'" for i m'
    using that by (fastforce simp: reg_ok_def)
  with ok show ?thesis by (simp add: reg_ok_def eq handlers_of_def)
qed

lemma add_registration_lookup:
  "reg_lookup (add_registration env w g t st) wid tid =
     (if wid = wr_id w \<and> tid = tr_id t then Some (ae_alloc env (au_bus st)) else reg_lookup st wid tid)"
  by (auto simp: add_registration_def Let_def reg_lookup_def update_conv' split: option.splits)

lemma add_registration_bus:
  "au_bus (add_registration env w g t st) = (au_bus st)(ae_alloc env (au_bus st) \<mapsto> registration_of env w g t)"
  by (simp add: add_registration_def Let_def register_def registration_of_def)

lemma add_registration_tables [simp]:
  "au_workflows (add_registration env w g t st) = au_workflows st" "au_triggers (add_registration env w g t st) = au_triggers st"
  "au_cache (add_registration env w g t st) = au_cache st"
  by (simp_all add: add_registration_def Let_def)

lemma add_registration_ok:
  assumes ok: "reg_ok st" and env: "alloc_ok env" and new: "reg_lookup st (wr_id w) (tr_id t) = None"
  shows "reg_ok (add_registration env w g t st) \<and>
    handlers_of wid (add_registration env w g t st) =
      handlers_of wid st \<union> (if wid = wr_id w then {registration_of env w g t} else {})"
proof -
  let ?p = "ae_alloc env (au_bus st)"
  from ok env have p: "?p \<notin> dom (au_bus st)" "?p \<noteq> 0" "finite (dom (au_bus st))" by (simp_all add: alloc_ok_def reg_ok_def)
  have iff: "reg_lookup (add_registration env w g t st) i j = Some q \<longleftrightarrow>
      (\<exists>h. au_bus (add_registration env w g t st) q = Some h \<and> owner (h_fn h) = Some (i, j))" for i j q
    using reg_okD [OF ok, of i j q] p(1) new by (auto simp: add_registration_lookup add_registration_bus)
  moreover have "distinct (map fst m)" if "au_reg (add_registration env w g t st) i = Some m" for i m
    using that ok by (auto simp: add_registration_def Let_def reg_ok_def distinct_update split: if_splits option.splits)
  ultimately have "reg_ok (add_registration env w g t st)"
    using p ok by (simp add: reg_ok_def add_registration_bus)
  moreover have "handlers_of wid (add_registration env w g t st) =
      handlers_of wid st \<union> (if wid = wr_id w then {registration_of env w g t} else {})"
  proof -
    have "au_bus (add_registration env w g t st) q = Some h \<and> owner (h_fn h) = Some (wid, tid) \<longleftrightarrow>
        q = ?p \<and> h = registration_of env w g t \<and> wid = wr_id w \<and> tid = tr_id t \<or>
        au_bus st q = Some h \<and> owner (h_fn h) = Some (wid, tid)" for q h tid
      using p(1) by (auto simp: add_registration_bus)
    then show ?thesis by (auto simp: handlers_of_def)
  qed
  ultimately show ?thesis by blast
qed

lemma register_trigger_ok:
  assumes ok: "reg_ok st" and env: "alloc_ok env" and new: "reg_lookup st (wr_id w) (tr_id t) = None"
  shows "reg_ok (register_trigger env w g st t) \<and>
    handlers_of i (register_trigger env w g st t) =
      handlers_of i st \<union> (if i = wr_id w \<and> registrable w \<and> live_trigger t then {registration_of env w g t} else {}) \<and>
    (\<forall>j. j \<noteq> tr_id t \<longrightarrow> reg_lookup (register_trigger env w g st t) i j = reg_lookup st i j)"
proof -
  let ?d = "drop_registration (wr_id w) (tr_id t) st"
  from drop_registration_new [OF new] have lk: "reg_lookup ?d = reg_lookup st" by blast
  from drop_registration_ok [OF ok new] have d: "reg_ok ?d" "\<And>i. handlers_of i ?d = handlers_of i st" by blast+
  show ?thesis
  proof (cases "registrable w \<and> live_trigger t")
    case True
    then have "register_trigger env w g st t = add_registration env w g t ?d"
      by (simp add: register_trigger_def live_trigger_def)
    with add_registration_ok [OF d(1) env] new True show ?thesis by (simp add: lk d(2) add_registration_lookup)
  next
    case False
    then have "register_trigger env w g st t = ?d" by (auto simp: register_trigger_def live_trigger_def)
    with d False show ?thesis by (auto simp: lk)
  qed
qed

lemma register_trigger_tables [simp]:
  "au_workflows (register_trigger env w g st t) = au_workflows st" "au_triggers (register_trigger env w g st t) = au_triggers st"
  "au_cache (register_trigger env w g st t) = au_cache st"
  by (simp_all add: register_trigger_def Let_def)

lemma register_fold_tables [simp]:
  "au_workflows (foldl (register_trigger env w g) st tt) = au_workflows st"
  "au_triggers (foldl (register_trigger env w g) st tt) = au_triggers st"
  "au_cache (foldl (register_trigger env w g) st tt) = au_cache st"
  by (induction tt arbitrary: st) simp_all

lemma register_fold_ok:
  assumes "reg_ok st" and "alloc_ok env" and "distinct (map tr_id tt)" and "\<forall>t \<in> set tt. reg_lookup st (wr_id w) (tr_id t) = None"
  shows "reg_ok (foldl (register_trigger env w g) st tt) \<and>
    handlers_of i (foldl (register_trigger env w g) st tt) =
      handlers_of i st \<union> (if i = wr_id w \<and> registrable w then registration_of env w g ` {t \<in> set tt. live_trigger t} else {})"
  using assms
proof (induction tt arbitrary: st)
  case (Cons t tt)
  let ?s = "register_trigger env w g st t"
  from Cons.prems have "reg_lookup st (wr_id w) (tr_id t) = None" by simp
  note one = register_trigger_ok [OF Cons.prems(1,2) this, of g]
  have "tr_id x \<noteq> tr_id t" if "x \<in> set tt" for x using Cons.prems(3) that by (auto simp: image_iff)
  with Cons.prems(4) one [of "wr_id w"] have "\<forall>t \<in> set tt. reg_lookup ?s (wr_id w) (tr_id t) = None" by auto
  with Cons.IH [of ?s] Cons.prems(2,3) one
  have "reg_ok (foldl (register_trigger env w g) ?s tt)"
    "handlers_of i (foldl (register_trigger env w g) ?s tt) =
       handlers_of i ?s \<union> (if i = wr_id w \<and> registrable w then registration_of env w g ` {t \<in> set tt. live_trigger t} else {})"
    by auto
  with one show ?case by auto
qed simp

section \<open>Registering workflows\<close>

text \<open>The graph the trigger service builds again to see that it can be built.\<close>

definition has_graph :: "auto_env \<Rightarrow> wf_row \<Rightarrow> bool" where
  "has_graph env w \<longleftrightarrow> registrable w \<and> wr_issues w = [] \<and> snd (convert env w) = []"

lemma register_triggers_fold: "register_triggers env w tt st = foldl (register_trigger env w (has_graph env w)) st tt"
  by (simp add: register_triggers_def has_graph_def)

definition registers :: "auto_env \<Rightarrow> wf_row \<Rightarrow> trigger_row list \<Rightarrow> bool" where
  "registers env w tt \<longleftrightarrow>
     ae_register env \<and> wr_enabled w \<and> wr_issues w = [] \<and> length tt \<le> length (filter_by_workflow (wr_id w) tt) \<and>
     validate_triggers w 0 tt = [] \<and> (\<exists>u. run_as env w = Inr u)"

lemma register_workflow_cases:
  "register_workflow env w tt st = (if registers env w tt then (None, register_triggers env w tt st)
     else (fst (register_workflow env w tt st), st))"
  by (auto simp: register_workflow_def registers_def split: sum.splits)

lemma register_workflow_error: "register_workflow env w tt st = (Some e, st1) \<Longrightarrow> st1 = st"
  by (auto simp: register_workflow_def split: if_splits sum.splits)

lemma register_workflow_tables [simp]:
  "au_workflows (snd (register_workflow env w tt st)) = au_workflows st"
  "au_triggers (snd (register_workflow env w tt st)) = au_triggers st"
  "au_cache (snd (register_workflow env w tt st)) = au_cache st"
  by (subst register_workflow_cases; simp add: register_triggers_fold)+

lemma register_workflow_ok:
  assumes "reg_ok st" and "alloc_ok env" and "distinct (map tr_id tt)" and "\<forall>t \<in> set tt. reg_lookup st (wr_id w) (tr_id t) = None"
  shows "reg_ok (snd (register_workflow env w tt st)) \<and>
    handlers_of i (snd (register_workflow env w tt st)) = handlers_of i st \<union>
      (if i = wr_id w \<and> registers env w tt \<and> registrable w
       then registration_of env w (has_graph env w) ` {t \<in> set tt. live_trigger t} else {})"
proof (cases "registers env w tt")
  case True
  then have "snd (register_workflow env w tt st) = foldl (register_trigger env w (has_graph env w)) st tt"
    by (subst register_workflow_cases) (simp add: register_triggers_fold)
  with register_fold_ok [OF assms, of "has_graph env w" i] True show ?thesis by simp
next
  case False
  then have "snd (register_workflow env w tt st) = st" by (subst register_workflow_cases) simp
  with assms(1) False show ?thesis by simp
qed

lemma filter_by_workflow_set: "set (filter_by_workflow i tt) = {t \<in> set tt. tr_workflow t = i}"
  by (simp add: filter_by_workflow_def)

text \<open>One workflow of \<open>registerWorkflows\<close>: its old handlers go, those of its triggers come.\<close>

definition workflow_handlers :: "auto_env \<Rightarrow> wf_row \<Rightarrow> trigger_row list \<Rightarrow> bus_fn handler set" where
  "workflow_handlers env w tt =
     (if registrable w \<and> registers env w (filter_by_workflow (wr_id w) tt)
      then registration_of env w (has_graph env w) ` {t \<in> set tt. tr_workflow t = wr_id w \<and> live_trigger t} else {})"

lemma register_one_ok:
  assumes ok: "reg_ok st" and env: "alloc_ok env" and dist: "distinct (map tr_id tt)"
  shows "\<exists>e st'. register_workflows_loop env tt (w # ws) st =
      (case e of None \<Rightarrow> register_workflows_loop env tt ws st' | Some _ \<Rightarrow> (e, st')) \<and> reg_ok st' \<and>
      (\<forall>i. handlers_of i st' = (if i = wr_id w then workflow_handlers env w tt else handlers_of i st)) \<and>
      au_workflows st' = au_workflows st \<and> au_triggers st' = au_triggers st \<and> au_cache st' = au_cache st"
proof -
  let ?u = "unregister_workflow st w" and ?f = "filter_by_workflow (wr_id w) tt"
  have u: "reg_ok ?u" "\<And>i. handlers_of i ?u = (if i = wr_id w then {} else handlers_of i st)"
    using unregister_workflow_ok [OF ok] unregister_workflow_handlers [OF ok] by blast+
  show ?thesis
  proof (cases "registrable w \<and> wr_issues w = []")
    case False
    then have "register_workflows_loop env tt (w # ws) st = register_workflows_loop env tt ws ?u"
      by (auto simp: registrable_def Let_def)
    moreover from False have "workflow_handlers env w tt = {}" by (auto simp: workflow_handlers_def registers_def)
    ultimately show ?thesis using u by (intro exI [of _ None] exI [of _ ?u]) simp
  next
    case True
    obtain e st' where reg: "register_workflow env w ?f ?u = (e, st')" by fastforce
    from dist have "distinct (map tr_id ?f)" by (auto simp: filter_by_workflow_def distinct_map inj_on_def)
    from register_workflow_ok [OF u(1) env this, of w] reg
    have r: "reg_ok st'" "\<And>i. handlers_of i st' = (if i = wr_id w then workflow_handlers env w tt else handlers_of i st)"
      using True u(2) by (auto simp: unregister_workflow_lookup workflow_handlers_def filter_by_workflow_set)
    from True reg have "register_workflows_loop env tt (w # ws) st =
        (case e of None \<Rightarrow> register_workflows_loop env tt ws st' | Some _ \<Rightarrow> (e, st'))"
      by (auto simp: registrable_def Let_def split: option.splits)
    moreover from register_workflow_tables [of env w ?f ?u] reg
    have "au_workflows st' = au_workflows st" "au_triggers st' = au_triggers st" "au_cache st' = au_cache st" by simp_all
    ultimately show ?thesis using r by (intro exI [of _ e] exI [of _ st']) simp
  qed
qed

lemma register_workflows_loop_ok:
  assumes "reg_ok st" and "alloc_ok env" and "distinct (map tr_id tt)"
  shows "reg_ok (snd (register_workflows_loop env tt ws st)) \<and>
    au_workflows (snd (register_workflows_loop env tt ws st)) = au_workflows st \<and>
    au_triggers (snd (register_workflows_loop env tt ws st)) = au_triggers st \<and>
    au_cache (snd (register_workflows_loop env tt ws st)) = au_cache st"
  using assms(1)
proof (induction ws arbitrary: st)
  case (Cons w ws)
  from register_one_ok [OF Cons.prems assms(2,3), of w ws] obtain e st' where
    "register_workflows_loop env tt (w # ws) st = (case e of None \<Rightarrow> register_workflows_loop env tt ws st' | Some _ \<Rightarrow> (e, st'))"
    "reg_ok st'" "au_workflows st' = au_workflows st" "au_triggers st' = au_triggers st" "au_cache st' = au_cache st" by blast
  with Cons.IH [of st'] show ?case by (cases e) simp_all
qed simp

end
