(* ===== verification/AutoExec.thy ===== *)
theory AutoExec
  imports AutoWorkflow
begin

text \<open>
  The execution of workflows up to the session: \<^verbatim>\<open>Exec\<close>, \<^verbatim>\<open>exec\<close> and \<^verbatim>\<open>makeWorkflowHandler\<close> of
  \<^verbatim>\<open>automation/service/workflow.go\<close>, and the checks of \<^verbatim>\<open>Start\<close> in \<^verbatim>\<open>session.go\<close>. What is started is a
  request with the step and the identities; the call stack is that of the caller's context.
\<close>

record exec_params =
  xp_step :: u64
  xp_event :: string
  xp_resource :: string
  xp_trace :: bool
  xp_async :: bool
  xp_wait :: bool

record session_request =
  sr_workflow :: u64
  sr_start :: step
  sr_runner :: u64
  sr_invoker :: u64
  sr_trace :: bool
  sr_call_stack :: "u64 list"
  sr_event :: string
  sr_resource :: string

text \<open>Who calls: the workflows that led to the call, and the user if there is one.\<close>

record exec_context =
  xc_call_stack :: "u64 list"
  xc_invoker :: "u64 option"

definition start_step :: "graph \<Rightarrow> u64 \<Rightarrow> string + step" where
  "start_step g sid =
     (if sid = 0
      then case orphans g of
          [x] \<Rightarrow> Inr x
        | [] \<Rightarrow> Inl ''could not find starting step''
        | _ \<Rightarrow> Inl ''cannot start workflow session multiple starting steps found''
      else if step_by_id g sid = None then Inl ''trigger staring step references non-existing step''
      else if 0 < length (g_parents g (step_by_id g sid)) then Inl ''cannot start workflow on a step with parents''
      else Inr (step_by_id g sid))"

definition session_start ::
  "auto_env \<Rightarrow> exec_context \<Rightarrow> graph option \<Rightarrow> wf_row \<Rightarrow> u64 option \<Rightarrow> exec_params \<Rightarrow> string + session_request" where
  "session_start env cx g w runner p =
     (case g of
        None \<Rightarrow> Inl ''cannot start workflow, uninitialized graph''
      | Some g \<Rightarrow>
          if ae_call_stack_size env < length (xc_call_stack cx) then Inl ''maximum call stack size exceeded''
          else case xc_invoker cx of
            None \<Rightarrow> Inl ''cannot start workflow without user''
          | Some i \<Rightarrow>
              (case start_step g (xp_step p) of
                 Inl e \<Rightarrow> Inl e
               | Inr s \<Rightarrow> Inr \<lparr>sr_workflow = wr_id w, sr_start = s, sr_runner = (case runner of None \<Rightarrow> i | Some r \<Rightarrow> r),
                     sr_invoker = i, sr_trace = (wr_trace w \<or> xp_trace p), sr_call_stack = xc_call_stack cx @ [wr_id w],
                     sr_event = xp_event p, sr_resource = xp_resource p\<rparr>))"

definition exec_workflow ::
  "auto_env \<Rightarrow> exec_context \<Rightarrow> auto_state \<Rightarrow> wf_row \<Rightarrow> exec_params \<Rightarrow> string + session_request" where
  "exec_workflow env cx st w p =
     (if wr_issues w \<noteq> [] then Inl ''workflow issues found''
      else case au_cache st (wr_id w) of
        None \<Rightarrow> Inl ''invalid ID''
      | Some c \<Rightarrow> session_start env cx (map_option fst (ci_graph c)) w (ci_run_as c) p)"

text \<open>What a handler of the trigger service starts.\<close>

definition handler_params :: "wf_row \<Rightarrow> trigger_row \<Rightarrow> exec_params" where
  "handler_params w t =
     \<lparr>xp_step = tr_step t, xp_event = tr_event t, xp_resource = tr_resource t, xp_trace = wr_trace w,
      xp_async = False, xp_wait = False\<rparr>"

fun run_handler :: "auto_env \<Rightarrow> exec_context \<Rightarrow> auto_state \<Rightarrow> bus_fn \<Rightarrow> string + session_request option" where
  "run_handler env cx st (WorkflowFn w t) =
     (case exec_workflow env cx st w (handler_params w t) of Inl e \<Rightarrow> Inl e | Inr r \<Rightarrow> Inr (Some r))"
| "run_handler env cx st (InvalidFn w t) =
     Inl (''trigger '' @ tr_event t @ '' on '' @ tr_resource t @ '' failed due to invalid workflow '' @ format_uint (wr_id w))"
| "run_handler env cx st (OtherFn n) = Inr None"

section \<open>Execution by identifier\<close>

definition pick_trigger :: "u64 \<Rightarrow> trigger_row list \<Rightarrow> trigger_row option" where
  "pick_trigger sid tt =
     (if sid = 0 \<and> 0 < length tt then Some (hd tt) else List.find (\<lambda>t. tr_step t = sid) tt)"

text \<open>Whether the call waits for the end of the session, and the session it started.\<close>

definition exec_by_id ::
  "auto_env \<Rightarrow> exec_context \<Rightarrow> (wf_row \<Rightarrow> bool) \<Rightarrow> u64 \<Rightarrow> exec_params \<Rightarrow> auto_state \<Rightarrow> string + bool \<times> session_request" where
  "exec_by_id env cx can_execute wid p st =
     (case au_cache st wid of
        None \<Rightarrow> Inl ''not found''
      | Some c \<Rightarrow>
          let w = ci_wf c in
          if \<not> can_execute w then Inl ''not allowed to execute''
          else if \<not> wr_enabled w \<and> \<not> xp_trace p then Inl ''disabled''
          else if wid = 0 then Inl ''invalid ID''
          else
            let t = pick_trigger (xp_step p) (search_triggers [wid] False st) in
            if \<not> xp_trace p \<and> t = None then Inl ''unknown workflow step''
            else if \<not> xp_trace p \<and> (case t of None \<Rightarrow> False | Some t \<Rightarrow> \<not> tr_enabled t) then Inl ''disabled''
            else
              let p1 = (case t of
                     Some t \<Rightarrow> p\<lparr>xp_step := tr_step t, xp_event := tr_event t, xp_resource := tr_resource t\<rparr>
                   | None \<Rightarrow> p\<lparr>xp_event := ''onTrace''\<rparr>) in
              (case exec_workflow env cx st w p1 of
                 Inl e \<Rightarrow> Inl e
               | Inr r \<Rightarrow> Inr (\<not> (\<not> xp_async p \<and> \<not> xp_wait p \<and> has_deferred (wr_steps w)), r)))"

end
