(* ===== verification/AutoProps.thy ===== *)
theory AutoProps
  imports AutoFacts AutoExec
begin

text \<open>
  The automation services as a whole: every operation keeps the registrations in step with the
  event bus; saving a sound workflow brings its handlers up to date; changes of triggers and
  workflows with issues leave the handlers behind.
\<close>

section \<open>The invariant\<close>

definition auto_ok :: "auto_state \<Rightarrow> bool" where
  "auto_ok st \<longleftrightarrow> reg_ok st \<and> distinct (map tr_id (au_triggers st)) \<and>
     (\<forall>i. \<forall>h \<in> handlers_of i st. snd (the (owner (h_fn h))) \<in> tr_id ` set (au_triggers st))"

lemma auto_ok_cong:
  "au_bus st = au_bus st' \<Longrightarrow> au_reg st = au_reg st' \<Longrightarrow> map tr_id (au_triggers st) = map tr_id (au_triggers st') \<Longrightarrow>
   auto_ok st \<longleftrightarrow> auto_ok st'"
  by (simp add: auto_ok_def reg_ok_def reg_lookup_def handlers_of_def flip: set_map)

lemma handlers_of_cong: "au_bus st = au_bus st' \<Longrightarrow> handlers_of i st = handlers_of i st'"
  by (simp add: handlers_of_def)

lemma workflow_handlers_tid:
  "h \<in> workflow_handlers env w tt \<Longrightarrow> snd (the (owner (h_fn h))) \<in> tr_id ` set tt"
  by (auto simp: workflow_handlers_def split: if_splits)

lemma loop_handlers_tid:
  assumes "reg_ok st" and "alloc_ok env" and "distinct (map tr_id tt)"
    and "\<forall>i. \<forall>h \<in> handlers_of i st. snd (the (owner (h_fn h))) \<in> S" and "tr_id ` set tt \<subseteq> S"
  shows "\<forall>i. \<forall>h \<in> handlers_of i (snd (register_workflows_loop env tt ws st)). snd (the (owner (h_fn h))) \<in> S"
  using assms(1,4)
proof (induction ws arbitrary: st)
  case (Cons w ws)
  from register_one_ok [OF Cons.prems(1) assms(2,3), of w ws] obtain e st' where st':
    "register_workflows_loop env tt (w # ws) st = (case e of None \<Rightarrow> register_workflows_loop env tt ws st' | Some _ \<Rightarrow> (e, st'))"
    "reg_ok st'" "\<forall>i. handlers_of i st' = (if i = wr_id w then workflow_handlers env w tt else handlers_of i st)" by blast
  have "snd (the (owner (h_fn h))) \<in> S" if h: "h \<in> handlers_of i st'" for i h
  proof (cases "i = wr_id w")
    case True
    with h st'(3) have "h \<in> workflow_handlers env w tt" by simp
    from workflow_handlers_tid [OF this] assms(5) show ?thesis by blast
  next
    case False
    with h st'(3) Cons.prems(2) show ?thesis by simp
  qed
  with Cons.IH [OF st'(2)] st'(1) show ?case by (cases e) simp_all
qed simp

lemma search_distinct: "distinct (map tr_id (au_triggers st)) \<Longrightarrow> distinct (map tr_id (search_triggers ids b st))"
  by (auto simp: search_triggers_def distinct_map inj_on_def)

lemma search_subset: "set (search_triggers ids b st) \<subseteq> set (au_triggers st)"
  by (auto simp: search_triggers_def)

lemma register_workflows_ok:
  assumes ok: "auto_ok st" and env: "alloc_ok env"
  shows "auto_ok (snd (register_workflows env ws st)) \<and> au_triggers (snd (register_workflows env ws st)) = au_triggers st \<and>
    au_workflows (snd (register_workflows env ws st)) = au_workflows st"
proof -
  let ?tt = "search_triggers (map wr_id ws) True st"
  from ok have d: "reg_ok st" "distinct (map tr_id ?tt)" by (simp_all add: auto_ok_def search_distinct)
  note loop = register_workflows_loop_ok [OF d(1) env d(2), of ws]
  moreover have "\<forall>i. \<forall>h \<in> handlers_of i (snd (register_workflows_loop env ?tt ws st)). snd (the (owner (h_fn h))) \<in> tr_id ` set (au_triggers st)"
    using ok image_mono [OF search_subset] by (intro loop_handlers_tid [OF d(1) env d(2)]) (simp_all add: auto_ok_def)
  ultimately show ?thesis using ok by (simp add: register_workflows_def auto_ok_def)
qed

lemma wf_register_ok:
  assumes "auto_ok st" and "alloc_ok env"
  shows "auto_ok (snd (wf_register env w st)) \<and> au_triggers (snd (wf_register env w st)) = au_triggers st"
  using assms register_workflows_ok by (simp add: wf_register_def)

lemma update_cache_fields [simp]:
  "au_bus (update_cache w g u st) = au_bus st" "au_reg (update_cache w g u st) = au_reg st"
  "au_triggers (update_cache w g u st) = au_triggers st" "au_workflows (update_cache w g u st) = au_workflows st"
  by (simp_all add: update_cache_def)

lemma save_fields [simp]:
  "au_bus (save_workflow w st) = au_bus st" "au_reg (save_workflow w st) = au_reg st"
  "au_triggers (save_workflow w st) = au_triggers st" "au_cache (save_workflow w st) = au_cache st"
  "au_bus (save_labels w st) = au_bus st" "au_reg (save_labels w st) = au_reg st"
  "au_triggers (save_labels w st) = au_triggers st" "au_cache (save_labels w st) = au_cache st"
  "au_bus (save_trigger t st) = au_bus st" "au_reg (save_trigger t st) = au_reg st" "au_cache (save_trigger t st) = au_cache st"
  "au_bus (save_trigger_labels t st) = au_bus st" "au_reg (save_trigger_labels t st) = au_reg st"
  "au_cache (save_trigger_labels t st) = au_cache st"
  "map tr_id (au_triggers (save_trigger t st)) = map tr_id (au_triggers st)"
  "map tr_id (au_triggers (save_trigger_labels t st)) = map tr_id (au_triggers st)"
  by (simp_all add: save_workflow_def save_labels_def save_trigger_def save_trigger_labels_def)

lemma update_cache_ok: "auto_ok (update_cache w g u st) \<longleftrightarrow> auto_ok st"
  by (rule auto_ok_cong) simp_all

text \<open>The runs of \<open>updater\<close> that reach the registration.\<close>

lemma wf_updater_cases:
  obtains e where "wf_updater env wid fn st = (Inl e, st)"
  | e r2 g u where "wf_updater env wid fn st = (Inl e, snd (wf_register env r2 (update_cache r2 g u st)))"
  | r r1 r2 g u ch st2 where "load_workflow wid st = Inr r" "fn st r = Inr (r1, ch)"
      "validate_workflow env st r1 = (None, r2, g, u)" "wf_register env r2 (update_cache r2 g u st) = (None, st2)"
      "fst (wf_updater env wid fn st) = Inr r2" "au_bus (snd (wf_updater env wid fn st)) = au_bus st2"
      "au_reg (snd (wf_updater env wid fn st)) = au_reg st2" "au_triggers (snd (wf_updater env wid fn st)) = au_triggers st2"
      "au_cache (snd (wf_updater env wid fn st)) = au_cache st2"
proof (cases "load_workflow wid st")
  case (Inl e)
  then show ?thesis using that(1) by (simp add: wf_updater_def)
next
  case r: (Inr r)
  show ?thesis
  proof (cases "fn st r")
    case (Inl e)
    with r show ?thesis using that(1) by (simp add: wf_updater_def)
  next
    case (Inr p)
    then obtain r1 ch where r1: "fn st r = Inr (r1, ch)" by (cases p) auto
    obtain e r2 g u where v: "validate_workflow env st r1 = (e, r2, g, u)" by (cases "validate_workflow env st r1") auto
    obtain e2 st2 where reg: "wf_register env r2 (update_cache r2 g u st) = (e2, st2)" by fastforce
    show ?thesis
    proof (cases e)
      case (Some err)
      with r r1 v show ?thesis using that(1) by (simp add: wf_updater_def)
    next
      case e: None
      show ?thesis
      proof (cases e2)
        case (Some err)
        with r r1 v e reg show ?thesis using that(2) [of err r2 g u] by (simp add: wf_updater_def)
      next
        case None
        with r r1 v e reg show ?thesis by (intro that(3) [of r r1 ch r2 g u st2]) (simp_all add: wf_updater_def Let_def)
      qed
    qed
  qed
qed

lemma wf_updater_ok:
  assumes ok: "auto_ok st" and env: "alloc_ok env"
  shows "auto_ok (snd (wf_updater env wid fn st))"
proof (cases rule: wf_updater_cases [of env wid fn st])
  case 1
  with ok show ?thesis by simp
next
  case (2 e r2 g u)
  with wf_register_ok [OF _ env, of "update_cache r2 g u st"] ok show ?thesis by (simp add: update_cache_ok)
next
  case (3 r r1 r2 g u ch st2)
  from wf_register_ok [OF _ env, of "update_cache r2 g u st" r2] ok 3(4) have "auto_ok st2" by (simp add: update_cache_ok)
  with 3 show ?thesis by (subst auto_ok_cong [of _ st2]) simp_all
qed

lemma wf_create_ok:
  assumes ok: "auto_ok st" and env: "alloc_ok env"
  shows "auto_ok (snd (wf_create env nid new st))"
proof -
  have add: "auto_ok (st'\<lparr>au_workflows := ws\<rparr>) \<longleftrightarrow> auto_ok st'" for st' ws by (rule auto_ok_cong) simp_all
  let ?r = "new\<lparr>wr_id := nid, wr_issues := [], wr_owner := ae_caller env, wr_created := ae_now env,
               wr_updated := None, wr_deleted := None\<rparr>"
  obtain e r1 g u where v: "validate_workflow env st ?r = (e, r1, g, u)" by (cases "validate_workflow env st ?r") auto
  obtain e2 st2 where reg: "wf_register env r1 (update_cache r1 g u st) = (e2, st2)" by fastforce
  from wf_register_ok [OF _ env, of "update_cache r1 g u st" r1] ok reg have "auto_ok st2" by (simp add: update_cache_ok)
  with ok show ?thesis
    by (cases e; cases e2) (simp_all add: wf_create_def Let_def v reg add split: option.split)
qed

lemma load_loop_ok: "auto_ok st \<Longrightarrow> auto_ok (snd (load_loop env ws st))"
proof (induction ws arbitrary: st)
  case (Cons w ws)
  let ?i = "st\<lparr>au_index := (au_index st)(wr_handle w \<mapsto> wr_id w)\<rparr>"
  obtain e w1 g u where v: "validate_workflow env st w = (e, w1, g, u)" by (cases "validate_workflow env st w") auto
  let ?s = "if e = None then update_cache w1 g u ?i else ?i"
  have "auto_ok ?i" using Cons.prems by (subst auto_ok_cong [of _ st]) simp_all
  then have "auto_ok ?s" by (simp add: update_cache_ok)
  moreover obtain ws1 st2 where l: "load_loop env ws ?s = (ws1, st2)" by fastforce
  ultimately have "auto_ok st2" using Cons.IH [of ?s] by simp
  moreover have "load_loop env (w # ws) st = (w1 # ws1, st2)" by (simp only: load_loop.simps v Let_def l prod.case)
  ultimately show ?case by simp
qed simp

lemma wf_load_ok:
  assumes "auto_ok st" and "alloc_ok env"
  shows "auto_ok (snd (wf_load env st))"
proof -
  obtain ws st1 where l: "load_loop env (filter wr_enabled (au_workflows st)) st = (ws, st1)" by fastforce
  from load_loop_ok [OF assms(1), of env "filter wr_enabled (au_workflows st)"] l have "auto_ok st1" by simp
  from register_workflows_ok [OF this assms(2), of ws] show ?thesis by (simp add: wf_load_def l)
qed

lemma trigger_updater_fields:
  "au_bus (snd (trigger_updater tid fn st)) = au_bus st" "au_reg (snd (trigger_updater tid fn st)) = au_reg st"
  "au_cache (snd (trigger_updater tid fn st)) = au_cache st"
  "map tr_id (au_triggers (snd (trigger_updater tid fn st))) = map tr_id (au_triggers st)"
  by (auto simp: trigger_updater_def Let_def split: sum.split)

lemma trigger_updater_ok: "auto_ok st \<Longrightarrow> auto_ok (snd (trigger_updater tid fn st))"
  using auto_ok_cong [OF trigger_updater_fields(1,2,4)] by blast

lemma trigger_create_ok:
  assumes ok: "auto_ok st" and env: "alloc_ok env" and new: "nid \<notin> tr_id ` set (au_triggers st)"
  shows "auto_ok (snd (trigger_create env nid t st))"
proof -
  let ?t = "t\<lparr>tr_id := nid, tr_owner := ae_caller env, tr_created := ae_now env, tr_updated := None, tr_deleted := None\<rparr>"
  have created: "auto_ok (st1\<lparr>au_triggers := au_triggers st1 @ [?t]\<rparr>) \<and> (e \<noteq> None \<longrightarrow> auto_ok st1)"
    if reg: "register_workflow env w [?t] st = (e, st1)" for w e st1
  proof -
    have "reg_lookup st i nid = None" for i
    proof (rule ccontr)
      assume "reg_lookup st i nid \<noteq> None"
      then obtain p where "reg_lookup st i nid = Some p" by blast
      with ok reg_okD [of st i nid p] obtain h where "h \<in> handlers_of i st" "owner (h_fn h) = Some (i, nid)"
        by (auto simp: auto_ok_def handlers_of_def)
      with ok new show False by (force simp: auto_ok_def)
    qed
    then have "\<forall>x \<in> set [?t]. reg_lookup st (wr_id w) (tr_id x) = None" by simp
    from register_workflow_ok [OF _ env _ this] ok reg
    have r: "reg_ok st1" "\<And>i. handlers_of i st1 = handlers_of i st \<union>
        (if i = wr_id w \<and> registers env w [?t] \<and> registrable w
         then registration_of env w (has_graph env w) ` {x \<in> set [?t]. live_trigger x} else {})"
      by (simp_all add: auto_ok_def)
    have tables: "au_triggers st1 = au_triggers st" using register_workflow_tables [of env w "[?t]" st] reg by simp
    let ?s = "st1\<lparr>au_triggers := au_triggers st @ [?t]\<rparr>"
    have same: "reg_ok ?s = reg_ok st1" "\<And>i. handlers_of i ?s = handlers_of i st1"
      by (simp_all add: reg_ok_def reg_lookup_def handlers_of_def)
    have tid: "snd (the (owner (h_fn h))) \<in> insert nid (tr_id ` set (au_triggers st))" if "h \<in> handlers_of i st1" for h i
    proof (cases "h \<in> handlers_of i st")
      case True
      with ok show ?thesis by (simp add: auto_ok_def)
    next
      case False
      with that r(2) have "h = registration_of env w (has_graph env w) ?t" by (auto split: if_splits)
      then show ?thesis by simp
    qed
    have "e \<noteq> None \<longrightarrow> st1 = st" using reg by (auto dest: register_workflow_error)
    moreover from tid r(1) ok new have "auto_ok ?s" unfolding auto_ok_def same by simp
    ultimately show ?thesis using ok by (simp add: tables)
  qed
  show ?thesis
  proof (cases "load_workflow (tr_workflow t) st")
    case (Inr w)
    obtain e st1 where reg: "register_workflow env w [?t] st = (e, st1)" by fastforce
    from created [OF reg] Inr reg ok show ?thesis by (cases e) (simp_all add: trigger_create_def Let_def)
  qed (use ok in \<open>simp add: trigger_create_def\<close>)
qed

section \<open>Runs of the services\<close>

text \<open>The operations of both services, and what other services do on the bus.\<close>

inductive auto_step :: "auto_env \<Rightarrow> auto_state \<Rightarrow> auto_state \<Rightarrow> bool" for env where
  step_wf_create: "auto_step env st (snd (wf_create env nid new st))"
| step_wf_change: "auto_step env st (snd (wf_change env wid u st))"
| step_wf_delete: "auto_step env st (snd (wf_delete env wid st))"
| step_wf_undelete: "auto_step env st (snd (wf_undelete env wid st))"
| step_load: "auto_step env st (snd (wf_load env st))"
| step_trigger_create: "nid \<notin> tr_id ` set (au_triggers st) \<Longrightarrow> auto_step env st (snd (trigger_create env nid t st))"
| step_trigger_change: "auto_step env st (snd (trigger_change env tid tu st))"
| step_trigger_delete: "auto_step env st (snd (trigger_delete env tid st))"
| step_trigger_undelete: "auto_step env st (snd (trigger_undelete env tid st))"
| step_other_register:
    "auto_step env st (st\<lparr>au_bus := register (ae_alloc env (au_bus st)) (OtherFn n) ops (au_bus st)\<rparr>)"
| step_other_unregister: "\<forall>h. au_bus st p = Some h \<longrightarrow> owner (h_fn h) = None \<Longrightarrow>
    auto_step env st (st\<lparr>au_bus := unregister [p] (au_bus st)\<rparr>)"

lemma other_bus_ok:
  assumes ok: "auto_ok st"
    and bus: "\<And>p h. (b p = Some h \<and> owner (h_fn h) \<noteq> None) \<longleftrightarrow> (au_bus st p = Some h \<and> owner (h_fn h) \<noteq> None)"
    and fin: "finite (dom b)" "b 0 = None"
  shows "auto_ok (st\<lparr>au_bus := b\<rparr>)"
proof -
  have eq: "(\<exists>h. b p = Some h \<and> owner (h_fn h) = Some x) \<longleftrightarrow> (\<exists>h. au_bus st p = Some h \<and> owner (h_fn h) = Some x)" for p x
    using bus by (metis option.distinct(1))
  have "handlers_of i (st\<lparr>au_bus := b\<rparr>) = handlers_of i st" for i
    using bus unfolding handlers_of_def by (auto; metis option.distinct(1))
  with ok fin eq show ?thesis by (simp add: auto_ok_def reg_ok_def reg_lookup_def)
qed

lemma auto_step_ok:
  assumes "auto_step env st st'" and ok: "auto_ok st" and env: "alloc_ok env"
  shows "auto_ok st'"
  using assms(1)
proof cases
  case (step_other_register n ops)
  let ?p = "ae_alloc env (au_bus st)"
  from ok env have p: "?p \<notin> dom (au_bus st)" "?p \<noteq> 0" "finite (dom (au_bus st))" "au_bus st 0 = None"
    by (simp_all add: alloc_ok_def auto_ok_def reg_ok_def)
  then show ?thesis unfolding step_other_register by (intro other_bus_ok [OF ok]) (auto simp: register_def domIff)
next
  case (step_other_unregister p)
  from ok have "finite (dom (au_bus st))" "au_bus st 0 = None" by (simp_all add: auto_ok_def reg_ok_def)
  with step_other_unregister(2) show ?thesis
    unfolding step_other_unregister(1) by (intro other_bus_ok [OF ok]) (auto simp: unregister_def)
qed (use ok env wf_create_ok wf_updater_ok wf_load_ok trigger_create_ok trigger_updater_ok in
      \<open>simp_all add: wf_change_def wf_delete_def wf_undelete_def trigger_change_def trigger_delete_def trigger_undelete_def\<close>)

definition fresh_service :: "wf_row list \<Rightarrow> trigger_row list \<Rightarrow> auto_state" where
  "fresh_service ws tt =
     \<lparr>au_workflows = ws, au_triggers = tt, au_cache = Map.empty, au_index = Map.empty, au_reg = Map.empty, au_bus = Map.empty\<rparr>"

text \<open>
  C26: in every state the services reach, the registry names for every workflow and trigger exactly
  the handler on the bus that was made for them; each trigger has at most one, and the handlers of
  other services are never mistaken for one.
\<close>

theorem registry_matches_bus:
  assumes "(auto_step env)\<^sup>*\<^sup>* (fresh_service ws tt) st" and "alloc_ok env" and "distinct (map tr_id tt)"
  shows "reg_lookup st wid tid = Some p \<longleftrightarrow> (\<exists>h. au_bus st p = Some h \<and> owner (h_fn h) = Some (wid, tid))"
proof -
  have "auto_ok st"
    using assms(1)
  proof (induction rule: rtranclp_induct)
    case base
    from assms(3) show ?case by (simp add: auto_ok_def reg_ok_def fresh_service_def reg_lookup_def handlers_of_def)
  next
    case (step st st')
    with auto_step_ok assms(2) show ?case by blast
  qed
  then show ?thesis by (simp add: auto_ok_def reg_okD)
qed

section \<open>A saved workflow\<close>

lemma validate_triggers_nil:
  "validate_triggers w i tt = [] \<longleftrightarrow>
     (\<forall>t \<in> set tt. live_trigger t \<longrightarrow> wr_run_as w = 0 \<longrightarrow> (tr_resource t, tr_event t) \<notin> set require_run_as)"
  by (induction w i tt rule: validate_triggers.induct) (auto simp: live_trigger_def filter_empty_conv)

lemma validate_workflow_sound:
  assumes "validate_workflow env st r = (None, r2, g, u)" and "wr_issues r2 = []"
  shows "r2 = r\<lparr>wr_issues := []\<rparr> \<and> convert env r = (g, []) \<and> run_as env r = Inr u \<and>
    validate_triggers r 0 (search_triggers [wr_id r] False st) = []"
  using assms by (auto simp: validate_workflow_def Let_def split: prod.splits sum.splits)

lemma convert_issues [simp]: "convert env (r\<lparr>wr_issues := ii\<rparr>) = convert env r"
  by (simp add: convert_def)

lemma run_as_issues [simp]: "run_as env (r\<lparr>wr_issues := ii\<rparr>) = run_as env r"
  by (auto simp: run_as_def split: sum.split)

definition made_handler :: "auto_env \<Rightarrow> wf_row \<Rightarrow> trigger_row \<Rightarrow> bus_fn handler" where
  "made_handler env w t = new_handler (WorkflowFn w t) (trigger_ops env t)"

lemma register_sound_workflow:
  assumes ok: "auto_ok st" and env: "alloc_ok env" and "ae_register env"
    and v: "validate_workflow env st0 r = (None, r2, g, u)" and none: "wr_issues r2 = []"
    and same: "au_triggers st = au_triggers st0"
    and reg: "wf_register env r2 st = (None, st2)"
  shows "handlers_of i st2 =
    (if i = wr_id r
     then if registrable r then made_handler env r2 ` {t \<in> set (au_triggers st). tr_workflow t = i \<and> live_trigger t} else {}
     else handlers_of i st)"
proof -
  note sound = validate_workflow_sound [OF v none]
  let ?tt = "search_triggers [wr_id r2] True st"
  from ok have d: "reg_ok st" "distinct (map tr_id ?tt)" by (simp_all add: auto_ok_def search_distinct)
  from register_one_ok [OF d(1) env d(2), of r2 "[]"] obtain e st' where st':
    "register_workflows_loop env ?tt [r2] st = (case e of None \<Rightarrow> register_workflows_loop env ?tt [] st' | Some _ \<Rightarrow> (e, st'))"
    "handlers_of i st' = (if i = wr_id r2 then workflow_handlers env r2 ?tt else handlers_of i st)" by blast
  with reg none have "st' = st2" by (cases e) (auto simp: wf_register_def register_workflows_def)
  moreover have "workflow_handlers env r2 ?tt =
      (if registrable r then made_handler env r2 ` {t \<in> set (au_triggers st). tr_workflow t = wr_id r \<and> live_trigger t} else {})"
  proof (cases "registrable r")
    case True
    have "validate_triggers r2 0 (filter_by_workflow (wr_id r2) ?tt) = []"
      using sound same by (auto simp: validate_triggers_nil filter_by_workflow_def search_triggers_def live_trigger_def)
    moreover have "run_as env r2 = Inr u" "convert env r2 = (g, [])" using sound by simp_all
    ultimately have "registers env r2 (filter_by_workflow (wr_id r2) ?tt)" "has_graph env r2"
      using sound True assms(3) none by (simp_all add: registers_def has_graph_def registrable_def filter_by_workflow_def)
    moreover have "{t \<in> set ?tt. tr_workflow t = wr_id r2 \<and> live_trigger t} =
        {t \<in> set (au_triggers st). tr_workflow t = wr_id r \<and> live_trigger t}"
      using sound by (auto simp: search_triggers_def live_trigger_def)
    moreover have "registration_of env r2 True = made_handler env r2"
      by (simp add: registration_of_def made_handler_def fun_eq_iff)
    ultimately show ?thesis using sound True by (simp add: workflow_handlers_def registrable_def)
  next
    case False
    moreover from sound have "registrable r2 = registrable r" by (auto simp: registrable_def)
    ultimately show ?thesis by (simp add: workflow_handlers_def)
  qed
  ultimately show ?thesis using st'(2) sound by simp
qed

lemma updater_sound_workflow:
  assumes ok: "auto_ok st" and env: "alloc_ok env" and reg: "ae_register env"
    and fn: "\<And>r r1 ch. fn st r = Inr (r1, ch) \<Longrightarrow> wr_id r1 = wr_id r"
    and upd: "wf_updater env wid fn st = (Inr r, st')" and none: "wr_issues r = []"
  shows "handlers_of i st' =
    (if i = wid
     then if registrable r then made_handler env r ` {t \<in> set (au_triggers st'). tr_workflow t = wid \<and> live_trigger t} else {}
     else handlers_of i st)"
proof (cases rule: wf_updater_cases [of env wid fn st])
  case (3 r0 r1 r2 g u ch st2)
  let ?c = "update_cache r2 g u st"
  from upd 3(5) have r: "r2 = r" by simp
  from 3(1) have "wr_id r0 = wid" by (auto simp: load_workflow_def find_Some_iff split: if_splits option.splits)
  with fn [OF 3(2)] have wid: "wr_id r1 = wid" by simp
  from validate_workflow_sound [OF 3(3)] none r have "registrable r1 = registrable r" by (auto simp: registrable_def)
  moreover have "handlers_of i st' = handlers_of i st2" using upd 3(6) by (intro handlers_of_cong) simp
  moreover have "au_triggers st' = au_triggers st" using upd 3(4,8) wf_register_ok [OF _ env, of ?c r2] ok by (simp add: update_cache_ok)
  moreover have "handlers_of i ?c = handlers_of i st" by (rule handlers_of_cong) simp
  moreover have "auto_ok ?c" using ok by (simp add: update_cache_ok)
  ultimately show ?thesis
    using register_sound_workflow [OF _ env reg 3(3) _ _ 3(4), of i] none wid r by simp
qed (use upd in simp_all)

text \<open>
  C27: after a workflow was changed without issues, the bus holds for it exactly one handler for
  each of its enabled and undeleted triggers, with the types and constraints of the trigger and
  running the workflow as saved, or none if it is disabled or deleted; the handlers of all other
  workflows stay.
\<close>

theorem saved_workflow_handlers:
  assumes "auto_ok st" and "alloc_ok env" and "ae_register env"
    and "wf_change env wid u st = (Inr r, st')" and "wr_issues r = []"
  shows "handlers_of i st' =
    (if i = wid
     then if registrable r then made_handler env r ` {t \<in> set (au_triggers st'). tr_workflow t = wid \<and> live_trigger t} else {}
     else handlers_of i st)"
proof (rule updater_sound_workflow [OF assms(1-3) _ _ assms(5)])
  show "wf_updater env wid (wf_handle_update env wid u) st = (Inr r, st')" using assms(4) by (simp add: wf_change_def)
  show "wr_id r1 = wr_id r0" if "wf_handle_update env wid u st r0 = Inr (r1, ch)" for r0 r1 ch
    using that by (auto simp: wf_handle_update_def apply_wf_update_def Let_def split: if_splits option.splits)
qed

lemma trigger_changes_keep_bus:
  "au_bus (snd (trigger_delete env tid st)) = au_bus st \<and>
   au_bus (snd (trigger_undelete env tid st)) = au_bus st \<and>
   au_bus (snd (trigger_change env tid u st)) = au_bus st"
  by (simp add: trigger_delete_def trigger_undelete_def trigger_change_def trigger_updater_fields)

text \<open>
  Deleting a trigger marks its row, but the handler that was registered for it stays on the bus
  and goes on to answer events.
\<close>

theorem deleted_trigger_keeps_handler:
  assumes "auto_ok st" and "reg_lookup st wid tid = Some p" and "trigger_delete env tid st = (Inr t, st')"
  shows "tr_deleted t \<noteq> None \<and>
    (\<exists>h. au_bus st p = Some h \<and> owner (h_fn h) = Some (wid, tid) \<and> au_bus st' p = Some h)"
proof -
  from assms(1,2) have "\<exists>h. au_bus st p = Some h \<and> owner (h_fn h) = Some (wid, tid)"
    using reg_okD [of st wid tid p] by (simp add: auto_ok_def)
  moreover from trigger_changes_keep_bus [of env tid st] assms(3) have "au_bus st' = au_bus st" by simp
  moreover from assms(3) have "tr_deleted t \<noteq> None"
    by (auto simp: trigger_delete_def trigger_updater_def trigger_handle_delete_def Let_def split: sum.splits option.splits if_splits)
  ultimately show ?thesis by auto
qed

text \<open>
  A workflow saved with issues keeps the handlers it had, whatever else the change says, and if
  it has no graph any more or is disabled or deleted, each of them fails.
\<close>

theorem workflow_with_issues_keeps_handlers:
  assumes "wf_updater env wid fn st = (Inr r, st')" and "wr_issues r \<noteq> []"
  shows "au_bus st' = au_bus st \<and> au_reg st' = au_reg st \<and>
    (fst (convert env r) = None \<or> \<not> registrable r \<longrightarrow> wr_id w = wr_id r \<longrightarrow>
     (\<exists>e. run_handler env cx st' (WorkflowFn w t) = Inl e))"
proof (cases rule: wf_updater_cases [of env wid fn st])
  case (3 r0 r1 r2 g u ch st2)
  from assms(1) 3(5) have r: "r2 = r" by simp
  with 3(4) assms(2) have st2: "st2 = update_cache r g u st" by (simp add: wf_register_def)
  have "fst (convert env r) = g" using 3(3) r
    by (auto simp: validate_workflow_def Let_def split: prod.splits sum.splits)
  moreover have "au_cache st' = (au_cache st)(wr_id r := (if registrable r then Some \<lparr>ci_wf = r, ci_graph = g, ci_run_as = u\<rparr> else None))"
    using assms(1) 3(9) st2 by (auto simp: update_cache_def executable_def registrable_def)
  ultimately have "\<exists>e. exec_workflow env cx st' w p = Inl e" if "fst (convert env r) = None \<or> \<not> registrable r" "wr_id w = wr_id r" for p
    using that by (auto simp: exec_workflow_def session_start_def)
  then have "\<exists>e. run_handler env cx st' (WorkflowFn w t) = Inl e" if "fst (convert env r) = None \<or> \<not> registrable r" "wr_id w = wr_id r"
    using that by (metis run_handler.simps(1) sum.simps(5))
  with assms(1) 3(6,7) st2 show ?thesis by simp
qed (use assms in simp_all)

lemma sound_register_none:
  assumes "wr_issues w = []" and "run_as env w = Inr u"
  shows "fst (wf_register env w st) = None"
  using assms by (simp add: wf_register_def register_workflows_def Let_def register_workflow_def filter_by_workflow_def)

section \<open>An example\<close>

definition fresh_address :: "bus_fn bus \<Rightarrow> nat" where
  "fresh_address b = Suc (Max (insert 0 (dom b)))"

definition demo_env_with :: "(bus_fn bus \<Rightarrow> nat) \<Rightarrow> auto_env" where
  "demo_env_with alloc =
     \<lparr>ae_conv = demo_env, ae_compile = (\<lambda>_. Inl ''no regular expressions''), ae_register = True, ae_user = (\<lambda>_. Inr True),
      ae_alloc = alloc, ae_can_create = True, ae_can_update = (\<lambda>_. True), ae_can_delete = (\<lambda>_. True),
      ae_can_undelete = (\<lambda>_. True), ae_can_triggers = (\<lambda>_. True), ae_now = 100, ae_caller = 7, ae_call_stack_size = 16\<rparr>"

definition demo_auto_env :: auto_env where
  "demo_auto_env = demo_env_with fresh_address"

definition demo_wf_row :: wf_row where
  "demo_wf_row =
     \<lparr>wr_id = 10, wr_handle = ''demo'', wr_labels = None, wr_meta = None, wr_enabled = True, wr_trace = False,
      wr_keep = 0, wr_scope = None, wr_steps = demo_steps, wr_paths = demo_wf, wr_issues = [], wr_run_as = 0,
      wr_owner = 7, wr_created = 1, wr_updated = None, wr_deleted = None\<rparr>"

definition demo_trigger :: "u64 \<Rightarrow> bool \<Rightarrow> trigger_row" where
  "demo_trigger i e =
     \<lparr>tr_id = i, tr_enabled = e, tr_workflow = 10, tr_step = 0, tr_resource = ''compose:record'', tr_event = ''afterCreate'',
      tr_constraints = [], tr_input = None, tr_labels = None, tr_meta = None, tr_owner = 7, tr_created = 1,
      tr_updated = None, tr_deleted = None\<rparr>"

definition demo_update :: "wf_step_def list \<Rightarrow> wf_update" where
  "demo_update steps =
     \<lparr>wu_handle = ''demo'', wu_enabled = True, wu_labels = None, wu_trace = False, wu_keep = 0, wu_meta = None,
      wu_scope = None, wu_steps = Some steps, wu_paths = None, wu_run_as = 0, wu_owner = 7, wu_updated = None\<rparr>"

definition demo_service :: auto_state where
  "demo_service = fresh_service [demo_wf_row] [demo_trigger 20 True, demo_trigger 21 False]"

lemma demo_alloc: "alloc_ok demo_auto_env"
proof -
  have "fresh_address b \<notin> dom b" if "finite (dom b)" for b :: "bus_fn bus"
  proof
    assume "fresh_address b \<in> dom b"
    with that have "fresh_address b \<le> Max (insert 0 (dom b))" by (intro Max_ge) auto
    then show False by (simp add: fresh_address_def)
  qed
  then show ?thesis by (simp add: alloc_ok_def demo_auto_env_def demo_env_with_def fresh_address_def)
qed

lemma demo_service_ok: "auto_ok demo_service"
  by (simp add: auto_ok_def reg_ok_def demo_service_def fresh_service_def reg_lookup_def handlers_of_def demo_trigger_def)

lemma demo_load: "load_workflow 10 demo_service = Inr demo_wf_row"
  by (simp add: load_workflow_def demo_service_def fresh_service_def demo_wf_row_def)

lemma demo_convert: "\<exists>g. convert demo_auto_env demo_wf_row = (Some g, [])"
proof -
  from is_graphD [OF demo_graph] show ?thesis
    by (auto simp: convert_def demo_auto_env_def demo_env_with_def demo_wf_row_def)
qed

lemma demo_change:
  assumes "wf_handle_update demo_auto_env 10 u demo_service demo_wf_row = Inr (r1, ch)"
    and "validate_workflow demo_auto_env demo_service r1 = (None, r2, g, ru)"
    and "wr_issues r2 = [] \<longrightarrow> run_as demo_auto_env r2 = Inr ru"
  shows "\<exists>st'. wf_change demo_auto_env 10 u demo_service = (Inr r2, st')"
proof -
  obtain e st2 where reg: "wf_register demo_auto_env r2 (update_cache r2 g ru demo_service) = (e, st2)" by fastforce
  have "e = None"
  proof (cases "wr_issues r2 = []")
    case True
    with assms(3) sound_register_none [of r2 demo_auto_env ru] reg show ?thesis by (metis fst_conv)
  qed (use reg in \<open>simp add: wf_register_def\<close>)
  with assms reg show ?thesis by (simp add: wf_change_def wf_updater_def demo_load Let_def)
qed

definition broken_row :: wf_row where
  "broken_row = demo_wf_row\<lparr>wr_steps := [demo_step 1 ''unknown'' []], wr_updated := Some 100\<rparr>"

lemma demo_with_evaluated:
  "wf_handle_update (demo_env_with a) 10 (demo_update demo_steps) demo_service demo_wf_row = Inr (demo_wf_row, no_changes)"
  "run_as (demo_env_with a) demo_wf_row = Inr None" "ae_register (demo_env_with a)"
  "wf_handle_update (demo_env_with a) 10 (demo_update [demo_step 1 ''unknown'' []]) demo_service demo_wf_row =
     Inr (broken_row, \<lparr>wc_changed = True, wc_labels = False, wc_def = True\<rparr>)"
  "snd (convert (demo_env_with a) broken_row) \<noteq> []" "Option.is_none (fst (convert (demo_env_with a) broken_row))"
  "run_as (demo_env_with a) broken_row = Inr None"
  by code_simp+

lemmas demo_evaluated = demo_with_evaluated(1-3) [of fresh_address, folded demo_auto_env_def]
lemmas broken_evaluated = demo_with_evaluated(4-7) [of fresh_address, folded demo_auto_env_def]

lemma demo_validate: "\<exists>g. validate_workflow demo_auto_env demo_service demo_wf_row = (None, demo_wf_row, g, None)"
proof -
  have "validate_triggers demo_wf_row 0 (search_triggers [wr_id demo_wf_row] False demo_service) = []"
    "demo_wf_row\<lparr>wr_issues := []\<rparr> = demo_wf_row" by code_simp+
  with demo_convert demo_evaluated(2) show ?thesis by (auto simp: validate_workflow_def)
qed

theorem saved_workflow_handlers_witness:
  "\<exists>st'. handlers_of 10 st' = {made_handler demo_auto_env demo_wf_row (demo_trigger 20 True)} \<and>
     wf_change demo_auto_env 10 (demo_update demo_steps) demo_service = (Inr demo_wf_row, st')"
proof -
  note demo_evaluated(1)
  moreover from demo_validate obtain g where "validate_workflow demo_auto_env demo_service demo_wf_row = (None, demo_wf_row, g, None)" by blast
  moreover note demo_evaluated(2)
  moreover have "wr_issues demo_wf_row = []" "registrable demo_wf_row" by code_simp+
  ultimately obtain st' where st': "wf_change demo_auto_env 10 (demo_update demo_steps) demo_service = (Inr demo_wf_row, st')"
    using demo_change by blast
  have "au_triggers (snd (wf_change demo_auto_env 10 (demo_update demo_steps) demo_service)) = au_triggers demo_service"
  proof (cases rule: wf_updater_cases [of demo_auto_env 10 "wf_handle_update demo_auto_env 10 (demo_update demo_steps)" demo_service])
    case (3 r r1 r2 g u ch st2)
    with wf_register_ok [OF _ demo_alloc, of "update_cache r2 g u demo_service" r2] demo_service_ok show ?thesis
      by (simp add: wf_change_def update_cache_ok)
  qed (use st' in \<open>simp_all add: wf_change_def\<close>)
  with st' have "{t \<in> set (au_triggers st'). tr_workflow t = 10 \<and> live_trigger t} = {demo_trigger 20 True}"
    by (auto simp: demo_service_def fresh_service_def demo_trigger_def live_trigger_def)
  with saved_workflow_handlers [OF demo_service_ok demo_alloc _ st', of 10] demo_evaluated(3)
    \<open>wr_issues demo_wf_row = []\<close> \<open>registrable demo_wf_row\<close>
  have "handlers_of 10 st' = {made_handler demo_auto_env demo_wf_row (demo_trigger 20 True)}" by simp
  with st' show ?thesis by blast
qed

theorem workflow_with_issues_keeps_handlers_witness:
  "\<exists>r st' e. wf_change demo_auto_env 10 (demo_update [demo_step 1 ''unknown'' []]) demo_service = (Inr r, st') \<and> wr_issues r \<noteq> [] \<and>
     au_bus st' = au_bus demo_service \<and>
     run_handler demo_auto_env \<lparr>xc_call_stack = [], xc_invoker = Some 7\<rparr> st' (WorkflowFn demo_wf_row (demo_trigger 20 True)) = Inl e"
proof -
  let ?u = "demo_update [demo_step 1 ''unknown'' []]"
  obtain r1 ch where h: "wf_handle_update demo_auto_env 10 ?u demo_service demo_wf_row = Inr (r1, ch)" and r1: "r1 = broken_row"
  proof
    show "wf_handle_update demo_auto_env 10 ?u demo_service demo_wf_row = Inr (broken_row, \<lparr>wc_changed = True, wc_labels = False, wc_def = True\<rparr>)"
      by (rule broken_evaluated(1))
  qed simp
  have "wr_id broken_row = wr_id demo_wf_row" by code_simp
  note c = broken_evaluated(2-4) this
  obtain ii where ii: "convert demo_auto_env broken_row = (None, ii)" "ii \<noteq> []"
    using c(1,2) by (cases "convert demo_auto_env broken_row") (auto simp: Option.is_none_def)
  let ?ii = "ii @ validate_triggers broken_row 0 (search_triggers [wr_id broken_row] False demo_service)"
  let ?r = "broken_row\<lparr>wr_issues := ?ii\<rparr>"
  have v: "validate_workflow demo_auto_env demo_service r1 = (None, ?r, None, None)" using c(3) ii by (simp add: validate_workflow_def r1)
  from demo_change [OF h v] ii(2) obtain st' where st': "wf_change demo_auto_env 10 ?u demo_service = (Inr ?r, st')" by auto
  from ii have "wr_issues ?r \<noteq> []" "fst (convert demo_auto_env ?r) = None" by simp_all
  with workflow_with_issues_keeps_handlers [OF st' [unfolded wf_change_def], where w = demo_wf_row and
      cx = "\<lparr>xc_call_stack = [], xc_invoker = Some 7\<rparr>" and t = "demo_trigger 20 True"] c(4) st'
  show ?thesis by auto
qed

lemma demo_saved:
  "\<exists>st. auto_ok st \<and> au_workflows st = [demo_wf_row] \<and> au_triggers st = au_triggers demo_service \<and>
     reg_lookup st 10 20 \<noteq> None"
proof -
  obtain g where v: "validate_workflow demo_auto_env demo_service demo_wf_row = (None, demo_wf_row, g, None)" using demo_validate by blast
  let ?c = "update_cache demo_wf_row g None demo_service"
  obtain e st where reg: "wf_register demo_auto_env demo_wf_row ?c = (e, st)" by fastforce
  have none: "wr_issues demo_wf_row = []" and live: "registrable demo_wf_row" by code_simp+
  from sound_register_none [OF none demo_evaluated(2), of ?c] reg have reg: "wf_register demo_auto_env demo_wf_row ?c = (None, st)" by simp
  have c: "auto_ok ?c" using demo_service_ok by (simp add: update_cache_ok)
  from wf_register_ok [OF c demo_alloc, of demo_wf_row] register_workflows_ok [OF c demo_alloc, of "[demo_wf_row]"] reg none
  have st: "auto_ok st" "au_triggers st = au_triggers demo_service" "au_workflows st = au_workflows demo_service"
    by (simp_all add: wf_register_def)
  from register_sound_workflow [OF c demo_alloc demo_evaluated(3) v none _ reg, of 10] live
  have "handlers_of 10 st = made_handler demo_auto_env demo_wf_row ` {t \<in> set (au_triggers demo_service). tr_workflow t = 10 \<and> live_trigger t}"
    by (simp add: demo_wf_row_def)
  moreover have "demo_trigger 20 True \<in> {t \<in> set (au_triggers demo_service). tr_workflow t = 10 \<and> live_trigger t}"
    by (simp add: demo_service_def fresh_service_def demo_trigger_def live_trigger_def)
  ultimately have "made_handler demo_auto_env demo_wf_row (demo_trigger 20 True) \<in> handlers_of 10 st" by blast
  then obtain p where "au_bus st p = Some (made_handler demo_auto_env demo_wf_row (demo_trigger 20 True))"
    by (auto simp: handlers_of_def)
  moreover have "owner (h_fn (made_handler demo_auto_env demo_wf_row (demo_trigger 20 True))) = Some (10, 20)"
    by (simp add: made_handler_def demo_wf_row_def demo_trigger_def)
  ultimately have "reg_lookup st 10 20 = Some p" using st(1) reg_okD [of st 10 20 p] by (simp add: auto_ok_def)
  with st show ?thesis by (intro exI [of _ st]) (simp add: demo_service_def fresh_service_def)
qed

theorem deleted_trigger_keeps_handler_witness:
  "\<exists>st t st' p h. trigger_delete demo_auto_env 20 st = (Inr t, st') \<and> tr_deleted t = Some 100 \<and> au_bus st' p = Some h \<and>
     owner (h_fn h) = Some (10, 20)"
proof -
  from demo_saved obtain st p where st: "auto_ok st" "au_workflows st = [demo_wf_row]" "au_triggers st = au_triggers demo_service"
    "reg_lookup st 10 20 = Some p" by blast
  let ?t = "demo_trigger 20 True\<lparr>tr_deleted := Some 100\<rparr>"
  have "load_trigger 20 st = Inr (demo_trigger 20 True)" "load_workflow 10 st = Inr demo_wf_row"
    using st by (simp_all add: load_trigger_def load_workflow_def demo_service_def fresh_service_def demo_trigger_def demo_wf_row_def)
  then have "trigger_delete demo_auto_env 20 st = (Inr ?t, save_trigger ?t st)"
    by (simp add: trigger_delete_def trigger_updater_def trigger_handle_delete_def can_manage_trigger_def demo_trigger_def
        demo_auto_env_def demo_env_with_def)
  moreover from deleted_trigger_keeps_handler [OF st(1,4) this]
  obtain h where "au_bus (save_trigger ?t st) p = Some h" "owner (h_fn h) = Some (10, 20)" by auto
  ultimately show ?thesis
    by (intro exI [of _ st] exI [of _ ?t] exI [of _ "save_trigger ?t st"] exI [of _ p] exI [of _ h]) simp
qed

theorem registry_matches_bus_witness:
  "\<forall>p. reg_lookup (snd (wf_load demo_auto_env demo_service)) 10 20 = Some p \<longleftrightarrow>
     (\<exists>h. au_bus (snd (wf_load demo_auto_env demo_service)) p = Some h \<and> owner (h_fn h) = Some (10, 20))"
proof -
  have "(auto_step demo_auto_env)\<^sup>*\<^sup>* (fresh_service [demo_wf_row] [demo_trigger 20 True, demo_trigger 21 False])
      (snd (wf_load demo_auto_env demo_service))"
    unfolding demo_service_def by (rule r_into_rtranclp [of "auto_step demo_auto_env", OF step_load])
  moreover have "distinct (map tr_id [demo_trigger 20 True, demo_trigger 21 False])" by (simp add: demo_trigger_def)
  ultimately show ?thesis using registry_matches_bus [OF _ demo_alloc] by blast
qed

end
