(* ===== verification/DalModel.thy ===== *)
theory DalModel
  imports Handle Decimal
begin

text \<open>
  \<^verbatim>\<open>pkg/dal/model.go\<close>, \<^verbatim>\<open>diff.go\<close>, \<^verbatim>\<open>attribute_types.go\<close>, \<^verbatim>\<open>sensitivity_level.go\<close> and
  \<^verbatim>\<open>capabilities\<close>: models and attributes, what differs between two models, names of models,
  indexes of sensitivity levels and sets of capabilities.

  Where the code calls a method on a nil interface it panics; the result is then \<^const>\<open>None\<close>.
\<close>

section \<open>Capabilities\<close>

type_synonym capabilities = "string list"

definition cap_diff :: "capabilities \<Rightarrow> capabilities \<Rightarrow> capabilities" where
  "cap_diff aa bb = filter (\<lambda>a. \<not> List.member bb a) aa"

definition cap_subset :: "capabilities \<Rightarrow> capabilities \<Rightarrow> bool" where
  "cap_subset aa bb = (if length bb < length aa then False else length (cap_diff aa bb) = 0)"

definition cap_intersect :: "capabilities \<Rightarrow> capabilities \<Rightarrow> capabilities" where
  "cap_intersect aa bb = filter (\<lambda>a. List.member bb a) aa"

fun union_loop :: "capabilities \<Rightarrow> capabilities \<Rightarrow> capabilities" where
  "union_loop cc [] = cc"
| "union_loop cc (c # rest) = union_loop (if List.member cc c then cc else cc @ [c]) rest"

definition cap_union :: "capabilities \<Rightarrow> capabilities \<Rightarrow> capabilities" where
  "cap_union aa bb = union_loop [] (aa @ bb)"

section \<open>Attributes and models\<close>

text \<open>A reference keeps the resource of the model it refers to and the name of the attribute there.\<close>

datatype attr_type =
    TypeID bool bool
  | TypeRef string string bool
  | TypeTimestamp bool nat bool
  | TypeTime bool nat bool
  | TypeDate bool
  | TypeNumber nat nat bool
  | TypeText nat bool
  | TypeBoolean bool
  | TypeEnum "string list" bool
  | TypeGeometry bool
  | TypeJSON bool
  | TypeBlob bool
  | TypeUUID bool

fun type_name :: "attr_type \<Rightarrow> string" where
  "type_name (TypeID g n) = ''corteza::dal:attribute-type:id''"
| "type_name (TypeRef m a n) = ''corteza::dal:attribute-type:ref''"
| "type_name (TypeTimestamp z p n) = ''corteza::dal:attribute-type:timestamp''"
| "type_name (TypeTime z p n) = ''corteza::dal:attribute-type:time''"
| "type_name (TypeDate n) = ''corteza::dal:attribute-type:date''"
| "type_name (TypeNumber p s n) = ''corteza::dal:attribute-type:number''"
| "type_name (TypeText l n) = ''corteza::dal:attribute-type:text''"
| "type_name (TypeBoolean n) = ''corteza::dal:attribute-type:boolean''"
| "type_name (TypeEnum vv n) = ''corteza::dal:attribute-type:enum''"
| "type_name (TypeGeometry n) = ''corteza::dal:attribute-type:geometry''"
| "type_name (TypeJSON n) = ''corteza::dal:attribute-type:json''"
| "type_name (TypeBlob n) = ''corteza::dal:attribute-type:blob''"
| "type_name (TypeUUID n) = ''corteza::dal:attribute-type:uuid''"

datatype codec = CodecPlain | CodecRecordValueSetJSON string | CodecAlias string

record dal_attr =
  at_ident :: string
  at_label :: string
  at_level :: u64
  at_multi :: bool
  at_primary :: bool
  at_soft_delete :: bool
  at_sortable :: bool
  at_filterable :: bool
  at_store :: codec
  at_type :: "attr_type option"

record dal_model =
  dm_connection :: u64
  dm_ident :: string
  dm_label :: string
  dm_resource :: string
  dm_id :: u64
  dm_type :: string
  dm_level :: u64
  dm_attrs :: "dal_attr list"
  dm_capabilities :: capabilities

definition full_attribute :: "string \<Rightarrow> attr_type option \<Rightarrow> codec \<Rightarrow> dal_attr" where
  "full_attribute ident t c =
     \<lparr>at_ident = ident, at_label = ident, at_level = 0, at_multi = False, at_primary = False, at_soft_delete = False,
      at_sortable = True, at_filterable = True, at_store = c, at_type = t\<rparr>"

definition primary_attribute :: "string \<Rightarrow> codec \<Rightarrow> dal_attr" where
  "primary_attribute ident c = full_attribute ident (Some (TypeID False False)) c\<lparr>at_primary := True\<rparr>"

definition with_soft_delete :: "dal_attr \<Rightarrow> dal_attr" where
  "with_soft_delete a = a\<lparr>at_soft_delete := True\<rparr>"

definition with_multi_value :: "dal_attr \<Rightarrow> dal_attr" where
  "with_multi_value a = a\<lparr>at_multi := True\<rparr>"

fun find_attr :: "string \<Rightarrow> dal_attr list \<Rightarrow> dal_attr option" where
  "find_attr ident [] = None"
| "find_attr ident (a # aa) = (if to_lower (at_ident a) = to_lower ident then Some a else find_attr ident aa)"

definition has_attribute :: "dal_model \<Rightarrow> string \<Rightarrow> bool" where
  "has_attribute m ident \<longleftrightarrow> find_attr ident (dm_attrs m) \<noteq> None"

definition filter_by_referenced :: "dal_model list \<Rightarrow> dal_model \<Rightarrow> dal_model list" where
  "filter_by_referenced aa b =
     concat (map (\<lambda>m. if dm_resource m = dm_resource b then []
        else map (\<lambda>_. m)
          (filter (\<lambda>a. case at_type a of Some (TypeRef r i n) \<Rightarrow> r = dm_resource b | _ \<Rightarrow> False) (dm_attrs m))) aa)"

fun validate_attrs :: "string list \<Rightarrow> dal_attr list \<Rightarrow> string option" where
  "validate_attrs seen [] = None"
| "validate_attrs seen (a # aa) =
     (if at_ident a = [] then Some ''invalid attribute ident: ident must not be empty''
      else if \<not> valid_handle (at_ident a)
      then Some (''invalid attribute ident: '' @ at_ident a @ '' is not a valid handle'')
      else if List.member seen (at_ident a)
      then Some (''invalid attribute '' @ at_ident a @ '': duplicate attributes are not allowed'')
      else if at_type a = None then Some (''attribute does not define a type: '' @ at_ident a)
      else validate_attrs (at_ident a # seen) aa)"

definition validate_model :: "dal_model \<Rightarrow> string option" where
  "validate_model m =
     (if dm_resource m = [] then Some ''resource not defined'' else validate_attrs [] (dm_attrs m))"

section \<open>Differences between models\<close>

datatype diff_kind = AttributeMissing | AttributeTypeMissmatch | AttributeSensitivityMissmatch

record model_diff =
  md_kind :: diff_kind
  md_original :: "dal_attr option"
  md_asserted :: "dal_attr option"

text \<open>The index of attributes by identifier: of attributes with the same one the last counts.\<close>

definition attr_index :: "dal_attr list \<Rightarrow> string \<Rightarrow> dal_attr option" where
  "attr_index aa i = find (\<lambda>a. at_ident a = i) (rev aa)"

fun diff_old :: "dal_attr list \<Rightarrow> dal_attr list \<Rightarrow> model_diff list option" where
  "diff_old bb [] = Some []"
| "diff_old bb (a # aa) =
     (case attr_index bb (at_ident a) of
        None \<Rightarrow>
          map_option ((#) \<lparr>md_kind = AttributeMissing, md_original = Some a, md_asserted = None\<rparr>) (diff_old bb aa)
      | Some b \<Rightarrow>
          (case (at_type a, at_type b) of
             (Some ta, Some tb) \<Rightarrow>
               map_option ((@)
                 ((if type_name ta \<noteq> type_name tb
                   then [\<lparr>md_kind = AttributeTypeMissmatch, md_original = Some a, md_asserted = Some b\<rparr>] else []) @
                  (if at_level a \<noteq> at_level b
                   then [\<lparr>md_kind = AttributeSensitivityMissmatch, md_original = Some a, md_asserted = Some b\<rparr>] else [])))
                 (diff_old bb aa)
           | _ \<Rightarrow> None))"

definition diff_new :: "dal_attr list \<Rightarrow> dal_attr list \<Rightarrow> model_diff list" where
  "diff_new aa bb =
     map (\<lambda>b. \<lparr>md_kind = AttributeMissing, md_original = None, md_asserted = Some b\<rparr>)
       (filter (\<lambda>b. attr_index aa (at_ident b) = None) bb)"

definition diff_models :: "dal_model \<Rightarrow> dal_model \<Rightarrow> model_diff list option" where
  "diff_models a b = map_option (\<lambda>out. out @ diff_new (dm_attrs a) (dm_attrs b)) (diff_old (dm_attrs b) (dm_attrs a))"

section \<open>Names of models\<close>

record ident_formatter =
  if_model :: string
  if_attribute :: string
  if_partition :: string
  if_validator :: "(string \<Rightarrow> string + bool) option"

text \<open>\<open>strings.NewReplacer\<close> for keys that are not empty: at every place the first key that matches counts.\<close>

fun go_replace :: "(string \<times> string) list \<Rightarrow> string \<Rightarrow> string" where
  "go_replace kv [] = []"
| "go_replace kv (c # s) =
     (case find (\<lambda>x. is_prefix_of (fst x) (c # s)) kv of
        None \<Rightarrow> c # go_replace kv s
      | Some (k, v) \<Rightarrow> v @ go_replace kv (drop (length k - 1) s))"

fun template_keys :: "string list \<Rightarrow> (string \<times> string) list option" where
  "template_keys [] = Some []"
| "template_keys [k] = None"
| "template_keys (k # v # kv) = map_option ((#) (''{{'' @ k @ ''}}'', v)) (template_keys kv)"

definition model_template :: "ident_formatter \<Rightarrow> string \<Rightarrow> (string \<times> string) list \<Rightarrow> string" where
  "model_template f tpl kv =
     (let t = (if tpl = [] then if_partition f else tpl)
      in if t = [] then join_strings ''_'' (map fst kv) else t)"

definition model_ident :: "ident_formatter \<Rightarrow> bool \<Rightarrow> string \<Rightarrow> string list \<Rightarrow> (string \<times> bool) option" where
  "model_ident f partitioned tpl kv =
     (if \<not> partitioned then Some (if_model f, True)
      else case template_keys kv of
        None \<Rightarrow> None
      | Some kv \<Rightarrow>
          let t = model_template f tpl kv in
          if t = [] then Some ([], False)
          else let out = go_replace kv t in
            Some (out, case if_validator f of None \<Rightarrow> True | Some v \<Rightarrow> (case v out of Inl e \<Rightarrow> False | Inr b \<Rightarrow> b)))"

definition attribute_ident :: "ident_formatter \<Rightarrow> bool \<Rightarrow> string \<Rightarrow> string \<times> bool" where
  "attribute_ident f partitioned ident =
     (if \<not> partitioned then if if_attribute f \<noteq> [] then (if_attribute f, True) else ([], False)
      else (ident, ident \<noteq> []))"

section \<open>Sensitivity levels\<close>

record sens_level =
  lv_handle :: string
  lv_id :: u64
  lv_level :: int

text \<open>The index of the levels; the maps of a service that was never given levels are nil.\<close>

record levels =
  li_set :: "sens_level list"
  li_by_id :: "u64 \<rightharpoonup> nat"
  li_by_handle :: "string \<rightharpoonup> nat"

definition no_levels :: levels where
  "no_levels = \<lparr>li_set = [], li_by_id = Map.empty, li_by_handle = Map.empty\<rparr>"

definition level_index :: "sens_level list \<Rightarrow> levels" where
  "level_index ls =
     \<lparr>li_set = ls, li_by_id = map_of (rev (zip (map lv_id ls) [0..<length ls])),
      li_by_handle = map_of (rev (zip (map lv_handle ls) [0..<length ls]))\<rparr>"

definition level_includes :: "levels \<Rightarrow> u64 \<Rightarrow> bool" where
  "level_includes li l \<longleftrightarrow> l = 0 \<or> li_by_id li l \<noteq> None"

definition level_subset :: "levels \<Rightarrow> u64 \<Rightarrow> u64 \<Rightarrow> bool" where
  "level_subset li a b =
     (if a = 0 then True
      else if b = 0 then a = 0
      else case li_by_id li a of
        None \<Rightarrow> False
      | Some x \<Rightarrow> (case li_by_id li b of None \<Rightarrow> False | Some y \<Rightarrow> x \<le> y))"

definition levels_include :: "sens_level list \<Rightarrow> u64 \<Rightarrow> bool" where
  "levels_include ss l \<longleftrightarrow> list_ex (\<lambda>s. lv_id s = l) ss"

definition removed_levels :: "levels \<Rightarrow> sens_level list \<Rightarrow> levels" where
  "removed_levels li remove = level_index (filter (\<lambda>l. \<not> levels_include remove (lv_id l)) (li_set li))"

text \<open>
  The merge of levels: the inner loop reads the set where it may have ended, which panics; the
  outer one goes on as long as the set is not used up.
\<close>

function add_inner :: "sens_level list \<Rightarrow> sens_level list \<Rightarrow> nat \<Rightarrow> nat \<Rightarrow> sens_level list \<Rightarrow> (nat \<times> nat \<times> sens_level list) option" where
  "add_inner ss add i j acc =
     (if \<not> j < length add then Some (i, j, acc)
      else if \<not> i < length ss then None
      else
        let up = lv_level (ss ! i) \<le> lv_level (add ! j);
            i' = (if up then Suc i else i); acc' = (if up then acc @ [ss ! i] else acc)
        in if \<not> i' < length ss then None
           else if lv_level (ss ! i') > lv_level (add ! j) then add_inner ss add i' (Suc j) (acc' @ [add ! j])
           else add_inner ss add i' j acc')"
  by pat_completeness auto

termination
  by (relation "measure (\<lambda>(ss, add, i, j, acc). (length ss - i) + (length add - j))") (auto simp: Let_def split: if_splits)

declare add_inner.simps [simp del]

partial_function (option) add_outer ::
  "sens_level list \<Rightarrow> sens_level list \<Rightarrow> nat \<Rightarrow> nat \<Rightarrow> sens_level list \<Rightarrow> (nat \<times> sens_level list) option option" where
  "add_outer ss add i j acc =
     (if i < length ss
      then case add_inner ss add i j acc of None \<Rightarrow> Some None | Some (i', j', acc') \<Rightarrow> add_outer ss add i' j' acc'
      else Some (Some (j, acc)))"

text \<open>\<^const>\<open>None\<close> if the loops do not end, \<^term>\<open>Some None\<close> for a panic.\<close>

definition added_levels :: "levels \<Rightarrow> sens_level list \<Rightarrow> levels option option" where
  "added_levels li add =
     map_option (map_option (\<lambda>(j, acc).
       level_index (if int j < int (length add) - 1 then acc @ drop j add else acc))) (add_outer (li_set li) add 0 0 [])"

end
