(* ===== verification/DalService.thy ===== *)
theory DalService
  imports DalModel
begin

text \<open>
  \<^verbatim>\<open>pkg/dal/service.go\<close>, \<^verbatim>\<open>issues.go\<close>, \<^verbatim>\<open>errors.go\<close> and \<^verbatim>\<open>connect\<close> of \<^verbatim>\<open>driver.go\<close>: the registry of
  connections, models and sensitivity levels, the issues found with them, and the operations on
  records.

  Models are shared: callers keep the pointers they register, so a heap maps addresses to models
  and the registry holds addresses. Drivers are an argument that works on a world; a Go map is
  iterated in an order that is an argument. A map entry without issues is the same as none. What a
  deferred function does happens on panics too.
\<close>

section \<open>State\<close>

datatype dal_result = DalOk | DalErr string | DalPanic

record 'c conn_wrap =
  cw_id :: u64
  cw_level :: u64
  cw_conn :: "'c option"
  cw_type :: string
  cw_dsn :: "string option"
  cw_formatter :: ident_formatter
  cw_validator :: string
  cw_capabilities :: capabilities

datatype 'v dal_op = OpCreate "'v list" | OpUpdate 'v | OpSearch 'v | OpLookup 'v | OpDelete 'v | OpTruncate

record ('c, 'w, 'v) dal_env =
  de_version :: "string option"
  de_connector :: "string \<rightharpoonup> (string \<Rightarrow> capabilities \<Rightarrow> 'w \<Rightarrow> (string + 'c) \<times> 'w)"
  de_close :: "'c \<Rightarrow> 'w \<Rightarrow> string option \<times> 'w"
  de_can :: "'c \<Rightarrow> capabilities \<Rightarrow> bool"
  de_capabilities :: "'c \<Rightarrow> capabilities"
  de_models :: "'c \<Rightarrow> 'w \<Rightarrow> string + dal_model list"
  de_create_model :: "'c \<Rightarrow> dal_model \<Rightarrow> 'w \<Rightarrow> string option \<times> 'w"
  de_update_model :: "'c \<Rightarrow> dal_model \<Rightarrow> dal_model \<Rightarrow> 'w \<Rightarrow> string option \<times> 'w"
  de_update_attr :: "'c \<Rightarrow> dal_model \<Rightarrow> dal_attr option \<Rightarrow> dal_attr option \<Rightarrow> 'w \<Rightarrow> string option \<times> 'w"
  de_run :: "'c \<Rightarrow> 'v dal_op \<Rightarrow> dal_model \<Rightarrow> 'w \<Rightarrow> string option \<times> 'w"
  de_parse :: "string \<Rightarrow> string + (string \<Rightarrow> string + bool)"

record ('c, 'w) dal_state =
  da_connections :: "u64 \<rightharpoonup> 'c conn_wrap"
  da_default :: u64
  da_models :: "u64 \<Rightarrow> nat list"
  da_levels :: levels
  da_conn_issues :: "u64 \<Rightarrow> string list"
  da_model_issues :: "u64 \<Rightarrow> string list"
  da_heap :: "nat \<Rightarrow> dal_model"
  da_world :: 'w

definition dal_new :: "(nat \<Rightarrow> dal_model) \<Rightarrow> 'w \<Rightarrow> ('c, 'w) dal_state" where
  "dal_new h w =
     \<lparr>da_connections = Map.empty, da_default = 0, da_models = (\<lambda>_. []), da_levels = no_levels,
      da_conn_issues = (\<lambda>_. []), da_model_issues = (\<lambda>_. []), da_heap = h, da_world = w\<rparr>"

section \<open>Issues\<close>

record issue_helper =
  ih_connections :: "u64 list"
  ih_models :: "u64 list"
  ih_conn :: "u64 \<Rightarrow> string list"
  ih_model :: "u64 \<Rightarrow> string list"

definition new_helper :: issue_helper where
  "new_helper = \<lparr>ih_connections = [], ih_models = [], ih_conn = (\<lambda>_. []), ih_model = (\<lambda>_. [])\<rparr>"

definition ih_add_connection :: "u64 \<Rightarrow> issue_helper \<Rightarrow> issue_helper" where
  "ih_add_connection c ih = ih\<lparr>ih_connections := ih_connections ih @ [c]\<rparr>"

definition ih_add_model :: "u64 \<Rightarrow> issue_helper \<Rightarrow> issue_helper" where
  "ih_add_model m ih = ih\<lparr>ih_models := ih_models ih @ [m]\<rparr>"

definition conn_issues :: "u64 \<Rightarrow> string list \<Rightarrow> issue_helper \<Rightarrow> issue_helper" where
  "conn_issues c es ih = ih\<lparr>ih_conn := (ih_conn ih)(c := ih_conn ih c @ es)\<rparr>"

definition model_issues :: "u64 \<Rightarrow> string list \<Rightarrow> issue_helper \<Rightarrow> issue_helper" where
  "model_issues m es ih = ih\<lparr>ih_model := (ih_model ih)(m := ih_model ih m @ es)\<rparr>"

definition has_connection_issues :: "('c, 'w) dal_state \<Rightarrow> u64 \<Rightarrow> bool" where
  "has_connection_issues st c \<longleftrightarrow> 0 < length (da_conn_issues st c)"

definition has_model_issues :: "('c, 'w) dal_state \<Rightarrow> u64 \<Rightarrow> bool" where
  "has_model_issues st m \<longleftrightarrow> 0 < length (da_model_issues st m)"

definition update_issues :: "issue_helper \<Rightarrow> ('c, 'w) dal_state \<Rightarrow> ('c, 'w) dal_state" where
  "update_issues ih st =
     st\<lparr>da_conn_issues := (\<lambda>c. if 0 < length (ih_conn ih c) then ih_conn ih c
                              else if List.member (ih_connections ih) c then [] else da_conn_issues st c),
        da_model_issues := (\<lambda>m. if 0 < length (ih_model ih m) then ih_model ih m
                               else if List.member (ih_models ih) m then [] else da_model_issues st m)\<rparr>"

text \<open>Texts of errors.\<close>

definition model_error :: "string \<Rightarrow> u64 \<Rightarrow> u64 \<Rightarrow> string \<Rightarrow> string" where
  "model_error what c m text =
     ''cannot '' @ what @ '' '' @ format_uint m @ '' on connection '' @ format_uint c @ '': '' @ text"

definition missing_level :: "u64 \<Rightarrow> string" where
  "missing_level l = ''sensitivity level '' @ format_uint l @ '' does not exist''"

definition greater_level :: "string \<Rightarrow> u64 \<Rightarrow> u64 \<Rightarrow> string" where
  "greater_level whose a b =
     ''sensitivity level '' @ format_uint a @ '' exceeds '' @ whose @ '' supported sensitivity level '' @ format_uint b"

section \<open>Lookups\<close>

definition find_by_id :: "('c, 'w) dal_state \<Rightarrow> u64 \<Rightarrow> u64 \<Rightarrow> nat option" where
  "find_by_id st c r = find (\<lambda>a. dm_id (da_heap st a) = r) (da_models st c)"

definition find_by_resource :: "('c, 'w) dal_state \<Rightarrow> u64 \<Rightarrow> string \<Rightarrow> string \<Rightarrow> nat option" where
  "find_by_resource st c t r = find (\<lambda>a. dm_type (da_heap st a) = t \<and> dm_resource (da_heap st a) = r) (da_models st c)"

definition find_by_ident :: "('c, 'w) dal_state \<Rightarrow> u64 \<Rightarrow> string \<Rightarrow> nat option" where
  "find_by_ident st c i = find (\<lambda>a. dm_ident (da_heap st a) = i) (da_models st c)"

definition search_models :: "u64 list \<Rightarrow> ('c, 'w) dal_state \<Rightarrow> nat list" where
  "search_models order st = concat (map (da_models st) order)"

section \<open>Connections\<close>

fun dashed :: "bool \<Rightarrow> string \<Rightarrow> string" where
  "dashed prev [] = []"
| "dashed prev (c # s) =
     (if c = CHR ''.'' \<or> c = CHR ''-'' then (if prev then dashed True s else CHR ''_'' # dashed True s)
      else c # dashed False s)"

definition replace_first :: "string \<Rightarrow> string \<Rightarrow> string \<Rightarrow> string" where
  "replace_first s old new =
     (let i = go_index s old in if i < 0 then s else take (nat i) s @ new @ drop (nat i + length old) s)"

definition dsn_scheme :: "string \<Rightarrow> string" where
  "dsn_scheme dsn =
     (let i = go_index dsn ''://''; t = (if i < 0 then dsn else take (nat i) dsn) in if t = [] then ''mysql'' else t)"

text \<open>\<^const>\<open>None\<close> if the parameter is missing or no text.\<close>

definition dal_connect ::
  "('c, 'w, 'v) dal_env \<Rightarrow> 'c conn_wrap \<Rightarrow> 'w \<Rightarrow> ((string + 'c) \<times> 'w) option" where
  "dal_connect env cw w =
     (if cw_type cw \<noteq> ''corteza::dal:connection:dsn''
      then Some (Inl (''cannot open connection: only DSN connections supported (got: '' @ [CHR 0x22] @ cw_type cw @ [CHR 0x22] @ '')''), w)
      else case cw_dsn cw of
        None \<Rightarrow> None
      | Some dsn \<Rightarrow>
          let d = (case de_version env of None \<Rightarrow> dsn | Some v \<Rightarrow> replace_first dsn ''{version}'' (dashed False v))
          in case de_connector env (dsn_scheme d) of
               None \<Rightarrow> Some (Inl (''unknown store type used: '' @ [CHR 0x22] @ dsn_scheme d @ [CHR 0x22] @ '' (check your storage configuration)''), w)
             | Some open_conn \<Rightarrow> Some (open_conn d (cw_capabilities cw) w))"

definition replace_checks :: "('c, 'w) dal_state \<Rightarrow> 'c conn_wrap \<Rightarrow> string list" where
  "replace_checks st cw =
     concat (map (\<lambda>a. let m = da_heap st a in
       (if \<not> cap_subset (dm_capabilities m) (cw_capabilities cw)
        then [''cannot update connection '' @ format_uint (cw_id cw) @ '': new connection does not support existing models'']
        else []) @
       (if \<not> level_subset (da_levels st) (dm_level m) (cw_level cw)
        then [''cannot update connection '' @ format_uint (cw_id cw) @
              '': new connection sensitivity level does not support model '' @ format_uint (dm_id m)]
        else [])) (da_models st (cw_id cw)))"

definition add_connection :: "'c conn_wrap \<Rightarrow> ('c, 'w) dal_state \<Rightarrow> ('c, 'w) dal_state" where
  "add_connection cw st = st\<lparr>da_connections := (da_connections st)(cw_id cw \<mapsto> cw)\<rparr>"

definition drop_connection :: "u64 \<Rightarrow> ('c, 'w) dal_state \<Rightarrow> ('c, 'w) dal_state" where
  "drop_connection c st = st\<lparr>da_connections := (da_connections st)(c := None)\<rparr>"

text \<open>The last part: opening the connection unless there is one already.\<close>

definition open_and_add ::
  "('c, 'w, 'v) dal_env \<Rightarrow> 'c conn_wrap \<Rightarrow> issue_helper \<Rightarrow> ('c, 'w) dal_state \<Rightarrow> dal_result \<times> ('c, 'w) dal_state" where
  "open_and_add env cw ih st =
     (if cw_conn cw \<noteq> None then (DalOk, update_issues ih (add_connection cw st))
      else case dal_connect env cw (da_world st) of
        None \<Rightarrow> (DalPanic, update_issues ih st)
      | Some (Inl e, w) \<Rightarrow>
          (DalOk, update_issues (conn_issues (cw_id cw) [e] ih) (add_connection cw (st\<lparr>da_world := w\<rparr>)))
      | Some (Inr c, w) \<Rightarrow> (DalOk, update_issues ih (add_connection (cw\<lparr>cw_conn := Some c\<rparr>) (st\<lparr>da_world := w\<rparr>))))"

definition close_old ::
  "('c, 'w, 'v) dal_env \<Rightarrow> 'c conn_wrap \<Rightarrow> ('c, 'w) dal_state \<Rightarrow> string option \<times> ('c, 'w) dal_state" where
  "close_old env old st =
     (case cw_conn old of
        None \<Rightarrow> (None, st)
      | Some c \<Rightarrow> (case de_close env c (da_world st) of (e, w) \<Rightarrow> (e, st\<lparr>da_world := w\<rparr>)))"

definition replace_connection ::
  "('c, 'w, 'v) dal_env \<Rightarrow> 'c conn_wrap \<Rightarrow> bool \<Rightarrow> ('c, 'w) dal_state \<Rightarrow> dal_result \<times> ('c, 'w) dal_state" where
  "replace_connection env cw is_default st =
     (let c = cw_id cw in
      if is_default \<and> da_default st \<noteq> 0 \<and> da_default st \<noteq> c
      then (DalErr (''different ID for default connection detecte (old: '' @ format_uint (da_default st) @ '', new: '' @ format_uint c @ '')''), st)
      else
        let st1 = (if is_default \<and> da_default st = 0 then st\<lparr>da_default := c\<rparr> else st);
            ih0 = ih_add_connection c new_helper;
            ih1 = (if \<not> level_includes (da_levels st1) (cw_level cw)
                   then conn_issues c [''cannot create connection '' @ format_uint c @ '': sensitivity level does not exist '' @ format_uint (cw_level cw)] ih0
                   else ih0)
        in case da_connections st1 c of
             None \<Rightarrow> open_and_add env cw ih1 st1
           | Some old \<Rightarrow>
               let es = replace_checks st1 cw in
               if es \<noteq> [] then (DalOk, update_issues (conn_issues c es ih1) st1)
               else case close_old env old st1 of
                 (Some e, st2) \<Rightarrow> (DalOk, update_issues (conn_issues c [e] ih1) st2)
               | (None, st2) \<Rightarrow> open_and_add env cw ih1 (drop_connection c st2))"

definition remove_connection :: "('c, 'w, 'v) dal_env \<Rightarrow> u64 \<Rightarrow> ('c, 'w) dal_state \<Rightarrow> dal_result \<times> ('c, 'w) dal_state" where
  "remove_connection env c st =
     (case da_connections st c of
        None \<Rightarrow> (DalErr (''cannot delete connection '' @ format_uint c @ '': connection does not exist''), st)
      | Some cw \<Rightarrow>
          (DalOk, update_issues (ih_add_connection c new_helper) (drop_connection c (snd (close_old env cw st)))))"

section \<open>Models\<close>

text \<open>
  What is wrong with a model, and whether finding out panics: the sensitivity level of a missing
  connection is read.
\<close>

definition level_issues :: "('c, 'w) dal_state \<Rightarrow> string \<Rightarrow> dal_model \<Rightarrow> bool \<times> string list" where
  "level_issues st what m =
     (let c = dm_connection m; l = dm_level m in
      if \<not> level_includes (da_levels st) l then (False, [model_error what c (dm_id m) (missing_level l)])
      else case da_connections st c of
        None \<Rightarrow> (True, [])
      | Some cw \<Rightarrow> (False, if level_subset (da_levels st) l (cw_level cw) then []
                          else [model_error what c (dm_id m) (greater_level ''connection'' l (cw_level cw))]))"

definition attr_issues :: "('c, 'w) dal_state \<Rightarrow> dal_model \<Rightarrow> string list" where
  "attr_issues st m =
     concat (map (\<lambda>a.
       if \<not> level_includes (da_levels st) (at_level a)
       then [model_error ''create model'' (dm_connection m) (dm_id m) (''attribute '' @ missing_level (at_level a))]
       else if level_subset (da_levels st) (at_level a) (dm_level m) then []
       else [model_error ''create model'' (dm_connection m) (dm_id m) (''attribute '' @ greater_level ''model'' (at_level a) (dm_level m))])
       (dm_attrs m))"

definition create_checks :: "('c, 'w) dal_state \<Rightarrow> dal_model \<Rightarrow> bool \<times> string list" where
  "create_checks st m =
     (let c = dm_connection m; err = model_error ''create model'' c (dm_id m);
          es = (if has_connection_issues st c then [err ''connection has issues''] else []) @
               (if da_connections st c = None then [err ''connection does not exist''] else []) @
               (if find_by_id st c (dm_id m) \<noteq> None then [err ''model already exists''] else [])
      in case level_issues st ''create model'' m of
           (True, es') \<Rightarrow> (True, es @ es')
         | (False, es') \<Rightarrow> (False, es @ es' @ attr_issues st m))"

definition set_model :: "nat \<Rightarrow> dal_model \<Rightarrow> ('c, 'w) dal_state \<Rightarrow> ('c, 'w) dal_state" where
  "set_model a m st = st\<lparr>da_heap := (da_heap st)(a := m)\<rparr>"

definition default_connection :: "nat \<Rightarrow> ('c, 'w) dal_state \<Rightarrow> ('c, 'w) dal_state" where
  "default_connection a st =
     (let m = da_heap st a in if dm_connection m = 0 then set_model a (m\<lparr>dm_connection := da_default st\<rparr>) st else st)"

fun check_models ::
  "nat list \<Rightarrow> issue_helper \<Rightarrow> ('c, 'w) dal_state \<Rightarrow> bool \<times> issue_helper \<times> ('c, 'w) dal_state" where
  "check_models [] ih st = (False, ih, st)"
| "check_models (a # as) ih st =
     (let st1 = default_connection a st; m = da_heap st1 a; ih1 = ih_add_model (dm_id m) ih in
      case create_checks st1 m of
        (True, es) \<Rightarrow> (True, model_issues (dm_id m) es ih1, st1)
      | (False, es) \<Rightarrow> check_models as (model_issues (dm_id m) es ih1) st1)"

text \<open>\<^const>\<open>None\<close> if a nil connection is called or the comparison of models panics.\<close>

definition register_model ::
  "('c, 'w, 'v) dal_env \<Rightarrow> dal_model \<Rightarrow> ('c, 'w) dal_state \<Rightarrow> (string list \<times> ('c, 'w) dal_state) option" where
  "register_model env m st =
     (case Option.bind (da_connections st (dm_connection m)) cw_conn of
        None \<Rightarrow> None
      | Some c \<Rightarrow>
          (case de_models env c (da_world st) of
             Inl e \<Rightarrow> Some ([e], st)
           | Inr available \<Rightarrow>
               (case find (\<lambda>x. dm_type x = dm_type m \<and> dm_resource x = dm_resource m) available of
                  Some existing \<Rightarrow>
                    (case diff_models existing m of
                       None \<Rightarrow> None
                     | Some d \<Rightarrow> Some (if 0 < length d then [model_error ''create model'' (dm_connection m) (dm_id m)
                         ''model already exists for connection but is not compatible with provided definition''] else [], st))
                | None \<Rightarrow>
                    (case de_create_model env c m (da_world st) of
                       (e, w) \<Rightarrow> Some (case e of None \<Rightarrow> [] | Some e \<Rightarrow> [e], st\<lparr>da_world := w\<rparr>)))))"

definition append_model :: "u64 \<Rightarrow> nat \<Rightarrow> ('c, 'w) dal_state \<Rightarrow> ('c, 'w) dal_state" where
  "append_model c a st = st\<lparr>da_models := (da_models st)(c := da_models st c @ [a])\<rparr>"

fun add_models ::
  "('c, 'w, 'v) dal_env \<Rightarrow> nat list \<Rightarrow> issue_helper \<Rightarrow> ('c, 'w) dal_state \<Rightarrow> bool \<times> issue_helper \<times> ('c, 'w) dal_state" where
  "add_models env [] ih st = (False, ih, st)"
| "add_models env (a # as) ih st =
     (let m = da_heap st a; c = dm_connection m in
      if has_connection_issues st c \<or> has_model_issues st (dm_id m)
      then add_models env as ih (append_model c a st)
      else case register_model env m st of
        None \<Rightarrow> (True, ih, st)
      | Some (es, st1) \<Rightarrow> add_models env as (model_issues (dm_id m) es ih) (append_model c a st1))"

text \<open>The models by connection, in the order of the connections; models without one form a group.\<close>

definition by_connection :: "u64 option list \<Rightarrow> nat list \<Rightarrow> ('c, 'w) dal_state \<Rightarrow> nat list" where
  "by_connection order as st =
     concat (map (\<lambda>g. filter (\<lambda>a. map_option cw_id (da_connections st (dm_connection (da_heap st a))) = g) as) order)"

definition create_model ::
  "('c, 'w, 'v) dal_env \<Rightarrow> u64 option list \<Rightarrow> nat list \<Rightarrow> ('c, 'w) dal_state \<Rightarrow> dal_result \<times> ('c, 'w) dal_state" where
  "create_model env order as st =
     (case check_models as new_helper st of
        (True, ih, st1) \<Rightarrow> (DalPanic, update_issues ih st1)
      | (False, ih, st1) \<Rightarrow>
          (case add_models env (by_connection order as st1) ih st1 of
             (p, ih2, st2) \<Rightarrow> (if p then DalPanic else DalOk, update_issues ih2 st2)))"

definition reload_model ::
  "('c, 'w, 'v) dal_env \<Rightarrow> u64 option list \<Rightarrow> nat list \<Rightarrow> ('c, 'w) dal_state \<Rightarrow> dal_result \<times> ('c, 'w) dal_state" where
  "reload_model env order as st =
     create_model env order as (st\<lparr>da_models := (\<lambda>_. []), da_model_issues := (\<lambda>_. [])\<rparr>)"

end
