(* ===== verification/DalOps.thy ===== *)
theory DalOps
  imports DalService
begin

text \<open>
  The rest of \<^verbatim>\<open>pkg/dal/service.go\<close>: deleting and changing models and attributes, changing the
  sensitivity levels, and the operations on records, which go to the driver of the connection.
\<close>

section \<open>Deleting models\<close>

text \<open>The identifiers of the models that are not there, which are skipped.\<close>

fun delete_checks ::
  "nat list \<Rightarrow> u64 list \<Rightarrow> issue_helper \<Rightarrow> ('c, 'w) dal_state \<Rightarrow> u64 list \<times> issue_helper \<times> ('c, 'w) dal_state" where
  "delete_checks [] skip ih st = (skip, ih, st)"
| "delete_checks (a # as) skip ih st =
     (let st1 = default_connection a st; m = da_heap st1 a; ih1 = ih_add_model (dm_id m) ih
      in delete_checks as (if find_by_resource st1 (dm_connection m) (dm_type m) (dm_resource m) = None then dm_id m # skip else skip)
           ih1 st1)"

definition delete_one :: "u64 list \<Rightarrow> ('c, 'w) dal_state \<Rightarrow> nat \<Rightarrow> ('c, 'w) dal_state" where
  "delete_one skip st a =
     (let m = da_heap st a; c = dm_connection m in
      if List.member skip (dm_id m) then st
      else st\<lparr>da_models := (da_models st)(c := filter (\<lambda>o'. dm_resource (da_heap st o') \<noteq> dm_resource m) (da_models st c))\<rparr>)"

definition delete_model :: "nat list \<Rightarrow> ('c, 'w) dal_state \<Rightarrow> dal_result \<times> ('c, 'w) dal_state" where
  "delete_model as st =
     (case delete_checks as [] new_helper st of
        (skip, ih, st1) \<Rightarrow> (DalOk, update_issues ih (foldl (delete_one skip) st1 as)))"

section \<open>Changing models\<close>

text \<open>The issues of the change: of the old model and of the new one.\<close>

definition old_issues :: "('c, 'w) dal_state \<Rightarrow> dal_model \<Rightarrow> dal_model \<Rightarrow> string list" where
  "old_issues st old new =
     (let c = dm_connection old; err = model_error ''update model'' c (dm_id old) in
      (if has_connection_issues st c then [err ''connection has issues''] else []) @
      (if da_connections st c = None then [err ''connection does not exist''] else []) @
      (if find_by_id st c (dm_id old) = None then [err ''model does not exist''] else []) @
      (if dm_ident old \<noteq> dm_ident new \<and> find_by_ident st (dm_connection new) (dm_ident new) = None
       then [model_error ''update model'' (dm_connection new) (dm_id new) ''model already exists''] else []))"

definition new_issues :: "('c, 'w) dal_state \<Rightarrow> dal_model \<Rightarrow> dal_model \<Rightarrow> bool \<times> string list" where
  "new_issues st old new =
     (let es = (if dm_connection old \<noteq> dm_connection new
                then [model_error ''update model'' (dm_connection old) (dm_id old) ''cannot change model connection''] else []);
          c = dm_connection new; l = dm_level new
      in if \<not> level_includes (da_levels st) l
         then (False, es @ [model_error ''update model'' c (dm_id new) (missing_level l)])
         else case da_connections st (dm_connection old) of
           None \<Rightarrow> (True, es)
         | Some cw \<Rightarrow> (False, es @ (if level_subset (da_levels st) l (cw_level cw) then []
             else [model_error ''update model'' c (dm_id new) (greater_level ''connection'' l (cw_level cw))])))"

fun replace_model :: "('c, 'w) dal_state \<Rightarrow> u64 \<Rightarrow> nat \<Rightarrow> nat list \<Rightarrow> nat list" where
  "replace_model st r new [] = [new]"
| "replace_model st r new (a # as) = (if dm_id (da_heap st a) = r then new # as else a # replace_model st r new as)"

definition update_registry :: "nat \<Rightarrow> nat \<Rightarrow> ('c, 'w) dal_state \<Rightarrow> ('c, 'w) dal_state" where
  "update_registry old new st =
     (let c = dm_connection (da_heap st old)
      in st\<lparr>da_models := (da_models st)(c := replace_model st (dm_id (da_heap st old)) new (da_models st c))\<rparr>)"

definition update_model ::
  "('c, 'w, 'v) dal_env \<Rightarrow> nat \<Rightarrow> nat \<Rightarrow> ('c, 'w) dal_state \<Rightarrow> dal_result \<times> ('c, 'w) dal_state" where
  "update_model env old_a new_a st =
     (let st1 = default_connection new_a (default_connection old_a st);
          old = da_heap st1 old_a; new = da_heap st1 new_a;
          ih1 = model_issues (dm_id old) (old_issues st1 old new) (ih_add_model (dm_id old) new_helper)
      in case new_issues st1 old new of
           (True, es) \<Rightarrow> (DalPanic, update_issues (model_issues (dm_id new) es ih1) st1)
         | (False, es) \<Rightarrow>
             let ih2 = model_issues (dm_id new) es ih1 in
             if has_connection_issues st1 (dm_connection new) \<or> has_model_issues st1 (dm_id new)
             then (DalOk, update_issues ih2 (update_registry old_a new_a st1))
             else case Option.bind (da_connections st1 (dm_connection old)) cw_conn of
               None \<Rightarrow> (DalPanic, update_issues ih2 st1)
             | Some c \<Rightarrow>
                 (case de_update_model env c old new (da_world st1) of
                    (e, w) \<Rightarrow>
                      let st2 = update_registry old_a new_a (st1\<lparr>da_world := w\<rparr>) in
                      (case e of
                         None \<Rightarrow> (DalOk, update_issues ih2 st2)
                       | Some e \<Rightarrow> (DalErr e, update_issues (model_issues (dm_id new) [e] ih2) st2))))"

section \<open>Changing attributes\<close>

text \<open>
  The changes: the old attribute is nil for an addition, the new one for a removal. The model the
  caller holds need not be the registered one.
\<close>

datatype attr_change = AddAttr dal_attr | DropAttr dal_attr | SwapAttr dal_attr dal_attr

fun old_attr :: "attr_change \<Rightarrow> dal_attr option" where
  "old_attr (AddAttr n) = None"
| "old_attr (DropAttr o') = Some o'"
| "old_attr (SwapAttr o' n) = Some o'"

fun new_attr :: "attr_change \<Rightarrow> dal_attr option" where
  "new_attr (AddAttr n) = Some n"
| "new_attr (DropAttr o') = None"
| "new_attr (SwapAttr o' n) = Some n"

definition attr_change_issues :: "('c, 'w) dal_state \<Rightarrow> dal_model \<Rightarrow> dal_attr option \<Rightarrow> string list" where
  "attr_change_issues st m new =
     (case new of
        None \<Rightarrow> []
      | Some a \<Rightarrow>
          let err = model_error ''update attribute for model'' (dm_connection m) (dm_id m) in
          if \<not> level_includes (da_levels st) (at_level a) then [err (missing_level (at_level a))]
          else if level_subset (da_levels st) (at_level a) (dm_level m) then []
          else [err (greater_level ''model'' (at_level a) (dm_level m))])"

fun replace_attr :: "string \<Rightarrow> dal_attr \<Rightarrow> dal_attr list \<Rightarrow> dal_attr list" where
  "replace_attr i new [] = []"
| "replace_attr i new (a # aa) = (if at_ident a = i then new # aa else a # replace_attr i new aa)"

text \<open>An addition goes to the caller's model, a removal or replacement to the registered one.\<close>

definition change_attrs :: "nat \<Rightarrow> nat \<Rightarrow> attr_change \<Rightarrow> ('c, 'w) dal_state \<Rightarrow> ('c, 'w) dal_state" where
  "change_attrs a reg ch st =
     (let m = da_heap st a; r = da_heap st reg in
      case ch of
        AddAttr n \<Rightarrow> set_model a (m\<lparr>dm_attrs := dm_attrs m @ [n]\<rparr>) st
      | DropAttr o' \<Rightarrow> set_model reg (r\<lparr>dm_attrs := filter (\<lambda>x. at_ident x \<noteq> at_ident o') (dm_attrs r)\<rparr>) st
      | SwapAttr o' n \<Rightarrow> set_model reg (r\<lparr>dm_attrs := replace_attr (at_ident o') n (dm_attrs r)\<rparr>) st)"

definition update_model_attribute ::
  "('c, 'w, 'v) dal_env \<Rightarrow> nat \<Rightarrow> attr_change \<Rightarrow> ('c, 'w) dal_state \<Rightarrow> dal_result \<times> ('c, 'w) dal_state" where
  "update_model_attribute env a ch st =
     (let m = da_heap st a; c = dm_connection m;
          ih1 = model_issues (dm_id m)
                  (if has_connection_issues st c
                   then [model_error ''update attribute for model'' c (dm_id m) ''connection has issues''] else [])
                  (ih_add_model (dm_id m) new_helper)
      in case find_by_id st c (dm_id m) of
           None \<Rightarrow> (DalPanic, update_issues ih1 st)
         | Some reg \<Rightarrow>
             let r = da_heap st reg;
                 ih2 = model_issues (dm_id r) (attr_change_issues st r (new_attr ch)) ih1
             in if has_connection_issues st c \<or> has_model_issues st (dm_id m)
                then (DalOk, update_issues ih2 (change_attrs a reg ch st))
                else case Option.bind (da_connections st (dm_connection r)) cw_conn of
                  None \<Rightarrow> (DalPanic, update_issues ih2 st)
                | Some cn \<Rightarrow>
                    (case de_update_attr env cn m (old_attr ch) (new_attr ch) (da_world st) of
                       (e, w) \<Rightarrow>
                         let st1 = change_attrs a reg ch (st\<lparr>da_world := w\<rparr>) in
                         (case e of
                            None \<Rightarrow> (DalOk, update_issues ih2 st1)
                          | Some e \<Rightarrow> (DalErr e, update_issues (model_issues (dm_id m) [e] ih2) st1))))"

text \<open>
  \<^verbatim>\<open>ComposeModuleFieldsUpdate\<close> of \<^verbatim>\<open>compose/dalutils/modules.go\<close>: the differences are made one by one,
  up to the first error.
\<close>

definition diff_change :: "model_diff \<Rightarrow> attr_change" where
  "diff_change d =
     (case (md_original d, md_asserted d) of
        (None, Some n) \<Rightarrow> AddAttr n
      | (Some o', None) \<Rightarrow> DropAttr o'
      | (Some o', Some n) \<Rightarrow> SwapAttr o' n)"

fun update_attributes ::
  "('c, 'w, 'v) dal_env \<Rightarrow> nat \<Rightarrow> model_diff list \<Rightarrow> ('c, 'w) dal_state \<Rightarrow> dal_result \<times> ('c, 'w) dal_state" where
  "update_attributes env a [] st = (DalOk, st)"
| "update_attributes env a (d # ds) st =
     (case update_model_attribute env a (diff_change d) st of
        (DalOk, st1) \<Rightarrow> update_attributes env a ds st1
      | (r, st1) \<Rightarrow> (r, st1))"

definition fields_update ::
  "('c, 'w, 'v) dal_env \<Rightarrow> nat \<Rightarrow> nat \<Rightarrow> ('c, 'w) dal_state \<Rightarrow> dal_result \<times> ('c, 'w) dal_state" where
  "fields_update env old new st =
     (case diff_models (da_heap st old) (da_heap st new) of
        None \<Rightarrow> (DalPanic, st)
      | Some ds \<Rightarrow> update_attributes env old ds st)"

section \<open>Sensitivity levels\<close>

fun check_connections :: "levels \<Rightarrow> 'c conn_wrap list \<Rightarrow> string option" where
  "check_connections li [] = None"
| "check_connections li (cw # cws) =
     (if \<not> level_includes li (cw_level cw) then Some (''connection sensitivity level missing '' @ format_uint (cw_level cw))
      else check_connections li cws)"

fun check_attrs :: "levels \<Rightarrow> u64 \<Rightarrow> dal_attr list \<Rightarrow> string option" where
  "check_attrs li l [] = None"
| "check_attrs li l (a # aa) =
     (if \<not> level_includes li (at_level a) then Some (''attribute sensitivity level missing '' @ format_uint (at_level a))
      else if \<not> level_subset li (at_level a) l
      then Some (''attribute sensitivity level '' @ format_uint (at_level a) @ '' greater then model sensitivity level '' @ format_uint l)
      else check_attrs li l aa)"

fun check_model_levels :: "('c, 'w) dal_state \<Rightarrow> levels \<Rightarrow> dal_model list \<Rightarrow> dal_result" where
  "check_model_levels st li [] = DalOk"
| "check_model_levels st li (m # mm) =
     (let err = DalErr (''cannot reload sensitivity levels: model sensitivity level missing '' @ format_uint (dm_level m)) in
      if \<not> level_includes li (dm_level m) then err
      else case da_connections st (dm_connection m) of
        None \<Rightarrow> DalPanic
      | Some cw \<Rightarrow>
          if \<not> level_subset li (dm_level m) (cw_level cw) then err
          else case check_attrs li (dm_level m) (dm_attrs m) of
            Some e \<Rightarrow> DalErr (''cannot reload sensitivity levels: '' @ e)
          | None \<Rightarrow> check_model_levels st li mm)"

text \<open>The orders in which the connections and the models of connections are visited.\<close>

definition validate_levels :: "u64 list \<Rightarrow> u64 list \<Rightarrow> levels \<Rightarrow> ('c, 'w) dal_state \<Rightarrow> dal_result" where
  "validate_levels corder morder li st =
     (case check_connections li (List.map_filter (da_connections st) corder) of
        Some e \<Rightarrow> DalErr (''cannot reload sensitivity levels: '' @ e)
      | None \<Rightarrow> check_model_levels st li (map (da_heap st) (search_models morder st)))"

definition set_levels ::
  "u64 list \<Rightarrow> u64 list \<Rightarrow> levels \<Rightarrow> ('c, 'w) dal_state \<Rightarrow> dal_result \<times> ('c, 'w) dal_state" where
  "set_levels corder morder li st =
     (case validate_levels corder morder li st of DalOk \<Rightarrow> (DalOk, st\<lparr>da_levels := li\<rparr>) | r \<Rightarrow> (r, st))"

definition reload_levels ::
  "u64 list \<Rightarrow> u64 list \<Rightarrow> sens_level list \<Rightarrow> ('c, 'w) dal_state \<Rightarrow> dal_result \<times> ('c, 'w) dal_state" where
  "reload_levels corder morder ls st = set_levels corder morder (level_index ls) st"

text \<open>\<^const>\<open>None\<close> if the operation does not end.\<close>

definition set_added ::
  "u64 list \<Rightarrow> u64 list \<Rightarrow> levels \<Rightarrow> sens_level list \<Rightarrow> ('c, 'w) dal_state \<Rightarrow> (dal_result \<times> ('c, 'w) dal_state) option" where
  "set_added corder morder li ls st =
     (case added_levels li ls of
        None \<Rightarrow> None
      | Some None \<Rightarrow> Some (DalPanic, st)
      | Some (Some li') \<Rightarrow> Some (set_levels corder morder li' st))"

definition create_level ::
  "u64 list \<Rightarrow> u64 list \<Rightarrow> sens_level list \<Rightarrow> ('c, 'w) dal_state \<Rightarrow> (dal_result \<times> ('c, 'w) dal_state) option" where
  "create_level corder morder ls st = set_added corder morder (da_levels st) ls st"

definition update_level ::
  "u64 list \<Rightarrow> u64 list \<Rightarrow> sens_level list \<Rightarrow> ('c, 'w) dal_state \<Rightarrow> (dal_result \<times> ('c, 'w) dal_state) option" where
  "update_level corder morder ls st = set_added corder morder (removed_levels (da_levels st) ls) ls st"

definition delete_level ::
  "u64 list \<Rightarrow> u64 list \<Rightarrow> sens_level list \<Rightarrow> ('c, 'w) dal_state \<Rightarrow> dal_result \<times> ('c, 'w) dal_state" where
  "delete_level corder morder ls st = set_levels corder morder (removed_levels (da_levels st) ls) st"

section \<open>Operations on records\<close>

record model_filter =
  mf_connection :: u64
  mf_id :: u64
  mf_type :: string
  mf_resource :: string

definition model_to_filter :: "dal_model \<Rightarrow> model_filter" where
  "model_to_filter m = \<lparr>mf_connection = dm_connection m, mf_id = dm_id m, mf_type = dm_type m, mf_resource = dm_resource m\<rparr>"

definition can_op_record :: "('c, 'w) dal_state \<Rightarrow> u64 \<Rightarrow> u64 \<Rightarrow> string option" where
  "can_op_record st c m =
     (if has_connection_issues st c
      then Some (''cannot perform record operation: connection '' @ format_uint c @ '' has issues'')
      else if has_model_issues st m
      then Some (''cannot perform record operation: model '' @ format_uint m @ '' has issues'')
      else None)"

definition get_by_filter :: "('c, 'w) dal_state \<Rightarrow> model_filter \<Rightarrow> nat option" where
  "get_by_filter st mf =
     (let c = (if mf_connection mf = 0 then da_default st else mf_connection mf) in
      if 0 < mf_id mf then find_by_id st c (mf_id mf) else find_by_resource st c (mf_type mf) (mf_resource mf))"

definition get_connection ::
  "('c, 'w, 'v) dal_env \<Rightarrow> ('c, 'w) dal_state \<Rightarrow> u64 \<Rightarrow> capabilities \<Rightarrow> (string + 'c) option" where
  "get_connection env st c caps =
     (let err = (\<lambda>t. Some (Inl (''could not connect to '' @ format_uint c @ '': connection '' @ format_uint c @ t))) in
      case da_connections st c of
        None \<Rightarrow> err '' does not exist''
      | Some cw \<Rightarrow>
          (case cw_conn cw of
             None \<Rightarrow> None
           | Some cn \<Rightarrow>
               if \<not> de_can env cn caps
               then err ('' does not support requested capabilities ['' @ join_strings '' '' (cap_diff caps (de_capabilities env cn)) @ '']'')
               else Some (Inr cn)))"

definition store_op_prep ::
  "('c, 'w, 'v) dal_env \<Rightarrow> ('c, 'w) dal_state \<Rightarrow> model_filter \<Rightarrow> capabilities \<Rightarrow> (string + dal_model \<times> 'c) option" where
  "store_op_prep env st mf caps =
     (case get_by_filter st mf of
        None \<Rightarrow> Some (Inl (''model '' @ format_uint (mf_id mf) @ '' does not exist''))
      | Some a \<Rightarrow>
          (case get_connection env st (dm_connection (da_heap st a)) caps of
             None \<Rightarrow> None
           | Some (Inl e) \<Rightarrow> Some (Inl e)
           | Some (Inr c) \<Rightarrow> Some (Inr (da_heap st a, c))))"

fun run_ops ::
  "('c, 'w, 'v) dal_env \<Rightarrow> string \<Rightarrow> 'c \<Rightarrow> dal_model \<Rightarrow> 'v dal_op list \<Rightarrow> ('c, 'w) dal_state \<Rightarrow> dal_result \<times> ('c, 'w) dal_state" where
  "run_ops env what c m [] st = (DalOk, st)"
| "run_ops env what c m (x # xs) st =
     (case de_run env c x m (da_world st) of
        (Some e, w) \<Rightarrow> (DalErr (what @ e), st\<lparr>da_world := w\<rparr>)
      | (None, w) \<Rightarrow> run_ops env what c m xs (st\<lparr>da_world := w\<rparr>))"

definition record_op ::
  "('c, 'w, 'v) dal_env \<Rightarrow> string \<Rightarrow> string \<Rightarrow> model_filter \<Rightarrow> capabilities \<Rightarrow> 'v dal_op list \<Rightarrow> ('c, 'w) dal_state \<Rightarrow> dal_result \<times> ('c, 'w) dal_state" where
  "record_op env what wrap mf caps xs st =
     (case can_op_record st (mf_connection mf) (mf_id mf) of
        Some e \<Rightarrow> (DalErr (what @ e), st)
      | None \<Rightarrow>
          (case store_op_prep env st mf caps of
             None \<Rightarrow> (DalPanic, st)
           | Some (Inl e) \<Rightarrow> (DalErr (what @ e), st)
           | Some (Inr (m, c)) \<Rightarrow> run_ops env wrap c m xs st))"

text \<open>Errors of the driver are wrapped where the code calls it for one value after the other.\<close>

definition dal_create ::
  "('c, 'w, 'v) dal_env \<Rightarrow> model_filter \<Rightarrow> capabilities \<Rightarrow> 'v list \<Rightarrow> ('c, 'w) dal_state \<Rightarrow> dal_result \<times> ('c, 'w) dal_state" where
  "dal_create env mf caps vs st = record_op env ''cannot create record: '' '''' mf caps [OpCreate vs] st"

definition dal_update ::
  "('c, 'w, 'v) dal_env \<Rightarrow> model_filter \<Rightarrow> capabilities \<Rightarrow> 'v list \<Rightarrow> ('c, 'w) dal_state \<Rightarrow> dal_result \<times> ('c, 'w) dal_state" where
  "dal_update env mf caps vs st =
     record_op env ''cannot update record: '' ''cannot update record: '' mf caps (map OpUpdate vs) st"

definition dal_search ::
  "('c, 'w, 'v) dal_env \<Rightarrow> model_filter \<Rightarrow> capabilities \<Rightarrow> 'v \<Rightarrow> ('c, 'w) dal_state \<Rightarrow> dal_result \<times> ('c, 'w) dal_state" where
  "dal_search env mf caps f st = record_op env ''cannot search record: '' '''' mf caps [OpSearch f] st"

definition dal_lookup ::
  "('c, 'w, 'v) dal_env \<Rightarrow> model_filter \<Rightarrow> capabilities \<Rightarrow> 'v \<Rightarrow> ('c, 'w) dal_state \<Rightarrow> dal_result \<times> ('c, 'w) dal_state" where
  "dal_lookup env mf caps v st = record_op env ''cannot lookup record: '' '''' mf caps [OpLookup v] st"

definition dal_delete ::
  "('c, 'w, 'v) dal_env \<Rightarrow> model_filter \<Rightarrow> capabilities \<Rightarrow> 'v list \<Rightarrow> ('c, 'w) dal_state \<Rightarrow> dal_result \<times> ('c, 'w) dal_state" where
  "dal_delete env mf caps vs st =
     record_op env ''cannot delete record: '' ''cannot delete record: '' mf caps (map OpDelete vs) st"

definition dal_truncate ::
  "('c, 'w, 'v) dal_env \<Rightarrow> model_filter \<Rightarrow> capabilities \<Rightarrow> ('c, 'w) dal_state \<Rightarrow> dal_result \<times> ('c, 'w) dal_state" where
  "dal_truncate env mf caps st = record_op env ''cannot truncate record: '' '''' mf caps [OpTruncate] st"

section \<open>Names\<close>

definition model_ident_formatter ::
  "('c, 'w, 'v) dal_env \<Rightarrow> ('c, 'w) dal_state \<Rightarrow> u64 \<Rightarrow> string option \<times> ident_formatter option" where
  "model_ident_formatter env st connection =
     (let c = (if connection = 0 then da_default st else connection) in
      case da_connections st c of
        None \<Rightarrow> (Some (''connection '' @ format_uint c @ '' does not exist''), None)
      | Some cw \<Rightarrow>
          let f = cw_formatter cw\<lparr>if_validator := None\<rparr> in
          if cw_validator cw = [] then (None, Some f)
          else (case de_parse env (cw_validator cw) of
                  Inl e \<Rightarrow> (Some e, Some f)
                | Inr v \<Rightarrow> (None, Some (f\<lparr>if_validator := Some v\<rparr>))))"

end
