(* ===== verification/DalFacts.thy ===== *)
theory DalFacts
  imports DalOps
begin

text \<open>
  Facts about the data of the layer: adding sensitivity levels to those there are never succeeds,
  which sets of levels are accepted, when two models do not differ, and the default name of a model.
\<close>

section \<open>Adding levels\<close>

abbreviation lvl :: "sens_level list \<Rightarrow> nat \<Rightarrow> int" where
  "lvl ls i \<equiv> lv_level (ls ! i)"

definition passed_all :: "sens_level list \<Rightarrow> sens_level list \<Rightarrow> nat \<Rightarrow> nat \<Rightarrow> bool" where
  "passed_all ss add i j \<longleftrightarrow> (\<exists>k. j \<le> k \<and> k < length add \<and> (\<forall>x. i \<le> x \<and> x < length ss \<longrightarrow> lvl ss x \<le> lvl add k))"

lemma passed_skip: "lvl add j < lvl ss i \<Longrightarrow> i < length ss \<Longrightarrow> passed_all ss add i (Suc j) = passed_all ss add i j"
  unfolding passed_all_def by (metis Suc_leD Suc_leI le_neq_implies_less not_less order_refl)

lemma passed_next:
  assumes "lvl ss i \<le> lvl add j" and "i < length ss" and "j < length add"
  shows "passed_all ss add (Suc i) j = passed_all ss add i j"
proof
  assume "passed_all ss add i j"
  then show "passed_all ss add (Suc i) j" by (auto simp: passed_all_def)
next
  assume "passed_all ss add (Suc i) j"
  then obtain k where k: "j \<le> k" "k < length add" "\<forall>x. Suc i \<le> x \<and> x < length ss \<longrightarrow> lvl ss x \<le> lvl add k"
    by (auto simp: passed_all_def)
  let ?k = "if lvl ss i \<le> lvl add k then k else j"
  have "\<forall>x. i \<le> x \<and> x < length ss \<longrightarrow> lvl ss x \<le> lvl add ?k"
  proof (intro allI impI)
    fix x
    assume x: "i \<le> x \<and> x < length ss"
    show "lvl ss x \<le> lvl add ?k"
    proof (cases "x = i")
      case True
      with assms(1) show ?thesis by simp
    next
      case False
      with x k(3) have "lvl ss x \<le> lvl add k" by simp
      with assms(1) show ?thesis by auto
    qed
  qed
  with k(1,2) assms(3) show "passed_all ss add i j" unfolding passed_all_def by (intro exI [of _ ?k]) auto
qed

lemma add_inner_spec:
  assumes "i < length ss"
  shows "case add_inner ss add i j acc of
      None \<Rightarrow> passed_all ss add i j
    | Some (i', j', acc') \<Rightarrow> \<not> passed_all ss add i j \<and> i' < length ss \<and> length add \<le> j'"
  using assms
proof (induction ss add i j acc rule: add_inner.induct)
  case (1 ss add i j acc)
  show ?case
  proof (cases "j < length add")
    case False
    then show ?thesis using 1(3) by (simp add: add_inner.simps [of ss add i j] passed_all_def)
  next
    case j: True
    show ?thesis
    proof (cases "lvl ss i \<le> lvl add j")
      case False
      then have skip: "passed_all ss add i (Suc j) = passed_all ss add i j" using 1(3) by (intro passed_skip) simp_all
      have "add_inner ss add i j acc = add_inner ss add i (Suc j) (acc @ [add ! j])"
        using j False 1(3) by (subst add_inner.simps) simp
      with 1(1) [of False i acc] j False 1(3) show ?thesis by (simp add: skip split: option.splits prod.splits)
    next
      case True
      note up = passed_next [OF True 1(3) j]
      show ?thesis
      proof (cases "Suc i < length ss")
        case False
        then have "add_inner ss add i j acc = None" using j True 1(3) by (subst add_inner.simps) simp
        moreover have "passed_all ss add (Suc i) j" using False j by (auto simp: passed_all_def)
        ultimately show ?thesis using up by simp
      next
        case i: True
        show ?thesis
        proof (cases "lvl ss (Suc i) > lvl add j")
          case g: True
          have "add_inner ss add i j acc = add_inner ss add (Suc i) (Suc j) (acc @ [ss ! i] @ [add ! j])"
            using j True i g 1(3) by (subst add_inner.simps) simp
          with 1(1) [of True "Suc i" "acc @ [ss ! i]"] j True i g 1(3) up show ?thesis
            by (simp add: passed_skip [OF g i] split: option.splits prod.splits)
        next
          case g: False
          have "add_inner ss add i j acc = add_inner ss add (Suc i) j (acc @ [ss ! i])"
            using j True i g 1(3) by (subst add_inner.simps) simp
          with 1(2) [of True "Suc i" "acc @ [ss ! i]"] j True i g 1(3) up show ?thesis
            by (simp split: option.splits prod.splits)
        qed
      qed
    qed
  qed
qed

lemma add_outer_stops:
  assumes "add_outer ss add i j acc = Some r"
  shows "\<not> (i < length ss \<and> length add \<le> j)"
proof (rule add_outer.raw_induct [OF _ assms])
  fix outer ss add i j acc r
  assume IH: "\<And>ss add i j acc r. outer ss add i j acc = Some r \<Longrightarrow> \<not> (i < length ss \<and> length add \<le> j)"
    and step: "(if i < length ss then case add_inner ss add i j acc of None \<Rightarrow> Some None
        | Some (i', j', acc') \<Rightarrow> outer ss add i' j' acc' else Some (Some (j, acc))) = Some r"
  show "\<not> (i < length ss \<and> length add \<le> j)"
  proof
    assume stuck: "i < length ss \<and> length add \<le> j"
    then have "add_inner ss add i j acc = Some (i, j, acc)" by (simp add: add_inner.simps [of ss add i j])
    with step stuck have "outer ss add i j acc = Some r" by simp
    with IH stuck show False by blast
  qed
qed

lemma add_outer_stuck: "i < length ss \<Longrightarrow> length add \<le> j \<Longrightarrow> add_outer ss add i j acc = None"
  using add_outer_stops [of ss add i j acc] by (cases "add_outer ss add i j acc") auto

lemma passed_all_Max:
  assumes "ss \<noteq> []"
  shows "passed_all ss add 0 0 \<longleftrightarrow> add \<noteq> [] \<and> Max (lv_level ` set ss) \<le> Max (lv_level ` set add)"
proof
  assume "passed_all ss add 0 0"
  then obtain k where k: "k < length add" "\<forall>x < length ss. lvl ss x \<le> lvl add k" by (auto simp: passed_all_def)
  then have "\<forall>s \<in> set ss. lv_level s \<le> lvl add k" by (metis in_set_conv_nth)
  moreover from k(1) have "lvl add k \<le> Max (lv_level ` set add)" by (intro Max_ge) auto
  ultimately show "add \<noteq> [] \<and> Max (lv_level ` set ss) \<le> Max (lv_level ` set add)"
    using assms k(1) by (auto intro: order_trans)
next
  assume add: "add \<noteq> [] \<and> Max (lv_level ` set ss) \<le> Max (lv_level ` set add)"
  then have "Max (lv_level ` set add) \<in> lv_level ` set add" by (intro Max_in) auto
  then obtain k where k: "k < length add" "lvl add k = Max (lv_level ` set add)" by (auto simp: in_set_conv_nth)
  have "lvl ss x \<le> lvl add k" if "x < length ss" for x
  proof -
    from that have "lvl ss x \<le> Max (lv_level ` set ss)" by (intro Max_ge) auto
    with add k(2) show ?thesis by linarith
  qed
  with k(1) show "passed_all ss add 0 0" by (auto simp: passed_all_def)
qed

lemma added_levels_spec:
  "added_levels li add =
     (if li_set li = [] then Some (Some (level_index (if length add = 1 then [] else add)))
      else if add \<noteq> [] \<and> Max (lv_level ` set (li_set li)) \<le> Max (lv_level ` set add) then Some None
      else None)"
proof (cases "li_set li = []")
  case True
  then have "add_outer (li_set li) add 0 0 [] = Some (Some (0, []))" by (simp add: add_outer.simps [of "[]"])
  then show ?thesis using True by (cases add; cases "tl add") (auto simp: added_levels_def)
next
  case False
  then have ne: "0 < length (li_set li)" by simp
  note outer = add_outer.simps [of "li_set li" add 0 0 "[]"]
  show ?thesis
  proof (cases "add_inner (li_set li) add 0 0 []")
    case None
    with add_inner_spec [OF ne, of add 0 "[]"] have "passed_all (li_set li) add 0 0" by simp
    with passed_all_Max [OF False] False None outer show ?thesis by (simp add: added_levels_def)
  next
    case (Some r)
    obtain i j acc where r: "r = (i, j, acc)" by (cases r)
    with Some add_inner_spec [OF ne, of add 0 "[]"]
    have "\<not> passed_all (li_set li) add 0 0" "i < length (li_set li)" "length add \<le> j" by simp_all
    with passed_all_Max [OF False] False Some outer add_outer_stuck show ?thesis by (simp add: added_levels_def r)
  qed
qed

text \<open>
  Creating sensitivity levels never succeeds when there are some: with a new level at least as
  high as all of them it panics, and otherwise it does not return. Without levels a single one
  is dropped and several are taken as they come.
\<close>

theorem create_level_outcome:
  "create_level corder morder ls st =
     (if li_set (da_levels st) = [] then Some (set_levels corder morder (level_index (if length ls = 1 then [] else ls)) st)
      else if ls \<noteq> [] \<and> Max (lv_level ` set (li_set (da_levels st))) \<le> Max (lv_level ` set ls) then Some (DalPanic, st)
      else None)"
  by (simp add: create_level_def set_added_def added_levels_spec)

section \<open>Accepted levels\<close>

definition attr_fits :: "levels \<Rightarrow> u64 \<Rightarrow> dal_attr \<Rightarrow> bool" where
  "attr_fits li l a \<longleftrightarrow> level_includes li (at_level a) \<and> level_subset li (at_level a) l"

definition model_fits :: "levels \<Rightarrow> u64 \<Rightarrow> dal_model \<Rightarrow> bool" where
  "model_fits li l m \<longleftrightarrow>
     level_includes li (dm_level m) \<and> level_subset li (dm_level m) l \<and> list_all (attr_fits li (dm_level m)) (dm_attrs m)"

lemma check_connections_None: "check_connections li cws = None \<longleftrightarrow> list_all (\<lambda>cw. level_includes li (cw_level cw)) cws"
  by (induction cws) auto

lemma check_attrs_None: "check_attrs li l aa = None \<longleftrightarrow> list_all (attr_fits li l) aa"
  by (induction aa) (auto simp: attr_fits_def)

lemma check_model_levels_ok:
  "check_model_levels st li mm = DalOk \<longleftrightarrow>
     (\<forall>m \<in> set mm. \<exists>cw. da_connections st (dm_connection m) = Some cw \<and> model_fits li (cw_level cw) m)"
proof (induction mm)
  case (Cons m mm)
  then show ?case
    by (auto simp: model_fits_def check_attrs_None [symmetric] Let_def split: option.splits)
qed simp

text \<open>
  C28: new sensitivity levels replace the old ones exactly if they contain the level of every
  connection and every registered model has a connection and its level, in the order of the levels,
  lies between those of its attributes and that of its connection; otherwise nothing changes.
\<close>

theorem reload_levels_exact:
  assumes "set corder = dom (da_connections st)" and "{c. da_models st c \<noteq> []} \<subseteq> set morder"
  shows "(case reload_levels corder morder ls st of
      (DalOk, st') \<Rightarrow> st' = st\<lparr>da_levels := level_index ls\<rparr> | (r, st') \<Rightarrow> st' = st) \<and>
    (fst (reload_levels corder morder ls st) = DalOk \<longleftrightarrow>
      (\<forall>cw \<in> ran (da_connections st). level_includes (level_index ls) (cw_level cw)) \<and>
      (\<forall>c. \<forall>a \<in> set (da_models st c). \<exists>cw. da_connections st (dm_connection (da_heap st a)) = Some cw \<and>
         model_fits (level_index ls) (cw_level cw) (da_heap st a)))"
proof -
  have cw: "set (List.map_filter (da_connections st) corder) = ran (da_connections st)"
    using assms(1) by (force simp: List.map_filter_def ran_def)
  have mm: "set (search_models morder st) = (\<Union>c. set (da_models st c))"
  proof
    show "(\<Union>c. set (da_models st c)) \<subseteq> set (search_models morder st)"
    proof
      fix a
      assume "a \<in> (\<Union>c. set (da_models st c))"
      then obtain c where c: "a \<in> set (da_models st c)" by blast
      then have "da_models st c \<noteq> []" by auto
      with assms(2) have "c \<in> set morder" by auto
      with c show "a \<in> set (search_models morder st)" by (auto simp: search_models_def)
    qed
  qed (auto simp: search_models_def)
  have "validate_levels corder morder (level_index ls) st = DalOk \<longleftrightarrow>
      (\<forall>cw \<in> ran (da_connections st). level_includes (level_index ls) (cw_level cw)) \<and>
      (\<forall>c. \<forall>a \<in> set (da_models st c). \<exists>cw. da_connections st (dm_connection (da_heap st a)) = Some cw \<and>
         model_fits (level_index ls) (cw_level cw) (da_heap st a))"
    unfolding validate_levels_def
    using check_connections_None [of "level_index ls" "List.map_filter (da_connections st) corder"]
      check_model_levels_ok [of st "level_index ls" "map (da_heap st) (search_models morder st)"] cw mm
    by (cases "check_connections (level_index ls) (List.map_filter (da_connections st) corder)") (auto simp: list_all_iff)
  then show ?thesis
    unfolding reload_levels_def set_levels_def
    by (cases "validate_levels corder morder (level_index ls) st") simp_all
qed

section \<open>Differences of models\<close>

abbreviation idents :: "dal_attr list \<Rightarrow> string list" where
  "idents \<equiv> map at_ident"

definition attr_view :: "dal_attr list \<Rightarrow> string \<Rightarrow> (string option \<times> u64) option" where
  "attr_view aa i = map_option (\<lambda>a. (map_option type_name (at_type a), at_level a)) (attr_index aa i)"

definition differ :: "dal_attr \<Rightarrow> dal_attr \<Rightarrow> bool" where
  "differ a b \<longleftrightarrow> map_option type_name (at_type a) \<noteq> map_option type_name (at_type b) \<or> at_level a \<noteq> at_level b"

definition apply_change :: "dal_attr list \<Rightarrow> attr_change \<Rightarrow> dal_attr list" where
  "apply_change aa ch =
     (case ch of
        AddAttr n \<Rightarrow> aa @ [n]
      | DropAttr o' \<Rightarrow> filter (\<lambda>x. at_ident x \<noteq> at_ident o') aa
      | SwapAttr o' n \<Rightarrow> replace_attr (at_ident o') n aa)"

lemma attr_index_ident: "attr_index aa i = Some a \<Longrightarrow> at_ident a = i \<and> a \<in> set aa"
  using find_SomeD [of "\<lambda>a. at_ident a = i" "rev aa" a] by (simp add: attr_index_def)

lemma attr_index_None: "attr_index aa i = None \<longleftrightarrow> i \<notin> set (idents aa)"
  by (auto simp: attr_index_def find_None)

lemma attr_index_distinct: "distinct (idents aa) \<Longrightarrow> attr_index aa i = find (\<lambda>a. at_ident a = i) aa"
proof (cases "attr_index aa i")
  case None
  then have "find (\<lambda>a. at_ident a = i) aa = None" by (auto simp: attr_index_None find_None)
  with None show ?thesis by simp
next
  case (Some a)
  assume d: "distinct (idents aa)"
  from Some have a: "at_ident a = i" "a \<in> set aa" using attr_index_ident by auto
  then have "find (\<lambda>a. at_ident a = i) aa \<noteq> None" by (auto simp: find_None)
  then obtain b where b: "find (\<lambda>a. at_ident a = i) aa = Some b" by auto
  with find_SomeD [OF b] a d have "a = b" by (auto simp: distinct_map inj_on_def)
  with Some b show ?thesis by simp
qed

lemma attr_index_append: "attr_index (aa @ [n]) i = (if at_ident n = i then Some n else attr_index aa i)"
  by (simp add: attr_index_def)

lemma attr_index_filter: "attr_index (filter (\<lambda>x. at_ident x \<noteq> k) aa) i = (if i = k then None else attr_index aa i)"
proof -
  have "find (\<lambda>a. at_ident a = i) (filter (\<lambda>x. at_ident x \<noteq> k) bb) = (if i = k then None else find (\<lambda>a. at_ident a = i) bb)" for bb
    by (induction bb) auto
  from this [of "rev aa"] show ?thesis by (simp only: attr_index_def rev_filter [symmetric])
qed

lemma idents_replace: "at_ident n = k \<Longrightarrow> idents (replace_attr k n aa) = idents aa"
  by (induction aa) auto

lemma attr_index_replace:
  assumes "at_ident n = k" and "distinct (idents aa)"
  shows "attr_index (replace_attr k n aa) i = (if i = k \<and> attr_index aa i \<noteq> None then Some n else attr_index aa i)"
proof -
  have "find (\<lambda>a. at_ident a = i) (replace_attr k n aa) =
      (if i = k \<and> find (\<lambda>a. at_ident a = i) aa \<noteq> None then Some n else find (\<lambda>a. at_ident a = i) aa)"
    using assms(1) by (induction aa) auto
  with assms show ?thesis by (cases "i = k") (simp_all add: attr_index_distinct idents_replace)
qed

definition diff_result :: "dal_attr option \<Rightarrow> dal_attr option \<Rightarrow> dal_attr option \<Rightarrow> dal_attr option" where
  "diff_result x y cur =
     (case x of
        None \<Rightarrow> cur
      | Some a \<Rightarrow>
          (case y of None \<Rightarrow> None | Some b \<Rightarrow> if differ a b then (if cur = None then None else Some b) else cur))"

lemma diff_old_step:
  assumes "diff_old bb (a # aa) = Some ds" and "distinct (idents cur)"
  shows "\<exists>ds1 ds2. ds = ds1 @ ds2 \<and> diff_old bb aa = Some ds2 \<and>
    distinct (idents (foldl apply_change cur (map diff_change ds1))) \<and>
    (\<forall>i. attr_index (foldl apply_change cur (map diff_change ds1)) i =
       (if i = at_ident a then diff_result (Some a) (attr_index bb i) (attr_index cur i) else attr_index cur i))"
proof (cases "attr_index bb (at_ident a)")
  case None
  with assms(1) obtain ds2 where "diff_old bb aa = Some ds2"
    "ds = [\<lparr>md_kind = AttributeMissing, md_original = Some a, md_asserted = None\<rparr>] @ ds2" by auto
  then show ?thesis using None assms(2)
    by (intro exI [of _ "[\<lparr>md_kind = AttributeMissing, md_original = Some a, md_asserted = None\<rparr>]"] exI [of _ ds2])
      (simp add: diff_change_def apply_change_def attr_index_filter diff_result_def distinct_map_filter)
next
  case (Some b)
  with attr_index_ident have b: "at_ident b = at_ident a" by blast
  obtain ta tb where t: "at_type a = Some ta" "at_type b = Some tb" using Some assms(1) by (cases "at_type a"; cases "at_type b") auto
  let ?d1 = "if type_name ta \<noteq> type_name tb then [\<lparr>md_kind = AttributeTypeMissmatch, md_original = Some a, md_asserted = Some b\<rparr>] else []"
  let ?d2 = "if at_level a \<noteq> at_level b then [\<lparr>md_kind = AttributeSensitivityMissmatch, md_original = Some a, md_asserted = Some b\<rparr>] else []"
  from Some t assms(1) obtain ds2 where ds: "diff_old bb aa = Some ds2" "ds = (?d1 @ ?d2) @ ds2" by auto
  have "differ a b \<longleftrightarrow> type_name ta \<noteq> type_name tb \<or> at_level a \<noteq> at_level b" by (simp add: differ_def t)
  with Some b assms(2) have "distinct (idents (foldl apply_change cur (map diff_change (?d1 @ ?d2)))) \<and>
    (\<forall>i. attr_index (foldl apply_change cur (map diff_change (?d1 @ ?d2))) i =
       (if i = at_ident a then diff_result (Some a) (attr_index bb i) (attr_index cur i) else attr_index cur i))"
    by (auto simp: diff_change_def apply_change_def attr_index_replace diff_result_def idents_replace)
  with ds show ?thesis by blast
qed

lemma diff_old_index:
  assumes "diff_old bb aa = Some ds" and "distinct (idents aa)" and "distinct (idents cur)"
  shows "distinct (idents (foldl apply_change cur (map diff_change ds))) \<and>
    attr_index (foldl apply_change cur (map diff_change ds)) i = diff_result (attr_index aa i) (attr_index bb i) (attr_index cur i)"
  using assms
proof (induction aa arbitrary: ds cur)
  case Nil
  then show ?case by (simp add: attr_index_def diff_result_def)
next
  case (Cons a aa)
  from diff_old_step [OF Cons.prems(1,3)] obtain ds1 ds2 where ds: "ds = ds1 @ ds2" "diff_old bb aa = Some ds2"
    and cur: "distinct (idents (foldl apply_change cur (map diff_change ds1)))"
      "\<And>i. attr_index (foldl apply_change cur (map diff_change ds1)) i =
        (if i = at_ident a then diff_result (Some a) (attr_index bb i) (attr_index cur i) else attr_index cur i)" by blast
  from Cons.IH [OF ds(2) _ cur(1)] Cons.prems(2) cur(2)
  have IH: "distinct (idents (foldl apply_change cur (map diff_change ds)))"
    "attr_index (foldl apply_change cur (map diff_change ds)) i = diff_result (attr_index aa i) (attr_index bb i)
      (if i = at_ident a then diff_result (Some a) (attr_index bb i) (attr_index cur i) else attr_index cur i)" by (simp_all add: ds(1))
  have "attr_index (a # aa) i = (if i = at_ident a then Some a else attr_index aa i)"
    using Cons.prems(2) by (simp add: attr_index_distinct)
  moreover have "i = at_ident a \<Longrightarrow> attr_index aa i = None" using Cons.prems(2) by (simp add: attr_index_None)
  ultimately show ?case using IH by (auto simp: diff_result_def)
qed

lemma diff_new_index:
  assumes "distinct (idents bb)"
  shows "attr_index (foldl apply_change cur (map diff_change (diff_new aa bb))) i =
    (case attr_index bb i of
       Some b \<Rightarrow> if attr_index aa i = None then Some b else attr_index cur i
     | None \<Rightarrow> attr_index cur i)"
  using assms
proof (induction bb arbitrary: cur)
  case Nil
  then show ?case by (simp add: diff_new_def attr_index_def)
next
  case (Cons b bb)
  then have b: "attr_index bb (at_ident b) = None" by (simp add: attr_index_None)
  have "attr_index (b # bb) i = (if i = at_ident b then Some b else attr_index bb i)"
    using Cons.prems by (simp add: attr_index_distinct)
  moreover have "foldl apply_change cur (map diff_change (diff_new aa (b # bb))) =
      foldl apply_change (if attr_index aa (at_ident b) = None then cur @ [b] else cur) (map diff_change (diff_new aa bb))"
    by (simp add: diff_new_def diff_change_def apply_change_def)
  ultimately show ?case using Cons b by (auto simp: attr_index_append split: option.splits)
qed

lemma diff_applied:
  assumes "diff_models a b = Some ds" and "distinct (idents (dm_attrs a))" and "distinct (idents (dm_attrs b))"
  shows "attr_view (foldl apply_change (dm_attrs a) (map diff_change ds)) = attr_view (dm_attrs b)"
proof
  fix i
  from assms(1) obtain ds1 where ds1: "diff_old (dm_attrs b) (dm_attrs a) = Some ds1"
    and ds: "ds = ds1 @ diff_new (dm_attrs a) (dm_attrs b)" by (auto simp: diff_models_def)
  from diff_old_index [OF ds1 assms(2,2), of i] diff_new_index [OF assms(3), of "foldl apply_change (dm_attrs a) (map diff_change ds1)" "dm_attrs a" i]
  show "attr_view (foldl apply_change (dm_attrs a) (map diff_change ds)) i = attr_view (dm_attrs b) i"
    by (auto simp: ds attr_view_def diff_result_def differ_def split: option.splits if_splits)
qed

lemma change_attrs_own:
  "da_heap (foldl (\<lambda>st d. change_attrs a a (diff_change d) st) st ds) a =
     (da_heap st a)\<lparr>dm_attrs := foldl apply_change (dm_attrs (da_heap st a)) (map diff_change ds)\<rparr>"
proof (induction ds arbitrary: st)
  case (Cons d ds)
  have "da_heap (change_attrs a a (diff_change d) st) a = (da_heap st a)\<lparr>dm_attrs := apply_change (dm_attrs (da_heap st a)) (diff_change d)\<rparr>"
    by (simp add: change_attrs_def apply_change_def set_model_def Let_def split: attr_change.split)
  with Cons show ?case by simp
qed simp


section \<open>Names of models\<close>

definition key_mark :: "string \<Rightarrow> string" where
  "key_mark k = ''{{'' @ k @ ''}}''"

definition plain_key :: "string \<Rightarrow> bool" where
  "plain_key k \<longleftrightarrow> CHR ''}'' \<notin> set k"

lemma is_prefix_of_iff: "is_prefix_of p s \<longleftrightarrow> (\<exists>r. s = p @ r)"
  by (induction p s rule: is_prefix_of.induct) auto

lemma key_mark_prefix:
  assumes "plain_key k" and "plain_key k'"
  shows "is_prefix_of (key_mark k') (key_mark k @ rest) \<longleftrightarrow> k' = k"
proof
  assume "is_prefix_of (key_mark k') (key_mark k @ rest)"
  then obtain r where "k @ ''}}'' @ rest = k' @ ''}}'' @ r" by (auto simp: is_prefix_of_iff key_mark_def)
  then have "takeWhile (\<lambda>c. c \<noteq> CHR ''}'') (k @ ''}}'' @ rest) = takeWhile (\<lambda>c. c \<noteq> CHR ''}'') (k' @ ''}}'' @ r)" by simp
  moreover have "takeWhile (\<lambda>c. c \<noteq> CHR ''}'') (l @ ''}}'' @ x) = l" if "plain_key l" for l x
    using that by (subst takeWhile_append2) (auto simp: plain_key_def)
  ultimately show "k' = k" using assms by metis
qed (auto simp: is_prefix_of_iff)

definition marked :: "(string \<times> string) list \<Rightarrow> (string \<times> string) list" where
  "marked ps = map (\<lambda>p. (key_mark (fst p), snd p)) ps"

lemma template_keys_marked: "template_keys (concat (map (\<lambda>p. [fst p, snd p]) ps)) = Some (marked ps)"
  by (induction ps) (simp_all add: marked_def key_mark_def)

lemma find_marked:
  assumes "distinct (map fst ps)" and "\<forall>p \<in> set ps. plain_key (fst p)" and "p \<in> set ps"
  shows "find (\<lambda>x. is_prefix_of (fst x) (key_mark (fst p) @ rest)) (marked ps) = Some (key_mark (fst p), snd p)"
  using assms
proof (induction ps)
  case (Cons q ps)
  then have "is_prefix_of (key_mark (fst q)) (key_mark (fst p) @ rest) \<longleftrightarrow> fst q = fst p" by (intro key_mark_prefix) auto
  moreover from Cons.prems(1,3) have "fst q = fst p \<Longrightarrow> q = p" by force
  ultimately show ?case using Cons by (auto simp: marked_def)
qed simp

lemma go_replace_mark:
  assumes "distinct (map fst ps)" and "\<forall>p \<in> set ps. plain_key (fst p)" and "p \<in> set ps"
  shows "go_replace (marked ps) (key_mark (fst p) @ rest) = snd p @ go_replace (marked ps) rest"
proof -
  obtain s where s: "key_mark (fst p) @ rest = CHR ''{'' # s" "drop (length (key_mark (fst p)) - 1) s = rest"
    by (simp add: key_mark_def)
  with find_marked [OF assms, of rest] show ?thesis by simp
qed

lemma go_replace_other: "c \<noteq> CHR ''{'' \<Longrightarrow> go_replace (marked ps) (c # s) = c # go_replace (marked ps) s"
proof -
  assume "c \<noteq> CHR ''{''"
  then have "find (\<lambda>x. is_prefix_of (fst x) (c # s)) (marked ps) = None" by (auto simp: find_None marked_def key_mark_def)
  then show ?thesis by simp
qed

lemma go_replace_join:
  assumes "distinct (map fst ps)" and "\<forall>p \<in> set ps. plain_key (fst p)" and "set qs \<subseteq> set ps"
  shows "go_replace (marked ps) (join_strings ''_'' (map fst (marked qs))) = join_strings ''_'' (map snd qs)"
  using assms(3)
proof (induction qs)
  case Nil
  then show ?case by (simp add: marked_def)
next
  case (Cons q qs)
  note mark = go_replace_mark [OF assms(1,2), of q]
  show ?case
  proof (cases qs)
    case Nil
    with mark [of "[]"] Cons.prems show ?thesis by (simp add: marked_def)
  next
    case (Cons q' qs')
    then have "join_strings ''_'' (map fst (marked (q # qs))) = key_mark (fst q) @ CHR ''_'' # join_strings ''_'' (map fst (marked qs))"
      by (simp add: marked_def)
    with mark [of "CHR ''_'' # join_strings ''_'' (map fst (marked qs))"] go_replace_other [of "CHR ''_''"] Cons.IH Cons.prems Cons
    show ?thesis by simp
  qed
qed

text \<open>
  Without a template the name of a model in a partition consists of the values of the
  parameters, joined by underscores, whatever the values contain; it is refused if the validator
  says so or fails.
\<close>

theorem default_model_name:
  assumes "if_partition f = []" and "ps \<noteq> []" and "distinct (map fst ps)" and "\<forall>p \<in> set ps. CHR ''}'' \<notin> set (fst p)"
  shows "model_ident f True [] (concat (map (\<lambda>p. [fst p, snd p]) ps)) =
    (let name = join_strings ''_'' (map snd ps)
     in Some (name, case if_validator f of None \<Rightarrow> True | Some v \<Rightarrow> (case v name of Inl e \<Rightarrow> False | Inr b \<Rightarrow> b)))"
proof -
  have plain: "\<forall>p \<in> set ps. plain_key (fst p)" using assms(4) by (simp add: plain_key_def)
  from assms(2) obtain p ps' where ps: "ps = p # ps'" by (cases ps) auto
  have "join_strings ''_'' (map fst (marked ps)) \<noteq> []" by (cases ps') (simp_all add: ps marked_def key_mark_def)
  with assms(1) go_replace_join [OF assms(3) plain, of ps] template_keys_marked [of ps] show ?thesis
    by (simp add: model_ident_def model_template_def Let_def)
qed

theorem default_model_name_witness:
  "model_ident \<lparr>if_model = ''compose_record'', if_attribute = ''values'', if_partition = [], if_validator = None\<rparr> True []
     [''namespace'', ''crm'', ''module'', ''{{namespace}}''] = Some (''crm_{{namespace}}'', True)"
  using default_model_name [of "\<lparr>if_model = ''compose_record'', if_attribute = ''values'', if_partition = [], if_validator = None\<rparr>"
      "[(''namespace'', ''crm''), (''module'', ''{{namespace}}'')]"] by simp

end
