(* ===== verification/DalProps.thy ===== *)
theory DalProps
  imports DalFacts
begin

text \<open>
  Runs of the data access layer: connections that could not be opened are marked by issues, so
  operations on records that name their connection never call a missing driver; what the
  registration of a model leaves behind.
\<close>

section \<open>Runs\<close>

text \<open>Callers may change the models they hold at any time.\<close>

inductive dal_step :: "('c, 'w, 'v) dal_env \<Rightarrow> ('c, 'w) dal_state \<Rightarrow> ('c, 'w) dal_state \<Rightarrow> bool" for env where
  step_models: "dal_step env st (st\<lparr>da_heap := h\<rparr>)"
| step_replace: "dal_step env st (snd (replace_connection env cw is_default st))"
| step_remove: "dal_step env st (snd (remove_connection env c st))"
| step_create: "dal_step env st (snd (create_model env order as st))"
| step_reload: "dal_step env st (snd (reload_model env order as st))"
| step_delete: "dal_step env st (snd (delete_model as st))"
| step_update: "dal_step env st (snd (update_model env old new st))"
| step_attr: "dal_step env st (snd (update_model_attribute env a ch st))"
| step_reload_levels: "dal_step env st (snd (reload_levels corder morder ls st))"
| step_create_level: "create_level corder morder ls st = Some (r, st') \<Longrightarrow> dal_step env st st'"
| step_update_level: "update_level corder morder ls st = Some (r, st') \<Longrightarrow> dal_step env st st'"
| step_delete_level: "dal_step env st (snd (delete_level corder morder ls st))"
| step_record: "dal_step env st (snd (record_op env what wrap mf caps xs st))"

definition connections_ok :: "('c, 'w) dal_state \<Rightarrow> bool" where
  "connections_ok st \<longleftrightarrow>
     (\<forall>c cw. da_connections st c = Some cw \<longrightarrow> cw_id cw = c \<and> (cw_conn cw = None \<longrightarrow> has_connection_issues st c))"

text \<open>Nearly all operations leave connections and their issues alone.\<close>

definition conn_part :: "('c, 'w) dal_state \<Rightarrow> (u64 \<rightharpoonup> 'c conn_wrap) \<times> (u64 \<Rightarrow> string list)" where
  "conn_part st = (da_connections st, da_conn_issues st)"

abbreviation same_connections :: "('c, 'w) dal_state \<Rightarrow> ('c, 'w) dal_state \<Rightarrow> bool" where
  "same_connections st st' \<equiv> conn_part st' = conn_part st"

lemma same_ok: "same_connections st st' \<Longrightarrow> connections_ok st \<Longrightarrow> connections_ok st'"
  by (simp add: conn_part_def connections_ok_def has_connection_issues_def)

text \<open>Helpers that name no connection.\<close>

definition models_only :: "issue_helper \<Rightarrow> bool" where
  "models_only ih \<longleftrightarrow> ih_connections ih = [] \<and> ih_conn ih = (\<lambda>_. [])"

lemma models_only_intros [simp]:
  "models_only new_helper" "models_only (ih_add_model m ih) = models_only ih" "models_only (model_issues m es ih) = models_only ih"
  by (simp_all add: models_only_def new_helper_def ih_add_model_def model_issues_def)

lemma same_update_issues [simp]: "models_only ih \<Longrightarrow> conn_part (update_issues ih st) = conn_part st"
  by (simp add: models_only_def conn_part_def update_issues_def)

lemma same_updates [simp]:
  "conn_part (st\<lparr>da_heap := h\<rparr>) = conn_part st"
  "conn_part (st\<lparr>da_world := w\<rparr>) = conn_part st"
  "conn_part (st\<lparr>da_models := mm\<rparr>) = conn_part st"
  "conn_part (st\<lparr>da_levels := li\<rparr>) = conn_part st"
  "conn_part (set_model a m st) = conn_part st"
  "conn_part (default_connection a st) = conn_part st"
  "conn_part (append_model c a st) = conn_part st"
  "conn_part (update_registry old new st) = conn_part st"
  "conn_part (change_attrs a reg ch st) = conn_part st"
  by (simp_all add: conn_part_def set_model_def default_connection_def append_model_def update_registry_def
      change_attrs_def Let_def split: attr_change.split)

lemma check_models_same:
  "models_only ih \<Longrightarrow> check_models as ih st = (p, ih', st') \<Longrightarrow> models_only ih' \<and> same_connections st st'"
proof (induction as arbitrary: ih st)
  case (Cons a as)
  let ?st = "default_connection a st"
  obtain q es where q: "create_checks ?st (da_heap ?st a) = (q, es)" by (cases "create_checks ?st (da_heap ?st a)")
  show ?case
  proof (cases q)
    case True
    with Cons.prems q show ?thesis by (auto simp: Let_def)
  next
    case False
    with Cons.prems q Cons.IH [of "model_issues (dm_id (da_heap ?st a)) es (ih_add_model (dm_id (da_heap ?st a)) ih)" ?st]
    show ?thesis by (auto simp: Let_def)
  qed
qed simp

lemma register_model_same: "register_model env m st = Some (es, st') \<Longrightarrow> same_connections st st'"
  by (auto simp: register_model_def split: option.splits sum.splits prod.splits)

lemma add_models_same:
  "models_only ih \<Longrightarrow> add_models env as ih st = (p, ih', st') \<Longrightarrow> models_only ih' \<and> same_connections st st'"
proof (induction as arbitrary: ih st)
  case (Cons a as)
  let ?m = "da_heap st a" and ?c = "dm_connection (da_heap st a)"
  show ?case
  proof (cases "has_connection_issues st ?c \<or> has_model_issues st (dm_id ?m)")
    case True
    from True Cons.prems Cons.IH [of ih "append_model ?c a st"] show ?thesis by (auto simp: Let_def)
  next
    case False
    show ?thesis
    proof (cases "register_model env ?m st")
      case None
      with False Cons.prems show ?thesis by (simp add: Let_def)
    next
      case (Some r)
      obtain es st1 where r: "r = (es, st1)" by (cases r)
      with Some register_model_same have "same_connections st (append_model ?c a st1)" by fastforce
      with False Some r Cons.prems Cons.IH [of "model_issues (dm_id ?m) es ih" "append_model ?c a st1"]
      show ?thesis by (auto simp: Let_def)
    qed
  qed
qed simp

lemma create_model_same: "same_connections st (snd (create_model env order as st))"
proof -
  obtain p ih st1 where c: "check_models as new_helper st = (p, ih, st1)" by (cases "check_models as new_helper st")
  from check_models_same [OF _ c] have ih: "models_only ih" "same_connections st st1" by simp_all
  obtain p2 ih2 st2 where a: "add_models env (by_connection order as st1) ih st1 = (p2, ih2, st2)"
    by (cases "add_models env (by_connection order as st1) ih st1")
  from add_models_same [OF ih(1) a] ih(2) have "models_only ih2" "same_connections st st2" by auto
  with ih c a show ?thesis by (cases p) (simp_all add: create_model_def)
qed

lemma delete_checks_same:
  "models_only ih \<Longrightarrow> delete_checks as skip ih st = (skip', ih', st') \<Longrightarrow> models_only ih' \<and> same_connections st st'"
proof (induction as arbitrary: skip ih st)
  case (Cons a as)
  let ?st = "default_connection a st"
  from Cons.prems Cons.IH [of "ih_add_model (dm_id (da_heap ?st a)) ih" _ ?st] show ?case
    by (auto simp: Let_def split: if_splits)
qed simp

lemma delete_model_same: "same_connections st (snd (delete_model as st))"
proof -
  obtain skip ih st1 where c: "delete_checks as [] new_helper st = (skip, ih, st1)" by (cases "delete_checks as [] new_helper st")
  have "same_connections st (foldl (delete_one skip) st1 as)" if "same_connections st st1" for st1
    using that by (induction as arbitrary: st1) (auto simp: delete_one_def Let_def)
  with delete_checks_same [OF _ c] c show ?thesis by (simp add: delete_model_def)
qed

lemma update_model_same: "same_connections st (snd (update_model env old new st))"
  by (auto simp: update_model_def Let_def split: prod.split option.split bool.split)

lemma update_model_attribute_same: "same_connections st (snd (update_model_attribute env a ch st))"
  by (auto simp: update_model_attribute_def Let_def split: prod.split option.split)

lemma set_levels_same: "same_connections st (snd (set_levels corder morder li st))"
  by (simp add: set_levels_def split: dal_result.split)

lemma set_added_same: "set_added corder morder li ls st = Some (r, st') \<Longrightarrow> same_connections st st'"
  using set_levels_same [where st = st] by (auto simp: set_added_def split: option.splits) (metis snd_conv)

lemma run_ops_same: "same_connections st (snd (run_ops env what c m xs st))"
proof (induction xs arbitrary: st)
  case (Cons x xs)
  then show ?case by (auto split: prod.split option.split)
qed simp

lemma record_op_same: "same_connections st (snd (record_op env what wrap mf caps xs st))"
  using run_ops_same by (auto simp: record_op_def split: option.split sum.split prod.split)

section \<open>Connections\<close>

lemma close_old_same: "close_old env old st = (e, st') \<Longrightarrow> same_connections st st'"
  by (auto simp: close_old_def split: option.splits prod.splits)

lemma ok_drop: "connections_ok st \<Longrightarrow> connections_ok (drop_connection c st)"
  by (auto simp: connections_ok_def drop_connection_def has_connection_issues_def split: if_splits)

definition only_connection :: "u64 \<Rightarrow> issue_helper \<Rightarrow> bool" where
  "only_connection c ih \<longleftrightarrow> ih_connections ih = [c] \<and> (\<forall>d. d \<noteq> c \<longrightarrow> ih_conn ih d = [])"

lemma only_connection_intros [simp]:
  "only_connection c (ih_add_connection c new_helper)" "only_connection c (conn_issues c es ih) = only_connection c ih"
  by (simp_all add: only_connection_def ih_add_connection_def new_helper_def conn_issues_def)

lemma ok_update_issues:
  assumes "connections_ok st" and "only_connection c ih" and "da_connections st c = None \<or> ih_conn ih c \<noteq> []"
  shows "connections_ok (update_issues ih st)"
  using assms by (auto simp: connections_ok_def only_connection_def update_issues_def has_connection_issues_def)

lemma ok_added:
  assumes "connections_ok st" and "only_connection (cw_id cw) ih" and "cw_conn cw \<noteq> None \<or> ih_conn ih (cw_id cw) \<noteq> []"
  shows "connections_ok (update_issues ih (add_connection cw st))"
  using assms
  by (auto simp: connections_ok_def only_connection_def update_issues_def has_connection_issues_def add_connection_def split: if_splits)

lemma open_and_add_ok:
  assumes "connections_ok st" and "only_connection (cw_id cw) ih" and "da_connections st (cw_id cw) = None"
  shows "connections_ok (snd (open_and_add env cw ih st))"
proof (cases "cw_conn cw \<noteq> None")
  case True
  with assms show ?thesis by (simp add: open_and_add_def ok_added)
next
  case False
  have w: "connections_ok (st\<lparr>da_world := w\<rparr>)" for w
    using assms(1) by (simp add: connections_ok_def has_connection_issues_def)
  show ?thesis
  proof (cases "dal_connect env cw (da_world st)")
    case None
    with False assms show ?thesis by (simp add: open_and_add_def ok_update_issues)
  next
    case (Some r)
    obtain x w' where r: "r = (x, w')" by (cases r)
    show ?thesis
    proof (cases x)
      case (Inl e)
      have "ih_conn (conn_issues (cw_id cw) [e] ih) (cw_id cw) \<noteq> []" by (simp add: conn_issues_def)
      with False Some r Inl assms w show ?thesis by (simp add: open_and_add_def ok_added)
    next
      case (Inr cn)
      with ok_added [OF w, of "cw\<lparr>cw_conn := Some cn\<rparr>" ih w'] False Some r assms show ?thesis by (simp add: open_and_add_def)
    qed
  qed
qed

lemma replace_connection_ok:
  assumes "connections_ok st"
  shows "connections_ok (snd (replace_connection env cw is_default st))"
proof (cases "is_default \<and> da_default st \<noteq> 0 \<and> da_default st \<noteq> cw_id cw")
  case True
  with assms show ?thesis by (simp add: replace_connection_def Let_def)
next
  case False
  define st1 where "st1 = (if is_default \<and> da_default st = 0 then st\<lparr>da_default := cw_id cw\<rparr> else st)"
  define ih where "ih = (if \<not> level_includes (da_levels st1) (cw_level cw)
      then conn_issues (cw_id cw) [''cannot create connection '' @ format_uint (cw_id cw) @ '': sensitivity level does not exist '' @ format_uint (cw_level cw)]
        (ih_add_connection (cw_id cw) new_helper)
      else ih_add_connection (cw_id cw) new_helper)"
  have ih: "only_connection (cw_id cw) ih" by (simp add: ih_def)
  have ok: "connections_ok st1" using assms by (simp add: st1_def connections_ok_def has_connection_issues_def)
  have eq: "replace_connection env cw is_default st =
      (case da_connections st1 (cw_id cw) of
         None \<Rightarrow> open_and_add env cw ih st1
       | Some old \<Rightarrow>
           let es = replace_checks st1 cw in
           if es \<noteq> [] then (DalOk, update_issues (conn_issues (cw_id cw) es ih) st1)
           else case close_old env old st1 of
             (Some e, st2) \<Rightarrow> (DalOk, update_issues (conn_issues (cw_id cw) [e] ih) st2)
           | (None, st2) \<Rightarrow> open_and_add env cw ih (drop_connection (cw_id cw) st2))"
    using False unfolding replace_connection_def Let_def st1_def ih_def by (simp only: if_False)
  have issues: "ih_conn (conn_issues (cw_id cw) es ih) (cw_id cw) \<noteq> []" if "es \<noteq> []" for es
    using that by (simp add: conn_issues_def)
  show ?thesis
  proof (cases "da_connections st1 (cw_id cw)")
    case None
    with open_and_add_ok [OF ok ih] show ?thesis by (simp add: eq)
  next
    case (Some old)
    obtain e st2 where close: "close_old env old st1 = (e, st2)" by (cases "close_old env old st1")
    from close_old_same [OF this] ok have ok2: "connections_ok st2" by (rule same_ok)
    have "connections_ok (update_issues (conn_issues (cw_id cw) es ih) st1)" if "es \<noteq> []" for es
      using ok_update_issues [of st1 "cw_id cw" "conn_issues (cw_id cw) es ih"] that ok ih issues by simp
    moreover have "connections_ok (update_issues (conn_issues (cw_id cw) [e] ih) st2)" for e
      using ok_update_issues [of st2 "cw_id cw" "conn_issues (cw_id cw) [e] ih"] ok2 ih issues by simp
    moreover have "connections_ok (snd (open_and_add env cw ih (drop_connection (cw_id cw) st2)))"
      by (rule open_and_add_ok [OF ok_drop [OF ok2] ih]) (simp add: drop_connection_def)
    ultimately show ?thesis using Some close by (cases e) (simp_all add: eq Let_def)
  qed
qed

lemma remove_connection_ok:
  assumes "connections_ok st"
  shows "connections_ok (snd (remove_connection env c st))"
proof (cases "da_connections st c")
  case (Some cw)
  obtain e st2 where close: "close_old env cw st = (e, st2)" by (cases "close_old env cw st")
  from close_old_same [OF this] assms have "connections_ok st2" by (rule same_ok)
  with ok_update_issues [OF ok_drop, of st2 c "ih_add_connection c new_helper" c] Some close show ?thesis
    by (simp add: remove_connection_def drop_connection_def)
qed (use assms in \<open>simp add: remove_connection_def\<close>)

lemma dal_step_ok: "dal_step env st st' \<Longrightarrow> connections_ok st \<Longrightarrow> connections_ok st'"
proof (induction rule: dal_step.induct)
  case (step_reload st order as)
  have "connections_ok (st\<lparr>da_models := (\<lambda>_. []), da_model_issues := (\<lambda>_. [])\<rparr>)"
    using step_reload by (simp add: connections_ok_def has_connection_issues_def)
  with same_ok [OF create_model_same] show ?case by (simp add: reload_model_def)
next
  case (step_create_level corder morder ls st r st')
  then show ?case using same_ok set_added_same by (fastforce simp: create_level_def)
next
  case (step_update_level corder morder ls st r st')
  then show ?case using same_ok set_added_same by (fastforce simp: update_level_def)
qed (auto intro: replace_connection_ok remove_connection_ok same_ok [OF create_model_same] same_ok [OF delete_model_same]
      same_ok [OF update_model_same] same_ok [OF update_model_attribute_same] same_ok [OF set_levels_same]
      same_ok [OF record_op_same] same_ok simp: reload_levels_def delete_level_def)

section \<open>Operations on records\<close>

lemma run_ops_no_panic: "fst (run_ops env what c m xs st) \<noteq> DalPanic"
  by (induction xs arbitrary: st) (auto split: prod.split option.split)

lemma connections_ok_reach: "(dal_step env)\<^sup>*\<^sup>* (dal_new h w) st \<Longrightarrow> connections_ok st"
proof (induction rule: rtranclp_induct)
  case base
  show ?case by (simp add: connections_ok_def dal_new_def)
qed (rule dal_step_ok)

text \<open>
  In every state the layer reaches, an operation on records whose filter names the connection
  of the model never calls a connection that is not there: it goes to the driver or fails.
\<close>

theorem explicit_ops_never_panic:
  assumes "(dal_step env)\<^sup>*\<^sup>* (dal_new h w) st" and "mf_connection mf \<noteq> 0"
    and "\<forall>a. get_by_filter st mf = Some a \<longrightarrow> dm_connection (da_heap st a) = mf_connection mf"
  shows "fst (record_op env what wrap mf caps xs st) \<noteq> DalPanic"
proof (cases "can_op_record st (mf_connection mf) (mf_id mf)")
  case None
  then have sound: "\<not> has_connection_issues st (mf_connection mf)" by (simp add: can_op_record_def split: if_splits)
  have "store_op_prep env st mf caps \<noteq> None"
  proof
    assume "store_op_prep env st mf caps = None"
    then obtain a where a: "get_by_filter st mf = Some a" "get_connection env st (dm_connection (da_heap st a)) caps = None"
      by (auto simp: store_op_prep_def split: option.splits sum.splits)
    with assms(3) have "get_connection env st (mf_connection mf) caps = None" by simp
    then obtain cw where "da_connections st (mf_connection mf) = Some cw" "cw_conn cw = None"
      by (auto simp: get_connection_def Let_def split: option.splits if_splits)
    with connections_ok_reach [OF assms(1)] sound show False by (simp add: connections_ok_def)
  qed
  with None show ?thesis using run_ops_no_panic [of env wrap]
    by (auto simp: record_op_def split: option.split sum.split prod.split)
qed (simp add: record_op_def)

section \<open>Registration of a model\<close>

text \<open>
  A model is registered whatever is wrong with it. Only issues from before keep it from the
  driver, but all that are found, with those of the driver, are recorded for it and refuse operations on its
  records from then on.
\<close>

theorem created_model:
  assumes "st0 = default_connection a st" and "m = da_heap st0 a"
    and "da_connections st0 (dm_connection m) = Some cw" and "cw_id cw = dm_connection m"
    and "register_model env m st0 = Some (es, st1)"
    and "held \<longleftrightarrow> has_connection_issues st (dm_connection m) \<or> has_model_issues st (dm_id m)"
    and "problems = snd (create_checks st0 m) @ (if held then [] else es)"
    and "create_model env [Some (dm_connection m)] [a] st = (r, st')"
  shows "r = DalOk \<and> da_models st' = (da_models st)(dm_connection m := da_models st (dm_connection m) @ [a]) \<and>
    da_world st' = (if held then da_world st else da_world st1) \<and> da_model_issues st' (dm_id m) = problems \<and>
    (can_op_record st' (dm_connection m) (dm_id m) = None \<longleftrightarrow>
       problems = [] \<and> \<not> has_connection_issues st (dm_connection m))"
proof -
  let ?c = "dm_connection m"
  let ?ih = "model_issues (dm_id m) (snd (create_checks st0 m)) (ih_add_model (dm_id m) new_helper)"
  from assms(1) have st0: "da_models st0 = da_models st" "da_world st0 = da_world st" "da_conn_issues st0 = da_conn_issues st"
    "da_model_issues st0 = da_model_issues st" by (simp_all add: default_connection_def set_model_def Let_def)
  have "fst (create_checks st0 m) = False"
    using assms(3) by (simp add: create_checks_def level_issues_def Let_def split: prod.split bool.split)
  then obtain found where "create_checks st0 m = (False, found)" by (cases "create_checks st0 m") simp
  with assms(1,2) have check: "check_models [a] new_helper st = (False, ?ih, st0)" by (simp add: Let_def)
  have group: "by_connection [Some ?c] [a] st0 = [a]" using assms(2-4) by (simp add: by_connection_def)
  from assms(5) have st1: "da_models st1 = da_models st0" "da_conn_issues st1 = da_conn_issues st0" "da_model_issues st1 = da_model_issues st0"
    by (auto simp: register_model_def split: option.splits sum.splits prod.splits)
  have add: "add_models env [a] ?ih st0 =
      (if held then (False, ?ih, append_model ?c a st0) else (False, model_issues (dm_id m) es ?ih, append_model ?c a st1))"
    using assms(2,5,6) st0 by (simp add: Let_def has_connection_issues_def has_model_issues_def)
  from assms(8) check group add
  have r: "r = DalOk" "st' = (if held then update_issues ?ih (append_model ?c a st0)
      else update_issues (model_issues (dm_id m) es ?ih) (append_model ?c a st1))"
    by (simp_all add: create_model_def split: if_splits)
  have "da_model_issues st' (dm_id m) = problems"
    using assms(7) r(2) by (simp add: update_issues_def model_issues_def ih_add_model_def new_helper_def append_model_def)
  moreover have "da_conn_issues st' = da_conn_issues st"
    using r(2) st0 st1 by (simp add: update_issues_def model_issues_def ih_add_model_def new_helper_def append_model_def)
  ultimately have "can_op_record st' ?c (dm_id m) = None \<longleftrightarrow> problems = [] \<and> \<not> has_connection_issues st ?c"
    by (simp add: can_op_record_def has_connection_issues_def has_model_issues_def)
  with r st0 st1 \<open>da_model_issues st' (dm_id m) = problems\<close> show ?thesis
    by (simp add: update_issues_def append_model_def)
qed

section \<open>Examples\<close>

definition demo_dal_env :: "(unit, nat, string) dal_env" where
  "demo_dal_env =
     \<lparr>de_version = None, de_connector = [''good'' \<mapsto> (\<lambda>dsn caps w. (Inr (), Suc w))], de_close = (\<lambda>c w. (None, w)),
      de_can = (\<lambda>c caps. True), de_capabilities = (\<lambda>c. []), de_models = (\<lambda>c w. Inr []),
      de_create_model = (\<lambda>c m w. (None, Suc w)), de_update_model = (\<lambda>c m n w. (None, Suc w)),
      de_update_attr = (\<lambda>c m x y w. (None, Suc w)), de_run = (\<lambda>c x m w. (None, Suc w)), de_parse = (\<lambda>s. Inl s)\<rparr>"

definition demo_connection :: "string \<Rightarrow> unit conn_wrap" where
  "demo_connection dsn =
     \<lparr>cw_id = 1, cw_level = 0, cw_conn = None, cw_type = ''corteza::dal:connection:dsn'', cw_dsn = Some dsn,
      cw_formatter = \<lparr>if_model = ''compose_record'', if_attribute = ''values'', if_partition = [], if_validator = None\<rparr>,
      cw_validator = [], cw_capabilities = []\<rparr>"

definition demo_model :: "nat \<Rightarrow> dal_model" where
  "demo_model a =
     \<lparr>dm_connection = 0, dm_ident = ''orders'', dm_label = [], dm_resource = ''module/5'', dm_id = 5, dm_type = ''module'',
      dm_level = 0, dm_attrs = [full_attribute ''total'' (Some (TypeNumber 10 2 False)) CodecPlain], dm_capabilities = []\<rparr>"

definition demo_opened :: "(unit, nat) dal_state" where
  "demo_opened = snd (replace_connection demo_dal_env (demo_connection ''good://db'') True (dal_new demo_model 0))"

definition demo_registered :: "(unit, nat) dal_state" where
  "demo_registered = snd (create_model demo_dal_env [Some 1] [0] demo_opened)"

definition demo_lost :: "(unit, nat) dal_state" where
  "demo_lost = snd (replace_connection demo_dal_env (demo_connection ''bad://db'') True demo_registered)"

definition demo_filter :: "u64 \<Rightarrow> model_filter" where
  "demo_filter c = \<lparr>mf_connection = c, mf_id = 5, mf_type = [], mf_resource = []\<rparr>"

lemma demo_lost_reach: "(dal_step demo_dal_env)\<^sup>*\<^sup>* (dal_new demo_model 0) demo_lost"
proof -
  have "dal_step demo_dal_env (dal_new demo_model 0) demo_opened" unfolding demo_opened_def by (rule step_replace)
  moreover have "dal_step demo_dal_env demo_opened demo_registered" unfolding demo_registered_def by (rule step_create)
  moreover have "dal_step demo_dal_env demo_registered demo_lost" unfolding demo_lost_def by (rule step_replace)
  ultimately show ?thesis by (meson rtranclp.rtrancl_refl rtranclp.rtrancl_into_rtrancl)
qed

text \<open>
  The check for issues looks at the connection the filter names, which is 0 for the default
  one: after the default connection could not be opened again, an operation through the default
  panics where one that names the connection is refused.
\<close>

theorem default_ops_unguarded:
  "\<exists>st. (dal_step demo_dal_env)\<^sup>*\<^sup>* (dal_new demo_model 0) st \<and>
     fst (dal_create demo_dal_env (demo_filter 0) [] [''order''] st) = DalPanic \<and>
     fst (dal_create demo_dal_env (demo_filter 1) [] [''order''] st) =
       DalErr ''cannot create record: cannot perform record operation: connection 1 has issues''"
proof -
  have "fst (dal_create demo_dal_env (demo_filter 0) [] [''order''] demo_lost) = DalPanic"
    "fst (dal_create demo_dal_env (demo_filter 1) [] [''order''] demo_lost) =
       DalErr ''cannot create record: cannot perform record operation: connection 1 has issues''" by code_simp+
  with demo_lost_reach show ?thesis by blast
qed

theorem explicit_ops_never_panic_witness:
  "fst (record_op demo_dal_env [] [] (demo_filter 1) [] [OpCreate [''order'']] demo_lost) \<noteq> DalPanic"
proof -
  have "get_by_filter demo_lost (demo_filter 1) = Some 0" "dm_connection (da_heap demo_lost 0) = 1"
    "mf_connection (demo_filter 1) = 1" by code_simp+
  then show ?thesis by (intro explicit_ops_never_panic [OF demo_lost_reach]) simp_all
qed

theorem created_model_witness:
  "fst (create_model demo_dal_env [Some 1] [0] demo_opened) = DalOk \<and> da_model_issues demo_registered 5 = [] \<and>
   can_op_record demo_registered 1 5 = None \<and> da_world demo_registered = 2"
proof -
  let ?st0 = "default_connection 0 demo_opened"
  let ?m = "da_heap ?st0 0"
  have m: "dm_connection ?m = 1" "dm_id ?m = 5" by code_simp+
  obtain cw where cw: "da_connections ?st0 (dm_connection ?m) = Some cw" "cw_id cw = dm_connection ?m"
  proof -
    have "map_option cw_id (da_connections ?st0 (dm_connection ?m)) = Some (dm_connection ?m)" by code_simp
    with that show ?thesis by auto
  qed
  have "map_option fst (register_model demo_dal_env ?m ?st0) = Some []"
    "map_option (da_world \<circ> snd) (register_model demo_dal_env ?m ?st0) = Some 2" by code_simp+
  then obtain st1 where reg: "register_model demo_dal_env ?m ?st0 = Some ([], st1)" "da_world st1 = 2" by auto
  have free: "\<not> (has_connection_issues demo_opened (dm_connection ?m) \<or> has_model_issues demo_opened (dm_id ?m))"
    "snd (create_checks ?st0 ?m) = []" by code_simp+
  obtain r st' where c: "create_model demo_dal_env [Some (dm_connection ?m)] [0] demo_opened = (r, st')" by fastforce
  with m have "st' = demo_registered" "r = fst (create_model demo_dal_env [Some 1] [0] demo_opened)"
    by (simp_all add: demo_registered_def)
  with created_model [OF refl refl cw reg(1) refl refl c] free reg(2) m show ?thesis by auto
qed

definition demo_attrs :: "dal_attr list" where
  "demo_attrs =
     [full_attribute ''total'' (Some (TypeText 20 False)) CodecPlain, full_attribute ''paid'' (Some (TypeBoolean False)) CodecPlain]"


theorem reload_levels_exact_witness:
  "\<exists>st. da_connections st = [1 \<mapsto> demo_connection ''good://db''] \<and>
     fst (reload_levels [1] [] [\<lparr>lv_handle = ''public'', lv_id = 7, lv_level = 1\<rparr>] (st :: (unit, nat) dal_state)) = DalOk"
proof -
  let ?st = "add_connection (demo_connection ''good://db'') (dal_new demo_model 0) :: (unit, nat) dal_state"
  have st: "da_connections ?st = [1 \<mapsto> demo_connection ''good://db'']" "\<And>c. da_models ?st c = []"
    by (simp_all add: add_connection_def dal_new_def demo_connection_def)
  then have "set [1] = dom (da_connections ?st)" "{c. da_models ?st c \<noteq> []} \<subseteq> set []" by simp_all
  from reload_levels_exact [OF this, of "[\<lparr>lv_handle = ''public'', lv_id = 7, lv_level = 1\<rparr>]"] st
  have "fst (reload_levels [1] [] [\<lparr>lv_handle = ''public'', lv_id = 7, lv_level = 1\<rparr>] ?st) = DalOk"
    by (simp add: demo_connection_def level_includes_def)
  with st show ?thesis by blast
qed

end
