(* ===== verification/AuthModel.thy ===== *)
theory AuthModel
  imports Handle Decimal SliceUtil QlLexer
begin

text \<open>
  What \<^verbatim>\<open>system/service/auth.go\<close> works on: users and credentials (\<^verbatim>\<open>system/types\<close>), the settings, the
  tables of the store with the queries the service makes (\<^verbatim>\<open>store/adapters/rdbms\<close>), and its
  transactions (\<^verbatim>\<open>tx.go\<close>).

  An operation is a function from a state to a fault or a result, and a state. A fault carries the
  value the named result \<open>u\<close> of the running function has beside the error. Calls of the store are
  numbered; the environment tells which of them fail, and what the random source, the clock, bcrypt,
  the handlers of events and the notifications give. One operation happens at one instant of the
  clock. A panic is a fault that no caller handles. Rows are searched in the order of the table.
\<close>

section \<open>Users, credentials, settings\<close>

record auser =
  us_id :: u64
  us_username :: string
  us_email :: string
  us_name :: string
  us_handle :: string
  us_kind :: string
  us_confirmed :: bool
  us_created :: int
  us_updated :: "int option"
  us_suspended :: "int option"
  us_deleted :: "int option"
  us_otp :: bool
  us_totp :: bool
  us_roles :: "u64 list"

definition system_user :: string where
  "system_user = ''sys''"

definition user_valid :: "auser \<Rightarrow> bool" where
  "user_valid u \<longleftrightarrow> 0 < us_id u \<and> us_suspended u = None \<and> us_deleted u = None"

record acred =
  cr_id :: u64
  cr_owner :: u64
  cr_kind :: string
  cr_secret :: string
  cr_used :: "int option"
  cr_expires :: "int option"
  cr_created :: int
  cr_deleted :: "int option"

definition cred_valid :: "int \<Rightarrow> acred \<Rightarrow> bool" where
  "cred_valid now c \<longleftrightarrow>
     0 < cr_id c \<and> (case cr_expires c of None \<Rightarrow> True | Some t \<Rightarrow> now < t) \<and> cr_deleted c = None"

fun matching_cred :: "(string \<Rightarrow> string \<Rightarrow> bool) \<Rightarrow> int \<Rightarrow> string \<Rightarrow> acred list \<Rightarrow> acred option" where
  "matching_cred compare now password [] = None"
| "matching_cred compare now password (c # cc) =
     (if \<not> cred_valid now c then matching_cred compare now password cc
      else if cr_secret c = [] then matching_cred compare now password cc
      else if compare (cr_secret c) password then Some c
      else matching_cred compare now password cc)"

record eap_security =
  es_permitted :: "string list"
  es_prohibited :: "string list"
  es_forced :: "string list"

record auth_settings =
  as_internal :: bool
  as_signup :: bool
  as_confirmation :: bool
  as_reset :: bool
  as_create :: bool
  as_create_expires :: u64
  as_security :: bool
  as_min_length :: nat
  as_min_num :: nat
  as_min_special :: nat
  as_external :: bool
  as_saml :: eap_security
  as_providers :: "(string \<times> eap_security) list"
  as_otp :: bool
  as_otp_enforced :: bool
  as_otp_expires :: u64
  as_totp :: bool
  as_totp_enforced :: bool
  as_limit :: nat

section \<open>Faults\<close>

datatype auth_error =
  AuthGeneric | InvalidCredentials | InvalidEmailFormat | InvalidHandle | FailedForUnknownUser
| FailedForDeletedUser | FailedForSuspendedUser | FailedForSystemUser | LoginDisabled | SignupDisabled
| PasswordChangeUnknownUser | OldPasswordCheckFailed | ResetDisabled | CreateDisabled | PasswordNotSecure
| ExternalDisabled | ProfileWithoutEmail | LinkedToInvalidUser | InvalidToken "auth_error option"
| NotAllowedToImpersonate | NotAllowedToRemoveTOTP | UnconfiguredTOTP | NotAllowedToConfigureTOTP
| EnforcedTOTP | InvalidTOTP | DisabledTOTP | DisabledEmailOTP | EnforcedEmailOTP | InvalidEmailOTP
| RateLimitExceeded | MaxUserLimit | EmailNotUnique | UsernameNotUnique | HandleNotUnique
| UserRefused string
| NotFound | NotUnique | RawErr string | TxFailed auth_error | AuthPanic

text \<open>\<open>errors.IsAny\<close>: an error of the application, of type \<open>*Error\<close>.\<close>

fun app_error :: "auth_error \<Rightarrow> bool" where
  "app_error (RawErr s) = False"
| "app_error (TxFailed e) = False"
| "app_error e = True"

type_synonym fault = "auth_error \<times> auser option"

section \<open>State and environment\<close>

record auth_db =
  db_users :: "auser list"
  db_creds :: "acred list"
  db_members :: "(u64 \<times> u64) list"
  db_roles :: "(u64 \<times> bool) list"
  db_tokens :: "u64 list"

datatype notice =
  ConfirmationMail string string | ResetMail string string | OTPMail string string

record auth_state =
  au_db :: auth_db
  au_calls :: nat
  au_ids :: nat
  au_sent :: "notice list"

type_synonym 'a auth_op = "auth_state \<Rightarrow> (fault + 'a) \<times> auth_state"

record auth_env =
  ae_settings :: auth_settings
  ae_now :: int
  ae_faults :: "nat \<Rightarrow> string option"
  ae_tx_limit :: int
  ae_tx_retry :: "nat \<Rightarrow> auth_error \<Rightarrow> bool"
  ae_id :: "nat \<Rightarrow> u64"
  ae_hash :: "nat \<Rightarrow> string \<Rightarrow> string option"
  ae_compare :: "string \<Rightarrow> string \<Rightarrow> bool"
  ae_bytes :: "nat \<Rightarrow> string"
  ae_password :: "nat \<Rightarrow> string"
  ae_random :: "nat \<Rightarrow> nat"
  ae_totp :: "string \<Rightarrow> string \<Rightarrow> bool option"
  ae_notify :: "notice \<Rightarrow> string option"
  ae_create_url :: "string \<Rightarrow> string + string"
  ae_provider :: "string \<Rightarrow> string option"
  ae_before_login :: "string \<Rightarrow> auser \<Rightarrow> string option \<times> auser"
  ae_after_login :: "string \<Rightarrow> auser \<Rightarrow> auser"
  ae_before_signup :: "string \<Rightarrow> auser \<Rightarrow> string option \<times> auser"
  ae_after_signup :: "string \<Rightarrow> auser \<Rightarrow> auser"
  ae_identity :: u64
  ae_can_impersonate :: "auser \<Rightarrow> bool"
  ae_can_update :: "auser option \<Rightarrow> bool"
  ae_bypass :: "u64 list"

section \<open>Sequencing\<close>

definition give :: "'a \<Rightarrow> 'a auth_op" where
  "give x st = (Inr x, st)"

definition give_up :: "auth_error \<Rightarrow> 'a auth_op" where
  "give_up e st = (Inl (e, None), st)"

definition andthen :: "'a auth_op \<Rightarrow> ('a \<Rightarrow> 'b auth_op) \<Rightarrow> 'b auth_op" where
  "andthen m f st = (case m st of (Inl e, st') \<Rightarrow> (Inl e, st') | (Inr x, st') \<Rightarrow> f x st')"

text \<open>The reified as a value, for code that looks at the error, and the value of \<open>u\<close> beside an error.\<close>

definition reified :: "'a auth_op \<Rightarrow> (fault + 'a) auth_op" where
  "reified m st = (case m st of (r, st') \<Rightarrow> (Inr r, st'))"

definition beside :: "auser option \<Rightarrow> 'a auth_op \<Rightarrow> 'a auth_op" where
  "beside u m st = (case m st of (Inl (e, v), st') \<Rightarrow> (Inl (e, u), st') | (Inr x, st') \<Rightarrow> (Inr x, st'))"

definition require :: "bool \<Rightarrow> auth_error \<Rightarrow> unit auth_op" where
  "require b e = (if b then give () else give_up e)"

section \<open>Queries\<close>

definition store_call :: "auth_env \<Rightarrow> unit auth_op" where
  "store_call env st =
     (let st' = st\<lparr>au_calls := Suc (au_calls st)\<rparr>
      in case ae_faults env (au_calls st) of None \<Rightarrow> (Inr (), st') | Some e \<Rightarrow> (Inl (RawErr e, None), st'))"

definition query :: "auth_env \<Rightarrow> (auth_db \<Rightarrow> 'a) \<Rightarrow> 'a auth_op" where
  "query env q = andthen (store_call env) (\<lambda>_ st. (Inr (q (au_db st)), st))"

definition store_write :: "auth_env \<Rightarrow> (auth_db \<Rightarrow> auth_db) \<Rightarrow> unit auth_op" where
  "store_write env w = andthen (store_call env) (\<lambda>_ st. (Inr (), st\<lparr>au_db := w (au_db st)\<rparr>))"

definition found :: "'a option \<Rightarrow> 'a auth_op" where
  "found r = (case r of None \<Rightarrow> give_up NotFound | Some x \<Rightarrow> give x)"

definition user_by_id :: "auth_env \<Rightarrow> u64 \<Rightarrow> auser auth_op" where
  "user_by_id env i = andthen (query env (\<lambda>db. find (\<lambda>u. us_id u = i) (db_users db))) found"

definition user_by_text :: "auth_env \<Rightarrow> (auser \<Rightarrow> string) \<Rightarrow> string \<Rightarrow> auser auth_op" where
  "user_by_text env f s =
     andthen (query env (\<lambda>db. find (\<lambda>u. to_lower (f u) = to_lower s \<and> us_deleted u = None) (db_users db))) found"

definition user_by_email :: "auth_env \<Rightarrow> string \<Rightarrow> auser auth_op" where
  "user_by_email env = user_by_text env us_email"

definition user_by_handle :: "auth_env \<Rightarrow> string \<Rightarrow> auser auth_op" where
  "user_by_handle env = user_by_text env us_handle"

definition user_by_username :: "auth_env \<Rightarrow> string \<Rightarrow> auser auth_op" where
  "user_by_username env = user_by_text env us_username"

definition check_user_unique :: "(string \<Rightarrow> auser auth_op) \<Rightarrow> string \<Rightarrow> auser \<Rightarrow> unit auth_op" where
  "check_user_unique lookup s u =
     (if s = [] then give ()
      else if us_deleted u \<noteq> None then give ()
      else andthen (reified (lookup s)) (\<lambda>r. case r of
             Inr ex \<Rightarrow> if us_id ex \<noteq> us_id u then give_up NotUnique else give ()
           | Inl (e, v) \<Rightarrow> if e = NotFound then give () else give_up e))"

definition check_user_constraints :: "auth_env \<Rightarrow> auser \<Rightarrow> unit auth_op" where
  "check_user_constraints env u =
     andthen (check_user_unique (user_by_email env) (us_email u) u) (\<lambda>_.
     andthen (check_user_unique (user_by_handle env) (us_handle u) u) (\<lambda>_.
     check_user_unique (user_by_username env) (us_username u) u))"

text \<open>An insert of a key that exists is refused by the database; an update of a missing row changes nothing.\<close>

definition db_insert :: "auth_env \<Rightarrow> (auth_db \<Rightarrow> bool) \<Rightarrow> (auth_db \<Rightarrow> auth_db) \<Rightarrow> unit auth_op" where
  "db_insert env taken w =
     andthen (store_call env) (\<lambda>_ st.
       if taken (au_db st) then (Inl (RawErr ''duplicate key'', None), st) else (Inr (), st\<lparr>au_db := w (au_db st)\<rparr>))"

definition create_user :: "auth_env \<Rightarrow> auser \<Rightarrow> unit auth_op" where
  "create_user env u =
     andthen (check_user_constraints env u) (\<lambda>_.
     db_insert env (\<lambda>db. list_ex (\<lambda>v. us_id v = us_id u) (db_users db))
       (\<lambda>db. db\<lparr>db_users := db_users db @ [u\<lparr>us_roles := []\<rparr>]\<rparr>))"

definition update_user :: "auth_env \<Rightarrow> auser \<Rightarrow> unit auth_op" where
  "update_user env u =
     andthen (check_user_constraints env u) (\<lambda>_.
     store_write env (\<lambda>db. db\<lparr>db_users := map (\<lambda>v. if us_id v = us_id u then u\<lparr>us_roles := []\<rparr> else v) (db_users db)\<rparr>))"

record cred_filter =
  cf_owner :: u64
  cf_kind :: string
  cf_secret :: string
  cf_deleted :: bool

text \<open>\<open>CredentialFilter\<close>: empty fields do not filter, deleted rows are read where the filter includes them.\<close>

definition cred_passes :: "cred_filter \<Rightarrow> acred \<Rightarrow> bool" where
  "cred_passes f c \<longleftrightarrow>
     (cf_deleted f \<or> cr_deleted c = None) \<and>
     (0 < cf_owner f \<longrightarrow> cr_owner c = cf_owner f) \<and>
     (0 < length (go_trim (cf_kind f)) \<longrightarrow> cr_kind c = cf_kind f) \<and>
     (0 < length (go_trim (cf_secret f)) \<longrightarrow> cr_secret c = cf_secret f)"

definition search_creds :: "auth_env \<Rightarrow> cred_filter \<Rightarrow> acred list auth_op" where
  "search_creds env f = query env (\<lambda>db. filter (cred_passes f) (db_creds db))"

definition cred_by_id :: "auth_env \<Rightarrow> u64 \<Rightarrow> acred auth_op" where
  "cred_by_id env i = andthen (query env (\<lambda>db. find (\<lambda>c. cr_id c = i) (db_creds db))) found"

definition create_cred :: "auth_env \<Rightarrow> acred \<Rightarrow> unit auth_op" where
  "create_cred env c =
     db_insert env (\<lambda>db. list_ex (\<lambda>d. cr_id d = cr_id c) (db_creds db)) (\<lambda>db. db\<lparr>db_creds := db_creds db @ [c]\<rparr>)"

definition put_cred :: "acred \<Rightarrow> acred list \<Rightarrow> acred list" where
  "put_cred c cc = map (\<lambda>d. if cr_id d = cr_id c then c else d) cc"

definition drop_cred :: "u64 \<Rightarrow> acred list \<Rightarrow> acred list" where
  "drop_cred i cc = filter (\<lambda>d. cr_id d \<noteq> i) cc"

fun update_creds :: "auth_env \<Rightarrow> acred list \<Rightarrow> unit auth_op" where
  "update_creds env [] = give ()"
| "update_creds env (c # cc) =
     andthen (store_write env (\<lambda>db. db\<lparr>db_creds := put_cred c (db_creds db)\<rparr>)) (\<lambda>_. update_creds env cc)"

fun delete_creds :: "auth_env \<Rightarrow> acred list \<Rightarrow> unit auth_op" where
  "delete_creds env [] = give ()"
| "delete_creds env (c # cc) =
     andthen (store_write env (\<lambda>db. db\<lparr>db_creds := drop_cred (cr_id c) (db_creds db)\<rparr>)) (\<lambda>_. delete_creds env cc)"

definition delete_cred_by_id :: "auth_env \<Rightarrow> u64 \<Rightarrow> unit auth_op" where
  "delete_cred_by_id env i = store_write env (\<lambda>db. db\<lparr>db_creds := drop_cred i (db_creds db)\<rparr>)"

text \<open>\<open>SearchRoles\<close> of a member: live roles by identifier, every one of them for the member 0.\<close>

definition member_roles :: "auth_env \<Rightarrow> u64 \<Rightarrow> u64 list auth_op" where
  "member_roles env i =
     query env (\<lambda>db. sort (map fst (filter (\<lambda>(r, live). live \<and> (0 < i \<longrightarrow> List.member (db_members db) (i, r))) (db_roles db))))"

definition create_member :: "auth_env \<Rightarrow> u64 \<Rightarrow> u64 \<Rightarrow> unit auth_op" where
  "create_member env i r =
     db_insert env (\<lambda>db. List.member (db_members db) (i, r)) (\<lambda>db. db\<lparr>db_members := db_members db @ [(i, r)]\<rparr>)"

definition count_valid_users :: "auth_env \<Rightarrow> nat auth_op" where
  "count_valid_users env =
     query env (\<lambda>db. length (filter (\<lambda>u. us_kind u = [] \<and> us_deleted u = None \<and> us_suspended u = None) (db_users db)))"

definition next_id :: "auth_env \<Rightarrow> u64 auth_op" where
  "next_id env st = (Inr (ae_id env (au_ids st)), st\<lparr>au_ids := Suc (au_ids st)\<rparr>)"

definition notify :: "auth_env \<Rightarrow> notice \<Rightarrow> unit auth_op" where
  "notify env n st =
     (case ae_notify env n of
        None \<Rightarrow> (Inr (), st\<lparr>au_sent := au_sent st @ [n]\<rparr>)
      | Some e \<Rightarrow> (Inl (RawErr e, None), st))"

section \<open>Transactions\<close>

text \<open>
  \<open>undo\<close> gives the tables after a rollback from those before the transaction and those at its end;
  a store with a negative limit runs the task without a transaction. \<open>out\<close> is what \<open>u\<close> holds once the
  task is through.
\<close>

definition tx_hard_limit :: nat where
  "tx_hard_limit = 100"

type_synonym undo = "auth_db \<Rightarrow> auth_db \<Rightarrow> auth_db"

definition undo_all :: undo where
  "undo_all before after = before"

definition undo_none :: undo where
  "undo_none before after = after"

definition rolled_back :: "undo \<Rightarrow> auth_state \<Rightarrow> auth_state \<Rightarrow> auth_state" where
  "rolled_back undo st st' = st'\<lparr>au_db := undo (au_db st) (au_db st')\<rparr>"

function tx_handler :: "auth_env \<Rightarrow> undo \<Rightarrow> ('a \<Rightarrow> auser option) \<Rightarrow> 'a auth_op \<Rightarrow> nat \<Rightarrow> 'a auth_op" where
  "tx_handler env undo out task try st =
     (case store_call env st of
        (Inl e, st1) \<Rightarrow> (Inl e, st1)
      | (Inr _, st1) \<Rightarrow>
          (case task st1 of
             (Inr x, st2) \<Rightarrow>
               (case store_call env st2 of
                  (Inl (e, v), st3) \<Rightarrow> (Inl (e, out x), rolled_back undo st st3)
                | (Inr _, st3) \<Rightarrow> (Inr x, st3))
           | (Inl (e, v), st2) \<Rightarrow>
               (case store_call env st2 of
                  (Inl (e', _), st3) \<Rightarrow> (Inl (TxFailed e', v), rolled_back undo st st3)
                | (Inr _, st3) \<Rightarrow>
                    let st4 = rolled_back undo st st3 in
                    if app_error e then (Inl (e, v), st4)
                    else if \<not> ae_tx_retry env (Suc try) e then (Inl (TxFailed e, v), st4)
                    else if ae_tx_limit env \<le> int (Suc try) \<or> tx_hard_limit \<le> Suc try then (Inl (TxFailed e, v), st4)
                    else tx_handler env undo out task (Suc try) st4)))"
  by pat_completeness auto
termination
  by (relation "measure (\<lambda>(env, undo, out, task, try, st). tx_hard_limit - try)") (auto split: if_splits)

declare tx_handler.simps [simp del]

definition store_tx :: "auth_env \<Rightarrow> undo \<Rightarrow> ('a \<Rightarrow> auser option) \<Rightarrow> 'a auth_op \<Rightarrow> 'a auth_op" where
  "store_tx env undo out task = (if ae_tx_limit env < 0 then task else tx_handler env undo out task 1)"

end
