(* ===== verification/AuthToken.thy ===== *)
theory AuthToken
  imports AuthModel
begin

text \<open>
  \<^verbatim>\<open>system/service/auth.go\<close>: tokens. A token is stored as a credential of its user; what the user
  gets is its secret followed by the identifier of the credential.
\<close>

section \<open>Kinds and limits\<close>

definition kind_password :: string where "kind_password = ''password''"
definition kind_confirm :: string where "kind_confirm = ''email-authentication-token''"
definition kind_reset :: string where "kind_reset = ''password-reset-token''"
definition kind_exchanged :: string where "kind_exchanged = ''password-reset-token-exchanged''"
definition kind_create :: string where "kind_create = ''password-create-token''"
definition kind_totp :: string where "kind_totp = ''mfa-totp-secret''"
definition kind_otp :: string where "kind_otp = ''mfa-email-otp''"

definition token_length :: nat where "token_length = 32"

definition go_second :: int where "go_second = 1000000000"

definition token_max_count :: nat where "token_max_count = 5"

definition token_max_window :: int where "token_max_window = 15 * 60 * go_second"

definition one_token_per_user :: "string \<Rightarrow> bool" where
  "one_token_per_user kind \<longleftrightarrow> kind = kind_reset"

text \<open>A \<open>time.Duration\<close> is a signed 64 bit number: its multiplication wraps.\<close>

definition times_duration :: "int \<Rightarrow> u64 \<Rightarrow> int" where
  "times_duration unit w = sint (word_of_int unit * w :: u64)"

section \<open>The text of a token\<close>

definition validate_token :: "string \<Rightarrow> u64 \<times> string" where
  "validate_token token =
     (if length token \<le> token_length then (0, [])
      else let i = uint_value (drop token_length token)
           in if i = 0 then (0, []) else (i, take token_length token))"

definition pad_six :: "nat \<Rightarrow> string" where
  "pad_six n = (let s = format_nat n in replicate (6 - length s) (CHR ''0'') @ s)"

definition token_text :: "auth_env \<Rightarrow> nat \<Rightarrow> string \<Rightarrow> int \<times> string" where
  "token_text env n kind =
     (let s = ae_settings env in
      if kind = kind_otp then
        (ae_now env + times_duration go_second (if as_otp_expires s = 0 then 60 else as_otp_expires s),
         take 6 (pad_six (ae_random env n)))
      else if kind = kind_create then
        (ae_now env + times_duration (3600 * go_second) (if as_create_expires s = 0 then 24 else as_create_expires s),
         ae_password env n)
      else (ae_now env + 60 * 60 * go_second, ae_bytes env n))"

section \<open>Rate and clean-up\<close>

fun rate_count :: "int \<Rightarrow> nat \<Rightarrow> nat \<Rightarrow> acred list \<Rightarrow> nat" where
  "rate_count cutoff limit seen [] = seen"
| "rate_count cutoff limit seen (c # cc) =
     (if cr_created c < cutoff then rate_count cutoff limit seen cc
      else if limit < Suc seen then Suc seen
      else rate_count cutoff limit (Suc seen) cc)"

definition check_token_rate :: "int \<Rightarrow> acred list \<Rightarrow> int \<Rightarrow> nat \<Rightarrow> bool" where
  "check_token_rate now cc window limit \<longleftrightarrow>
     length cc = 0 \<or> window = 0 \<or> limit = 0 \<or> \<not> limit < rate_count (now - window) limit 0 cc"

definition stale_token :: "int \<Rightarrow> acred \<Rightarrow> bool" where
  "stale_token now c \<longleftrightarrow>
     (case cr_deleted c of None \<Rightarrow> False | Some t \<Rightarrow> t + token_max_window < now) \<or>
     (case cr_expires c of None \<Rightarrow> False | Some t \<Rightarrow> t < now)"

fun cleanup_sets :: "int \<Rightarrow> acred list \<Rightarrow> acred list \<times> acred list" where
  "cleanup_sets now [] = ([], [])"
| "cleanup_sets now (c # cc) =
     (let (update, remove) = cleanup_sets now cc in
      if one_token_per_user (cr_kind c) then (c\<lparr>cr_deleted := Some now\<rparr> # update, remove)
      else if stale_token now c then (update, c # remove)
      else (update, remove))"

definition cleanup_credentials :: "auth_env \<Rightarrow> acred list \<Rightarrow> unit auth_op" where
  "cleanup_credentials env cc =
     (let (update, remove) = cleanup_sets (ae_now env) cc
      in andthen (update_creds env update) (\<lambda>_. delete_creds env remove))"

section \<open>Tokens of a user\<close>

text \<open>The text that is left beside an error is dropped by every caller.\<close>

definition create_token_task :: "auth_env \<Rightarrow> auser option \<Rightarrow> string \<Rightarrow> string auth_op" where
  "create_token_task env user kind =
     (case user of
        None \<Rightarrow> give_up AuthGeneric
      | Some u \<Rightarrow>
          if us_id u = 0 then give_up AuthGeneric
          else
            andthen (search_creds env \<lparr>cf_owner = us_id u, cf_kind = kind, cf_secret = [], cf_deleted = True\<rparr>) (\<lambda>cc.
            andthen (require (check_token_rate (ae_now env) cc token_max_window token_max_count) RateLimitExceeded) (\<lambda>_.
            andthen (cleanup_credentials env cc) (\<lambda>_.
            andthen (next_id env) (\<lambda>i st.
              let (expires, text) = token_text env (au_calls st) kind;
                  c = \<lparr>cr_id = i, cr_owner = us_id u, cr_kind = kind, cr_secret = text, cr_used = None,
                       cr_expires = Some expires, cr_created = ae_now env, cr_deleted = None\<rparr>
              in andthen (create_cred env c)
                   (\<lambda>_. give (if kind = kind_otp then text else text @ format_uint i)) st)))))"

definition create_user_token :: "auth_env \<Rightarrow> auser option \<Rightarrow> string \<Rightarrow> string auth_op" where
  "create_user_token env user kind = store_tx env undo_all (\<lambda>_. None) (create_token_task env user kind)"

text \<open>The kind is an argument of the audit log only.\<close>

definition load_token_task :: "auth_env \<Rightarrow> string \<Rightarrow> auser auth_op" where
  "load_token_task env token =
     (let (i, secret) = validate_token token in
      if i = 0 then give_up (InvalidToken None)
      else
        andthen (reified (cred_by_id env i)) (\<lambda>r. case r of
          Inl (e, v) \<Rightarrow> give_up (if e = NotFound then InvalidToken None else e)
        | Inr c \<Rightarrow>
            andthen (delete_cred_by_id env (cr_id c)) (\<lambda>_.
            andthen (require (cred_valid (ae_now env) c \<and> cr_secret c = secret) (InvalidToken None)) (\<lambda>_.
            andthen (user_by_id env (cr_owner c)) (\<lambda>u.
            beside (Some u) (andthen (require (user_valid u) InvalidCredentials) (\<lambda>_. give u)))))))"

definition load_user_from_token :: "auth_env \<Rightarrow> string \<Rightarrow> string \<Rightarrow> auser auth_op" where
  "load_user_from_token env token kind = store_tx env undo_all Some (load_token_task env token)"

definition load_role_memberships :: "auth_env \<Rightarrow> auser \<Rightarrow> auser auth_op" where
  "load_role_memberships env u = andthen (member_roles env (us_id u)) (\<lambda>rr. give (u\<lparr>us_roles := rr\<rparr>))"

definition confirm_and_load :: "auth_env \<Rightarrow> auser \<Rightarrow> auser auth_op" where
  "confirm_and_load env u =
     (if us_confirmed u then beside (Some u) (load_role_memberships env u)
      else let v = u\<lparr>us_confirmed := True, us_updated := Some (ae_now env)\<rparr>
           in beside (Some v) (andthen (update_user env v) (\<lambda>_. load_role_memberships env v)))"

definition load_from_token_and_confirm :: "auth_env \<Rightarrow> string \<Rightarrow> string \<Rightarrow> auser auth_op" where
  "load_from_token_and_confirm env token kind =
     andthen (require (as_internal (ae_settings env)) SignupDisabled) (\<lambda>_.
     andthen (load_user_from_token env token kind) (confirm_and_load env))"

definition validate_confirmation_token :: "auth_env \<Rightarrow> string \<Rightarrow> auser auth_op" where
  "validate_confirmation_token env token = load_from_token_and_confirm env token kind_confirm"

definition validate_reset_token :: "auth_env \<Rightarrow> string \<Rightarrow> auser auth_op" where
  "validate_reset_token env token = load_from_token_and_confirm env token kind_reset"

definition validate_create_token :: "auth_env \<Rightarrow> string \<Rightarrow> auser auth_op" where
  "validate_create_token env token = load_from_token_and_confirm env token kind_create"

definition exchange_reset_token :: "auth_env \<Rightarrow> string \<Rightarrow> (auser \<times> string) auth_op" where
  "exchange_reset_token env token =
     andthen (require (as_internal (ae_settings env) \<and> as_reset (ae_settings env)) ResetDisabled) (\<lambda>_.
     andthen (reified (load_user_from_token env token kind_reset)) (\<lambda>r. case r of
       Inl (e, v) \<Rightarrow> beside v (give_up (InvalidToken (Some e)))
     | Inr u \<Rightarrow>
         andthen (reified (create_user_token env (Some u) kind_exchanged)) (\<lambda>r. case r of
           Inl (e, v) \<Rightarrow> give_up (InvalidToken (Some e))
         | Inr t \<Rightarrow> give (u, t))))"

section \<open>Sending tokens\<close>

definition send_confirmation_token :: "auth_env \<Rightarrow> auser \<Rightarrow> unit auth_op" where
  "send_confirmation_token env u =
     andthen (create_user_token env (Some u) kind_confirm) (\<lambda>t. notify env (ConfirmationMail (us_email u) t))"

definition send_reset_token :: "auth_env \<Rightarrow> string \<Rightarrow> unit auth_op" where
  "send_reset_token env email =
     andthen (require (as_internal (ae_settings env) \<and> as_reset (ae_settings env)) ResetDisabled) (\<lambda>_.
     andthen (user_by_email env email) (\<lambda>u.
     andthen (create_user_token env (Some u) kind_reset) (\<lambda>t. notify env (ResetMail (us_email u) t))))"

definition generate_create_token :: "auth_env \<Rightarrow> string \<Rightarrow> string auth_op" where
  "generate_create_token env email =
     andthen (require (as_internal (ae_settings env) \<and> as_create (ae_settings env)) CreateDisabled) (\<lambda>_.
     andthen (user_by_email env email) (\<lambda>u.
     andthen (create_user_token env (Some u) kind_create) (\<lambda>t.
       case ae_create_url env t of Inl e \<Rightarrow> give_up (RawErr e) | Inr url \<Rightarrow> give url)))"

end
