(* ===== verification/AuthPassword.thy ===== *)
theory AuthPassword
  imports AuthToken
begin

text \<open>
  \<^verbatim>\<open>system/service/auth.go\<close>: passwords, their strength, their credentials, and the operations that
  change them. The regular expressions there are counts of characters.
\<close>

section \<open>Strength\<close>

definition password_min_length :: nat where "password_min_length = 8"

definition password_max_length :: nat where "password_max_length = 256"

definition alnum_char :: "char \<Rightarrow> bool" where
  "alnum_char c \<longleftrightarrow> handle_letter c \<or> handle_digit c"

text \<open>Matches of \<open>[^0-9a-zA-Z]\<close>: a rune, or a byte that starts none, that is no letter and no digit.\<close>

function special_count :: "string \<Rightarrow> nat" where
  "special_count s =
     (if s = [] then 0
      else (case read_rune s of (ch, rest) \<Rightarrow>
        (if length ch = 1 \<and> alnum_char (hd ch) then 0 else 1) + special_count (drop (max 1 (rune_size s)) s)))"
  by pat_completeness auto
termination by (relation "measure length") auto

declare special_count.simps [simp del]

text \<open>The least length is compared as a number; settings stay below the precision of the float it goes through.\<close>

definition check_password_strength :: "auth_settings \<Rightarrow> string \<Rightarrow> bool" where
  "check_password_strength s password \<longleftrightarrow>
     (if \<not> as_security s then True
      else if length password < max password_min_length (as_min_length s) \<or> password_max_length < length password
      then False
      else if 0 < as_min_num s \<and> length (filter handle_digit password) < as_min_num s then False
      else if 0 < as_min_special s \<and> special_count password < as_min_special s then False
      else True)"

section \<open>Credentials\<close>

definition password_filter :: "u64 \<Rightarrow> cred_filter" where
  "password_filter i = \<lparr>cf_owner = i, cf_kind = kind_password, cf_secret = [], cf_deleted = False\<rparr>"

definition check_password :: "auth_env \<Rightarrow> string \<Rightarrow> acred list \<Rightarrow> bool" where
  "check_password env password cc \<longleftrightarrow> matching_cred (ae_compare env) (ae_now env) password cc \<noteq> None"

text \<open>A failing search counts as success.\<close>

definition remove_password_credentials :: "auth_env \<Rightarrow> u64 \<Rightarrow> unit auth_op" where
  "remove_password_credentials env i =
     andthen (reified (search_creds env (password_filter i))) (\<lambda>r. case r of
       Inl _ \<Rightarrow> give ()
     | Inr cc \<Rightarrow> update_creds env (map (\<lambda>c. c\<lparr>cr_deleted := Some (ae_now env)\<rparr>) cc))"

definition hash_password :: "auth_env \<Rightarrow> string \<Rightarrow> string auth_op" where
  "hash_password env password st =
     (case ae_hash env (au_calls st) password of
        None \<Rightarrow> (Inl (RawErr ''bcrypt'', None), st)
      | Some h \<Rightarrow> (Inr h, st))"

definition set_password_credentials :: "auth_env \<Rightarrow> u64 \<Rightarrow> string \<Rightarrow> unit auth_op" where
  "set_password_credentials env i password =
     andthen (hash_password env password) (\<lambda>h.
     andthen (remove_password_credentials env i) (\<lambda>_.
     andthen (next_id env) (\<lambda>n.
     create_cred env \<lparr>cr_id = n, cr_owner = i, cr_kind = kind_password, cr_secret = h, cr_used = None,
                      cr_expires = None, cr_created = ae_now env, cr_deleted = None\<rparr>)))"

section \<open>Operations\<close>

definition fault_of :: "fault + 'a \<Rightarrow> auth_error option" where
  "fault_of r = (case r of Inl (e, v) \<Rightarrow> Some e | Inr _ \<Rightarrow> None)"

text \<open>
  \<open>if err != svc.SetPasswordCredentials(...) { return err }\<close>: the fault of the call is compared with
  the fault at hand, and dropped.
\<close>

definition compare_set_credentials :: "auth_env \<Rightarrow> auth_error option \<Rightarrow> u64 \<Rightarrow> string \<Rightarrow> unit auth_op" where
  "compare_set_credentials env err i password =
     andthen (reified (set_password_credentials env i password)) (\<lambda>r.
       if err \<noteq> fault_of r then (case err of None \<Rightarrow> give () | Some e \<Rightarrow> give_up e) else give ())"

definition set_password :: "auth_env \<Rightarrow> u64 \<Rightarrow> string \<Rightarrow> unit auth_op" where
  "set_password env i password =
     andthen (require (as_internal (ae_settings env)) LoginDisabled) (\<lambda>_.
     andthen (require (check_password_strength (ae_settings env) password) PasswordNotSecure) (\<lambda>_.
     andthen (reified (user_by_id env i)) (\<lambda>r.
       if fault_of r = Some NotFound then give_up PasswordChangeUnknownUser
       else compare_set_credentials env (fault_of r) i password)))"

definition remove_access_tokens :: "auth_env \<Rightarrow> u64 \<Rightarrow> unit auth_op" where
  "remove_access_tokens env i = store_write env (\<lambda>db. db\<lparr>db_tokens := filter (\<lambda>o'. o' \<noteq> i) (db_tokens db)\<rparr>)"

text \<open>The fault of a failed lookup is overwritten by the search; the user is missing at the end then.\<close>

definition change_password :: "auth_env \<Rightarrow> u64 \<Rightarrow> string \<Rightarrow> string \<Rightarrow> unit auth_op" where
  "change_password env i old new =
     andthen (require (as_internal (ae_settings env)) LoginDisabled) (\<lambda>_.
     andthen (require (old \<noteq> []) PasswordNotSecure) (\<lambda>_.
     andthen (require (check_password_strength (ae_settings env) new) PasswordNotSecure) (\<lambda>_.
     andthen (reified (user_by_id env i)) (\<lambda>r.
       if fault_of r = Some NotFound then give_up PasswordChangeUnknownUser
       else
         andthen (search_creds env (password_filter i)) (\<lambda>cc.
         andthen (require (check_password env old cc) OldPasswordCheckFailed) (\<lambda>_.
         andthen (compare_set_credentials env None i new) (\<lambda>_.
         case r of
           Inl _ \<Rightarrow> give_up AuthPanic
         | Inr u \<Rightarrow> remove_access_tokens env (us_id u))))))))"

definition password_set :: "auth_env \<Rightarrow> string \<Rightarrow> bool auth_op" where
  "password_set env email =
     andthen (reified (user_by_email env email)) (\<lambda>r. case r of
       Inl _ \<Rightarrow> give False
     | Inr u \<Rightarrow>
         andthen (reified (search_creds env (password_filter (us_id u)))) (\<lambda>r. case r of
           Inl _ \<Rightarrow> give False
         | Inr cc \<Rightarrow> give (0 < length cc \<and> as_internal (ae_settings env))))"

definition impersonate :: "auth_env \<Rightarrow> u64 \<Rightarrow> auser auth_op" where
  "impersonate env i =
     andthen (user_by_id env i) (\<lambda>u.
     beside (Some u) (andthen (require (ae_can_impersonate env u) NotAllowedToImpersonate) (\<lambda>_. give u)))"

end
