(* ===== verification/AuthLogin.thy ===== *)
theory AuthLogin
  imports AuthPassword
begin

text \<open>
  \<^verbatim>\<open>system/service/auth.go\<close>: sign-up and login with a password or an external profile, with the
  checks of \<^verbatim>\<open>user.go\<close>, the handles of \<^verbatim>\<open>pkg/handle\<close> and the roles of \<^verbatim>\<open>pkg/auth/role-security.go\<close>.
\<close>

section \<open>Emails and handles\<close>

text \<open>\<open>reEmail\<close>: one \<open>@\<close>, characters of a class before it, labels of 1 to 63 characters after it.\<close>

definition email_local_char :: "char \<Rightarrow> bool" where
  "email_local_char c \<longleftrightarrow> alnum_char c \<or> List.member ''.!#$%&*+/=?^_`{|}~-'' c \<or> c = CHR 0x27"

definition email_label :: "string \<Rightarrow> bool" where
  "email_label s \<longleftrightarrow>
     s \<noteq> [] \<and> length s \<le> 63 \<and> alnum_char (hd s) \<and> alnum_char (last s) \<and>
     list_all (\<lambda>c. alnum_char c \<or> c = CHR ''-'') s"

definition email_ok :: "string \<Rightarrow> bool" where
  "email_ok s \<longleftrightarrow>
     (case split_at (CHR ''@'') s of
        [l, d] \<Rightarrow> l \<noteq> [] \<and> list_all email_local_char l \<and> list_all email_label (split_at (CHR ''.'') d)
      | _ \<Rightarrow> False)"

text \<open>\<open>strings.Title\<close> on ASCII text; the first byte is kept as it is.\<close>

fun title_rest :: "bool \<Rightarrow> string \<Rightarrow> string" where
  "title_rest sep [] = []"
| "title_rest sep (c # s) =
     (if sep then upper_char c else c) #
       title_rest (\<not> (alnum_char c \<or> c = CHR ''_'' \<or> 128 \<le> (of_char c :: nat))) s"

definition handle_char :: "char \<Rightarrow> bool" where
  "handle_char c \<longleftrightarrow> alnum_char c \<or> List.member ''_-.'' c"

definition handle_of :: "string \<Rightarrow> string" where
  "handle_of c = filter handle_char (filter (\<lambda>x. x \<noteq> CHR '' '') (take 1 c @ drop 1 (title_rest True c)))"

fun cast_handle :: "auth_env \<Rightarrow> string list \<Rightarrow> string auth_op" where
  "cast_handle env [] = give []"
| "cast_handle env (c # cc) =
     (if c = [] then cast_handle env cc
      else let h = handle_of c in
        if h = [] then cast_handle env cc
        else if valid_handle h then
          andthen (reified (user_by_handle env h)) (\<lambda>r.
            if fault_of r = Some NotFound then give h else cast_handle env cc)
        else cast_handle env cc)"

text \<open>The text before the first \<open>@\<close> that no line break follows.\<close>

fun without_domain :: "string \<Rightarrow> string" where
  "without_domain [] = []"
| "without_domain (c # s) =
     (if c = CHR ''@'' \<and> \<not> List.member s (CHR 0x0A) then [] else c # without_domain s)"

definition create_user_handle :: "auth_env \<Rightarrow> auser \<Rightarrow> auser auth_op" where
  "create_user_handle env u =
     (if us_handle u = [] then
        andthen (cast_handle env [us_name u, us_username u, without_domain (us_email u)]) (\<lambda>h. give (u\<lparr>us_handle := h\<rparr>))
      else give u)"

section \<open>Checks of a new user\<close>

definition user_unique :: "auth_env \<Rightarrow> (auser \<Rightarrow> string) \<Rightarrow> auser \<Rightarrow> bool auth_op" where
  "user_unique env f u =
     (if f u = [] then give True
      else
        andthen (reified (query env (\<lambda>db. filter (\<lambda>v. us_deleted v = None \<and> us_kind v = [] \<and>
            (0 < length (go_trim (f u)) \<longrightarrow> f v = f u)) (db_users db)))) (\<lambda>r. give (case r of
          Inl _ \<Rightarrow> False
        | Inr [] \<Rightarrow> True
        | Inr (v # vv) \<Rightarrow> vv = [] \<and> us_id v = us_id u)))"

definition unique_user_check :: "auth_env \<Rightarrow> auser \<Rightarrow> unit auth_op" where
  "unique_user_check env u =
     andthen (user_unique env us_email u) (\<lambda>b. andthen (require b EmailNotUnique) (\<lambda>_.
     andthen (user_unique env us_username u) (\<lambda>b. andthen (require b UsernameNotUnique) (\<lambda>_.
     andthen (user_unique env us_handle u) (\<lambda>b. require b HandleNotUnique)))))"

definition check_limits :: "auth_env \<Rightarrow> unit auth_op" where
  "check_limits env =
     (if as_limit (ae_settings env) = 0 then give ()
      else andthen (count_valid_users env) (\<lambda>n. require (n < as_limit (ae_settings env)) MaxUserLimit))"

fun create_members :: "auth_env \<Rightarrow> u64 \<Rightarrow> u64 list \<Rightarrow> unit auth_op" where
  "create_members env i [] = give ()"
| "create_members env i (r # rr) = andthen (create_member env i r) (\<lambda>_. create_members env i rr)"

definition auto_promote :: "auth_env \<Rightarrow> auser \<Rightarrow> unit auth_op" where
  "auto_promote env u =
     andthen (count_valid_users env) (\<lambda>n.
       if 1 < n \<or> us_id u = 0 then give () else create_members env (us_id u) (ae_bypass env))"

section \<open>Login\<close>

definition apply_role_security :: "u64 list \<Rightarrow> u64 list \<Rightarrow> u64 list \<Rightarrow> u64 list \<Rightarrow> u64 list" where
  "apply_role_security permitted prohibited forced rr =
     (let mp = to_bool_map permitted; mx = to_bool_map prohibited;
          mf = foldl (\<lambda>m r. if (mp = [] \<or> bool_at mp r) \<and> \<not> bool_at mx r then AList.update r True m else m)
                 (to_bool_map forced) rr
      in sort (map fst mf))"

definition provider_security :: "auth_settings \<Rightarrow> string \<Rightarrow> eap_security option" where
  "provider_security s p =
     (if p = kind_password then None
      else if p = ''saml'' then Some (as_saml s)
      else map_of (as_providers s) p)"

definition secured_roles :: "auth_settings \<Rightarrow> string \<Rightarrow> u64 list \<Rightarrow> u64 list" where
  "secured_roles s p rr =
     (case provider_security s p of
        None \<Rightarrow> rr
      | Some e \<Rightarrow> apply_role_security (map uint_value (es_permitted e)) (map uint_value (es_prohibited e))
                    (map uint_value (es_forced e)) rr)"

definition login_refused :: "auser \<Rightarrow> auth_error option" where
  "login_refused u =
     (if us_suspended u \<noteq> None then Some FailedForSuspendedUser
      else if us_deleted u \<noteq> None then Some FailedForDeletedUser
      else if us_kind u = system_user then Some FailedForSystemUser
      else None)"

definition touch_credential :: "auth_env \<Rightarrow> acred option \<Rightarrow> unit auth_op" where
  "touch_credential env c =
     (case c of None \<Rightarrow> give () | Some c \<Rightarrow> update_creds env [c\<lparr>cr_used := Some (ae_now env)\<rparr>])"

definition proc_login :: "auth_env \<Rightarrow> auser \<Rightarrow> acred option \<Rightarrow> string \<Rightarrow> auser auth_op" where
  "proc_login env u c p =
     (case ae_before_login env p u of (err, u) \<Rightarrow>
       andthen (beside (Some u)
         (case err of
            Some e \<Rightarrow> give_up (RawErr e)
          | None \<Rightarrow> (case login_refused u of Some e \<Rightarrow> give_up e | None \<Rightarrow> load_role_memberships env u)))
       (\<lambda>u. let u = u\<lparr>us_roles := secured_roles (ae_settings env) p (us_roles u)\<rparr>
            in beside (Some u) (andthen (touch_credential env c) (\<lambda>_. give (ae_after_login env p u)))))"

definition internal_login :: "auth_env \<Rightarrow> string \<Rightarrow> string \<Rightarrow> auser auth_op" where
  "internal_login env email password =
     andthen (require (as_internal (ae_settings env)) LoginDisabled) (\<lambda>_.
     andthen (require (email_ok email) InvalidEmailFormat) (\<lambda>_.
     andthen (require (password \<noteq> []) InvalidCredentials) (\<lambda>_.
     andthen (reified (user_by_email env email)) (\<lambda>r. case r of
       Inl (e, v) \<Rightarrow> give_up (if e = NotFound then InvalidCredentials else e)
     | Inr u \<Rightarrow>
         andthen (beside (Some u) (search_creds env (password_filter (us_id u)))) (\<lambda>cc.
         case matching_cred (ae_compare env) (ae_now env) password cc of
           None \<Rightarrow> beside (Some u) (give_up InvalidCredentials)
         | Some c \<Rightarrow> proc_login env u (Some c) kind_password)))))"

section \<open>Sign-up\<close>

definition new_user :: "auth_env \<Rightarrow> auser \<Rightarrow> u64 \<Rightarrow> auser" where
  "new_user env input i =
     \<lparr>us_id = i, us_username = us_username input, us_email = us_email input, us_name = us_name input,
      us_handle = us_handle input, us_kind = [], us_confirmed = (\<not> as_confirmation (ae_settings env)),
      us_created = ae_now env, us_updated = None, us_suspended = None, us_deleted = None,
      us_otp = False, us_totp = False, us_roles = []\<rparr>"

definition signup_new :: "auth_env \<Rightarrow> auser \<Rightarrow> string \<Rightarrow> auser auth_op" where
  "signup_new env input password =
     andthen (next_id env) (\<lambda>i.
     case ae_before_signup env kind_password (new_user env input i) of (err, u) \<Rightarrow>
       (case err of
          Some e \<Rightarrow> give_up (RawErr e)
        | None \<Rightarrow>
            andthen (create_user_handle env u) (\<lambda>u.
            andthen (unique_user_check env u) (\<lambda>_.
            andthen (check_limits env) (\<lambda>_.
            andthen (create_user env u) (\<lambda>_.
            let u = ae_after_signup env kind_password u in
            andthen (auto_promote env u) (\<lambda>_.
            andthen (load_role_memberships env u) (\<lambda>u.
            andthen (set_password env (us_id u) password) (\<lambda>_.
            if us_confirmed u then give u
            else beside (Some u) (andthen (send_confirmation_token env u) (\<lambda>_. give u)))))))))))"

definition internal_signup :: "auth_env \<Rightarrow> auser \<Rightarrow> string \<Rightarrow> auser auth_op" where
  "internal_signup env input password =
     andthen (require (as_internal (ae_settings env) \<and> as_signup (ae_settings env)) SignupDisabled) (\<lambda>_.
     andthen (require (email_ok (us_email input)) InvalidEmailFormat) (\<lambda>_.
     andthen (require (valid_handle (us_handle input)) InvalidHandle) (\<lambda>_.
     andthen (require (password \<noteq> []) PasswordNotSecure) (\<lambda>_.
     andthen (reified (user_by_email env (us_email input))) (\<lambda>r. case r of
       Inr u \<Rightarrow>
         andthen (search_creds env (password_filter (us_id u))) (\<lambda>cc.
         case matching_cred (ae_compare env) (ae_now env) password cc of
           None \<Rightarrow> give_up InvalidCredentials
         | Some c \<Rightarrow> proc_login env u (Some c) kind_password)
     | Inl (e, v) \<Rightarrow> if e = NotFound then signup_new env input password else give_up e)))))"

section \<open>External profiles\<close>

record external_profile =
  ep_provider :: string
  ep_id :: string
  ep_email :: string
  ep_name :: string
  ep_nick :: string

definition profile_user :: "external_profile \<Rightarrow> auser" where
  "profile_user pr =
     \<lparr>us_id = 0, us_username = ep_nick pr, us_email = ep_email pr, us_name = ep_name pr,
      us_handle = (if \<not> valid_handle (ep_nick pr) then ep_nick pr else []), us_kind = [], us_confirmed = True,
      us_created = 0, us_updated = None, us_suspended = None, us_deleted = None,
      us_otp = False, us_totp = False, us_roles = []\<rparr>"

definition external_signup :: "auth_env \<Rightarrow> external_profile \<Rightarrow> auser auth_op" where
  "external_signup env pr =
     (case ae_before_signup env (ep_provider pr) (profile_user pr) of (err, u) \<Rightarrow>
       (case err of
          Some e \<Rightarrow> beside (Some u) (give_up (RawErr e))
        | None \<Rightarrow>
            andthen (create_user_handle env u) (\<lambda>u.
            andthen (beside (Some u) (andthen (unique_user_check env u) (\<lambda>_. check_limits env))) (\<lambda>_.
            andthen (next_id env) (\<lambda>i.
            let u = u\<lparr>us_id := i, us_created := ae_now env\<rparr> in
            andthen (beside (Some u) (create_user env u)) (\<lambda>_.
            let u = ae_after_signup env (ep_provider pr) u in
            beside (Some u) (andthen (auto_promote env u) (\<lambda>_. give u))))))))"

definition confirm_external :: "auth_env \<Rightarrow> auser \<Rightarrow> auser auth_op" where
  "confirm_external env u =
     (if us_confirmed u then give u
      else let u = u\<lparr>us_confirmed := True\<rparr> in beside (Some u) (andthen (update_user env u) (\<lambda>_. give u)))"

definition external_by_email :: "auth_env \<Rightarrow> external_profile \<Rightarrow> auser auth_op" where
  "external_by_email env pr =
     andthen
       (andthen (reified (user_by_email env (ep_email pr))) (\<lambda>r. case r of
          Inl (e, v) \<Rightarrow> if e = NotFound then external_signup env pr else give_up e
        | Inr u \<Rightarrow> proc_login env u None (ep_provider pr)))
     (\<lambda>u. andthen (beside (Some u)
            (andthen (next_id env) (\<lambda>n.
             create_cred env \<lparr>cr_id = n, cr_owner = us_id u, cr_kind = ep_provider pr, cr_secret = ep_id pr,
                              cr_used = Some (ae_now env), cr_expires = None, cr_created = ae_now env, cr_deleted = None\<rparr>)))
          (\<lambda>_. confirm_external env u))"

fun external_by_creds :: "auth_env \<Rightarrow> external_profile \<Rightarrow> bool \<Rightarrow> acred list \<Rightarrow> auser auth_op" where
  "external_by_creds env pr several [] = external_by_email env pr"
| "external_by_creds env pr several (c # cc) =
     (if \<not> cred_valid (ae_now env) c then external_by_creds env pr several cc
      else
        andthen (reified (user_by_id env (cr_owner c))) (\<lambda>r. case r of
          Inl (e, v) \<Rightarrow>
            if e = NotFound then andthen (delete_cred_by_id env (cr_id c)) (\<lambda>_. external_by_email env pr)
            else give_up e
        | Inr u \<Rightarrow>
            andthen (reified (proc_login env u (Some c) (ep_provider pr))) (\<lambda>r. case r of
              Inl (e, v) \<Rightarrow>
                if several then external_by_creds env pr several cc
                else beside v (give_up LinkedToInvalidUser)
            | Inr u \<Rightarrow> confirm_external env u)))"

definition external :: "auth_env \<Rightarrow> external_profile \<Rightarrow> auser auth_op" where
  "external env pr =
     andthen (require (as_external (ae_settings env)) ExternalDisabled) (\<lambda>_.
     andthen (case ae_provider env (ep_provider pr) of None \<Rightarrow> give () | Some e \<Rightarrow> give_up (RawErr e)) (\<lambda>_.
     andthen (require (email_ok (ep_email pr)) ProfileWithoutEmail) (\<lambda>_.
     andthen (search_creds env \<lparr>cf_owner = 0, cf_kind = ep_provider pr, cf_secret = ep_id pr, cf_deleted = False\<rparr>) (\<lambda>cc.
     external_by_creds env pr (1 < length cc) cc))))"

end
