(* ===== verification/AuthMfa.thy ===== *)
theory AuthMfa
  imports AuthPassword
begin

text \<open>
  \<^verbatim>\<open>system/service/auth.go\<close>: the second factors. The user who acts is the identity of the environment,
  which is never missing. Where a lookup fails with anything but a missing row the code goes on
  with no user, and reading a field of it is a panic.
\<close>

definition only_digits :: "string \<Rightarrow> string" where
  "only_digits s = filter handle_digit s"

definition user_or_panic :: "auth_env \<Rightarrow> u64 \<Rightarrow> auser auth_op" where
  "user_or_panic env i =
     andthen (reified (user_by_id env i)) (\<lambda>r. case r of
       Inl (e, v) \<Rightarrow> give_up (if e = NotFound then FailedForUnknownUser else AuthPanic)
     | Inr u \<Rightarrow> give u)"

section \<open>Time based passwords\<close>

definition totp_filter :: "u64 \<Rightarrow> cred_filter" where
  "totp_filter i = \<lparr>cf_owner = i, cf_kind = kind_totp, cf_secret = [], cf_deleted = False\<rparr>"

definition get_totp_secret :: "auth_env \<Rightarrow> u64 \<Rightarrow> acred auth_op" where
  "get_totp_secret env i =
     andthen (search_creds env (totp_filter i)) (\<lambda>cc. case cc of [c] \<Rightarrow> give c | _ \<Rightarrow> give_up InvalidTOTP)"

definition validate_totp_code :: "auth_env \<Rightarrow> string \<Rightarrow> string \<Rightarrow> unit auth_op" where
  "validate_totp_code env secret code =
     (let code = only_digits code in
      if length code \<noteq> 6 then give_up InvalidTOTP
      else require (ae_totp env secret code = Some True) InvalidTOTP)"

definition revoke_all_totp :: "auth_env \<Rightarrow> u64 \<Rightarrow> unit auth_op" where
  "revoke_all_totp env i =
     andthen (search_creds env (totp_filter i)) (\<lambda>cc.
     update_creds env (map (\<lambda>c. c\<lparr>cr_deleted := Some (ae_now env)\<rparr>) cc))"

definition validate_totp :: "auth_env \<Rightarrow> string \<Rightarrow> unit auth_op" where
  "validate_totp env code =
     store_tx env undo_all (\<lambda>_. None)
       (andthen (require (as_totp (ae_settings env)) DisabledTOTP) (\<lambda>_.
        andthen (user_or_panic env (ae_identity env)) (\<lambda>u.
        andthen (require (us_totp u) UnconfiguredTOTP) (\<lambda>_.
        andthen (get_totp_secret env (us_id u)) (\<lambda>c.
        andthen (validate_totp_code env (cr_secret c) code) (\<lambda>_.
        update_creds env [c\<lparr>cr_used := Some (ae_now env)\<rparr>]))))))"

definition configure_totp :: "auth_env \<Rightarrow> string \<Rightarrow> string \<Rightarrow> auser auth_op" where
  "configure_totp env secret code =
     store_tx env undo_all Some
       (andthen (require (as_totp (ae_settings env)) DisabledTOTP) (\<lambda>_.
        andthen (validate_totp_code env secret code) (\<lambda>_.
        andthen (user_or_panic env (ae_identity env)) (\<lambda>u.
        andthen (beside (Some u)
          (andthen (require (\<not> us_totp u) NotAllowedToConfigureTOTP) (\<lambda>_.
           andthen (revoke_all_totp env (us_id u)) (\<lambda>_.
           andthen (next_id env) (\<lambda>n.
           create_cred env \<lparr>cr_id = n, cr_owner = us_id u, cr_kind = kind_totp, cr_secret = secret, cr_used = None,
                            cr_expires = None, cr_created = ae_now env, cr_deleted = None\<rparr>))))) (\<lambda>_.
        let u = u\<lparr>us_totp := True\<rparr>
        in beside (Some u) (andthen (update_user env u) (\<lambda>_. give u)))))))"

definition remove_totp :: "auth_env \<Rightarrow> u64 \<Rightarrow> string \<Rightarrow> auser auth_op" where
  "remove_totp env i code =
     store_tx env undo_all Some
       (andthen (require (as_totp (ae_settings env)) DisabledTOTP) (\<lambda>_.
        andthen (require (\<not> as_totp_enforced (ae_settings env)) EnforcedTOTP) (\<lambda>_.
        andthen (reified (user_by_id env i)) (\<lambda>r. case r of
          Inl (e, v) \<Rightarrow>
            if e = NotFound then give_up FailedForUnknownUser
            else if \<not> ae_can_update env None then give_up NotAllowedToRemoveTOTP
            else give_up AuthPanic
        | Inr u \<Rightarrow>
            andthen (beside (Some u)
              (andthen
                (if ae_identity env = i then
                   andthen (get_totp_secret env (us_id u)) (\<lambda>c. validate_totp_code env (cr_secret c) code)
                 else require (ae_can_update env (Some u)) NotAllowedToRemoveTOTP) (\<lambda>_.
               revoke_all_totp env (us_id u)))) (\<lambda>_.
            let u = u\<lparr>us_totp := False\<rparr>
            in beside (Some u) (andthen (update_user env u) (\<lambda>_. give u)))))))"

section \<open>Passwords by email\<close>

text \<open>
  The token is created in a transaction of its own: when the outer one is rolled back there is
  nothing to take back.
\<close>

definition send_email_otp :: "auth_env \<Rightarrow> unit auth_op" where
  "send_email_otp env =
     store_tx env undo_none (\<lambda>_. None)
       (andthen (require (as_otp (ae_settings env)) DisabledEmailOTP) (\<lambda>_.
        andthen (reified (user_by_id env (ae_identity env))) (\<lambda>r. case r of
          Inl (e, v) \<Rightarrow>
            if e = NotFound then give_up FailedForUnknownUser
            else andthen (create_user_token env None kind_otp) (\<lambda>_. give_up AuthPanic)
        | Inr u \<Rightarrow>
            andthen (create_user_token env (Some u) kind_otp) (\<lambda>otp. notify env (OTPMail (us_email u) otp)))))"

definition configure_email_otp :: "auth_env \<Rightarrow> u64 \<Rightarrow> bool \<Rightarrow> auser auth_op" where
  "configure_email_otp env i enable =
     store_tx env undo_all Some
       (andthen (require (as_otp (ae_settings env)) DisabledEmailOTP) (\<lambda>_.
        andthen (require (\<not> (as_otp_enforced (ae_settings env) \<and> \<not> enable)) EnforcedEmailOTP) (\<lambda>_.
        andthen (user_or_panic env i) (\<lambda>u.
        let u = u\<lparr>us_otp := enable\<rparr>
        in beside (Some u) (andthen (update_user env u) (\<lambda>_. give u))))))"

text \<open>Expiry is read without a check that there is one.\<close>

fun spend_otp :: "auth_env \<Rightarrow> string \<Rightarrow> acred list \<Rightarrow> unit auth_op" where
  "spend_otp env code [] = give_up InvalidEmailOTP"
| "spend_otp env code (c # cc) =
     (case cr_expires c of
        None \<Rightarrow> give_up AuthPanic
      | Some t \<Rightarrow>
          if t < ae_now env then spend_otp env code cc
          else if cr_secret c \<noteq> code then spend_otp env code cc
          else delete_creds env [c])"

definition validate_email_otp :: "auth_env \<Rightarrow> string \<Rightarrow> unit auth_op" where
  "validate_email_otp env code =
     store_tx env undo_all (\<lambda>_. None)
       (andthen (require (as_otp (ae_settings env)) DisabledEmailOTP) (\<lambda>_.
        andthen (reified (user_by_id env (ae_identity env))) (\<lambda>r.
          if fault_of r = Some NotFound then give_up FailedForUnknownUser
          else
            let code = only_digits code in
            if length code \<noteq> 6 then give_up InvalidEmailOTP
            else (case r of
                    Inl _ \<Rightarrow> give_up AuthPanic
                  | Inr u \<Rightarrow>
                      andthen (search_creds env \<lparr>cf_owner = us_id u, cf_kind = kind_otp, cf_secret = [], cf_deleted = False\<rparr>)
                        (spend_otp env code)))))"

end
