(* ===== verification/AuthFacts.thy ===== *)
theory AuthFacts
  imports AuthLogin AuthMfa
begin

text \<open>
  Facts the properties of authentication share: sequencing, queries of a store that does not fail,
  transactions, and the operations on tokens and password credentials.
\<close>

section \<open>Sequencing\<close>

named_theorems auth_run \<open>how the operations run\<close>

lemma andthen_success:
  "andthen m f st = (Inr y, st') \<longleftrightarrow> (\<exists>x s. m st = (Inr x, s) \<and> f x s = (Inr y, st'))"
  by (auto simp: andthen_def split: prod.splits sum.splits)

lemma andthen_Inr [auth_run]: "m st = (Inr x, s) \<Longrightarrow> andthen m f st = f x s"
  by (simp add: andthen_def)

lemma andthen_Inl [auth_run]: "m st = (Inl e, s) \<Longrightarrow> andthen m f st = (Inl e, s)"
  by (simp add: andthen_def)

lemma give_run [simp]: "give x st = (Inr x, st)"
  by (simp add: give_def)

lemma give_up_run [simp]: "give_up e st = (Inl (e, None), st)"
  by (simp add: give_up_def)

lemma andthen_give [simp]: "andthen (give x) f = f x"
  by (simp add: fun_eq_iff andthen_def)

lemma andthen_give_up [simp]: "andthen (give_up e) f = give_up e"
  by (simp add: fun_eq_iff andthen_def give_up_def)

lemma require_run [simp]: "require True e = give ()" "require False e = give_up e"
  by (simp_all add: require_def)

lemma require_success: "require b e st = (Inr x, st') \<longleftrightarrow> b \<and> st' = st"
  by (auto simp: require_def)

lemma beside_Inr [simp]: "m st = (Inr x, s) \<Longrightarrow> beside u m st = (Inr x, s)"
  by (simp add: beside_def)

lemma beside_give [simp]: "beside u (give x) = give x"
  by (simp add: fun_eq_iff beside_def)

lemma beside_success: "beside u m st = (Inr x, s) \<longleftrightarrow> m st = (Inr x, s)"
  by (auto simp: beside_def split: prod.splits sum.splits)

lemma beside_give_up [simp]: "beside u (give_up e) st = (Inl (e, u), st)"
  by (simp add: beside_def)

lemma reified_success: "reified m st = (Inr r, s) \<longleftrightarrow> m st = (r, s)"
  by (auto simp: reified_def split: prod.splits)

lemma reified_total: "reified m st = (Inr (fst (m st)), snd (m st))"
  by (simp add: reified_def split: prod.splits)

lemma andthen_reified [simp]: "andthen (reified m) f st = f (fst (m st)) (snd (m st))"
  by (simp add: andthen_def reified_total)

section \<open>The store\<close>

text \<open>Every call counts, and nothing else changes but what is written.\<close>

lemma store_call_keeps [simp]: "au_db (snd (store_call env st)) = au_db st"
  by (simp add: store_call_def Let_def split: option.splits)

lemma store_call_success: "store_call env st = (Inr x, s) \<Longrightarrow> s = st\<lparr>au_calls := Suc (au_calls st)\<rparr>"
  by (auto simp: store_call_def Let_def split: option.splits)

lemma store_call_db: "store_call env st = (r, s) \<Longrightarrow> au_db s = au_db st"
  using store_call_keeps [of env st] by simp

lemma query_success:
  "query env q st = (Inr x, s) \<Longrightarrow> x = q (au_db st) \<and> s = st\<lparr>au_calls := Suc (au_calls st)\<rparr>"
  by (auto simp: query_def andthen_success dest!: store_call_success)

lemma write_success:
  "store_write env w st = (Inr x, s) \<Longrightarrow> au_db s = w (au_db st) \<and> au_ids s = au_ids st"
  by (auto simp: store_write_def andthen_success dest!: store_call_success)

lemma insert_success:
  "db_insert env taken w st = (Inr x, s) \<Longrightarrow> \<not> taken (au_db st) \<and> au_db s = w (au_db st)"
  by (auto simp: db_insert_def andthen_success dest!: store_call_success split: if_splits)

section \<open>A store that does not fail\<close>

definition reliable :: "auth_env \<Rightarrow> bool" where
  "reliable env \<longleftrightarrow> (\<forall>n. ae_faults env n = None)"

abbreviation called :: "auth_state \<Rightarrow> auth_state" where
  "called st \<equiv> st\<lparr>au_calls := Suc (au_calls st)\<rparr>"

lemma reliable_call [simp]: "reliable env \<Longrightarrow> store_call env st = (Inr (), called st)"
  by (simp add: reliable_def store_call_def)

lemma reliable_query [simp]: "reliable env \<Longrightarrow> query env q st = (Inr (q (au_db st)), called st)"
  by (simp add: query_def andthen_def)

lemma reliable_write [simp]:
  "reliable env \<Longrightarrow> store_write env w st = (Inr (), (called st)\<lparr>au_db := w (au_db st)\<rparr>)"
  by (simp add: store_write_def andthen_def)

lemma reliable_insert [simp]:
  "reliable env \<Longrightarrow> db_insert env taken w st =
     (if taken (au_db st) then (Inl (RawErr ''duplicate key'', None), called st)
      else (Inr (), (called st)\<lparr>au_db := w (au_db st)\<rparr>))"
  by (simp add: db_insert_def andthen_def)

lemma found_run [simp]: "found None = give_up NotFound" "found (Some x) = give x"
  by (simp_all add: found_def)

lemma reliable_cred_by_id [simp]:
  "reliable env \<Longrightarrow> cred_by_id env i st =
     (case find (\<lambda>c. cr_id c = i) (db_creds (au_db st)) of
        None \<Rightarrow> (Inl (NotFound, None), called st) | Some c \<Rightarrow> (Inr c, called st))"
  by (simp add: cred_by_id_def andthen_def split: option.split)

lemma reliable_user_by_id [simp]:
  "reliable env \<Longrightarrow> user_by_id env i st =
     (case find (\<lambda>u. us_id u = i) (db_users (au_db st)) of
        None \<Rightarrow> (Inl (NotFound, None), called st) | Some u \<Rightarrow> (Inr u, called st))"
  by (simp add: user_by_id_def andthen_def split: option.split)

lemma reliable_user_by_email [simp]:
  "reliable env \<Longrightarrow> user_by_email env e st =
     (case find (\<lambda>u. to_lower (us_email u) = to_lower e \<and> us_deleted u = None) (db_users (au_db st)) of
        None \<Rightarrow> (Inl (NotFound, None), called st) | Some u \<Rightarrow> (Inr u, called st))"
  by (simp add: user_by_email_def user_by_text_def andthen_def split: option.split)

lemma reliable_search_creds [simp]:
  "reliable env \<Longrightarrow> search_creds env f st = (Inr (filter (cred_passes f) (db_creds (au_db st))), called st)"
  by (simp add: search_creds_def)

lemma reliable_update_creds:
  "reliable env \<Longrightarrow> update_creds env cc st =
     (Inr (), st\<lparr>au_calls := au_calls st + length cc,
                 au_db := (au_db st)\<lparr>db_creds := fold put_cred cc (db_creds (au_db st))\<rparr>\<rparr>)"
  by (induction cc arbitrary: st) (simp_all add: andthen_def)

section \<open>Transactions\<close>

text \<open>A transaction that fails leaves the tables as they were.\<close>

lemma tx_handler_step:
  assumes "store_call env st = (r1, st1)" and "task st1 = (r2, st2)" and "store_call env st2 = (r3, st3)"
  shows "tx_handler env undo out task n st =
     (case r1 of Inl e \<Rightarrow> (Inl e, st1)
      | Inr _ \<Rightarrow> (case r2 of
          Inr x \<Rightarrow> (case r3 of Inl (e, v) \<Rightarrow> (Inl (e, out x), rolled_back undo st st3) | Inr _ \<Rightarrow> (Inr x, st3))
        | Inl (e, v) \<Rightarrow> (case r3 of
            Inl (e', _) \<Rightarrow> (Inl (TxFailed e', v), rolled_back undo st st3)
          | Inr _ \<Rightarrow>
              if app_error e then (Inl (e, v), rolled_back undo st st3)
              else if \<not> ae_tx_retry env (Suc n) e \<or> ae_tx_limit env \<le> int (Suc n) \<or> tx_hard_limit \<le> Suc n
              then (Inl (TxFailed e, v), rolled_back undo st st3)
              else tx_handler env undo out task (Suc n) (rolled_back undo st st3))))"
  by (subst tx_handler.simps) (simp add: assms Let_def split: sum.split prod.split)

lemma rolled_back_all [simp]: "au_db (rolled_back undo_all st st') = au_db st"
  by (simp add: rolled_back_def undo_all_def)

lemma tx_handler_failed:
  "tx_handler env undo_all out task n st = (Inl f, st') \<Longrightarrow> au_db st' = au_db st"
proof (induction "tx_hard_limit - n" arbitrary: n st st' rule: less_induct)
  case less
  obtain r1 st1 where c1: "store_call env st = (r1, st1)" by (cases "store_call env st")
  obtain r2 st2 where t: "task st1 = (r2, st2)" by (cases "task st1")
  obtain r3 st3 where c3: "store_call env st2 = (r3, st3)" by (cases "store_call env st2")
  note run = less.prems [unfolded tx_handler_step [where task = task, OF c1 t c3]]
  show ?case
  proof (cases r1)
    case (Inl e)
    with run store_call_db [OF c1] show ?thesis by simp
  next
    case [simp]: (Inr u)
    show ?thesis
    proof (cases r2)
      case (Inr x)
      with run show ?thesis by (auto split: sum.splits)
    next
      case [simp]: (Inl f2)
      obtain e v where [simp]: "f2 = (e, v)" by (cases f2)
      show ?thesis
      proof (cases r3)
        case (Inl f3)
        with run show ?thesis by (auto split: prod.splits)
      next
        case [simp]: (Inr w)
        show ?thesis
        proof (cases "app_error e \<or> \<not> ae_tx_retry env (Suc n) e \<or> ae_tx_limit env \<le> int (Suc n) \<or> tx_hard_limit \<le> Suc n")
          case True
          with run show ?thesis by (auto split: if_splits)
        next
          case False
          with run have "tx_handler env undo_all out task (Suc n) (rolled_back undo_all st st3) = (Inl f, st')" by simp
          moreover have "tx_hard_limit - Suc n < tx_hard_limit - n" using False by linarith
          ultimately show ?thesis using less.hyps [of "Suc n"] by simp
        qed
      qed
    qed
  qed
qed

text \<open>One that succeeds has run its task once to the end, on the tables it found.\<close>

lemma tx_handler_success:
  "tx_handler env undo_all out task n st = (Inr x, st') \<Longrightarrow>
   \<exists>s s'. task s = (Inr x, s') \<and> au_db s = au_db st \<and> au_db st' = au_db s'"
proof (induction "tx_hard_limit - n" arbitrary: n st rule: less_induct)
  case less
  obtain r1 st1 where c1: "store_call env st = (r1, st1)" by (cases "store_call env st")
  obtain r2 st2 where t: "task st1 = (r2, st2)" by (cases "task st1")
  obtain r3 st3 where c3: "store_call env st2 = (r3, st3)" by (cases "store_call env st2")
  note run = less.prems [unfolded tx_handler_step [where task = task, OF c1 t c3]]
  show ?case
  proof (cases r1)
    case (Inl e)
    with run show ?thesis by simp
  next
    case [simp]: (Inr u)
    show ?thesis
    proof (cases r2)
      case (Inr y)
      with run t store_call_db [OF c1] store_call_db [OF c3] show ?thesis by (auto split: sum.splits)
    next
      case [simp]: (Inl f2)
      obtain e v where [simp]: "f2 = (e, v)" by (cases f2)
      from run obtain w where [simp]: "r3 = Inr w" by (auto split: sum.splits)
      from run have retry: "\<not> (app_error e \<or> \<not> ae_tx_retry env (Suc n) e \<or> ae_tx_limit env \<le> int (Suc n) \<or> tx_hard_limit \<le> Suc n)"
        by (auto split: if_splits)
      with run have again: "tx_handler env undo_all out task (Suc n) (rolled_back undo_all st st3) = (Inr x, st')" by simp
      have "tx_hard_limit - Suc n < tx_hard_limit - n" using retry by linarith
      from less.hyps [OF this again] show ?thesis by simp
    qed
  qed
qed

lemma store_tx_failed:
  "store_tx env undo_all out task st = (Inl f, st') \<Longrightarrow> 0 \<le> ae_tx_limit env \<Longrightarrow> au_db st' = au_db st"
  by (simp add: store_tx_def tx_handler_failed)

lemma store_tx_success:
  "store_tx env undo_all out task st = (Inr x, st') \<Longrightarrow>
   \<exists>s s'. task s = (Inr x, s') \<and> au_db s = au_db st \<and> au_db st' = au_db s'"
  by (auto simp: store_tx_def dest: tx_handler_success split: if_splits)

text \<open>With a store that does not fail the task runs once, unless it gives a fault that may be tried again.\<close>

lemma reliable_tx:
  assumes "reliable env" and "task st1 = (r, st2)" and "st1 = (if ae_tx_limit env < 0 then st else called st)"
    and "\<And>f. r = Inl f \<Longrightarrow> app_error (fst f)"
  shows "\<exists>s. store_tx env undo_all out task st = (r, s) \<and>
     au_db s = (if ae_tx_limit env < 0 then au_db st2 else case r of Inl _ \<Rightarrow> au_db st | Inr _ \<Rightarrow> au_db st2)"
proof (cases "ae_tx_limit env < 0")
  case True
  with assms(2,3) show ?thesis by (simp add: store_tx_def)
next
  case False
  with assms(3) have st1: "st1 = called st" by simp
  have c1: "store_call env st = (Inr (), st1)" using assms(1) st1 by simp
  have c3: "store_call env st2 = (Inr (), called st2)" using assms(1) by simp
  show ?thesis
    using False assms(4) by (auto simp: store_tx_def tx_handler_step [where task = task, OF c1 assms(2) c3] split: sum.split)
qed

section \<open>Rows of credentials\<close>

text \<open>What identifies a row and never changes.\<close>

definition row_key :: "acred \<Rightarrow> u64 \<times> u64 \<times> string \<times> int" where
  "row_key c = (cr_id c, cr_owner c, cr_kind c, cr_created c)"

lemma put_cred_keys:
  assumes "distinct (map cr_id rows)" and "row_key c \<in> row_key ` set rows"
  shows "map row_key (put_cred c rows) = map row_key rows"
proof -
  obtain d where d: "d \<in> set rows" "row_key c = row_key d" using assms(2) by auto
  have "row_key (if cr_id x = cr_id c then c else x) = row_key x" if "x \<in> set rows" for x
  proof (cases "cr_id x = cr_id c")
    case True
    with d(2) have "cr_id x = cr_id d" by (simp add: row_key_def)
    with assms(1) d(1) that have "x = d" by (auto simp: distinct_map dest: inj_onD)
    with True d(2) show ?thesis by simp
  qed simp
  then show ?thesis by (simp add: put_cred_def)
qed

lemma drop_cred_keys: "map row_key (drop_cred i rows) = filter (\<lambda>k. fst k \<noteq> i) (map row_key rows)"
  by (simp add: drop_cred_def filter_map row_key_def comp_def)

lemma distinct_keys: "map row_key rows = map row_key rows' \<Longrightarrow> distinct (map cr_id rows) = distinct (map cr_id rows')"
proof -
  assume "map row_key rows = map row_key rows'"
  then have "map fst (map row_key rows) = map fst (map row_key rows')" by simp
  then have "map cr_id rows = map cr_id rows'" by (simp add: row_key_def comp_def)
  then show ?thesis by simp
qed

text \<open>What updates and deletions make of the table.\<close>

lemma update_creds_success:
  "update_creds env cc st = (Inr x, s) \<Longrightarrow>
   au_db s = (au_db st)\<lparr>db_creds := fold put_cred cc (db_creds (au_db st))\<rparr> \<and> au_ids s = au_ids st"
proof (induction cc arbitrary: st)
  case (Cons c cc)
  then obtain s1 where "store_write env (\<lambda>db. db\<lparr>db_creds := put_cred c (db_creds db)\<rparr>) st = (Inr (), s1)"
    and "update_creds env cc s1 = (Inr x, s)" by (auto simp: andthen_success)
  with Cons.IH [of s1] write_success show ?case by fastforce
qed simp

lemma delete_creds_success:
  "delete_creds env cc st = (Inr x, s) \<Longrightarrow>
   au_db s = (au_db st)\<lparr>db_creds := fold (\<lambda>c. drop_cred (cr_id c)) cc (db_creds (au_db st))\<rparr> \<and> au_ids s = au_ids st"
proof (induction cc arbitrary: st)
  case (Cons c cc)
  then obtain s1 where "store_write env (\<lambda>db. db\<lparr>db_creds := drop_cred (cr_id c) (db_creds db)\<rparr>) st = (Inr (), s1)"
    and "delete_creds env cc s1 = (Inr x, s)" by (auto simp: andthen_success)
  with Cons.IH [of s1] write_success show ?case by fastforce
qed simp

lemma fold_put_keys:
  "distinct (map cr_id rows) \<Longrightarrow> row_key ` set cc \<subseteq> row_key ` set rows \<Longrightarrow>
   map row_key (fold put_cred cc rows) = map row_key rows"
proof (induction cc arbitrary: rows)
  case (Cons c cc)
  have step: "map row_key (put_cred c rows) = map row_key rows" using Cons.prems by (intro put_cred_keys) auto
  then have "set (map row_key (put_cred c rows)) = set (map row_key rows)" by (rule arg_cong)
  with Cons.prems have "row_key ` set cc \<subseteq> row_key ` set (put_cred c rows)" by simp
  with Cons.IH [of "put_cred c rows"] Cons.prems(1) distinct_keys [OF step] step show ?case by simp
qed simp

lemma fold_drop_keys:
  "map row_key (fold (\<lambda>c. drop_cred (cr_id c)) cc rows) = filter (\<lambda>k. fst k \<notin> cr_id ` set cc) (map row_key rows)"
  by (induction cc arbitrary: rows) (auto simp: drop_cred_keys intro!: filter_cong)

lemma cleanup_sets_keys:
  "cleanup_sets now cc = (update, remove) \<Longrightarrow>
   row_key ` set update \<subseteq> row_key ` set cc \<and> set remove \<subseteq> set cc"
  by (induction cc arbitrary: update remove) (force simp: Let_def row_key_def split: prod.splits if_splits)+

lemma cleanup_success:
  assumes "cleanup_credentials env cc st = (Inr x, s)" and "distinct (map cr_id (db_creds (au_db st)))"
    and "set cc \<subseteq> set (db_creds (au_db st))"
  shows "\<exists>rows P. au_db s = (au_db st)\<lparr>db_creds := rows\<rparr> \<and> au_ids s = au_ids st \<and>
    map row_key rows = filter P (map row_key (db_creds (au_db st)))"
proof -
  obtain update remove where sets: "cleanup_sets (ae_now env) cc = (update, remove)" by fastforce
  with assms(1) obtain s1 where up: "update_creds env update st = (Inr (), s1)"
    and del: "delete_creds env remove s1 = (Inr x, s)"
    by (auto simp: cleanup_credentials_def andthen_success)
  let ?rows = "db_creds (au_db st)"
  have "row_key ` set update \<subseteq> row_key ` set cc" using cleanup_sets_keys [OF sets] by simp
  also have "\<dots> \<subseteq> row_key ` set ?rows" using assms(3) by (rule image_mono)
  finally have "row_key ` set update \<subseteq> row_key ` set ?rows" .
  then have "map row_key (fold put_cred update ?rows) = map row_key ?rows" by (rule fold_put_keys [OF assms(2)])
  then have "map row_key (fold (\<lambda>c. drop_cred (cr_id c)) remove (fold put_cred update ?rows)) =
    filter (\<lambda>k. fst k \<notin> cr_id ` set remove) (map row_key ?rows)" by (simp only: fold_drop_keys)
  moreover have "au_db s = (au_db st)\<lparr>db_creds := fold (\<lambda>c. drop_cred (cr_id c)) remove (fold put_cred update ?rows)\<rparr>"
    and "au_ids s = au_ids st"
    using update_creds_success [OF up] delete_creds_success [OF del] by simp_all
  ultimately show ?thesis by blast
qed

section \<open>Tokens\<close>

lemma rate_count_limit:
  "seen \<le> limit \<Longrightarrow> limit < rate_count cutoff limit seen cc \<longleftrightarrow>
     limit < seen + length (filter (\<lambda>c. cutoff \<le> cr_created c) cc)"
  by (induction cutoff limit seen cc rule: rate_count.induct) auto

lemma check_rate_bound:
  assumes "check_token_rate now cc token_max_window token_max_count"
  shows "length (filter (\<lambda>c. now - token_max_window \<le> cr_created c) cc) \<le> token_max_count"
  using assms rate_count_limit [of 0 token_max_count "now - token_max_window" cc]
  by (cases cc) (auto simp: check_token_rate_def token_max_count_def token_max_window_def go_second_def)

text \<open>The credential a token is made of.\<close>

definition token_cred :: "auth_env \<Rightarrow> nat \<Rightarrow> u64 \<Rightarrow> u64 \<Rightarrow> string \<Rightarrow> acred" where
  "token_cred env n i owner kind =
     \<lparr>cr_id = i, cr_owner = owner, cr_kind = kind, cr_secret = snd (token_text env n kind), cr_used = None,
      cr_expires = Some (fst (token_text env n kind)), cr_created = ae_now env, cr_deleted = None\<rparr>"

lemma create_token_success:
  assumes "create_token_task env (Some u) kind st = (Inr t, s)"
    and "distinct (map cr_id (db_creds (au_db st)))"
  defines "f \<equiv> \<lparr>cf_owner = us_id u, cf_kind = kind, cf_secret = [], cf_deleted = True\<rparr>"
  shows "us_id u \<noteq> 0 \<and>
    check_token_rate (ae_now env) (filter (cred_passes f) (db_creds (au_db st))) token_max_window token_max_count \<and>
    (\<exists>rows P i n. au_db s = (au_db st)\<lparr>db_creds := rows @ [token_cred env n i (us_id u) kind]\<rparr> \<and>
       map row_key rows = filter P (map row_key (db_creds (au_db st))) \<and> i \<notin> cr_id ` set rows \<and> i \<in> range (ae_id env) \<and>
       t = (if kind = kind_otp then snd (token_text env n kind) else snd (token_text env n kind) @ format_uint i))"
proof -
  let ?rows = "db_creds (au_db st)" and ?cc = "filter (cred_passes f) (db_creds (au_db st))"
  have id: "us_id u \<noteq> 0" using assms(1) by (auto simp: create_token_task_def split: if_splits)
  from assms(1) id obtain cc s1 where q: "search_creds env f st = (Inr cc, s1)"
    by (auto simp: create_token_task_def andthen_success f_def)
  then have cc: "cc = ?cc" and db1: "au_db s1 = au_db st"
    by (auto simp: search_creds_def dest!: query_success)
  note q = q [unfolded cc]
  have "\<exists>s2 s3 i. check_token_rate (ae_now env) ?cc token_max_window token_max_count \<and>
    cleanup_credentials env ?cc s1 = (Inr (), s2) \<and> next_id env s2 = (Inr i, s3) \<and>
    create_cred env (token_cred env (au_calls s3) i (us_id u) kind) s3 = (Inr (), s) \<and>
    t = (if kind = kind_otp then snd (token_text env (au_calls s3) kind)
         else snd (token_text env (au_calls s3) kind) @ format_uint i)"
    using assms(1) id unfolding create_token_task_def token_cred_def
    by (simp add: andthen_success require_success case_prod_unfold Let_def q [unfolded f_def] f_def) metis
  then obtain s2 s3 i where
    rate: "check_token_rate (ae_now env) ?cc token_max_window token_max_count"
    and cl: "cleanup_credentials env ?cc s1 = (Inr (), s2)"
    and nx: "next_id env s2 = (Inr i, s3)"
    and cr: "create_cred env (token_cred env (au_calls s3) i (us_id u) kind) s3 = (Inr (), s)"
    and t: "t = (if kind = kind_otp then snd (token_text env (au_calls s3) kind)
                 else snd (token_text env (au_calls s3) kind) @ format_uint i)"
    by blast
  have "distinct (map cr_id (db_creds (au_db s1)))" "set ?cc \<subseteq> set (db_creds (au_db s1))" using assms(2) db1 by auto
  from cleanup_success [OF cl this] db1 obtain rows P where
    rows: "au_db s2 = (au_db st)\<lparr>db_creds := rows\<rparr>" "map row_key rows = filter P (map row_key ?rows)" by auto
  have db3: "au_db s3 = au_db s2" and i: "i \<in> range (ae_id env)" using nx by (auto simp: next_id_def)
  have ins: "\<not> list_ex (\<lambda>d. cr_id d = i) rows"
    "au_db s = (au_db s2)\<lparr>db_creds := rows @ [token_cred env (au_calls s3) i (us_id u) kind]\<rparr>"
    using insert_success [OF cr [unfolded create_cred_def]] db3 rows(1) by (simp_all add: token_cred_def)
  then have fresh: "i \<notin> cr_id ` set rows" by (auto simp: list_ex_iff)
  have db: "au_db s = (au_db st)\<lparr>db_creds := rows @ [token_cred env (au_calls s3) i (us_id u) kind]\<rparr>"
    using ins(2) rows(1) by simp
  show ?thesis
    by (intro conjI exI [where x = rows] exI [where x = P] exI [where x = i] exI [where x = "au_calls s3"])
      (rule id rate db rows(2) fresh i t)+
qed

lemma find_snoc: "\<forall>x \<in> set xs. \<not> P x \<Longrightarrow> P y \<Longrightarrow> find P (xs @ [y]) = Some y"
  by (induction xs) auto

text \<open>A token read by a store that does not fail.\<close>

definition token_verdict :: "auth_env \<Rightarrow> auth_db \<Rightarrow> acred \<Rightarrow> string \<Rightarrow> fault + auser" where
  "token_verdict env db c secret =
     (if \<not> (cred_valid (ae_now env) c \<and> cr_secret c = secret) then Inl (InvalidToken None, None)
      else (case find (\<lambda>u. us_id u = cr_owner c) (db_users db) of
              None \<Rightarrow> Inl (NotFound, None)
            | Some u \<Rightarrow> if user_valid u then Inr u else Inl (InvalidCredentials, Some u)))"

lemma token_verdict_app: "token_verdict env db c secret = Inl f \<Longrightarrow> app_error (fst f)"
  by (auto simp: token_verdict_def split: if_splits option.splits)

lemma load_token_run:
  assumes "reliable env" and "validate_token t = (i, secret)" and "i \<noteq> 0"
  shows "\<exists>n. load_token_task env t st =
    (case find (\<lambda>c. cr_id c = i) (db_creds (au_db st)) of
       None \<Rightarrow> (Inl (InvalidToken None, None), called st)
     | Some c \<Rightarrow> (token_verdict env (au_db st) c secret,
         st\<lparr>au_calls := n, au_db := (au_db st)\<lparr>db_creds := drop_cred i (db_creds (au_db st))\<rparr>\<rparr>))"
proof (cases "find (\<lambda>c. cr_id c = i) (db_creds (au_db st))")
  case None
  with assms show ?thesis by (simp add: load_token_task_def)
next
  case (Some c)
  then have "cr_id c = i" using find_SomeD [OF Some] by simp
  with Some assms have
    "load_token_task env t st =
      (token_verdict env (au_db st) c secret,
       st\<lparr>au_calls := au_calls st + (if cred_valid (ae_now env) c \<and> cr_secret c = secret then 3 else 2),
          au_db := (au_db st)\<lparr>db_creds := drop_cred i (db_creds (au_db st))\<rparr>\<rparr>)"
    by (cases "find (\<lambda>u. us_id u = cr_owner c) (db_users (au_db st))")
      (simp_all add: load_token_task_def delete_cred_by_id_def andthen_def require_def token_verdict_def beside_def reified_def)
  with Some show ?thesis by auto
qed

text \<open>
  What is left of the table: the row goes, unless the token was refused and there are transactions.
\<close>

lemma load_user_run:
  assumes "reliable env" and "validate_token t = (i, secret)" and "i \<noteq> 0"
    and "find (\<lambda>c. cr_id c = i) (db_creds (au_db st)) = Some c"
  shows "fst (load_user_from_token env t kind st) = token_verdict env (au_db st) c secret"
    and "au_db (snd (load_user_from_token env t kind st)) =
      (if ae_tx_limit env < 0 \<or> (\<exists>u. token_verdict env (au_db st) c secret = Inr u)
       then (au_db st)\<lparr>db_creds := drop_cred i (db_creds (au_db st))\<rparr> else au_db st)"
proof -
  define st1 where "st1 = (if ae_tx_limit env < 0 then st else called st)"
  have db: "au_db st1 = au_db st" by (simp add: st1_def)
  with load_token_run [OF assms(1-3), of st1] assms(4) obtain n where
    task: "load_token_task env t st1 = (token_verdict env (au_db st) c secret,
      st1\<lparr>au_calls := n, au_db := (au_db st)\<lparr>db_creds := drop_cred i (db_creds (au_db st))\<rparr>\<rparr>)" by auto
  obtain s where run: "store_tx env undo_all Some (load_token_task env t) st = (token_verdict env (au_db st) c secret, s)"
    and left: "au_db s = (if ae_tx_limit env < 0 then (au_db st)\<lparr>db_creds := drop_cred i (db_creds (au_db st))\<rparr>
      else case token_verdict env (au_db st) c secret of Inl _ \<Rightarrow> au_db st
         | Inr _ \<Rightarrow> (au_db st)\<lparr>db_creds := drop_cred i (db_creds (au_db st))\<rparr>)"
    using reliable_tx [where task = "load_token_task env t" and out = Some,
      OF assms(1) task st1_def token_verdict_app [of env "au_db st" c secret]]
    by (simp cong: if_cong sum.case_cong) blast
  from run show "fst (load_user_from_token env t kind st) = token_verdict env (au_db st) c secret"
    by (simp add: load_user_from_token_def)
  from run left show "au_db (snd (load_user_from_token env t kind st)) =
      (if ae_tx_limit env < 0 \<or> (\<exists>u. token_verdict env (au_db st) c secret = Inr u)
       then (au_db st)\<lparr>db_creds := drop_cred i (db_creds (au_db st))\<rparr> else au_db st)"
    by (cases "token_verdict env (au_db st) c secret") (simp_all add: load_user_from_token_def)
qed

lemma load_missing_token:
  assumes "reliable env" and "validate_token t = (i, secret)" and "i \<noteq> 0"
    and "find (\<lambda>c. cr_id c = i) (db_creds (au_db st)) = None"
  shows "fst (load_user_from_token env t kind st) = Inl (InvalidToken None, None)"
proof -
  define st1 where "st1 = (if ae_tx_limit env < 0 then st else called st)"
  have "au_db st1 = au_db st" by (simp add: st1_def)
  with load_token_run [OF assms(1-3), of st1] assms(4)
  have task: "load_token_task env t st1 = (Inl (InvalidToken None, None), called st1)" by simp
  from reliable_tx [where task = "load_token_task env t" and out = Some, OF assms(1) task st1_def] show ?thesis
    by (auto simp: load_user_from_token_def)
qed

lemma validate_created:
  "length text = token_length \<Longrightarrow> i \<noteq> 0 \<Longrightarrow> validate_token (text @ format_uint i) = (i, text)"
  by (simp add: validate_token_def)

end
