(* ===== verification/AuthProps.thy ===== *)
theory AuthProps
  imports AuthFacts
begin

text \<open>
  What authentication promises: tokens are limited, accepted once and tied to no flow; a failed
  transaction changes no row; when a login succeeds; what a change of a password leaves, and that
  its failure is not told.
\<close>

section \<open>A small system\<close>

definition demo_auth_settings :: auth_settings where
  "demo_auth_settings =
     \<lparr>as_internal = True, as_signup = True, as_confirmation = True, as_reset = True, as_create = True,
      as_create_expires = 0, as_security = True, as_min_length = 0, as_min_num = 1, as_min_special = 0,
      as_external = False, as_saml = \<lparr>es_permitted = [], es_prohibited = [], es_forced = []\<rparr>, as_providers = [],
      as_otp = True, as_otp_enforced = False, as_otp_expires = 0, as_totp = True, as_totp_enforced = False, as_limit = 0\<rparr>"

definition demo_auth_env :: auth_env where
  "demo_auth_env =
     \<lparr>ae_settings = demo_auth_settings, ae_now = 1000, ae_faults = (\<lambda>_. None), ae_tx_limit = 3,
      ae_tx_retry = (\<lambda>_ _. False), ae_id = (\<lambda>n. of_nat (100 + n)), ae_hash = (\<lambda>_ p. Some (CHR ''#'' # p)),
      ae_compare = (\<lambda>h p. h = CHR ''#'' # p), ae_bytes = (\<lambda>n. replicate 32 (CHR ''x'')),
      ae_password = (\<lambda>n. replicate 32 (CHR ''y'')), ae_random = (\<lambda>n. n), ae_totp = (\<lambda>s c. Some (s = c)),
      ae_notify = (\<lambda>_. None), ae_create_url = (\<lambda>t. Inr t), ae_provider = (\<lambda>_. None),
      ae_before_login = (\<lambda>_ u. (None, u)), ae_after_login = (\<lambda>_ u. u),
      ae_before_signup = (\<lambda>_ u. (None, u)), ae_after_signup = (\<lambda>_ u. u),
      ae_identity = 7, ae_can_impersonate = (\<lambda>_. False), ae_can_update = (\<lambda>_. False), ae_bypass = [1]\<rparr>"

definition demo_auser :: auser where
  "demo_auser =
     \<lparr>us_id = 7, us_username = ''ana'', us_email = ''ana@x.si'', us_name = ''Ana'', us_handle = ''ana'', us_kind = [],
      us_confirmed = True, us_created = 1, us_updated = None, us_suspended = None, us_deleted = None,
      us_otp = False, us_totp = False, us_roles = []\<rparr>"

definition demo_acred :: acred where
  "demo_acred =
     \<lparr>cr_id = 8, cr_owner = 7, cr_kind = kind_password, cr_secret = ''#secret 1'', cr_used = None, cr_expires = None,
      cr_created = 1, cr_deleted = None\<rparr>"

definition demo_auth_state :: auth_state where
  "demo_auth_state =
     \<lparr>au_db = \<lparr>db_users = [demo_auser], db_creds = [demo_acred], db_members = [], db_roles = [], db_tokens = [7]\<rparr>,
      au_calls = 0, au_ids = 0, au_sent = []\<rparr>"

section \<open>Tokens\<close>

lemma length_filter_filter: "length (filter P (filter Q xs)) \<le> length (filter P xs)"
  by (induction xs) auto

text \<open>
  C30: after a token of a kind was made for a user, the table holds at most six of that kind made for the
  user within the last fifteen minutes, deleted ones counted; identifiers stay distinct.
\<close>

theorem token_rate_bounded:
  assumes "create_user_token env (Some u) kind st = (Inr t, st')"
    and "distinct (map cr_id (db_creds (au_db st)))" and "go_trim kind \<noteq> []"
  shows "length (filter (\<lambda>c. cr_owner c = us_id u \<and> cr_kind c = kind \<and> ae_now env - token_max_window \<le> cr_created c)
      (db_creds (au_db st'))) \<le> Suc token_max_count
    \<and> distinct (map cr_id (db_creds (au_db st')))"
proof -
  let ?f = "\<lparr>cf_owner = us_id u, cf_kind = kind, cf_secret = [], cf_deleted = True\<rparr>"
  let ?old = "db_creds (au_db st)"
  let ?key = "\<lambda>k. fst (snd k) = us_id u \<and> fst (snd (snd k)) = kind \<and> ae_now env - token_max_window \<le> snd (snd (snd k))"
  let ?P = "\<lambda>c. ?key (row_key c)"
  obtain s s' where run: "create_token_task env (Some u) kind s = (Inr t, s')"
    and db: "au_db s = au_db st" "au_db st' = au_db s'"
    using store_tx_success [OF assms(1) [unfolded create_user_token_def]] by blast
  have "distinct (map cr_id (db_creds (au_db s)))" using assms(2) db by simp
  from create_token_success [OF run this] db obtain rows Q i n where id: "us_id u \<noteq> 0"
    and rate: "check_token_rate (ae_now env) (filter (cred_passes ?f) ?old) token_max_window token_max_count"
    and new: "db_creds (au_db st') = rows @ [token_cred env n i (us_id u) kind]"
    and rows: "map row_key rows = filter Q (map row_key ?old)" and fresh: "i \<notin> cr_id ` set rows" by auto
  have "cred_passes ?f c \<longleftrightarrow> cr_owner c = us_id u \<and> cr_kind c = kind" for c
    using id assms(3) by (auto simp: cred_passes_def word_neq_0_conv go_trim_def)
  then have "filter (\<lambda>c. ae_now env - token_max_window \<le> cr_created c) (filter (cred_passes ?f) ?old) = filter ?P ?old"
    by (auto simp: row_key_def intro!: filter_cong)
  with check_rate_bound [OF rate] have old: "length (filter ?P ?old) \<le> token_max_count" by simp
  have keys: "length (filter ?P xs) = length (filter ?key (map row_key xs))" for xs by (simp add: filter_map comp_def)
  have "length (filter ?P rows) = length (filter ?key (filter Q (map row_key ?old)))" by (simp only: keys rows)
  also have "\<dots> \<le> length (filter ?key (map row_key ?old))" by (rule length_filter_filter)
  also have "\<dots> = length (filter ?P ?old)" by (rule keys [symmetric])
  also note old
  finally have "length (filter ?P rows) \<le> token_max_count" .
  then have "length (filter ?P (db_creds (au_db st'))) \<le> Suc token_max_count" by (simp add: new)
  moreover have "distinct (map cr_id rows)"
  proof -
    have "map cr_id xs = map fst (map row_key xs)" for xs by (simp add: row_key_def comp_def)
    with rows assms(2) show ?thesis by (simp only: distinct_map_filter)
  qed
  ultimately show ?thesis using fresh by (simp add: new row_key_def token_cred_def)
qed

lemma token_rate_bounded_witness:
  "length (filter (\<lambda>c. cr_owner c = us_id demo_auser \<and> cr_kind c = kind_reset \<and>
       ae_now demo_auth_env - token_max_window \<le> cr_created c)
     (db_creds (au_db (snd (create_user_token demo_auth_env (Some demo_auser) kind_reset demo_auth_state))))) \<le> Suc token_max_count"
proof -
  have run: "create_user_token demo_auth_env (Some demo_auser) kind_reset demo_auth_state =
      (Inr (replicate 32 (CHR ''x'') @ ''100''),
       snd (create_user_token demo_auth_env (Some demo_auser) kind_reset demo_auth_state))"
    by code_simp
  show ?thesis
    by (rule conjunct1 [OF token_rate_bounded [OF run]]; code_simp)
qed

text \<open>
  C31: a token made for a user, of any kind that is sent as a link, is accepted once by every flow that
  reads tokens, whatever kind it asks for, as long as the clock is before its expiry: the flow gets
  the user, and any later flow refuses the token.
\<close>

theorem created_token_accepted_once:
  assumes "create_user_token env (Some u) kind st = (Inr t, st1)" and "kind \<noteq> kind_otp"
    and "distinct (map cr_id (db_creds (au_db st)))" and "\<And>n. ae_id env n \<noteq> 0"
    and "\<And>n. length (ae_bytes env n) = token_length \<and> length (ae_password env n) = token_length"
    and "reliable env'" and "ae_now env' < fst (token_text env 0 kind)"
    and "find (\<lambda>v. us_id v = us_id u) (db_users (au_db st)) = Some v" and "user_valid v"
    and "reliable env''"
  shows "fst (load_user_from_token env' t kind' st1) = Inr v \<and>
    fst (load_user_from_token env'' t kind'' (snd (load_user_from_token env' t kind' st1))) = Inl (InvalidToken None, None)"
proof -
  obtain s s' where run: "create_token_task env (Some u) kind s = (Inr t, s')"
    and db: "au_db s = au_db st" "au_db st1 = au_db s'"
    using store_tx_success [OF assms(1) [unfolded create_user_token_def]] by blast
  have "distinct (map cr_id (db_creds (au_db s)))" using assms(3) db by simp
  from create_token_success [OF run this] db assms(2) obtain rows i n where
    new: "au_db st1 = (au_db st)\<lparr>db_creds := rows @ [token_cred env n i (us_id u) kind]\<rparr>"
    and fresh: "i \<notin> cr_id ` set rows" and i: "i \<in> range (ae_id env)"
    and t: "t = snd (token_text env n kind) @ format_uint i" by auto
  let ?c = "token_cred env n i (us_id u) kind"
  have "i \<noteq> 0" using i assms(4) by auto
  have "length (snd (token_text env n kind)) = token_length"
    using assms(2,5) by (auto simp: token_text_def Let_def)
  then have val: "validate_token t = (i, cr_secret ?c)" using \<open>i \<noteq> 0\<close> t by (simp add: validate_created token_cred_def)
  have found: "find (\<lambda>c. cr_id c = i) (db_creds (au_db st1)) = Some ?c"
    unfolding new using fresh by (auto simp: token_cred_def intro!: find_snoc)
  have "fst (token_text env n kind) = fst (token_text env 0 kind)" by (simp add: token_text_def Let_def)
  with assms(7) have "cred_valid (ae_now env') ?c" using \<open>i \<noteq> 0\<close> by (simp add: cred_valid_def token_cred_def word_neq_0_conv)
  then have verdict: "token_verdict env' (au_db st1) ?c (cr_secret ?c) = Inr v"
    using assms(8,9) by (simp add: token_verdict_def new token_cred_def)
  have first: "fst (load_user_from_token env' t kind' st1) = Inr v"
    using load_user_run(1) [OF assms(6) val \<open>i \<noteq> 0\<close> found] verdict by simp
  have "au_db (snd (load_user_from_token env' t kind' st1)) = (au_db st1)\<lparr>db_creds := drop_cred i (db_creds (au_db st1))\<rparr>"
    using load_user_run(2) [OF assms(6) val \<open>i \<noteq> 0\<close> found] verdict by simp
  then have "find (\<lambda>c. cr_id c = i) (db_creds (au_db (snd (load_user_from_token env' t kind' st1)))) = None"
    by (simp add: drop_cred_def find_None)
  from load_missing_token [OF assms(10) val \<open>i \<noteq> 0\<close> this] first show ?thesis by simp
qed

lemma created_token_accepted_once_witness:
  "fst (load_user_from_token demo_auth_env (replicate 32 (CHR ''x'') @ ''100'') kind_create
     (snd (create_user_token demo_auth_env (Some demo_auser) kind_confirm demo_auth_state))) = Inr demo_auser"
proof -
  have rel: "reliable demo_auth_env" by (simp add: reliable_def demo_auth_env_def)
  let ?env = "demo_auth_env\<lparr>ae_id := (\<lambda>_. 100)\<rparr>"
  have run: "create_user_token ?env (Some demo_auser) kind_confirm demo_auth_state =
      (Inr (replicate 32 (CHR ''x'') @ ''100''),
       snd (create_user_token demo_auth_env (Some demo_auser) kind_confirm demo_auth_state))"
    by code_simp
  show ?thesis
    by (rule conjunct1 [OF created_token_accepted_once [where env'' = demo_auth_env, OF run _ _ _ _ rel _ _ _ rel]])
      (code_simp | simp add: demo_auth_env_def token_length_def)+
qed

text \<open>
  A token whose credential has expired, was deleted or has another secret is refused; its row is
  removed only where the store has no transactions: otherwise the removal is rolled back with the
  refusal.
\<close>

theorem refused_token_stays:
  assumes "reliable env" and "validate_token t = (i, secret)" and "i \<noteq> 0"
    and "find (\<lambda>c. cr_id c = i) (db_creds (au_db st)) = Some c"
    and "\<not> cred_valid (ae_now env) c \<or> cr_secret c \<noteq> secret"
  shows "fst (load_user_from_token env t kind st) = Inl (InvalidToken None, None) \<and>
    db_creds (au_db (snd (load_user_from_token env t kind st))) =
      (if ae_tx_limit env < 0 then drop_cred i (db_creds (au_db st)) else db_creds (au_db st))"
proof -
  have "token_verdict env (au_db st) c secret = Inl (InvalidToken None, None)"
    using assms(5) by (auto simp: token_verdict_def)
  with load_user_run [OF assms(1-4), of kind] show ?thesis by simp
qed

lemma refused_token_stays_witness:
  "fst (load_user_from_token demo_auth_env (replicate 32 (CHR ''x'') @ ''8'') kind_reset demo_auth_state) =
     Inl (InvalidToken None, None)"
proof -
  have rel: "reliable demo_auth_env" by (simp add: reliable_def demo_auth_env_def)
  have eight: "format_uint 8 = ''8''" by code_simp
  show ?thesis
  proof (rule conjunct1 [OF refused_token_stays [OF rel]])
    show "validate_token (replicate 32 (CHR ''x'') @ ''8'') = (8, replicate 32 (CHR ''x''))"
      using validate_created [of "replicate 32 (CHR ''x'')" 8] by (simp add: eight token_length_def)
    show "(8::u64) \<noteq> 0" by simp
    show "find (\<lambda>c. cr_id c = 8) (db_creds (au_db demo_auth_state)) = Some demo_acred"
      by (simp add: demo_auth_state_def demo_acred_def)
    show "\<not> cred_valid (ae_now demo_auth_env) demo_acred \<or> cr_secret demo_acred \<noteq> replicate 32 (CHR ''x'')"
      by (simp add: demo_acred_def numeral_eq_Suc)
  qed
qed

section \<open>Login\<close>

lemma matching_cred_iff:
  "matching_cred compare now password cc \<noteq> None \<longleftrightarrow>
     (\<exists>c \<in> set cc. cred_valid now c \<and> cr_secret c \<noteq> [] \<and> compare (cr_secret c) password)"
  by (induction cc) auto

lemma kind_password_text [simp]: "go_trim kind_password = kind_password" "kind_password \<noteq> []" "go_trim [] = []"
  by code_simp+

lemma password_filter_passes:
  "i \<noteq> 0 \<Longrightarrow> cred_passes (password_filter i) c \<longleftrightarrow> cr_deleted c = None \<and> cr_owner c = i \<and> cr_kind c = kind_password"
  by (auto simp: cred_passes_def password_filter_def word_neq_0_conv)

lemma reliable_member_roles: "reliable env \<Longrightarrow> \<exists>rr. member_roles env i st = (Inr rr, called st)"
  by (simp add: member_roles_def)

lemma reliable_proc_login:
  assumes "reliable env"
  shows "(\<exists>v. fst (proc_login env u c p st) = Inr v) \<longleftrightarrow>
    fst (ae_before_login env p u) = None \<and> login_refused (snd (ae_before_login env p u)) = None"
proof -
  obtain err w where before: "ae_before_login env p u = (err, w)" by fastforce
  obtain rr where "member_roles env (us_id w) st = (Inr rr, called st)" using reliable_member_roles [OF assms] by blast
  then have roles: "load_role_memberships env w st = (Inr (w\<lparr>us_roles := rr\<rparr>), called st)"
    by (simp add: load_role_memberships_def andthen_def)
  have touch: "\<exists>s. touch_credential env c s' = (Inr (), s)" for s'
    using assms by (cases c) (auto simp: touch_credential_def reliable_update_creds simp del: update_creds.simps)
  obtain s where "touch_credential env c (called st) = (Inr (), s)" using touch by blast
  with before roles show ?thesis
    by (cases err; cases "login_refused w") (simp_all add: proc_login_def andthen_def beside_def Let_def)
qed

text \<open>
  C32: with a store that does not fail, a login with email and password succeeds exactly if internal
  login is enabled, the email is well formed, the password not empty, and the user found by the email
  has a password credential that is neither deleted nor expired and matches, passes the handlers of
  the event and is, after them, neither suspended nor deleted nor a system user.
\<close>

theorem login_succeeds_iff:
  assumes "reliable env" and "\<forall>u \<in> set (db_users (au_db st)). us_id u \<noteq> 0"
  shows "(\<exists>v. fst (internal_login env email password st) = Inr v) \<longleftrightarrow>
    as_internal (ae_settings env) \<and> email_ok email \<and> password \<noteq> [] \<and>
    (\<exists>u. find (\<lambda>u. to_lower (us_email u) = to_lower email \<and> us_deleted u = None) (db_users (au_db st)) = Some u \<and>
       (\<exists>c \<in> set (db_creds (au_db st)). cr_owner c = us_id u \<and> cr_kind c = kind_password \<and>
          cred_valid (ae_now env) c \<and> cr_secret c \<noteq> [] \<and> ae_compare env (cr_secret c) password) \<and>
       fst (ae_before_login env kind_password u) = None \<and>
       login_refused (snd (ae_before_login env kind_password u)) = None)"
proof (cases "as_internal (ae_settings env) \<and> email_ok email \<and> password \<noteq> []")
  case False
  then show ?thesis by (auto simp: internal_login_def andthen_def require_def)
next
  case guards: True
  let ?user = "find (\<lambda>u. to_lower (us_email u) = to_lower email \<and> us_deleted u = None) (db_users (au_db st))"
  show ?thesis
  proof (cases ?user)
    case None
    with guards assms(1) show ?thesis by (simp add: internal_login_def)
  next
    case (Some u)
    then have id: "us_id u \<noteq> 0" using assms(2) find_SomeD [OF Some] by blast
    let ?cc = "filter (cred_passes (password_filter (us_id u))) (db_creds (au_db st))"
    let ?match = "matching_cred (ae_compare env) (ae_now env) password ?cc"
    have match: "?match \<noteq> None \<longleftrightarrow> (\<exists>c \<in> set (db_creds (au_db st)). cr_owner c = us_id u \<and> cr_kind c = kind_password \<and>
        cred_valid (ae_now env) c \<and> cr_secret c \<noteq> [] \<and> ae_compare env (cr_secret c) password)"
      unfolding matching_cred_iff using id by (auto simp: password_filter_passes cred_valid_def)
    have run: "internal_login env email password st =
      (case ?match of None \<Rightarrow> (Inl (InvalidCredentials, Some u), called (called st))
       | Some c \<Rightarrow> proc_login env u (Some c) kind_password (called (called st)))"
      using guards assms(1) Some
      by (auto simp: internal_login_def andthen_def beside_def reified_def require_def split: option.split)
    show ?thesis
    proof (cases ?match)
      case None
      with run match Some show ?thesis by simp
    next
      case (Some c)
      with run have "(\<exists>v. fst (internal_login env email password st) = Inr v) \<longleftrightarrow>
        fst (ae_before_login env kind_password u) = None \<and> login_refused (snd (ae_before_login env kind_password u)) = None"
        using reliable_proc_login [OF assms(1)] by simp
      with match Some \<open>?user = Some u\<close> guards show ?thesis by simp
    qed
  qed
qed

lemma login_succeeds_iff_witness:
  "(\<exists>v. fst (internal_login demo_auth_env ''Ana@x.si'' ''secret 1'' demo_auth_state) = Inr v) \<and>
   \<not> (\<exists>v. fst (internal_login demo_auth_env ''Ana@x.si'' ''secret 2'' demo_auth_state) = Inr v)"
proof -
  have rel: "reliable demo_auth_env" by (simp add: reliable_def demo_auth_env_def)
  have ids: "\<forall>u \<in> set (db_users (au_db demo_auth_state)). us_id u \<noteq> 0" by code_simp
  have user: "find (\<lambda>u. to_lower (us_email u) = to_lower ''Ana@x.si'' \<and> us_deleted u = None) (db_users (au_db demo_auth_state)) =
    Some demo_auser" by code_simp
  have ok: "email_ok ''Ana@x.si''" by code_simp
  show ?thesis
    unfolding login_succeeds_iff [OF rel ids] user
    using ok by (auto simp: demo_auth_env_def demo_auth_settings_def demo_auth_state_def demo_acred_def demo_auser_def
        login_refused_def cred_valid_def system_user_def)
qed

section \<open>Passwords\<close>

text \<open>
  Once the guards of a password change are passed and the user was read, the change reports
  success, and leaves what writing the credentials leaves, also where writing them fails.
\<close>

theorem set_password_hides_faults:
  assumes "as_internal (ae_settings env)" and "check_password_strength (ae_settings env) password"
    and "ae_faults env (au_calls st) = None"
    and "find (\<lambda>u. us_id u = i) (db_users (au_db st)) = Some u"
  shows "set_password env i password st =
    (Inr (), snd (set_password_credentials env i password (called st)))"
proof -
  have "user_by_id env i st = (Inr u, called st)"
    using assms(3,4) by (simp add: user_by_id_def query_def store_call_def andthen_def)
  then show ?thesis
    using assms(1,2) by (simp add: set_password_def compare_set_credentials_def fault_of_def)
qed

text \<open>The old credential is deleted, the new one is refused by the store, the change is reported as done.\<close>

lemma set_password_hides_faults_witness:
  "set_password (demo_auth_env\<lparr>ae_faults := (\<lambda>n. if n = 3 then Some ''lost'' else None)\<rparr>) 7 ''secret 22'' demo_auth_state =
     (Inr (), \<lparr>au_db = \<lparr>db_users = [demo_auser], db_creds = [demo_acred\<lparr>cr_deleted := Some 1000\<rparr>], db_members = [],
                        db_roles = [], db_tokens = [7]\<rparr>,
               au_calls = 4, au_ids = 1, au_sent = []\<rparr>)"
proof -
  let ?env = "demo_auth_env\<lparr>ae_faults := (\<lambda>n. if n = 3 then Some ''lost'' else None)\<rparr>"
  have "snd (set_password_credentials ?env 7 ''secret 22'' (called demo_auth_state)) =
     \<lparr>au_db = \<lparr>db_users = [demo_auser], db_creds = [demo_acred\<lparr>cr_deleted := Some 1000\<rparr>], db_members = [],
               db_roles = [], db_tokens = [7]\<rparr>,
      au_calls = 4, au_ids = 1, au_sent = []\<rparr>"
    by code_simp
  moreover have "check_password_strength (ae_settings ?env) ''secret 22''" by code_simp
  ultimately show ?thesis
    using set_password_hides_faults [of ?env "''secret 22''" demo_auth_state 7 demo_auser]
    by (simp add: demo_auth_env_def demo_auth_settings_def demo_auth_state_def demo_auser_def)
qed

lemma put_deleted:
  "distinct (map cr_id rows) \<Longrightarrow> set cc \<subseteq> set rows \<Longrightarrow> distinct cc \<Longrightarrow>
   fold put_cred (map (\<lambda>c. c\<lparr>cr_deleted := d\<rparr>) cc) rows = map (\<lambda>c. if c \<in> set cc then c\<lparr>cr_deleted := d\<rparr> else c) rows"
proof (induction cc rule: rev_induct)
  case (snoc c cc)
  let ?f = "\<lambda>c. c\<lparr>cr_deleted := d\<rparr>"
  have c: "c \<in> set rows" "c \<notin> set cc" using snoc.prems by auto
  have "cr_id (if x \<in> set cc then ?f x else x) = cr_id x" for x by simp
  moreover have "x = c" if "x \<in> set rows" "cr_id x = cr_id c" for x
    using that c(1) snoc.prems(1) by (auto simp: distinct_map dest: inj_onD)
  ultimately have "put_cred (?f c) (map (\<lambda>x. if x \<in> set cc then ?f x else x) rows) =
    map (\<lambda>x. if x \<in> set (cc @ [c]) then ?f x else x) rows"
    using c(2) by (auto simp: put_cred_def)
  with snoc show ?case by simp
qed simp

text \<open>
  C33: with a store that does not fail and a hash, setting a password leaves one live password
  credential of the user, the new one, whatever there was before, and every credential of other
  users as it was.
\<close>

theorem new_password_replaces_all:
  assumes "reliable env" and "ae_hash env (au_calls st) password = Some h" and "i \<noteq> 0"
    and "distinct (map cr_id (db_creds (au_db st)))" and "ae_id env (au_ids st) \<notin> cr_id ` set (db_creds (au_db st))"
  shows "fst (set_password_credentials env i password st) = Inr () \<and>
    (\<exists>c. cr_secret c = h \<and> cr_id c = ae_id env (au_ids st) \<and>
       filter (cred_passes (password_filter i)) (db_creds (au_db (snd (set_password_credentials env i password st)))) = [c]) \<and>
    filter (\<lambda>c. cr_owner c \<noteq> i) (db_creds (au_db (snd (set_password_credentials env i password st)))) =
      filter (\<lambda>c. cr_owner c \<noteq> i) (db_creds (au_db st))"
proof -
  let ?rows = "db_creds (au_db st)" and ?P = "cred_passes (password_filter i)"
  let ?f = "\<lambda>c. c\<lparr>cr_deleted := Some (ae_now env)\<rparr>"
  let ?c = "\<lparr>cr_id = ae_id env (au_ids st), cr_owner = i, cr_kind = kind_password, cr_secret = h, cr_used = None,
             cr_expires = None, cr_created = ae_now env, cr_deleted = None\<rparr>"
  let ?new = "map (\<lambda>c. if ?P c then ?f c else c) ?rows"
  have "distinct ?rows" using assms(4) by (simp add: distinct_map)
  then have "fold put_cred (map ?f (filter ?P ?rows)) ?rows =
    map (\<lambda>c. if c \<in> set (filter ?P ?rows) then ?f c else c) ?rows"
    by (intro put_deleted) (auto simp: assms(4))
  also have "\<dots> = ?new" by (rule map_cong) auto
  finally have folded: "fold put_cred (map ?f (filter ?P ?rows)) ?rows = ?new" .
  have "\<forall>c \<in> set ?rows. cr_id c \<noteq> ae_id env (au_ids st)" using assms(5) by (auto simp: image_iff)
  then have fresh: "\<not> list_ex (\<lambda>d. cr_id d = cr_id ?c) ?new" by (auto simp: list_ex_iff)
  obtain st1 where remove: "remove_password_credentials env i st = (Inr (), st1)"
    and st1: "au_db st1 = (au_db st)\<lparr>db_creds := ?new\<rparr>" "au_ids st1 = au_ids st"
    using assms(1) folded
    by (simp add: remove_password_credentials_def reliable_update_creds del: update_creds.simps)
  have hash: "hash_password env password st = (Inr h, st)" using assms(2) by (simp add: hash_password_def)
  have "next_id env st1 = (Inr (ae_id env (au_ids st)), st1\<lparr>au_ids := Suc (au_ids st)\<rparr>)"
    by (simp add: next_id_def st1(2))
  note steps = andthen_Inr [where m = "hash_password env password", OF hash]
    andthen_Inr [where m = "remove_password_credentials env i", OF remove] andthen_Inr [where m = "next_id env", OF this]
  have "\<not> list_ex (\<lambda>d. cr_id d = cr_id ?c) (db_creds (au_db st1))" using fresh by (simp only: st1) simp
  then obtain s where create: "create_cred env ?c (st1\<lparr>au_ids := Suc (au_ids st)\<rparr>) = (Inr (), s)"
    and s: "db_creds (au_db s) = db_creds (au_db st1) @ [?c]"
    using assms(1) by (simp add: create_cred_def)
  have "set_password_credentials env i password st = create_cred env ?c (st1\<lparr>au_ids := Suc (au_ids st)\<rparr>)"
    unfolding set_password_credentials_def steps ..
  also note create
  finally have "set_password_credentials env i password st = (Inr (), s)" .
  moreover have "db_creds (au_db s) = ?new @ [?c]" unfolding s st1 by simp
  ultimately have run: "\<exists>s. set_password_credentials env i password st = (Inr (), s) \<and> db_creds (au_db s) = ?new @ [?c]"
    by blast
  have "filter ?P (map (\<lambda>c. if ?P c then ?f c else c) xs) = []" for xs
    by (induction xs) (auto simp: password_filter_passes [OF assms(3)])
  moreover have "filter (\<lambda>c. cr_owner c \<noteq> i) (map (\<lambda>c. if ?P c then ?f c else c) xs) =
      filter (\<lambda>c. cr_owner c \<noteq> i) xs" for xs
    by (induction xs) (auto simp: password_filter_passes [OF assms(3)])
  moreover have "?P ?c" using assms(3) by (simp add: password_filter_passes)
  moreover obtain s where "set_password_credentials env i password st = (Inr (), s)" "db_creds (au_db s) = ?new @ [?c]"
    using run by blast
  ultimately show ?thesis by simp
qed

lemma new_password_replaces_all_witness:
  "\<exists>c. cr_secret c = ''#secret 22'' \<and> cr_id c = 100 \<and>
     filter (cred_passes (password_filter 7))
       (db_creds (au_db (snd (set_password_credentials demo_auth_env 7 ''secret 22'' demo_auth_state)))) = [c]"
  using new_password_replaces_all [of demo_auth_env demo_auth_state "''secret 22''" "''#secret 22''" 7]
  by (simp add: demo_auth_env_def demo_auth_state_def demo_acred_def reliable_def)

end
