(* ===== verification/GwPipeline.thy ===== *)
theory GwPipeline
  imports Prelude
begin

text \<open>
  \<^verbatim>\<open>pkg/apigw/pipeline\<close> and the weights of \<^verbatim>\<open>pkg/apigw/filter/filter.go\<close>: the workers of a route, the
  order they are kept in, and how a request goes through them.

  What a worker reads and changes (the request, its scope, the response) is a world; a handler gives
  an error or none. A worker that is asynchronous is started and runs on its own, so that a request
  is a step relation: the request itself and the workers it started take turns, one handler at a time.
\<close>

section \<open>Workers\<close>

definition kind_prefilter :: string where "kind_prefilter = ''prefilter''"
definition kind_processer :: string where "kind_processer = ''processer''"
definition kind_postfilter :: string where "kind_postfilter = ''postfilter''"

record 'w gw_worker =
  wk_weight :: int
  wk_async :: bool
  wk_name :: string
  wk_kind :: string
  wk_handler :: "'w \<Rightarrow> string option \<times> 'w"

text \<open>Weights are signed 64 bit numbers.\<close>

definition weight_factor :: "string \<Rightarrow> u64" where
  "weight_factor kind =
     (if kind = kind_prefilter then 0
      else if kind = kind_processer then 1
      else if kind = kind_postfilter then 2
      else 0)"

definition filter_weight :: "u64 \<Rightarrow> string \<Rightarrow> int" where
  "filter_weight w kind = sint (weight_factor kind * 100 + w)"

text \<open>\<open>sort.Sort\<close> is an argument: it need not keep workers of the same weight in order.\<close>

type_synonym 'w worker_sort = "'w gw_worker list \<Rightarrow> 'w gw_worker list"

definition sorts_workers :: "'w worker_sort \<Rightarrow> bool" where
  "sorts_workers so \<longleftrightarrow> (\<forall>ws. mset (so ws) = mset ws \<and> sorted (map wk_weight (so ws)))"

definition pipe_add :: "'w worker_sort \<Rightarrow> 'w gw_worker list \<Rightarrow> 'w gw_worker \<Rightarrow> 'w gw_worker list" where
  "pipe_add so ws k = so (ws @ [k])"

fun filter_workers :: "('w gw_worker \<Rightarrow> string + bool) \<Rightarrow> 'w gw_worker list \<Rightarrow> string option \<times> 'w gw_worker list" where
  "filter_workers f [] = (None, [])"
| "filter_workers f (k # ws) =
     (case f k of
        Inl e \<Rightarrow> (Some e, [])
      | Inr ok \<Rightarrow> (case filter_workers f ws of (err, out) \<Rightarrow> (err, if ok then k # out else out)))"

section \<open>A request\<close>

datatype 'w gw_event = Ran "'w gw_worker" "string option" | Started "'w gw_worker" | Finished "'w gw_worker" "string option"

datatype gw_phase = Serving | Refused string | Served

record 'w gw_run =
  rn_todo :: "'w gw_worker list"
  rn_started :: "'w gw_worker list"
  rn_world :: 'w
  rn_phase :: gw_phase
  rn_trace :: "'w gw_event list"

definition run_start :: "'w gw_worker list \<Rightarrow> 'w \<Rightarrow> 'w gw_run" where
  "run_start ws w = \<lparr>rn_todo = ws, rn_started = [], rn_world = w, rn_phase = Serving, rn_trace = []\<rparr>"

text \<open>The next worker of the request, with the handler of errors as argument.\<close>

definition serve_next :: "(string \<Rightarrow> 'w \<Rightarrow> 'w) \<Rightarrow> 'w gw_run \<Rightarrow> 'w gw_run" where
  "serve_next onerr r =
     (case rn_todo r of
        [] \<Rightarrow> r\<lparr>rn_phase := Served\<rparr>
      | k # ks \<Rightarrow>
          if wk_async k then
            r\<lparr>rn_todo := ks, rn_started := rn_started r @ [k], rn_trace := rn_trace r @ [Started k]\<rparr>
          else (case wk_handler k (rn_world r) of
                  (None, w) \<Rightarrow> r\<lparr>rn_todo := ks, rn_world := w, rn_trace := rn_trace r @ [Ran k None]\<rparr>
                | (Some e, w) \<Rightarrow>
                    r\<lparr>rn_todo := ks, rn_world := onerr e w, rn_phase := Refused e,
                      rn_trace := rn_trace r @ [Ran k (Some e)]\<rparr>))"

text \<open>A started worker runs; its error is logged only.\<close>

definition finish_worker :: "'w gw_worker list \<Rightarrow> 'w gw_worker \<Rightarrow> 'w gw_worker list \<Rightarrow> 'w gw_run \<Rightarrow> 'w gw_run" where
  "finish_worker before k after r =
     (case wk_handler k (rn_world r) of
        (err, w) \<Rightarrow> r\<lparr>rn_started := before @ after, rn_world := w, rn_trace := rn_trace r @ [Finished k err]\<rparr>)"

inductive gw_step :: "(string \<Rightarrow> 'w \<Rightarrow> 'w) \<Rightarrow> 'w gw_run \<Rightarrow> 'w gw_run \<Rightarrow> bool" for onerr where
  serve: "rn_phase r = Serving \<Longrightarrow> gw_step onerr r (serve_next onerr r)"
| background: "rn_started r = before @ k # after \<Longrightarrow> gw_step onerr r (finish_worker before k after r)"

inductive gw_steps :: "(string \<Rightarrow> 'w \<Rightarrow> 'w) \<Rightarrow> 'w gw_run \<Rightarrow> 'w gw_run \<Rightarrow> bool" for onerr r where
  none: "gw_steps onerr r r"
| more: "gw_steps onerr r r' \<Longrightarrow> gw_step onerr r' r'' \<Longrightarrow> gw_steps onerr r r''"

inductive_cases gw_stepE: "gw_step onerr r r'"

text \<open>A request without asynchronous workers is a function.\<close>

fun run_sync :: "(string \<Rightarrow> 'w \<Rightarrow> 'w) \<Rightarrow> 'w gw_worker list \<Rightarrow> 'w \<Rightarrow> gw_phase \<times> 'w" where
  "run_sync onerr [] w = (Served, w)"
| "run_sync onerr (k # ks) w =
     (case wk_handler k w of
        (None, w) \<Rightarrow> run_sync onerr ks w
      | (Some e, w) \<Rightarrow> (Refused e, onerr e w))"

section \<open>What a request ran\<close>

definition event_worker :: "'w gw_event \<Rightarrow> 'w gw_worker" where
  "event_worker ev = (case ev of Ran k err \<Rightarrow> k | Started k \<Rightarrow> k | Finished k err \<Rightarrow> k)"

definition own_event :: "'w gw_event \<Rightarrow> bool" where
  "own_event ev \<longleftrightarrow> (case ev of Finished k err \<Rightarrow> False | _ \<Rightarrow> True)"

text \<open>What the request did itself: the workers it has passed, in their order, of which at most the last was refused.\<close>

definition passed :: "'w gw_run \<Rightarrow> 'w gw_event list" where
  "passed r = filter own_event (rn_trace r)"

definition event_ok :: "'w gw_event \<Rightarrow> bool" where
  "event_ok ev \<longleftrightarrow> (case ev of Ran k (Some e) \<Rightarrow> False | _ \<Rightarrow> True)"

definition run_inv :: "'w gw_worker list \<Rightarrow> 'w gw_run \<Rightarrow> bool" where
  "run_inv ws r \<longleftrightarrow>
     map event_worker (passed r) @ rn_todo r = ws \<and>
     (\<forall>ev \<in> set (passed r). (case ev of Ran k err \<Rightarrow> \<not> wk_async k | _ \<Rightarrow> wk_async (event_worker ev))) \<and>
     (if (\<exists>e. rn_phase r = Refused e) then passed r \<noteq> [] \<and> list_all event_ok (butlast (passed r)) \<and> \<not> event_ok (last (passed r))
      else list_all event_ok (passed r)) \<and>
     (rn_phase r = Served \<longrightarrow> rn_todo r = [])"

lemma run_inv_start: "run_inv ws (run_start ws w)"
  by (simp add: run_inv_def run_start_def passed_def)

lemma run_inv_step:
  assumes "gw_step onerr r r'" and "run_inv ws r"
  shows "run_inv ws r'"
  using assms
proof (cases rule: gw_step.cases)
  case serve
  with assms(2) show ?thesis
    by (auto simp: serve_next_def run_inv_def passed_def own_event_def event_worker_def event_ok_def
        split: list.splits prod.splits option.splits)
next
  case (background before k after)
  then have "passed r' = passed r" and "rn_todo r' = rn_todo r" and "rn_phase r' = rn_phase r"
    by (simp_all add: finish_worker_def passed_def own_event_def split: prod.splits)
  with assms(2) show ?thesis by (simp add: run_inv_def)
qed

lemma run_inv_steps: "gw_steps onerr r r' \<Longrightarrow> run_inv ws r \<Longrightarrow> run_inv ws r'"
  by (induction rule: gw_steps.induct) (auto intro: run_inv_step)

text \<open>Without asynchronous workers a finished run is the function.\<close>

lemma run_sync_steps:
  assumes "gw_steps onerr (run_start ws w) r" and "list_all (\<lambda>k. \<not> wk_async k) ws"
  shows "rn_started r = [] \<and>
    (if rn_phase r = Serving then run_sync onerr (rn_todo r) (rn_world r) = run_sync onerr ws w
     else run_sync onerr ws w = (rn_phase r, rn_world r))"
  using assms
proof (induction rule: gw_steps.induct)
  case none
  then show ?case by (simp add: run_start_def)
next
  case (more r' r'')
  have "run_inv ws r'" using more.hyps(1) run_inv_start by (rule run_inv_steps)
  then have "list_all (\<lambda>k. \<not> wk_async k) (rn_todo r')"
    using more.prems by (metis list_all_append run_inv_def)
  with more show ?case
    by (auto elim!: gw_stepE simp: serve_next_def split: list.splits prod.splits option.splits)
qed

end
