(* ===== verification/GwService.thy ===== *)
theory GwService
  imports GwPipeline
begin

text \<open>
  \<^verbatim>\<open>pkg/apigw/service.go\<close> and \<^verbatim>\<open>route.go\<close>, and the services of routes and filters,
  \<^verbatim>\<open>system/service/apigw_route.go\<close> and \<^verbatim>\<open>apigw_filter.go\<close>: rows of routes and filters, the gateway
  that runs what was loaded of them, and the operations that change the rows and reload it.

  The environment tells which calls of the store fail, what the registry makes of a filter, which
  routes the router of package \<^verbatim>\<open>chi\<close> accepts (it panics otherwise) and what the user may do. Rows are
  searched in the order of the table. The access of the rows read for a check is that of the user.
\<close>

section \<open>Rows\<close>

record gw_route =
  gr_id :: u64
  gr_endpoint :: string
  gr_method :: string
  gr_enabled :: bool
  gr_group :: u64
  gr_debug :: bool
  gr_async :: bool
  gr_created :: int
  gr_created_by :: u64
  gr_updated :: "int option"
  gr_updated_by :: u64
  gr_deleted :: "int option"
  gr_deleted_by :: u64

record 'p gw_filter =
  gf_id :: u64
  gf_route :: u64
  gf_weight :: u64
  gf_ref :: string
  gf_kind :: string
  gf_enabled :: bool
  gf_params :: 'p
  gf_created :: int
  gf_created_by :: u64
  gf_updated :: "int option"
  gf_updated_by :: u64
  gf_deleted :: "int option"
  gf_deleted_by :: u64

section \<open>State\<close>

text \<open>A route without a handler has none because its filters could not be loaded.\<close>

record 'w gw_served =
  sv_id :: u64
  sv_endpoint :: string
  sv_method :: string
  sv_debug :: bool
  sv_async :: bool
  sv_pipe :: "'w gw_worker list option"

record ('p, 'w) gw_state =
  gs_routes :: "gw_route list"
  gs_filters :: "'p gw_filter list"
  gs_running :: "'w gw_served list"
  gs_mux :: "'w gw_served list option"
  gs_calls :: nat
  gs_ids :: nat

record ('p, 'w) gw_env =
  ge_faults :: "nat \<Rightarrow> string option"
  ge_id :: "nat \<Rightarrow> u64"
  ge_now :: int
  ge_identity :: u64
  ge_sort :: "'w worker_sort"
  ge_handler :: "string \<Rightarrow> 'p \<Rightarrow> string + string \<times> ('w \<Rightarrow> string option \<times> 'w)"
  ge_default :: "string \<times> ('w \<Rightarrow> string option \<times> 'w)"
  ge_accepts :: "string \<Rightarrow> string \<Rightarrow> bool"
  ge_can_create :: bool
  ge_can_read :: "gw_route \<Rightarrow> bool"
  ge_can_update :: "gw_route \<Rightarrow> bool"
  ge_can_delete :: "gw_route \<Rightarrow> bool"

datatype 'a gw_out = GwOk 'a | GwErr string | GwPanic

type_synonym ('p, 'w, 'a) gw_op = "('p, 'w) gw_state \<Rightarrow> 'a gw_out \<times> ('p, 'w) gw_state"

definition gw_then :: "('p, 'w, 'a) gw_op \<Rightarrow> ('a \<Rightarrow> ('p, 'w, 'b) gw_op) \<Rightarrow> ('p, 'w, 'b) gw_op" where
  "gw_then m f st =
     (case m st of (GwOk x, st') \<Rightarrow> f x st' | (GwErr e, st') \<Rightarrow> (GwErr e, st') | (GwPanic, st') \<Rightarrow> (GwPanic, st'))"

definition gw_ok :: "'a \<Rightarrow> ('p, 'w, 'a) gw_op" where
  "gw_ok x st = (GwOk x, st)"

definition gw_error :: "string \<Rightarrow> ('p, 'w, 'a) gw_op" where
  "gw_error e st = (GwErr e, st)"

definition gw_require :: "bool \<Rightarrow> string \<Rightarrow> ('p, 'w, unit) gw_op" where
  "gw_require b e = (if b then gw_ok () else gw_error e)"

text \<open>Where the code replaces an error by its own.\<close>

definition gw_replace :: "(string \<Rightarrow> string) \<Rightarrow> ('p, 'w, 'a) gw_op \<Rightarrow> ('p, 'w, 'a) gw_op" where
  "gw_replace f m st = (case m st of (GwErr e, st') \<Rightarrow> (GwErr (f e), st') | r \<Rightarrow> r)"

section \<open>The store\<close>

definition gw_call :: "('p, 'w) gw_env \<Rightarrow> ('p, 'w, unit) gw_op" where
  "gw_call env st =
     (case ge_faults env (gs_calls st) of
        None \<Rightarrow> (GwOk (), st\<lparr>gs_calls := Suc (gs_calls st)\<rparr>)
      | Some e \<Rightarrow> (GwErr e, st\<lparr>gs_calls := Suc (gs_calls st)\<rparr>))"

definition route_by_id :: "('p, 'w) gw_env \<Rightarrow> u64 \<Rightarrow> ('p, 'w, gw_route) gw_op" where
  "route_by_id env i =
     gw_then (gw_call env) (\<lambda>_ st. case find (\<lambda>r. gr_id r = i) (gs_routes st) of
       None \<Rightarrow> (GwErr ''not found'', st) | Some r \<Rightarrow> (GwOk r, st))"

definition filter_by_id :: "('p, 'w) gw_env \<Rightarrow> u64 \<Rightarrow> ('p, 'w, 'p gw_filter) gw_op" where
  "filter_by_id env i =
     gw_then (gw_call env) (\<lambda>_ st. case find (\<lambda>f. gf_id f = i) (gs_filters st) of
       None \<Rightarrow> (GwErr ''not found'', st) | Some f \<Rightarrow> (GwOk f, st))"

definition insert_route :: "('p, 'w) gw_env \<Rightarrow> gw_route \<Rightarrow> ('p, 'w, unit) gw_op" where
  "insert_route env r =
     gw_then (gw_call env) (\<lambda>_ st.
       if list_ex (\<lambda>s. gr_id s = gr_id r) (gs_routes st) then (GwErr ''duplicate key'', st)
       else (GwOk (), st\<lparr>gs_routes := gs_routes st @ [r]\<rparr>))"

definition insert_filter :: "('p, 'w) gw_env \<Rightarrow> 'p gw_filter \<Rightarrow> ('p, 'w, unit) gw_op" where
  "insert_filter env f =
     gw_then (gw_call env) (\<lambda>_ st.
       if list_ex (\<lambda>g. gf_id g = gf_id f) (gs_filters st) then (GwErr ''duplicate key'', st)
       else (GwOk (), st\<lparr>gs_filters := gs_filters st @ [f]\<rparr>))"

definition put_route :: "gw_route \<Rightarrow> gw_route list \<Rightarrow> gw_route list" where
  "put_route r = map (\<lambda>s. if gr_id s = gr_id r then r else s)"

definition put_filter :: "'p gw_filter \<Rightarrow> 'p gw_filter list \<Rightarrow> 'p gw_filter list" where
  "put_filter f = map (\<lambda>g. if gf_id g = gf_id f then f else g)"

definition update_route :: "('p, 'w) gw_env \<Rightarrow> gw_route \<Rightarrow> ('p, 'w, unit) gw_op" where
  "update_route env r =
     gw_then (gw_call env) (\<lambda>_ st. (GwOk (), st\<lparr>gs_routes := put_route r (gs_routes st)\<rparr>))"

definition update_filter :: "('p, 'w) gw_env \<Rightarrow> 'p gw_filter \<Rightarrow> ('p, 'w, unit) gw_op" where
  "update_filter env f =
     gw_then (gw_call env) (\<lambda>_ st. (GwOk (), st\<lparr>gs_filters := put_filter f (gs_filters st)\<rparr>))"

definition gw_next_id :: "('p, 'w) gw_env \<Rightarrow> ('p, 'w, u64) gw_op" where
  "gw_next_id env st = (GwOk (ge_id env (gs_ids st)), st\<lparr>gs_ids := Suc (gs_ids st)\<rparr>)"

section \<open>Loading the gateway\<close>

definition live_routes :: "gw_route list \<Rightarrow> gw_route list" where
  "live_routes rr = filter (\<lambda>r. gr_deleted r = None \<and> gr_enabled r) rr"

definition filters_of :: "u64 \<Rightarrow> 'p gw_filter list \<Rightarrow> 'p gw_filter list" where
  "filters_of i ff = filter (\<lambda>f. gf_deleted f = None \<and> gf_enabled f \<and> (0 < i \<longrightarrow> gf_route f = i)) ff"

definition register_filter :: "('p, 'w) gw_env \<Rightarrow> bool \<Rightarrow> 'p gw_filter \<Rightarrow> string + 'w gw_worker" where
  "register_filter env async f =
     (case ge_handler env (gf_ref f) (gf_params f) of
        Inl e \<Rightarrow> Inl e
      | Inr (name, h) \<Rightarrow>
          Inr \<lparr>wk_weight = filter_weight (gf_weight f) (gf_kind f), wk_async = (async \<and> gf_kind f = kind_processer),
               wk_name = name, wk_kind = gf_kind f, wk_handler = h\<rparr>)"

text \<open>A filter that cannot be registered is left out.\<close>

definition add_filter :: "('p, 'w) gw_env \<Rightarrow> bool \<Rightarrow> 'w gw_worker list \<Rightarrow> 'p gw_filter \<Rightarrow> 'w gw_worker list" where
  "add_filter env async ws f =
     (if async \<and> gf_kind f = kind_postfilter then ws
      else (case register_filter env async f of Inl e \<Rightarrow> ws | Inr k \<Rightarrow> pipe_add (ge_sort env) ws k))"

definition default_worker :: "('p, 'w) gw_env \<Rightarrow> 'w gw_worker" where
  "default_worker env =
     \<lparr>wk_weight = 127, wk_async = False, wk_name = fst (ge_default env), wk_kind = kind_postfilter,
      wk_handler = snd (ge_default env)\<rparr>"

definition build_pipe :: "('p, 'w) gw_env \<Rightarrow> bool \<Rightarrow> 'p gw_filter list \<Rightarrow> 'w gw_worker list" where
  "build_pipe env async ff =
     (let ws = foldl (add_filter env async) [] ff
      in if async then pipe_add (ge_sort env) ws (default_worker env) else ws)"

definition served_route :: "gw_route \<Rightarrow> 'w gw_worker list option \<Rightarrow> 'w gw_served" where
  "served_route r ws =
     \<lparr>sv_id = gr_id r, sv_endpoint = gr_endpoint r, sv_method = gr_method r,
      sv_debug = gr_debug r, sv_async = gr_async r, sv_pipe = ws\<rparr>"

fun init_routes :: "('p, 'w) gw_env \<Rightarrow> gw_route list \<Rightarrow> ('p, 'w) gw_state \<Rightarrow> 'w gw_served list \<times> ('p, 'w) gw_state" where
  "init_routes env [] st = ([], st)"
| "init_routes env (r # rr) st =
     (case gw_call env st of
        (GwOk _, st1) \<Rightarrow>
          (case init_routes env rr st1 of (ss, st2) \<Rightarrow>
            (served_route r (Some (build_pipe env (gr_async r) (filters_of (gr_id r) (gs_filters st)))) # ss, st2))
      | (_, st1) \<Rightarrow> (case init_routes env rr st1 of (ss, st2) \<Rightarrow> (served_route r None # ss, st2)))"

definition gw_reload :: "('p, 'w) gw_env \<Rightarrow> ('p, 'w, unit) gw_op" where
  "gw_reload env =
     gw_then (gw_call env) (\<lambda>_ st.
       case init_routes env (live_routes (gs_routes st)) st of (ss, st1) \<Rightarrow>
         let ok = takeWhile (\<lambda>s. ge_accepts env (sv_method s) (sv_endpoint s)) ss
         in (if length ok = length ss then GwOk () else GwPanic, st1\<lparr>gs_running := ss, gs_mux := Some ok\<rparr>))"

section \<open>Serving\<close>

datatype 'w mux_answer = MuxNotFound | MuxMethod | MuxRoute "'w gw_served"

datatype 'w gw_answer = AnswerNotInitialized | AnswerNotFound | AnswerMethod | AnswerPanic | AnswerRun "'w gw_worker list"

definition gw_serve :: "('w gw_served list \<Rightarrow> 'w mux_answer) \<Rightarrow> ('p, 'w) gw_state \<Rightarrow> 'w gw_answer" where
  "gw_serve mux st =
     (case gs_mux st of
        None \<Rightarrow> AnswerNotInitialized
      | Some ss \<Rightarrow>
          if gs_running st = [] then AnswerNotFound
          else (case mux ss of
                  MuxNotFound \<Rightarrow> AnswerNotFound
                | MuxMethod \<Rightarrow> AnswerMethod
                | MuxRoute s \<Rightarrow> (case sv_pipe s of None \<Rightarrow> AnswerPanic | Some ws \<Rightarrow> AnswerRun ws)))"

section \<open>Operations on routes\<close>

definition find_route :: "('p, 'w) gw_env \<Rightarrow> u64 \<Rightarrow> ('p, 'w, gw_route) gw_op" where
  "find_route env i =
     gw_then (gw_require (i \<noteq> 0) ''invalid ID'') (\<lambda>_.
     gw_then (gw_replace (\<lambda>_. ''invalid ID'') (route_by_id env i)) (\<lambda>r.
     gw_then (gw_require (ge_can_read env r) ''not allowed to read this route'') (\<lambda>_. gw_ok r)))"

definition create_route :: "('p, 'w) gw_env \<Rightarrow> gw_route \<Rightarrow> ('p, 'w, gw_route) gw_op" where
  "create_route env new =
     gw_then (gw_require (ge_can_create env) ''not allowed to create a route'') (\<lambda>_.
     gw_then (gw_next_id env) (\<lambda>i.
     let r = new\<lparr>gr_id := i, gr_created := ge_now env, gr_created_by := ge_identity env, gr_group := 0\<rparr> in
     gw_then (insert_route env r) (\<lambda>_.
     gw_then (if gr_enabled r then gw_reload env else gw_ok ()) (\<lambda>_. gw_ok r))))"

definition change_route :: "('p, 'w) gw_env \<Rightarrow> gw_route \<Rightarrow> ('p, 'w, gw_route) gw_op" where
  "change_route env upd =
     gw_then (gw_replace (\<lambda>_. ''route not found'') (route_by_id env (gr_id upd))) (\<lambda>old.
     gw_then (gw_require (ge_can_update env old) ''not allowed to update this route'') (\<lambda>_.
     let r = upd\<lparr>gr_updated := Some (ge_now env), gr_created := gr_created old, gr_updated_by := ge_identity env\<rparr> in
     gw_then (update_route env r) (\<lambda>_.
     gw_then (if gr_enabled old \<noteq> gr_enabled r \<or> gr_enabled old \<and> gr_enabled r then gw_reload env else gw_ok ())
       (\<lambda>_. gw_ok r))))"

definition delete_route :: "('p, 'w) gw_env \<Rightarrow> u64 \<Rightarrow> ('p, 'w, unit) gw_op" where
  "delete_route env i =
     gw_then (gw_require (i \<noteq> 0) ''invalid ID'') (\<lambda>_.
     gw_then (route_by_id env i) (\<lambda>r.
     gw_then (gw_require (ge_can_delete env r) ''not allowed to delete this route'') (\<lambda>_.
     gw_then (update_route env (r\<lparr>gr_deleted := Some (ge_now env), gr_deleted_by := ge_identity env\<rparr>)) (\<lambda>_.
     if gr_enabled r then gw_reload env else gw_ok ()))))"

definition undelete_route :: "('p, 'w) gw_env \<Rightarrow> u64 \<Rightarrow> ('p, 'w, unit) gw_op" where
  "undelete_route env i =
     gw_then (gw_require (i \<noteq> 0) ''invalid ID'') (\<lambda>_.
     gw_then (route_by_id env i) (\<lambda>r.
     gw_then (gw_require (ge_can_delete env r) ''not allowed to undelete this route'') (\<lambda>_.
     gw_then (update_route env (r\<lparr>gr_deleted := None, gr_updated_by := ge_identity env\<rparr>)) (\<lambda>_.
     if gr_enabled r then gw_reload env else gw_ok ()))))"

section \<open>Operations on filters\<close>

text \<open>The error of the reload is dropped here, a panic is not.\<close>

definition reload_quietly :: "('p, 'w) gw_env \<Rightarrow> bool \<Rightarrow> ('p, 'w, unit) gw_op" where
  "reload_quietly env enabled st =
     (if enabled then (case gw_reload env st of (GwErr e, st') \<Rightarrow> (GwOk (), st') | r \<Rightarrow> r) else (GwOk (), st))"

definition search_filters :: "('p, 'w) gw_env \<Rightarrow> u64 \<Rightarrow> bool \<Rightarrow> ('p, 'w, 'p gw_filter list) gw_op" where
  "search_filters env i all =
     gw_then (gw_require (i \<noteq> 0) ''invalid ID'') (\<lambda>_.
     gw_then (gw_replace (\<lambda>_. ''route not found'') (route_by_id env i)) (\<lambda>r.
     gw_then (gw_require (ge_can_read env r) ''not allowed to read this route'') (\<lambda>_.
     gw_then (gw_call env) (\<lambda>_ st.
       (GwOk (filter (\<lambda>f. gf_deleted f = None \<and> (all \<or> gf_enabled f) \<and> gf_route f = i) (gs_filters st)), st)))))"

definition find_gw_filter :: "('p, 'w) gw_env \<Rightarrow> u64 \<Rightarrow> ('p, 'w, 'p gw_filter) gw_op" where
  "find_gw_filter env i =
     gw_then (gw_require (i \<noteq> 0) ''invalid ID'') (\<lambda>_.
     gw_then (gw_replace (\<lambda>_. ''invalid ID'') (filter_by_id env i)) (\<lambda>f.
     gw_then (find_route env (gf_route f)) (\<lambda>r.
     gw_then (gw_require (ge_can_read env r) ''not allowed to read this route'') (\<lambda>_. gw_ok f))))"

definition validate_async :: "('p, 'w) gw_env \<Rightarrow> gw_route \<Rightarrow> 'p gw_filter \<Rightarrow> ('p, 'w, unit) gw_op" where
  "validate_async env r f =
     gw_then (search_filters env (gr_id r) False) (\<lambda>ff.
     gw_then (gw_require (\<not> (gf_kind f = kind_processer \<and>
                length (filter (\<lambda>g. gf_kind g = kind_processer) ff) = 1)) ''too many processers'') (\<lambda>_.
     gw_require (gf_kind f \<noteq> kind_postfilter) ''too many after filters''))"

definition create_filter :: "('p, 'w) gw_env \<Rightarrow> 'p gw_filter \<Rightarrow> ('p, 'w, 'p gw_filter) gw_op" where
  "create_filter env new =
     gw_then (gw_next_id env) (\<lambda>i.
     let f = new\<lparr>gf_id := i, gf_created := ge_now env, gf_created_by := ge_identity env\<rparr> in
     gw_then (route_by_id env (gf_route f)) (\<lambda>r.
     gw_then (gw_require (ge_can_update env r) ''not allowed to update this route'') (\<lambda>_.
     gw_then (if gr_async r then validate_async env r f else gw_ok ()) (\<lambda>_.
     gw_then (insert_filter env f) (\<lambda>_.
     gw_then (reload_quietly env (gr_enabled r)) (\<lambda>_. gw_ok f))))))"

text \<open>The route that is checked and reloaded is the one the filter goes to. A second lookup that fails leaves no row.\<close>

definition change_filter :: "('p, 'w) gw_env \<Rightarrow> 'p gw_filter \<Rightarrow> ('p, 'w, 'p gw_filter) gw_op" where
  "change_filter env upd =
     gw_then (gw_replace (\<lambda>_. ''filter not found'') (filter_by_id env (gf_id upd))) (\<lambda>_.
     gw_then (find_route env (gf_route upd)) (\<lambda>r.
     gw_then (gw_require (ge_can_update env r) ''not allowed to update this route'') (\<lambda>_ st.
     case filter_by_id env (gf_id upd) st of
       (GwOk old, st) \<Rightarrow>
         (let f = upd\<lparr>gf_updated := Some (ge_now env), gf_created := gf_created old, gf_updated_by := ge_identity env\<rparr> in
          gw_then (update_filter env f) (\<lambda>_. gw_then (reload_quietly env (gr_enabled r)) (\<lambda>_. gw_ok f)) st)
     | (_, st) \<Rightarrow> (GwPanic, st))))"

definition set_filter_deleted :: "('p, 'w) gw_env \<Rightarrow> ('p gw_filter \<Rightarrow> 'p gw_filter) \<Rightarrow> string \<Rightarrow> u64 \<Rightarrow> ('p, 'w, unit) gw_op" where
  "set_filter_deleted env change refusal i =
     gw_then (gw_replace (\<lambda>_. ''filter not found'') (filter_by_id env i)) (\<lambda>f.
     gw_then (gw_replace (\<lambda>e. if e = ''not found'' then ''route not found'' else e) (route_by_id env (gf_route f))) (\<lambda>r.
     gw_then (gw_require (ge_can_delete env r) refusal) (\<lambda>_.
     gw_then (update_filter env (change f)) (\<lambda>_. reload_quietly env (gr_enabled r)))))"

definition delete_filter :: "('p, 'w) gw_env \<Rightarrow> u64 \<Rightarrow> ('p, 'w, unit) gw_op" where
  "delete_filter env =
     set_filter_deleted env (\<lambda>f. f\<lparr>gf_deleted := Some (ge_now env), gf_deleted_by := ge_identity env\<rparr>)
       ''not allowed to delete this route''"

definition undelete_filter :: "('p, 'w) gw_env \<Rightarrow> u64 \<Rightarrow> ('p, 'w, unit) gw_op" where
  "undelete_filter env =
     set_filter_deleted env (\<lambda>f. f\<lparr>gf_deleted := None, gf_updated_by := ge_identity env\<rparr>)
       ''not allowed to undelete this route''"

end
