(* ===== verification/GwProps.thy ===== *)
theory GwProps
  imports GwService
begin

text \<open>
  What the gateway promises: in what order the workers of a request run and which of them a failed
  one keeps from running, and that what runs is what the rows say, in every state the services
  reach as long as filters stay with their routes.
\<close>

section \<open>What is loaded\<close>

definition ideal :: "('p, 'w) gw_env \<Rightarrow> gw_route list \<Rightarrow> 'p gw_filter list \<Rightarrow> 'w gw_served list" where
  "ideal env rr ff =
     map (\<lambda>r. served_route r (Some (build_pipe env (gr_async r) (filters_of (gr_id r) ff)))) (live_routes rr)"

definition gw_coherent :: "('p, 'w) gw_env \<Rightarrow> ('p, 'w) gw_state \<Rightarrow> bool" where
  "gw_coherent env st \<longleftrightarrow>
     gs_running st = ideal env (gs_routes st) (gs_filters st) \<and>
     gs_mux st = Some (takeWhile (\<lambda>s. ge_accepts env (sv_method s) (sv_endpoint s))
                   (ideal env (gs_routes st) (gs_filters st)))"

definition rows_ok :: "('p, 'w) gw_state \<Rightarrow> bool" where
  "rows_ok st \<longleftrightarrow>
     distinct (map gr_id (gs_routes st)) \<and> distinct (map gf_id (gs_filters st)) \<and> 0 \<notin> gr_id ` set (gs_routes st)"

definition gw_inv :: "('p, 'w) gw_env \<Rightarrow> ('p, 'w) gw_state \<Rightarrow> bool" where
  "gw_inv env st \<longleftrightarrow> rows_ok st \<and> gw_coherent env st"

section \<open>Triples\<close>

text \<open>
  An operation from a state with \<open>P\<close> ends normally in one with \<open>Q\<close>, or with an error or a panic in a
  state of the invariant.
\<close>

definition gw_triple ::
  "('p, 'w) gw_env \<Rightarrow> (('p, 'w) gw_state \<Rightarrow> bool) \<Rightarrow> ('p, 'w, 'a) gw_op \<Rightarrow> ('a \<Rightarrow> ('p, 'w) gw_state \<Rightarrow> bool) \<Rightarrow> bool" where
  "gw_triple env P m Q \<longleftrightarrow>
     (\<forall>st. P st \<longrightarrow> (case m st of (GwOk x, st') \<Rightarrow> Q x st' | (_, st') \<Rightarrow> gw_inv env st'))"

lemma triple_then [intro]:
  "gw_triple env P m Q \<Longrightarrow> (\<And>x. gw_triple env (Q x) (f x) R) \<Longrightarrow> gw_triple env P (gw_then m f) R"
  unfolding gw_triple_def gw_then_def by (fastforce split: prod.splits gw_out.splits)

lemma triple_replace: "gw_triple env P m Q \<Longrightarrow> gw_triple env P (gw_replace f m) Q"
  unfolding gw_triple_def gw_replace_def by (fastforce split: prod.splits gw_out.splits)

lemma triple_weaken: "gw_triple env P m Q \<Longrightarrow> (\<And>st. P' st \<Longrightarrow> P st) \<Longrightarrow> (\<And>x st. Q x st \<Longrightarrow> Q' x st) \<Longrightarrow> gw_triple env P' m Q'"
  unfolding gw_triple_def by (fastforce split: prod.splits gw_out.splits)

lemma triple_ok: "(\<And>st. P st \<Longrightarrow> Q x st) \<Longrightarrow> gw_triple env P (gw_ok x) Q"
  by (simp add: gw_triple_def gw_ok_def)

lemma triple_require:
  "(\<And>st. P st \<Longrightarrow> gw_inv env st) \<Longrightarrow> gw_triple env P (gw_require b e) (\<lambda>_ st. P st \<and> b)"
  by (simp add: gw_triple_def gw_require_def gw_ok_def gw_error_def)

lemma triple_guard: "(\<And>st. P st \<Longrightarrow> gw_inv env st) \<Longrightarrow> gw_triple env P (gw_require b e) (\<lambda>_. P)"
  by (simp add: gw_triple_def gw_require_def gw_ok_def gw_error_def)

section \<open>The store and the loading\<close>

definition gw_reliable :: "('p, 'w) gw_env \<Rightarrow> bool" where
  "gw_reliable env \<longleftrightarrow> (\<forall>n. ge_faults env n = None) \<and> (\<forall>n. ge_id env n \<noteq> 0)"

lemma gw_call_run [simp]: "gw_reliable env \<Longrightarrow> gw_call env st = (GwOk (), st\<lparr>gs_calls := Suc (gs_calls st)\<rparr>)"
  by (simp add: gw_call_def gw_reliable_def)

lemma inv_calls [simp]: "gw_inv env (st\<lparr>gs_calls := n\<rparr>) = gw_inv env st" "rows_ok (st\<lparr>gs_calls := n\<rparr>) = rows_ok st"
  by (simp_all add: gw_inv_def rows_ok_def gw_coherent_def)

lemma inv_ids [simp]: "gw_inv env (st\<lparr>gs_ids := n\<rparr>) = gw_inv env st"
  by (simp add: gw_inv_def rows_ok_def gw_coherent_def)

lemma init_routes_run:
  "gw_reliable env \<Longrightarrow> init_routes env rr st =
     (map (\<lambda>r. served_route r (Some (build_pipe env (gr_async r) (filters_of (gr_id r) (gs_filters st))))) rr,
      st\<lparr>gs_calls := gs_calls st + length rr\<rparr>)"
  by (induction rr arbitrary: st) simp_all

lemma triple_reload: "gw_reliable env \<Longrightarrow> gw_triple env rows_ok (gw_reload env) (\<lambda>_. gw_inv env)"
  by (auto simp: gw_triple_def gw_reload_def gw_then_def init_routes_run Let_def gw_inv_def gw_coherent_def
      ideal_def rows_ok_def)

lemma triple_reload_if:
  "gw_reliable env \<Longrightarrow> gw_triple env (\<lambda>st. rows_ok st \<and> (\<not> b \<longrightarrow> gw_inv env st))
     (if b then gw_reload env else gw_ok ()) (\<lambda>_. gw_inv env)"
  using triple_reload [of env] by (auto intro: triple_weaken triple_ok)

lemma triple_quietly:
  assumes "gw_reliable env"
  shows "gw_triple env (\<lambda>st. rows_ok st \<and> (\<not> b \<longrightarrow> gw_inv env st)) (reload_quietly env b) (\<lambda>_. gw_inv env)"
  unfolding gw_triple_def
proof (intro allI impI)
  fix st
  assume st: "rows_ok st \<and> (\<not> b \<longrightarrow> gw_inv env st)"
  obtain res st' where run: "gw_reload env st = (res, st')" by (cases "gw_reload env st")
  from triple_reload [OF assms] st run have "gw_inv env st'"
    by (cases res) (auto simp: gw_triple_def dest!: spec [where x = st])
  with run st show "case reload_quietly env b st of (GwOk x, st') \<Rightarrow> gw_inv env st' | (_, st') \<Rightarrow> gw_inv env st'"
    by (cases b; cases res) (simp_all add: reload_quietly_def)
qed

lemma triple_route_by_id:
  assumes "gw_reliable env"
  shows "gw_triple env (gw_inv env) (route_by_id env i) (\<lambda>r st. gw_inv env st \<and> r \<in> set (gs_routes st) \<and> gr_id r = i)"
  using assms by (auto simp: gw_triple_def route_by_id_def gw_then_def split: option.split dest: find_SomeD)

lemma triple_filter_by_id:
  assumes "gw_reliable env"
  shows "gw_triple env (gw_inv env) (filter_by_id env i) (\<lambda>f st. gw_inv env st \<and> f \<in> set (gs_filters st) \<and> gf_id f = i)"
  using assms by (auto simp: gw_triple_def filter_by_id_def gw_then_def split: option.split dest: find_SomeD)

lemma triple_next_id:
  assumes "gw_reliable env"
  shows "gw_triple env (gw_inv env) (gw_next_id env) (\<lambda>i st. gw_inv env st \<and> i \<noteq> 0)"
  using assms by (auto simp: gw_triple_def gw_next_id_def gw_reliable_def)

section \<open>Rows that are not live\<close>

lemma live_append: "live_routes (rr @ [r]) = live_routes rr @ (if gr_deleted r = None \<and> gr_enabled r then [r] else [])"
  by (simp add: live_routes_def)

lemma distinct_ids_eq: "distinct (map f xs) \<Longrightarrow> x \<in> set xs \<Longrightarrow> y \<in> set xs \<Longrightarrow> f x = f y \<Longrightarrow> x = y"
  by (auto simp: distinct_map dest: inj_onD)

lemma filter_replace:
  "(\<And>x. x \<in> set xs \<Longrightarrow> Q x \<Longrightarrow> \<not> P x) \<Longrightarrow> \<not> P y \<Longrightarrow>
   filter P (map (\<lambda>x. if Q x then y else x) xs) = filter P xs"
  by (induction xs) auto

lemma live_put_disabled:
  assumes "distinct (map gr_id rr)" and "old \<in> set rr" and "gr_id old = gr_id r" and "\<not> gr_enabled old" and "\<not> gr_enabled r"
  shows "live_routes (put_route r rr) = live_routes rr"
  unfolding live_routes_def put_route_def
proof (rule filter_replace)
  fix s
  assume "s \<in> set rr" and "gr_id s = gr_id r"
  with assms show "\<not> (gr_deleted s = None \<and> gr_enabled s)" using distinct_ids_eq [OF assms(1)] by metis
qed (use assms(5) in simp)

lemma put_route_ids [simp]: "map gr_id (put_route r rr) = map gr_id rr"
  by (simp add: put_route_def)

lemma put_filter_ids [simp]: "map gf_id (put_filter f ff) = map gf_id ff"
  by (simp add: put_filter_def)

text \<open>Filters of a route that is not enabled do not matter.\<close>

lemma ideal_filters:
  assumes "distinct (map gr_id rr)" and "0 \<notin> gr_id ` set rr" and "r \<in> set rr" and "\<not> gr_enabled r"
    and "\<And>i. i \<noteq> gr_id r \<Longrightarrow> 0 < i \<Longrightarrow> filters_of i ff' = filters_of i ff"
  shows "ideal env rr ff' = ideal env rr ff"
  unfolding ideal_def
proof (rule map_cong [OF refl])
  fix s
  assume "s \<in> set (live_routes rr)"
  then have s: "s \<in> set rr" "gr_enabled s" by (auto simp: live_routes_def)
  with assms(3,4) have "gr_id s \<noteq> gr_id r" using distinct_ids_eq [OF assms(1)] by blast
  moreover have "0 < gr_id s" using s(1) assms(2) by (metis imageI word_neq_0_conv)
  ultimately show "served_route s (Some (build_pipe env (gr_async s) (filters_of (gr_id s) ff'))) =
      served_route s (Some (build_pipe env (gr_async s) (filters_of (gr_id s) ff)))" using assms(5) by simp
qed

lemma filters_append:
  "i \<noteq> gf_route f \<Longrightarrow> 0 < i \<Longrightarrow> filters_of i (ff @ [f]) = filters_of i ff"
  by (simp add: filters_of_def)

lemma filters_put:
  assumes "\<And>g. g \<in> set ff \<Longrightarrow> gf_id g = gf_id f \<Longrightarrow> gf_route g = gf_route f" and "i \<noteq> gf_route f" and "0 < i"
  shows "filters_of i (put_filter f ff) = filters_of i ff"
  unfolding filters_of_def put_filter_def using assms by (intro filter_replace) auto

section \<open>Operations keep the invariant\<close>

lemma triple_insert_route:
  assumes "gw_reliable env"
  shows "gw_triple env (\<lambda>st. gw_inv env st \<and> gr_id r \<noteq> 0) (insert_route env r)
    (\<lambda>_ st. rows_ok st \<and> (\<not> gr_enabled r \<longrightarrow> gw_inv env st))"
  using assms by (auto simp: gw_triple_def insert_route_def gw_then_def gw_inv_def rows_ok_def gw_coherent_def list_ex_iff
      ideal_def live_append)

lemma triple_update_route:
  assumes "gw_reliable env"
  shows "gw_triple env (\<lambda>st. gw_inv env st \<and> old \<in> set (gs_routes st) \<and> gr_id old = gr_id r) (update_route env r)
    (\<lambda>_ st. rows_ok st \<and> (\<not> (gr_enabled old \<or> gr_enabled r) \<longrightarrow> gw_inv env st))"
proof -
  have ids: "gr_id ` set (put_route r rr) = gr_id ` set rr" for rr
    by (metis put_route_ids set_map)
  show ?thesis
    using assms live_put_disabled [of _ old r]
    by (auto simp: gw_triple_def update_route_def gw_then_def gw_inv_def rows_ok_def gw_coherent_def ids ideal_def)
qed

lemma coherent_filters:
  "ideal env (gs_routes st) ff = ideal env (gs_routes st) (gs_filters st) \<Longrightarrow>
   gw_coherent env (st\<lparr>gs_calls := n, gs_filters := ff\<rparr>) = gw_coherent env st"
  by (simp add: gw_coherent_def)

lemma triple_insert_filter:
  assumes "gw_reliable env"
  shows "gw_triple env (\<lambda>st. gw_inv env st \<and> r \<in> set (gs_routes st) \<and> gr_id r = gf_route f) (insert_filter env f)
    (\<lambda>_ st. rows_ok st \<and> (\<not> gr_enabled r \<longrightarrow> gw_inv env st))"
proof -
  have "ideal env (gs_routes st) (gs_filters st @ [f]) = ideal env (gs_routes st) (gs_filters st)"
    if "rows_ok st" "r \<in> set (gs_routes st)" "gr_id r = gf_route f" "\<not> gr_enabled r" for st :: "('a, 'b) gw_state"
    using that by (intro ideal_filters [where r = r]) (auto simp: rows_ok_def filters_append)
  with assms show ?thesis
    by (auto simp: gw_triple_def insert_filter_def gw_then_def gw_inv_def rows_ok_def gw_coherent_def list_ex_iff)
qed

lemma triple_update_filter:
  assumes "gw_reliable env"
  shows "gw_triple env (\<lambda>st. gw_inv env st \<and> r \<in> set (gs_routes st) \<and> gr_id r = gf_route f \<and>
      (\<forall>g \<in> set (gs_filters st). gf_id g = gf_id f \<longrightarrow> gf_route g = gf_route f)) (update_filter env f)
    (\<lambda>_ st. rows_ok st \<and> (\<not> gr_enabled r \<longrightarrow> gw_inv env st))"
proof -
  have "ideal env (gs_routes st) (put_filter f (gs_filters st)) = ideal env (gs_routes st) (gs_filters st)"
    if "rows_ok st" "r \<in> set (gs_routes st)" "gr_id r = gf_route f" "\<not> gr_enabled r"
      "\<forall>g \<in> set (gs_filters st). gf_id g = gf_id f \<longrightarrow> gf_route g = gf_route f" for st :: "('a, 'b) gw_state"
    using that by (intro ideal_filters [where r = r]) (auto simp: rows_ok_def filters_put)
  with assms show ?thesis
    by (auto simp: gw_triple_def update_filter_def gw_then_def gw_inv_def rows_ok_def gw_coherent_def)
qed

lemma triple_create_route:
  assumes "gw_reliable env"
  shows "gw_triple env (gw_inv env) (create_route env new) (\<lambda>_. gw_inv env)"
proof -
  have rest: "gw_triple env (\<lambda>st. gw_inv env st \<and> gr_id r \<noteq> 0)
      (gw_then (insert_route env r) (\<lambda>_. gw_then (if gr_enabled r then gw_reload env else gw_ok ()) (\<lambda>_. gw_ok r)))
      (\<lambda>_. gw_inv env)" for r
    by (rule triple_then [OF triple_insert_route [OF assms]])
      (rule triple_then [OF triple_reload_if [OF assms]], rule triple_ok)
  show ?thesis
    unfolding create_route_def Let_def
    by (rule triple_then [OF triple_require], assumption, rule triple_then)
      (rule triple_weaken [OF triple_next_id [OF assms]], simp, assumption, rule triple_weaken [OF rest], auto)
qed

lemma triple_change_route:
  assumes "gw_reliable env"
  shows "gw_triple env (gw_inv env) (change_route env upd) (\<lambda>_. gw_inv env)"
proof -
  have rest: "gw_triple env (\<lambda>st. gw_inv env st \<and> old \<in> set (gs_routes st) \<and> gr_id old = gr_id r)
      (gw_then (update_route env r) (\<lambda>_. gw_then
        (if gr_enabled old \<noteq> gr_enabled r \<or> gr_enabled old \<and> gr_enabled r then gw_reload env else gw_ok ()) (\<lambda>_. gw_ok r)))
      (\<lambda>_. gw_inv env)" for old r
  proof (rule triple_then [OF triple_update_route [OF assms]])
    show "gw_triple env (\<lambda>st. rows_ok st \<and> (\<not> (gr_enabled old \<or> gr_enabled r) \<longrightarrow> gw_inv env st))
      (gw_then (if gr_enabled old \<noteq> gr_enabled r \<or> gr_enabled old \<and> gr_enabled r then gw_reload env else gw_ok ()) (\<lambda>_. gw_ok r))
      (\<lambda>_. gw_inv env)" for x :: unit
      by (rule triple_then [where Q = "\<lambda>_. gw_inv env"], rule triple_weaken [OF triple_reload_if [OF assms]])
        (auto intro: triple_ok)
  qed
  show ?thesis
    unfolding change_route_def Let_def
    by (rule triple_then [OF triple_replace [OF triple_route_by_id [OF assms]]], rule triple_then [OF triple_require])
      (simp, rule triple_weaken [OF rest], auto)
qed

text \<open>Deleting and undeleting change one row and reload if it is enabled.\<close>

lemma triple_mark_route:
  assumes "gw_reliable env" and "\<And>r. gr_id (change r) = gr_id r" and "\<And>r. gr_enabled (change r) = gr_enabled r"
  shows "gw_triple env (gw_inv env)
    (gw_then (gw_require (i \<noteq> 0) e) (\<lambda>_. gw_then (route_by_id env i) (\<lambda>r.
     gw_then (gw_require (ge_can_delete env r) e') (\<lambda>_. gw_then (update_route env (change r)) (\<lambda>_.
     if gr_enabled r then gw_reload env else gw_ok ()))))) (\<lambda>_. gw_inv env)"
proof -
  have rest: "gw_triple env (\<lambda>st. gw_inv env st \<and> r \<in> set (gs_routes st))
      (gw_then (update_route env (change r)) (\<lambda>_. if gr_enabled r then gw_reload env else gw_ok ())) (\<lambda>_. gw_inv env)" for r
    by (rule triple_then [where Q = "\<lambda>_ st. rows_ok st \<and> (\<not> gr_enabled r \<longrightarrow> gw_inv env st)"])
      (rule triple_weaken [OF triple_update_route [OF assms(1), of r]], simp_all add: assms triple_reload_if)
  show ?thesis
    by (rule triple_then [OF triple_require], assumption, rule triple_then [OF triple_weaken [OF triple_route_by_id [OF assms(1)]]])
      (simp, assumption, rule triple_then [OF triple_require], simp, rule triple_weaken [OF rest], auto)
qed

lemma triple_search_filters:
  assumes "gw_reliable env"
  shows "gw_triple env (\<lambda>st. gw_inv env st \<and> r \<in> set (gs_routes st)) (search_filters env i all)
    (\<lambda>_ st. gw_inv env st \<and> r \<in> set (gs_routes st))"
  using assms by (auto simp: gw_triple_def search_filters_def gw_then_def gw_require_def gw_ok_def gw_error_def
      gw_replace_def route_by_id_def split: option.split)

lemma triple_validate:
  assumes "gw_reliable env"
  shows "gw_triple env (\<lambda>st. gw_inv env st \<and> r \<in> set (gs_routes st)) (validate_async env s f)
    (\<lambda>_ st. gw_inv env st \<and> r \<in> set (gs_routes st))"
  unfolding validate_async_def
  by (rule triple_then [OF triple_search_filters [OF assms]],
      rule triple_then [OF triple_guard], simp, rule triple_guard, simp)

lemma triple_create_filter:
  assumes "gw_reliable env"
  shows "gw_triple env (gw_inv env) (create_filter env new) (\<lambda>_. gw_inv env)"
proof -
  have store: "gw_triple env (\<lambda>st. gw_inv env st \<and> r \<in> set (gs_routes st) \<and> gr_id r = gf_route f)
      (gw_then (insert_filter env f) (\<lambda>_. gw_then (reload_quietly env (gr_enabled r)) (\<lambda>_. gw_ok f))) (\<lambda>_. gw_inv env)" for r f
    by (rule triple_then [OF triple_insert_filter [OF assms]], rule triple_then [OF triple_quietly [OF assms]])
      (auto intro: triple_ok)
  have check: "gw_triple env (\<lambda>st. gw_inv env st \<and> r \<in> set (gs_routes st) \<and> gr_id r = gf_route f)
      (if gr_async r then validate_async env r f else gw_ok ())
      (\<lambda>_ st. gw_inv env st \<and> r \<in> set (gs_routes st) \<and> gr_id r = gf_route f)" for r f
  proof (cases "gr_id r = gf_route f")
    case True
    with triple_validate [OF assms, of r r f] show ?thesis by (auto intro: triple_ok)
  qed (simp add: gw_triple_def)
  show ?thesis
    unfolding create_filter_def Let_def
  proof (rule triple_then [OF triple_next_id [OF assms]])
    fix i
    let ?f = "new\<lparr>gf_id := i, gf_created := ge_now env, gf_created_by := ge_identity env\<rparr>"
    let ?P = "\<lambda>r st. gw_inv env st \<and> r \<in> set (gs_routes st) \<and> gr_id r = gf_route ?f"
    show "gw_triple env (\<lambda>st. gw_inv env st \<and> i \<noteq> 0)
      (gw_then (route_by_id env (gf_route ?f)) (\<lambda>r.
       gw_then (gw_require (ge_can_update env r) ''not allowed to update this route'') (\<lambda>_.
       gw_then (if gr_async r then validate_async env r ?f else gw_ok ()) (\<lambda>_.
       gw_then (insert_filter env ?f) (\<lambda>_.
       gw_then (reload_quietly env (gr_enabled r)) (\<lambda>_. gw_ok ?f)))))) (\<lambda>_. gw_inv env)"
    proof (rule triple_then [where Q = ?P])
      show "gw_triple env (\<lambda>st. gw_inv env st \<and> i \<noteq> 0) (route_by_id env (gf_route ?f)) ?P"
        by (rule triple_weaken [OF triple_route_by_id [OF assms]]) auto
      show "gw_triple env (?P r)
        (gw_then (gw_require (ge_can_update env r) ''not allowed to update this route'') (\<lambda>_.
         gw_then (if gr_async r then validate_async env r ?f else gw_ok ()) (\<lambda>_.
         gw_then (insert_filter env ?f) (\<lambda>_.
         gw_then (reload_quietly env (gr_enabled r)) (\<lambda>_. gw_ok ?f))))) (\<lambda>_. gw_inv env)" for r
        by (rule triple_then [OF triple_guard], simp, rule triple_then [OF check store])
    qed
  qed
qed

text \<open>A change that leaves the filter with its route.\<close>

definition stays_home :: "'p gw_filter \<Rightarrow> ('p, 'w) gw_state \<Rightarrow> bool" where
  "stays_home f st \<longleftrightarrow> (\<forall>g \<in> set (gs_filters st). gf_id g = gf_id f \<longrightarrow> gf_route g = gf_route f)"

lemma home_calls [simp]: "stays_home f (st\<lparr>gs_calls := n\<rparr>) = stays_home f st"
  by (simp add: stays_home_def)

text \<open>A second lookup of a filter.\<close>

lemma triple_again:
  assumes "gw_reliable env" and "\<And>old. gw_triple env P (F old) Q"
    and "\<And>st n. P st \<Longrightarrow> P (st\<lparr>gs_calls := n\<rparr>)" and "\<And>st. P st \<Longrightarrow> gw_inv env st"
  shows "gw_triple env P (\<lambda>st. case filter_by_id env i st of (GwOk old, st) \<Rightarrow> F old st | (_, st) \<Rightarrow> (GwPanic, st)) Q"
  using assms by (simp add: gw_triple_def filter_by_id_def gw_then_def split: option.split)

lemma triple_home_filter:
  assumes "gw_reliable env"
  shows "gw_triple env (\<lambda>st. gw_inv env st \<and> stays_home f st) (filter_by_id env i) (\<lambda>_ st. gw_inv env st \<and> stays_home f st)"
  using assms by (simp add: gw_triple_def filter_by_id_def gw_then_def split: option.split)

lemma triple_home_route:
  assumes "gw_reliable env"
  shows "gw_triple env (\<lambda>st. gw_inv env st \<and> stays_home f st) (route_by_id env i)
    (\<lambda>r st. gw_inv env st \<and> stays_home f st \<and> r \<in> set (gs_routes st) \<and> gr_id r = i)"
  using assms by (auto simp: gw_triple_def route_by_id_def gw_then_def split: option.split dest: find_SomeD)

lemma triple_home_find:
  assumes "gw_reliable env"
  shows "gw_triple env (\<lambda>st. gw_inv env st \<and> stays_home f st) (find_route env i)
    (\<lambda>r st. gw_inv env st \<and> stays_home f st \<and> r \<in> set (gs_routes st) \<and> gr_id r = i)"
  unfolding find_route_def
  by (rule triple_then [OF triple_guard], simp, rule triple_then [OF triple_replace [OF triple_home_route [OF assms]]],
      rule triple_then [OF triple_guard], simp, rule triple_ok, assumption)

lemma triple_change_filter:
  assumes "gw_reliable env"
  shows "gw_triple env (\<lambda>st. gw_inv env st \<and> stays_home upd st) (change_filter env upd) (\<lambda>_. gw_inv env)"
proof -
  let ?P = "\<lambda>r st. gw_inv env st \<and> stays_home upd st \<and> r \<in> set (gs_routes st) \<and> gr_id r = gf_route upd"
  let ?f = "\<lambda>old. upd\<lparr>gf_updated := Some (ge_now env), gf_created := gf_created old, gf_updated_by := ge_identity env\<rparr>"
  have store: "gw_triple env (?P r)
      (gw_then (update_filter env (?f old)) (\<lambda>_. gw_then (reload_quietly env (gr_enabled r)) (\<lambda>_. gw_ok (?f old))))
      (\<lambda>_. gw_inv env)" for r old
  proof (rule triple_then [where Q = "\<lambda>_ st. rows_ok st \<and> (\<not> gr_enabled r \<longrightarrow> gw_inv env st)"])
    show "gw_triple env (?P r) (update_filter env (?f old)) (\<lambda>_ st. rows_ok st \<and> (\<not> gr_enabled r \<longrightarrow> gw_inv env st))"
    proof (rule triple_weaken [OF triple_update_filter [OF assms, of r]])
      have "gf_id (?f old) = gf_id upd" "gf_route (?f old) = gf_route upd" by simp_all
      then show "gw_inv env st \<and> r \<in> set (gs_routes st) \<and> gr_id r = gf_route (?f old) \<and>
        (\<forall>g \<in> set (gs_filters st). gf_id g = gf_id (?f old) \<longrightarrow> gf_route g = gf_route (?f old))" if "?P r st" for st
        using that unfolding stays_home_def by metis
    qed simp
    show "gw_triple env (\<lambda>st. rows_ok st \<and> (\<not> gr_enabled r \<longrightarrow> gw_inv env st))
      (gw_then (reload_quietly env (gr_enabled r)) (\<lambda>_. gw_ok (?f old))) (\<lambda>_. gw_inv env)"
      by (rule triple_then [OF triple_quietly [OF assms]], rule triple_ok)
  qed
  show ?thesis
    unfolding change_filter_def Let_def
    by (rule triple_then [OF triple_replace [OF triple_home_filter [OF assms]]],
        rule triple_then [OF triple_home_find [OF assms]], rule triple_then [OF triple_guard], simp,
        rule triple_again [OF assms store]) simp_all
qed

lemma triple_mark_filter:
  assumes "gw_reliable env" and "\<And>f. gf_id (change f) = gf_id f" and "\<And>f. gf_route (change f) = gf_route f"
  shows "gw_triple env (gw_inv env) (set_filter_deleted env change e i) (\<lambda>_. gw_inv env)"
proof -
  let ?Q = "\<lambda>f st. gw_inv env st \<and> f \<in> set (gs_filters st) \<and> gf_id f = i"
  let ?P = "\<lambda>f r st. gw_inv env st \<and> f \<in> set (gs_filters st) \<and> r \<in> set (gs_routes st) \<and> gr_id r = gf_route f"
  have lookup: "gw_triple env (?Q f) (route_by_id env j) (\<lambda>r st. ?Q f st \<and> r \<in> set (gs_routes st) \<and> gr_id r = j)" for f j
    using assms(1) by (auto simp: gw_triple_def route_by_id_def gw_then_def split: option.split dest: find_SomeD)
  have store: "gw_triple env (?P f r)
      (gw_then (update_filter env (change f)) (\<lambda>_. reload_quietly env (gr_enabled r))) (\<lambda>_. gw_inv env)" for f r
  proof (rule triple_then [where Q = "\<lambda>_ st. rows_ok st \<and> (\<not> gr_enabled r \<longrightarrow> gw_inv env st)"])
    show "gw_triple env (?P f r) (update_filter env (change f)) (\<lambda>_ st. rows_ok st \<and> (\<not> gr_enabled r \<longrightarrow> gw_inv env st))"
    proof (rule triple_weaken [OF triple_update_filter [OF assms(1), of r]])
      fix st
      assume P: "?P f r st"
      then have "g = f" if "g \<in> set (gs_filters st)" "gf_id g = gf_id f" for g
        using that distinct_ids_eq [of gf_id "gs_filters st" g f] by (auto simp: gw_inv_def rows_ok_def)
      then have "\<forall>g \<in> set (gs_filters st). gf_id g = gf_id f \<longrightarrow> gf_route g = gf_route f" by metis
      with P show "gw_inv env st \<and> r \<in> set (gs_routes st) \<and> gr_id r = gf_route (change f) \<and>
        (\<forall>g \<in> set (gs_filters st). gf_id g = gf_id (change f) \<longrightarrow> gf_route g = gf_route (change f))"
        unfolding assms(2,3) by blast
    qed simp
  qed (rule triple_quietly [OF assms(1)])
  show ?thesis
    unfolding set_filter_deleted_def
    by (rule triple_then [OF triple_replace [OF triple_filter_by_id [OF assms(1)]]],
        rule triple_then [OF triple_replace [OF lookup]], rule triple_then [OF triple_guard], simp,
        rule triple_weaken [OF store], auto)
qed

text \<open>
  A filter that moves to a route that is not enabled goes on running for its old route, whose access
  is not checked either.
\<close>

lemma moved_filter_still_runs:
  assumes "gw_reliable env" and "find (\<lambda>f. gf_id f = gf_id upd) (gs_filters st) = Some old"
    and "find (\<lambda>r. gr_id r = gf_route upd) (gs_routes st) = Some r" and "gf_route upd \<noteq> 0"
    and "ge_can_read env r" and "ge_can_update env r" and "\<not> gr_enabled r"
  shows "\<exists>f st'. change_filter env upd st = (GwOk f, st') \<and> gs_running st' = gs_running st \<and> gs_mux st' = gs_mux st"
proof -
  have filter: "filter_by_id env (gf_id upd) (st\<lparr>gs_calls := n\<rparr>) = (GwOk old, st\<lparr>gs_calls := Suc n\<rparr>)" for n
    using assms(1,2) by (simp add: filter_by_id_def gw_then_def)
  have route: "find_route env (gf_route upd) (st\<lparr>gs_calls := n\<rparr>) = (GwOk r, st\<lparr>gs_calls := Suc n\<rparr>)" for n
    using assms(1,3-5) by (simp add: find_route_def route_by_id_def gw_then_def gw_require_def gw_ok_def gw_replace_def)
  from filter [of "gs_calls st"] have first: "filter_by_id env (gf_id upd) st = (GwOk old, st\<lparr>gs_calls := Suc (gs_calls st)\<rparr>)"
    by simp
  show ?thesis
    unfolding change_filter_def
    by (simp add: gw_then_def gw_replace_def first route filter gw_require_def gw_ok_def assms(1,6,7) Let_def update_filter_def
        reload_quietly_def)
qed

section \<open>Reachable states\<close>

datatype 'p gw_request =
  CreateRoute gw_route | ChangeRoute gw_route | DeleteRoute u64 | UndeleteRoute u64
| CreateFilter "'p gw_filter" | ChangeFilter "'p gw_filter" | DeleteFilter u64 | UndeleteFilter u64 | ReloadGateway

fun gw_do :: "('p, 'w) gw_env \<Rightarrow> 'p gw_request \<Rightarrow> ('p, 'w) gw_state \<Rightarrow> ('p, 'w) gw_state" where
  "gw_do env (CreateRoute r) st = snd (create_route env r st)"
| "gw_do env (ChangeRoute r) st = snd (change_route env r st)"
| "gw_do env (DeleteRoute i) st = snd (delete_route env i st)"
| "gw_do env (UndeleteRoute i) st = snd (undelete_route env i st)"
| "gw_do env (CreateFilter f) st = snd (create_filter env f st)"
| "gw_do env (ChangeFilter f) st = snd (change_filter env f st)"
| "gw_do env (DeleteFilter i) st = snd (delete_filter env i st)"
| "gw_do env (UndeleteFilter i) st = snd (undelete_filter env i st)"
| "gw_do env ReloadGateway st = snd (gw_reload env st)"

definition gw_home :: "'p gw_request \<Rightarrow> ('p, 'w) gw_state \<Rightarrow> bool" where
  "gw_home q st \<longleftrightarrow> (case q of ChangeFilter f \<Rightarrow> stays_home f st | _ \<Rightarrow> True)"

inductive gw_reach :: "('p, 'w) gw_env \<Rightarrow> ('p, 'w) gw_state \<Rightarrow> bool" for env where
  boot: "rows_ok st \<Longrightarrow> gw_reach env (snd (gw_reload env st))"
| request: "gw_reach env st \<Longrightarrow> gw_home q st \<Longrightarrow> gw_reach env (gw_do env q st)"

lemma triple_snd: "gw_triple env P m (\<lambda>_. gw_inv env) \<Longrightarrow> P st \<Longrightarrow> gw_inv env (snd (m st))"
  by (cases "m st"; cases "fst (m st)") (auto simp: gw_triple_def dest!: spec [where x = st])

lemma gw_do_inv:
  assumes "gw_reliable env" and "gw_inv env st" and "gw_home q st"
  shows "gw_inv env (gw_do env q st)"
proof (cases q)
  case (CreateRoute r)
  then show ?thesis using triple_snd [OF triple_create_route [OF assms(1)] assms(2)] by simp
next
  case (ChangeRoute r)
  then show ?thesis using triple_snd [OF triple_change_route [OF assms(1)] assms(2)] by simp
next
  case (DeleteRoute i)
  show ?thesis unfolding DeleteRoute gw_do.simps delete_route_def
    by (rule triple_snd [OF triple_mark_route [OF assms(1)] assms(2)]) simp_all
next
  case (UndeleteRoute i)
  show ?thesis unfolding UndeleteRoute gw_do.simps undelete_route_def
    by (rule triple_snd [OF triple_mark_route [OF assms(1)] assms(2)]) simp_all
next
  case (CreateFilter f)
  then show ?thesis using triple_snd [OF triple_create_filter [OF assms(1)] assms(2)] by simp
next
  case (ChangeFilter f)
  with assms(3) show ?thesis
    using triple_snd [OF triple_change_filter [OF assms(1)], of st f] assms(2) by (simp add: gw_home_def)
next
  case (DeleteFilter i)
  show ?thesis unfolding DeleteFilter gw_do.simps delete_filter_def
    by (rule triple_snd [OF triple_mark_filter [OF assms(1)] assms(2)]) simp_all
next
  case (UndeleteFilter i)
  show ?thesis unfolding UndeleteFilter gw_do.simps undelete_filter_def
    by (rule triple_snd [OF triple_mark_filter [OF assms(1)] assms(2)]) simp_all
next
  case ReloadGateway
  have "rows_ok st" using assms(2) by (simp add: gw_inv_def)
  with ReloadGateway show ?thesis using triple_snd [OF triple_reload [OF assms(1)]] by simp
qed

lemma gw_reach_inv: "gw_reach env st \<Longrightarrow> gw_reliable env \<Longrightarrow> gw_inv env st"
  by (induction rule: gw_reach.induct) (auto intro: gw_do_inv triple_snd [OF triple_reload])

section \<open>The order of kinds\<close>

definition plain_filter :: "'p gw_filter \<Rightarrow> bool" where
  "plain_filter f \<longleftrightarrow> gf_weight f < 100 \<and> gf_kind f \<in> {kind_prefilter, kind_processer, kind_postfilter}"

lemma filter_weight_bounds:
  assumes "w < 100"
  shows "filter_weight w kind_prefilter < 100" and "100 \<le> filter_weight w kind_processer"
    and "100 \<le> filter_weight w kind_postfilter"
proof -
  have w: "uint w < 100" using assms by (simp add: word_less_def)
  have small: "sint x = uint x" if "uint x < 1000" for x :: u64
    using that by (simp add: sint_uint signed_take_bit_int_eq_self order_trans [OF _ uint_ge_0])
  have shift: "uint (n + w) = uint n + uint w" if "uint n < 500" for n :: u64
    using that w by (simp add: uint_word_ariths)
  have "sint w < 100" using w small [of w] by simp
  moreover have "sint (100 + w) = 100 + uint w" using small [of "100 + w"] shift [of 100] w by simp
  moreover have "sint (200 + w) = 200 + uint w" using small [of "200 + w"] shift [of 200] w by simp
  ultimately show "filter_weight w kind_prefilter < 100" and "100 \<le> filter_weight w kind_processer"
    and "100 \<le> filter_weight w kind_postfilter"
    by (simp_all add: filter_weight_def weight_factor_def kind_prefilter_def kind_processer_def kind_postfilter_def)
qed

definition plain_worker :: "'w gw_worker \<Rightarrow> bool" where
  "plain_worker k \<longleftrightarrow>
     (if wk_kind k = kind_prefilter then wk_weight k < 100 \<and> \<not> wk_async k else 100 \<le> wk_weight k)"

definition plain_pipe :: "'w gw_worker list \<Rightarrow> bool" where
  "plain_pipe ws \<longleftrightarrow> sorted (map wk_weight ws) \<and> list_all plain_worker ws"

lemma kinds_differ [simp]:
  "kind_prefilter \<noteq> kind_processer" "kind_prefilter \<noteq> kind_postfilter" "kind_processer \<noteq> kind_postfilter"
  "kind_processer \<noteq> kind_prefilter" "kind_postfilter \<noteq> kind_prefilter" "kind_postfilter \<noteq> kind_processer"
  by (simp_all add: kind_prefilter_def kind_processer_def kind_postfilter_def)

lemma plain_pipe_add:
  assumes "sorts_workers so" and "plain_pipe ws" and "plain_worker k"
  shows "plain_pipe (pipe_add so ws k)"
proof -
  have "mset (so (ws @ [k])) = mset (ws @ [k])" and "sorted (map wk_weight (so (ws @ [k])))"
    using assms(1) by (simp_all add: sorts_workers_def)
  from mset_eq_setD [OF this(1)] this(2) assms(2,3) show ?thesis
    by (simp add: plain_pipe_def pipe_add_def list_all_iff)
qed

lemma plain_registered:
  "plain_filter f \<Longrightarrow> register_filter env async f = Inr k \<Longrightarrow> plain_worker k"
  using filter_weight_bounds [of "gf_weight f"]
  by (auto simp: register_filter_def plain_worker_def plain_filter_def split: sum.splits)

lemma plain_add_filter:
  "sorts_workers (ge_sort env) \<Longrightarrow> plain_filter f \<Longrightarrow> plain_pipe ws \<Longrightarrow> plain_pipe (add_filter env async ws f)"
  by (auto simp: add_filter_def split: sum.split intro: plain_pipe_add plain_registered)

lemma plain_add_filters:
  "sorts_workers (ge_sort env) \<Longrightarrow> list_all plain_filter ff \<Longrightarrow> plain_pipe ws \<Longrightarrow>
   plain_pipe (foldl (add_filter env async) ws ff)"
  by (induction ff arbitrary: ws) (auto intro: plain_add_filter)

lemma plain_build_pipe:
  assumes "sorts_workers (ge_sort env)" and "list_all plain_filter ff"
  shows "plain_pipe (build_pipe env async ff)"
proof -
  have "plain_pipe (foldl (add_filter env async) [] ff)"
    using assms by (intro plain_add_filters) (simp_all add: plain_pipe_def)
  moreover have "plain_worker (default_worker env)" by (simp add: plain_worker_def default_worker_def)
  ultimately show ?thesis using assms(1) by (auto simp: build_pipe_def Let_def intro: plain_pipe_add)
qed

section \<open>What ran before\<close>

lemma started_first:
  assumes "gw_steps onerr (run_start ws w) r"
  shows "\<forall>k. k \<in> set (rn_started r) \<or> (\<exists>err. Finished k err \<in> set (rn_trace r)) \<longrightarrow> Started k \<in> set (rn_trace r)"
  using assms
proof (induction rule: gw_steps.induct)
  case none
  then show ?case by (simp add: run_start_def)
next
  case (more r' r'')
  from more.hyps(2) show ?case
  proof (cases rule: gw_step.cases)
    case serve
    with more.IH show ?thesis by (auto simp: serve_next_def split: list.splits prod.splits option.splits)
  next
    case (background before k after)
    with more.IH show ?thesis by (auto simp: finish_worker_def split: prod.splits)
  qed
qed

lemma earlier_passed:
  assumes "run_inv ws r" and "plain_pipe ws" and "ev \<in> set (passed r)" and "wk_kind (event_worker ev) \<noteq> kind_prefilter"
    and "p \<in> set ws" and "wk_kind p = kind_prefilter"
  shows "Ran p None \<in> set (passed r)"
proof -
  let ?l = "passed r"
  obtain j where j: "j < length ?l" "?l ! j = ev" using assms(3) by (auto simp: in_set_conv_nth)
  obtain i where i: "i < length ws" "ws ! i = p" using assms(5) by (auto simp: in_set_conv_nth)
  have ws: "map event_worker ?l @ rn_todo r = ws" using assms(1) by (simp add: run_inv_def)
  then have wsj: "ws ! j = event_worker ev" and lw: "length ?l \<le> length ws"
    using j by (auto simp: nth_append)
  have all: "\<forall>k \<in> set ws. plain_worker k" and so: "sorted (map wk_weight ws)"
    using assms(2) by (auto simp: plain_pipe_def list_all_iff)
  have pw: "wk_weight p < 100" "\<not> wk_async p" using all assms(5,6) by (auto simp: plain_worker_def)
  have "event_worker ev \<in> set ws" using ws assms(3) by auto
  with all assms(4) have "100 \<le> wk_weight (event_worker ev)" by (auto simp: plain_worker_def)
  have ij: "i < j"
  proof (rule ccontr)
    assume "\<not> i < j"
    then have "wk_weight (ws ! j) \<le> wk_weight (ws ! i)"
      using sorted_nth_mono [OF so, of j i] i(1) by simp
    with pw(1) \<open>100 \<le> wk_weight (event_worker ev)\<close> wsj i(2) show False by simp
  qed
  with j have il: "i < length ?l" by simp
  then have worker: "event_worker (?l ! i) = p" using ws i by (auto simp: nth_append)
  have "?l ! i \<in> set (butlast ?l)"
    using ij j nth_butlast [of i ?l] nth_mem [of i "butlast ?l"] by simp
  then have "event_ok (?l ! i)"
    using assms(1) in_set_butlastD by (fastforce simp: run_inv_def list_all_iff split: if_splits)
  moreover have "case ?l ! i of Ran k err \<Rightarrow> \<not> wk_async k | _ \<Rightarrow> wk_async (event_worker (?l ! i))"
    by (rule bspec [OF _ nth_mem [OF il]]) (use assms(1) in \<open>simp add: run_inv_def\<close>)
  ultimately have "?l ! i = Ran p None"
    using worker pw(2) by (auto simp: event_ok_def event_worker_def split: gw_event.splits option.splits)
  with il show ?thesis by (metis nth_mem)
qed

lemma sort_key_sorts: "sorts_workers (sort_key wk_weight)"
  by (simp add: sorts_workers_def)

section \<open>Properties\<close>

text \<open>An environment, a route and filters of it: the handler of a filter adds its parameter to the world.\<close>

definition demo_env :: "(nat, nat) gw_env" where
  "demo_env = \<lparr>ge_faults = (\<lambda>_. None), ge_id = (\<lambda>n. if n = 0 then 1 else 2), ge_now = 7, ge_identity = 9,
     ge_sort = sort_key wk_weight, ge_handler = (\<lambda>name p. Inr (name, \<lambda>w. (None, w + p))),
     ge_default = (''default'', \<lambda>w. (None, w)), ge_accepts = (\<lambda>_ _. True), ge_can_create = True,
     ge_can_read = (\<lambda>_. True), ge_can_update = (\<lambda>_. True), ge_can_delete = (\<lambda>_. True)\<rparr>"

definition demo_route :: "bool \<Rightarrow> gw_route" where
  "demo_route enabled = \<lparr>gr_id = 0, gr_endpoint = ''/a'', gr_method = ''GET'', gr_enabled = enabled, gr_group = 0,
     gr_debug = False, gr_async = False, gr_created = 0, gr_created_by = 0, gr_updated = None, gr_updated_by = 0,
     gr_deleted = None, gr_deleted_by = 0\<rparr>"

definition demo_filter :: "u64 \<Rightarrow> string \<Rightarrow> u64 \<Rightarrow> nat gw_filter" where
  "demo_filter route kind w = \<lparr>gf_id = 0, gf_route = route, gf_weight = w, gf_ref = ''f'', gf_kind = kind, gf_enabled = True,
     gf_params = 1, gf_created = 0, gf_created_by = 0, gf_updated = None, gf_updated_by = 0,
     gf_deleted = None, gf_deleted_by = 0\<rparr>"

definition demo_state :: "(nat, nat) gw_state" where
  "demo_state = \<lparr>gs_routes = [], gs_filters = [], gs_running = [], gs_mux = None, gs_calls = 0, gs_ids = 0\<rparr>"

lemma demo_reliable: "gw_reliable demo_env"
  by (simp add: gw_reliable_def demo_env_def)

definition demo_served :: "(nat, nat) gw_state" where
  "demo_served = gw_do demo_env (CreateFilter (demo_filter 1 kind_prefilter 5))
     (gw_do demo_env (CreateRoute (demo_route True)) (snd (gw_reload demo_env demo_state)))"

lemma demo_reach: "gw_reach demo_env demo_served"
  unfolding demo_served_def
  by (intro gw_reach.request gw_reach.boot) (simp_all add: gw_home_def rows_ok_def demo_state_def)



lemma ideal_member:
  "s \<in> set (ideal env rr ff) \<Longrightarrow> \<exists>r \<in> set rr. gr_enabled r \<and> gr_deleted r = None \<and>
     sv_pipe s = Some (build_pipe env (gr_async r) (filters_of (gr_id r) ff))"
  by (auto simp: ideal_def live_routes_def served_route_def)

text \<open>
  A request is answered by the workers of a stored, enabled, not deleted route, loaded from its
  filters, or with one of the gateway's own answers; it never runs into a route without a handler.
\<close>

theorem request_runs_stored_filters:
  assumes "gw_reach env st" and "gw_reliable env" and "\<And>ss s. mux ss = MuxRoute s \<Longrightarrow> s \<in> set ss"
  shows "case gw_serve mux st of
      AnswerRun ws \<Rightarrow> \<exists>r \<in> set (gs_routes st). gr_enabled r \<and> gr_deleted r = None \<and>
        ws = build_pipe env (gr_async r) (filters_of (gr_id r) (gs_filters st))
    | AnswerPanic \<Rightarrow> False | AnswerNotInitialized \<Rightarrow> False | _ \<Rightarrow> True"
proof -
  let ?ss = "takeWhile (\<lambda>s. ge_accepts env (sv_method s) (sv_endpoint s)) (ideal env (gs_routes st) (gs_filters st))"
  have mux: "gs_mux st = Some ?ss" using gw_reach_inv [OF assms(1,2)] by (simp add: gw_inv_def gw_coherent_def)
  have "s \<in> set (ideal env (gs_routes st) (gs_filters st))" if "mux ?ss = MuxRoute s" for s
    using assms(3) [OF that] by (rule set_takeWhileD [THEN conjunct1])
  then have "\<exists>r \<in> set (gs_routes st). gr_enabled r \<and> gr_deleted r = None \<and>
      sv_pipe s = Some (build_pipe env (gr_async r) (filters_of (gr_id r) (gs_filters st)))" if "mux ?ss = MuxRoute s" for s
    using that ideal_member by blast
  with mux show ?thesis
    by (cases "mux ?ss") (fastforce simp: gw_serve_def)+
qed

lemma request_runs_stored_filters_witness:
  "\<exists>ws. gw_serve (\<lambda>ss. case ss of [] \<Rightarrow> MuxNotFound | s # _ \<Rightarrow> MuxRoute s) demo_served = AnswerRun ws \<and>
     (\<exists>r \<in> set (gs_routes demo_served). gr_enabled r \<and> gr_deleted r = None \<and>
        ws = build_pipe demo_env (gr_async r) (filters_of (gr_id r) (gs_filters demo_served)))"
proof -
  let ?mux = "\<lambda>ss :: nat gw_served list. case ss of [] \<Rightarrow> MuxNotFound | s # _ \<Rightarrow> MuxRoute s"
  have "s \<in> set ss" if "?mux ss = MuxRoute s" for ss s using that by (cases ss) auto
  note served = request_runs_stored_filters [OF demo_reach demo_reliable, of ?mux, OF this]
  have "case gw_serve ?mux demo_served of AnswerRun ws \<Rightarrow> True | _ \<Rightarrow> False"
    by code_simp
  with served show ?thesis by (cases "gw_serve ?mux demo_served") auto
qed


definition demo_filters :: "nat gw_filter list" where
  "demo_filters = [demo_filter 1 kind_processer 0, demo_filter 1 kind_prefilter 99]"

definition demo_worker :: "string \<Rightarrow> int \<Rightarrow> nat gw_worker" where
  "demo_worker kind w = \<lparr>wk_weight = w, wk_async = False, wk_name = ''f'', wk_kind = kind, wk_handler = \<lambda>w. (None, w + 1)\<rparr>"

lemma demo_pipe: "build_pipe demo_env False demo_filters = [demo_worker kind_prefilter 99, demo_worker kind_processer 100]"
  by (simp add: build_pipe_def demo_filters_def add_filter_def register_filter_def demo_filter_def demo_env_def
      demo_worker_def pipe_add_def filter_weight_def weight_factor_def)


end
