(* ===== verification/LabelModel.thy ===== *)
theory LabelModel
  imports Handle SliceUtil
begin

text \<open>
  \<^verbatim>\<open>pkg/label\<close> and the labels of the store: texts by name on a resource of a kind, in one table for
  all kinds, and what the services share that keep them: operations on a state that carries the table.

  A Go map of labels is an association list in the order in which the loop at hand visits it. Calls of
  the store are numbered; the environment tells which of them fail, and whether the database takes a
  test against the empty list of names, which PostgreSQL and MySQL refuse to parse and SQLite accepts.
\<close>

section \<open>Operations\<close>

datatype svc_error =
  SvcNotFound | SvcMissing | SvcNotUnique | SvcInvalidID | SvcInvalidHandle | SvcHandleTaken | SvcNameTaken
| SvcNotAllowed string | SvcRaw string

type_synonym ('s, 'a) svc_op = "'s \<Rightarrow> (svc_error + 'a) \<times> 's"

definition svc_give :: "'a \<Rightarrow> ('s, 'a) svc_op" where
  "svc_give x st = (Inr x, st)"

definition svc_fail :: "svc_error \<Rightarrow> ('s, 'a) svc_op" where
  "svc_fail e st = (Inl e, st)"

definition svc_then :: "('s, 'a) svc_op \<Rightarrow> ('a \<Rightarrow> ('s, 'b) svc_op) \<Rightarrow> ('s, 'b) svc_op" where
  "svc_then m f st = (case m st of (Inl e, st') \<Rightarrow> (Inl e, st') | (Inr x, st') \<Rightarrow> f x st')"

definition svc_require :: "bool \<Rightarrow> svc_error \<Rightarrow> ('s, unit) svc_op" where
  "svc_require b e = (if b then svc_give () else svc_fail e)"

text \<open>The outcome as a value, for code that looks at the error.\<close>

definition svc_outcome :: "('s, 'a) svc_op \<Rightarrow> ('s, svc_error + 'a) svc_op" where
  "svc_outcome m st = (case m st of (r, st') \<Rightarrow> (Inr r, st'))"

section \<open>The table\<close>

record label =
  lb_kind :: string
  lb_resource :: u64
  lb_name :: string
  lb_value :: string

record label_filter =
  lf_kind :: string
  lf_ids :: "u64 list"
  lf_pairs :: "(string \<times> string) list"
  lf_limit :: nat

record label_db =
  ld_labels :: "label list"
  ld_calls :: nat

record label_env =
  le_faults :: "nat \<Rightarrow> string option"
  le_empty :: "string option"

definition svc_call :: "'e label_env_scheme \<Rightarrow> ('m label_db_scheme, unit) svc_op" where
  "svc_call env st =
     (let st' = st\<lparr>ld_calls := Suc (ld_calls st)\<rparr>
      in case le_faults env (ld_calls st) of None \<Rightarrow> (Inr (), st') | Some e \<Rightarrow> (Inl (SvcRaw e), st'))"

definition svc_query :: "'e label_env_scheme \<Rightarrow> ('m label_db_scheme \<Rightarrow> 'a) \<Rightarrow> ('m label_db_scheme, 'a) svc_op" where
  "svc_query env q = svc_then (svc_call env) (\<lambda>_ st. (Inr (q st), st))"

definition svc_write ::
  "'e label_env_scheme \<Rightarrow> ('m label_db_scheme \<Rightarrow> 'm label_db_scheme) \<Rightarrow> ('m label_db_scheme, unit) svc_op" where
  "svc_write env w = svc_then (svc_call env) (\<lambda>_ st. (Inr (), w st))"

text \<open>An insert of a key that exists is refused.\<close>

definition svc_insert ::
  "'e label_env_scheme \<Rightarrow> ('m label_db_scheme \<Rightarrow> bool) \<Rightarrow> ('m label_db_scheme \<Rightarrow> 'm label_db_scheme) \<Rightarrow> ('m label_db_scheme, unit) svc_op" where
  "svc_insert env taken w =
     svc_then (svc_call env) (\<lambda>_ st. if taken st then (Inl (SvcRaw ''duplicate key''), st) else (Inr (), w st))"

text \<open>One of the pairs is enough.\<close>

definition label_passes :: "label_filter \<Rightarrow> label \<Rightarrow> bool" where
  "label_passes f l \<longleftrightarrow>
     (0 < length (go_trim (lf_kind f)) \<longrightarrow> lb_kind l = lf_kind f) \<and>
     (lf_ids f \<noteq> [] \<longrightarrow> lb_resource l \<in> set (lf_ids f)) \<and>
     (lf_pairs f \<noteq> [] \<longrightarrow> list_ex (\<lambda>(k, v). lb_name l = k \<and> lb_value l = v) (lf_pairs f))"

definition query_labels :: "'e label_env_scheme \<Rightarrow> label_filter \<Rightarrow> ('m label_db_scheme, label list) svc_op" where
  "query_labels env f =
     svc_query env (\<lambda>st. let rows = filter (label_passes f) (ld_labels st)
                          in if 0 < lf_limit f then take (lf_limit f) rows else rows)"

text \<open>The unique index is on the kind, the resource and the name in lower case.\<close>

definition same_label :: "label \<Rightarrow> label \<Rightarrow> bool" where
  "same_label l m \<longleftrightarrow>
     lb_kind l = lb_kind m \<and> lb_resource l = lb_resource m \<and> to_lower (lb_name l) = to_lower (lb_name m)"

definition insert_label :: "'e label_env_scheme \<Rightarrow> label \<Rightarrow> ('m label_db_scheme, unit) svc_op" where
  "insert_label env l =
     svc_insert env (\<lambda>st. list_ex (same_label l) (ld_labels st)) (\<lambda>st. st\<lparr>ld_labels := ld_labels st @ [l]\<rparr>)"

definition put_label :: "label \<Rightarrow> label list \<Rightarrow> label list" where
  "put_label l ls =
     (if list_ex (same_label l) ls then map (\<lambda>m. if same_label l m then m\<lparr>lb_value := lb_value l\<rparr> else m) ls
      else ls @ [l])"

definition upsert_label :: "'e label_env_scheme \<Rightarrow> label \<Rightarrow> ('m label_db_scheme, unit) svc_op" where
  "upsert_label env l = svc_write env (\<lambda>st. st\<lparr>ld_labels := put_label l (ld_labels st)\<rparr>)"

definition keeps_label :: "string \<Rightarrow> u64 \<Rightarrow> string list \<Rightarrow> label \<Rightarrow> bool" where
  "keeps_label kind i names m \<longleftrightarrow> \<not> (lb_kind m = kind \<and> lb_resource m = i \<and> lb_name m \<notin> set names)"

definition delete_extra_labels ::
  "'e label_env_scheme \<Rightarrow> string \<Rightarrow> u64 \<Rightarrow> string list \<Rightarrow> ('m label_db_scheme, unit) svc_op" where
  "delete_extra_labels env kind i names =
     svc_then (svc_call env) (\<lambda>_ st.
       case (names, le_empty env) of
         ([], Some e) \<Rightarrow> (Inl (SvcRaw e), st)
       | _ \<Rightarrow> (Inr (), st\<lparr>ld_labels := filter (keeps_label kind i names) (ld_labels st)\<rparr>))"

section \<open>Labels of resources\<close>

type_synonym labels = "(string \<times> string) list"

definition differs_from :: "labels \<Rightarrow> labels \<Rightarrow> bool" where
  "differs_from old new = list_ex (\<lambda>(k, v). case map_of new k of None \<Rightarrow> True | Some w \<Rightarrow> w \<noteq> v) old"

definition label_changed :: "labels \<Rightarrow> labels \<Rightarrow> bool" where
  "label_changed old new \<longleftrightarrow> differs_from old new \<or> differs_from new old"

text \<open>The reader of JSON objects is an argument; what it reads goes over what is there.\<close>

definition split_once :: "string \<Rightarrow> (string \<times> string) option" where
  "split_once s =
     (case dropWhile (\<lambda>c. c \<noteq> CHR ''='') s of
        [] \<Rightarrow> None
      | _ # v \<Rightarrow> Some (takeWhile (\<lambda>c. c \<noteq> CHR ''='') s, v))"

definition is_object :: "string \<Rightarrow> bool" where
  "is_object s \<longleftrightarrow> is_prefix_of ''{'' s \<and> is_prefix_of ''}'' (rev s)"

fun parse_pairs :: "(string \<Rightarrow> string + labels) \<Rightarrow> labels \<Rightarrow> string list \<Rightarrow> string + labels" where
  "parse_pairs json m [] = Inr m"
| "parse_pairs json m (s # ss) =
     (if is_object s then
        (case json s of Inl e \<Rightarrow> Inl e | Inr kvs \<Rightarrow> parse_pairs json (foldl (\<lambda>m (k, v). AList.update k v m) m kvs) ss)
      else (case split_once s of
              None \<Rightarrow> Inl ''invalid label format''
            | Some (k, v) \<Rightarrow>
                if \<not> valid_handle k then Inl ''invalid label key format''
                else parse_pairs json (AList.update k v m) ss))"

definition parse_strings :: "(string \<Rightarrow> string + labels) \<Rightarrow> string list \<Rightarrow> string + labels option" where
  "parse_strings json ss =
     (if ss = [] then Inr None else (case parse_pairs json [] ss of Inl e \<Rightarrow> Inl e | Inr m \<Rightarrow> Inr (Some m)))"

definition resource_ids :: "label list \<Rightarrow> u64 list" where
  "resource_ids ls = map lb_resource ls"

definition filter_by_resource :: "label list \<Rightarrow> string \<Rightarrow> u64 \<Rightarrow> labels" where
  "filter_by_resource ls kind i =
     foldl (\<lambda>kv l. if kind = lb_kind l \<and> i = lb_resource l then AList.update (lb_name l) (lb_value l) kv else kv) [] ls"

definition search_labels ::
  "'e label_env_scheme \<Rightarrow> string \<Rightarrow> labels \<Rightarrow> u64 list \<Rightarrow> ('m label_db_scheme, u64 list) svc_op" where
  "search_labels env kind f base =
     (if f = [] then svc_give base
      else svc_then (query_labels env \<lparr>lf_kind = kind, lf_ids = base, lf_pairs = f, lf_limit = 0\<rparr>)
             (\<lambda>ls. svc_give (resource_ids ls)))"

record labeled =
  lr_kind :: string
  lr_id :: u64
  lr_labels :: labels

definition set_labels :: "labels \<Rightarrow> labels \<Rightarrow> labels" where
  "set_labels kv m = foldl (\<lambda>m (k, v). AList.update k v m) m kv"

fun mixed_kind :: "string \<Rightarrow> labeled list \<Rightarrow> bool" where
  "mixed_kind k [] = False"
| "mixed_kind k (r # rr) = (if k = [] then mixed_kind (lr_kind r) rr else if k \<noteq> lr_kind r then True else mixed_kind k rr)"

fun shared_kind :: "string \<Rightarrow> labeled list \<Rightarrow> string" where
  "shared_kind k [] = k"
| "shared_kind k (r # rr) = (if k = [] then shared_kind (lr_kind r) rr else shared_kind k rr)"

definition load_labels :: "'e label_env_scheme \<Rightarrow> labeled list \<Rightarrow> ('m label_db_scheme, labeled list) svc_op" where
  "load_labels env rr =
     (if rr = [] then svc_give []
      else if mixed_kind [] rr then svc_fail (SvcRaw ''expecting one label type'')
      else svc_then (query_labels env \<lparr>lf_kind = shared_kind [] rr, lf_ids = map lr_id rr, lf_pairs = [], lf_limit = 0\<rparr>)
             (\<lambda>ls. svc_give (map (\<lambda>r. r\<lparr>lr_labels := set_labels (filter_by_resource ls (lr_kind r) (lr_id r)) (lr_labels r)\<rparr>) rr)))"

definition label_of :: "string \<Rightarrow> u64 \<Rightarrow> string \<times> string \<Rightarrow> label" where
  "label_of kind i kv = \<lparr>lb_kind = kind, lb_resource = i, lb_name = fst kv, lb_value = snd kv\<rparr>"

fun each_label :: "(label \<Rightarrow> ('s, unit) svc_op) \<Rightarrow> string \<Rightarrow> u64 \<Rightarrow> labels \<Rightarrow> ('s, unit) svc_op" where
  "each_label f kind i [] = svc_give ()"
| "each_label f kind i (kv # kvs) = svc_then (f (label_of kind i kv)) (\<lambda>_. each_label f kind i kvs)"

definition create_labels :: "'e label_env_scheme \<Rightarrow> string \<Rightarrow> u64 \<Rightarrow> labels \<Rightarrow> ('m label_db_scheme, unit) svc_op" where
  "create_labels env = each_label (insert_label env)"

definition update_labels :: "'e label_env_scheme \<Rightarrow> string \<Rightarrow> u64 \<Rightarrow> labels \<Rightarrow> ('m label_db_scheme, unit) svc_op" where
  "update_labels env kind i kvs =
     svc_then (delete_extra_labels env kind i (map fst kvs)) (\<lambda>_. each_label (upsert_label env) kind i kvs)"

end
