(* ===== verification/LabelFacts.thy ===== *)
theory LabelFacts
  imports LabelModel
begin

text \<open>
  How operations on a store that answers run, and what labels are after they were changed: exactly
  those that were asked for, on the resource and nowhere else.
\<close>

section \<open>Running operations\<close>

named_theorems svc_run \<open>how operations run\<close>

lemma svc_give_run [svc_run]: "svc_give x st = (Inr x, st)"
  by (simp add: svc_give_def)

lemma svc_fail_run [svc_run]: "svc_fail e st = (Inl e, st)"
  by (simp add: svc_fail_def)

lemma svc_then_Inr [svc_run]: "m st = (Inr x, st') \<Longrightarrow> svc_then m f st = f x st'"
  by (simp add: svc_then_def)

lemma svc_then_Inl [svc_run]: "m st = (Inl e, st') \<Longrightarrow> svc_then m f st = (Inl e, st')"
  by (simp add: svc_then_def)

lemma svc_require_run [svc_run]: "svc_require b e st = (if b then Inr () else Inl e, st)"
  by (simp add: svc_require_def svc_give_def svc_fail_def)

lemma svc_success:
  "svc_then m f st = (Inr y, st') \<longleftrightarrow> (\<exists>x s. m st = (Inr x, s) \<and> f x s = (Inr y, st'))"
  by (auto simp: svc_then_def split: prod.splits sum.splits)

definition answers :: "'e label_env_scheme \<Rightarrow> bool" where
  "answers env \<longleftrightarrow> (\<forall>n. le_faults env n = None)"

lemma svc_call_run [svc_run]: "answers env \<Longrightarrow> svc_call env st = (Inr (), st\<lparr>ld_calls := Suc (ld_calls st)\<rparr>)"
  by (simp add: svc_call_def answers_def Let_def)

lemma svc_query_run [svc_run]:
  "answers env \<Longrightarrow> svc_query env q st = (Inr (q (st\<lparr>ld_calls := Suc (ld_calls st)\<rparr>)), st\<lparr>ld_calls := Suc (ld_calls st)\<rparr>)"
  by (simp add: svc_query_def svc_run)

lemma svc_write_run [svc_run]:
  "answers env \<Longrightarrow> svc_write env w st = (Inr (), w (st\<lparr>ld_calls := Suc (ld_calls st)\<rparr>))"
  by (simp add: svc_write_def svc_run)

section \<open>Labels as a map\<close>

lemma map_of_set_labels: "map_of (set_labels kv m) = map_of m ++ map_of (rev kv)"
  by (induction kv arbitrary: m) (auto simp: set_labels_def update_conv map_add_def split: option.splits)

lemma map_of_rev_distinct: "distinct (map fst xs) \<Longrightarrow> map_of (rev xs) = map_of xs"
  by (subst map_of_inject_set) (simp_all add: rev_map [symmetric])

definition own_pairs :: "label list \<Rightarrow> string \<Rightarrow> u64 \<Rightarrow> labels" where
  "own_pairs ls kind i = map (\<lambda>l. (lb_name l, lb_value l)) (filter (\<lambda>l. kind = lb_kind l \<and> i = lb_resource l) ls)"

lemma filter_by_resource_pairs: "filter_by_resource ls kind i = set_labels (own_pairs ls kind i) []"
proof -
  have "foldl (\<lambda>kv l. if kind = lb_kind l \<and> i = lb_resource l then AList.update (lb_name l) (lb_value l) kv else kv) m ls =
    set_labels (own_pairs ls kind i) m" for m
    by (induction ls arbitrary: m) (simp_all add: own_pairs_def set_labels_def)
  then show ?thesis by (simp add: filter_by_resource_def)
qed

definition unique_labels :: "label list \<Rightarrow> bool" where
  "unique_labels ls \<longleftrightarrow> sorted_wrt (\<lambda>l m. \<not> same_label l m) ls"

lemma same_label_sym: "same_label l m = same_label m l"
  by (auto simp: same_label_def)

lemma unique_labels_eq:
  assumes "unique_labels ls" and "l \<in> set ls" and "m \<in> set ls" and "same_label l m"
  shows "l = m"
  using assms unfolding unique_labels_def
  by (induction ls) (auto simp: same_label_sym)

lemma unique_pairs_distinct: "unique_labels ls \<Longrightarrow> distinct (map fst (own_pairs ls kind i))"
  unfolding unique_labels_def
  by (induction ls) (auto simp: own_pairs_def same_label_def)

lemma label_eta [simp]:
  "\<lparr>lb_kind = lb_kind x, lb_resource = lb_resource x, lb_name = lb_name x, lb_value = lb_value x\<rparr> = x" for x :: label
  by (cases x) simp

text \<open>What a resource has is what rows of it there are.\<close>

lemma loaded_iff:
  assumes "unique_labels ls"
  shows "map_of (set_labels (filter_by_resource ls kind i) []) n = Some v \<longleftrightarrow>
    \<lparr>lb_kind = kind, lb_resource = i, lb_name = n, lb_value = v\<rparr> \<in> set ls"
proof -
  have d: "distinct (map fst (own_pairs ls kind i))" using assms by (rule unique_pairs_distinct)
  have filt: "map_of (filter_by_resource ls kind i) = map_of (own_pairs ls kind i)"
    unfolding filter_by_resource_pairs using d by (simp add: map_of_set_labels map_of_rev_distinct [OF d])
  have "distinct (map fst m) \<Longrightarrow> distinct (map fst (set_labels kv m))" for kv m :: labels
    by (induction kv arbitrary: m) (auto simp: set_labels_def distinct_update)
  then have "distinct (map fst (filter_by_resource ls kind i))" by (simp add: filter_by_resource_pairs)
  then have "map_of (set_labels (filter_by_resource ls kind i) []) n = map_of (own_pairs ls kind i) n"
    by (simp add: map_of_set_labels map_of_rev_distinct filt)
  also have "map_of (own_pairs ls kind i) n = Some v \<longleftrightarrow> (n, v) \<in> set (own_pairs ls kind i)"
    using d by simp
  also have "\<dots> \<longleftrightarrow> \<lparr>lb_kind = kind, lb_resource = i, lb_name = n, lb_value = v\<rparr> \<in> set ls"
    by (auto simp: own_pairs_def intro!: image_eqI [where x = "\<lparr>lb_kind = kind, lb_resource = i, lb_name = n, lb_value = v\<rparr>"])
  finally show ?thesis .
qed

section \<open>Changing labels\<close>

lemma same_label_value [simp]:
  "same_label l (m\<lparr>lb_value := v\<rparr>) = same_label l m" "same_label (m\<lparr>lb_value := v\<rparr>) l = same_label m l"
  by (simp_all add: same_label_def)

lemma same_label_trans: "same_label l m \<Longrightarrow> same_label m n \<Longrightarrow> same_label l n"
  by (simp add: same_label_def)

lemma put_label_unique: "unique_labels ls \<Longrightarrow> unique_labels (put_label l ls)"
proof -
  have relabel: "unique_labels ls \<Longrightarrow> unique_labels (map (\<lambda>m. if same_label l m then m\<lparr>lb_value := lb_value l\<rparr> else m) ls)" for ls
    by (induction ls) (auto simp: unique_labels_def)
  assume u: "unique_labels ls"
  show ?thesis
  proof (cases "list_ex (same_label l) ls")
    case True
    then show ?thesis using u by (simp add: put_label_def relabel)
  next
    case False
    with u show ?thesis
      by (auto simp: put_label_def list_ex_iff unique_labels_def sorted_wrt_append same_label_sym)
  qed
qed

text \<open>Where the row there is has the same name, not only in lower case.\<close>

lemma put_label_set:
  assumes "\<And>m. m \<in> set ls \<Longrightarrow> same_label l m \<Longrightarrow> lb_name m = lb_name l"
  shows "set (put_label l ls) = insert l {m \<in> set ls. \<not> same_label l m}"
proof -
  have "m\<lparr>lb_value := lb_value l\<rparr> = l" if "m \<in> set ls" "same_label l m" for m
    using assms [OF that] that(2) by (simp add: same_label_def)
  then show ?thesis
    by (auto simp: put_label_def list_ex_iff image_iff)
qed

definition put_labels :: "string \<Rightarrow> u64 \<Rightarrow> labels \<Rightarrow> label list \<Rightarrow> label list" where
  "put_labels kind i kvs ls = foldl (\<lambda>ls kv. put_label (label_of kind i kv) ls) ls kvs"

lemma label_of_same:
  "same_label (label_of kind i kv) (label_of kind i kv') \<longleftrightarrow> to_lower (fst kv) = to_lower (fst kv')"
  by (simp add: same_label_def label_of_def)

definition lower_names :: "labels \<Rightarrow> string list" where
  "lower_names kvs = map (\<lambda>kv. to_lower (fst kv)) kvs"

lemma put_labels_set:
  assumes "unique_labels ls" and "distinct (lower_names kvs)"
    and "\<And>m kv. m \<in> set ls \<Longrightarrow> kv \<in> set kvs \<Longrightarrow> same_label (label_of kind i kv) m \<Longrightarrow> lb_name m = fst kv"
  shows "unique_labels (put_labels kind i kvs ls) \<and>
    set (put_labels kind i kvs ls) =
      label_of kind i ` set kvs \<union> {m \<in> set ls. \<forall>kv \<in> set kvs. \<not> same_label (label_of kind i kv) m}"
  using assms
proof (induction kvs arbitrary: ls)
  case Nil
  then show ?case by (simp add: put_labels_def)
next
  case (Cons kv kvs)
  let ?l = "label_of kind i kv"
  have set: "set (put_label ?l ls) = insert ?l {m \<in> set ls. \<not> same_label ?l m}"
    using Cons.prems(3) by (intro put_label_set) (auto simp: label_of_def)
  have apart: "\<not> same_label (label_of kind i kv') ?l" if "kv' \<in> set kvs" for kv'
    using Cons.prems(2) that by (auto simp: lower_names_def label_of_same image_iff)
  have IH: "unique_labels (put_labels kind i kvs (put_label ?l ls)) \<and>
    set (put_labels kind i kvs (put_label ?l ls)) = label_of kind i ` set kvs \<union>
      {m \<in> set (put_label ?l ls). \<forall>kv' \<in> set kvs. \<not> same_label (label_of kind i kv') m}"
  proof (rule Cons.IH)
    show "unique_labels (put_label ?l ls)" using Cons.prems(1) by (rule put_label_unique)
    show "distinct (lower_names kvs)" using Cons.prems(2) by (simp add: lower_names_def)
    show "lb_name m = fst kv'" if "m \<in> set (put_label ?l ls)" "kv' \<in> set kvs" "same_label (label_of kind i kv') m" for m kv'
      using that apart [OF that(2)] Cons.prems(3) [of m kv'] by (auto simp: set)
  qed
  have "put_labels kind i (kv # kvs) ls = put_labels kind i kvs (put_label ?l ls)" by (simp add: put_labels_def)
  with IH show ?case using apart by (auto simp: set)
qed

lemma each_upsert_run:
  "answers env \<Longrightarrow> each_label (upsert_label env) kind i kvs st =
     (Inr (), st\<lparr>ld_labels := put_labels kind i kvs (ld_labels st), ld_calls := ld_calls st + length kvs\<rparr>)"
  by (induction kvs arbitrary: st) (simp_all add: svc_run upsert_label_def put_labels_def)

lemma delete_extra_run:
  "answers env \<Longrightarrow> le_empty env = None \<or> names \<noteq> [] \<Longrightarrow> delete_extra_labels env kind i names st =
     (Inr (), st\<lparr>ld_labels := filter (keeps_label kind i names) (ld_labels st), ld_calls := Suc (ld_calls st)\<rparr>)"
  by (auto simp: delete_extra_labels_def svc_run split: list.split option.split)

lemma unique_labels_filter: "unique_labels ls \<Longrightarrow> unique_labels (filter p ls)"
  by (simp add: unique_labels_def sorted_wrt_filter)

text \<open>What a change of the labels of a resource leaves in the table.\<close>

lemma update_labels_run:
  assumes "answers env" and "le_empty env = None \<or> kvs \<noteq> []"
    and "unique_labels (ld_labels st)" and "distinct (lower_names kvs)"
  shows "\<exists>ls. update_labels env kind i kvs st = (Inr (), st\<lparr>ld_labels := ls, ld_calls := ld_calls st + 1 + length kvs\<rparr>) \<and>
    unique_labels ls \<and>
    set ls = label_of kind i ` set kvs \<union> {m \<in> set (ld_labels st). \<not> (lb_kind m = kind \<and> lb_resource m = i)}"
proof -
  let ?ls = "filter (keeps_label kind i (map fst kvs)) (ld_labels st)"
  have exact: "lb_name m = fst kv" if "m \<in> set ?ls" "kv \<in> set kvs" "same_label (label_of kind i kv) m" for m kv
  proof -
    from that(1,3) have "lb_name m \<in> fst ` set kvs" and low: "to_lower (fst kv) = to_lower (lb_name m)"
      by (auto simp: keeps_label_def same_label_def label_of_def)
    then obtain kv' where kv': "kv' \<in> set kvs" "lb_name m = fst kv'" by auto
    then have "kv' = kv" using assms(4) that(2) low by (auto simp: lower_names_def distinct_map dest: inj_onD)
    with kv' show ?thesis by simp
  qed
  from put_labels_set [OF unique_labels_filter [OF assms(3)] assms(4) exact]
  have put: "unique_labels (put_labels kind i kvs ?ls)"
    "set (put_labels kind i kvs ?ls) = label_of kind i ` set kvs \<union>
      {m \<in> set ?ls. \<forall>kv \<in> set kvs. \<not> same_label (label_of kind i kv) m}" by blast+
  have "{m \<in> set ?ls. \<forall>kv \<in> set kvs. \<not> same_label (label_of kind i kv) m} =
    {m \<in> set (ld_labels st). \<not> (lb_kind m = kind \<and> lb_resource m = i)}"
    by (auto simp: keeps_label_def same_label_def label_of_def)
  with put show ?thesis
    using assms(1,2) by (auto simp: update_labels_def svc_run delete_extra_run each_upsert_run)
qed

lemma query_all_labels:
  "answers env \<Longrightarrow> query_labels env \<lparr>lf_kind = kind, lf_ids = ids, lf_pairs = [], lf_limit = 0\<rparr> st =
     (Inr (filter (label_passes \<lparr>lf_kind = kind, lf_ids = ids, lf_pairs = [], lf_limit = 0\<rparr>) (ld_labels st)),
      st\<lparr>ld_calls := Suc (ld_calls st)\<rparr>)"
  by (simp add: query_labels_def svc_run)

section \<open>Properties\<close>

lemma label_eq_iff: "l = m \<longleftrightarrow> lb_kind l = lb_kind m \<and> lb_resource l = lb_resource m \<and> lb_name l = lb_name m \<and> lb_value l = lb_value m"
  for l m :: label
  by (cases l; cases m) simp

lemma map_eqI:
  assumes "\<And>k v. m k = Some v \<longleftrightarrow> m' k = Some v"
  shows "m = m'"
proof
  show "m k = m' k" for k
    using assms [of k "the (m k)"] assms [of k "the (m' k)"] by (cases "m k"; cases "m' k") simp_all
qed

lemma load_one:
  assumes "answers env" and "0 < length (go_trim kind)" and "unique_labels (ld_labels st)"
  shows "\<exists>m. load_labels env [\<lparr>lr_kind = kind, lr_id = i, lr_labels = []\<rparr>] st =
      (Inr [\<lparr>lr_kind = kind, lr_id = i, lr_labels = m\<rparr>], st\<lparr>ld_calls := Suc (ld_calls st)\<rparr>) \<and>
    (\<forall>n v. map_of m n = Some v \<longleftrightarrow>
      \<lparr>lb_kind = kind, lb_resource = i, lb_name = n, lb_value = v\<rparr> \<in> set (ld_labels st))"
proof -
  let ?f = "\<lparr>lf_kind = kind, lf_ids = [i], lf_pairs = [], lf_limit = 0\<rparr>"
  have "unique_labels (filter (label_passes ?f) (ld_labels st))" using assms(3) by (rule unique_labels_filter)
  note own = loaded_iff [OF this, of kind i]
  with assms(1) show ?thesis
    by (auto simp: load_labels_def svc_run query_all_labels label_passes_def)
qed

text \<open>
  C39: Changing the labels of a resource and loading them again gives exactly the labels asked for: those
  it had and that were not asked for are gone. The rows of all other resources and kinds stay. The names
  asked for differ in lower case, and the set is not empty where the database does not take a test
  against an empty list.
\<close>

theorem changed_labels_load:
  assumes "answers env" and "le_empty env = None \<or> kvs \<noteq> []" and "0 < length (go_trim kind)"
    and "unique_labels (ld_labels st)" and "distinct (lower_names kvs)"
  shows "\<exists>st' m st''. update_labels env kind i kvs st = (Inr (), st') \<and>
    load_labels env [\<lparr>lr_kind = kind, lr_id = i, lr_labels = []\<rparr>] st' =
      (Inr [\<lparr>lr_kind = kind, lr_id = i, lr_labels = m\<rparr>], st'') \<and>
    map_of m = map_of kvs \<and> unique_labels (ld_labels st') \<and>
    (\<forall>l. \<not> (lb_kind l = kind \<and> lb_resource l = i) \<longrightarrow> (l \<in> set (ld_labels st') \<longleftrightarrow> l \<in> set (ld_labels st)))"
proof -
  from update_labels_run [OF assms(1,2,4,5), of kind i] obtain ls where
    run: "update_labels env kind i kvs st = (Inr (), st\<lparr>ld_labels := ls, ld_calls := ld_calls st + 1 + length kvs\<rparr>)"
    and u: "unique_labels ls"
    and rows: "set ls = label_of kind i ` set kvs \<union> {m \<in> set (ld_labels st). \<not> (lb_kind m = kind \<and> lb_resource m = i)}"
    by blast
  let ?st = "st\<lparr>ld_labels := ls, ld_calls := ld_calls st + 1 + length kvs\<rparr>"
  from load_one [of env kind ?st i, OF assms(1,3)] u obtain m where
    load: "load_labels env [\<lparr>lr_kind = kind, lr_id = i, lr_labels = []\<rparr>] ?st =
      (Inr [\<lparr>lr_kind = kind, lr_id = i, lr_labels = m\<rparr>], ?st\<lparr>ld_calls := Suc (ld_calls ?st)\<rparr>)"
    and m: "\<And>n v. map_of m n = Some v \<longleftrightarrow> \<lparr>lb_kind = kind, lb_resource = i, lb_name = n, lb_value = v\<rparr> \<in> set ls"
    by auto
  have "distinct (map fst kvs)"
    using assms(5) by (auto simp: lower_names_def distinct_map inj_on_def)
  then have "map_of m n = Some v \<longleftrightarrow> map_of kvs n = Some v" for n v
  proof -
    have "map_of m n = Some v \<longleftrightarrow> label_of kind i (n, v) \<in> set ls" by (simp add: m label_of_def)
    also have "\<dots> \<longleftrightarrow> label_of kind i (n, v) \<in> label_of kind i ` set kvs" by (auto simp: rows label_of_def)
    also have "\<dots> \<longleftrightarrow> (n, v) \<in> set kvs" by (rule inj_image_mem_iff) (auto simp: inj_def label_of_def)
    finally show ?thesis using \<open>distinct (map fst kvs)\<close> by simp
  qed
  then have "map_of m = map_of kvs" by (rule map_eqI)
  moreover have "l \<in> set ls \<longleftrightarrow> l \<in> set (ld_labels st)" if "\<not> (lb_kind l = kind \<and> lb_resource l = i)" for l
    using that by (auto simp: rows label_of_def)
  ultimately show ?thesis using run load u by auto
qed

definition demo_label_env :: label_env where
  "demo_label_env = \<lparr>le_faults = (\<lambda>_. None), le_empty = Some ''syntax error''\<rparr>"

definition demo_label_db :: label_db where
  "demo_label_db = \<lparr>ld_labels = [\<lparr>lb_kind = ''role'', lb_resource = 1, lb_name = ''old'', lb_value = ''x''\<rparr>,
     \<lparr>lb_kind = ''role'', lb_resource = 2, lb_name = ''old'', lb_value = ''y''\<rparr>], ld_calls = 0\<rparr>"

text \<open>One label of two resources is replaced on one of them.\<close>

lemma changed_labels_load_witness:
  "\<exists>st' m st''. update_labels demo_label_env ''role'' 1 [(''new'', ''z'')] demo_label_db = (Inr (), st') \<and>
    load_labels demo_label_env [\<lparr>lr_kind = ''role'', lr_id = 1, lr_labels = []\<rparr>] st' =
      (Inr [\<lparr>lr_kind = ''role'', lr_id = 1, lr_labels = m\<rparr>], st'') \<and>
    map_of m = map_of [(''new'', ''z'')] \<and> unique_labels (ld_labels st') \<and>
    (\<forall>l. \<not> (lb_kind l = ''role'' \<and> lb_resource l = 1) \<longrightarrow>
      (l \<in> set (ld_labels st') \<longleftrightarrow> l \<in> set (ld_labels demo_label_db)))"
proof (rule changed_labels_load)
  show "0 < length (go_trim ''role'')" by code_simp
qed (simp_all add: answers_def demo_label_env_def demo_label_db_def unique_labels_def same_label_def lower_names_def)

lemma differs_fromI: "map_of old k = Some v \<Longrightarrow> map_of new k \<noteq> Some v \<Longrightarrow> differs_from old new"
  unfolding differs_from_def list_ex_iff by (rule bexI [OF _ map_of_SomeD]) (auto split: option.split)

text \<open>The comparison of labels tells apart exactly different maps.\<close>

theorem label_changed_iff:
  assumes "distinct (map fst old)" and "distinct (map fst new)"
  shows "label_changed old new \<longleftrightarrow> map_of old \<noteq> map_of new"
proof
  assume "label_changed old new"
  then obtain k v where "(k, v) \<in> set old \<and> map_of new k \<noteq> Some v \<or> (k, v) \<in> set new \<and> map_of old k \<noteq> Some v"
    by (auto simp: label_changed_def differs_from_def list_ex_iff split: option.splits)
  then show "map_of old \<noteq> map_of new" using assms by (metis map_of_is_SomeI)
next
  assume "map_of old \<noteq> map_of new"
  then obtain k where k: "map_of old k \<noteq> map_of new k" by blast
  show "label_changed old new"
  proof (cases "map_of old k")
    case None
    with k obtain v where "map_of new k = Some v" by (cases "map_of new k") auto
    with None differs_fromI [of new k v old] show ?thesis by (simp add: label_changed_def)
  next
    case (Some v)
    with k differs_fromI [of old k v new] show ?thesis by (auto simp: label_changed_def)
  qed
qed

end
