(* ===== verification/RoleService.thy ===== *)
theory RoleService
  imports LabelFacts RbacRule Decimal
begin

text \<open>
  \<^verbatim>\<open>system/service/role.go\<close>: roles, their members, and the roles the access control is given. The rows of
  roles and members and the labels are the store; the events of changes are counted until their
  handler, which hands the roles to the access control, has run.

  Handlers of events that come before a change give an error or the changed role. The sets of system,
  bypass, authenticated and anonymous roles are those \<open>initRoles\<close> settles once. Audit records are
  left out. Rows carry no labels.
\<close>

section \<open>State and environment\<close>

record role_context =
  rc_resources :: "string list"
  rc_expr :: string

record role_meta =
  rm_description :: string
  rm_context :: "role_context option"

record srole =
  sr_id :: u64
  sr_name :: string
  sr_handle :: string
  sr_meta :: "role_meta option"
  sr_labels :: labels
  sr_created :: int
  sr_updated :: "int option"
  sr_archived :: "int option"
  sr_deleted :: "int option"

record 'd role_state = label_db +
  rs_roles :: "srole list"
  rs_members :: "(u64 \<times> u64) list"
  rs_ids :: nat
  rs_acl :: "'d role list"
  rs_pending :: nat

record 'd role_env = label_env +
  re_system :: "string bool_map"
  re_closed :: "string bool_map"
  re_bypass :: "string bool_map"
  re_authenticated :: "string bool_map"
  re_anonymous :: "string bool_map"
  re_now :: int
  re_id :: "nat \<Rightarrow> u64"
  re_before :: "string \<Rightarrow> srole \<Rightarrow> srole option \<Rightarrow> string option \<times> srole"
  re_member :: "string \<Rightarrow> u64 \<Rightarrow> u64 \<Rightarrow> string option"
  re_user :: "u64 \<Rightarrow> svc_error + u64"
  re_can_create :: bool
  re_can_read :: "srole \<Rightarrow> bool"
  re_can_update :: "srole \<Rightarrow> bool"
  re_can_delete :: "srole \<Rightarrow> bool"
  re_can_manage :: "srole \<Rightarrow> bool"
  re_parse :: "string \<Rightarrow> string + ('d rbac_scope \<Rightarrow> string + bool)"

type_synonym ('d, 'a) role_op = "('d role_state, 'a) svc_op"

definition handle_set :: "string list \<Rightarrow> string bool_map" where
  "handle_set hh = AList.delete [] (to_bool_map hh)"

definition is_system :: "'d role_env \<Rightarrow> srole \<Rightarrow> bool" where
  "is_system env r \<longleftrightarrow> 0 < length (sr_handle r) \<and> bool_at (re_system env) (sr_handle r)"

definition is_closed :: "'d role_env \<Rightarrow> srole \<Rightarrow> bool" where
  "is_closed env r \<longleftrightarrow> 0 < length (sr_handle r) \<and> bool_at (re_closed env) (sr_handle r)"

definition role_expr :: "srole \<Rightarrow> string" where
  "role_expr r =
     (case sr_meta r of None \<Rightarrow> [] | Some m \<Rightarrow> (case rm_context m of None \<Rightarrow> [] | Some c \<Rightarrow> rc_expr c))"

definition is_contextual :: "srole \<Rightarrow> bool" where
  "is_contextual r \<longleftrightarrow> 0 < length (role_expr r)"

section \<open>The store\<close>

definition lookup_role :: "'d role_env \<Rightarrow> (srole \<Rightarrow> bool) \<Rightarrow> ('d, srole) role_op" where
  "lookup_role env p =
     svc_then (svc_query env (\<lambda>st. find p (rs_roles st)))
       (\<lambda>r. case r of None \<Rightarrow> svc_fail SvcNotFound | Some r \<Rightarrow> svc_give (r\<lparr>sr_labels := []\<rparr>))"

definition role_by_id :: "'d role_env \<Rightarrow> u64 \<Rightarrow> ('d, srole) role_op" where
  "role_by_id env i = lookup_role env (\<lambda>r. sr_id r = i)"

definition role_by_handle :: "'d role_env \<Rightarrow> string \<Rightarrow> ('d, srole) role_op" where
  "role_by_handle env h = lookup_role env (\<lambda>r. to_lower (sr_handle r) = to_lower h \<and> sr_deleted r = None)"

definition role_by_name :: "'d role_env \<Rightarrow> string \<Rightarrow> ('d, srole) role_op" where
  "role_by_name env n = lookup_role env (\<lambda>r. sr_name r = n \<and> sr_deleted r = None)"

definition check_role_unique :: "(string \<Rightarrow> ('d, srole) role_op) \<Rightarrow> string \<Rightarrow> srole \<Rightarrow> ('d, unit) role_op" where
  "check_role_unique lookup s r =
     (if s = [] then svc_give ()
      else if sr_deleted r \<noteq> None then svc_give ()
      else svc_then (svc_outcome (lookup s)) (\<lambda>res. case res of
             Inr ex \<Rightarrow> if sr_id ex \<noteq> sr_id r then svc_fail SvcNotUnique else svc_give ()
           | Inl e \<Rightarrow> if e = SvcNotFound then svc_give () else svc_fail e))"

definition check_role_constraints :: "'d role_env \<Rightarrow> srole \<Rightarrow> ('d, unit) role_op" where
  "check_role_constraints env r =
     svc_then (check_role_unique (role_by_handle env) (sr_handle r) r) (\<lambda>_.
     check_role_unique (role_by_name env) (sr_name r) r)"

definition insert_role :: "'d role_env \<Rightarrow> srole \<Rightarrow> ('d, unit) role_op" where
  "insert_role env r =
     svc_then (check_role_constraints env r) (\<lambda>_.
     svc_insert env (\<lambda>st. list_ex (\<lambda>s. sr_id s = sr_id r) (rs_roles st))
       (\<lambda>st. st\<lparr>rs_roles := rs_roles st @ [r\<lparr>sr_labels := []\<rparr>]\<rparr>))"

definition put_role :: "srole \<Rightarrow> srole list \<Rightarrow> srole list" where
  "put_role r = map (\<lambda>s. if sr_id s = sr_id r then r\<lparr>sr_labels := []\<rparr> else s)"

definition update_role :: "'d role_env \<Rightarrow> srole \<Rightarrow> ('d, unit) role_op" where
  "update_role env r =
     svc_then (check_role_constraints env r) (\<lambda>_.
     svc_write env (\<lambda>st. st\<lparr>rs_roles := put_role r (rs_roles st)\<rparr>))"

text \<open>Roles that are neither deleted nor archived, by identifier, of a member or all.\<close>

definition live_roles :: "srole list \<Rightarrow> srole list" where
  "live_roles rr = sort_key sr_id (filter (\<lambda>r. sr_deleted r = None \<and> sr_archived r = None) rr)"

definition roles_for_user :: "'d role_env \<Rightarrow> u64 \<Rightarrow> ('d, u64 list) role_op" where
  "roles_for_user env i =
     svc_query env (\<lambda>st. map sr_id (filter (\<lambda>r. 0 < i \<longrightarrow> List.member (rs_members st) (sr_id r, i)) (live_roles (rs_roles st))))"

definition next_role_id :: "'d role_env \<Rightarrow> ('d, u64) role_op" where
  "next_role_id env st = (Inr (re_id env (rs_ids st)), st\<lparr>rs_ids := Suc (rs_ids st)\<rparr>)"

definition dispatch_change :: "('d, unit) role_op" where
  "dispatch_change st = (Inr (), st\<lparr>rs_pending := Suc (rs_pending st)\<rparr>)"

definition run_before :: "'d role_env \<Rightarrow> string \<Rightarrow> srole \<Rightarrow> srole option \<Rightarrow> ('d, srole) role_op" where
  "run_before env ev new old =
     (case re_before env ev new old of (Some e, r) \<Rightarrow> svc_fail (SvcRaw e) | (None, r) \<Rightarrow> svc_give r)"

section \<open>Finding\<close>

definition role_label_kind :: string where
  "role_label_kind = ''role''"

definition proc_role :: "'d role_env \<Rightarrow> ('d, srole) role_op \<Rightarrow> ('d, srole) role_op" where
  "proc_role env m =
     svc_then (svc_outcome m) (\<lambda>res. case res of
       Inl e \<Rightarrow> svc_fail (if e = SvcNotFound then SvcMissing else e)
     | Inr r \<Rightarrow>
         svc_then (load_labels env [\<lparr>lr_kind = role_label_kind, lr_id = sr_id r, lr_labels = sr_labels r\<rparr>])
           (\<lambda>ll. svc_give (case ll of [l] \<Rightarrow> r\<lparr>sr_labels := lr_labels l\<rparr> | _ \<Rightarrow> r)))"

definition find_role_by_id :: "'d role_env \<Rightarrow> u64 \<Rightarrow> ('d, srole) role_op" where
  "find_role_by_id env i = svc_then (svc_require (i \<noteq> 0) SvcInvalidID) (\<lambda>_. proc_role env (role_by_id env i))"

text \<open>The role that is found is bound to a variable of the inner function, so that none is returned.\<close>

definition find_role_by_name :: "'d role_env \<Rightarrow> string \<Rightarrow> ('d, srole option) role_op" where
  "find_role_by_name env n = svc_then (proc_role env (role_by_name env n)) (\<lambda>_. svc_give None)"

definition find_role_by_handle :: "'d role_env \<Rightarrow> string \<Rightarrow> ('d, srole option) role_op" where
  "find_role_by_handle env h = svc_then (proc_role env (role_by_handle env h)) (\<lambda>r. svc_give (Some r))"

datatype role_ref = IdNumber u64 | IdText string | IdOther

text \<open>The error of the lookup by handle is that of the service, which is not of the kind of missing things.\<close>

definition find_role_by_any :: "'d role_env \<Rightarrow> role_ref \<Rightarrow> ('d, srole option) role_op" where
  "find_role_by_any env ident =
     (case ident of
        IdNumber i \<Rightarrow> svc_then (find_role_by_id env i) (\<lambda>r. svc_give (Some r))
      | IdText s \<Rightarrow>
          if 0 < uint_value s then svc_then (find_role_by_id env (uint_value s)) (\<lambda>r. svc_give (Some r))
          else svc_then (svc_outcome (find_role_by_handle env s)) (\<lambda>res. case res of
                 Inr (Some r) \<Rightarrow> if sr_id r = 0 then find_role_by_name env s else svc_give (Some r)
               | Inr None \<Rightarrow> svc_give None
               | Inl e \<Rightarrow> if e = SvcNotFound then find_role_by_name env s else svc_fail e)
      | IdOther \<Rightarrow> svc_fail SvcInvalidID)"

section \<open>Changing\<close>

definition validate_context :: "'d role_env \<Rightarrow> srole \<Rightarrow> ('d, unit) role_op" where
  "validate_context env r =
     (if go_trim (role_expr r) = [] then svc_give ()
      else (case re_parse env (role_expr r) of Inl e \<Rightarrow> svc_fail (SvcRaw e) | Inr f \<Rightarrow> svc_give ()))"

text \<open>Failures of the store are taken for no role.\<close>

definition taken_by_other :: "svc_error + srole \<Rightarrow> srole \<Rightarrow> bool" where
  "taken_by_other res r \<longleftrightarrow> (case res of Inl e \<Rightarrow> False | Inr ex \<Rightarrow> 0 < sr_id ex \<and> sr_id ex \<noteq> sr_id r)"

definition unique_role_check :: "'d role_env \<Rightarrow> srole \<Rightarrow> ('d, unit) role_op" where
  "unique_role_check env r =
     svc_then (if sr_handle r = [] then svc_give ()
               else svc_then (svc_outcome (role_by_handle env (sr_handle r)))
                      (\<lambda>res. svc_require (\<not> taken_by_other res r) SvcHandleTaken)) (\<lambda>_.
     if sr_name r = [] then svc_give ()
     else svc_then (svc_outcome (role_by_name env (sr_name r)))
            (\<lambda>res. svc_require (\<not> taken_by_other res r) SvcNameTaken))"

definition create_srole :: "'d role_env \<Rightarrow> srole \<Rightarrow> ('d, srole) role_op" where
  "create_srole env new =
     svc_then (svc_require (valid_handle (sr_handle new)) SvcInvalidHandle) (\<lambda>_.
     svc_then (svc_require (re_can_create env) (SvcNotAllowed ''create'')) (\<lambda>_.
     svc_then (run_before env ''beforeCreate'' new None) (\<lambda>new.
     svc_then (validate_context env new) (\<lambda>_.
     svc_then (unique_role_check env new) (\<lambda>_.
     svc_then (next_role_id env) (\<lambda>i.
     let r = new\<lparr>sr_id := i, sr_created := re_now env\<rparr> in
     svc_then (insert_role env r) (\<lambda>_.
     svc_then (create_labels env role_label_kind (sr_id r) (sr_labels r)) (\<lambda>_.
     svc_then dispatch_change (\<lambda>_. svc_give r)))))))))"

text \<open>The role that is read has no labels, as they are not loaded here.\<close>

definition store_change :: "'d role_env \<Rightarrow> srole \<Rightarrow> srole \<Rightarrow> ('d, srole) role_op" where
  "store_change env old upd =
     svc_then (validate_context env upd) (\<lambda>_.
     svc_then (unique_role_check env upd) (\<lambda>_.
     let r = old\<lparr>sr_handle := sr_handle upd, sr_name := sr_name upd, sr_meta := sr_meta upd, sr_updated := Some (re_now env)\<rparr> in
     svc_then (update_role env r) (\<lambda>_.
     svc_then (if label_changed (sr_labels r) (sr_labels upd)
               then svc_then (update_labels env role_label_kind (sr_id upd) (sr_labels upd)) (\<lambda>_. svc_give (r\<lparr>sr_labels := sr_labels upd\<rparr>))
               else svc_give r) (\<lambda>r.
     svc_then dispatch_change (\<lambda>_. svc_give r)))))"

definition change_srole :: "'d role_env \<Rightarrow> srole \<Rightarrow> ('d, srole) role_op" where
  "change_srole env upd =
     svc_then (svc_require (sr_id upd \<noteq> 0) SvcInvalidID) (\<lambda>_.
     svc_then (svc_require (valid_handle (sr_handle upd)) SvcInvalidHandle) (\<lambda>_.
     svc_then (svc_require (re_can_update env upd) (SvcNotAllowed ''update'')) (\<lambda>_.
     svc_then (role_by_id env (sr_id upd)) (\<lambda>r.
     if is_system env r then
       (if sr_handle r = sr_handle upd \<and> sr_name r = sr_name upd then svc_give r else svc_fail (SvcNotAllowed ''update''))
     else svc_then (run_before env ''beforeUpdate'' upd (Some r)) (\<lambda>upd. store_change env r upd)))))"

definition delete_srole :: "'d role_env \<Rightarrow> u64 \<Rightarrow> ('d, unit) role_op" where
  "delete_srole env i =
     svc_then (find_role_by_id env i) (\<lambda>r.
     svc_then (svc_require (\<not> is_system env r) (SvcNotAllowed ''delete'')) (\<lambda>_.
     svc_then (svc_require (re_can_delete env r) (SvcNotAllowed ''delete'')) (\<lambda>_.
     svc_then (run_before env ''beforeDelete'' r (Some r)) (\<lambda>_.
     svc_then (update_role env (r\<lparr>sr_deleted := Some (re_now env)\<rparr>)) (\<lambda>_. dispatch_change)))))"

definition undelete_srole :: "'d role_env \<Rightarrow> u64 \<Rightarrow> ('d, unit) role_op" where
  "undelete_srole env i =
     svc_then (find_role_by_id env i) (\<lambda>r.
     svc_then (svc_require (\<not> is_system env r) (SvcNotAllowed ''undelete'')) (\<lambda>_.
     svc_then (svc_require (re_can_delete env r) (SvcNotAllowed ''delete'')) (\<lambda>_.
     update_role env (r\<lparr>sr_deleted := None\<rparr>))))"

definition archive_srole :: "'d role_env \<Rightarrow> u64 \<Rightarrow> ('d, unit) role_op" where
  "archive_srole env i =
     svc_then (find_role_by_id env i) (\<lambda>r.
     svc_then (svc_require (\<not> is_system env r) (SvcNotAllowed ''archive'')) (\<lambda>_.
     svc_then (run_before env ''beforeUpdate'' r (Some r)) (\<lambda>upd.
     svc_then (svc_require (re_can_update env upd) (SvcNotAllowed ''archive'')) (\<lambda>_.
     svc_then (update_role env (upd\<lparr>sr_archived := Some (re_now env)\<rparr>)) (\<lambda>_. dispatch_change)))))"

text \<open>The time is cleared in the role that was read, the copy is stored.\<close>

definition unarchive_srole :: "'d role_env \<Rightarrow> u64 \<Rightarrow> ('d, unit) role_op" where
  "unarchive_srole env i =
     svc_then (find_role_by_id env i) (\<lambda>r.
     svc_then (svc_require (\<not> is_system env r) (SvcNotAllowed ''unarchive'')) (\<lambda>_.
     svc_then (run_before env ''beforeUpdate'' r (Some r)) (\<lambda>upd.
     svc_then (svc_require (re_can_delete env upd) (SvcNotAllowed ''undelete'')) (\<lambda>_.
     svc_then (update_role env upd) (\<lambda>_. dispatch_change)))))"

section \<open>Members\<close>

definition search_members :: "'d role_env \<Rightarrow> u64 \<Rightarrow> u64 \<Rightarrow> ('d, (u64 \<times> u64) list) role_op" where
  "search_members env role user =
     svc_query env (\<lambda>st. filter (\<lambda>(r, u). (0 < role \<longrightarrow> r = role) \<and> (0 < user \<longrightarrow> u = user)) (rs_members st))"

definition membership :: "'d role_env \<Rightarrow> u64 \<Rightarrow> ('d, (u64 \<times> u64) list) role_op" where
  "membership env user = search_members env 0 user"

definition member_list :: "'d role_env \<Rightarrow> u64 \<Rightarrow> ('d, (u64 \<times> u64) list) role_op" where
  "member_list env i =
     svc_then (svc_require (i \<noteq> 0) SvcInvalidID) (\<lambda>_.
     svc_then (find_role_by_id env i) (\<lambda>r.
     svc_then (svc_require (\<not> (is_closed env r \<or> is_contextual r)) (SvcNotAllowed ''manage members'')) (\<lambda>_.
     svc_then (svc_require (re_can_read env r) (SvcNotAllowed ''read'')) (\<lambda>_.
     search_members env i 0))))"

definition guarded_member ::
  "'d role_env \<Rightarrow> string \<Rightarrow> u64 \<Rightarrow> u64 \<Rightarrow> (u64 \<Rightarrow> u64 \<Rightarrow> ('d, unit) role_op) \<Rightarrow> ('d, unit) role_op" where
  "guarded_member env ev i j f =
     svc_then (svc_require (i \<noteq> 0 \<and> j \<noteq> 0) SvcInvalidID) (\<lambda>_.
     svc_then (find_role_by_id env i) (\<lambda>r.
     svc_then (svc_require (\<not> (is_closed env r \<or> is_contextual r)) (SvcNotAllowed ''manage members'')) (\<lambda>_.
     svc_then (case re_user env j of Inl e \<Rightarrow> svc_fail e | Inr m \<Rightarrow> svc_give m) (\<lambda>m.
     svc_then (case re_member env ev (sr_id r) m of Some e \<Rightarrow> svc_fail (SvcRaw e) | None \<Rightarrow> svc_give ()) (\<lambda>_.
     svc_then (svc_require (re_can_manage env r) (SvcNotAllowed ''manage members'')) (\<lambda>_. f (sr_id r) m))))))"

definition member_add :: "'d role_env \<Rightarrow> u64 \<Rightarrow> u64 \<Rightarrow> ('d, unit) role_op" where
  "member_add env i j =
     guarded_member env ''beforeAdd'' i j (\<lambda>r m.
       svc_insert env (\<lambda>st. List.member (rs_members st) (r, m)) (\<lambda>st. st\<lparr>rs_members := rs_members st @ [(r, m)]\<rparr>))"

definition member_remove :: "'d role_env \<Rightarrow> u64 \<Rightarrow> u64 \<Rightarrow> ('d, unit) role_op" where
  "member_remove env i j =
     guarded_member env ''beforeRemove'' i j (\<lambda>r m.
       svc_write env (\<lambda>st. st\<lparr>rs_members := filter (\<lambda>p. p \<noteq> (r, m)) (rs_members st)\<rparr>))"

section \<open>The roles of the access control\<close>

definition acl_role :: "'d role_env \<Rightarrow> srole \<Rightarrow> 'd role" where
  "acl_role env r =
     (if bool_at (re_bypass env) (sr_handle r) then make_role BypassRole (sr_id r) (sr_handle r)
      else if bool_at (re_anonymous env) (sr_handle r) then make_role AnonymousRole (sr_id r) (sr_handle r)
      else if bool_at (re_authenticated env) (sr_handle r) then make_role AuthenticatedRole (sr_id r) (sr_handle r)
      else (case sr_meta r of
              Some m \<Rightarrow> (case rm_context m of
                Some c \<Rightarrow>
                  if 0 < length (rc_expr c) then
                    (case re_parse env (rc_expr c) of
                       Inl e \<Rightarrow> make_context_role (sr_id r) (sr_handle r) (Some (\<lambda>_. False)) []
                     | Inr f \<Rightarrow> make_context_role (sr_id r) (sr_handle r)
                         (Some (\<lambda>s. case f s of Inl e \<Rightarrow> False | Inr b \<Rightarrow> b)) (rc_resources c))
                  else make_role CommonRole (sr_id r) (sr_handle r)
              | None \<Rightarrow> make_role CommonRole (sr_id r) (sr_handle r))
            | None \<Rightarrow> make_role CommonRole (sr_id r) (sr_handle r)))"

definition update_acl :: "'d role_env \<Rightarrow> 'd role_state \<Rightarrow> 'd role_state" where
  "update_acl env st =
     (case svc_query env (\<lambda>st. live_roles (rs_roles st)) st of
        (Inl e, st') \<Rightarrow> st'
      | (Inr rr, st') \<Rightarrow> st'\<lparr>rs_acl := map (acl_role env) rr\<rparr>)"

text \<open>The handler of one event.\<close>

definition handle_change :: "'d role_env \<Rightarrow> 'd role_state \<Rightarrow> 'd role_state" where
  "handle_change env st = update_acl env (st\<lparr>rs_pending := rs_pending st - 1\<rparr>)"

fun read_handles :: "string bool_map \<Rightarrow> string list \<Rightarrow> string + string bool_map" where
  "read_handles m [] = Inr m"
| "read_handles m (s # ss) =
     (if go_trim s = [] then read_handles m ss
      else if \<not> valid_handle (go_trim s) then Inl ''invalid handle''
      else read_handles (AList.update (go_trim s) True m) ss)"

definition role_handles :: "string \<Rightarrow> string \<Rightarrow> string + string bool_map" where
  "role_handles required l =
     (case read_handles [] (split_at CHR '' '' l) of
        Inl e \<Rightarrow> Inl e
      | Inr m \<Rightarrow> if bool_at m required then Inr m else Inl ''default role not in role list'')"

record role_sets =
  st_bypass :: "string bool_map"
  st_authenticated :: "string bool_map"
  st_anonymous :: "string bool_map"
  st_system :: "string bool_map"
  st_closed :: "string bool_map"

definition init_role_sets :: "string \<Rightarrow> string \<Rightarrow> string \<Rightarrow> string + role_sets" where
  "init_role_sets bypass authenticated anonymous =
     (case role_handles ''super-admin'' bypass of Inl e \<Rightarrow> Inl e
      | Inr b \<Rightarrow> (case role_handles ''authenticated'' authenticated of Inl e \<Rightarrow> Inl e
      | Inr u \<Rightarrow> (case role_handles ''anonymous'' anonymous of Inl e \<Rightarrow> Inl e
      | Inr a \<Rightarrow>
          if list_ex (bool_at b) (map fst u) then Inl ''authenticated role used as bypass role''
          else if list_ex (\<lambda>r. bool_at b r \<or> bool_at u r) (map fst a) then Inl ''anonymous role used as another''
          else Inr \<lparr>st_bypass = b, st_authenticated = u, st_anonymous = a,
                    st_system = handle_set (map fst b @ map fst u @ map fst a),
                    st_closed = handle_set (map fst u @ map fst a)\<rparr>)))"

end
