(* ===== verification/Triple.thy ===== *)
theory Triple
  imports Prelude
begin

text \<open>
  Triples for operations that give an error or a value and a state, over what a view shows of the
  state: from a state with \<open>p\<close> the operation ends well in one with \<open>q\<close>, or fails in one with \<open>J\<close>.
\<close>

definition otriple ::
  "('s \<Rightarrow> 'v) \<Rightarrow> ('v \<Rightarrow> bool) \<Rightarrow> ('v \<Rightarrow> bool) \<Rightarrow> ('s \<Rightarrow> ('e + 'a) \<times> 's) \<Rightarrow> ('a \<Rightarrow> 'v \<Rightarrow> bool) \<Rightarrow> bool" where
  "otriple view J p m q \<longleftrightarrow>
     (\<forall>st. p (view st) \<longrightarrow> (case m st of (Inr x, st') \<Rightarrow> q x (view st') | (Inl e, st') \<Rightarrow> J (view st')))"

lemma otripleI:
  assumes "\<And>st x st'. p (view st) \<Longrightarrow> m st = (Inr x, st') \<Longrightarrow> q x (view st')"
    and "\<And>st e st'. p (view st) \<Longrightarrow> m st = (Inl e, st') \<Longrightarrow> J (view st')"
  shows "otriple view J p m q"
  unfolding otriple_def
proof (intro allI impI)
  fix st
  assume "p (view st)"
  with assms show "case m st of (Inr x, st') \<Rightarrow> q x (view st') | (Inl e, st') \<Rightarrow> J (view st')"
    by (cases "m st"; cases "fst (m st)") auto
qed

lemma otripleD:
  assumes "otriple view J p m q" and "p (view st)"
  shows "m st = (Inr x, st') \<Longrightarrow> q x (view st')" and "m st = (Inl e, st') \<Longrightarrow> J (view st')"
  using assms by (auto simp: otriple_def dest!: spec [where x = st])

lemma otriple_bind:
  assumes "otriple view J p m q" and "\<And>x. otriple view J (q x) (f x) r"
  shows "otriple view J p (\<lambda>st. case m st of (Inl e, st') \<Rightarrow> (Inl e, st') | (Inr x, st') \<Rightarrow> f x st') r"
proof (rule otripleI)
  fix st y st'
  assume p: "p (view st)" and run: "(case m st of (Inl e, st') \<Rightarrow> (Inl e, st') | (Inr x, st') \<Rightarrow> f x st') = (Inr y, st')"
  then obtain x s where "m st = (Inr x, s)" and "f x s = (Inr y, st')" by (auto split: prod.splits sum.splits)
  with otripleD(1) [OF assms(1) p] otripleD(1) [OF assms(2)] show "r y (view st')" by blast
next
  fix st e st'
  assume p: "p (view st)" and run: "(case m st of (Inl e, st') \<Rightarrow> (Inl e, st') | (Inr x, st') \<Rightarrow> f x st') = (Inl e, st')"
  then consider "m st = (Inl e, st')" | x s where "m st = (Inr x, s)" "f x s = (Inl e, st')"
    by (auto split: prod.splits sum.splits)
  then show "J (view st')"
  proof cases
    case 1
    with otripleD(2) [OF assms(1) p] show ?thesis by blast
  next
    case 2
    with otripleD(1) [OF assms(1) p] otripleD(2) [OF assms(2)] show ?thesis by blast
  qed
qed

lemma otriple_weaken:
  assumes "otriple view J p m q" and "\<And>v. p' v \<Longrightarrow> p v" and "\<And>x v. q x v \<Longrightarrow> q' x v"
  shows "otriple view J p' m q'"
  by (rule otripleI) (use otripleD [OF assms(1)] assms(2,3) in blast)+

lemma otriple_reads:
  assumes "\<And>st. view (snd (m st)) = view st" and "\<And>v. p v \<Longrightarrow> J v"
  shows "otriple view J p m (\<lambda>_. p)"
proof (rule otripleI)
  show "p (view st')" if "p (view st)" "m st = (Inr x, st')" for st x st'
    using assms(1) [of st] that by simp
  show "J (view st')" if "p (view st)" "m st = (Inl e, st')" for st e st'
    using assms(1) [of st] assms(2) that by simp
qed

lemma otriple_pure: "(c \<Longrightarrow> otriple view J p m q) \<Longrightarrow> otriple view J (\<lambda>v. p v \<and> c) m q"
  by (auto simp: otriple_def)

lemma otriple_any: "otriple view (\<lambda>_. True) p m (\<lambda>_ _. True)"
  by (rule otripleI) simp_all

lemma otriple_snd:
  assumes "otriple view J p m (\<lambda>_. J)" and "p (view st)"
  shows "J (view (snd (m st)))"
  using otripleD [OF assms] by (cases "m st"; cases "fst (m st)") auto

end
