(* ===== verification/RoleProps.thy ===== *)
theory RoleProps
  imports RoleService Triple
begin

text \<open>
  What the service of roles promises: system roles stay as they are under every request, the roles of
  the access control are those of the store once the events of changes are handled, and the sets of
  roles the server starts with do not overlap.
\<close>

section \<open>Reading\<close>

text \<open>Operations that leave rows, events and the access control as they are.\<close>

definition role_view :: "'d role_state \<Rightarrow> srole list \<times> nat \<times> 'd role list" where
  "role_view st = (rs_roles st, rs_pending st, rs_acl st)"

definition reads_only :: "('d, 'a) role_op \<Rightarrow> bool" where
  "reads_only m \<longleftrightarrow> (\<forall>st. role_view (snd (m st)) = role_view st)"

lemma reads_then:
  assumes "reads_only m" and "\<And>x. reads_only (f x)"
  shows "reads_only (svc_then m f)"
  unfolding reads_only_def
proof
  fix st
  obtain res st' where run: "m st = (res, st')" by (cases "m st")
  have "role_view st' = role_view st" using assms(1) run by (metis reads_only_def snd_conv)
  moreover have "role_view (snd (f x st')) = role_view st'" for x using assms(2) by (simp add: reads_only_def)
  ultimately show "role_view (snd (svc_then m f st)) = role_view st"
    by (cases res) (simp_all add: svc_then_def run)
qed

lemma reads_basic [intro, simp]:
  "reads_only (svc_give x)" "reads_only (svc_fail e)" "reads_only (svc_require b e)"
  "reads_only (svc_query env q)" "reads_only (svc_call env)"
  by (auto simp: reads_only_def role_view_def svc_give_def svc_fail_def svc_require_def svc_query_def svc_call_def svc_then_def Let_def
      split: option.split prod.splits sum.splits)

lemma reads_outcome [simp]: "reads_only m \<Longrightarrow> reads_only (svc_outcome m)"
  by (auto simp: reads_only_def svc_outcome_def split: prod.split) (metis snd_conv)+

lemma reads_lookup [simp]: "reads_only (lookup_role env p)"
  unfolding lookup_role_def by (rule reads_then) (auto split: option.split)

lemma reads_by [simp]:
  "reads_only (role_by_id env i)" "reads_only (role_by_handle env h)" "reads_only (role_by_name env n)"
  by (simp_all add: role_by_id_def role_by_handle_def role_by_name_def)

lemma reads_load [simp]: "reads_only (load_labels env rr)"
  unfolding load_labels_def query_labels_def by (auto intro: reads_then)

lemma reads_proc [simp]: "reads_only m \<Longrightarrow> reads_only (proc_role env m)"
  unfolding proc_role_def by (rule reads_then) (auto split: sum.split intro: reads_then)

lemma reads_constraints [simp]: "reads_only (check_role_constraints env r)"
  unfolding check_role_constraints_def check_role_unique_def
  by (auto intro!: reads_then split: sum.split)

lemma reads_unique [simp]: "reads_only (unique_role_check env r)"
  unfolding unique_role_check_def by (auto intro!: reads_then)

lemma reads_context [simp]: "reads_only (validate_context env r)"
  unfolding validate_context_def by (auto split: sum.split)

lemma reads_before [simp]: "reads_only (run_before env ev new old)"
  unfolding run_before_def by (auto split: prod.split option.split)

lemma reads_find [simp]: "reads_only (find_role_by_id env i)"
  unfolding find_role_by_id_def by (auto intro: reads_then)

lemma reads_next_id [simp]: "reads_only (next_role_id env)"
  by (simp add: reads_only_def role_view_def next_role_id_def)

lemma reads_labels [simp]: "reads_only (create_labels env kind i kvs)" "reads_only (update_labels env kind i kvs)"
proof -
  have each: "(\<And>l. reads_only (f l)) \<Longrightarrow> reads_only (each_label f kind i kvs)" for f :: "label \<Rightarrow> ('d, unit) role_op"
    by (induction kvs) (auto intro: reads_then)
  have insert: "reads_only (insert_label env l)" for l
    unfolding insert_label_def svc_insert_def by (rule reads_then, simp, simp add: reads_only_def role_view_def)
  have upsert: "reads_only (upsert_label env l)" for l
    unfolding upsert_label_def svc_write_def by (rule reads_then, simp, simp add: reads_only_def role_view_def)
  have delete: "reads_only (delete_extra_labels env kind i names)" for names
    unfolding delete_extra_labels_def
    by (rule reads_then, simp, simp add: reads_only_def role_view_def split: list.split option.split)
  show "reads_only (create_labels env kind i kvs)" "reads_only (update_labels env kind i kvs)"
    unfolding create_labels_def update_labels_def by (auto intro!: reads_then each insert upsert delete)
qed

section \<open>Triples\<close>

type_synonym 'd role_pred = "srole list \<times> nat \<times> 'd role list \<Rightarrow> bool"

abbreviation vtriple :: "'d role_pred \<Rightarrow> 'd role_pred \<Rightarrow> ('d, 'a) role_op \<Rightarrow> ('a \<Rightarrow> 'd role_pred) \<Rightarrow> bool" where
  "vtriple \<equiv> otriple role_view"

lemmas vtriple_weaken = otriple_weaken [where view = role_view]

lemma vtriple_then: "vtriple J p m q \<Longrightarrow> (\<And>x. vtriple J (q x) (f x) r) \<Longrightarrow> vtriple J p (svc_then m f) r"
  unfolding svc_then_def by (rule otriple_bind)

lemma vtriple_reads: "reads_only m \<Longrightarrow> (\<And>v. p v \<Longrightarrow> J v) \<Longrightarrow> vtriple J p m (\<lambda>_. p)"
  by (rule otriple_reads) (simp_all add: reads_only_def)

lemma vtriple_give: "(\<And>v. p v \<Longrightarrow> q x v) \<Longrightarrow> vtriple J p (svc_give x) q"
  by (simp add: otriple_def svc_give_def)

lemma vtriple_fail: "(\<And>v. p v \<Longrightarrow> J v) \<Longrightarrow> vtriple J p (svc_fail e) q"
  by (simp add: otriple_def svc_fail_def)

lemma vtriple_require: "(\<And>v. p v \<Longrightarrow> J v) \<Longrightarrow> vtriple J p (svc_require b e) (\<lambda>_ v. p v \<and> b)"
  by (simp add: otriple_def svc_require_def svc_give_def svc_fail_def)

text \<open>What is known of a role that was found.\<close>

definition is_row :: "srole \<Rightarrow> u64 \<Rightarrow> srole list \<Rightarrow> bool" where
  "is_row r i rows \<longleftrightarrow> sr_id r = i \<and> (\<exists>s \<in> set rows. s\<lparr>sr_labels := []\<rparr> = r\<lparr>sr_labels := []\<rparr>)"

lemma vtriple_role_by_id:
  assumes "\<And>v. p v \<Longrightarrow> J v"
  shows "vtriple J p (role_by_id env i) (\<lambda>r v. p v \<and> is_row r i (fst v))"
  unfolding role_by_id_def lookup_role_def svc_query_def
  using assms by (auto simp: otriple_def svc_then_def svc_call_def Let_def role_view_def is_row_def svc_fail_def svc_give_def
      split: option.split dest: find_SomeD)

lemma proc_role_result:
  assumes "proc_role env m st = (Inr r, st')"
  shows "\<exists>s st1. m st = (Inr s, st1) \<and> s\<lparr>sr_labels := []\<rparr> = r\<lparr>sr_labels := []\<rparr>"
proof (cases "m st")
  case (Pair res st1)
  with assms show ?thesis
    by (cases res) (auto simp: proc_role_def svc_then_def svc_outcome_def svc_fail_def svc_give_def
        split: prod.splits sum.splits list.splits)
qed

lemma vtriple_find:
  assumes "\<And>v. p v \<Longrightarrow> J v"
  shows "vtriple J p (find_role_by_id env i) (\<lambda>r v. p v \<and> is_row r i (fst v))"
proof -
  have "vtriple J p (proc_role env (role_by_id env i)) (\<lambda>r v. p v \<and> is_row r i (fst v))"
    unfolding otriple_def
  proof (intro allI impI)
    fix st
    assume p: "p (role_view st)"
    obtain res st' where run: "proc_role env (role_by_id env i) st = (res, st')" by (cases "proc_role env (role_by_id env i) st")
    have view: "role_view st' = role_view st"
      using reads_proc [OF reads_by(1)] run by (metis reads_only_def snd_conv)
    show "case proc_role env (role_by_id env i) st of (Inr x, st') \<Rightarrow> p (role_view st') \<and> is_row x i (fst (role_view st'))
      | (Inl e, st') \<Rightarrow> J (role_view st')"
    proof (cases res)
      case (Inl e)
      with run view p assms show ?thesis by simp
    next
      case (Inr r)
      with run proc_role_result obtain s st1 where s: "role_by_id env i st = (Inr s, st1)"
        "s\<lparr>sr_labels := []\<rparr> = r\<lparr>sr_labels := []\<rparr>" by metis
      have "role_view st1 = role_view st" using reads_by(1) s(1) by (metis reads_only_def snd_conv)
      with vtriple_role_by_id [where p = p and J = J and env = env and i = i, OF assms] s(1) p have "is_row s i (fst (role_view st))"
        by (auto simp: otriple_def dest!: spec [where x = st])
      with s(2) have "is_row r i (fst (role_view st))" by (auto simp: is_row_def dest: arg_cong [where f = sr_id])
      with Inr run view p show ?thesis by simp
    qed
  qed
  then show ?thesis
    unfolding find_role_by_id_def
    using vtriple_reads [OF reads_basic(3), where p = p and J = J] assms by (blast intro: vtriple_then)
qed

section \<open>Requests\<close>

datatype role_request =
  CreateSRole srole | ChangeSRole srole | DeleteSRole u64 | UndeleteSRole u64 | ArchiveSRole u64 | UnarchiveSRole u64
| AddMember u64 u64 | RemoveMember u64 u64 | HandleChange

fun role_do :: "'d role_env \<Rightarrow> role_request \<Rightarrow> 'd role_state \<Rightarrow> 'd role_state" where
  "role_do env (CreateSRole r) st = snd (create_srole env r st)"
| "role_do env (ChangeSRole r) st = snd (change_srole env r st)"
| "role_do env (DeleteSRole i) st = snd (delete_srole env i st)"
| "role_do env (UndeleteSRole i) st = snd (undelete_srole env i st)"
| "role_do env (ArchiveSRole i) st = snd (archive_srole env i st)"
| "role_do env (UnarchiveSRole i) st = snd (unarchive_srole env i st)"
| "role_do env (AddMember i j) st = snd (member_add env i j st)"
| "role_do env (RemoveMember i j) st = snd (member_remove env i j st)"
| "role_do env HandleChange st = handle_change env st"

lemma reads_members [simp]: "reads_only (member_add env i j)" "reads_only (member_remove env i j)"
proof -
  have guarded: "(\<And>r m. reads_only (f r m)) \<Longrightarrow> reads_only (guarded_member env ev i j f)" for ev f
    unfolding guarded_member_def by (intro reads_then) (auto split: sum.split option.split)
  show "reads_only (member_add env i j)" "reads_only (member_remove env i j)"
    unfolding member_add_def member_remove_def svc_insert_def svc_write_def
    by (rule guarded, rule reads_then, simp, simp add: reads_only_def role_view_def)+
qed

lemma view_handle_change:
  "fst (role_view (handle_change env st)) = fst (role_view st)"
  by (auto simp: handle_change_def update_acl_def svc_query_def svc_then_def svc_call_def Let_def role_view_def
      split: option.split)

section \<open>System roles\<close>

definition hooks_keep_id :: "'d role_env \<Rightarrow> bool" where
  "hooks_keep_id env \<longleftrightarrow> (\<forall>ev new old r. re_before env ev new old = (None, r) \<longrightarrow> sr_id r = sr_id new)"

definition keeps_row :: "srole \<Rightarrow> 'd role_pred" where
  "keeps_row r0 v \<longleftrightarrow> distinct (map sr_id (fst v)) \<and> r0 \<in> set (fst v)"

lemma other_row:
  assumes "keeps_row r0 v" and "is_row r i (fst v)" and "\<not> is_system env r" and "is_system env r0"
  shows "i \<noteq> sr_id r0"
proof
  assume i: "i = sr_id r0"
  from assms(2) obtain s where s: "s \<in> set (fst v)" "s\<lparr>sr_labels := []\<rparr> = r\<lparr>sr_labels := []\<rparr>" "sr_id r = i"
    by (auto simp: is_row_def)
  from s(2) have "sr_id s = sr_id r" "sr_handle s = sr_handle r"
    by (auto dest: arg_cong [where f = sr_id] arg_cong [where f = sr_handle])
  with s i assms(1) have "s = r0"
    by (auto simp: keeps_row_def distinct_map dest: inj_onD)
  with \<open>sr_handle s = sr_handle r\<close> assms(3,4) show False by (simp add: is_system_def)
qed

lemma keeps_update:
  "vtriple (keeps_row r0) (\<lambda>v. keeps_row r0 v \<and> sr_id r \<noteq> sr_id r0) (update_role env r) (\<lambda>_. keeps_row r0)"
proof -
  have ids: "map sr_id (put_role r rows) = map sr_id rows" for rows
    by (simp add: put_role_def)
  have row: "r0 \<in> set (put_role r rows)" if "r0 \<in> set rows" "sr_id r \<noteq> sr_id r0" for rows
    using that by (force simp: put_role_def)
  show ?thesis
    unfolding update_role_def
    by (rule vtriple_then [OF vtriple_reads [OF reads_constraints]], simp)
      (auto simp: otriple_def svc_write_def svc_then_def svc_call_def Let_def role_view_def keeps_row_def ids row
        split: option.split)
qed

lemma keeps_insert: "vtriple (keeps_row r0) (keeps_row r0) (insert_role env r) (\<lambda>_. keeps_row r0)"
  unfolding insert_role_def
  by (rule vtriple_then [OF vtriple_reads [OF reads_constraints]], simp)
    (auto simp: otriple_def svc_insert_def svc_then_def svc_call_def Let_def role_view_def keeps_row_def list_ex_iff
      split: option.split)

lemma keeps_dispatch: "vtriple (keeps_row r0) (keeps_row r0) dispatch_change (\<lambda>_. keeps_row r0)"
  by (auto simp: otriple_def dispatch_change_def role_view_def keeps_row_def)

lemma keeps_before:
  assumes "hooks_keep_id env" and "\<And>v. p v \<Longrightarrow> J v"
  shows "vtriple J p (run_before env ev new old) (\<lambda>r v. p v \<and> sr_id r = sr_id new)"
  using assms by (auto simp: otriple_def run_before_def hooks_keep_id_def svc_fail_def svc_give_def split: prod.split option.split)

abbreviation keeps :: "srole \<Rightarrow> ('d, 'a) role_op \<Rightarrow> bool" where
  "keeps r0 m \<equiv> vtriple (keeps_row r0) (keeps_row r0) m (\<lambda>_. keeps_row r0)"

lemma keeps_then: "keeps r0 m \<Longrightarrow> (\<And>x. keeps r0 (f x)) \<Longrightarrow> keeps r0 (svc_then m f)"
  by (rule vtriple_then)

lemma keeps_reads: "reads_only m \<Longrightarrow> keeps r0 m"
  by (rule vtriple_reads)

lemma keeps_update_other: "sr_id r \<noteq> sr_id r0 \<Longrightarrow> keeps r0 (update_role env r)"
  using keeps_update [of r0 r env] by (simp add: vtriple_weaken)

text \<open>After the test for system roles, any role but the system role is at hand.\<close>

lemma keeps_guarded:
  assumes "is_system env r0" and "\<And>r. sr_id r \<noteq> sr_id r0 \<Longrightarrow> keeps r0 (f r)"
  shows "keeps r0 (svc_then (find_role_by_id env i) (\<lambda>r. svc_then (svc_require (\<not> is_system env r) e) (\<lambda>_. f r)))"
proof (rule vtriple_then [OF vtriple_find [where p = "keeps_row r0"]])
  fix r
  show "vtriple (keeps_row r0) (\<lambda>v. keeps_row r0 v \<and> is_row r i (fst v))
    (svc_then (svc_require (\<not> is_system env r) e) (\<lambda>_. f r)) (\<lambda>_. keeps_row r0)"
  proof (rule vtriple_then [OF vtriple_require])
    show "vtriple (keeps_row r0) (\<lambda>v. (keeps_row r0 v \<and> is_row r i (fst v)) \<and> \<not> is_system env r) (f r) (\<lambda>_. keeps_row r0)" for x :: unit
    proof (rule vtriple_weaken)
      show "vtriple (keeps_row r0) (\<lambda>v. keeps_row r0 v \<and> sr_id r \<noteq> sr_id r0) (f r) (\<lambda>_. keeps_row r0)"
        by (rule otriple_pure) (rule assms(2))
      show "keeps_row r0 v \<and> sr_id r \<noteq> sr_id r0" if "(keeps_row r0 v \<and> is_row r i (fst v)) \<and> \<not> is_system env r" for v
        using that other_row [of r0 v r i env] assms(1) by (auto simp: is_row_def)
    qed
  qed simp
qed simp

lemma keeps_hooked:
  assumes "hooks_keep_id env" and "sr_id new \<noteq> sr_id r0" and "\<And>r. sr_id r \<noteq> sr_id r0 \<Longrightarrow> keeps r0 (f r)"
  shows "keeps r0 (svc_then (run_before env ev new old) f)"
  by (rule vtriple_then [OF keeps_before [OF assms(1)]], assumption, rule otriple_pure) (simp add: assms)

lemma keeps_requests:
  assumes "is_system env r0" and "hooks_keep_id env"
  shows "keeps r0 (create_srole env new)" and "keeps r0 (change_srole env upd)" and "keeps r0 (delete_srole env i)"
    and "keeps r0 (undelete_srole env i)" and "keeps r0 (archive_srole env i)" and "keeps r0 (unarchive_srole env i)"
proof -
  note steps = keeps_then keeps_reads keeps_dispatch keeps_insert keeps_update_other
  show "keeps r0 (create_srole env new)"
    unfolding create_srole_def Let_def by (intro steps) simp_all
  show "keeps r0 (delete_srole env i)"
    unfolding delete_srole_def by (rule keeps_guarded [OF assms(1)]) (intro steps; simp)
  show "keeps r0 (undelete_srole env i)"
    unfolding undelete_srole_def by (rule keeps_guarded [OF assms(1)]) (intro steps; simp)
  show "keeps r0 (archive_srole env i)"
    unfolding archive_srole_def
    by (rule keeps_guarded [OF assms(1)], rule keeps_hooked [OF assms(2)], assumption) (intro steps; simp)
  show "keeps r0 (unarchive_srole env i)"
    unfolding unarchive_srole_def
    by (rule keeps_guarded [OF assms(1)], rule keeps_hooked [OF assms(2)], assumption) (intro steps; simp)
  have change: "keeps r0 (store_change env old upd)" if "sr_id old \<noteq> sr_id r0" for old upd
    unfolding store_change_def Let_def
    by (rule keeps_then [OF keeps_reads], simp, rule keeps_then [OF keeps_reads], simp,
        rule keeps_then [OF keeps_update_other], simp add: that, rule keeps_then [OF keeps_reads],
        auto intro: reads_then keeps_then [OF keeps_dispatch] keeps_reads)
  show "keeps r0 (change_srole env upd)"
    unfolding change_srole_def
  proof ((rule keeps_then [OF keeps_reads [OF reads_basic(3)]])+)
    show "keeps r0 (svc_then (role_by_id env (sr_id upd)) (\<lambda>r. if is_system env r
      then if sr_handle r = sr_handle upd \<and> sr_name r = sr_name upd then svc_give r else svc_fail (SvcNotAllowed ''update'')
      else svc_then (run_before env ''beforeUpdate'' upd (Some r)) (\<lambda>upd. store_change env r upd)))" (is "keeps r0 (svc_then _ ?f)")
    proof (rule vtriple_then [OF vtriple_role_by_id [where p = "keeps_row r0"]])
      fix r
      show "vtriple (keeps_row r0) (\<lambda>v. keeps_row r0 v \<and> is_row r (sr_id upd) (fst v)) (?f r) (\<lambda>_. keeps_row r0)"
      proof (cases "is_system env r")
        case True
        then show ?thesis by (auto intro: vtriple_give vtriple_fail)
      next
        case False
        have "vtriple (keeps_row r0) (\<lambda>v. keeps_row r0 v \<and> sr_id r \<noteq> sr_id r0) (?f r) (\<lambda>_. keeps_row r0)"
        proof (rule otriple_pure)
          assume "sr_id r \<noteq> sr_id r0"
          from keeps_then [OF keeps_reads [OF reads_before] change [OF this]] False
          show "keeps r0 (?f r)" by simp
        qed
        then show ?thesis
          by (rule vtriple_weaken) (use False other_row [of r0 _ r "sr_id upd" env] assms(1) in \<open>auto simp: is_row_def\<close>)
      qed
    qed simp
  qed
qed

lemma system_role_step:
  assumes "is_system env r0" and "hooks_keep_id env" and "keeps_row r0 (role_view st)"
  shows "keeps_row r0 (role_view (role_do env q st))"
proof (cases q)
  case (AddMember i j)
  then show ?thesis using otriple_snd [OF keeps_reads [OF reads_members(1)] assms(3)] by simp
next
  case (RemoveMember i j)
  then show ?thesis using otriple_snd [OF keeps_reads [OF reads_members(2)] assms(3)] by simp
next
  case HandleChange
  then show ?thesis using assms(3) by (simp add: keeps_row_def view_handle_change)
qed (use otriple_snd [OF keeps_requests(1) [OF assms(1,2)] assms(3)] otriple_snd [OF keeps_requests(2) [OF assms(1,2)] assms(3)]
    otriple_snd [OF keeps_requests(3) [OF assms(1,2)] assms(3)] otriple_snd [OF keeps_requests(4) [OF assms(1,2)] assms(3)]
    otriple_snd [OF keeps_requests(5) [OF assms(1,2)] assms(3)] otriple_snd [OF keeps_requests(6) [OF assms(1,2)] assms(3)]
    in simp_all)

text \<open>
  C36: A system role stays in the store exactly as it is (its name, handle, context and times), whatever
  requests are made in whatever order, by whomever, and whichever calls of the store fail. Handlers of
  events do not change identifiers.
\<close>

theorem system_role_stays:
  assumes "is_system env r" and "hooks_keep_id env" and "r \<in> set (rs_roles st)" and "distinct (map sr_id (rs_roles st))"
  shows "r \<in> set (rs_roles (fold (role_do env) qs st))"
proof -
  have "keeps_row r (role_view st)" using assms(3,4) by (simp add: keeps_row_def role_view_def)
  then have "keeps_row r (role_view (fold (role_do env) qs st))"
    by (induction qs arbitrary: st) (simp_all add: system_role_step [OF assms(1,2)])
  then show ?thesis by (simp add: keeps_row_def role_view_def)
qed

section \<open>The roles of the access control\<close>

definition acl_follows :: "'d role_env \<Rightarrow> 'd role_pred" where
  "acl_follows env v \<longleftrightarrow> (fst (snd v) = 0 \<longrightarrow> snd (snd v) = map (acl_role env) (live_roles (fst v)))"

abbreviation follows :: "'d role_env \<Rightarrow> ('d, 'a) role_op \<Rightarrow> bool" where
  "follows env m \<equiv> vtriple (acl_follows env) (acl_follows env) m (\<lambda>_. acl_follows env)"

lemma follows_reads: "reads_only m \<Longrightarrow> (\<And>x. follows env (f x)) \<Longrightarrow> follows env (svc_then m f)"
  by (rule vtriple_then [OF vtriple_reads])

text \<open>A row that is written is followed by an event.\<close>

lemma follows_update: "vtriple (acl_follows env) (acl_follows env) (update_role env r) (\<lambda>_ _. True)"
  unfolding update_role_def
  by (rule vtriple_then [OF vtriple_reads [OF reads_constraints]], assumption)
    (auto simp: otriple_def svc_write_def svc_then_def svc_call_def Let_def role_view_def split: option.split)

lemma follows_dispatch: "vtriple J (\<lambda>_. True) dispatch_change (\<lambda>_. acl_follows env)"
  by (simp add: otriple_def dispatch_change_def role_view_def acl_follows_def)

lemma follows_write: "follows env (svc_then (update_role env r) (\<lambda>_. dispatch_change))"
  by (rule vtriple_then [OF follows_update follows_dispatch])

lemma follows_row_requests:
  shows "follows env (delete_srole env i)" and "follows env (archive_srole env i)" and "follows env (unarchive_srole env i)"
  unfolding delete_srole_def archive_srole_def unarchive_srole_def
  by (intro follows_reads follows_write; simp)+

lemma labels_changed:
  assumes "answers env" and "kvs \<noteq> []"
  shows "\<exists>st'. update_labels env kind i kvs st = (Inr (), st')"
  using assms by (simp add: update_labels_def svc_run delete_extra_run each_upsert_run)

lemma vtriple_total:
  assumes "\<And>st. \<exists>st'. m st = (Inr (), st')"
  shows "vtriple J (\<lambda>_. True) m (\<lambda>_ _. True)"
  unfolding otriple_def
proof (intro allI impI)
  show "case m st of (Inr x, st') \<Rightarrow> True | (Inl e, st') \<Rightarrow> J (role_view st')" for st
    using assms [of st] by auto
qed

lemma follows_members: "follows env (member_add env i j)" "follows env (member_remove env i j)"
  by (rule vtriple_reads; simp)+

lemma follows_change:
  assumes "answers env"
  shows "follows env (change_srole env upd)"
proof -
  have labels: "vtriple (acl_follows env) (\<lambda>_. True)
      (if label_changed [] (sr_labels upd)
       then svc_then (update_labels env role_label_kind (sr_id upd) (sr_labels upd)) (\<lambda>_. svc_give (r\<lparr>sr_labels := sr_labels upd\<rparr>))
       else svc_give r) (\<lambda>_ _. True)" for upd r
  proof (cases "label_changed [] (sr_labels upd)")
    case True
    then have "sr_labels upd \<noteq> []" by (auto simp: label_changed_def differs_from_def)
    then have "vtriple (acl_follows env) (\<lambda>_. True) (update_labels env role_label_kind (sr_id upd) (sr_labels upd)) (\<lambda>_ _. True)"
      by (intro vtriple_total labels_changed assms)
    then have "vtriple (acl_follows env) (\<lambda>_. True)
        (svc_then (update_labels env role_label_kind (sr_id upd) (sr_labels upd)) (\<lambda>_. svc_give (r\<lparr>sr_labels := sr_labels upd\<rparr>)))
        (\<lambda>_ _. True)"
      by (rule vtriple_then) (rule vtriple_give, simp)
    with True show ?thesis by simp
  qed (simp add: otriple_def svc_give_def)
  have "follows env (store_change env old upd)" if "sr_labels old = []" for old upd
    unfolding store_change_def Let_def
    by (rule follows_reads, simp, rule follows_reads, simp, rule vtriple_then [OF follows_update],
        rule vtriple_then [where q = "\<lambda>_ _. True"], simp add: that labels,
        rule vtriple_then [OF follows_dispatch], rule vtriple_give)
  then have rest: "follows env (if is_system env r
      then if sr_handle r = sr_handle upd \<and> sr_name r = sr_name upd then svc_give r else svc_fail (SvcNotAllowed ''update'')
      else svc_then (run_before env ''beforeUpdate'' upd (Some r)) (\<lambda>upd. store_change env r upd))"
    if "sr_labels r = []" for r
    using that by (auto intro: vtriple_give vtriple_fail follows_reads)
  have row: "vtriple (acl_follows env) (acl_follows env) (role_by_id env i) (\<lambda>r v. acl_follows env v \<and> sr_labels r = [])" for i
    by (auto simp: role_by_id_def lookup_role_def svc_query_def otriple_def svc_then_def svc_call_def Let_def role_view_def
        svc_fail_def svc_give_def split: option.split)
  show ?thesis
    unfolding change_srole_def
    by (rule follows_reads, simp, rule follows_reads, simp, rule follows_reads, simp,
        rule vtriple_then [OF row], rule otriple_pure, rule rest)
qed

lemma create_success: "vtriple (\<lambda>_. True) p (create_srole env new) (\<lambda>_. acl_follows env)"
  unfolding create_srole_def Let_def
  by (rule vtriple_then [OF otriple_any], rule vtriple_then [OF otriple_any], rule vtriple_then [OF otriple_any],
      rule vtriple_then [OF otriple_any], rule vtriple_then [OF otriple_any], rule vtriple_then [OF otriple_any],
      rule vtriple_then [OF otriple_any], rule vtriple_then [OF otriple_any], rule vtriple_then [OF follows_dispatch],
      rule vtriple_give)

text \<open>Events and the access control before the last step.\<close>

definition undispatched :: "'d role_state \<Rightarrow> 'd role_pred" where
  "undispatched st v \<longleftrightarrow> snd v = snd (role_view st)"

lemma undispatched_update: "vtriple (undispatched st) (undispatched st) (update_role env r) (\<lambda>_. undispatched st)"
  unfolding update_role_def
  by (rule vtriple_then [OF vtriple_reads [OF reads_constraints]], assumption)
    (auto simp: otriple_def svc_write_def svc_then_def svc_call_def Let_def role_view_def undispatched_def split: option.split)

lemma undispatched_insert: "vtriple (undispatched st) (undispatched st) (insert_role env r) (\<lambda>_. undispatched st)"
  unfolding insert_role_def
  by (rule vtriple_then [OF vtriple_reads [OF reads_constraints]], assumption)
    (auto simp: otriple_def svc_insert_def svc_then_def svc_call_def Let_def role_view_def undispatched_def split: option.split)

lemma undispatched_reads:
  "reads_only m \<Longrightarrow> (\<And>x. vtriple (undispatched st) (undispatched st) (f x) q) \<Longrightarrow>
   vtriple (undispatched st) (undispatched st) (svc_then m f) q"
  by (rule vtriple_then [OF vtriple_reads])

lemma create_failure: "vtriple (undispatched st) (undispatched st) (create_srole env new) (\<lambda>_ _. True)"
proof -
  have last: "vtriple (undispatched st) (undispatched st) (svc_then dispatch_change (\<lambda>_. svc_give r)) (\<lambda>_ _. True)" for r
    by (simp add: otriple_def svc_then_def dispatch_change_def svc_give_def)
  show ?thesis
    unfolding create_srole_def Let_def
    by (rule undispatched_reads, simp, rule undispatched_reads, simp, rule undispatched_reads, simp,
        rule undispatched_reads, simp, rule undispatched_reads, simp, rule undispatched_reads, simp,
        rule vtriple_then [OF undispatched_insert], rule undispatched_reads, simp, rule last)
qed

text \<open>No event follows when a role is undeleted: the access control goes on without it.\<close>

lemma undelete_keeps_acl:
  assumes "undelete_srole env i st = (Inr (), st')"
  shows "rs_pending st' = rs_pending st \<and> rs_acl st' = rs_acl st"
proof -
  have "vtriple (undispatched st) (undispatched st) (undelete_srole env i) (\<lambda>_. undispatched st)"
    unfolding undelete_srole_def
    by (rule undispatched_reads, simp, rule undispatched_reads, simp, rule undispatched_reads, simp, rule undispatched_update)
  with assms show ?thesis by (auto simp: otriple_def undispatched_def role_view_def dest!: spec [where x = st])
qed

section \<open>Reachable states\<close>

definition role_tidy :: "'d role_env \<Rightarrow> role_request \<Rightarrow> 'd role_state \<Rightarrow> bool" where
  "role_tidy env q st \<longleftrightarrow>
     (case q of
        UndeleteSRole i \<Rightarrow> False
      | CreateSRole r \<Rightarrow>
          (case create_srole env r st of (Inl e, st') \<Rightarrow> rs_roles st' = rs_roles st | (Inr r, st') \<Rightarrow> True)
      | _ \<Rightarrow> True)"

inductive role_reach :: "'d role_env \<Rightarrow> 'd role_state \<Rightarrow> bool" for env where
  boot: "rs_pending st = 0 \<Longrightarrow> role_reach env (update_acl env st)"
| request: "role_reach env st \<Longrightarrow> role_tidy env q st \<Longrightarrow> role_reach env (role_do env q st)"

lemma acl_loaded: "answers env \<Longrightarrow> acl_follows env (role_view (update_acl env st))"
  by (simp add: update_acl_def svc_run role_view_def acl_follows_def)

lemma follows_step:
  assumes "answers env" and "role_tidy env q st" and "acl_follows env (role_view st)"
  shows "acl_follows env (role_view (role_do env q st))"
proof (cases q)
  case (CreateSRole r)
  obtain res st' where run: "create_srole env r st = (res, st')" by (cases "create_srole env r st")
  show ?thesis
  proof (cases res)
    case (Inl e)
    with run create_failure [of st env r] have "undispatched st (role_view st')"
      by (auto simp: otriple_def undispatched_def dest!: spec [where x = st])
    moreover have "rs_roles st' = rs_roles st" using assms(2) CreateSRole run Inl by (simp add: role_tidy_def)
    ultimately show ?thesis using assms(3) CreateSRole run by (simp add: acl_follows_def undispatched_def role_view_def)
  next
    case (Inr x)
    with run create_success [of "\<lambda>_. True" env r] CreateSRole show ?thesis
      by (auto simp: otriple_def dest!: spec [where x = st])
  qed
next
  case (ChangeSRole r)
  then show ?thesis using otriple_snd [OF follows_change [OF assms(1)] assms(3)] by simp
next
  case (UndeleteSRole i)
  with assms(2) show ?thesis by (simp add: role_tidy_def)
next
  case (AddMember i j)
  then show ?thesis using otriple_snd [OF follows_members(1) assms(3)] by simp
next
  case (RemoveMember i j)
  then show ?thesis using otriple_snd [OF follows_members(2) assms(3)] by simp
next
  case HandleChange
  then show ?thesis using acl_loaded [OF assms(1)] by (simp add: handle_change_def)
qed (use otriple_snd [OF follows_row_requests(1) assms(3)] otriple_snd [OF follows_row_requests(2) assms(3)]
    otriple_snd [OF follows_row_requests(3) assms(3)] in simp_all)


section \<open>Archived roles\<close>

definition stripped :: "srole list \<Rightarrow> srole list" where
  "stripped rows = map (\<lambda>r. r\<lparr>sr_labels := []\<rparr>) rows"

lemma put_own_row:
  assumes "distinct (map sr_id rows)" and "is_row r i rows"
  shows "stripped (put_role r rows) = stripped rows"
proof -
  from assms(2) obtain s where s: "s \<in> set rows" "s\<lparr>sr_labels := []\<rparr> = r\<lparr>sr_labels := []\<rparr>" by (auto simp: is_row_def)
  from s(2) have "sr_id s = sr_id r" by (auto dest: arg_cong [where f = sr_id])
  then have "t = s" if "t \<in> set rows" "sr_id t = sr_id r" for t
    using that s(1) assms(1) inj_onD [of sr_id "set rows" t s] by (simp add: distinct_map)
  with s(2) show ?thesis by (auto simp: stripped_def put_role_def)
qed

text \<open>
  C38: Taking a role out of the archive succeeds and changes no row: the role stays archived (the
  handlers of the event leave the role as it is).
\<close>

theorem unarchived_stays_archived:
  assumes "unarchive_srole env i st = (Inr (), st')" and "distinct (map sr_id (rs_roles st))"
    and "\<And>new old. re_before env ''beforeUpdate'' new old = (None, new)"
  shows "stripped (rs_roles st') = stripped (rs_roles st)"
proof -
  let ?J = "\<lambda>v :: srole list \<times> nat \<times> 'a role list. stripped (fst v) = stripped (rs_roles st)"
  let ?p = "\<lambda>v :: srole list \<times> nat \<times> 'a role list. fst v = rs_roles st"
  have store: "vtriple ?J (\<lambda>v. ?p v \<and> is_row r i (fst v)) (update_role env r) (\<lambda>_. ?J)" for r
    unfolding update_role_def
    by (rule vtriple_then [OF vtriple_reads [OF reads_constraints]], simp)
      (auto simp: otriple_def svc_write_def svc_then_def svc_call_def Let_def role_view_def put_own_row [OF assms(2)]
        split: option.split)
  have hook: "run_before env ''beforeUpdate'' r old = svc_give r" for r old
    by (simp add: run_before_def assms(3))
  have "vtriple ?J ?p (unarchive_srole env i) (\<lambda>_. ?J)"
    unfolding unarchive_srole_def hook
  proof (rule vtriple_then [OF vtriple_find [where p = ?p]])
    fix r
    let ?q = "\<lambda>v :: srole list \<times> nat \<times> 'a role list. ?p v \<and> is_row r i (fst v)"
    have "vtriple ?J ?J dispatch_change (\<lambda>_. ?J)" by (simp add: otriple_def dispatch_change_def role_view_def)
    with store have "vtriple ?J ?q (svc_then (update_role env r) (\<lambda>_. dispatch_change)) (\<lambda>_. ?J)"
      by (rule vtriple_then)
    then show "vtriple ?J ?q (svc_then (svc_require (\<not> is_system env r) (SvcNotAllowed ''unarchive'')) (\<lambda>_.
        svc_then (svc_give r) (\<lambda>upd. svc_then (svc_require (re_can_delete env upd) (SvcNotAllowed ''undelete'')) (\<lambda>_.
        svc_then (update_role env upd) (\<lambda>_. dispatch_change))))) (\<lambda>_. ?J)"
      by (intro vtriple_then [OF vtriple_reads [OF reads_basic(3)]])
        (auto simp: otriple_def svc_then_def svc_give_def svc_require_def svc_fail_def)
  qed simp
  with assms(1) show ?thesis by (auto simp: otriple_def role_view_def dest!: spec [where x = st])
qed

section \<open>The sets of roles\<close>

definition true_map :: "string bool_map \<Rightarrow> bool" where
  "true_map m \<longleftrightarrow> (\<forall>h. map_of m h \<noteq> Some False) \<and> map_of m [] = None"

lemma true_map_keys:
  assumes "true_map m"
  shows "fst ` set m = {h. bool_at m h}"
proof -
  have "map_of m h = Some True \<longleftrightarrow> map_of m h \<noteq> None" for h
    using assms by (cases "map_of m h"; cases "the (map_of m h)") (auto simp: true_map_def)
  then show ?thesis by (auto simp: bool_at_def map_of_eq_None_iff)
qed

lemma true_map_at: "true_map m \<Longrightarrow> bool_at m h \<Longrightarrow> h \<noteq> []"
  by (auto simp: true_map_def bool_at_def)

lemma true_map_update: "true_map m \<Longrightarrow> h \<noteq> [] \<Longrightarrow> true_map (AList.update h True m)"
  by (simp add: true_map_def update_conv)

lemma read_handles_true: "read_handles m ss = Inr m' \<Longrightarrow> true_map m \<Longrightarrow> true_map m'"
  by (induction m ss rule: read_handles.induct) (auto simp: true_map_update split: if_splits)

lemma role_handles_true: "role_handles d l = Inr m \<Longrightarrow> true_map m \<and> bool_at m d"
  using read_handles_true [of "[]"]
  by (fastforce simp: role_handles_def true_map_def split: sum.splits if_splits)

lemma handle_set_at: "bool_at (handle_set hh) h \<longleftrightarrow> h \<noteq> [] \<and> h \<in> set hh"
  by (simp add: handle_set_def bool_at_def delete_conv' to_bool_map_def foldl_update_true)

text \<open>
  The sets a server starts with: each has its default role, no role is in two of the three, the closed
  roles are those of authenticated and anonymous users, and all of them are system roles.
\<close>

theorem role_sets_partition:
  assumes "init_role_sets bypass authenticated anonymous = Inr s"
  shows "bool_at (st_bypass s) ''super-admin'' \<and> bool_at (st_authenticated s) ''authenticated'' \<and>
    bool_at (st_anonymous s) ''anonymous'' \<and>
    (\<forall>h. \<not> (bool_at (st_bypass s) h \<and> bool_at (st_authenticated s) h) \<and>
         \<not> (bool_at (st_bypass s) h \<and> bool_at (st_anonymous s) h) \<and>
         \<not> (bool_at (st_authenticated s) h \<and> bool_at (st_anonymous s) h) \<and>
         (bool_at (st_closed s) h \<longleftrightarrow> bool_at (st_authenticated s) h \<or> bool_at (st_anonymous s) h) \<and>
         (bool_at (st_system s) h \<longleftrightarrow> bool_at (st_bypass s) h \<or> bool_at (st_closed s) h))"
proof -
  from assms obtain b u a where sets: "role_handles ''super-admin'' bypass = Inr b"
    "role_handles ''authenticated'' authenticated = Inr u" "role_handles ''anonymous'' anonymous = Inr a"
    "\<not> list_ex (bool_at b) (map fst u)" "\<not> list_ex (\<lambda>r. bool_at b r \<or> bool_at u r) (map fst a)"
    and s: "s = \<lparr>st_bypass = b, st_authenticated = u, st_anonymous = a,
      st_system = handle_set (map fst b @ map fst u @ map fst a), st_closed = handle_set (map fst u @ map fst a)\<rparr>"
    by (auto simp: init_role_sets_def split: sum.splits if_splits)
  note true = role_handles_true [OF sets(1)] role_handles_true [OF sets(2)] role_handles_true [OF sets(3)]
  then have keys: "fst ` set b = {h. bool_at b h}" "fst ` set u = {h. bool_at u h}" "fst ` set a = {h. bool_at a h}"
    by (simp_all add: true_map_keys)
  have named: "h \<noteq> []" if "bool_at b h \<or> bool_at u h \<or> bool_at a h" for h
    using that true true_map_at by blast
  have apart: "\<not> bool_at b h" if "bool_at u h" for h
    using sets(4) that keys(2) by (fastforce simp: list_ex_iff)
  have apart': "\<not> bool_at b h \<and> \<not> bool_at u h" if "bool_at a h" for h
    using sets(5) that keys(3) by (fastforce simp: list_ex_iff)
  show ?thesis
    using true named apart apart' by (auto simp: s handle_set_at keys)
qed

section \<open>Witnesses\<close>

definition demo_roles_env :: "unit role_env" where
  "demo_roles_env = \<lparr>le_faults = (\<lambda>_. None), le_empty = None, re_system = [(''super-admin'', True)], re_closed = [],
     re_bypass = [(''super-admin'', True)], re_authenticated = [], re_anonymous = [], re_now = 5, re_id = (\<lambda>_. 7),
     re_before = (\<lambda>_ r _. (None, r)), re_member = (\<lambda>_ _ _. None), re_user = Inr, re_can_create = True,
     re_can_read = (\<lambda>_. True), re_can_update = (\<lambda>_. True), re_can_delete = (\<lambda>_. True), re_can_manage = (\<lambda>_. True),
     re_parse = (\<lambda>_. Inl ''no'')\<rparr>"

definition demo_row :: "u64 \<Rightarrow> string \<Rightarrow> int option \<Rightarrow> srole" where
  "demo_row i h archived = \<lparr>sr_id = i, sr_name = h, sr_handle = h, sr_meta = None, sr_labels = [], sr_created = 0,
     sr_updated = None, sr_archived = archived, sr_deleted = None\<rparr>"

definition demo_roles :: "int option \<Rightarrow> unit role_state" where
  "demo_roles archived = \<lparr>ld_labels = [], ld_calls = 0,
     rs_roles = [demo_row 1 ''super-admin'' None, demo_row 2 ''editor'' archived], rs_members = [], rs_ids = 0,
     rs_acl = [], rs_pending = 0\<rparr>"

lemma demo_hooks: "hooks_keep_id demo_roles_env"
  by (simp add: hooks_keep_id_def demo_roles_env_def)

lemma demo_answers: "answers demo_roles_env"
  by (simp add: answers_def demo_roles_env_def)

lemma system_role_stays_witness:
  "demo_row 1 ''super-admin'' None \<in> set (rs_roles (fold (role_do demo_roles_env)
     [DeleteSRole 1, ArchiveSRole 2, ChangeSRole (demo_row 1 ''renamed'' None)] (demo_roles None)))"
proof (rule system_role_stays [OF _ demo_hooks])
  show "is_system demo_roles_env (demo_row 1 ''super-admin'' None)" by code_simp
qed (simp_all add: demo_roles_def demo_row_def)


lemma unarchived_stays_archived_witness:
  "stripped (rs_roles (snd (unarchive_srole demo_roles_env 2 (demo_roles (Some 3))))) = stripped (rs_roles (demo_roles (Some 3)))"
proof (rule unarchived_stays_archived)
  have "case fst (unarchive_srole demo_roles_env 2 (demo_roles (Some 3))) of Inl e \<Rightarrow> False | Inr u \<Rightarrow> True"
    by code_simp
  then show "unarchive_srole demo_roles_env 2 (demo_roles (Some 3)) =
      (Inr (), snd (unarchive_srole demo_roles_env 2 (demo_roles (Some 3))))"
    by (cases "unarchive_srole demo_roles_env 2 (demo_roles (Some 3))") (auto split: sum.splits)
qed (simp_all add: demo_roles_def demo_row_def demo_roles_env_def)

end
