(* ===== verification/UserService.thy ===== *)
theory UserService
  imports AuthFacts
begin

text \<open>
  \<^verbatim>\<open>system/service/user.go\<close>: users, on the tables and with the operations of authentication. Labels and
  the meta data of users are left out, as is the audit log; the reader of addresses of
  \<^verbatim>\<open>net/mail\<close> is a parameter. Handlers of events give an error or the changed user.
\<close>

section \<open>Environment\<close>

record user_env =
  ue_auth :: auth_env
  ue_limit :: nat
  ue_mask_email :: bool
  ue_mask_name :: bool
  ue_address :: "string \<Rightarrow> bool"
  ue_before :: "string \<Rightarrow> auser \<Rightarrow> auser option \<Rightarrow> string option \<times> auser"
  ue_can_create :: bool
  ue_can_read :: "auser \<Rightarrow> bool"
  ue_can_update :: "auser \<Rightarrow> bool"
  ue_can_delete :: "auser \<Rightarrow> bool"
  ue_can_suspend :: "auser \<Rightarrow> bool"
  ue_can_unsuspend :: "auser \<Rightarrow> bool"
  ue_can_unmask_email :: "auser \<Rightarrow> bool"
  ue_can_unmask_name :: "auser \<Rightarrow> bool"

definition user_hook :: "user_env \<Rightarrow> string \<Rightarrow> auser \<Rightarrow> auser option \<Rightarrow> auser auth_op" where
  "user_hook env ev new old =
     (case ue_before env ev new old of (Some e, u) \<Rightarrow> give_up (RawErr e) | (None, u) \<Rightarrow> give u)"

definition refuse :: "string \<Rightarrow> auth_error" where
  "refuse s = UserRefused s"

section \<open>Private data\<close>

definition masked_email :: string where "masked_email = ''####.#######@######.###''"

definition masked_name :: string where "masked_name = ''##### ##########''"

definition mask_email :: "user_env \<Rightarrow> auser \<Rightarrow> bool" where
  "mask_email env u \<longleftrightarrow> ue_mask_email env \<and> \<not> ue_can_unmask_email env u"

definition mask_name :: "user_env \<Rightarrow> auser \<Rightarrow> bool" where
  "mask_name env u \<longleftrightarrow> ue_mask_name env \<and> \<not> ue_can_unmask_name env u"

definition handle_private_data :: "user_env \<Rightarrow> auser \<Rightarrow> auser" where
  "handle_private_data env u =
     (let v = (if mask_email env u then u\<lparr>us_email := masked_email\<rparr> else u)
      in if mask_name env v then v\<lparr>us_name := masked_name\<rparr> else v)"

section \<open>Finding\<close>

definition proc_user :: "user_env \<Rightarrow> auser auth_op \<Rightarrow> auser auth_op" where
  "proc_user env m =
     andthen (reified m) (\<lambda>r. case r of
       Inl (e, v) \<Rightarrow> give_up (if e = NotFound then refuse ''user not found'' else e)
     | Inr u \<Rightarrow> give (handle_private_data env u))"

definition find_user :: "user_env \<Rightarrow> auser auth_op \<Rightarrow> auser auth_op" where
  "find_user env m =
     andthen (proc_user env m) (\<lambda>u. andthen (require (ue_can_read env u) (refuse ''read'')) (\<lambda>_. give u))"

definition find_user_by_id :: "user_env \<Rightarrow> u64 \<Rightarrow> auser auth_op" where
  "find_user_by_id env i =
     andthen (require (i \<noteq> 0) (refuse ''invalid ID'')) (\<lambda>_. find_user env (user_by_id (ue_auth env) i))"

definition find_user_by_email :: "user_env \<Rightarrow> string \<Rightarrow> auser auth_op" where
  "find_user_by_email env s = find_user env (user_by_email (ue_auth env) s)"

definition find_user_by_handle :: "user_env \<Rightarrow> string \<Rightarrow> auser auth_op" where
  "find_user_by_handle env s = find_user env (user_by_handle (ue_auth env) s)"

text \<open>A number or an identity, a text, anything else.\<close>

datatype user_ref = UserNumber u64 | UserText string | UserOther

definition find_user_by_any :: "user_env \<Rightarrow> user_ref \<Rightarrow> auser auth_op" where
  "find_user_by_any env r =
     andthen (case r of
         UserNumber i \<Rightarrow> find_user_by_id env i
       | UserText s \<Rightarrow>
           if 0 < uint_value s then find_user_by_id env (uint_value s)
           else if List.member s CHR ''@'' then find_user_by_email env s
           else find_user_by_handle env s
       | UserOther \<Rightarrow> give_up (refuse ''invalid ID''))
     (\<lambda>u. andthen (member_roles (ue_auth env) (us_id u)) (\<lambda>rr. give (u\<lparr>us_roles := rr\<rparr>)))"

section \<open>Changing\<close>

definition check_user_limits :: "user_env \<Rightarrow> unit auth_op" where
  "check_user_limits env =
     (if ue_limit env = 0 then give ()
      else andthen (count_valid_users (ue_auth env)) (\<lambda>n. require (n < ue_limit env) MaxUserLimit))"

definition create_auser :: "user_env \<Rightarrow> auser \<Rightarrow> auser auth_op" where
  "create_auser env new =
     andthen (require (ue_can_create env) (refuse ''create'')) (\<lambda>_.
     andthen (require (us_kind new \<noteq> system_user) (refuse ''create system'')) (\<lambda>_.
     andthen (require (valid_handle (us_handle new)) InvalidHandle) (\<lambda>_.
     andthen (require (ue_address env (us_email new)) InvalidEmailFormat) (\<lambda>_.
     andthen (check_user_limits env) (\<lambda>_.
     andthen (user_hook env ''beforeCreate'' new None) (\<lambda>new.
     andthen (create_user_handle (ue_auth env) new) (\<lambda>new.
     andthen (unique_user_check (ue_auth env) new) (\<lambda>_.
     andthen (next_id (ue_auth env)) (\<lambda>i.
     let u = new\<lparr>us_id := i, us_created := ae_now (ue_auth env), us_confirmed := True\<rparr> in
     andthen (create_user (ue_auth env) u) (\<lambda>_. give u))))))))))"

text \<open>The update with an avatar creates a user.\<close>

definition update_with_avatar :: "user_env \<Rightarrow> auser \<Rightarrow> auser auth_op" where
  "update_with_avatar env = create_auser env"

text \<open>What handlers make of the change is not stored: the fields are copied before they run.\<close>

definition change_auser :: "user_env \<Rightarrow> auser \<Rightarrow> auser auth_op" where
  "change_auser env upd =
     andthen (require (us_id upd \<noteq> 0) (refuse ''invalid ID'')) (\<lambda>_.
     andthen (require (valid_handle (us_handle upd)) InvalidHandle) (\<lambda>_.
     andthen (require (ue_address env (us_email upd)) InvalidEmailFormat) (\<lambda>_.
     andthen (user_by_id (ue_auth env) (us_id upd)) (\<lambda>u.
     andthen (require (us_kind upd \<noteq> system_user \<and> us_kind u \<noteq> system_user) (refuse ''update system'')) (\<lambda>_.
     andthen (require (us_id upd = ae_identity (ue_auth env) \<or> ue_can_update env u) (refuse ''update'')) (\<lambda>_.
     let v = u\<lparr>us_email := us_email upd, us_username := us_username upd, us_name := us_name upd,
              us_handle := us_handle upd, us_kind := us_kind upd, us_updated := Some (ae_now (ue_auth env))\<rparr> in
     andthen (user_hook env ''beforeUpdate'' upd (Some v)) (\<lambda>_.
     andthen (unique_user_check (ue_auth env) v) (\<lambda>_.
     andthen (update_user (ue_auth env) v) (\<lambda>_. give v)))))))))"

definition toggle_confirmation :: "user_env \<Rightarrow> u64 \<Rightarrow> bool \<Rightarrow> unit auth_op" where
  "toggle_confirmation env i b =
     andthen (require (i \<noteq> 0) (refuse ''invalid ID'')) (\<lambda>_.
     andthen (user_by_id (ue_auth env) i) (\<lambda>u.
     andthen (require (i = ae_identity (ue_auth env) \<or> ue_can_update env u) (refuse ''update'')) (\<lambda>_.
     update_user (ue_auth env) (u\<lparr>us_confirmed := b\<rparr>))))"

definition delete_auser :: "user_env \<Rightarrow> u64 \<Rightarrow> unit auth_op" where
  "delete_auser env i =
     andthen (require (i \<noteq> 0) (refuse ''invalid ID'')) (\<lambda>_.
     andthen (user_by_id (ue_auth env) i) (\<lambda>u.
     andthen (require (us_kind u \<noteq> system_user) (refuse ''delete'')) (\<lambda>_.
     andthen (require (ue_can_delete env u) (refuse ''delete'')) (\<lambda>_.
     andthen (user_hook env ''beforeDelete'' u (Some u)) (\<lambda>_.
     andthen (update_user (ue_auth env) (u\<lparr>us_deleted := Some (ae_now (ue_auth env))\<rparr>)) (\<lambda>_.
     remove_access_tokens (ue_auth env) (us_id u)))))))"

definition undelete_auser :: "user_env \<Rightarrow> u64 \<Rightarrow> unit auth_op" where
  "undelete_auser env i =
     andthen (require (i \<noteq> 0) (refuse ''invalid ID'')) (\<lambda>_.
     andthen (user_by_id (ue_auth env) i) (\<lambda>u.
     andthen (unique_user_check (ue_auth env) u) (\<lambda>_.
     andthen (require (us_kind u \<noteq> system_user) (refuse ''delete'')) (\<lambda>_.
     andthen (check_user_limits env) (\<lambda>_.
     andthen (require (ue_can_delete env u) (refuse ''delete'')) (\<lambda>_.
     update_user (ue_auth env) (u\<lparr>us_deleted := None\<rparr>)))))))"

definition suspend_auser :: "user_env \<Rightarrow> u64 \<Rightarrow> unit auth_op" where
  "suspend_auser env i =
     andthen (require (i \<noteq> 0) (refuse ''invalid ID'')) (\<lambda>_.
     andthen (user_by_id (ue_auth env) i) (\<lambda>u.
     andthen (require (us_kind u \<noteq> system_user) (refuse ''suspend'')) (\<lambda>_.
     andthen (require (ue_can_suspend env u) (refuse ''suspend'')) (\<lambda>_.
     andthen (user_hook env ''beforeSuspend'' (u\<lparr>us_suspended := Some (ae_now (ue_auth env))\<rparr>) (Some u)) (\<lambda>v.
     andthen (update_user (ue_auth env) v) (\<lambda>_.
     remove_access_tokens (ue_auth env) (us_id v)))))))"

definition unsuspend_auser :: "user_env \<Rightarrow> u64 \<Rightarrow> unit auth_op" where
  "unsuspend_auser env i =
     andthen (require (i \<noteq> 0) (refuse ''invalid ID'')) (\<lambda>_.
     andthen (user_by_id (ue_auth env) i) (\<lambda>u.
     andthen (require (us_kind u \<noteq> system_user) (refuse ''unsuspend'')) (\<lambda>_.
     andthen (require (ue_can_unsuspend env u) (refuse ''unsuspend'')) (\<lambda>_.
     andthen (check_user_limits env) (\<lambda>_.
     update_user (ue_auth env) (u\<lparr>us_suspended := None\<rparr>))))))"

text \<open>The tokens are removed before the password is looked at.\<close>

definition set_user_password :: "user_env \<Rightarrow> u64 \<Rightarrow> string \<Rightarrow> unit auth_op" where
  "set_user_password env i password =
     andthen (user_by_id (ue_auth env) i) (\<lambda>u.
     andthen (require (us_kind u \<noteq> system_user) (refuse ''update system'')) (\<lambda>_.
     andthen (require (ue_can_update env u) (refuse ''update'')) (\<lambda>_.
     andthen (remove_access_tokens (ue_auth env) (us_id u)) (\<lambda>_.
     if password = [] then remove_password_credentials (ue_auth env) i
     else
       andthen (require (check_password_strength (ae_settings (ue_auth env)) password) PasswordNotSecure) (\<lambda>_.
       set_password_credentials (ue_auth env) i password)))))"

definition delete_auth_tokens :: "user_env \<Rightarrow> u64 \<Rightarrow> unit auth_op" where
  "delete_auth_tokens env i =
     andthen (require (i \<noteq> 0) (refuse ''invalid ID'')) (\<lambda>_. remove_access_tokens (ue_auth env) i)"

end
