(* ===== verification/UserProps.thy ===== *)
theory UserProps
  imports UserService AuthProps Triple
begin

text \<open>
  What the service of users promises: the number of users who can log in stays within the limit,
  whatever requests are made and whichever calls of the store fail; and what it does not.
\<close>

section \<open>Operations that leave the users\<close>

definition users_view :: "auth_state \<Rightarrow> auser list" where
  "users_view st = db_users (au_db st)"

definition leaves_users :: "'a auth_op \<Rightarrow> bool" where
  "leaves_users m \<longleftrightarrow> (\<forall>st. users_view (snd (m st)) = users_view st)"

lemma leaves_then:
  assumes "leaves_users m" and "\<And>x. leaves_users (f x)"
  shows "leaves_users (andthen m f)"
  unfolding leaves_users_def
proof
  fix st
  obtain r s where run: "m st = (r, s)" by (cases "m st")
  with assms(1) have "users_view s = users_view st" by (metis leaves_users_def snd_conv)
  moreover have "users_view (snd (f x s)) = users_view s" for x using assms(2) by (simp add: leaves_users_def)
  ultimately show "users_view (snd (andthen m f st)) = users_view st"
    by (cases r) (simp_all add: andthen_def run)
qed

lemma leaves_basic [simp]:
  "leaves_users (give x)" "leaves_users (give_up e)" "leaves_users (require b e)" "leaves_users (found r)"
  by (simp_all add: leaves_users_def give_def give_up_def require_def found_def split: option.split)

lemma leaves_pair [simp]: "leaves_users (Pair (Inr x))"
  by (simp add: leaves_users_def)

lemma leaves_reified [simp]: "leaves_users m \<Longrightarrow> leaves_users (reified m)"
  by (simp add: leaves_users_def reified_total)

lemma leaves_call [simp]: "leaves_users (store_call env)"
  by (simp add: leaves_users_def users_view_def)

lemma leaves_query [simp]: "leaves_users (query env q)"
  unfolding query_def by (rule leaves_then, simp, simp add: leaves_users_def)

lemma leaves_write [simp]: "(\<And>db. db_users (w db) = db_users db) \<Longrightarrow> leaves_users (store_write env w)"
  unfolding store_write_def by (rule leaves_then, simp, simp add: leaves_users_def users_view_def)

lemma leaves_insert [simp]: "(\<And>db. db_users (w db) = db_users db) \<Longrightarrow> leaves_users (db_insert env taken w)"
  unfolding db_insert_def by (rule leaves_then, simp, simp add: leaves_users_def users_view_def)

lemma leaves_lookup [simp]:
  "leaves_users (user_by_id env i)" "leaves_users (user_by_text env f s)" "leaves_users (user_by_email env s)"
  "leaves_users (user_by_handle env s)" "leaves_users (user_by_username env s)"
  by (simp_all add: user_by_id_def user_by_text_def user_by_email_def user_by_handle_def user_by_username_def leaves_then)

lemma leaves_constraints [simp]: "leaves_users (check_user_constraints env u)"
  by (auto simp: check_user_constraints_def check_user_unique_def intro!: leaves_then split: sum.split)

lemma leaves_unique [simp]: "leaves_users (unique_user_check env u)"
  unfolding unique_user_check_def user_unique_def by (auto intro!: leaves_then)

lemma leaves_hook [simp]: "leaves_users (user_hook env ev new old)"
  unfolding user_hook_def by (auto split: prod.split option.split)

lemma leaves_cast [simp]: "leaves_users (cast_handle env cc)"
  by (induction cc) (auto simp: Let_def intro!: leaves_then)

lemma leaves_handle [simp]: "leaves_users (create_user_handle env u)"
  unfolding create_user_handle_def by (auto simp del: cast_handle.simps intro: leaves_then)

lemma leaves_next_id [simp]: "leaves_users (next_id env)"
  by (simp add: leaves_users_def next_id_def users_view_def)

lemma leaves_tokens [simp]: "leaves_users (remove_access_tokens env i)"
  by (simp add: remove_access_tokens_def)

lemma leaves_creds [simp]: "leaves_users (update_creds env cc)"
  by (induction cc) (auto intro: leaves_then)

lemma leaves_remove_password [simp]: "leaves_users (remove_password_credentials env i)"
  unfolding remove_password_credentials_def search_creds_def by (auto intro!: leaves_then split: sum.split)

lemma leaves_set_password [simp]: "leaves_users (set_password_credentials env i password)"
proof -
  have "leaves_users (hash_password env password)"
    by (simp add: leaves_users_def hash_password_def split: option.split)
  then show ?thesis
    unfolding set_password_credentials_def create_cred_def by (auto intro!: leaves_then)
qed

lemma leaves_limits [simp]: "leaves_users (check_user_limits env)"
  unfolding check_user_limits_def count_valid_users_def by (auto intro: leaves_then)

section \<open>Counting\<close>

definition valid_normal :: "auser \<Rightarrow> bool" where
  "valid_normal u \<longleftrightarrow> us_kind u = [] \<and> us_deleted u = None \<and> us_suspended u = None"

definition valid_count :: "auser list \<Rightarrow> nat" where
  "valid_count us = length (filter valid_normal us)"

definition put_auser :: "auser \<Rightarrow> auser list \<Rightarrow> auser list" where
  "put_auser u = map (\<lambda>v. if us_id v = us_id u then u\<lparr>us_roles := []\<rparr> else v)"

lemma put_auser_absent: "us_id u \<notin> us_id ` set us \<Longrightarrow> put_auser u us = us"
  unfolding put_auser_def by (rule map_idI) (metis (full_types) image_eqI)

lemma valid_normal_roles [simp]: "valid_normal (u\<lparr>us_roles := rr\<rparr>) = valid_normal u"
  by (simp add: valid_normal_def)

text \<open>A row that is replaced counts at most for one more, and for none more if the one before it counted.\<close>

lemma valid_count_put:
  assumes "distinct (map us_id us)"
  shows "valid_count (put_auser u us) \<le> Suc (valid_count us)"
    and "\<not> valid_normal u \<or> (\<exists>v \<in> set us. us_id v = us_id u \<and> valid_normal v) \<Longrightarrow>
      valid_count (put_auser u us) \<le> valid_count us"
  using assms
proof (induction us)
  case (Cons v us)
  {
    case 1
    show ?case
    proof (cases "us_id v = us_id u")
      case True
      with 1 have "put_auser u us = us" by (intro put_auser_absent) auto
      with True show ?thesis by (simp add: put_auser_def valid_count_def)
    next
      case False
      with Cons.IH(1) 1 show ?thesis by (simp add: put_auser_def valid_count_def)
    qed
  next
    case 2
    show ?case
    proof (cases "us_id v = us_id u")
      case True
      with 2(2) have "put_auser u us = us" by (intro put_auser_absent) auto
      moreover have "valid_normal u \<Longrightarrow> valid_normal v" using 2 True by (auto simp: image_iff)
      ultimately show ?thesis using True by (auto simp: put_auser_def valid_count_def)
    next
      case False
      with Cons.IH(2) 2 show ?thesis by (auto simp: put_auser_def valid_count_def)
    qed
  }
qed (simp_all add: put_auser_def valid_count_def)

definition within :: "nat \<Rightarrow> auser list \<Rightarrow> bool" where
  "within l us \<longleftrightarrow> distinct (map us_id us) \<and> valid_count us \<le> l"

section \<open>Triples\<close>

abbreviation utriple :: "(auser list \<Rightarrow> bool) \<Rightarrow> (auser list \<Rightarrow> bool) \<Rightarrow> 'a auth_op \<Rightarrow> ('a \<Rightarrow> auser list \<Rightarrow> bool) \<Rightarrow> bool" where
  "utriple \<equiv> otriple users_view"

lemma utriple_then: "utriple J p m q \<Longrightarrow> (\<And>x. utriple J (q x) (f x) r) \<Longrightarrow> utriple J p (andthen m f) r"
  unfolding andthen_def by (rule otriple_bind)

lemma utriple_leaves: "leaves_users m \<Longrightarrow> (\<And>v. p v \<Longrightarrow> J v) \<Longrightarrow> utriple J p m (\<lambda>_. p)"
  by (rule otriple_reads) (simp_all add: leaves_users_def)

lemma utriple_first:
  "leaves_users m \<Longrightarrow> (\<And>v. p v \<Longrightarrow> J v) \<Longrightarrow> (\<And>x. utriple J p (f x) r) \<Longrightarrow> utriple J p (andthen m f) r"
  by (rule utriple_then [OF utriple_leaves])

lemma utriple_require: "(\<And>v. p v \<Longrightarrow> J v) \<Longrightarrow> utriple J p (require b e) (\<lambda>_ v. p v \<and> b)"
  by (simp add: otriple_def require_def give_def give_up_def)

lemma utriple_user:
  assumes "\<And>v. p v \<Longrightarrow> J v"
  shows "utriple J p (user_by_id env i) (\<lambda>u v. p v \<and> u \<in> set v \<and> us_id u = i)"
  using assms
  by (auto simp: otriple_def user_by_id_def query_def andthen_def store_call_def Let_def found_def give_def give_up_def
      users_view_def split: option.split dest: find_SomeD)

text \<open>A user is stored where the row there counts as much, or there is room for one more.\<close>

lemma within_update:
  "utriple (within l) (\<lambda>v. within l v \<and> (valid_normal u \<longrightarrow> valid_count v < l \<or>
      (\<exists>w \<in> set v. us_id w = us_id u \<and> valid_normal w))) (update_user env u) (\<lambda>_. within l)"
proof -
  have put: "map (\<lambda>v. if us_id v = us_id u then u\<lparr>us_roles := []\<rparr> else v) us = put_auser u us" for us
    by (simp add: put_auser_def)
  have ids: "map us_id (put_auser u us) = map us_id us" for us by (simp add: put_auser_def)
  have count: "valid_count (put_auser u us) \<le> l"
    if "within l us" "valid_normal u \<longrightarrow> valid_count us < l \<or> (\<exists>w \<in> set us. us_id w = us_id u \<and> valid_normal w)" for us
    using valid_count_put [of us u] that unfolding within_def by linarith
  show ?thesis
    unfolding update_user_def
    by (rule utriple_first, simp, simp)
      (auto simp: otriple_def store_write_def andthen_def store_call_def Let_def users_view_def put within_def ids
        split: option.split intro: count [unfolded within_def])
qed

lemma within_create:
  "utriple (within l) (\<lambda>v. within l v \<and> valid_count v < l) (create_user env u) (\<lambda>_. within l)"
  unfolding create_user_def
  by (rule utriple_first, simp, simp)
    (auto simp: otriple_def db_insert_def andthen_def store_call_def Let_def users_view_def within_def list_ex_iff
      valid_count_def split: option.split)

lemma within_limits:
  assumes "ue_limit env = l" and "0 < l"
  shows "utriple (within l) (\<lambda>v. within l v \<and> p v) (check_user_limits env) (\<lambda>_ v. (within l v \<and> p v) \<and> valid_count v < l)"
  using assms
  by (auto simp: otriple_def check_user_limits_def count_valid_users_def query_def andthen_def store_call_def Let_def
      require_def give_def give_up_def users_view_def valid_count_def valid_normal_def [abs_def] split: option.split)

section \<open>Requests\<close>

datatype user_request =
  CreateUser auser | UpdateAvatar auser | ChangeUser auser | ToggleUser u64 bool | DeleteUser u64 | UndeleteUser u64
| SuspendUser u64 | UnsuspendUser u64 | PasswordUser u64 string | TokensUser u64

fun user_do :: "user_env \<Rightarrow> user_request \<Rightarrow> auth_state \<Rightarrow> auth_state" where
  "user_do env (CreateUser u) st = snd (create_auser env u st)"
| "user_do env (UpdateAvatar u) st = snd (update_with_avatar env u st)"
| "user_do env (ChangeUser u) st = snd (change_auser env u st)"
| "user_do env (ToggleUser i b) st = snd (toggle_confirmation env i b st)"
| "user_do env (DeleteUser i) st = snd (delete_auser env i st)"
| "user_do env (UndeleteUser i) st = snd (undelete_auser env i st)"
| "user_do env (SuspendUser i) st = snd (suspend_auser env i st)"
| "user_do env (UnsuspendUser i) st = snd (unsuspend_auser env i st)"
| "user_do env (PasswordUser i s) st = snd (set_user_password env i s st)"
| "user_do env (TokensUser i) st = snd (delete_auth_tokens env i st)"

text \<open>A change that leaves the kind of the user.\<close>

definition same_kind :: "auser \<Rightarrow> auser list \<Rightarrow> bool" where
  "same_kind upd us \<longleftrightarrow> (\<forall>v \<in> set us. us_id v = us_id upd \<longrightarrow> us_kind v = us_kind upd)"

definition suspend_hook_keeps :: "user_env \<Rightarrow> bool" where
  "suspend_hook_keeps env \<longleftrightarrow> (\<forall>u old v. ue_before env ''beforeSuspend'' u old = (None, v) \<longrightarrow> us_suspended v = us_suspended u)"

lemma within_after:
  assumes "leaves_users m"
  shows "utriple (within l) (within l) m (\<lambda>_. within l)"
  using assms by (rule utriple_leaves)

lemma within_update_room:
  "utriple (within l) (\<lambda>v. (within l v \<and> p v) \<and> valid_count v < l) (update_user env u) (\<lambda>_. within l)"
  by (rule otriple_weaken [OF within_update]) simp_all

lemma within_update_invalid:
  "\<not> valid_normal u \<Longrightarrow> utriple (within l) (within l) (update_user env u) (\<lambda>_. within l)"
  by (rule otriple_weaken [OF within_update]) simp_all

lemma within_update_alike:
  "(valid_normal u \<Longrightarrow> valid_normal w) \<Longrightarrow> us_id w = us_id u \<Longrightarrow>
   utriple (within l) (\<lambda>v. within l v \<and> w \<in> set v \<and> us_id w = i) (update_user env u) (\<lambda>_. within l)"
  by (rule otriple_weaken [OF within_update]) auto

lemma within_room:
  assumes "ue_limit env = l" and "0 < l"
  shows "utriple (within l) (within l) (check_user_limits env) (\<lambda>_ v. within l v \<and> valid_count v < l)"
  by (rule otriple_weaken [OF within_limits [OF assms, where p = "\<lambda>_. True"]]) simp_all

lemma within_create_auser:
  assumes "ue_limit env = l" and "0 < l"
  shows "utriple (within l) (within l) (create_auser env new) (\<lambda>_. within l)"
proof -
  have rest: "utriple (within l) (\<lambda>v. within l v \<and> valid_count v < l)
      (andthen (create_user (ue_auth env) u) (\<lambda>_. give u)) (\<lambda>_. within l)" for u
    by (rule utriple_then [OF within_create within_after]) simp
  show ?thesis
    unfolding create_auser_def Let_def
    by (rule utriple_first, simp, simp, rule utriple_first, simp, simp, rule utriple_first, simp, simp,
        rule utriple_first, simp, simp, rule utriple_then [OF within_room [OF assms]],
        rule utriple_first, simp, simp, rule utriple_first, simp, simp, rule utriple_first, simp, simp,
        rule utriple_first, simp, simp, rule rest)
qed

lemma within_undelete:
  assumes "ue_limit env = l" and "0 < l"
  shows "utriple (within l) (within l) (undelete_auser env i) (\<lambda>_. within l)"
proof -
  have rest: "utriple (within l) (\<lambda>v. within l v \<and> valid_count v < l) (update_user (ue_auth env) u) (\<lambda>_. within l)" for u
    by (rule otriple_weaken [OF within_update]) simp_all
  show ?thesis
    unfolding undelete_auser_def
    by (rule utriple_first, simp, simp, rule utriple_first, simp, simp, rule utriple_first, simp, simp,
        rule utriple_first, simp, simp, rule utriple_then [OF within_room [OF assms]],
        rule utriple_first, simp, simp, rule rest)
qed

lemma within_unsuspend:
  assumes "ue_limit env = l" and "0 < l"
  shows "utriple (within l) (within l) (unsuspend_auser env i) (\<lambda>_. within l)"
proof -
  have rest: "utriple (within l) (\<lambda>v. within l v \<and> valid_count v < l) (update_user (ue_auth env) u) (\<lambda>_. within l)" for u
    by (rule otriple_weaken [OF within_update]) simp_all
  show ?thesis
    unfolding unsuspend_auser_def
    by (rule utriple_first, simp, simp, rule utriple_first, simp, simp, rule utriple_first, simp, simp,
        rule utriple_first, simp, simp, rule utriple_then [OF within_room [OF assms]], rule rest)
qed

lemma within_delete: "utriple (within l) (within l) (delete_auser env i) (\<lambda>_. within l)"
  unfolding delete_auser_def
  by (rule utriple_first, simp, simp, rule utriple_first, simp, simp, rule utriple_first, simp, simp,
      rule utriple_first, simp, simp, rule utriple_first, simp, simp,
      rule utriple_then [OF within_update_invalid within_after]) (simp_all add: valid_normal_def)

lemma within_suspend:
  assumes "suspend_hook_keeps env"
  shows "utriple (within l) (within l) (suspend_auser env i) (\<lambda>_. within l)"
proof -
  have hook: "utriple (within l) (within l) (user_hook env ''beforeSuspend'' (u\<lparr>us_suspended := Some t\<rparr>) old)
      (\<lambda>v us. within l us \<and> \<not> valid_normal v)" for u t old
    using assms by (auto simp: otriple_def user_hook_def suspend_hook_keeps_def valid_normal_def give_def give_up_def
        split: prod.split option.split)
  have rest: "utriple (within l) (\<lambda>us. within l us \<and> \<not> valid_normal v)
      (andthen (update_user (ue_auth env) v) (\<lambda>_. remove_access_tokens (ue_auth env) (us_id v))) (\<lambda>_. within l)" for v
    by (rule otriple_pure, rule utriple_then [OF within_update_invalid within_after]) simp_all
  show ?thesis
    unfolding suspend_auser_def
    by (rule utriple_first, simp, simp, rule utriple_first, simp, simp, rule utriple_first, simp, simp,
        rule utriple_first, simp, simp, rule utriple_then [OF hook rest])
qed

lemma within_toggle: "utriple (within l) (within l) (toggle_confirmation env i b) (\<lambda>_. within l)"
  unfolding toggle_confirmation_def
  by (rule utriple_first, simp, simp, rule utriple_then [OF utriple_user [where p = "within l"]], simp,
      rule utriple_first, simp, simp, rule within_update_alike) (simp_all add: valid_normal_def)

lemma within_change: "utriple (within l) (\<lambda>v. within l v \<and> same_kind upd v) (change_auser env upd) (\<lambda>_. within l)"
proof -
  let ?v = "\<lambda>u. u\<lparr>us_email := us_email upd, us_username := us_username upd, us_name := us_name upd,
              us_handle := us_handle upd, us_kind := us_kind upd, us_updated := Some (ae_now (ue_auth env))\<rparr>"
  let ?p = "\<lambda>u v. (within l v \<and> same_kind upd v) \<and> u \<in> set v \<and> us_id u = us_id upd"
  have rest: "utriple (within l) (?p u) (andthen (update_user (ue_auth env) (?v u)) (\<lambda>_. give (?v u))) (\<lambda>_. within l)" for u
    by (rule utriple_then [OF otriple_weaken [OF within_update] within_after])
      (auto simp: same_kind_def valid_normal_def)
  show ?thesis
    unfolding change_auser_def Let_def
    by (rule utriple_first, simp, simp, rule utriple_first, simp, simp, rule utriple_first, simp, simp,
        rule utriple_then [OF utriple_user [where p = "\<lambda>v. within l v \<and> same_kind upd v"]], simp,
        rule utriple_first, simp, simp, rule utriple_first, simp, simp,
        rule utriple_first, simp, simp, rule utriple_first, simp, simp, rule rest)
qed

lemma leaves_password_requests:
  "leaves_users (set_user_password env i s)" "leaves_users (delete_auth_tokens env i)"
  unfolding set_user_password_def delete_auth_tokens_def by (auto intro!: leaves_then)

section \<open>Properties\<close>

inductive user_run :: "user_env \<Rightarrow> auth_state \<Rightarrow> auth_state \<Rightarrow> bool" for env st where
  start: "user_run env st st"
| request: "user_run env st s \<Longrightarrow> (\<And>u. q = ChangeUser u \<Longrightarrow> same_kind u (users_view s)) \<Longrightarrow> user_run env st (user_do env q s)"

lemma within_step:
  assumes "ue_limit env = l" and "0 < l" and "suspend_hook_keeps env" and "within l (users_view s)"
    and "\<And>u. q = ChangeUser u \<Longrightarrow> same_kind u (users_view s)"
  shows "within l (users_view (user_do env q s))"
proof (cases q)
  case (ChangeUser u)
  with assms(4,5) otriple_snd [OF within_change [of l u env]] show ?thesis by simp
qed (use otriple_snd [OF within_create_auser [OF assms(1,2)] assms(4)] otriple_snd [OF within_toggle assms(4)]
    otriple_snd [OF within_delete assms(4)] otriple_snd [OF within_undelete [OF assms(1,2)] assms(4)]
    otriple_snd [OF within_suspend [OF assms(3)] assms(4)] otriple_snd [OF within_unsuspend [OF assms(1,2)] assms(4)]
    otriple_snd [OF within_after [OF leaves_password_requests(1)] assms(4)]
    otriple_snd [OF within_after [OF leaves_password_requests(2)] assms(4)]
    in \<open>simp_all add: update_with_avatar_def\<close>)


definition demo_user_env :: user_env where
  "demo_user_env = \<lparr>ue_auth = demo_auth_env, ue_limit = 1, ue_mask_email = False, ue_mask_name = False,
     ue_address = (\<lambda>_. True), ue_before = (\<lambda>_ u _. (None, u)), ue_can_create = True, ue_can_read = (\<lambda>_. True),
     ue_can_update = (\<lambda>_. True), ue_can_delete = (\<lambda>_. True), ue_can_suspend = (\<lambda>_. True),
     ue_can_unsuspend = (\<lambda>_. True), ue_can_unmask_email = (\<lambda>_. True), ue_can_unmask_name = (\<lambda>_. True)\<rparr>"

definition demo_bob :: auser where
  "demo_bob = demo_auser\<lparr>us_id := 9, us_username := ''bob'', us_email := ''bob@x.si'', us_name := ''Bob'', us_handle := ''bob''\<rparr>"


text \<open>A change of the kind goes past the limit.\<close>

lemma kind_change_exceeds_limit:
  "let bot = demo_bob\<lparr>us_kind := ''bot''\<rparr>;
       st = demo_auth_state\<lparr>au_db := (au_db demo_auth_state)\<lparr>db_users := [demo_auser, bot]\<rparr>\<rparr> in
   valid_count (users_view st) = 1 \<and> valid_count (users_view (user_do demo_user_env (ChangeUser demo_bob) st)) = 2"
  by code_simp

text \<open>A password that is too weak is refused after the tokens of the user are gone.\<close>

lemma refused_password_logs_out:
  assumes "set_user_password env i password st = (Inl (PasswordNotSecure, v), st')" and "reliable (ue_auth env)"
    and "password \<noteq> []" and "\<not> check_password_strength (ae_settings (ue_auth env)) password"
  shows "i \<notin> set (db_tokens (au_db st'))"
  using assms
  by (auto simp: set_user_password_def andthen_def remove_access_tokens_def require_def give_up_def give_def refuse_def
      split: option.splits if_splits dest: find_SomeD)

end
