(* ===== verification/Spec2Isabelle.thy ===== *)
theory Spec2Isabelle
  imports RbacGrant QlFacts StorePageFacts WfSessionFacts WfConvertProps EnvoyBuild RecProps EventMatch EventLock
    AutoProps DalProps AuthProps GwProps RoleProps UserProps
begin

text \<open>
  A verification library for the Corteza server, a low-code platform written in Go: the parts that
  decide, compute and coordinate are modelled as HOL functions, records and step relations, one
  theory per component, in the order of the code; parsing of HTTP requests, SQL drivers and other
  input and output are parameters.

  \<^bold>\<open>Parts and how they interact.\<close> Requests reach services. A service asks the access control
  (\<^verbatim>\<open>pkg/rbac\<close>) whether the user may do what is asked, reads and writes pages of rows through the store
  (\<^verbatim>\<open>store\<close>, \<^verbatim>\<open>pkg/filter\<close>), whose filters are written in a query language (\<^verbatim>\<open>pkg/ql\<close>), and
  tells the event bus (\<^verbatim>\<open>pkg/eventbus\<close>) what it does before and after. Records of user-defined
  modules go through a sanitizer and a validator (\<^verbatim>\<open>compose/service\<close>) and are kept by the data access
  layer (\<^verbatim>\<open>pkg/dal\<close>). Workflows (\<^verbatim>\<open>automation\<close>) are graphs that sessions execute
  (\<^verbatim>\<open>pkg/wfexec\<close>); their triggers are handlers of the event bus, which the scheduler
  (\<^verbatim>\<open>pkg/scheduler\<close>) feeds with regular events. Who a user is, is settled by the authentication
  service (\<^verbatim>\<open>system/service/auth.go\<close>) from the credentials it keeps in the store; requests from outside that do
  not go to a service go through the gateway (\<^verbatim>\<open>pkg/apigw\<close>) and the filters of its routes. Whole configurations are imported in an order that
  respects their references (\<^verbatim>\<open>pkg/envoy\<close>).

  \<^bold>\<open>Shared vocabulary.\<close> \<^verbatim>\<open>Prelude\<close> has Go's package \<^verbatim>\<open>strings\<close> and facts on lists, \<^verbatim>\<open>Decimal\<close> numbers in
  decimal notation, \<^verbatim>\<open>SliceUtil\<close> \<^verbatim>\<open>pkg/slice\<close>, \<^verbatim>\<open>Handle\<close> \<^verbatim>\<open>pkg/handle\<close>,
  \<^verbatim>\<open>Triple\<close> triples over a view of the state, in which the invariants of roles and users are proved. A Go string is a list of
  bytes, a 64 bit integer a \<^typ>\<open>64 word\<close>, an error a text on the left of a sum, a nil pointer
  \<^const>\<open>None\<close>; a panic is a value of its own where the code can panic, and so is not returning where it can loop.

  \<^bold>\<open>Access control.\<close> \<^verbatim>\<open>RbacResource\<close>, \<^verbatim>\<open>RbacRule\<close>, \<^verbatim>\<open>RbacEvaluate\<close>, \<^verbatim>\<open>RbacMerge\<close>, \<^verbatim>\<open>RbacStore\<close>,
  \<^verbatim>\<open>RbacService\<close> and \<^verbatim>\<open>RbacGrant\<close> model \<^verbatim>\<open>resource.go\<close>, \<^verbatim>\<open>rule.go\<close>, \<^verbatim>\<open>role.go\<close>, \<^verbatim>\<open>rules_evaluator.go\<close>,
  \<^verbatim>\<open>ruleset_utils.go\<close> and \<^verbatim>\<open>service.go\<close>. The lemmas show which rule decides, when the decision is
  unique, that merging rules is an override of maps, that the index of the service agrees with its
  rules in every reachable state, and that a grant that succeeds is in the store.

  \<^bold>\<open>Query language.\<close> \<^verbatim>\<open>QlLexer\<close>, \<^verbatim>\<open>QlAst\<close>, \<^verbatim>\<open>QlParser\<close> and \<^verbatim>\<open>QlReduce\<close> model the scanner, the nodes, the
  parser and the reduction of operators by weight; \<^verbatim>\<open>QlTotal\<close> shows that the fuel of the parser,
  twice the length of the input and 8, is always enough, so that parsing ends on every input;
  \<^verbatim>\<open>QlFacts\<close> has the reading of quoted strings.

  \<^bold>\<open>Sorting, paging and the store.\<close> \<^verbatim>\<open>FilterSort\<close> and \<^verbatim>\<open>FilterPaging\<close> model \<^verbatim>\<open>pkg/filter\<close>, \<^verbatim>\<open>StoreCursor\<close> the
  SQL condition of a cursor, \<^verbatim>\<open>StorePage\<close> the paged search of the generated store (on one of its
  resources, as all are generated from one template), with the limit of 100 refetches the
  code has. \<^verbatim>\<open>StorePageFacts\<close> shows that following the cursors visits every row once, in order.

  \<^bold>\<open>Workflow engine.\<close> \<^verbatim>\<open>WfGraph\<close>, \<^verbatim>\<open>WfState\<close>, \<^verbatim>\<open>WfGateway\<close>, \<^verbatim>\<open>WfLoop\<close>, \<^verbatim>\<open>WfExec\<close> and \<^verbatim>\<open>WfSession\<close> model
  \<^verbatim>\<open>pkg/wfexec\<close> and the iterators of \<^verbatim>\<open>automation\<close>. The execution of a step is one transition of a
  session; what a worker, a client and the clean-up do to the queues and locks are others.
  Delayed and prompted states are copies, calls of clients that block are not taken, steps do not
  change the scope they are given, and an iterator written by a user does not panic. \<^verbatim>\<open>WfExecFacts\<close> and
  \<^verbatim>\<open>WfSessionFacts\<close> show that executions stay on the graph, how loops run, the bounds of the queues,
  and what a stopped session keeps.

  \<^bold>\<open>Workflow definitions.\<close> \<^verbatim>\<open>WfConvert\<close>, \<^verbatim>\<open>WfConvertFacts\<close>, \<^verbatim>\<open>WfConvertGraph\<close> and \<^verbatim>\<open>WfConvertProps\<close> model
  and verify \<^verbatim>\<open>automation/service/workflow_converter.go\<close>: when a definition becomes a graph, that the
  graph is the definition, and that the passes over the steps, of which the number of steps
  and two suffice, come to an end.

  \<^bold>\<open>Automation services.\<close> \<^verbatim>\<open>AutoTrigger\<close>, \<^verbatim>\<open>AutoWorkflow\<close> and \<^verbatim>\<open>AutoExec\<close> model \<^verbatim>\<open>trigger.go\<close>, \<^verbatim>\<open>workflow.go\<close> and
  the start of \<^verbatim>\<open>session.go\<close>. Rows of the store are lists; labels, meta, scope and input are
  texts that are compared and copied; errors of the store are left out; addresses of handlers come from an
  allocator. \<^verbatim>\<open>AutoFacts\<close> and \<^verbatim>\<open>AutoProps\<close> show that the registry of triggers names exactly the
  handlers on the bus, in every reachable state, and what a saved workflow leaves on the bus.

  \<^bold>\<open>Events.\<close> \<^verbatim>\<open>EventBus\<close> models constraints, handlers and dispatchers, \<^verbatim>\<open>EventMatch\<close> what the events of
  resources answer, \<^verbatim>\<open>EventLock\<close> the read-write lock around both as a step relation with any
  number of threads, \<^verbatim>\<open>Scheduler\<close> the ticker and the tests of the present time. The order in which a
  Go map is visited is an argument. \<^verbatim>\<open>EventBusFacts\<close> shows which handlers run, in which order.

  \<^bold>\<open>Import of configurations.\<close> \<^verbatim>\<open>EnvoyRef\<close>, \<^verbatim>\<open>EnvoyGraph\<close>, \<^verbatim>\<open>EnvoyOrder\<close>, \<^verbatim>\<open>EnvoyFacts\<close> and \<^verbatim>\<open>EnvoyBuild\<close> model the
  references, the graph and the builder of \<^verbatim>\<open>pkg/envoy\<close>. A traversal takes at most as many levels
  as there are nodes, and providing all resources at most twice as many rounds and one, which is the fuel.

  \<^bold>\<open>Records.\<close> \<^verbatim>\<open>RecValue\<close>, \<^verbatim>\<open>RecSanitize\<close>, \<^verbatim>\<open>RecValidate\<close>, \<^verbatim>\<open>RecMerge\<close> and \<^verbatim>\<open>RecService\<close> model values of
  records, their sanitizer, validator and merge, and the update of a record. The readers of times and
  floating point numbers, the removal of markup, the expression language and the checkers of references are
  parameters. \<^verbatim>\<open>RecFacts\<close> and \<^verbatim>\<open>RecProps\<close> show normal forms and which values an update keeps.

  \<^bold>\<open>Data access layer.\<close> \<^verbatim>\<open>DalModel\<close>, \<^verbatim>\<open>DalService\<close> and \<^verbatim>\<open>DalOps\<close> model \<^verbatim>\<open>pkg/dal\<close>: models are objects on a
  heap, as callers keep the pointers they register; drivers work on a world. \<^verbatim>\<open>DalFacts\<close> and \<^verbatim>\<open>DalProps\<close> show
  which levels and models are accepted, that the differences of two models lead from one to the
  other, and that operations on records do not call missing drivers.

  \<^bold>\<open>Authentication.\<close> \<^verbatim>\<open>AuthModel\<close> has users, credentials, roles and tokens as tables, the queries of the service and
  the transactions of \<^verbatim>\<open>tx.go\<close>, whose limit of 100 attempts is the one of the code; \<^verbatim>\<open>AuthToken\<close>, \<^verbatim>\<open>AuthPassword\<close>,
  \<^verbatim>\<open>AuthLogin\<close> and \<^verbatim>\<open>AuthMfa\<close> are \<^verbatim>\<open>auth.go\<close>: links sent to users, passwords, logging in and signing up, and
  second factors. Calls of the store are numbered and an oracle says which of them fail; an operation takes
  one instant; handlers of events may change the user they are given; random text, bcrypt and one-time
  codes are parameters. \<^verbatim>\<open>AuthFacts\<close> and \<^verbatim>\<open>AuthProps\<close> show the limit on tokens, that a token works once, what
  a refused one leaves, exactly when a login succeeds, and what setting a password changes.

  \<^bold>\<open>API gateway.\<close> \<^verbatim>\<open>GwPipeline\<close> models the workers of a route, their order and a request as a step relation between
  the request and the workers it started; \<^verbatim>\<open>GwService\<close> the loading of routes and filters, the serving, and the services
  that change their rows. The bodies of filters and the router are parameters. \<^verbatim>\<open>GwProps\<close> shows that the
  gateway runs what the rows say in every reachable state, and that a failed prefilter stops all that follows.

  \<^bold>\<open>Roles and labels.\<close> \<^verbatim>\<open>LabelModel\<close> models \<^verbatim>\<open>pkg/label\<close> and its table, \<^verbatim>\<open>RoleService\<close> \<^verbatim>\<open>system/service/role.go\<close>: the
  rows of roles, members and labels are the state, with the events of changes that wait for their handler and the
  roles the access control has been given, so that it joins the store to \<^verbatim>\<open>pkg/rbac\<close>. \<^verbatim>\<open>LabelFacts\<close> shows what
  a change of labels leaves, \<^verbatim>\<open>RoleProps\<close> that system roles stay, that the access control follows the rows, and
  how the sets of roles a server starts with relate.

  \<^bold>\<open>Users.\<close> \<^verbatim>\<open>UserService\<close> models \<^verbatim>\<open>system/service/user.go\<close> on the tables of authentication: finding users,
  masking what a caller may not see, and every operation that changes a user. Labels, meta data, the search
  with a filter and sessions are left out. \<^verbatim>\<open>UserProps\<close> shows that users stay within the limit as long as no
  change of a user changes the kind, and that such a change can exceed it.

  \<^bold>\<open>Not modelled.\<close> Generated code for requests, events and the other resources of the store; SQL
  drivers and schemas; the decoders and encoders of \<^verbatim>\<open>pkg/envoy\<close>; REST handlers; protocols around
  the server (SCIM, websocket, SAML, OAuth2, federation); start-up, options, logging, mail and
  locale; the expression language itself, which is a third-party package. The components that are left and could be
  modelled next are listed as such in the manifest: message queues, reports, errors, and the services of
  single resources (modules, namespaces, pages, templates), which put together the parts above.
\<close>

end
